(* ===== verification/Go_Prelude.thy ===== *)
theory Go_Prelude
  imports Main
begin

text \<open>
  Shared vocabulary of the development: what the SDK uses of Go itself.

  \<^item> \<open>int64\<close> arithmetic. A Go \<open>int64\<close>/\<open>int\<close>/\<open>time.Duration\<close> is an \<open>int\<close> kept in range by
    \<open>wrap64\<close>, the two's-complement wrap-around; \<open>go_quo\<close> and \<open>go_rem\<close> truncate towards zero.
  \<^item> Strings are byte strings (\<open>string\<close>, one \<open>char\<close> per byte), with \<open>strconv.Itoa\<close>,
    \<open>strconv.Atoi\<close>/\<open>ParseInt(s, 10, 64)\<close> and \<open>strings.TrimSpace\<close>.
  \<^item> Instants are \<open>int\<close> nanoseconds since the Unix epoch; \<open>Unix\<close> is the floor to seconds.
  \<^item> An \<open>(T, error)\<close> pair is a sum \<open>'e + 'a\<close> with \<open>Inl\<close> the error.

  The collections \<open>go_int\<close> (range facts) and \<open>go_str\<close> (string facts) are used by the
  component theories.
\<close>

named_theorems go_int
named_theorems go_str

section \<open>64-bit integers\<close>

definition int64_min :: int where
  "int64_min = - 9223372036854775808"

definition int64_max :: int where
  "int64_max = 9223372036854775807"

definition in_int64 :: "int \<Rightarrow> bool" where
  "in_int64 x \<longleftrightarrow> int64_min \<le> x \<and> x \<le> int64_max"

definition wrap64 :: "int \<Rightarrow> int" where
  "wrap64 x = (x + 9223372036854775808) mod 18446744073709551616 - 9223372036854775808"

lemmas int64_bounds = int64_min_def int64_max_def in_int64_def

lemma in_int64_wrap64 [simp, intro]: "in_int64 (wrap64 x)"
proof -
  have "0 \<le> (x + 9223372036854775808) mod 18446744073709551616"
    and "(x + 9223372036854775808) mod 18446744073709551616 < 18446744073709551616"
    by simp_all
  then show ?thesis unfolding wrap64_def int64_bounds by linarith
qed

lemma wrap64_id [go_int]: "in_int64 x \<Longrightarrow> wrap64 x = x"
  by (simp add: wrap64_def int64_bounds)

lemma wrap64_eq_iff: "wrap64 x = x \<longleftrightarrow> in_int64 x"
  by (metis in_int64_wrap64 wrap64_id)

lemma wrap64_shift:
  obtains k where "wrap64 x = x + k * 18446744073709551616"
proof
  show "wrap64 x = x + (- ((x + 9223372036854775808) div 18446744073709551616)) * 18446744073709551616"
    unfolding wrap64_def by (simp add: minus_mult_div_eq_mod [symmetric] algebra_simps)
qed

lemma wrap64_cong:
  assumes "(a :: int) mod 18446744073709551616 = b mod 18446744073709551616"
  shows "wrap64 a = wrap64 b"
proof -
  have "(a + 9223372036854775808) mod 18446744073709551616 =
        (b + 9223372036854775808) mod 18446744073709551616"
    using assms by (rule mod_add_cong) simp
  then show ?thesis by (simp add: wrap64_def)
qed

lemma wrap64_over:
  assumes "int64_max < x" and "x \<le> int64_max + 18446744073709551616"
  shows "wrap64 x = x - 18446744073709551616"
proof -
  have "in_int64 (x - 18446744073709551616)" using assms by (simp add: int64_bounds)
  then have "wrap64 (x - 18446744073709551616) = x - 18446744073709551616" by (rule wrap64_id)
  moreover have "wrap64 (x - 18446744073709551616) = wrap64 x"
    by (rule wrap64_cong) simp
  ultimately show ?thesis by simp
qed

lemma wrap64_under:
  assumes "x < int64_min" and "int64_min - 18446744073709551616 \<le> x"
  shows "wrap64 x = x + 18446744073709551616"
proof -
  have "in_int64 (x + 18446744073709551616)" using assms by (simp add: int64_bounds)
  then have "wrap64 (x + 18446744073709551616) = x + 18446744073709551616" by (rule wrap64_id)
  moreover have "wrap64 (x + 18446744073709551616) = wrap64 x"
    by (rule wrap64_cong) simp
  ultimately show ?thesis by simp
qed

lemma wrap64_mod [simp]: "wrap64 a mod 18446744073709551616 = a mod 18446744073709551616"
proof -
  obtain k where "wrap64 a = a + k * 18446744073709551616" by (rule wrap64_shift)
  then show ?thesis by simp
qed

lemma wrap64_idem [simp]: "wrap64 (wrap64 a) = wrap64 a"
  by (rule wrap64_cong) simp

lemma wrap64_add_left [simp]: "wrap64 (wrap64 a + b) = wrap64 (a + b)"
  by (rule wrap64_cong, rule mod_add_cong) simp_all

lemma wrap64_add_right [simp]: "wrap64 (a + wrap64 b) = wrap64 (a + b)"
  by (rule wrap64_cong, rule mod_add_cong) simp_all

lemma wrap64_mult_left [simp]: "wrap64 (wrap64 a * b) = wrap64 (a * b)"
  by (rule wrap64_cong, rule mod_mult_cong) simp_all

lemma wrap64_mult_right [simp]: "wrap64 (a * wrap64 b) = wrap64 (a * b)"
  by (rule wrap64_cong, rule mod_mult_cong) simp_all

lemma wrap64_mult_add [simp]: "wrap64 (wrap64 a * c + b) = wrap64 (a * c + b)"
  by (rule wrap64_cong, rule mod_add_cong, rule mod_mult_cong) simp_all

lemma wrap64_add_mult [simp]: "wrap64 (a + wrap64 b * c) = wrap64 (a + b * c)"
  by (rule wrap64_cong, rule mod_add_cong [OF refl], rule mod_mult_cong) simp_all

lemma wrap64_diff_left [simp]: "wrap64 (wrap64 a - b) = wrap64 (a - b)"
  by (rule wrap64_cong, rule mod_diff_cong) simp_all

lemma wrap64_diff_right [simp]: "wrap64 (a - wrap64 b) = wrap64 (a - b)"
  by (rule wrap64_cong, rule mod_diff_cong) simp_all

lemma wrap64_minus_diff [simp]: "wrap64 (- wrap64 a - b) = wrap64 (- a - b)"
  by (rule wrap64_cong, rule mod_diff_cong, rule mod_minus_cong) simp_all

lemma wrap64_diff_mult [simp]: "wrap64 (a - wrap64 b * c) = wrap64 (a - b * c)"
  by (rule wrap64_cong, rule mod_diff_cong [OF refl], rule mod_mult_cong) simp_all

lemma wrap64_0 [simp]: "wrap64 0 = 0"
  by (simp add: wrap64_def)

lemma wrap64_uminus [simp]: "wrap64 (- wrap64 a) = wrap64 (- a)"
  by (rule wrap64_cong, rule mod_minus_cong) simp

definition to_u64 :: "int \<Rightarrow> int" where
  \<comment> \<open>the conversion \<open>uint64(x)\<close>\<close>
  "to_u64 x = x mod 18446744073709551616"

lemma wrap64_to_u64 [simp]: "wrap64 (to_u64 x) = wrap64 x"
  by (rule wrap64_cong) (simp add: to_u64_def)

lemma to_u64_mod [simp]: "to_u64 x mod 18446744073709551616 = x mod 18446744073709551616"
  by (simp add: to_u64_def)

lemma in_int64_between: "in_int64 x \<Longrightarrow> in_int64 z \<Longrightarrow> x \<le> y \<Longrightarrow> y \<le> z \<Longrightarrow> in_int64 y"
  by (simp add: in_int64_def)

definition go_quo :: "int \<Rightarrow> int \<Rightarrow> int" where
  \<comment> \<open>Go's \<open>/\<close> on int64: truncates towards zero; \<open>MinInt64 / -1\<close> wraps.\<close>
  "go_quo a b = wrap64 (sgn a * sgn b * (\<bar>a\<bar> div \<bar>b\<bar>))"

definition go_rem :: "int \<Rightarrow> int \<Rightarrow> int" where
  \<comment> \<open>Go's \<open>%\<close>: the sign of the dividend.\<close>
  "go_rem a b = sgn a * (\<bar>a\<bar> mod \<bar>b\<bar>)"

lemma go_quo_nonneg [go_int]:
  assumes "0 \<le> a" and "0 < b" and "in_int64 a"
  shows "go_quo a b = a div b"
proof -
  have "0 \<le> a div b" using assms by (simp add: pos_imp_zdiv_nonneg_iff)
  moreover have "a div b \<le> a"
    using assms zdiv_mono2 [of a 1 b] by simp
  ultimately have "in_int64 (a div b)" using assms(3) by (simp add: int64_bounds)
  moreover have "sgn a * sgn b * (\<bar>a\<bar> div \<bar>b\<bar>) = a div b"
    using assms by (cases "a = 0") simp_all
  ultimately show ?thesis unfolding go_quo_def by (simp add: wrap64_id)
qed

lemma go_rem_nonneg [go_int]: "0 \<le> a \<Longrightarrow> 0 < b \<Longrightarrow> go_rem a b = a mod b"
  unfolding go_rem_def by (cases "a = 0") simp_all

section \<open>Bytes, decimal strings\<close>

definition is_digit :: "char \<Rightarrow> bool" where
  "is_digit c \<longleftrightarrow> 48 \<le> (of_char c :: int) \<and> (of_char c :: int) \<le> 57"

definition digit_of :: "char \<Rightarrow> int" where
  "digit_of c = of_char c - 48"

definition digit_char :: "nat \<Rightarrow> char" where
  "digit_char d = char_of (48 + d)"

lemma digit_char_props [go_str]:
  assumes "d < 10"
  shows "is_digit (digit_char d)" and "digit_of (digit_char d) = int d"
proof -
  have "of_char (digit_char d) = 48 + d" using assms by (simp add: digit_char_def)
  then have "(of_char (digit_char d) :: int) = 48 + int d"
    by (metis of_nat_add of_nat_numeral of_nat_of_char)
  then show "is_digit (digit_char d)" and "digit_of (digit_char d) = int d"
    using assms by (simp_all add: is_digit_def digit_of_def)
qed

lemma digit_of_range: "is_digit c \<Longrightarrow> 0 \<le> digit_of c \<and> digit_of c \<le> 9"
  by (simp add: is_digit_def digit_of_def)

fun digits_val :: "int \<Rightarrow> string \<Rightarrow> int" where
  \<comment> \<open>value of a digit string after the digits read so far\<close>
  "digits_val acc [] = acc"
| "digits_val acc (c # cs) = digits_val (acc * 10 + digit_of c) cs"

lemma digits_val_append [simp]: "digits_val acc (xs @ ys) = digits_val (digits_val acc xs) ys"
  by (induction xs arbitrary: acc) auto

lemma digits_val_acc: "digits_val acc xs = acc * 10 ^ length xs + digits_val 0 xs"
proof (induction xs arbitrary: acc)
  case (Cons c cs)
  show ?case
    using Cons [of "acc * 10 + digit_of c"] Cons [of "digit_of c"] by (simp add: algebra_simps)
qed simp

lemma wrap64_digits_val [simp]: "wrap64 (digits_val (wrap64 acc) ds) = wrap64 (digits_val acc ds)"
  by (simp add: digits_val_acc [of "wrap64 acc"] digits_val_acc [of acc])

lemma digits_val_bounds:
  assumes "list_all is_digit xs" and "0 \<le> acc"
  shows "acc \<le> digits_val acc xs" and "digits_val acc xs < (acc + 1) * 10 ^ length xs"
  using assms
proof (induction xs arbitrary: acc)
  case (Cons c cs)
  { case 1
    with digit_of_range [of c] have d: "0 \<le> digit_of c" by simp
    with 1 have "acc * 10 + digit_of c \<le> digits_val (acc * 10 + digit_of c) cs"
      by (intro Cons.IH(1)) auto
    with 1 d show ?case by simp
  next
    case 2
    with digit_of_range [of c] have d: "0 \<le> digit_of c" "digit_of c \<le> 9" by simp_all
    with 2 have "digits_val (acc * 10 + digit_of c) cs < (acc * 10 + digit_of c + 1) * 10 ^ length cs"
      by (intro Cons.IH(2)) auto
    also have "\<dots> \<le> (acc * 10 + 10) * 10 ^ length cs"
      using d by (intro mult_right_mono) auto
    finally show ?case by (simp add: algebra_simps)
  }
qed auto

fun nat_digits :: "nat \<Rightarrow> string" where
  "nat_digits n = (if n < 10 then [digit_char n] else nat_digits (n div 10) @ [digit_char (n mod 10)])"

declare nat_digits.simps [simp del]

lemma nat_digits_ne [simp]: "nat_digits n \<noteq> []"
  by (subst nat_digits.simps) simp

lemma nat_digits_digits [simp]: "list_all is_digit (nat_digits n)"
proof (induction n rule: nat_digits.induct)
  case (1 n)
  then show ?case
    by (subst nat_digits.simps) (simp add: go_str)
qed

lemma nat_digits_val [simp]: "digits_val 0 (nat_digits n) = int n"
proof (induction n rule: nat_digits.induct)
  case (1 n)
  show ?case
  proof (cases "n < 10")
    case True
    then show ?thesis by (subst nat_digits.simps) (simp add: go_str)
  next
    case False
    then have "digits_val 0 (nat_digits n) = int (n div 10) * 10 + int (n mod 10)"
      using 1 by (subst nat_digits.simps) (simp add: go_str)
    then show ?thesis by presburger
  qed
qed

definition Itoa :: "int \<Rightarrow> string" where
  "Itoa n = (if n < 0 then CHR ''-'' # nat_digits (nat (- n)) else nat_digits (nat n))"

definition Atoi :: "string \<Rightarrow> int option" where
  \<comment> \<open>\<open>strconv.Atoi(s)\<close>, and \<open>strconv.ParseInt(s, 10, 64)\<close>: one optional sign, then at least one
      digit and nothing else; \<open>None\<close> is the error (syntax or range).\<close>
  "Atoi s =
     (let neg = (s \<noteq> [] \<and> hd s = CHR ''-'');
          ds = (if s \<noteq> [] \<and> (hd s = CHR ''-'' \<or> hd s = CHR ''+'') then tl s else s);
          v = digits_val 0 ds
      in if ds = [] \<or> \<not> list_all is_digit ds then None
         else if in_int64 (if neg then - v else v) then Some (if neg then - v else v)
         else None)"

lemma not_digit_sign [simp]:
  "\<not> is_digit (CHR ''-'')" "\<not> is_digit (CHR ''+'')" "\<not> is_digit (CHR ''.'')"
  "\<not> is_digit (CHR 0x22)" "\<not> is_digit (CHR '' '')"
  by (simp_all add: is_digit_def)

lemma Atoi_digits:
  assumes "ds \<noteq> []" and "list_all is_digit ds"
  shows "Atoi ds = (if in_int64 (digits_val 0 ds) then Some (digits_val 0 ds) else None)"
proof -
  from assms have "hd ds \<noteq> CHR ''-''" "hd ds \<noteq> CHR ''+''"
    by (cases ds; auto)+
  with assms show ?thesis by (simp add: Atoi_def Let_def)
qed

theorem Atoi_Itoa: "in_int64 n \<Longrightarrow> Atoi (Itoa n) = Some n"
  by (cases "n < 0") (simp_all add: Itoa_def Atoi_digits, simp add: Atoi_def)

definition white_space :: "nat list list" where
  \<comment> \<open>the UTF-8 encodings of what \<open>unicode.IsSpace\<close> calls white space\<close>
  "white_space = map (\<lambda>b. [b]) [9, 10, 11, 12, 13, 32] @ [[0xC2, 0x85], [0xC2, 0xA0], [0xE1, 0x9A, 0x80]] @
     map (\<lambda>b. [0xE2, 0x80, b]) ([0x80..<0x8B] @ [0xA8, 0xA9, 0xAF]) @ [[0xE2, 0x81, 0x9F], [0xE3, 0x80, 0x80]]"

definition leading :: "nat list list \<Rightarrow> string \<Rightarrow> nat" where
  \<comment> \<open>the length of the first of the encodings that the string starts with, 0 if there is none\<close>
  "leading es s = (case List.find (\<lambda>e. map of_char (take (length e) s) = e) es of Some e \<Rightarrow> length e | None \<Rightarrow> 0)"

function trim_left :: "nat list list \<Rightarrow> string \<Rightarrow> string" where
  "trim_left es s = (if s = [] \<or> leading es s = 0 then s else trim_left es (drop (leading es s) s))"
  by pat_completeness auto
termination
  by (relation "measure (length \<circ> snd)") auto

declare trim_left.simps [simp del]

definition TrimSpace :: "string \<Rightarrow> string" where
  "TrimSpace s = rev (trim_left (map rev white_space) (rev (trim_left white_space s)))"

definition graphic :: "char \<Rightarrow> bool" where
  \<comment> \<open>a byte that is no part of any white space\<close>
  "graphic c \<longleftrightarrow> 33 \<le> (of_char c :: nat) \<and> (of_char c :: nat) \<le> 127"

lemma digit_graphic: "is_digit c \<Longrightarrow> graphic c"
  using of_nat_of_char [of c, where 'a = int] by (auto simp: is_digit_def graphic_def simp del: of_nat_of_char)

lemma trim_left_id:
  assumes "s = [] \<or> graphic (hd s)" and "\<forall>e \<in> set es. e \<noteq> [] \<and> (hd e < 33 \<or> 127 < hd e)"
  shows "trim_left es s = s"
proof -
  have "leading es s = 0" if "s \<noteq> []"
  proof -
    have "map of_char (take (length e) s) \<noteq> e" if "e \<in> set es" for e
      using assms \<open>s \<noteq> []\<close> that by (cases s; cases e) (force simp: graphic_def)+
    then have "List.find (\<lambda>e. map of_char (take (length e) s) = e) es = None" by (simp add: find_None_iff)
    then show ?thesis by (simp add: leading_def)
  qed
  then show ?thesis by (subst trim_left.simps) auto
qed

lemma white_space_bytes: "\<forall>e \<in> set white_space. e \<noteq> [] \<and> (hd e < 33 \<or> 127 < hd e) \<and> (last e < 33 \<or> 127 < last e)"
  by code_simp

lemma TrimSpace_id: "s = [] \<or> (graphic (hd s) \<and> graphic (last s)) \<Longrightarrow> TrimSpace s = s"
  using trim_left_id [of s white_space] trim_left_id [of "rev s" "map rev white_space"] white_space_bytes
  by (auto simp: TrimSpace_def hd_rev)

section \<open>Time\<close>

definition ns_per_s :: int where
  "ns_per_s = 1000000000"

definition Unix :: "int \<Rightarrow> int" where
  "Unix t = t div ns_per_s"

definition at_s :: "int \<Rightarrow> int" where
  \<comment> \<open>\<open>time.Unix(s, 0)\<close>\<close>
  "at_s s = s * ns_per_s"

definition zero_time :: int where
  \<comment> \<open>the zero \<open>time.Time\<close>, 1 January of year 1 UTC\<close>
  "zero_time = - 62135596800000000000"

lemma Unix_at_s [simp]: "Unix (at_s s) = s"
  by (simp add: Unix_def at_s_def ns_per_s_def)

lemma at_s_eq_iff [simp]: "at_s a = at_s b \<longleftrightarrow> a = b"
  by (simp add: at_s_def ns_per_s_def)

lemma at_s_less_iff [simp]: "at_s a < at_s b \<longleftrightarrow> a < b" "at_s a \<le> at_s b \<longleftrightarrow> a \<le> b"
  by (simp_all add: at_s_def ns_per_s_def)

section \<open>Lists\<close>

lemma sorted_filter_split:
  assumes "sorted_wrt (\<lambda>a b. k b \<le> (k a :: int)) xs"
  shows "filter (\<lambda>x. o' < k x) xs @ filter (\<lambda>x. k x \<le> o') xs = xs"
  using assms
proof (induction xs)
  case (Cons x xs)
  show ?case
  proof (cases "o' < k x")
    case True
    with Cons show ?thesis by auto
  next
    case False
    with Cons.prems have "filter (\<lambda>x. o' < k x) xs = []"
      by (fastforce simp: filter_empty_conv)
    with Cons False show ?thesis by simp
  qed
qed simp

lemma take_filter_sorted:
  assumes "sorted_wrt (\<lambda>a b. k b \<le> (k a :: int)) xs"
  shows "takeWhile (\<lambda>x. o' < k x) xs = filter (\<lambda>x. o' < k x) xs"
  using assms
proof (induction xs)
  case (Cons x xs)
  then have "\<not> o' < k x \<Longrightarrow> filter (\<lambda>x. o' < k x) xs = []"
    by (fastforce simp: filter_empty_conv)
  with Cons show ?case by auto
qed simp

section \<open>Loops with a consumer that may stop\<close>

fun for_each :: "('a \<Rightarrow> 'w \<Rightarrow> bool \<times> 'w) \<Rightarrow> 'a list \<Rightarrow> 'w \<Rightarrow> bool \<times> 'w" where
  \<comment> \<open>\<open>for range\<close> over a list with a consumer that may stop\<close>
  "for_each yield [] w = (True, w)"
| "for_each yield (t # ts) w = (case yield t w of (cont, w1) \<Rightarrow> if \<not> cont then (False, w1) else for_each yield ts w1)"

lemma for_each_append:
  "for_each yield (A @ B) w = (case for_each yield A w of (cont, w1) \<Rightarrow> if \<not> cont then (False, w1) else for_each yield B w1)"
  by (induction A arbitrary: w) (auto split: prod.split)

fun emit :: "('a \<Rightarrow> string) \<Rightarrow> string set \<Rightarrow> ('a \<Rightarrow> 'w \<Rightarrow> bool \<times> 'w) \<Rightarrow> 'a list \<Rightarrow> nat \<Rightarrow> 'w \<Rightarrow> bool \<times> nat \<times> 'w" where
  \<comment> \<open>one page of a paging loop: rows whose key was seen are skipped; whether to go on, how many rows
      were new\<close>
  "emit key seen yield [] newly w = (True, newly, w)"
| "emit key seen yield (tx # txs) newly w =
     (if key tx \<in> seen then emit key seen yield txs newly w
      else case yield tx w of (cont, w1) \<Rightarrow>
          if \<not> cont then (False, newly, w1) else emit key seen yield txs (newly + 1) w1)"

lemma emit_seen: "key ` set A \<subseteq> seen \<Longrightarrow> emit key seen yield (A @ B) n w = emit key seen yield B n w"
  by (induction A) auto

lemma emit_for_each:
  "key ` set B \<inter> seen = {} \<Longrightarrow>
   \<exists>m. emit key seen yield B n w = (fst (for_each yield B w), m, snd (for_each yield B w)) \<and>
       (fst (for_each yield B w) \<longrightarrow> m = n + length B)"
proof (induction B arbitrary: n w)
  case (Cons a B)
  obtain c w1 where y: "yield a w = (c, w1)" by fastforce
  show ?case
  proof (cases c)
    case True
    from Cons.prems have "key ` set B \<inter> seen = {}" by auto
    from Cons.IH [OF this, of "n + 1" w1] True y Cons.prems show ?thesis by auto
  qed (use y Cons.prems in auto)
qed simp

lemma emit_invariant:
  assumes "\<And>x w. J w \<Longrightarrow> J (snd (yield x w))"
  shows "emit key seen yield xs n w = (c, m, w') \<Longrightarrow> J w \<Longrightarrow> J w'"
proof (induction xs arbitrary: n w)
  case (Cons x xs)
  then show ?case using assms [of w x] by (auto split: if_splits prod.splits)
qed simp

section \<open>Lengths in bits\<close>

fun bit_len :: "nat \<Rightarrow> nat" where
  \<comment> \<open>\<open>big.Int.BitLen\<close>\<close>
  "bit_len n = (if n = 0 then 0 else Suc (bit_len (n div 2)))"

declare bit_len.simps [simp del]

end
