(* ===== verification/Currency.thy ===== *)
theory Currency
  imports Go_Prelude
begin

text \<open>
  Package \<open>currency\<close> (\<open>currency/currency.go\<close>): ISO 4217 codes. A \<open>Code\<close> is a Go \<open>int\<close>;
  the three package-level maps are association lists, and \<open>init\<close> is the loop that inverts
  the first of them.
\<close>

section \<open>The tables\<close>

type_synonym currency_code = int

abbreviation (input) UAH :: currency_code where "UAH \<equiv> 980"
abbreviation (input) USD :: currency_code where "USD \<equiv> 840"
abbreviation (input) EUR :: currency_code where "EUR \<equiv> 978"
abbreviation (input) JPY :: currency_code where "JPY \<equiv> 392"
abbreviation (input) KRW :: currency_code where "KRW \<equiv> 410"
abbreviation (input) BHD :: currency_code where "BHD \<equiv> 48"

definition alpha3 :: "(currency_code \<times> string) list" where
  "alpha3 =
    [(980, ''UAH''), (840, ''USD''), (978, ''EUR''), (826, ''GBP''), (985, ''PLN''),
     (756, ''CHF''), (392, ''JPY''), (203, ''CZK''), (124, ''CAD''), (36, ''AUD''),
     (156, ''CNY''), (48, ''BHD''), (400, ''JOD''), (414, ''KWD''), (512, ''OMR''),
     (788, ''TND''), (410, ''KRW'')]"

definition decimals_map :: "(currency_code \<times> nat) list" where
  "decimals_map = [(392, 0), (410, 0), (48, 3), (400, 3), (414, 3), (512, 3), (788, 3)]"

fun currency_init :: "(currency_code \<times> string) list \<Rightarrow> (string \<rightharpoonup> currency_code) \<Rightarrow> (string \<rightharpoonup> currency_code)" where
  \<comment> \<open>\<open>for code, name := range alpha3 { fromAlpha3[name] = code }\<close>; the argument is the order in
      which the map happens to be ranged over\<close>
  "currency_init [] m = m"
| "currency_init ((code, name) # rest) m = currency_init rest (m(name \<mapsto> code))"

definition fromAlpha3 :: "string \<rightharpoonup> currency_code" where
  "fromAlpha3 = currency_init alpha3 Map.empty"

section \<open>Operations\<close>

definition FromAlpha3 :: "string \<Rightarrow> currency_code option" where
  "FromAlpha3 s = fromAlpha3 s"

definition Currency_Parse :: "string \<Rightarrow> currency_code option" where
  \<comment> \<open>\<open>None\<close> is \<open>(0, false)\<close>\<close>
  "Currency_Parse s =
     (case fromAlpha3 s of
        Some c \<Rightarrow> Some c
      | None \<Rightarrow> (case Atoi s of Some n \<Rightarrow> if 0 < n then Some n else None | None \<Rightarrow> None))"

definition Code_String :: "currency_code \<Rightarrow> string" where
  "Code_String c = (case map_of alpha3 c of Some s \<Rightarrow> s | None \<Rightarrow> Itoa c)"

definition Decimals :: "currency_code \<Rightarrow> nat" where
  "Decimals c = (case map_of decimals_map c of Some d \<Rightarrow> d | None \<Rightarrow> 2)"

fun pow10_loop :: "nat \<Rightarrow> int \<Rightarrow> int" where
  \<comment> \<open>the fallback loop of \<open>MinorPerMajor\<close>: \<open>for range n { p *= 10 }\<close>\<close>
  "pow10_loop 0 p = p"
| "pow10_loop (Suc n) p = pow10_loop n (wrap64 (p * 10))"

definition MinorPerMajor :: "currency_code \<Rightarrow> int" where
  "MinorPerMajor c =
     (if Decimals c = 0 then 1
      else if Decimals c = 1 then 10
      else if Decimals c = 2 then 100
      else if Decimals c = 3 then 1000
      else pow10_loop (Decimals c) 1)"

section \<open>Lemmas\<close>

lemma currency_init_map_of:
  "distinct (map snd xs) \<Longrightarrow>
   currency_init xs m s = (case map_of (map prod.swap xs) s of Some c \<Rightarrow> Some c | None \<Rightarrow> m s)"
proof (induction xs m rule: currency_init.induct)
  case (2 code name rest m)
  then have "map_of (map prod.swap rest) name = None"
    by (force simp: map_of_eq_None_iff)
  with 2 show ?case by (auto simp: fun_upd_def split: option.splits)
qed simp

lemma alpha3_distinct: "distinct (map fst alpha3)" "distinct (map snd alpha3)"
  by (simp_all add: alpha3_def)

lemma fromAlpha3_iff: "fromAlpha3 s = Some c \<longleftrightarrow> map_of alpha3 c = Some s"
proof -
  have "map_of (map prod.swap alpha3) s = Some c \<longleftrightarrow> (s, c) \<in> set (map prod.swap alpha3)"
    using alpha3_distinct by (intro map_of_eq_Some_iff) (simp add: comp_def)
  also have "\<dots> \<longleftrightarrow> (c, s) \<in> set alpha3" by force
  also have "\<dots> \<longleftrightarrow> map_of alpha3 c = Some s"
    using alpha3_distinct by (simp add: map_of_eq_Some_iff)
  finally show ?thesis
    unfolding fromAlpha3_def currency_init_map_of [OF alpha3_distinct(2)]
    by (cases "map_of (map prod.swap alpha3) s") simp_all
qed

lemma alpha3_names: "map_of alpha3 c = Some s \<Longrightarrow> s \<noteq> [] \<and> \<not> is_digit (hd s)"
  by (auto simp: alpha3_def is_digit_def split: if_splits)

lemma fromAlpha3_Itoa: "0 < n \<Longrightarrow> fromAlpha3 (Itoa n) = None"
proof (rule ccontr)
  assume n: "0 < n" and "fromAlpha3 (Itoa n) \<noteq> None"
  then obtain c where "map_of alpha3 c = Some (Itoa n)" by (auto simp: fromAlpha3_iff)
  from alpha3_names [OF this] have "\<not> list_all is_digit (Itoa n)" by (cases "Itoa n") auto
  with n show False by (simp add: Itoa_def)
qed

lemma Decimals_le_3: "Decimals c \<le> 3"
  by (simp add: Decimals_def decimals_map_def)

lemma Decimals_cases: "Decimals c \<in> {0, 2, 3}"
  by (simp add: Decimals_def decimals_map_def)

section \<open>Properties\<close>

text \<open>The textual form of a currency code round-trips. Every positive code, known to the
  SDK or not, is read back by \<open>Parse\<close> from what \<open>String\<close> prints: alpha-3 names through the
  inverted table built by \<open>init\<close>, all other codes through the decimal fallback (no decimal
  string is mistaken for a name).\<close>
theorem Currency_Parse_String:
  assumes "0 < c" and "c \<le> int64_max"
  shows "Currency_Parse (Code_String c) = Some c"
proof (cases "map_of alpha3 c")
  case None
  have "in_int64 c" using assms by (simp add: int64_bounds)
  with None assms show ?thesis
    by (simp add: Currency_Parse_def Code_String_def fromAlpha3_Itoa Atoi_Itoa)
next
  case (Some s)
  then have "fromAlpha3 s = Some c" by (simp add: fromAlpha3_iff)
  with Some show ?thesis by (simp add: Currency_Parse_def Code_String_def)
qed

theorem Currency_Parse_String_witness:
  "Currency_Parse (Code_String 980) = Some 980 \<and> Currency_Parse (Code_String 7777) = Some 7777"
  using Currency_Parse_String [of 980] Currency_Parse_String [of 7777] by (simp add: int64_bounds)

lemma MinorPerMajor_pow10: "MinorPerMajor c = 10 ^ Decimals c"
  using Decimals_cases [of c] by (auto simp: MinorPerMajor_def)

lemma currency_init_order_irrelevant:
  assumes "set xs = set alpha3" and "distinct xs"
  shows "currency_init xs Map.empty = fromAlpha3"
proof -
  have inj: "inj_on snd (set alpha3)" "inj_on fst (set alpha3)"
    using alpha3_distinct by (simp_all add: distinct_map)
  with assms have d: "distinct (map snd xs)" by (simp add: distinct_map)
  have "currency_init xs Map.empty s = Some c \<longleftrightarrow> fromAlpha3 s = Some c" for s c
  proof -
    have "map_of (map prod.swap xs) s = Some c \<longleftrightarrow> (c, s) \<in> set xs"
      using d by (subst map_of_eq_Some_iff) (force simp: comp_def image_iff)+
    also have "\<dots> \<longleftrightarrow> fromAlpha3 s = Some c"
      using assms(1) alpha3_distinct by (simp add: fromAlpha3_iff map_of_eq_Some_iff)
    finally show ?thesis
      unfolding currency_init_map_of [OF d]
      by (cases "map_of (map prod.swap xs) s") simp_all
  qed
  then have "currency_init xs Map.empty s = fromAlpha3 s" for s
    by (metis not_None_eq)
  then show ?thesis ..
qed

end
