(* ===== verification/Money.thy ===== *)
theory Money
  imports Currency
begin

text \<open>
  Package \<open>money\<close> (\<open>money/money.go\<close>): amounts in minor units with their currency. \<open>Minor\<close> is
  an \<open>int64\<close>: every arithmetic operation of the source is followed by \<open>wrap64\<close>, so the
  overflow checks of \<open>Add\<close>, \<open>Sub\<close> and \<open>Mul\<close> are checked against the wrapped results the
  code sees. The \<open>float64\<close> operations (\<open>FromMajor\<close>, \<open>Scale\<close>, \<open>Major\<close>) are in no
  definition here.
\<close>

section \<open>Data and errors\<close>

record money =
  Minor :: int
  Code :: currency_code

datatype money_error =
    ErrOverflow                        \<comment> \<open>\<open>money.ErrOverflow\<close>\<close>
  | DifferentCurrencies int int
  | EmptyMajorString
  | NotAValidAmount string
  | TooManyFractionalDigits string nat int

definition Money_New :: "int \<Rightarrow> currency_code \<Rightarrow> money" where
  "Money_New minor code = \<lparr>Minor = minor, Code = code\<rparr>"

definition valid_money :: "money \<Rightarrow> bool" where
  \<comment> \<open>the type invariant of the struct: \<open>Minor\<close> is an \<open>int64\<close>\<close>
  "valid_money m \<longleftrightarrow> in_int64 (Minor m)"

section \<open>Integer arithmetic\<close>

definition IsZero :: "money \<Rightarrow> bool" where
  "IsZero m \<longleftrightarrow> Minor m = 0"

definition Equal :: "money \<Rightarrow> money \<Rightarrow> bool" where
  "Equal m other \<longleftrightarrow> Minor m = Minor other \<and> Code m = Code other"

definition Add :: "money \<Rightarrow> money \<Rightarrow> money_error + money" where
  "Add m other =
     (if Code m \<noteq> Code other then Inl (DifferentCurrencies (Code m) (Code other))
      else
        let sum = to_u64 (to_u64 (Minor m) + to_u64 (Minor other))
        in if (Minor m < 0) = (Minor other < 0) \<and> (Minor m < 0) \<noteq> (wrap64 sum < 0)
           then Inl ErrOverflow
           else Inr \<lparr>Minor = wrap64 sum, Code = Code m\<rparr>)"

definition Sub :: "money \<Rightarrow> money \<Rightarrow> money_error + money" where
  "Sub m other =
     (if Code m \<noteq> Code other then Inl (DifferentCurrencies (Code m) (Code other))
      else
        let diff = to_u64 (to_u64 (Minor m) - to_u64 (Minor other))
        in if (Minor m < 0) \<noteq> (Minor other < 0) \<and> (Minor m < 0) \<noteq> (wrap64 diff < 0)
           then Inl ErrOverflow
           else Inr \<lparr>Minor = wrap64 diff, Code = Code m\<rparr>)"

definition Neg :: "money \<Rightarrow> money" where
  "Neg m = \<lparr>Minor = wrap64 (- Minor m), Code = Code m\<rparr>"

definition Mul :: "money \<Rightarrow> int \<Rightarrow> money_error + money" where
  "Mul m n =
     (if Minor m = 0 \<or> n = 0 then Inr \<lparr>Minor = 0, Code = Code m\<rparr>
      else
        let prod = wrap64 (Minor m * n)
        in if (Minor m = int64_min \<and> n = -1) \<or> (n = int64_min \<and> Minor m = -1) then Inl ErrOverflow
           else if go_quo prod n \<noteq> Minor m then Inl ErrOverflow
           else Inr \<lparr>Minor = prod, Code = Code m\<rparr>)"

section \<open>Parsing decimal strings\<close>

fun indexByte :: "string \<Rightarrow> char \<Rightarrow> int" where
  \<comment> \<open>the index of the first \<open>b\<close>, or \<open>-1\<close>\<close>
  "indexByte [] b = -1"
| "indexByte (c # cs) b =
     (if c = b then 0 else let i = indexByte cs b in if i < 0 then -1 else i + 1)"

fun parse_int_part :: "string \<Rightarrow> int \<Rightarrow> string \<Rightarrow> money_error + int" where
  \<comment> \<open>the loop over \<open>intPart\<close>; \<open>s\<close> is the text quoted by the errors. A byte of a multi-byte
      rune is not a digit, so ranging over bytes or runes fails at the same place.\<close>
  "parse_int_part s minor [] = Inr minor"
| "parse_int_part s minor (r # rs) =
     (if \<not> is_digit r then Inl (NotAValidAmount s)
      else
        let nxt = wrap64 (wrap64 (minor * 10) + digit_of r)
        in if nxt < minor then Inl ErrOverflow else parse_int_part s nxt rs)"

fun parse_frac_part :: "string \<Rightarrow> int \<Rightarrow> string \<Rightarrow> money_error + int" where
  "parse_frac_part s frac [] = Inr frac"
| "parse_frac_part s frac (r # rs) =
     (if \<not> is_digit r then Inl (NotAValidAmount s)
      else parse_frac_part s (wrap64 (wrap64 (frac * 10) + digit_of r)) rs)"

definition split_sign :: "string \<Rightarrow> bool \<times> string" where
  \<comment> \<open>\<open>switch s[0]\<close> on a non-empty string\<close>
  "split_sign s =
     (if hd s = CHR ''+'' then (False, tl s)
      else if hd s = CHR ''-'' then (True, tl s)
      else (False, s))"

definition split_point :: "string \<Rightarrow> string \<times> string \<times> bool" where
  "split_point s =
     (let i = indexByte s (CHR ''.'')
      in if 0 \<le> i then (take (nat i) s, drop (nat (i + 1)) s, True) else (s, [], False))"

definition ParseMajor :: "string \<Rightarrow> currency_code \<Rightarrow> money_error + money" where
  "ParseMajor s0 code =
     (if s0 = [] then Inl EmptyMajorString
      else
        let (neg, s) = split_sign s0;
            (intPart, fracPart, hasFrac) = split_point s
        in if intPart = [] \<and> fracPart = [] then Inl (NotAValidAmount s)
           else if Decimals code < length fracPart
             then Inl (TooManyFractionalDigits s (Decimals code) code)
           else
             case parse_int_part s 0 intPart of Inl e \<Rightarrow> Inl e
             | Inr minor0 \<Rightarrow>
                 let minor1 = pow10_loop (Decimals code) minor0
                 in case (if hasFrac
                          then (case parse_frac_part s 0 fracPart of Inl e \<Rightarrow> Inl e
                                | Inr frac \<Rightarrow>
                                    Inr (wrap64 (minor1 + pow10_loop (Decimals code - length fracPart) frac)))
                          else Inr minor1) of
                      Inl e \<Rightarrow> Inl e
                    | Inr minor \<Rightarrow>
                        Inr \<lparr>Minor = (if neg then wrap64 (- minor) else minor), Code = code\<rparr>)"

section \<open>Arithmetic: lemmas\<close>

lemma wrap64_negative_iff:
  assumes "in_int64 a" and "in_int64 b"
  shows "in_int64 (a + b) \<longleftrightarrow> \<not> ((a < 0) = (b < 0) \<and> (a < 0) \<noteq> (wrap64 (a + b) < 0))"
proof -
  consider (ok) "in_int64 (a + b)" | (over) "int64_max < a + b" | (under) "a + b < int64_min"
    by (force simp: in_int64_def)
  then show ?thesis
  proof cases
    case ok
    then show ?thesis by (auto simp: wrap64_id)
  next
    case over
    with assms have "wrap64 (a + b) = a + b - 18446744073709551616"
      by (intro wrap64_over) (auto simp: int64_bounds)
    with over assms show ?thesis by (auto simp: int64_bounds)
  next
    case under
    with assms have "wrap64 (a + b) = a + b + 18446744073709551616"
      by (intro wrap64_under) (auto simp: int64_bounds)
    with under assms show ?thesis by (auto simp: int64_bounds)
  qed
qed

lemma wrap64_negative_diff_iff:
  assumes "in_int64 a" and "in_int64 b"
  shows "in_int64 (a - b) \<longleftrightarrow> \<not> ((a < 0) \<noteq> (b < 0) \<and> (a < 0) \<noteq> (wrap64 (a - b) < 0))"
proof -
  consider (ok) "in_int64 (a - b)" | (over) "int64_max < a - b" | (under) "a - b < int64_min"
    by (force simp: in_int64_def)
  then show ?thesis
  proof cases
    case ok
    then show ?thesis by (auto simp: wrap64_id)
  next
    case over
    with assms have "wrap64 (a - b) = a - b - 18446744073709551616"
      by (intro wrap64_over) (auto simp: int64_bounds)
    with over assms show ?thesis by (auto simp: int64_bounds)
  next
    case under
    with assms have "wrap64 (a - b) = a - b + 18446744073709551616"
      by (intro wrap64_under) (auto simp: int64_bounds)
    with under assms show ?thesis by (auto simp: int64_bounds)
  qed
qed

lemma wrap64_u64_sum: "wrap64 (to_u64 (to_u64 a + to_u64 b)) = wrap64 (a + b)"
  by (rule wrap64_cong) (simp add: to_u64_def mod_add_eq)

lemma wrap64_u64_diff: "wrap64 (to_u64 (to_u64 a - to_u64 b)) = wrap64 (a - b)"
  by (rule wrap64_cong) (simp add: to_u64_def mod_diff_eq)

lemma tdiv_remainder:
  fixes p n :: int
  assumes "n \<noteq> 0"
  shows "\<bar>p - n * (sgn p * sgn n * (\<bar>p\<bar> div \<bar>n\<bar>))\<bar> < \<bar>n\<bar>"
proof -
  have "p - n * (sgn p * sgn n * (\<bar>p\<bar> div \<bar>n\<bar>)) = sgn p * (\<bar>p\<bar> - \<bar>n\<bar> * (\<bar>p\<bar> div \<bar>n\<bar>))"
    by (simp add: algebra_simps abs_sgn)
  also have "\<dots> = sgn p * (\<bar>p\<bar> mod \<bar>n\<bar>)" by (simp add: minus_mult_div_eq_mod)
  finally show ?thesis
    using assms by (simp add: abs_mult abs_sgn_eq)
qed

lemma tdiv_exact:
  fixes a n :: int
  assumes "n \<noteq> 0"
  shows "sgn (a * n) * sgn n * (\<bar>a * n\<bar> div \<bar>n\<bar>) = a"
  using assms by (simp add: abs_mult sgn_mult sgn_mult_self_eq mult.assoc mult_sgn_abs)

text \<open>The divide-back test of \<open>Mul\<close> is exact: a wrapped product is off by at least \<open>2 ^ 64\<close>,
  more than any divisor can absorb.\<close>

lemma divide_back_exact:
  assumes a: "in_int64 a" and n: "in_int64 n" "n \<noteq> 0"
    and corner: "\<not> (a = int64_min \<and> n = -1)"
  shows "go_quo (wrap64 (a * n)) n = a \<longleftrightarrow> in_int64 (a * n)"
proof
  assume "in_int64 (a * n)"
  with a n show "go_quo (wrap64 (a * n)) n = a"
    by (simp add: wrap64_id go_quo_def tdiv_exact)
next
  define p where "p = wrap64 (a * n)"
  define q where "q = sgn p * sgn n * (\<bar>p\<bar> div \<bar>n\<bar>)"
  assume "go_quo (wrap64 (a * n)) n = a"
  then have wq: "wrap64 q = a" by (simp add: go_quo_def p_def q_def)
  have p: "in_int64 p" by (simp add: p_def)
  have "in_int64 q"
  proof (cases "p = int64_min \<and> n = -1")
    case True
    then have "q = 9223372036854775808" by (simp add: q_def int64_min_def)
    with wq have "a = int64_min" by (simp add: wrap64_def int64_min_def)
    with True corner show ?thesis by simp
  next
    case False
    have "\<bar>q\<bar> = (if p = 0 then 0 else \<bar>p\<bar> div \<bar>n\<bar>)"
      using n by (simp add: q_def abs_mult abs_sgn_eq abs_of_nonneg pos_imp_zdiv_nonneg_iff)
    moreover have "\<bar>p\<bar> div \<bar>n\<bar> \<le> \<bar>p\<bar>" using n zdiv_mono2 [of "\<bar>p\<bar>" 1 "\<bar>n\<bar>"] by simp
    ultimately have le: "\<bar>q\<bar> \<le> \<bar>p\<bar>" by (simp split: if_splits)
    show ?thesis
    proof (cases "p = int64_min \<and> 2 \<le> \<bar>n\<bar>")
      case True
      then have "\<bar>p\<bar> div \<bar>n\<bar> \<le> \<bar>p\<bar> div 2" by (intro zdiv_mono2) auto
      with True have "\<bar>q\<bar> \<le> 4611686018427387904"
        using \<open>\<bar>q\<bar> = _\<close> by (simp add: int64_min_def)
      then show ?thesis unfolding int64_bounds by linarith
    next
      case f2: False
      show ?thesis
      proof (cases "p = int64_min")
        case True
        with False f2 n have "n = 1" by (auto simp: abs_if split: if_splits)
        with True have "q = p" by (simp add: q_def int64_min_def)
        with p show ?thesis by simp
      next
        case False
        with p le show ?thesis unfolding int64_bounds by linarith
      qed
    qed
  qed
  with wq have "q = a" by (simp add: wrap64_id)
  with tdiv_remainder [OF n(2), of p] have rem: "\<bar>p - n * a\<bar> < \<bar>n\<bar>" by (simp add: q_def)
  obtain k where k: "p = a * n + k * 18446744073709551616"
    using wrap64_shift [of "a * n"] by (metis p_def)
  have "\<bar>n\<bar> \<le> 9223372036854775808" using n unfolding int64_bounds by linarith
  with rem k have "\<bar>k * 18446744073709551616\<bar> < 9223372036854775808"
    by (simp add: mult.commute)
  then have "k = 0" by (simp add: abs_if split: if_splits)
  with k p show "in_int64 (a * n)" by simp
qed

section \<open>Arithmetic: properties\<close>

lemma Add_exact:
  assumes "valid_money m" and "valid_money other"
  shows "Add m other =
    (if Code m \<noteq> Code other then Inl (DifferentCurrencies (Code m) (Code other))
     else if in_int64 (Minor m + Minor other)
       then Inr \<lparr>Minor = Minor m + Minor other, Code = Code m\<rparr>
       else Inl ErrOverflow)"
proof -
  have r: "in_int64 (Minor m)" "in_int64 (Minor other)"
    using assms by (simp_all add: valid_money_def)
  from wrap64_negative_iff [OF r] have k: "((Minor m < 0) = (Minor other < 0) \<and>
      (Minor m < 0) \<noteq> (wrap64 (Minor m + Minor other) < 0)) = (\<not> in_int64 (Minor m + Minor other))"
    by blast
  show ?thesis unfolding Add_def Let_def wrap64_u64_sum k by (simp add: wrap64_id)
qed

text \<open>C2: \<open>Add\<close> is exact or fails. On valid amounts it returns the mathematical sum in the
  common currency whenever that sum is an \<open>int64\<close>, \<open>ErrOverflow\<close> whenever it is not (the
  sign test on the wrapped 64-bit sum never misses an overflow and never reports a false one),
  and the currency error, before any arithmetic, when the currencies differ.\<close>
theorem Add_spec:
  assumes "valid_money m" and "valid_money other"
  shows "Add m other =
    (if Code m \<noteq> Code other then Inl (DifferentCurrencies (Code m) (Code other))
     else if in_int64 (Minor m + Minor other)
       then Inr \<lparr>Minor = Minor m + Minor other, Code = Code m\<rparr>
       else Inl ErrOverflow)"
  using assms by (rule Add_exact)

theorem Add_spec_witness:
  "valid_money \<lparr>Minor = 100, Code = 980\<rparr> \<and> valid_money \<lparr>Minor = int64_max, Code = 980\<rparr>
   \<and> Add \<lparr>Minor = 100, Code = 980\<rparr> \<lparr>Minor = int64_max, Code = 980\<rparr> = Inl ErrOverflow"
proof -
  have v: "valid_money \<lparr>Minor = 100, Code = 980\<rparr>" "valid_money \<lparr>Minor = int64_max, Code = 980\<rparr>"
    by (simp_all add: valid_money_def int64_bounds)
  show ?thesis using v Add_spec [OF v] by (simp add: int64_bounds)
qed

lemma Sub_spec:
  assumes "valid_money m" and "valid_money other"
  shows "Sub m other =
    (if Code m \<noteq> Code other then Inl (DifferentCurrencies (Code m) (Code other))
     else if in_int64 (Minor m - Minor other)
       then Inr \<lparr>Minor = Minor m - Minor other, Code = Code m\<rparr>
       else Inl ErrOverflow)"
proof -
  have r: "in_int64 (Minor m)" "in_int64 (Minor other)"
    using assms by (simp_all add: valid_money_def)
  from wrap64_negative_diff_iff [OF r] have k: "((Minor m < 0) \<noteq> (Minor other < 0) \<and>
      (Minor m < 0) \<noteq> (wrap64 (Minor m - Minor other) < 0)) = (\<not> in_int64 (Minor m - Minor other))"
    by blast
  show ?thesis unfolding Sub_def Let_def wrap64_u64_diff k by (simp add: wrap64_id)
qed

text \<open>Subtraction undoes addition, through the overflow checks of both.\<close>

lemma Sub_Add:
  assumes "valid_money m" and "valid_money other" and "Add m other = Inr s"
  shows "Sub s other = Inr m"
proof -
  from assms have s: "Code m = Code other" "in_int64 (Minor m + Minor other)"
      "s = \<lparr>Minor = Minor m + Minor other, Code = Code m\<rparr>"
    unfolding Add_exact [OF assms(1,2)] by (auto split: if_splits)
  then have "valid_money s" by (simp add: valid_money_def)
  from Sub_spec [OF this assms(2)] s assms(1) show ?thesis by (simp add: valid_money_def)
qed

text \<open>C3: \<open>Mul\<close> is exact or fails: for every valid amount and every \<open>int64\<close> factor it returns
  the mathematical product when that is an \<open>int64\<close> and \<open>ErrOverflow\<close> otherwise. The
  divide-back test and the explicit \<open>MinInt64 * -1\<close> corner together catch every overflow.\<close>
theorem Mul_spec:
  assumes "valid_money m" and "in_int64 n"
  shows "Mul m n =
    (if in_int64 (Minor m * n) then Inr \<lparr>Minor = Minor m * n, Code = Code m\<rparr>
     else Inl ErrOverflow)"
proof (cases "Minor m = 0 \<or> n = 0")
  case True
  then show ?thesis by (auto simp: Mul_def int64_bounds)
next
  case False
  show ?thesis
  proof (cases "(Minor m = int64_min \<and> n = -1) \<or> (n = int64_min \<and> Minor m = -1)")
    case True
    then show ?thesis by (auto simp: Mul_def Let_def int64_bounds)
  next
    case corner: False
    with False assms have "go_quo (wrap64 (Minor m * n)) n = Minor m \<longleftrightarrow> in_int64 (Minor m * n)"
      by (intro divide_back_exact) (auto simp: valid_money_def)
    with False corner show ?thesis by (auto simp: Mul_def Let_def wrap64_id)
  qed
qed

theorem Mul_spec_witness:
  "Mul \<lparr>Minor = 4500, Code = 980\<rparr> 10 = Inr \<lparr>Minor = 45000, Code = 980\<rparr>
   \<and> Mul \<lparr>Minor = int64_min, Code = 980\<rparr> (-1) = Inl ErrOverflow"
proof -
  have v: "valid_money \<lparr>Minor = 4500, Code = 980\<rparr>" "valid_money \<lparr>Minor = int64_min, Code = 980\<rparr>"
      and n: "in_int64 10" "in_int64 (-1)"
    by (simp_all add: valid_money_def int64_bounds)
  show ?thesis using Mul_spec [OF v(1) n(1)] Mul_spec [OF v(2) n(2)] by (simp add: int64_bounds)
qed

lemma Neg_spec: "valid_money m \<Longrightarrow> Minor (Neg m) = (if Minor m = int64_min then int64_min else - Minor m)"
  by (auto simp: Neg_def valid_money_def int64_bounds wrap64_def)

lemma Neg_involutive: "valid_money m \<Longrightarrow> Neg (Neg m) = m"
  by (simp add: Neg_def valid_money_def wrap64_id)

section \<open>Parsing: lemmas\<close>

lemma indexByte_range: "indexByte s b < int (length s)" "- 1 \<le> indexByte s b"
  by (induction s) (auto simp: Let_def)

lemma indexByte_none: "indexByte s b < 0 \<longleftrightarrow> b \<notin> set s"
  by (induction s) (auto simp: Let_def)

lemma indexByte_append: "b \<notin> set xs \<Longrightarrow> indexByte (xs @ b # ys) b = int (length xs)"
  by (induction xs) (auto simp: Let_def)

lemma indexByte_split: "0 \<le> indexByte s b \<Longrightarrow>
    s = take (nat (indexByte s b)) s @ b # drop (nat (indexByte s b + 1)) s
    \<and> b \<notin> set (take (nat (indexByte s b)) s)"
proof (induction s)
  case (Cons c cs)
  show ?case
  proof (cases "c = b")
    case False
    with Cons.prems have i: "0 \<le> indexByte cs b" by (auto simp: Let_def split: if_splits)
    then have "nat (indexByte cs b + 1) = Suc (nat (indexByte cs b))"
      "nat (indexByte cs b + 1 + 1) = Suc (nat (indexByte cs b + 1))" by linarith+
    with Cons.IH [OF i] False i show ?thesis by (simp add: Let_def)
  qed simp
qed simp

lemma split_point_join:
  assumes "split_point s = (ip, fp, hf)"
  shows "s = ip @ (if hf then CHR ''.'' # fp else []) \<and> CHR ''.'' \<notin> set ip \<and> (\<not> hf \<longrightarrow> fp = [])"
  using assms indexByte_split [of s "CHR ''.''"] indexByte_none [of s "CHR ''.''"]
  by (auto simp: split_point_def Let_def split: if_splits)

lemma split_point_dot: "CHR ''.'' \<notin> set ip \<Longrightarrow> split_point (ip @ CHR ''.'' # fp) = (ip, fp, True)"
  by (simp add: split_point_def Let_def indexByte_append nat_add_distrib)

lemma split_point_no_dot: "CHR ''.'' \<notin> set ip \<Longrightarrow> split_point ip = (ip, [], False)"
  using indexByte_none [of ip "CHR ''.''"] by (simp add: split_point_def Let_def)

lemma digits_no_dot: "list_all is_digit xs \<Longrightarrow> CHR ''.'' \<notin> set xs"
  by (auto simp: list_all_iff)

lemma pow10_loop_eq: "pow10_loop n p = (if n = 0 then p else wrap64 (p * 10 ^ n))"
  by (induction n arbitrary: p) (auto simp: ac_simps)

lemma parse_int_part_Inr:
  "parse_int_part s acc ds = Inr r \<Longrightarrow>
   list_all is_digit ds \<and> r = (if ds = [] then acc else wrap64 (digits_val acc ds))"
proof (induction ds arbitrary: acc)
  case (Cons d ds)
  define nxt where "nxt = wrap64 (wrap64 (acc * 10) + digit_of d)"
  from Cons.prems have "is_digit d" and "parse_int_part s nxt ds = Inr r"
    by (auto simp: Let_def nxt_def split: if_splits)
  with Cons.IH show ?case
    by (fastforce simp: nxt_def split: if_splits)
qed simp

lemma parse_int_part_exact:
  assumes "list_all is_digit ds" and "0 \<le> acc" and "digits_val acc ds \<le> int64_max"
  shows "parse_int_part s acc ds = Inr (digits_val acc ds)"
  using assms
proof (induction ds arbitrary: acc)
  case (Cons d ds)
  have d: "0 \<le> digit_of d" using Cons.prems digit_of_range [of d] by simp
  have "acc * 10 + digit_of d \<le> digits_val (acc * 10 + digit_of d) ds"
    using Cons.prems d by (intro digits_val_bounds) auto
  with Cons.prems have "acc * 10 + digit_of d \<le> int64_max" by simp
  with Cons.prems d have r: "in_int64 (acc * 10 + digit_of d)" by (simp add: int64_bounds)
  with Cons.prems d Cons.IH [of "acc * 10 + digit_of d"] show ?case
    by (simp add: wrap64_id Let_def)
qed simp

lemma parse_frac_part_eq:
  "list_all is_digit ds \<Longrightarrow> parse_frac_part s acc ds = Inr (if ds = [] then acc else wrap64 (digits_val acc ds))"
proof (induction ds arbitrary: acc)
  case (Cons d ds)
  then show ?case by auto
qed simp

lemma parse_frac_part_Inr: "parse_frac_part s acc ds = Inr r \<Longrightarrow> list_all is_digit ds"
  by (induction ds arbitrary: acc) (auto split: if_splits)

section \<open>Parsing: properties\<close>

definition decimal_text :: "string \<Rightarrow> string \<Rightarrow> bool \<Rightarrow> string \<Rightarrow> string" where
  \<comment> \<open>sign, integer digits, whether there is a point, fraction digits\<close>
  "decimal_text sign ip point fp = sign @ ip @ (if point then CHR ''.'' # fp else [])"

definition decimal_ok :: "currency_code \<Rightarrow> string \<Rightarrow> string \<Rightarrow> bool \<Rightarrow> string \<Rightarrow> bool" where
  "decimal_ok code sign ip point fp \<longleftrightarrow>
     (sign = [] \<or> sign = ''+'' \<or> sign = ''-'') \<and> list_all is_digit ip \<and> list_all is_digit fp \<and>
     \<not> (ip = [] \<and> fp = []) \<and> (\<not> point \<longrightarrow> fp = []) \<and> length fp \<le> Decimals code"

definition minor_value :: "currency_code \<Rightarrow> string \<Rightarrow> string \<Rightarrow> int" where
  \<comment> \<open>the mathematical number of minor units, without a width\<close>
  "minor_value code ip fp =
     digits_val 0 ip * 10 ^ Decimals code + digits_val 0 fp * 10 ^ (Decimals code - length fp)"

lemma split_sign_decimal:
  assumes "decimal_ok code sign ip point fp"
  shows "split_sign (decimal_text sign ip point fp)
           = (sign = ''-'', ip @ (if point then CHR ''.'' # fp else []))"
    and "decimal_text sign ip point fp \<noteq> []"
proof -
  from assms have "ip @ (if point then CHR ''.'' # fp else []) \<noteq> []" by (auto simp: decimal_ok_def)
  moreover from assms have "ip @ (if point then CHR ''.'' # fp else []) = c # cs \<Longrightarrow>
      is_digit c \<or> c = CHR ''.''" for c cs
    by (cases ip) (auto simp: decimal_ok_def split: if_splits)
  then have "ip @ (if point then CHR ''.'' # fp else []) = c # cs \<Longrightarrow>
      c \<noteq> CHR ''+'' \<and> c \<noteq> CHR ''-''" for c cs
    by force
  ultimately show "split_sign (decimal_text sign ip point fp)
           = (sign = ''-'', ip @ (if point then CHR ''.'' # fp else []))"
      and "decimal_text sign ip point fp \<noteq> []"
    using assms
    by (cases "ip @ (if point then CHR ''.'' # fp else [])";
        auto simp: split_sign_def decimal_text_def decimal_ok_def)+
qed

lemma split_point_decimal:
  "decimal_ok code sign ip point fp \<Longrightarrow>
   split_point (ip @ (if point then CHR ''.'' # fp else [])) = (ip, fp, point)"
  by (auto simp: decimal_ok_def split_point_dot split_point_no_dot digits_no_dot)

text \<open>C4: \<open>ParseMajor\<close> reads every decimal amount that fits exactly. For an optional sign, digits
  and an optional fraction of at most \<open>Decimals\<close> digits (one of the two parts may be empty),
  it returns the exact number of minor units (integer part shifted, fraction right-padded)
  whenever that number is at most \<open>MaxInt64\<close>; no step of the computation wraps.\<close>
theorem ParseMajor_exact:
  assumes ok: "decimal_ok code sign ip point fp"
    and fits: "minor_value code ip fp \<le> int64_max"
  shows "ParseMajor (decimal_text sign ip point fp) code =
    Inr \<lparr>Minor = (if sign = ''-'' then - minor_value code ip fp else minor_value code ip fp),
         Code = code\<rparr>"
proof -
  let ?D = "Decimals code" and ?f = "Decimals code - length fp"
  let ?i = "digits_val 0 ip" and ?v = "digits_val 0 fp"
  let ?s = "ip @ (if point then CHR ''.'' # fp else [])"
  have d: "list_all is_digit ip" "list_all is_digit fp" using ok by (auto simp: decimal_ok_def)
  have pos: "0 \<le> ?i" "0 \<le> ?v" using digits_val_bounds(1) [OF d(1), of 0] digits_val_bounds(1) [OF d(2), of 0] by simp_all
  have le: "?i \<le> ?i * 10 ^ ?D" "?v \<le> ?v * 10 ^ ?f"
    using pos mult_left_mono [of 1 "10 ^ ?D" ?i] mult_left_mono [of 1 "10 ^ ?f" ?v] by simp_all
  have fits': "?i * 10 ^ ?D + ?v * 10 ^ ?f \<le> int64_max" using fits by (simp add: minor_value_def)
  have r: "in_int64 ?v" "in_int64 (?i * 10 ^ ?D)" "in_int64 (?v * 10 ^ ?f)"
      "in_int64 (?i * 10 ^ ?D + ?v * 10 ^ ?f)" "in_int64 (- (?i * 10 ^ ?D + ?v * 10 ^ ?f))"
      and i: "?i \<le> int64_max"
    using fits' pos le unfolding int64_bounds by linarith+
  have pi: "parse_int_part s 0 ip = Inr ?i" for s
    using d i by (intro parse_int_part_exact) auto
  have pf: "parse_frac_part s 0 fp = Inr ?v" for s
    using d r by (simp add: parse_frac_part_eq wrap64_id)
  have sh: "pow10_loop ?D ?i = ?i * 10 ^ ?D" "pow10_loop ?f ?v = ?v * 10 ^ ?f"
    using r by (auto simp: pow10_loop_eq wrap64_id)
  have np: "\<not> point \<Longrightarrow> ?v = 0" using ok by (simp add: decimal_ok_def)
  have c: "(ip = [] \<and> fp = []) = False" "(?D < length fp) = False"
    using ok by (auto simp: decimal_ok_def)
  show ?thesis
    unfolding ParseMajor_def split_sign_decimal(1) [OF ok] Let_def prod.case
      split_point_decimal [OF ok] c if_False pi sum.case pf sh
    using split_sign_decimal(2) [OF ok] np r
    by (cases point) (simp_all add: wrap64_id minor_value_def)
qed

theorem ParseMajor_exact_witness:
  "ParseMajor ''-149.9'' 980 = Inr \<lparr>Minor = -14990, Code = 980\<rparr>"
proof -
  have ok: "decimal_ok 980 ''-'' ''149'' True ''9''"
    by (simp add: decimal_ok_def is_digit_def Decimals_def decimals_map_def)
  have v: "minor_value 980 ''149'' ''9'' = 14990"
    by (simp add: minor_value_def digit_of_def Decimals_def decimals_map_def)
  show ?thesis
    using ParseMajor_exact [OF ok] unfolding v by (simp add: int64_bounds decimal_text_def)
qed

definition overflow_seen :: "string \<Rightarrow> bool" where
  \<comment> \<open>the wrapped value of the integer digits drops at some digit: all the test of the integer loop sees\<close>
  "overflow_seen ip \<longleftrightarrow>
     (\<exists>k < length ip. wrap64 (digits_val 0 (take (Suc k) ip)) < wrap64 (digits_val 0 (take k ip)))"

lemma parse_int_part_eq:
  "list_all is_digit ds \<Longrightarrow> parse_int_part s (wrap64 (digits_val 0 pre)) ds =
     (if \<exists>k < length ds. wrap64 (digits_val 0 (pre @ take (Suc k) ds)) < wrap64 (digits_val 0 (pre @ take k ds))
      then Inl ErrOverflow else Inr (wrap64 (digits_val 0 (pre @ ds))))"
proof (induction ds arbitrary: pre)
  case (Cons d ds)
  have n: "wrap64 (wrap64 (wrap64 (digits_val 0 pre) * 10) + digit_of d) = wrap64 (digits_val 0 (pre @ [d]))" by simp
  show ?case
    unfolding parse_int_part.simps n Let_def length_Cons Ex_less_Suc2
    using Cons.prems Cons.IH [of "pre @ [d]"] by simp
qed simp

lemma overflow_seen_exceeds:
  assumes "list_all is_digit ip" and "overflow_seen ip"
  shows "int64_max < digits_val 0 ip"
proof (rule ccontr)
  assume "\<not> ?thesis"
  then have "parse_int_part [] 0 ip = Inr (digits_val 0 ip)" using parse_int_part_exact [OF assms(1)] by simp
  with parse_int_part_eq [OF assms(1), of "[]" "[]"] assms(2) show False by (simp add: overflow_seen_def)
qed

lemma ParseMajor_decimal:
  assumes ok: "decimal_ok code sign ip point fp"
  shows "ParseMajor (decimal_text sign ip point fp) code =
    (if overflow_seen ip then Inl ErrOverflow
     else Inr \<lparr>Minor = wrap64 (if sign = ''-'' then - minor_value code ip fp else minor_value code ip fp), Code = code\<rparr>)"
proof -
  have d: "list_all is_digit ip" "list_all is_digit fp" using ok by (auto simp: decimal_ok_def)
  have pi: "parse_int_part s 0 ip = (if overflow_seen ip then Inl ErrOverflow else Inr (wrap64 (digits_val 0 ip)))" for s
    using parse_int_part_eq [OF d(1), of s "[]"] by (simp add: overflow_seen_def)
  have c: "(ip = [] \<and> fp = []) = False" "(Decimals code < length fp) = False" "\<not> point \<Longrightarrow> fp = []"
    using ok by (auto simp: decimal_ok_def)
  show ?thesis
    unfolding ParseMajor_def split_sign_decimal(1) [OF ok] Let_def prod.case split_point_decimal [OF ok] c(1,2) if_False pi
    using split_sign_decimal(2) [OF ok] c(3)
    by (cases point) (auto simp: parse_frac_part_eq [OF d(2)] pow10_loop_eq minor_value_def add.commute)
qed

lemma ParseMajor_well_formed:
  assumes "ParseMajor s code = Inr m"
  shows "\<exists>sign ip point fp. s = decimal_text sign ip point fp \<and> decimal_ok code sign ip point fp"
proof -
  obtain neg t where sg: "split_sign s = (neg, t)" by fastforce
  obtain ip fp hf where sp: "split_point t = (ip, fp, hf)" by (metis prod_cases3)
  from assms sg sp obtain minor0 where pi: "parse_int_part t 0 ip = Inr minor0"
      and ne: "s \<noteq> []" "\<not> (ip = [] \<and> fp = [])" "length fp \<le> Decimals code"
    unfolding ParseMajor_def by (auto simp: Let_def split: if_splits sum.splits)
  have ip: "list_all is_digit ip" using parse_int_part_Inr [OF pi] by simp
  have fp: "list_all is_digit fp"
  proof (cases hf)
    case True
    with assms sg sp pi show ?thesis
      unfolding ParseMajor_def
      by (auto simp: Let_def split: if_splits sum.splits dest: parse_frac_part_Inr)
  next
    case False
    with split_point_join [OF sp] show ?thesis by simp
  qed
  have t: "t = ip @ (if hf then CHR ''.'' # fp else [])" "\<not> hf \<longrightarrow> fp = []"
    using split_point_join [OF sp] by auto
  have "\<exists>sign. s = sign @ t \<and> (sign = [] \<or> sign = ''+'' \<or> sign = ''-'')"
    using sg ne(1) by (cases s) (auto simp: split_sign_def split: if_splits)
  then obtain sign where sign: "s = sign @ t" "sign = [] \<or> sign = ''+'' \<or> sign = ''-''" by blast
  have "decimal_ok code sign ip hf fp" using sign ip fp ne t by (simp add: decimal_ok_def)
  with sign t show ?thesis
    by (intro exI [of _ sign] exI [of _ ip] exI [of _ hf] exI [of _ fp]) (simp add: decimal_text_def)
qed

text \<open>C5: \<open>ParseMajor\<close> succeeds on exactly the decimal amounts in which no overflow is seen. A text is read if and
  only if it is an optional sign, digits and an optional fraction no longer than the currency allows (not both
  empty) and the 64-bit value of the integer digits never drops from one digit to the next; the
  result then has the requested currency and the mathematical number of minor units wrapped to 64
  bits. A decimal amount in which it does drop is answered \<open>ErrOverflow\<close>, and its integer part is then larger
  than \<open>MaxInt64\<close>: every decimal amount with a smaller one is read, every other text is refused.\<close>
theorem ParseMajor_succeeds_iff:
  "(ParseMajor s code = Inr m \<longleftrightarrow> (\<exists>sign ip point fp. s = decimal_text sign ip point fp \<and> decimal_ok code sign ip point fp \<and>
      \<not> overflow_seen ip \<and>
      m = \<lparr>Minor = wrap64 (if sign = ''-'' then - minor_value code ip fp else minor_value code ip fp), Code = code\<rparr>)) \<and>
   (decimal_ok code sign ip point fp \<and> overflow_seen ip \<longrightarrow>
      ParseMajor (decimal_text sign ip point fp) code = Inl ErrOverflow \<and> int64_max < digits_val 0 ip)"
proof (intro conjI iffI impI)
  assume p: "ParseMajor s code = Inr m"
  from ParseMajor_well_formed [OF this] obtain sign ip point fp
    where w: "s = decimal_text sign ip point fp" "decimal_ok code sign ip point fp" by blast
  with p ParseMajor_decimal [OF w(2)] show "\<exists>sign ip point fp. s = decimal_text sign ip point fp \<and> decimal_ok code sign ip point fp \<and>
      \<not> overflow_seen ip \<and>
      m = \<lparr>Minor = wrap64 (if sign = ''-'' then - minor_value code ip fp else minor_value code ip fp), Code = code\<rparr>"
    by (intro exI [of _ sign] exI [of _ ip] exI [of _ point] exI [of _ fp]) (simp split: if_split_asm)
next
  assume "decimal_ok code sign ip point fp \<and> overflow_seen ip"
  then show "int64_max < digits_val 0 ip" using overflow_seen_exceeds by (simp add: decimal_ok_def)
qed (auto simp: ParseMajor_decimal)

theorem ParseMajor_succeeds_iff_witness:
  "ParseMajor ''12.5'' 980 = Inr \<lparr>Minor = 1250, Code = 980\<rparr> \<and> (\<nexists>m. ParseMajor ''12.555'' 980 = Inr m) \<and>
   ParseMajor ''9223372036854775808'' 980 = Inl ErrOverflow \<and> int64_max < digits_val 0 ''9223372036854775808''"
proof (intro conjI)
  have w: "''12.5'' = decimal_text [] ''12'' True ''5''" "decimal_ok 980 [] ''12'' True ''5''" "\<not> overflow_seen ''12''"
    "\<lparr>Minor = 1250, Code = 980\<rparr> = \<lparr>Minor = wrap64 (if [] = ''-'' then - minor_value 980 ''12'' ''5'' else minor_value 980 ''12'' ''5''),
      Code = 980\<rparr>"
    using overflow_seen_exceeds [of "''12''"]
    by (auto simp: decimal_text_def decimal_ok_def minor_value_def is_digit_def digit_of_def Decimals_def decimals_map_def
        int64_max_def wrap64_def)
  show "ParseMajor ''12.5'' 980 = Inr \<lparr>Minor = 1250, Code = 980\<rparr>"
    by (rule iffD2 [OF conjunct1 [OF ParseMajor_succeeds_iff]], rule exI, rule exI, rule exI, rule exI, intro conjI, (rule w)+)
  have "ParseMajor ''12.555'' 980 = Inl (TooManyFractionalDigits ''12.555'' 2 980)" by code_simp
  then show "\<nexists>m. ParseMajor ''12.555'' 980 = Inr m" by simp
  have "decimal_ok 980 [] ''9223372036854775808'' False []" by (simp add: decimal_ok_def is_digit_def)
  moreover have "overflow_seen ''9223372036854775808''"
    unfolding overflow_seen_def by (intro exI [of _ 18]) (simp add: digit_of_def wrap64_def)
  ultimately have o: "decimal_ok 980 [] ''9223372036854775808'' False [] \<and> overflow_seen ''9223372036854775808''" by blast
  from mp [OF conjunct2 [OF ParseMajor_succeeds_iff] o]
  show "ParseMajor ''9223372036854775808'' 980 = Inl ErrOverflow" "int64_max < digits_val 0 ''9223372036854775808''"
    by (simp_all add: decimal_text_def)
qed

text \<open>The overflow test inside the integer loop only sees one step, and the shift into minor units
  is not tested at all: 184467440737095517 UAH is read as 0.84 UAH, without an error.\<close>

lemma ParseMajor_silent_overflow:
  "ParseMajor ''184467440737095517'' 980 = Inr \<lparr>Minor = 84, Code = 980\<rparr>"
  by code_simp

end
