(* ===== verification/Mcc.thy ===== *)
theory Mcc
  imports Main
begin

text \<open>
  Package \<open>mcc\<close> (\<open>mcc/mcc.go\<close>): the classification of merchant category codes, as the ordered
  switch of the source.
\<close>

datatype category =
    CategoryUnknown | CategoryAgriculture | CategoryContracted | CategoryTransport | CategoryFuel
  | CategoryUtilities | CategoryRetail | CategoryGroceries | CategoryClothing | CategoryEntertain
  | CategoryRestaurants | CategoryHotels | CategoryHealth | CategoryEducation | CategoryProfessional
  | CategoryFinancial | CategoryTransfer | CategoryGovernment | CategoryTelecom | CategoryCharity

definition healthMCC :: "int list" where
  "healthMCC = [5122, 5292, 5295, 5912, 5975, 5976, 8011, 8021, 8031, 8041, 8042, 8043, 8044,
                8049, 8050, 8062, 8071, 8099]"

definition Category :: "int \<Rightarrow> category" where
  "Category c =
    (if c \<in> set healthMCC then CategoryHealth
     else if c = 4829 then CategoryTransfer
     else if c = 4812 \<or> c = 4813 \<or> c = 4814 \<or> c = 4816 \<or> c = 4821 \<or> c = 4899 then CategoryTelecom
     else if c = 5411 \<or> c = 5422 \<or> c = 5441 \<or> c = 5451 \<or> c = 5462 \<or> c = 5499 then CategoryGroceries
     else if c = 5541 \<or> c = 5542 \<or> c = 5552 \<or> c = 5983 then CategoryFuel
     else if 5811 \<le> c \<and> c \<le> 5814 then CategoryRestaurants
     else if c = 8398 then CategoryCharity
     else if 1 \<le> c \<and> c \<le> 1499 then CategoryAgriculture
     else if 1500 \<le> c \<and> c \<le> 2999 then CategoryContracted
     else if 3000 \<le> c \<and> c \<le> 3499 then CategoryTransport
     else if 3500 \<le> c \<and> c \<le> 3999 then CategoryHotels
     else if 4000 \<le> c \<and> c \<le> 4799 then CategoryTransport
     else if 4900 \<le> c \<and> c \<le> 4999 then CategoryUtilities
     else if 5000 \<le> c \<and> c \<le> 5599 then CategoryRetail
     else if 5600 \<le> c \<and> c \<le> 5699 then CategoryClothing
     else if 5700 \<le> c \<and> c \<le> 5999 then CategoryRetail
     else if 6000 \<le> c \<and> c \<le> 6999 then CategoryFinancial
     else if 7000 \<le> c \<and> c \<le> 7299 then CategoryHotels
     else if 7800 \<le> c \<and> c \<le> 7999 then CategoryEntertain
     else if 8000 \<le> c \<and> c \<le> 8099 then CategoryHealth
     else if 8200 \<le> c \<and> c \<le> 8299 then CategoryEducation
     else if 8300 \<le> c \<and> c \<le> 8999 then CategoryProfessional
     else if 9000 \<le> c \<and> c \<le> 9999 then CategoryGovernment
     else CategoryUnknown)"

definition validMCC :: "int \<Rightarrow> bool" where
  \<comment> \<open>\<open>bank.validMCC\<close>\<close>
  "validMCC n \<longleftrightarrow> 1 \<le> n \<and> n \<le> 9999"

definition MCCCode :: "int \<Rightarrow> int" where
  \<comment> \<open>\<open>bank.Transaction.MCCCode\<close>: out-of-range codes become 0\<close>
  "MCCCode mcc = (if \<not> validMCC mcc then 0 else mcc)"

lemma if_ne_iff: "x \<noteq> u \<Longrightarrow> ((if P then x else e) = u) = (\<not> P \<and> e = u)"
  by simp

lemma Category_Unknown_iff:
  "Category c = CategoryUnknown \<longleftrightarrow>
     c < 1 \<or> 9999 < c \<or> (7300 \<le> c \<and> c \<le> 7799) \<or> (8100 \<le> c \<and> c \<le> 8199)
     \<or> (4800 \<le> c \<and> c \<le> 4898 \<and> c \<notin> {4812, 4813, 4814, 4816, 4821, 4829})"
  unfolding Category_def healthMCC_def
  by (simp add: if_ne_iff cong: if_cong) presburger

lemma MCCCode_invalid: "\<not> validMCC n \<Longrightarrow> Category (MCCCode n) = CategoryUnknown"
  by (simp add: MCCCode_def Category_Unknown_iff)

text \<open>The table entry for pet stores contradicts its own comment ("kept Retail").\<close>

lemma Category_pet_stores: "Category 5295 = CategoryHealth"
  by (simp add: Category_def healthMCC_def)

end
