(* ===== verification/Installment_Money.thy ===== *)
theory Installment_Money
  imports Money
begin

text \<open>
  Package \<open>installment\<close>, the exact amounts (\<open>installment/money.go\<close>) and the phone check
  (\<open>installment/validate.go\<close>). An amount is its \<open>Kopecks\<close> (an \<open>int64\<close>); texts are byte
  strings. \<open>MoneyFromMajor\<close> and \<open>Major\<close> (\<open>float64\<close>) are in no definition here.
\<close>

section \<open>Definitions\<close>

datatype inst_money_error = EmptyNumber | NumSyntax string | HryvniaOwnSign

type_synonym kopecks = int

definition NewMoney :: "int \<Rightarrow> int \<Rightarrow> kopecks" where
  "NewMoney hryvnia kopecks = wrap64 (wrap64 (hryvnia * 100) + kopecks)"

definition pad02 :: "int \<Rightarrow> string" where
  \<comment> \<open>the \<open>%02d\<close> verb: the sign counts towards the width\<close>
  "pad02 n =
     (if n < 0 then CHR ''-'' # (let ds = nat_digits (nat (- n)) in replicate (1 - length ds) CHR ''0'' @ ds)
      else (let ds = nat_digits (nat n) in replicate (2 - length ds) CHR ''0'' @ ds))"

definition Inst_String :: "kopecks \<Rightarrow> string" where
  "Inst_String k =
     (let neg = (k < 0);
          abs = (if neg then wrap64 (- k) else k);
          hr = go_quo abs 100;
          kop = go_rem abs 100
      in if neg then CHR ''-'' # Itoa hr @ CHR ''.'' # pad02 kop
         else Itoa hr @ CHR ''.'' # pad02 kop)"

definition Inst_MarshalJSON :: "kopecks \<Rightarrow> string" where
  "Inst_MarshalJSON k = Inst_String k"

definition ParseInt_e :: "string \<Rightarrow> inst_money_error + int" where
  "ParseInt_e s = (case Atoi s of Some v \<Rightarrow> Inr v | None \<Rightarrow> Inl (NumSyntax s))"

definition parse_kop_part :: "string \<Rightarrow> inst_money_error + int" where
  \<comment> \<open>the \<open>if kopPart != ""\<close> block: pad to two digits, or round half away from zero on the
      third byte\<close>
  "parse_kop_part kopPart =
     (if kopPart = [] then Inr 0
      else if length kopPart = 1 then ParseInt_e (kopPart @ ''0'')
      else if 2 < length kopPart then
        (let rest = drop 2 kopPart; kp = take 2 kopPart
         in if (53 :: int) \<le> of_char (hd rest)
            then (case ParseInt_e kp of Inl e \<Rightarrow> Inl e | Inr k \<Rightarrow> Inr (k + 1))
            else ParseInt_e kp)
      else ParseInt_e kopPart)"

definition parseDecimalKopecks :: "string \<Rightarrow> inst_money_error + kopecks" where
  \<comment> \<open>called on a non-empty string only\<close>
  "parseDecimalKopecks s0 =
     (let (neg, s) = split_sign s0
      in if s = [] then Inl EmptyNumber
         else
           let dot = indexByte s (CHR ''.'');
               hrPart = (if dot < 0 then s else take (nat dot) s);
               kopPart = (if dot < 0 then [] else drop (nat (dot + 1)) s);
               hrPart' = (if hrPart = [] then ''0'' else hrPart)
           in case ParseInt_e hrPart' of Inl e \<Rightarrow> Inl e
              | Inr hr \<Rightarrow>
                  (case parse_kop_part kopPart of Inl e \<Rightarrow> Inl e
                   | Inr kop \<Rightarrow>
                       if hr < 0 then Inl HryvniaOwnSign
                       else
                         let total = wrap64 (wrap64 (hr * 100) + kop)
                         in Inr (if neg then wrap64 (- total) else total)))"

definition Inst_UnmarshalJSON :: "string \<Rightarrow> inst_money_error + kopecks" where
  "Inst_UnmarshalJSON data =
     (let s = TrimSpace data
      in if s = ''null'' \<or> s = [] then Inr 0
         else
           let q = (2 \<le> length s \<and> hd s = CHR 0x22 \<and> last s = CHR 0x22);
               s' = (if q then butlast (tl s) else s)
           in if s' = [] then Inr 0 else parseDecimalKopecks s')"

datatype phone_error = ErrEmptyPhone | ErrInvalidPhone

definition validatePhone :: "string \<Rightarrow> phone_error option" where
  "validatePhone phone =
     (if phone = [] then Some ErrEmptyPhone
      else if length phone < 2 \<or> hd phone \<noteq> CHR ''+'' then Some ErrInvalidPhone
      else if \<exists>r \<in> set (tl phone). \<not> is_digit r then Some ErrInvalidPhone
      else None)"

section \<open>Lemmas\<close>

lemma nat_digits_small: "n < 10 \<Longrightarrow> nat_digits n = [digit_char n]"
  by (subst nat_digits.simps) simp

lemma nat_digits_two: "10 \<le> n \<Longrightarrow> n < 100 \<Longrightarrow> nat_digits n = [digit_char (n div 10), digit_char (n mod 10)]"
  by (subst nat_digits.simps) (simp add: nat_digits_small)

lemma zero_digit [simp]: "is_digit (CHR ''0'')" "digit_of (CHR ''0'') = 0"
  by (simp_all add: is_digit_def digit_of_def)

lemma pad02_props:
  assumes "0 \<le> n" and "n < 100"
  shows "length (pad02 n) = 2" and "list_all is_digit (pad02 n)" and "digits_val 0 (pad02 n) = n"
proof -
  have d: "pad02 n = replicate (2 - length (nat_digits (nat n))) CHR ''0'' @ nat_digits (nat n)"
    using assms by (simp add: pad02_def Let_def)
  have len: "length (nat_digits (nat n)) = (if n < 10 then 1 else 2)"
    using assms by (auto simp: nat_digits_small nat_digits_two)
  show "length (pad02 n) = 2" unfolding d length_append length_replicate len by simp
  have z: "list_all is_digit (replicate m (CHR ''0''))" "digits_val 0 (replicate m (CHR ''0'')) = 0" for m
    by (induction m) simp_all
  show "list_all is_digit (pad02 n)" unfolding d by (simp add: z)
  show "digits_val 0 (pad02 n) = n" unfolding d using assms by (simp add: z)
qed

lemma Atoi_pad02: "0 \<le> n \<Longrightarrow> n < 100 \<Longrightarrow> Atoi (pad02 n) = Some n"
proof -
  assume n: "0 \<le> n" "n < 100"
  note p = pad02_props [OF n]
  from p(1) have "pad02 n \<noteq> []" by auto
  moreover have "in_int64 n" using n by (simp add: int64_bounds)
  ultimately show ?thesis by (simp add: Atoi_digits p(2,3))
qed

lemma Itoa_digits: "0 \<le> n \<Longrightarrow> list_all is_digit (Itoa n) \<and> Itoa n \<noteq> []"
  by (simp add: Itoa_def)

lemma Inst_String_shape:
  assumes "in_int64 k" and "k \<noteq> int64_min"
  obtains hr kop where "Inst_String k = (if k < 0 then ''-'' else []) @ Itoa hr @ CHR ''.'' # pad02 kop"
    and "0 \<le> hr" and "in_int64 hr" and "0 \<le> kop" and "kop < 100" and "\<bar>k\<bar> = hr * 100 + kop"
proof
  let ?a = "\<bar>k\<bar>"
  have a: "in_int64 ?a" "in_int64 (- k)" using assms unfolding int64_bounds by linarith+
  show "Inst_String k = (if k < 0 then ''-'' else []) @ Itoa (?a div 100) @ CHR ''.'' # pad02 (?a mod 100)"
    using a assms(1) by (auto simp: Inst_String_def Let_def wrap64_id go_quo_nonneg go_rem_nonneg)
  have "?a div 100 \<le> ?a" using zdiv_mono2 [of ?a 1 100] by simp
  then show "in_int64 (?a div 100)" using a(1) by (simp add: int64_bounds)
qed (simp_all)

lemma split_sign_digits: "ds \<noteq> [] \<Longrightarrow> is_digit (hd ds) \<Longrightarrow> split_sign ds = (False, ds)"
  by (auto simp: split_sign_def)

lemma parse_hr_kop:
  assumes "0 \<le> hr" "in_int64 hr" "0 \<le> kop" "kop < 100"
    and "split_sign s0 = (neg, Itoa hr @ CHR ''.'' # pad02 kop)"
  shows "parseDecimalKopecks s0 =
    Inr (if neg then wrap64 (- (hr * 100 + kop)) else wrap64 (hr * 100 + kop))"
proof -
  have ix: "indexByte (Itoa hr @ CHR ''.'' # pad02 kop) (CHR ''.'') = int (length (Itoa hr))"
    using Itoa_digits [OF assms(1)] by (intro indexByte_append digits_no_dot) simp
  have "parse_kop_part (pad02 kop) = Inr kop"
    using pad02_props [OF assms(3,4)] Atoi_pad02 [OF assms(3,4)]
    by (auto simp: parse_kop_part_def ParseInt_e_def)
  moreover have "ParseInt_e (Itoa hr) = Inr hr"
    using assms(2) by (simp add: ParseInt_e_def Atoi_Itoa)
  ultimately show ?thesis
    using assms(1) Itoa_digits [OF assms(1)]
    by (simp add: parseDecimalKopecks_def assms(5) ix Let_def nat_add_distrib)
qed

lemma parse_Inst_String:
  assumes "in_int64 k" and "k \<noteq> int64_min"
  shows "parseDecimalKopecks (Inst_String k) = Inr k"
proof -
  obtain hr kop where s: "Inst_String k = (if k < 0 then ''-'' else []) @ Itoa hr @ CHR ''.'' # pad02 kop"
    and b: "0 \<le> hr" "in_int64 hr" "0 \<le> kop" "kop < 100" and a: "\<bar>k\<bar> = hr * 100 + kop"
    using assms by (rule Inst_String_shape)
  have "is_digit (hd (Itoa hr))" using Itoa_digits [OF b(1)] by (cases "Itoa hr") auto
  then have "split_sign (Inst_String k) = (k < 0, Itoa hr @ CHR ''.'' # pad02 kop)"
    using s Itoa_digits [OF b(1)] by (auto simp: split_sign_def)
  from parse_hr_kop [OF b this] have "parseDecimalKopecks (Inst_String k) =
      Inr (if k < 0 then wrap64 (- \<bar>k\<bar>) else wrap64 \<bar>k\<bar>)" using a by simp
  with assms(1) show ?thesis by (simp add: wrap64_id)
qed

lemma Inst_String_ends:
  assumes "in_int64 k" and "k \<noteq> int64_min"
  shows "Inst_String k \<noteq> []" and "hd (Inst_String k) = CHR ''-'' \<or> is_digit (hd (Inst_String k))"
    and "is_digit (last (Inst_String k))" and "2 \<le> length (Inst_String k)"
proof -
  obtain hr kop where s: "Inst_String k = (if k < 0 then ''-'' else []) @ Itoa hr @ CHR ''.'' # pad02 kop"
    and b: "0 \<le> hr" "0 \<le> kop" "kop < 100"
    using assms by (rule Inst_String_shape)
  have "is_digit (hd (Itoa hr))" using Itoa_digits [OF b(1)] by (cases "Itoa hr") auto
  moreover obtain x y where "pad02 kop = [x, y]" "is_digit y"
    using pad02_props [OF b(2,3)] by (auto simp: length_Suc_conv numeral_2_eq_2)
  ultimately show "Inst_String k \<noteq> []" "hd (Inst_String k) = CHR ''-'' \<or> is_digit (hd (Inst_String k))"
      "is_digit (last (Inst_String k))" "2 \<le> length (Inst_String k)"
    using s Itoa_digits [OF b(1)] by auto
qed

section \<open>Properties\<close>

text \<open>C6: installment amounts round-trip through JSON. For every \<open>int64\<close> number of kopecks but
  \<open>MinInt64\<close>, what \<open>MarshalJSON\<close> emits is read back by \<open>UnmarshalJSON\<close> as the same number, as a
  bare JSON number and as a quoted JSON string alike.\<close>
theorem Inst_Money_roundtrip:
  assumes "in_int64 k" and "k \<noteq> int64_min"
  shows "Inst_UnmarshalJSON (Inst_MarshalJSON k) = Inr k
    \<and> Inst_UnmarshalJSON (CHR 0x22 # Inst_MarshalJSON k @ [CHR 0x22]) = Inr k"
proof -
  let ?s = "Inst_String k"
  note e = Inst_String_ends [OF assms]
  have "graphic (hd ?s)" "graphic (last ?s)"
    using e(2,3) digit_graphic by (auto simp: graphic_def)
  then have "TrimSpace ?s = ?s" by (intro TrimSpace_id) simp
  moreover have "?s \<noteq> ''null''" using e(2) by (auto simp: is_digit_def)
  moreover have "hd ?s \<noteq> CHR 0x22" using e(2) by auto
  moreover have "TrimSpace (CHR 0x22 # ?s @ [CHR 0x22]) = CHR 0x22 # ?s @ [CHR 0x22]"
    by (intro TrimSpace_id) (simp add: graphic_def)
  ultimately show ?thesis
    using e(1) parse_Inst_String [OF assms]
    by (simp add: Inst_UnmarshalJSON_def Inst_MarshalJSON_def Let_def)
qed

theorem Inst_Money_roundtrip_witness:
  "Inst_UnmarshalJSON (Inst_MarshalJSON (-249905)) = Inr (-249905)"
  using Inst_Money_roundtrip [of "-249905"] by (simp add: int64_bounds)

text \<open>What the parser lets through: the exponent of a JSON number after a two-digit fraction, a
  sign inside the fraction, and any bytes from the third fraction byte on.\<close>

lemma parseDecimalKopecks_exponent: "Inst_UnmarshalJSON ''1.50e3'' = Inr 151"
  by code_simp

lemma parseDecimalKopecks_inner_sign: "Inst_UnmarshalJSON ''1.-5'' = Inr 95"
  by code_simp

lemma parseDecimalKopecks_garbage: "Inst_UnmarshalJSON ''1.23 hryvnia'' = Inr 123"
  by code_simp

lemma validatePhone_iff:
  "validatePhone p = None \<longleftrightarrow> (\<exists>ds. ds \<noteq> [] \<and> list_all is_digit ds \<and> p = CHR ''+'' # ds)"
  by (cases p) (auto simp: validatePhone_def list_all_iff Suc_le_eq)

end
