(* ===== verification/Dedup.thy ===== *)
theory Dedup
  imports Go_Prelude "HOL-Library.Multiset"
begin

text \<open>
  The delivery memory of the webhook handlers: the \<open>Deduper\<close> interface and its in-memory LRU
  implementation (\<open>webhook/dedup.go\<close>; \<open>acquiring/dedup.go\<close> repeats the same code).

  \<open>container/list\<close> is modelled with element identities: an element is a handle (what a
  \<open>*list.Element\<close> pointer is) with its value, and the \<open>index\<close> map points from an id to a handle
  into \<open>order\<close>. The invariant says the pointers and the list agree; the abstraction is the list
  of ids, most recently used first; each operation refines an operation on that list.

  The locale \<open>deduper\<close> is what the handlers rely on. It is interpreted on the LRU at the end.
\<close>

section \<open>The interface\<close>

locale deduper =
  fixes has :: "string \<Rightarrow> 'd \<Rightarrow> bool \<times> 'd"
    and add :: "string \<Rightarrow> 'd \<Rightarrow> 'd"
    and dinv :: "'d \<Rightarrow> bool"
    and seen :: "'d \<Rightarrow> string set"
    and age :: "'d \<Rightarrow> string \<Rightarrow> nat"
    and window :: "'d \<Rightarrow> nat"
  assumes dinv_has: "dinv d \<Longrightarrow> dinv (snd (has k d))"
    and dinv_add: "dinv d \<Longrightarrow> dinv (add k d)"
    and has_iff: "dinv d \<Longrightarrow> fst (has k d) \<longleftrightarrow> k \<in> seen d"
    and seen_has: "dinv d \<Longrightarrow> seen (snd (has k d)) = seen d"
    and window_has: "window (snd (has k d)) = window d"
    and window_add: "window (add k d) = window d"
    and empty_not_seen: "dinv d \<Longrightarrow> [] \<notin> seen d"
    and seen_add_le: "dinv d \<Longrightarrow> seen (add k d) \<subseteq> insert k (seen d)"
    and seen_add_new: "dinv d \<Longrightarrow> k \<noteq> [] \<Longrightarrow> k \<in> seen (add k d)"
    and age_add_new: "dinv d \<Longrightarrow> k \<noteq> [] \<Longrightarrow> age (add k d) k = 0"
    and age_has_same: "dinv d \<Longrightarrow> k \<in> seen d \<Longrightarrow> age (snd (has k d)) k = 0"
    and age_has: "dinv d \<Longrightarrow> k \<in> seen d \<Longrightarrow>
      age (snd (has j d)) k \<le> age d k + (if fst (has j d) then 1 else 0)"
    and seen_add_keep: "dinv d \<Longrightarrow> k \<in> seen d \<Longrightarrow> age d k + 1 < window d \<Longrightarrow>
      k \<in> seen (add j d) \<and> age (add j d) k \<le> age d k + 1"
begin

text \<open>One delivery consults the memory, and records the id only if it was new.\<close>

lemma check_then_record_keeps:
  assumes "dinv d" and "k \<in> seen d" and "age d k + 1 < window d"
    and "d' = snd (has j d) \<or> (\<not> fst (has j d) \<and> d' = add j (snd (has j d)))"
  shows "dinv d' \<and> k \<in> seen d' \<and> age d' k \<le> age d k + 1 \<and> window d' = window d"
  using assms(4)
proof
  assume "d' = snd (has j d)"
  then show ?thesis
    using assms age_has [OF assms(1,2), of j] by (auto simp: dinv_has seen_has window_has split: if_splits)
next
  assume d': "\<not> fst (has j d) \<and> d' = add j (snd (has j d))"
  let ?d = "snd (has j d)"
  have i: "dinv ?d" "k \<in> seen ?d" "age ?d k \<le> age d k" "window ?d = window d"
    using assms d' age_has [OF assms(1,2), of j] by (auto simp: dinv_has seen_has window_has)
  with assms(3) have "age ?d k + 1 < window ?d" by simp
  from seen_add_keep [OF i(1,2) this, of j] i d' show ?thesis
    by (auto simp: dinv_add window_add)
qed

end

section \<open>The LRU implementation\<close>

record memory_deduper =
  capacity :: int
  order :: "(nat \<times> string) list"   \<comment> \<open>\<open>*list.List\<close>: elements (handle, value), front first\<close>
  index :: "string \<rightharpoonup> nat"           \<comment> \<open>\<open>map[string]*list.Element\<close>\<close>
  fresh :: nat                       \<comment> \<open>the next unused element identity\<close>

definition NewMemoryDeduper :: "int \<Rightarrow> memory_deduper" where
  "NewMemoryDeduper cap =
     \<lparr>capacity = (if cap \<le> 0 then 1024 else cap), order = [], index = Map.empty, fresh = 0\<rparr>"

definition MoveToFront :: "nat \<Rightarrow> (nat \<times> string) list \<Rightarrow> (nat \<times> string) list" where
  "MoveToFront el xs = filter (\<lambda>x. fst x = el) xs @ filter (\<lambda>x. fst x \<noteq> el) xs"

definition Remove :: "nat \<Rightarrow> (nat \<times> string) list \<Rightarrow> (nat \<times> string) list" where
  "Remove el xs = filter (\<lambda>x. fst x \<noteq> el) xs"

definition Has :: "string \<Rightarrow> memory_deduper \<Rightarrow> bool \<times> memory_deduper" where
  "Has k d =
     (if k = [] then (False, d)
      else case index d k of
          None \<Rightarrow> (False, d)
        | Some el \<Rightarrow> (True, d\<lparr>order := MoveToFront el (order d)\<rparr>))"

definition evict_oldest :: "memory_deduper \<Rightarrow> memory_deduper" where
  \<comment> \<open>\<open>if d.order.Len() == d.capacity { if oldest := d.order.Back(); oldest != nil {...} }\<close>\<close>
  "evict_oldest d =
     (if int (length (order d)) = capacity d then
        (if order d = [] then d
         else let oldest = last (order d)
              in d\<lparr>index := (index d)(snd oldest := None), order := Remove (fst oldest) (order d)\<rparr>)
      else d)"

definition push_front :: "string \<Rightarrow> memory_deduper \<Rightarrow> memory_deduper" where
  \<comment> \<open>\<open>d.index[id] = d.order.PushFront(id)\<close>\<close>
  "push_front k d =
     d\<lparr>index := (index d)(k \<mapsto> fresh d), order := (fresh d, k) # order d, fresh := fresh d + 1\<rparr>"

definition Add_id :: "string \<Rightarrow> memory_deduper \<Rightarrow> memory_deduper" where
  "Add_id k d =
     (if k = [] then d
      else case index d k of
          Some el \<Rightarrow> d\<lparr>order := MoveToFront el (order d)\<rparr>
        | None \<Rightarrow> push_front k (evict_oldest d))"

definition Len :: "memory_deduper \<Rightarrow> nat" where
  "Len d = length (order d)"

section \<open>Invariant and abstraction\<close>

definition lru_inv :: "memory_deduper \<Rightarrow> bool" where
  "lru_inv d \<longleftrightarrow>
     0 < capacity d \<and> int (length (order d)) \<le> capacity d \<and>
     distinct (map fst (order d)) \<and> distinct (map snd (order d)) \<and>
     (\<forall>x \<in> set (order d). fst x < fresh d \<and> snd x \<noteq> []) \<and>
     (\<forall>k el. index d k = Some el \<longleftrightarrow> (el, k) \<in> set (order d))"

definition lru_abs :: "memory_deduper \<Rightarrow> string list" where
  \<comment> \<open>the remembered ids, most recently used first\<close>
  "lru_abs d = map snd (order d)"

definition lru_touch :: "string \<Rightarrow> string list \<Rightarrow> string list" where
  "lru_touch k ks = (if k \<in> set ks then k # filter (\<lambda>j. j \<noteq> k) ks else ks)"

definition lru_insert :: "nat \<Rightarrow> string \<Rightarrow> string list \<Rightarrow> string list" where
  "lru_insert cap k ks =
     (if k \<in> set ks then k # filter (\<lambda>j. j \<noteq> k) ks
      else k # (if length ks = cap then butlast ks else ks))"

definition lru_age :: "string list \<Rightarrow> string \<Rightarrow> nat" where
  "lru_age ks k = length (takeWhile (\<lambda>j. j \<noteq> k) ks)"

lemma lru_inv_New: "lru_inv (NewMemoryDeduper cap)"
  by (simp add: lru_inv_def NewMemoryDeduper_def)

lemma index_None_iff: "lru_inv d \<Longrightarrow> index d k = None \<longleftrightarrow> k \<notin> snd ` set (order d)"
  unfolding lru_inv_def by (metis (no_types, lifting) image_iff not_Some_eq prod.collapse snd_conv)

lemma index_SomeD: "lru_inv d \<Longrightarrow> index d k = Some el \<Longrightarrow> (el, k) \<in> set (order d)"
  by (simp add: lru_inv_def)

lemma filter_distinct_key:
  "distinct (map f xs) \<Longrightarrow> x \<in> set xs \<Longrightarrow> filter (\<lambda>y. f y = f x) xs = [x]"
  by (induction xs) (auto simp: filter_empty_conv, metis image_eqI)

lemma mset_MoveToFront: "mset (MoveToFront el xs) = mset xs"
  by (induction xs) (auto simp: MoveToFront_def)

lemma MoveToFront_eq:
  assumes "lru_inv d" and "(el, k) \<in> set (order d)"
  shows "MoveToFront el (order d) = (el, k) # filter (\<lambda>x. snd x \<noteq> k) (order d)"
proof -
  have d: "distinct (map fst (order d))" "distinct (map snd (order d))"
    using assms(1) by (simp_all add: lru_inv_def)
  have "filter (\<lambda>x. fst x = el) (order d) = [(el, k)]"
    using filter_distinct_key [OF d(1) assms(2)] by simp
  moreover have "fst x = el \<longleftrightarrow> snd x = k" if "x \<in> set (order d)" for x
    using that assms(2) d by (metis eq_key_imp_eq_value inj_on_def distinct_map fst_conv snd_conv)
  then have "filter (\<lambda>x. fst x \<noteq> el) (order d) = filter (\<lambda>x. snd x \<noteq> k) (order d)"
    by (intro filter_cong) auto
  ultimately show ?thesis by (simp add: MoveToFront_def)
qed

lemma touch_refines:
  assumes "lru_inv d" and "(el, k) \<in> set (order d)"
  shows "lru_inv (d\<lparr>order := MoveToFront el (order d)\<rparr>)"
    and "lru_abs (d\<lparr>order := MoveToFront el (order d)\<rparr>) = k # filter (\<lambda>j. j \<noteq> k) (lru_abs d)"
proof -
  let ?o = "(el, k) # filter (\<lambda>x. snd x \<noteq> k) (order d)"
  have m: "MoveToFront el (order d) = ?o" using assms by (rule MoveToFront_eq)
  have mem: "set ?o = set (order d)"
  proof -
    have "distinct (map snd (order d))" using assms(1) by (simp add: lru_inv_def)
    then have "{x \<in> set (order d). snd x = k} \<subseteq> {(el, k)}"
      using assms(2) by (force simp: distinct_map inj_on_def)
    with assms(2) show ?thesis by auto
  qed
  have df: "distinct (map fst (MoveToFront el (order d)))" "length (MoveToFront el (order d)) = length (order d)"
  proof -
    have "mset (map fst (MoveToFront el (order d))) = mset (map fst (order d))"
      by (simp add: mset_MoveToFront)
    then have "distinct (map fst (MoveToFront el (order d))) = distinct (map fst (order d))"
      by (rule mset_eq_imp_distinct_iff)
    then show "distinct (map fst (MoveToFront el (order d)))"
      using assms(1) by (simp add: lru_inv_def)
    show "length (MoveToFront el (order d)) = length (order d)"
      by (rule mset_eq_length [OF mset_MoveToFront])
  qed
  have ds: "distinct (map snd ?o)"
    using assms(1) by (simp add: lru_inv_def distinct_map_filter) auto
  show "lru_inv (d\<lparr>order := MoveToFront el (order d)\<rparr>)"
    using assms(1) df ds mem unfolding m by (simp add: lru_inv_def)
  show "lru_abs (d\<lparr>order := MoveToFront el (order d)\<rparr>) = k # filter (\<lambda>j. j \<noteq> k) (lru_abs d)"
    unfolding m by (simp add: lru_abs_def filter_map comp_def)
qed

lemma filter_butlast:
  "xs \<noteq> [] \<Longrightarrow> distinct (map f xs) \<Longrightarrow> filter (\<lambda>x. f x \<noteq> f (last xs)) xs = butlast xs"
  by (induction xs rule: rev_induct) (auto simp: filter_id_conv, metis image_eqI)

lemma evict_refines:
  assumes "lru_inv d"
  shows "lru_inv (evict_oldest d)"
    and "lru_abs (evict_oldest d) =
          (if int (length (lru_abs d)) = capacity d then butlast (lru_abs d) else lru_abs d)"
    and "int (length (order (evict_oldest d))) < capacity d"
    and "capacity (evict_oldest d) = capacity d"
    and "set (order (evict_oldest d)) \<subseteq> set (order d)"
proof -
  note inv = assms [unfolded lru_inv_def]
  have "lru_inv (evict_oldest d) \<and> lru_abs (evict_oldest d) =
      (if int (length (lru_abs d)) = capacity d then butlast (lru_abs d) else lru_abs d) \<and>
      int (length (order (evict_oldest d))) < capacity d \<and> capacity (evict_oldest d) = capacity d \<and>
      set (order (evict_oldest d)) \<subseteq> set (order d)"
  proof (cases "int (length (order d)) = capacity d")
    case True
    with inv have ne: "order d \<noteq> []" by auto
    then obtain ys y where y: "order d = ys @ [y]" by (cases "order d" rule: rev_cases) auto
    have r: "Remove (fst y) (order d) = ys"
      using filter_butlast [OF ne, of fst] inv y by (simp add: Remove_def)
    with True ne y have e: "evict_oldest d = d\<lparr>index := (index d)(snd y := None), order := ys\<rparr>"
      by (simp add: evict_oldest_def Let_def)
    have ny: "snd y \<notin> snd ` set ys" using inv y by simp
    have "((index d)(snd y := None)) k = Some el \<longleftrightarrow> (el, k) \<in> set ys" for k el
    proof (cases "k = snd y")
      case True
      have "(el, snd y) \<notin> set ys" using ny by (metis image_eqI snd_conv)
      with True show ?thesis by simp
    next
      case False
      moreover have "index d k = Some el \<longleftrightarrow> (el, k) \<in> set (order d)" using inv by blast
      ultimately show ?thesis using y by auto
    qed
    then have "lru_inv (evict_oldest d)"
      using inv y True unfolding e by (simp add: lru_inv_def)
    moreover have "lru_abs (evict_oldest d) = butlast (lru_abs d)"
      unfolding e using y by (simp add: lru_abs_def)
    ultimately show ?thesis using True y unfolding e by (auto simp: lru_abs_def)
  next
    case False
    then show ?thesis using inv assms by (simp add: evict_oldest_def lru_abs_def)
  qed
  then show "lru_inv (evict_oldest d)"
    and "lru_abs (evict_oldest d) =
          (if int (length (lru_abs d)) = capacity d then butlast (lru_abs d) else lru_abs d)"
    and "int (length (order (evict_oldest d))) < capacity d"
    and "capacity (evict_oldest d) = capacity d"
    and "set (order (evict_oldest d)) \<subseteq> set (order d)" by auto
qed

lemma push_refines:
  assumes "lru_inv d" and "int (length (order d)) < capacity d"
    and "k \<noteq> []" and "k \<notin> set (lru_abs d)"
  shows "lru_inv (push_front k d)" and "lru_abs (push_front k d) = k # lru_abs d"
  using assms
  by (auto simp: lru_inv_def push_front_def lru_abs_def image_iff)

lemma lru_abs_set: "set (lru_abs d) = snd ` set (order d)"
  by (simp add: lru_abs_def)

lemma lru_inv_distinct: "lru_inv d \<Longrightarrow> distinct (lru_abs d)"
  by (simp add: lru_inv_def lru_abs_def)

lemma Has_refines:
  assumes "lru_inv d"
  shows "lru_inv (snd (Has k d))" and "fst (Has k d) \<longleftrightarrow> k \<in> set (lru_abs d)"
    and "lru_abs (snd (Has k d)) = lru_touch k (lru_abs d)" and "capacity (snd (Has k d)) = capacity d"
proof -
  have "[] \<notin> set (lru_abs d)" using assms by (auto simp: lru_inv_def lru_abs_def)
  with assms touch_refines [OF assms] index_None_iff [OF assms, of k] index_SomeD [OF assms, of k]
  show "lru_inv (snd (Has k d))" and "fst (Has k d) \<longleftrightarrow> k \<in> set (lru_abs d)"
    and "lru_abs (snd (Has k d)) = lru_touch k (lru_abs d)" and "capacity (snd (Has k d)) = capacity d"
    by (force simp: Has_def lru_touch_def lru_abs_set split: option.splits)+
qed

lemma Add_id_refines:
  assumes "lru_inv d" and "k \<noteq> []"
  shows "lru_inv (Add_id k d)"
    and "lru_abs (Add_id k d) = lru_insert (nat (capacity d)) k (lru_abs d)"
    and "capacity (Add_id k d) = capacity d"
proof -
  note ev = evict_refines [OF assms(1)]
  have "lru_inv (Add_id k d) \<and> lru_abs (Add_id k d) = lru_insert (nat (capacity d)) k (lru_abs d)
      \<and> capacity (Add_id k d) = capacity d"
  proof (cases "index d k")
    case (Some el)
    from index_SomeD [OF assms(1) Some] have m: "(el, k) \<in> set (order d)" .
    then have "k \<in> set (lru_abs d)" by (force simp: lru_abs_set)
    with Some m touch_refines [OF assms(1) m] assms(2) show ?thesis
      by (simp add: Add_id_def lru_insert_def)
  next
    case None
    then have k: "k \<notin> set (lru_abs d)" using index_None_iff [OF assms(1)] by (simp add: lru_abs_set)
    moreover have "set (lru_abs (evict_oldest d)) \<subseteq> set (lru_abs d)"
      using ev(5) by (auto simp: lru_abs_set)
    ultimately have k': "k \<notin> set (lru_abs (evict_oldest d))" by blast
    have cap: "capacity (push_front k (evict_oldest d)) = capacity d"
      using ev(4) by (simp add: push_front_def)
    have "int (length (order (evict_oldest d))) < capacity (evict_oldest d)" using ev(3,4) by simp
    note pr = push_refines [OF ev(1) this assms(2) k']
    have "0 < capacity d" using assms(1) by (simp add: lru_inv_def)
    then have "int (length (lru_abs d)) = capacity d \<longleftrightarrow> length (lru_abs d) = nat (capacity d)" by auto
    with None k pr cap ev(2) assms(2) show ?thesis
      by (auto simp: Add_id_def lru_insert_def)
  qed
  then show "lru_inv (Add_id k d)"
    and "lru_abs (Add_id k d) = lru_insert (nat (capacity d)) k (lru_abs d)"
    and "capacity (Add_id k d) = capacity d" by auto
qed

section \<open>The LRU meets the interface\<close>

lemma takeWhile_filter_keep:
  "Q k \<Longrightarrow> takeWhile (\<lambda>j. j \<noteq> k) (filter Q xs) = filter Q (takeWhile (\<lambda>j. j \<noteq> k) xs)"
  by (induction xs) auto

lemma lru_age_filter: "k \<noteq> j \<Longrightarrow> lru_age (j # filter (\<lambda>i. i \<noteq> j) ks) k \<le> lru_age ks k + 1"
  by (simp add: lru_age_def takeWhile_filter_keep)

lemma lru_age_butlast:
  assumes "k \<in> set ks" and "lru_age ks k + 1 < length ks"
  shows "k \<in> set (butlast ks) \<and> lru_age (butlast ks) k = lru_age ks k"
proof (cases ks rule: rev_cases)
  case (snoc ys y)
  have "k \<in> set ys"
  proof (rule ccontr)
    assume "k \<notin> set ys"
    then have "takeWhile (\<lambda>j. j \<noteq> k) ks = ys @ takeWhile (\<lambda>j. j \<noteq> k) [y]"
      unfolding snoc by (intro takeWhile_append2) auto
    with assms snoc show False by (simp add: lru_age_def)
  qed
  then show ?thesis using snoc by (simp add: lru_age_def takeWhile_append1)
qed (use assms in simp)

lemma lru_insert_keep:
  assumes "k \<in> set ks" and "lru_age ks k + 1 < cap"
  shows "k \<in> set (lru_insert cap j ks) \<and> lru_age (lru_insert cap j ks) k \<le> lru_age ks k + 1"
proof (cases "j = k")
  case True
  with assms show ?thesis by (simp add: lru_insert_def lru_age_def)
next
  case False
  have "k \<in> set (butlast ks) \<and> lru_age (butlast ks) k = lru_age ks k" if "length ks = cap"
    using assms that by (intro lru_age_butlast) auto
  with False assms lru_age_filter [of k j ks] show ?thesis
    by (auto simp: lru_insert_def) (auto simp: lru_age_def)
qed

interpretation mem_dedup: deduper Has Add_id lru_inv "\<lambda>d. set (lru_abs d)"
  "\<lambda>d. lru_age (lru_abs d)" "\<lambda>d. nat (capacity d)"
proof unfold_locales
  fix d :: memory_deduper and k j :: string
  have cap: "capacity (Add_id k d) = capacity d"
    by (simp add: Add_id_def push_front_def evict_oldest_def Let_def split: option.split)
  then show "nat (capacity (Add_id k d)) = nat (capacity d)" by simp
  show "nat (capacity (snd (Has k d))) = nat (capacity d)"
    by (simp add: Has_def split: option.split)
  assume inv: "lru_inv d"
  note h = Has_refines [OF inv] and a = Add_id_refines [OF inv]
  show "lru_inv (snd (Has k d))" and "fst (Has k d) \<longleftrightarrow> k \<in> set (lru_abs d)" by (rule h)+
  show "lru_inv (Add_id k d)" using a(1) inv by (cases "k = []") (simp_all add: Add_id_def)
  show "set (lru_abs (snd (Has k d))) = set (lru_abs d)" by (auto simp: h(3) lru_touch_def)
  show "[] \<notin> set (lru_abs d)" using inv by (auto simp: lru_inv_def lru_abs_def)
  show "set (lru_abs (Add_id k d)) \<subseteq> insert k (set (lru_abs d))"
    using a(2) by (cases "k = []") (auto simp: Add_id_def lru_insert_def dest: in_set_butlastD)
  { assume "k \<noteq> []"
    then show "k \<in> set (lru_abs (Add_id k d))" and "lru_age (lru_abs (Add_id k d)) k = 0"
      by (simp_all add: a(2) lru_insert_def lru_age_def) }
  assume k: "k \<in> set (lru_abs d)"
  show "lru_age (lru_abs (snd (Has k d))) k = 0"
    using k by (simp add: h lru_touch_def lru_age_def)
  show "lru_age (lru_abs (snd (Has j d))) k \<le> lru_age (lru_abs d) k + (if fst (Has j d) then 1 else 0)"
    using lru_age_filter [of k j "lru_abs d"] by (cases "j = k") (auto simp: h lru_touch_def lru_age_def)
  assume "lru_age (lru_abs d) k + 1 < nat (capacity d)"
  with k show "k \<in> set (lru_abs (Add_id j d)) \<and> lru_age (lru_abs (Add_id j d)) k \<le> lru_age (lru_abs d) k + 1"
    using lru_insert_keep [of k "lru_abs d" "nat (capacity d)" j] a(2)
    by (cases "j = []") (auto simp: Add_id_def)
qed

section \<open>Properties\<close>

text \<open>C7: the pointer structure (handle list plus index map) implements an LRU set. On every state
  satisfying the representation invariant, \<open>Has\<close> answers membership and moves a hit to the
  front, \<open>Add\<close> inserts at the front after evicting the least recently used id when full, both
  keep the invariant (so never more than \<open>capacity\<close> ids, index and list always agree), and the
  empty id is never recorded.\<close>
theorem MemoryDeduper_refines_LRU:
  assumes "lru_inv d"
  shows "fst (Has k d) = (k \<in> set (lru_abs d))
    \<and> lru_abs (snd (Has k d)) = lru_touch k (lru_abs d)
    \<and> lru_abs (Add_id k d) = (if k = [] then lru_abs d else lru_insert (nat (capacity d)) k (lru_abs d))
    \<and> lru_inv (snd (Has k d)) \<and> lru_inv (Add_id k d)
    \<and> int (Len (Add_id k d)) \<le> capacity d"
proof -
  have i: "lru_inv (Add_id k d)" by (rule mem_dedup.dinv_add [OF assms])
  have c: "capacity (Add_id k d) = capacity d"
    by (simp add: Add_id_def push_front_def evict_oldest_def Let_def split: option.split)
  have "int (length (order (Add_id k d))) \<le> capacity (Add_id k d)"
    using i by (simp add: lru_inv_def)
  with i c show ?thesis
    using Has_refines [OF assms] Add_id_refines(2) [OF assms]
    by (cases "k = []") (auto simp: Len_def Add_id_def)
qed

theorem MemoryDeduper_refines_LRU_witness:
  "lru_abs (Add_id ''c'' (Add_id ''b'' (Add_id ''a'' (NewMemoryDeduper 2)))) = [''c'', ''b'']"
proof -
  have n: "lru_inv (NewMemoryDeduper 2)" by (rule lru_inv_New)
  have i: "lru_inv (Add_id ''b'' (Add_id ''a'' (NewMemoryDeduper 2)))"
    by (intro mem_dedup.dinv_add n)
  have "lru_abs (Add_id ''b'' (Add_id ''a'' (NewMemoryDeduper 2))) = [''b'', ''a'']"
       "capacity (Add_id ''b'' (Add_id ''a'' (NewMemoryDeduper 2))) = 2" by code_simp+
  with MemoryDeduper_refines_LRU [OF i, of "''c''"] show ?thesis
    by (simp add: lru_insert_def)
qed

datatype dedup_op = OpHas string | OpAdd string

fun dedup_run :: "dedup_op list \<Rightarrow> memory_deduper \<Rightarrow> memory_deduper" where
  "dedup_run [] d = d"
| "dedup_run (OpHas k # ops) d = dedup_run ops (snd (Has k d))"
| "dedup_run (OpAdd k # ops) d = dedup_run ops (Add_id k d)"

lemma dedup_run_keeps:
  "lru_inv d \<Longrightarrow> k \<in> set (lru_abs d) \<Longrightarrow> lru_age (lru_abs d) k + length ops < nat (capacity d) \<Longrightarrow>
   lru_inv (dedup_run ops d) \<and> k \<in> set (lru_abs (dedup_run ops d))"
proof (induction ops d rule: dedup_run.induct)
  case (2 j ops d)
  show ?case
    unfolding dedup_run.simps
    using mem_dedup.age_has [OF 2(2,3), of j] 2(2-4)
    by (intro 2(1)) (auto simp: mem_dedup.dinv_has mem_dedup.seen_has mem_dedup.window_has split: if_splits)
next
  case (3 j ops d)
  show ?case
    unfolding dedup_run.simps
    using mem_dedup.seen_add_keep [OF 3(2,3), of j] 3(2-4)
    by (intro 3(1)) (auto simp: mem_dedup.dinv_add mem_dedup.window_add)
qed auto

text \<open>C8: a recorded id is not forgotten early. After \<open>Add(id)\<close>, the id is still reported by
  \<open>Has\<close> after any mix of fewer than \<open>capacity\<close> further operations, so a redelivery within that
  window is always recognised.\<close>
theorem MemoryDeduper_retention:
  assumes "lru_inv d" and "k \<noteq> []" and "int (length ops) < capacity d"
  shows "fst (Has k (dedup_run ops (Add_id k d)))"
proof -
  let ?d = "Add_id k d"
  have "lru_inv ?d" "k \<in> set (lru_abs ?d)" "lru_age (lru_abs ?d) k = 0" "nat (capacity ?d) = nat (capacity d)"
    using assms mem_dedup.dinv_add mem_dedup.seen_add_new mem_dedup.age_add_new mem_dedup.window_add
    by auto
  with assms(3) dedup_run_keeps [of ?d k ops] show ?thesis
    by (auto simp: Has_refines(2))
qed

theorem MemoryDeduper_retention_witness:
  "fst (Has ''tx'' (dedup_run [OpAdd ''a''] (Add_id ''tx'' (NewMemoryDeduper 2))))"
  by (rule MemoryDeduper_retention [OF lru_inv_New]) (simp_all add: NewMemoryDeduper_def)

text \<open>The bound is tight: \<open>capacity\<close> other insertions do evict it.\<close>

lemma MemoryDeduper_eviction:
  "\<not> fst (Has ''tx'' (dedup_run [OpAdd ''a'', OpAdd ''b''] (Add_id ''tx'' (NewMemoryDeduper 2))))"
  by code_simp

end
