(* ===== verification/Go_Base64.thy ===== *)
theory Go_Base64
  imports Go_Prelude
begin

text \<open>
  What the SDK uses of \<open>encoding/base64\<close>: \<open>StdEncoding\<close>, padded, decoding as Go does (carriage
  returns and newlines are skipped, padding only at the end, the unused bits of the last
  character are not checked). \<open>byte\<close> and \<open>val\<close> read and write the byte of a \<open>char\<close>.
\<close>

definition byte :: "nat \<Rightarrow> char" where
  "byte n = char_of n"

definition byte_val :: "char \<Rightarrow> nat" where
  "byte_val c = of_char c"

lemma byte_val_less [simp]: "byte_val c < 256"
  by (simp add: byte_val_def)

lemma byte_val_byte [simp]: "n < 256 \<Longrightarrow> byte_val (byte n) = n"
  by (simp add: byte_val_def byte_def)

lemma byte_byte_val [simp]: "byte (byte_val c) = c"
  by (simp add: byte_val_def byte_def)

definition b64_char :: "nat \<Rightarrow> char" where
  \<comment> \<open>\<open>A-Z\<close>, \<open>a-z\<close>, \<open>0-9\<close>, \<open>+\<close>, \<open>/\<close>\<close>
  "b64_char n =
     byte (if n < 26 then n + 65 else if n < 52 then n + 71 else if n < 62 then n - 4
           else if n = 62 then 43 else 47)"

definition b64_val :: "char \<Rightarrow> nat option" where
  "b64_val c =
     (let n = byte_val c
      in if 65 \<le> n \<and> n \<le> 90 then Some (n - 65)
         else if 97 \<le> n \<and> n \<le> 122 then Some (n - 71)
         else if 48 \<le> n \<and> n \<le> 57 then Some (n + 4)
         else if n = 43 then Some 62
         else if n = 47 then Some 63
         else None)"

fun b64_encode :: "string \<Rightarrow> string" where
  "b64_encode [] = []"
| "b64_encode [a] =
     [b64_char (byte_val a div 4), b64_char (byte_val a mod 4 * 16), CHR ''='', CHR ''='']"
| "b64_encode [a, b] =
     [b64_char (byte_val a div 4), b64_char (byte_val a mod 4 * 16 + byte_val b div 16),
      b64_char (byte_val b mod 16 * 4), CHR ''='']"
| "b64_encode (a # b # c # rest) =
     b64_char (byte_val a div 4) # b64_char (byte_val a mod 4 * 16 + byte_val b div 16) #
     b64_char (byte_val b mod 16 * 4 + byte_val c div 64) # b64_char (byte_val c mod 64) # b64_encode rest"

fun b64_quads :: "string \<Rightarrow> string option" where
  "b64_quads [] = Some []"
| "b64_quads (a # b # c # d # rest) =
     (case (b64_val a, b64_val b) of
        (Some x, Some y) \<Rightarrow>
          if d = CHR ''='' then
            (if rest \<noteq> [] then None
             else if c = CHR ''='' then Some [byte ((x * 4 + y div 16) mod 256)]
             else case b64_val c of
                 Some z \<Rightarrow> Some [byte (x * 4 + y div 16), byte (y mod 16 * 16 + z div 4)]
               | None \<Rightarrow> None)
          else (case (b64_val c, b64_val d) of
              (Some z, Some w) \<Rightarrow>
                map_option (\<lambda>r. byte (x * 4 + y div 16) # byte (y mod 16 * 16 + z div 4)
                    # byte (z mod 4 * 64 + w) # r) (b64_quads rest)
            | _ \<Rightarrow> None)
      | _ \<Rightarrow> None)"
| "b64_quads _ = None"

definition b64_decode :: "string \<Rightarrow> string option" where
  "b64_decode s = b64_quads (filter (\<lambda>c. c \<noteq> CHR 10 \<and> c \<noteq> CHR 13) s)"

lemma b64_val_char: "n < 64 \<Longrightarrow> b64_val (b64_char n) = Some n"
  by (auto simp: b64_char_def b64_val_def Let_def)

lemma b64_char_plain:
  assumes "n < 64"
  shows "b64_char n \<noteq> CHR ''=''" and "b64_char n \<noteq> CHR 10" and "b64_char n \<noteq> CHR 13"
proof -
  have "b64_val (CHR ''='') = None" "b64_val (CHR 10) = None" "b64_val (CHR 13) = None"
    by (simp_all add: b64_val_def byte_val_def)
  with b64_val_char [OF assms]
  show "b64_char n \<noteq> CHR ''=''" and "b64_char n \<noteq> CHR 10" and "b64_char n \<noteq> CHR 13"
    by auto
qed

lemma byte_pieces:
  "byte_val a div 4 < 64" "byte_val a mod 4 * 16 + byte_val b div 16 < 64"
  "byte_val b mod 16 * 4 + byte_val c div 64 < 64" "byte_val c mod 64 < 64"
  "byte_val a mod 4 * 16 < 64" "byte_val b mod 16 * 4 < 64"
  using byte_val_less [of a] byte_val_less [of b] byte_val_less [of c] by linarith+

lemma byte_joins:
  "byte_val a div 4 * 4 + (byte_val a mod 4 * 16 + byte_val b div 16) div 16 = byte_val a"
  "(byte_val a mod 4 * 16 + byte_val b div 16) mod 16 * 16 + (byte_val b mod 16 * 4 + byte_val c div 64) div 4 = byte_val b"
  "(byte_val b mod 16 * 4 + byte_val c div 64) mod 4 * 64 + byte_val c mod 64 = byte_val c"
  "byte_val a div 4 * 4 + (byte_val a mod 4 * 16) div 16 = byte_val a"
  "(byte_val a mod 4 * 16 + byte_val b div 16) mod 16 * 16 + (byte_val b mod 16 * 4) div 4 = byte_val b"
proof -
  have "byte_val b div 16 < 16" "byte_val c div 64 < 4"
    using byte_val_less [of b] byte_val_less [of c] by linarith+
  then show
    "byte_val a div 4 * 4 + (byte_val a mod 4 * 16 + byte_val b div 16) div 16 = byte_val a"
    "(byte_val a mod 4 * 16 + byte_val b div 16) mod 16 * 16 + (byte_val b mod 16 * 4 + byte_val c div 64) div 4 = byte_val b"
    "(byte_val b mod 16 * 4 + byte_val c div 64) mod 4 * 64 + byte_val c mod 64 = byte_val c"
    "byte_val a div 4 * 4 + (byte_val a mod 4 * 16) div 16 = byte_val a"
    "(byte_val a mod 4 * 16 + byte_val b div 16) mod 16 * 16 + (byte_val b mod 16 * 4) div 4 = byte_val b"
    by simp_all
qed

lemma b64_quads_encode: "b64_quads (b64_encode bs) = Some bs"
  by (induction bs rule: b64_encode.induct)
    (simp_all only: b64_encode.simps b64_quads.simps b64_val_char byte_pieces byte_joins
      b64_char_plain option.case prod.case if_True if_False simp_thms option.map byte_byte_val
      mod_less byte_val_less)

lemma b64_encode_plain: "c \<in> set (b64_encode bs) \<Longrightarrow> c \<noteq> CHR 10 \<and> c \<noteq> CHR 13"
  by (induction bs rule: b64_encode.induct) (auto simp: b64_char_plain byte_pieces)

theorem b64_decode_encode: "b64_decode (b64_encode bs) = Some bs"
proof -
  have "filter (\<lambda>c. c \<noteq> CHR 10 \<and> c \<noteq> CHR 13) (b64_encode bs) = b64_encode bs"
    by (simp add: filter_id_conv b64_encode_plain)
  then show ?thesis by (simp add: b64_decode_def b64_quads_encode)
qed

lemma length_b64_encode: "length (b64_encode bs) = 4 * ((length bs + 2) div 3)"
proof (induction bs rule: b64_encode.induct)
  case (4 a b c rest)
  have "(length (a # b # c # rest) + 2) div 3 = Suc ((length rest + 2) div 3)"
    using div_add_self2 [of 3 "length rest + 2"] by simp
  moreover have "length (b64_encode (a # b # c # rest)) = length (b64_encode rest) + 4" by simp
  ultimately show ?case using 4 by (simp only: mult_Suc_right)
qed simp_all

lemma b64_encode_inj: "b64_encode a = b64_encode b \<longleftrightarrow> a = b"
  by (metis b64_decode_encode option.inject)

end
