(* ===== verification/Webhook_Handler.thy ===== *)
theory Webhook_Handler
  imports Dedup Go_Base64
begin

text \<open>
  Package \<open>webhook\<close>: signature verification (\<open>webhook/signature.go\<close>), payload parsing
  (\<open>webhook/parse.go\<close>) and the \<open>http.Handler\<close> (\<open>webhook/handler.go\<close>).

  Parameters of the model: the primitives of \<open>crypto/sha256\<close> and \<open>crypto/ecdsa\<close> and the JSON
  decoder (record \<open>crypto\<close> and field \<open>Decode\<close>), the user's callbacks and the key provider. The
  callbacks act on a world of type \<open>'u\<close>, which they may read and change in any way; the clock
  is read from it. Of a request the handler reads the method, the headers and the body; a body
  is its bytes and whether reading ends in an error. Of a decoded payload the handler reads the
  type and the transaction id (\<open>event\<close> can be extended with the rest).

  One call of \<open>ServeHTTP\<close> is one function on the handler's state; concurrent calls are not
  interleaved here.
\<close>

section \<open>Signatures\<close>

datatype verify_error = ErrMissingPubKey | ErrBadSignatureEncoding | ErrBadSignature

record 'k crypto =
  Sum256 :: "string \<Rightarrow> string"
  VerifyASN1 :: "'k \<Rightarrow> string \<Rightarrow> string \<Rightarrow> bool"

definition rawSigLen :: nat where
  "rawSigLen = 64"

definition der_integer :: "string \<Rightarrow> string" where
  \<comment> \<open>the DER INTEGER of an unsigned big-endian number: no leading zero bytes, one zero byte when
      the top bit is set\<close>
  "der_integer bs =
     (let t = dropWhile (\<lambda>c. byte_val c = 0) bs;
          t' = (if t = [] then [byte 0] else if 128 \<le> byte_val (hd t) then byte 0 # t else t)
      in byte 2 # byte (length t') # t')"

definition marshalRawSigToDER :: "string \<Rightarrow> string option" where
  "marshalRawSigToDER sig =
     (if length sig \<noteq> rawSigLen then None
      else let c = der_integer (take (rawSigLen div 2) sig) @ der_integer (drop (rawSigLen div 2) sig)
           in Some (byte 0x30 # byte (length c) # c))"

definition Verify :: "'k crypto \<Rightarrow> 'k option \<Rightarrow> string \<Rightarrow> string \<Rightarrow> verify_error option" where
  "Verify cr pub body xSign =
     (case pub of
        None \<Rightarrow> Some ErrMissingPubKey
      | Some pk \<Rightarrow>
         (case b64_decode xSign of
            None \<Rightarrow> Some ErrBadSignatureEncoding
          | Some sig \<Rightarrow>
              let digest = Sum256 cr body
              in if VerifyASN1 cr pk digest sig then None
                 else if length sig = rawSigLen then
                   (case marshalRawSigToDER sig of
                      Some der \<Rightarrow> if VerifyASN1 cr pk digest der then None else Some ErrBadSignature
                    | None \<Rightarrow> Some ErrBadSignature)
                 else Some ErrBadSignature))"

section \<open>Payloads\<close>

record event =
  Type :: string
  AccountID :: string
  TransactionID :: string

datatype 'e parse_result = Parsed 'e | UnknownType 'e | DecodeError string

definition Parse :: "(string \<Rightarrow> string + 'e event_scheme) \<Rightarrow> string \<Rightarrow> 'e event_scheme parse_result" where
  "Parse unmarshal body =
     (case unmarshal body of
        Inl e \<Rightarrow> DecodeError e
      | Inr v \<Rightarrow> if Type v = ''StatementItem'' then Parsed v else UnknownType v)"

section \<open>The handler\<close>

record 'k server_key =
  KeyID :: string
  PubKey :: "'k option"

datatype handler_error =
    KeyNotLoaded | RefreshFailed string | ParseFailed string | EmptyTransactionID | OnEventFailed string

record 'd dedup_api =
  api_Has :: "string \<Rightarrow> 'd \<Rightarrow> bool \<times> 'd"
  api_Add :: "string \<Rightarrow> 'd \<Rightarrow> 'd"

record ('k, 'd, 'u, 'e) options =
  ServerKey :: "'u \<Rightarrow> (string + 'k server_key) \<times> 'u"
  OnEvent :: "'e event_scheme \<Rightarrow> 'u \<Rightarrow> string option \<times> 'u"
  OnUnknownType :: "(string \<Rightarrow> 'u \<Rightarrow> 'u) option"
  OnError :: "(handler_error \<Rightarrow> 'u \<Rightarrow> 'u) option"
  Deduper :: "'d dedup_api option"
  maxBodyBytes :: int
  Now :: "'u \<Rightarrow> int"
  Crypto :: "'k crypto"
  Decode :: "string \<Rightarrow> string + 'e event_scheme"

record ('k, 'd, 'u) handler =
  hkey :: "'k server_key option"
  lastRefreshAt :: int
  memory :: 'd
  world :: 'u

record request =
  Method :: string
  Header :: "string \<Rightarrow> string"   \<comment> \<open>\<open>r.Header.Get\<close>: the empty string when absent\<close>
  Body :: string
  BodyErr :: bool

definition DefaultMaxBodyBytes :: int where
  "DefaultMaxBodyBytes = 1048576"

definition minRefreshInterval :: int where
  "minRefreshInterval = 30 * ns_per_s"

definition Since :: "int \<Rightarrow> int \<Rightarrow> int" where
  \<comment> \<open>\<open>time.Since\<close> at time \<open>now\<close>: the difference saturates at the \<open>Duration\<close> bounds\<close>
  "Since now t = max int64_min (min int64_max (now - t))"

datatype body_read = BodyOk string | BodyTooLarge | BodyReadError

definition ReadLimited :: "int \<Rightarrow> request \<Rightarrow> body_read" where
  \<comment> \<open>\<open>io.ReadAll(http.MaxBytesReader(w, r.Body, n))\<close>\<close>
  "ReadLimited n r =
     (if n < int (length (Body r)) then BodyTooLarge
      else if BodyErr r then BodyReadError else BodyOk (Body r))"

definition reportError :: "('k, 'd, 'u, 'e) options \<Rightarrow> handler_error \<Rightarrow> ('k, 'd, 'u) handler \<Rightarrow> ('k, 'd, 'u) handler" where
  "reportError opts err h = (case OnError opts of None \<Rightarrow> h | Some f \<Rightarrow> h\<lparr>world := f err (world h)\<rparr>)"

definition refresh :: "('k, 'd, 'u, 'e) options \<Rightarrow> ('k, 'd, 'u) handler \<Rightarrow> string option \<times> ('k, 'd, 'u) handler" where
  "refresh opts h =
     (case ServerKey opts (world h) of
        (Inl e, u) \<Rightarrow> (Some e, h\<lparr>world := u\<rparr>)
      | (Inr sk, u) \<Rightarrow> (None, h\<lparr>hkey := Some sk, world := u\<rparr>))"

definition NewHandler :: "('u \<Rightarrow> (string + 'k server_key) \<times> 'u) option \<Rightarrow>
    ('e event_scheme \<Rightarrow> 'u \<Rightarrow> string option \<times> 'u) option \<Rightarrow> ('k, 'd, 'u, 'e) options \<Rightarrow> 'd \<Rightarrow> 'u \<Rightarrow>
    string + (('k, 'd, 'u, 'e) options \<times> ('k, 'd, 'u) handler)" where
  "NewHandler keys onEvent opts d u =
     (case (keys, onEvent) of
        (None, _) \<Rightarrow> Inl ''webhook.Options.Keys is required''
      | (Some _, None) \<Rightarrow> Inl ''webhook.Options.OnEvent is required''
      | (Some ks, Some oe) \<Rightarrow>
          let maxBody = (if maxBodyBytes opts \<le> 0 then DefaultMaxBodyBytes else maxBodyBytes opts);
              opts' = opts\<lparr>ServerKey := ks, OnEvent := oe, maxBodyBytes := maxBody\<rparr>
          in case refresh opts' \<lparr>hkey = None, lastRefreshAt = zero_time, memory = d, world = u\<rparr> of
               (Some e, _) \<Rightarrow> Inl (''initial ServerKey fetch: '' @ e)
             | (None, h) \<Rightarrow> Inr (opts', h))"

definition throttled :: "('k, 'd, 'u, 'e) options \<Rightarrow> ('k, 'd, 'u) handler \<Rightarrow> bool" where
  "throttled opts h \<longleftrightarrow> Since (Now opts (world h)) (lastRefreshAt h) < minRefreshInterval"

definition refreshCoalesced :: "('k, 'd, 'u, 'e) options \<Rightarrow> ('k, 'd, 'u) handler \<Rightarrow> string option \<times> ('k, 'd, 'u) handler" where
  \<comment> \<open>without concurrent callers \<open>singleflight.Do\<close> runs the function, which repeats the check\<close>
  "refreshCoalesced opts h =
     (if throttled opts h then (None, h)
      else if throttled opts h then (None, h)
      else case refresh opts h of
          (Some e, h') \<Rightarrow> (Some e, h')
        | (None, h') \<Rightarrow> (None, h'\<lparr>lastRefreshAt := Now opts (world h')\<rparr>))"

definition key_for_request :: "('k, 'd, 'u, 'e) options \<Rightarrow> request \<Rightarrow> 'k server_key \<Rightarrow> ('k, 'd, 'u) handler \<Rightarrow>
    'k server_key \<times> ('k, 'd, 'u) handler" where
  \<comment> \<open>the \<open>X-Key-Id\<close> mismatch block\<close>
  "key_for_request opts r key h =
     (if Header r ''X-Key-Id'' \<noteq> [] \<and> Header r ''X-Key-Id'' \<noteq> KeyID key then
        (case refreshCoalesced opts h of
           (Some e, h') \<Rightarrow> (key, reportError opts (RefreshFailed e) h')
         | (None, h') \<Rightarrow> (case hkey h' of Some k \<Rightarrow> (k, h') | None \<Rightarrow> (key, h')))
      else (key, h))"

definition deliver :: "('k, 'd, 'u, 'e) options \<Rightarrow> 'e event_scheme \<Rightarrow> ('k, 'd, 'u) handler \<Rightarrow> nat \<times> ('k, 'd, 'u) handler" where
  \<comment> \<open>from \<open>id := event.Data.Transaction.ID\<close> to the end\<close>
  "deliver opts ev h =
     (let tid = TransactionID ev;
          (dup, h1) =
            (if tid = [] then (False, reportError opts EmptyTransactionID h)
             else case Deduper opts of
                 None \<Rightarrow> (False, h)
               | Some api \<Rightarrow> (case api_Has api tid (memory h) of (b, d) \<Rightarrow> (b, h\<lparr>memory := d\<rparr>)))
      in if dup then (200, h1)
         else case OnEvent opts ev (world h1) of
             (Some e, u) \<Rightarrow> (500, reportError opts (OnEventFailed e) (h1\<lparr>world := u\<rparr>))
           | (None, u) \<Rightarrow>
               (200, case Deduper opts of
                       None \<Rightarrow> h1\<lparr>world := u\<rparr>
                     | Some api \<Rightarrow> h1\<lparr>world := u, memory := api_Add api tid (memory h1)\<rparr>))"

definition ServeHTTP :: "('k, 'd, 'u, 'e) options \<Rightarrow> request \<Rightarrow> ('k, 'd, 'u) handler \<Rightarrow> nat \<times> ('k, 'd, 'u) handler" where
  "ServeHTTP opts r h =
     (if Method r = ''GET'' then (200, h)
      else if Method r \<noteq> ''POST'' then (405, h)
      else case ReadLimited (maxBodyBytes opts) r of
          BodyTooLarge \<Rightarrow> (413, h)
        | BodyReadError \<Rightarrow> (400, h)
        | BodyOk body \<Rightarrow>
           (case hkey h of
              None \<Rightarrow> (503, reportError opts KeyNotLoaded h)
            | Some key0 \<Rightarrow>
               (case key_for_request opts r key0 h of (key, h1) \<Rightarrow>
                 (case Verify (Crypto opts) (PubKey key) body (Header r ''X-Sign'') of
                    Some _ \<Rightarrow> (401, h1)
                  | None \<Rightarrow>
                     (case Parse (Decode opts) body of
                        UnknownType _ \<Rightarrow>
                          (200, case OnUnknownType opts of
                                  None \<Rightarrow> h1
                                | Some f \<Rightarrow> h1\<lparr>world := f body (world h1)\<rparr>)
                      | DecodeError e \<Rightarrow> (400, reportError opts (ParseFailed e) h1)
                      | Parsed ev \<Rightarrow> deliver opts ev h1)))))"

fun serve_all :: "('k, 'd, 'u, 'e) options \<Rightarrow> request list \<Rightarrow> ('k, 'd, 'u) handler \<Rightarrow> ('k, 'd, 'u) handler" where
  \<comment> \<open>requests handled one after the other\<close>
  "serve_all opts [] h = h"
| "serve_all opts (r # rs) h = serve_all opts rs (snd (ServeHTTP opts r h))"

section \<open>Lemmas\<close>

lemma Verify_None_iff:
  "Verify cr pub body xSign = None \<longleftrightarrow>
    (\<exists>pk sig. pub = Some pk \<and> b64_decode xSign = Some sig \<and>
      (VerifyASN1 cr pk (Sum256 cr body) sig \<or>
       (\<exists>der. marshalRawSigToDER sig = Some der \<and> VerifyASN1 cr pk (Sum256 cr body) der)))"
  by (auto simp: Verify_def Let_def marshalRawSigToDER_def rawSigLen_def split: option.splits if_splits)

lemma reportError_fields [simp]:
  "hkey (reportError opts e h) = hkey h" "lastRefreshAt (reportError opts e h) = lastRefreshAt h"
  "memory (reportError opts e h) = memory h"
  by (simp_all add: reportError_def split: option.split)

lemma refresh_memory: "memory (snd (refresh opts h)) = memory h"
  by (auto simp: refresh_def split: prod.split sum.split)

lemma refreshCoalesced_memory: "memory (snd (refreshCoalesced opts h)) = memory h"
  using refresh_memory [of opts h]
  by (auto simp: refreshCoalesced_def split: prod.split option.split)

lemma key_for_request_memory: "memory (snd (key_for_request opts r key h)) = memory h"
  using refreshCoalesced_memory [of opts h]
  by (auto simp: key_for_request_def split: prod.split option.split)

text \<open>The key used for verification is the key the handler holds afterwards.\<close>

lemma key_for_request_current:
  assumes "hkey h = Some key" and "key_for_request opts r key h = (k, h')"
  shows "hkey h' = Some k"
  using assms
  by (auto simp: key_for_request_def refreshCoalesced_def refresh_def
      split: if_splits prod.splits option.splits sum.splits)

lemma deliver_hkey: "hkey (snd (deliver opts ev h)) = hkey h"
  by (auto simp: deliver_def Let_def split: prod.split option.split)


text \<open>What one request can do to the delivery memory.\<close>

lemma deliver_memory:
  "memory (snd (deliver opts ev h)) =
     (case Deduper opts of
        None \<Rightarrow> memory h
      | Some api \<Rightarrow>
          let tid = TransactionID ev;
              (dup, d) = (if tid = [] then (False, memory h) else api_Has api tid (memory h));
              w = world (if tid = [] then reportError opts EmptyTransactionID h else h)
          in if dup \<or> fst (OnEvent opts ev w) \<noteq> None then d else api_Add api tid d)"
  by (auto simp: deliver_def Let_def split: prod.splits option.splits)

lemma deliver_200_iff:
  "fst (deliver opts ev h) = 200 \<longleftrightarrow>
     (let tid = TransactionID ev;
          dup = (tid \<noteq> [] \<and> (case Deduper opts of None \<Rightarrow> False | Some api \<Rightarrow> fst (api_Has api tid (memory h))));
          w = world (if tid = [] then reportError opts EmptyTransactionID h else h)
      in dup \<or> fst (OnEvent opts ev w) = None)"
  by (auto simp: deliver_def Let_def split: prod.splits option.splits)

lemma ServeHTTP_memory_cases:
  "memory (snd (ServeHTTP opts r h)) = memory h \<or>
   (\<exists>ev h1. memory h1 = memory h \<and> Parse (Decode opts) (Body r) = Parsed ev \<and>
      ServeHTTP opts r h = deliver opts ev h1)"
proof -
  have m: "memory (snd (key_for_request opts r k h)) = memory h" for k
    by (rule key_for_request_memory)
  then show ?thesis
    by (auto simp: ServeHTTP_def ReadLimited_def split: option.split prod.split parse_result.split body_read.split)
      (metis m snd_conv)+
qed

lemma ServeHTTP_Parsed_cases:
  assumes "Parse (Decode opts) (Body r) = Parsed ev" and "Method r = ''POST''"
  shows "(\<exists>c h1. memory h1 = memory h \<and> ServeHTTP opts r h = (c, h1) \<and> c \<in> {413, 400, 503, 401}) \<or>
    (\<exists>h1. memory h1 = memory h \<and> ServeHTTP opts r h = deliver opts ev h1)"
proof -
  have m: "memory h1 = memory h" if "key_for_request opts r k h = (k', h1)" for k k' h1
    using key_for_request_memory [of opts r k h] that by simp
  show ?thesis
    using assms
    by (auto simp: ServeHTTP_def ReadLimited_def split: option.split prod.split dest: m)
qed

context deduper
begin

abbreviation api :: "'d dedup_api" where
  "api \<equiv> \<lparr>api_Has = has, api_Add = add\<rparr>"

lemma request_keeps:
  assumes "Deduper opts = Some api" and "dinv (memory h)" and "k \<in> seen (memory h)"
    and "age (memory h) k + 1 < window (memory h)"
    and d'_def: "d' = memory (snd (ServeHTTP opts r h))"
  shows "dinv d' \<and> k \<in> seen d' \<and> age d' k \<le> age (memory h) k + 1 \<and> window d' = window (memory h)"
  using ServeHTTP_memory_cases [of opts r h]
proof
  assume "memory (snd (ServeHTTP opts r h)) = memory h"
  with assms show ?thesis by simp
next
  assume "\<exists>ev h1. memory h1 = memory h \<and> Parse (Decode opts) (Body r) = Parsed ev \<and>
      ServeHTTP opts r h = deliver opts ev h1"
  then obtain ev h1 where h1: "memory h1 = memory h" and s: "ServeHTTP opts r h = deliver opts ev h1"
    by blast
  let ?j = "TransactionID ev"
  from h1 have "d' = memory h \<or> d' = add [] (memory h) \<or> d' = snd (has ?j (memory h)) \<or>
      (\<not> fst (has ?j (memory h)) \<and> d' = add ?j (snd (has ?j (memory h))))"
    unfolding d'_def s deliver_memory assms(1) by (auto simp: Let_def split: prod.split)
  then show ?thesis
    using check_then_record_keeps [OF assms(2-4), of d' ?j] seen_add_keep [OF assms(2-4), of "[]"]
      assms(2-4) dinv_add window_add by auto
qed

lemma serve_all_keeps:
  assumes "Deduper opts = Some api"
  shows "dinv (memory h) \<Longrightarrow> k \<in> seen (memory h) \<Longrightarrow> age (memory h) k + length rs < window (memory h) \<Longrightarrow>
    dinv (memory (serve_all opts rs h)) \<and> k \<in> seen (memory (serve_all opts rs h))"
proof (induction rs arbitrary: h)
  case (Cons r rs)
  from Cons.prems have "age (memory h) k + 1 < window (memory h)" by simp
  from request_keeps [OF assms Cons.prems(1,2) this refl, of r] Cons.prems(3)
  show ?case unfolding serve_all.simps by (intro Cons.IH) auto
qed simp

lemma delivered_recorded:
  assumes "Deduper opts = Some api" and "dinv (memory h)" and "TransactionID ev = k" and "k \<noteq> []"
    and "fst (deliver opts ev h) = 200"
    and d'_def: "d' = memory (snd (deliver opts ev h))"
  shows "dinv d' \<and> k \<in> seen d' \<and> age d' k = 0 \<and> window d' = window (memory h)"
proof -
  let ?d = "snd (has k (memory h))"
  have "fst (has k (memory h)) \<and> d' = ?d \<or> \<not> fst (has k (memory h)) \<and> d' = add k ?d"
    using assms(1,3-5) unfolding deliver_200_iff d'_def deliver_memory
    by (auto simp: Let_def split: prod.split)
  then show ?thesis
    using assms(2,4) has_iff [OF assms(2), of k] age_has_same [OF assms(2), of k]
    by (auto simp: dinv_has dinv_add seen_has window_has window_add seen_add_new age_add_new)
qed

lemma known_not_delivered:
  assumes "Deduper opts = Some api" and "dinv (memory h)" and "k \<in> seen (memory h)"
    and "Parse (Decode opts) (Body r) = Parsed ev" and "TransactionID ev = k"
  shows "ServeHTTP (opts\<lparr>OnEvent := f\<rparr>) r h = ServeHTTP (opts\<lparr>OnEvent := g\<rparr>) r h"
proof -
  have ne: "k \<noteq> []" using assms(2,3) empty_not_seen by auto
  have d: "deliver (opts\<lparr>OnEvent := f\<rparr>) ev h1 = deliver (opts\<lparr>OnEvent := g\<rparr>) ev h1"
    if "memory h1 = memory h" for h1
    using assms(1,3,5) ne that has_iff [OF assms(2), of k]
    by (auto simp: deliver_def Let_def split: prod.split)
  have k: "key_for_request (opts\<lparr>OnEvent := F\<rparr>) r key h = key_for_request opts r key h" for F key
    by (simp add: key_for_request_def refreshCoalesced_def throttled_def refresh_def reportError_def
        split: option.split prod.split sum.split)
  have m: "memory h1 = memory h" if "key_for_request opts r key h = (k', h1)" for key k' h1
    using key_for_request_memory [of opts r key h] that by simp
  show ?thesis
    using assms(4)
    by (auto simp: ServeHTTP_def ReadLimited_def k reportError_def d m split: option.split prod.split)
qed

end

section \<open>Properties\<close>

lemma key_for_request_OnEvent:
  "key_for_request (opts\<lparr>OnEvent := f\<rparr>) r key h = key_for_request opts r key h"
  by (simp add: key_for_request_def refreshCoalesced_def throttled_def refresh_def reportError_def
      split: option.split prod.split sum.split)

lemma deliver_OnEvent_differs:
  assumes "deliver (opts\<lparr>OnEvent := f\<rparr>) ev h \<noteq> deliver (opts\<lparr>OnEvent := g\<rparr>) ev h"
  shows "\<nexists>api. Deduper opts = Some api \<and> TransactionID ev \<noteq> [] \<and> fst (api_Has api (TransactionID ev) (memory h))"
  using assms by (auto simp: deliver_def Let_def split: prod.splits)

text \<open>C9: the user's callback only ever sees authentic, new events. If replacing \<open>OnEvent\<close> by another
  function changes what \<open>ServeHTTP\<close> does to anything (response, world, memory), then the request
  was a POST within the size limit, the key the handler holds afterwards verifies the signature
  over the very bytes that were parsed, the payload is a \<open>StatementItem\<close>, and its transaction id
  was not remembered as processed. Nothing is assumed of the signature primitives, of the key
  provider or of the callbacks.\<close>
theorem OnEvent_only_for_verified_new_events:
  assumes "ServeHTTP (opts\<lparr>OnEvent := f\<rparr>) r h \<noteq> ServeHTTP (opts\<lparr>OnEvent := g\<rparr>) r h"
  shows "\<exists>k pk sig ev. Method r = ''POST'' \<and> int (length (Body r)) \<le> maxBodyBytes opts
    \<and> hkey (snd (ServeHTTP (opts\<lparr>OnEvent := f\<rparr>) r h)) = Some k \<and> PubKey k = Some pk
    \<and> b64_decode (Header r ''X-Sign'') = Some sig
    \<and> (VerifyASN1 (Crypto opts) pk (Sum256 (Crypto opts) (Body r)) sig
       \<or> (\<exists>der. marshalRawSigToDER sig = Some der
            \<and> VerifyASN1 (Crypto opts) pk (Sum256 (Crypto opts) (Body r)) der))
    \<and> Parse (Decode opts) (Body r) = Parsed ev
    \<and> (\<nexists>api. Deduper opts = Some api \<and> TransactionID ev \<noteq> []
         \<and> fst (api_Has api (TransactionID ev) (memory h)))"
proof -
  have p: "Method r = ''POST''" "\<not> maxBodyBytes opts < int (length (Body r))" "\<not> BodyErr r"
    using assms by (auto simp: ServeHTTP_def ReadLimited_def split: if_splits)
  then obtain key where key: "hkey h = Some key"
    using assms by (cases "hkey h") (auto simp: ServeHTTP_def ReadLimited_def reportError_def)
  obtain k h1 where k: "key_for_request opts r key h = (k, h1)" by (cases "key_for_request opts r key h")
  have kf: "key_for_request (opts\<lparr>OnEvent := F\<rparr>) r key h = (k, h1)" for F
    using k by (simp add: key_for_request_OnEvent)
  have v: "Verify (Crypto opts) (PubKey k) (Body r) (Header r ''X-Sign'') = None"
    using assms p key
    by (cases "Verify (Crypto opts) (PubKey k) (Body r) (Header r ''X-Sign'')")
      (simp_all add: ServeHTTP_def ReadLimited_def kf)
  obtain ev where ev: "Parse (Decode opts) (Body r) = Parsed ev"
    using assms p key v
    by (cases "Parse (Decode opts) (Body r)") (simp_all add: ServeHTTP_def ReadLimited_def kf reportError_def)
  have s: "ServeHTTP (opts\<lparr>OnEvent := F\<rparr>) r h = deliver (opts\<lparr>OnEvent := F\<rparr>) ev h1" for F
    using p key v ev by (simp add: ServeHTTP_def ReadLimited_def kf)
  have "memory h1 = memory h" using key_for_request_memory [of opts r key h] k by simp
  with assms have n: "\<nexists>api. Deduper opts = Some api \<and> TransactionID ev \<noteq> []
      \<and> fst (api_Has api (TransactionID ev) (memory h))"
    unfolding s using deliver_OnEvent_differs by metis
  have "hkey (snd (ServeHTTP (opts\<lparr>OnEvent := f\<rparr>) r h)) = Some k"
    unfolding s deliver_hkey by (rule key_for_request_current [OF key k])
  with p v ev n show ?thesis by (auto simp: Verify_None_iff)
qed

definition demo_options :: "(nat, memory_deduper, string list, unit) options" where
  \<comment> \<open>an instance: the digest is the data, the signature is valid when it repeats the digest under
      key 7, the body is the transaction id, the world records what \<open>OnEvent\<close> has processed; an event
      whose id starts with \<open>x\<close> fails\<close>
  "demo_options =
     \<lparr>ServerKey = (\<lambda>u. (Inr \<lparr>KeyID = ''k1'', PubKey = Some 7\<rparr>, u)),
      OnEvent = (\<lambda>ev u. if take 1 (TransactionID ev) = ''x'' then (Some ''down'', u)
                        else (None, TransactionID ev # u)),
      OnUnknownType = None, OnError = None, Deduper = Some \<lparr>api_Has = Has, api_Add = Add_id\<rparr>,
      maxBodyBytes = DefaultMaxBodyBytes, Now = (\<lambda>_. 0),
      Crypto = \<lparr>Sum256 = (\<lambda>b. b), VerifyASN1 = (\<lambda>k d s. k = 7 \<and> s = d)\<rparr>,
      Decode = (\<lambda>b. Inr \<lparr>Type = ''StatementItem'', AccountID = ''acc'', TransactionID = b\<rparr>)\<rparr>"

definition demo_handler :: "(nat, memory_deduper, string list) handler" where
  "demo_handler = \<lparr>hkey = Some \<lparr>KeyID = ''k1'', PubKey = Some 7\<rparr>, lastRefreshAt = zero_time,
     memory = NewMemoryDeduper 2, world = []\<rparr>"

definition demo_request :: "string \<Rightarrow> request" where
  "demo_request b = \<lparr>Method = ''POST'', Header = (\<lambda>k. if k = ''X-Sign'' then b64_encode b else []),
     Body = b, BodyErr = False\<rparr>"

lemmas demo_defs = demo_options_def demo_handler_def demo_request_def

lemma demo_serve:
  "hkey h = hkey demo_handler \<Longrightarrow> int (length b) \<le> DefaultMaxBodyBytes \<Longrightarrow>
   ServeHTTP (demo_options\<lparr>OnEvent := f\<rparr>) (demo_request b) h =
     deliver (demo_options\<lparr>OnEvent := f\<rparr>) \<lparr>Type = ''StatementItem'', AccountID = ''acc'', TransactionID = b\<rparr> h"
  by (simp add: ServeHTTP_def ReadLimited_def key_for_request_def Verify_def Parse_def demo_defs
      b64_decode_encode Let_def)

lemma demo_options_OnEvent: "demo_options = demo_options\<lparr>OnEvent := OnEvent demo_options\<rparr>"
  by simp

theorem OnEvent_only_for_verified_new_events_witness:
  "Parse (Decode demo_options) ''tx'' = Parsed \<lparr>Type = ''StatementItem'', AccountID = ''acc'', TransactionID = ''tx''\<rparr>
   \<and> (\<exists>k. hkey (snd (ServeHTTP (demo_options\<lparr>OnEvent := \<lambda>_ u. (None, u)\<rparr>) (demo_request ''tx'') demo_handler)) = Some k)"
proof -
  have "fst (ServeHTTP (demo_options\<lparr>OnEvent := \<lambda>_ u. (None, u)\<rparr>) (demo_request ''tx'') demo_handler) = 200"
       "fst (ServeHTTP (demo_options\<lparr>OnEvent := \<lambda>_ u. (Some [], u)\<rparr>) (demo_request ''tx'') demo_handler) = 500"
    by (simp_all add: demo_serve DefaultMaxBodyBytes_def)
      (simp_all add: deliver_def demo_defs Has_def NewMemoryDeduper_def)
  then have "ServeHTTP (demo_options\<lparr>OnEvent := \<lambda>_ u. (None, u)\<rparr>) (demo_request ''tx'') demo_handler
      \<noteq> ServeHTTP (demo_options\<lparr>OnEvent := \<lambda>_ u. (Some [], u)\<rparr>) (demo_request ''tx'') demo_handler"
    by auto
  from OnEvent_only_for_verified_new_events [OF this] show ?thesis
    by (auto simp: Parse_def demo_options_def demo_request_def)
qed

text \<open>A redelivered event is not processed twice. Once \<open>ServeHTTP\<close> has answered 200 for an
  event with an id, then after any further requests (fewer than the memory's capacity, of any
  kind, by anyone) a request carrying the same id does not depend on \<open>OnEvent\<close> at all, with the
  handler backed by the LRU memory.\<close>
theorem redelivery_not_processed_twice:
  assumes "Deduper opts = Some \<lparr>api_Has = Has, api_Add = Add_id\<rparr>" and "lru_inv (memory h)"
    and "Method r = ''POST''" and "Parse (Decode opts) (Body r) = Parsed ev" and "TransactionID ev \<noteq> []"
    and "fst (ServeHTTP opts r h) = 200"
    and "int (length rs) < capacity (memory h)"
    and "Parse (Decode opts) (Body r') = Parsed ev'" and "TransactionID ev' = TransactionID ev"
  defines "later \<equiv> serve_all opts rs (snd (ServeHTTP opts r h))"
  shows "ServeHTTP (opts\<lparr>OnEvent := f\<rparr>) r' later = ServeHTTP (opts\<lparr>OnEvent := g\<rparr>) r' later"
proof -
  obtain h1 where h1: "memory h1 = memory h" "ServeHTTP opts r h = deliver opts ev h1"
    using ServeHTTP_Parsed_cases [OF assms(4,3), of h] assms(6) by auto
  let ?d = "memory (snd (ServeHTTP opts r h))" and ?k = "TransactionID ev"
  have "lru_inv ?d \<and> ?k \<in> set (lru_abs ?d) \<and> lru_age (lru_abs ?d) ?k = 0 \<and> nat (capacity ?d) = nat (capacity (memory h))"
    using mem_dedup.delivered_recorded [OF assms(1), of h1 ev ?k] h1 assms(2,5,6) by simp
  with mem_dedup.serve_all_keeps [OF assms(1), of "snd (ServeHTTP opts r h)" ?k rs] assms(7)
  have "lru_inv (memory later) \<and> ?k \<in> set (lru_abs (memory later))"
    unfolding later_def by simp
  with mem_dedup.known_not_delivered [OF assms(1), of later ?k] assms(8,9) show ?thesis by blast
qed

theorem redelivery_not_processed_twice_witness:
  "ServeHTTP (demo_options\<lparr>OnEvent := \<lambda>_ u. (None, ''again'' # u)\<rparr>) (demo_request ''tx'')
     (serve_all demo_options [demo_request ''y''] (snd (ServeHTTP demo_options (demo_request ''tx'') demo_handler)))
   = ServeHTTP (demo_options\<lparr>OnEvent := \<lambda>_ u. (Some ''no'', u)\<rparr>) (demo_request ''tx'')
     (serve_all demo_options [demo_request ''y''] (snd (ServeHTTP demo_options (demo_request ''tx'') demo_handler)))"
proof -
  let ?ev = "\<lparr>Type = ''StatementItem'', AccountID = ''acc'', TransactionID = ''tx''\<rparr>"
  have p: "Parse (Decode demo_options) (Body (demo_request ''tx'')) = Parsed ?ev"
    by (simp add: Parse_def demo_defs)
  have d: "Deduper demo_options = Some \<lparr>api_Has = Has, api_Add = Add_id\<rparr>" by (simp add: demo_options_def)
  have m: "lru_inv (memory demo_handler)" by (simp add: demo_handler_def lru_inv_New)
  have "fst (ServeHTTP (demo_options\<lparr>OnEvent := OnEvent demo_options\<rparr>) (demo_request ''tx'') demo_handler) = 200"
    by (subst demo_serve)
      (simp_all add: deliver_def Let_def demo_options_def demo_handler_def Has_def NewMemoryDeduper_def DefaultMaxBodyBytes_def)
  then have s: "fst (ServeHTTP demo_options (demo_request ''tx'') demo_handler) = 200" by simp
  show ?thesis
    by (rule redelivery_not_processed_twice [OF d m _ p _ s _ p])
      (simp_all add: demo_handler_def demo_request_def NewMemoryDeduper_def)
qed

text \<open>C11: the id is recorded exactly when the sender is told 200. For a parsed event with an id, a
  handler backed by the LRU memory remembers the id afterwards if it answered 200; and if it
  answered 500 (the callback failed) the set of remembered ids is unchanged and does not hold
  the id, so the bank's retry will run the callback again.\<close>
theorem recorded_iff_acknowledged:
  assumes "Deduper opts = Some \<lparr>api_Has = Has, api_Add = Add_id\<rparr>" and "lru_inv (memory h)"
    and "Method r = ''POST''" and "Parse (Decode opts) (Body r) = Parsed ev" and "TransactionID ev \<noteq> []"
    and "ServeHTTP opts r h = (code, h')"
  shows "code \<in> {200, 500, 401, 503, 413, 400}
    \<and> (code = 200 \<longrightarrow> TransactionID ev \<in> set (lru_abs (memory h')))
    \<and> (code = 500 \<longrightarrow> TransactionID ev \<notin> set (lru_abs (memory h')))
    \<and> (code \<noteq> 200 \<longrightarrow> set (lru_abs (memory h')) = set (lru_abs (memory h)))"
proof (cases "\<exists>h1. memory h1 = memory h \<and> ServeHTTP opts r h = deliver opts ev h1")
  case False
  with ServeHTTP_Parsed_cases [OF assms(4,3), of h] assms(6) show ?thesis by auto
next
  case True
  then obtain h1 where h1: "memory h1 = memory h" "deliver opts ev h1 = (code, h')"
    using assms(6) by auto
  have c: "fst (deliver opts ev h1) \<in> {200, 500}"
    by (auto simp: deliver_def Let_def split: prod.split option.split)
  have "TransactionID ev \<in> set (lru_abs (memory h'))" if "code = 200"
    using mem_dedup.delivered_recorded [OF assms(1), of h1 ev] h1 assms(2,5) that by simp
  moreover have "memory h' = snd (Has (TransactionID ev) (memory h)) \<and> \<not> fst (Has (TransactionID ev) (memory h))"
    if "code \<noteq> 200"
    using deliver_memory [of opts ev h1] deliver_200_iff [of opts ev h1] h1 that assms(1,5)
    by (auto simp: Let_def split: prod.splits)
  ultimately show ?thesis
    using c h1 mem_dedup.has_iff [OF assms(2)] mem_dedup.seen_has [OF assms(2)] by auto
qed

theorem recorded_iff_acknowledged_witness:
  "\<exists>h'. ServeHTTP demo_options (demo_request ''x1'') demo_handler = (500, h') \<and> ''x1'' \<notin> set (lru_abs (memory h'))"
proof -
  let ?ev = "\<lparr>Type = ''StatementItem'', AccountID = ''acc'', TransactionID = ''x1''\<rparr>"
  have p: "Parse (Decode demo_options) (Body (demo_request ''x1'')) = Parsed ?ev"
    by (simp add: Parse_def demo_defs)
  have d: "Deduper demo_options = Some \<lparr>api_Has = Has, api_Add = Add_id\<rparr>" by (simp add: demo_options_def)
  have m: "lru_inv (memory demo_handler)" by (simp add: demo_handler_def lru_inv_New)
  obtain c h' where s: "ServeHTTP demo_options (demo_request ''x1'') demo_handler = (c, h')" by fastforce
  have "fst (ServeHTTP (demo_options\<lparr>OnEvent := OnEvent demo_options\<rparr>) (demo_request ''x1'') demo_handler) = 500"
    by (subst demo_serve)
      (simp_all add: deliver_def Let_def demo_options_def demo_handler_def Has_def NewMemoryDeduper_def DefaultMaxBodyBytes_def)
  with s have c: "c = 500" by simp
  have "Method (demo_request ''x1'') = ''POST''" "TransactionID ?ev \<noteq> []"
    by (simp_all add: demo_request_def)
  from recorded_iff_acknowledged [OF d m this(1) p this(2) s]
  have "c = 500 \<longrightarrow> TransactionID ?ev \<notin> set (lru_abs (memory h'))" by blast
  with s c show ?thesis by simp
qed

text \<open>What the throttle does not cover: \<open>lastRefreshAt\<close> only moves on a successful fetch. While the key
  provider is failing, every request with an unknown \<open>X-Key-Id\<close> makes another call to it, without
  any signature having been checked. The world counts the calls.\<close>

lemma failing_refresh_is_not_throttled:
  assumes "ServerKey opts = (\<lambda>u. (Inl e, u + (1::nat)))" and "OnError opts = None"
    and "\<And>u. minRefreshInterval \<le> Since (Now opts u) (lastRefreshAt h)"
    and "hkey h = Some key" and "Method r = ''POST''" and "ReadLimited (maxBodyBytes opts) r = BodyOk body"
    and "Header r ''X-Key-Id'' \<notin> {[], KeyID key}"
    and "Verify (Crypto opts) (PubKey key) body (Header r ''X-Sign'') \<noteq> None"
  shows "world (serve_all opts (replicate n r) h) = world h + n"
  using assms(3,4)
proof (induction n arbitrary: h)
  case (Suc n)
  have "\<not> throttled opts h" using Suc.prems(1) [of "world h"] by (simp add: throttled_def)
  then have "snd (ServeHTTP opts r h) = h\<lparr>world := world h + 1\<rparr>"
    using assms(1,2,5-8) Suc.prems(2)
    by (auto simp: ServeHTTP_def key_for_request_def refreshCoalesced_def refresh_def reportError_def
        split: option.split)
  with Suc.IH [of "h\<lparr>world := world h + 1\<rparr>"] Suc.prems show ?case by simp
qed simp

end
