(* ===== verification/Retry.thy ===== *)
theory Retry
  imports Go_Prelude
begin

text \<open>
  Automatic retries (\<open>retry.go\<close>): the policy loop, exponential backoff with equal jitter, and the
  \<open>Retry-After\<close> header.

  The loop works on any state \<open>'s\<close> and any error type \<open>'e\<close>; the function it runs is a state
  transformer that may fail. Three things come from outside: the generator behind
  \<open>rand.Int64N\<close>, the \<open>select\<close> between the context and the timer (\<open>pause\<close>, which either
  returns the context's error or comes back after the delay), and what \<open>errors.As\<close> finds
  (\<open>transient\<close>, the \<open>Retry-After\<close> hint of a retryable error). Durations are nanoseconds.
\<close>

section \<open>Definitions\<close>

definition noRetryAfter :: int where
  "noRetryAfter = -1"

record retry_policy =
  maxAttempts :: int
  baseDelay :: int
  maxDelay :: int

definition defaultRetry :: retry_policy where
  "defaultRetry = \<lparr>maxAttempts = 4, baseDelay = 500000000, maxDelay = 30 * ns_per_s\<rparr>"

definition minBackoffFloor :: int where
  "minBackoffFloor = 50000000"

definition maxRetryAfter :: int where
  "maxRetryAfter = 86400 * ns_per_s"

definition backoff_grow :: "int \<Rightarrow> int \<Rightarrow> nat \<Rightarrow> int" where
  \<comment> \<open>\<open>d\<close> before the jitter\<close>
  "backoff_grow base ceiling attempt =
     (let d = (if 62 \<le> attempt \<or> int64_max div 2 ^ attempt < base
               then (if ceiling \<le> 0 then base else ceiling)
               else wrap64 (base * 2 ^ attempt))
      in if 0 < ceiling \<and> ceiling < d then ceiling else d)"

definition backoff :: "(int \<Rightarrow> 's \<Rightarrow> int \<times> 's) \<Rightarrow> int \<Rightarrow> int \<Rightarrow> nat \<Rightarrow> 's \<Rightarrow> int \<times> 's" where
  "backoff Int64N base ceiling attempt s =
     (if base \<le> 0 then (0, s)
      else let d = backoff_grow base ceiling attempt
           in if d \<le> 0 then (0, s)
              else let half = (if go_quo d 2 \<le> 0 then 1 else go_quo d 2);
                       (r, s') = Int64N half s;
                       jitter = wrap64 (half + r);
                       jitter = (if jitter < minBackoffFloor then minBackoffFloor else jitter);
                       jitter = (if 0 < ceiling \<and> ceiling < jitter then ceiling else jitter)
                   in (jitter, s'))"

definition retry_delay :: "(int \<Rightarrow> 's \<Rightarrow> int \<times> 's) \<Rightarrow> retry_policy \<Rightarrow> nat \<Rightarrow> int \<Rightarrow> 's \<Rightarrow> int \<times> 's" where
  "retry_delay Int64N rp i retryAfter s =
     (let (delay, s') = (if 0 < retryAfter then (retryAfter, s)
                         else if retryAfter = 0 then (0, s)
                         else backoff Int64N (baseDelay rp) (maxDelay rp) i s)
      in (if maxDelay rp < delay \<and> 0 < maxDelay rp then maxDelay rp else delay, s'))"

fun run_loop :: "(int \<Rightarrow> 's \<Rightarrow> int \<times> 's) \<Rightarrow> (int \<Rightarrow> 's \<Rightarrow> 'e option \<times> 's) \<Rightarrow> ('e \<Rightarrow> int option) \<Rightarrow>
    retry_policy \<Rightarrow> ('s \<Rightarrow> 'e option \<times> 's) \<Rightarrow> nat \<Rightarrow> nat \<Rightarrow> 's \<Rightarrow> 'e option \<times> 's" where
  \<comment> \<open>\<open>for i := 0; i < attempts; i++\<close>, with the attempts left as the third argument from the end;
      \<open>i = attempts - 1\<close> is the case of one attempt left\<close>
  "run_loop Int64N pause transient rp fn i 0 s = (None, s)"
| "run_loop Int64N pause transient rp fn i (Suc left) s =
     (case fn s of
        (None, s1) \<Rightarrow> (None, s1)
      | (Some e, s1) \<Rightarrow>
          if left = 0 then (Some e, s1)
          else case transient e of
              None \<Rightarrow> (Some e, s1)
            | Some ra \<Rightarrow>
                (case retry_delay Int64N rp i ra s1 of
                   (delay, s2) \<Rightarrow>
                     (case pause delay s2 of
                        (Some ctxErr, s3) \<Rightarrow> (Some ctxErr, s3)
                      | (None, s3) \<Rightarrow> run_loop Int64N pause transient rp fn (Suc i) left s3)))"

definition attempts_of :: "retry_policy \<Rightarrow> nat" where
  "attempts_of rp = (if maxAttempts rp < 1 then 1 else nat (maxAttempts rp))"

definition run :: "(int \<Rightarrow> 's \<Rightarrow> int \<times> 's) \<Rightarrow> (int \<Rightarrow> 's \<Rightarrow> 'e option \<times> 's) \<Rightarrow> ('e \<Rightarrow> int option) \<Rightarrow>
    retry_policy \<Rightarrow> ('s \<Rightarrow> 'e option \<times> 's) \<Rightarrow> 's \<Rightarrow> 'e option \<times> 's" where
  "run Int64N pause transient rp fn s = run_loop Int64N pause transient rp fn 0 (attempts_of rp) s"

definition parseRetryAfter :: "(string \<Rightarrow> int option) \<Rightarrow> int \<Rightarrow> (string \<Rightarrow> string) \<Rightarrow> int" where
  \<comment> \<open>\<open>ParseTime\<close> is \<open>http.ParseTime\<close>, \<open>now\<close> the clock read by \<open>time.Until\<close>, whose difference
      saturates at the \<open>Duration\<close> bounds\<close>
  "parseRetryAfter ParseTime now h =
     (let v0 = TrimSpace (h ''Retry-After'');
          v = (if v0 = [] then TrimSpace (h ''X-Rate-Limit-Retry-After-Seconds'') else v0)
      in if v = [] then noRetryAfter
         else let numeric = (case Atoi v of Some secs \<Rightarrow> 0 \<le> secs | None \<Rightarrow> False)
         in if numeric then
              (let secs = the (Atoi v)
               in if maxRetryAfter div ns_per_s < secs then maxRetryAfter else wrap64 (secs * ns_per_s))
            else case ParseTime v of
                Some t \<Rightarrow>
                  (let d = max int64_min (min int64_max (t - now))
                   in if 0 < d then (if maxRetryAfter < d then maxRetryAfter else d) else 0)
              | None \<Rightarrow> noRetryAfter)"

section \<open>Lemmas\<close>

lemma backoff_grow_bounds:
  assumes "0 < base" and "base \<le> int64_max" and "ceiling \<le> int64_max"
  shows "0 < backoff_grow base ceiling n" and "backoff_grow base ceiling n \<le> int64_max"
    and "0 < ceiling \<Longrightarrow> backoff_grow base ceiling n \<le> ceiling"
proof -
  have "wrap64 (base * 2 ^ n) = base * 2 ^ n \<and> base * 2 ^ n \<le> int64_max"
    if "base \<le> int64_max div 2 ^ n"
  proof -
    have "base * 2 ^ n \<le> (int64_max div 2 ^ n) * 2 ^ n" using that by (simp add: mult_right_mono)
    also have "\<dots> \<le> int64_max" by (simp add: minus_mod_eq_div_mult [symmetric])
    finally have "base * 2 ^ n \<le> int64_max" .
    moreover have "0 < base * 2 ^ n" using assms(1) by simp
    ultimately show ?thesis by (simp add: wrap64_id in_int64_def int64_min_def)
  qed
  then show "0 < backoff_grow base ceiling n" and "backoff_grow base ceiling n \<le> int64_max"
    and "0 < ceiling \<Longrightarrow> backoff_grow base ceiling n \<le> ceiling"
    using assms by (auto simp: backoff_grow_def Let_def not_le not_less)
qed

definition uniform_draws :: "(int \<Rightarrow> 's \<Rightarrow> int \<times> 's) \<Rightarrow> bool" where
  \<comment> \<open>what \<open>rand.Int64N(n)\<close> documents: a value of \<open>[0, n)\<close>\<close>
  "uniform_draws Int64N \<longleftrightarrow> (\<forall>n s. 0 < n \<longrightarrow> 0 \<le> fst (Int64N n s) \<and> fst (Int64N n s) < n)"

lemma backoff_zero: "base \<le> 0 \<Longrightarrow> backoff Int64N base ceiling n s = (0, s)"
  by (simp add: backoff_def)

lemma backoff_jitter:
  assumes "0 < base" and "in_int64 base" and "in_int64 ceiling" and "uniform_draws Int64N"
    and "backoff Int64N base ceiling n s = (d, s')"
  defines "g \<equiv> backoff_grow base ceiling n"
  obtains j where "max 1 (g div 2) \<le> j" and "j \<le> g"
    and "d = (let k = max j minBackoffFloor in if 0 < ceiling then min k ceiling else k)"
proof -
  define half where "half = (if go_quo g 2 \<le> 0 then 1 else go_quo g 2)"
  define j where "j = half + fst (Int64N half s)"
  have g: "0 < g" "g \<le> int64_max"
    unfolding g_def using assms by (auto simp: in_int64_def intro: backoff_grow_bounds)
  then have q: "go_quo g 2 = g div 2" by (simp add: go_quo_nonneg in_int64_def int64_min_def)
  have half: "half = max 1 (g div 2)" unfolding half_def q by auto
  have "0 \<le> fst (Int64N half s)" "fst (Int64N half s) < half"
    using assms(4) half by (simp_all add: uniform_draws_def)
  then have j: "half \<le> j" "j \<le> g" using g half unfolding j_def by (auto simp: max_def split: if_splits)
  then have w: "wrap64 (half + fst (Int64N half s)) = j"
    using g half max.cobounded1 [of 1 "g div 2"] unfolding j_def
    by (intro wrap64_id) (simp add: in_int64_def int64_min_def del: max.cobounded1)
  have "\<not> g \<le> 0" using g by simp
  have "d = (let k = max j minBackoffFloor in if 0 < ceiling then min k ceiling else k)"
    using assms(5) assms(1) \<open>\<not> g \<le> 0\<close> w
    by (auto simp: backoff_def g_def [symmetric] half_def [symmetric] Let_def split: prod.splits)
  with j half that show thesis by simp
qed

lemma backoff_range:
  assumes "in_int64 base" and "in_int64 ceiling" and "uniform_draws Int64N" and "0 < ceiling"
  shows "0 \<le> fst (backoff Int64N base ceiling n s)" and "fst (backoff Int64N base ceiling n s) \<le> ceiling"
proof -
  obtain d s' where d: "backoff Int64N base ceiling n s = (d, s')" by fastforce
  have "0 \<le> d \<and> d \<le> ceiling"
  proof (cases "0 < base")
    case True
    from backoff_jitter [OF True assms(1-3) d] obtain j where "1 \<le> j"
      "d = (let k = max j minBackoffFloor in if 0 < ceiling then min k ceiling else k)" by auto
    with assms(4) show ?thesis by (auto simp: Let_def minBackoffFloor_def)
  next
    case False
    with d assms(4) show ?thesis by (simp add: backoff_zero)
  qed
  with d show "0 \<le> fst (backoff Int64N base ceiling n s)"
    and "fst (backoff Int64N base ceiling n s) \<le> ceiling" by simp_all
qed

lemma retry_delay_range:
  assumes "in_int64 (baseDelay rp)" and "in_int64 (maxDelay rp)" and "uniform_draws Int64N"
    and "0 < maxDelay rp"
  shows "0 \<le> fst (retry_delay Int64N rp i ra s) \<and> fst (retry_delay Int64N rp i ra s) \<le> maxDelay rp"
  using backoff_range [OF assms(1-4), of i s] assms(4)
  by (auto simp: retry_delay_def Let_def split: prod.split)

section \<open>Properties\<close>

text \<open>C12: the backoff never overflows and never degenerates. For a positive base delay, any ceiling
  and any attempt number, with \<open>g\<close> the exponential delay cut at the ceiling, the delay lies
  between \<open>g div 2\<close> and \<open>max g 50ms\<close>, is at least 50 ms (or the ceiling, if that is smaller), and
  never exceeds a positive ceiling.\<close>
theorem backoff_bounds:
  assumes "0 < base" and "in_int64 base" and "in_int64 ceiling" and "uniform_draws Int64N"
    and "backoff Int64N base ceiling n s = (d, s')"
  shows "backoff_grow base ceiling n div 2 \<le> d \<and> d \<le> max (backoff_grow base ceiling n) minBackoffFloor
    \<and> (if 0 < ceiling then min minBackoffFloor ceiling \<le> d \<and> d \<le> ceiling else minBackoffFloor \<le> d)
    \<and> 0 < d \<and> in_int64 d"
proof -
  let ?g = "backoff_grow base ceiling n"
  obtain j where j: "max 1 (?g div 2) \<le> j" "j \<le> ?g"
    and d: "d = (let k = max j minBackoffFloor in if 0 < ceiling then min k ceiling else k)"
    using backoff_jitter [OF assms] by blast
  have g: "?g \<le> int64_max" "0 < ceiling \<longrightarrow> ?g \<le> ceiling" "0 < ?g"
    using backoff_grow_bounds [OF assms(1), of ceiling n] assms(2,3) by (auto simp: in_int64_def)
  then have "?g div 2 \<le> ?g" by simp
  moreover from j(1) have "1 \<le> j" "?g div 2 \<le> j" by simp_all
  ultimately show ?thesis using j(2) d g
    by (auto simp: Let_def minBackoffFloor_def in_int64_def int64_min_def int64_max_def max_def min_def)
qed

theorem backoff_bounds_witness:
  "backoff (\<lambda>n s. (n - 1, s)) 500000000 (30 * ns_per_s) 2 () = (1999999999, ())
   \<and> (0::int) < 1999999999 \<and> in_int64 1999999999"
proof -
  have "backoff (\<lambda>n s. (n - 1, s)) 500000000 (30 * ns_per_s) 2 () = (1999999999, ())"
    by (simp add: backoff_def backoff_grow_def ns_per_s_def int64_max_def go_quo_def Let_def wrap64_def
        minBackoffFloor_def)
  with backoff_bounds [OF _ _ _ _ this] show ?thesis
    by (simp add: int64_bounds ns_per_s_def uniform_draws_def)
qed

text \<open>Whatever the headers say, \<open>parseRetryAfter\<close> returns the "no hint" sentinel -1 or a wait
  between 0 and 24 hours; a non-negative number of seconds that fits an \<open>int\<close> gives exactly that
  many seconds cut at 24 hours, however large (the multiplication cannot wrap). Only a date goes
  through the clock.\<close>
theorem parseRetryAfter_range:
  shows "(parseRetryAfter ParseTime now h = noRetryAfter
      \<or> 0 \<le> parseRetryAfter ParseTime now h \<and> parseRetryAfter ParseTime now h \<le> maxRetryAfter)
    \<and> (\<forall>secs. TrimSpace (h ''Retry-After'') \<noteq> [] \<and> Atoi (TrimSpace (h ''Retry-After'')) = Some secs \<and> 0 \<le> secs \<longrightarrow>
        parseRetryAfter ParseTime now h = min (secs * ns_per_s) maxRetryAfter)
    \<and> (TrimSpace (h ''Retry-After'') = [] \<and> TrimSpace (h ''X-Rate-Limit-Retry-After-Seconds'') = [] \<longrightarrow>
        parseRetryAfter ParseTime now h = noRetryAfter)"
proof -
  let ?v1 = "TrimSpace (h ''Retry-After'')" and ?v2 = "TrimSpace (h ''X-Rate-Limit-Retry-After-Seconds'')"
  have n: "(if maxRetryAfter div ns_per_s < secs then maxRetryAfter else wrap64 (secs * ns_per_s))
      = min (secs * ns_per_s) maxRetryAfter" if "0 \<le> secs" for secs
    using that by (auto simp: maxRetryAfter_def ns_per_s_def min_def int64_bounds intro!: wrap64_id)
  have "parseRetryAfter ParseTime now h = noRetryAfter
      \<or> 0 \<le> parseRetryAfter ParseTime now h \<and> parseRetryAfter ParseTime now h \<le> maxRetryAfter"
    (is "?r = _ \<or> _")
  proof -
    have m: "0 \<le> min (x * ns_per_s) maxRetryAfter" "min (x * ns_per_s) maxRetryAfter \<le> maxRetryAfter"
      if "0 \<le> x" for x using that by (simp_all add: maxRetryAfter_def ns_per_s_def)
    have d: "0 \<le> (if 0 < d then (if maxRetryAfter < d then maxRetryAfter else d) else 0)"
      "(if 0 < d then (if maxRetryAfter < d then maxRetryAfter else d) else 0) \<le> maxRetryAfter" for d
      by (simp_all add: maxRetryAfter_def ns_per_s_def)
    define v where "v = (if ?v1 = [] then ?v2 else ?v1)"
    show ?thesis
    proof (cases "v = []")
      case False
      then show ?thesis
      proof (cases "case Atoi v of Some secs \<Rightarrow> 0 \<le> secs | None \<Rightarrow> False")
        case True
        then obtain secs where "Atoi v = Some secs" "0 \<le> secs" by (auto split: option.splits)
        with False have "?r = min (secs * ns_per_s) maxRetryAfter"
          by (simp add: parseRetryAfter_def Let_def v_def [symmetric] n)
        with m \<open>0 \<le> secs\<close> show ?thesis by simp
      next
        case False
        with \<open>v \<noteq> []\<close> d show ?thesis
          by (simp add: parseRetryAfter_def v_def [symmetric] Let_def del: if_split split: option.split)
      qed
    qed (simp add: parseRetryAfter_def v_def Let_def)
  qed
  moreover have "?r = min (secs * ns_per_s) maxRetryAfter"
    if "?v1 \<noteq> []" "Atoi ?v1 = Some secs" "0 \<le> secs" for secs
    using that by (simp add: parseRetryAfter_def Let_def n)
  moreover have "?r = noRetryAfter" if "?v1 = []" "?v2 = []"
    using that by (simp add: parseRetryAfter_def Let_def)
  ultimately show ?thesis by blast
qed

theorem parseRetryAfter_range_witness:
  "parseRetryAfter (\<lambda>_. None) 0 (\<lambda>k. if k = ''Retry-After'' then ''99999999999'' else []) = maxRetryAfter"
proof -
  have t: "TrimSpace ''99999999999'' = ''99999999999''" and a: "Atoi ''99999999999'' = Some 99999999999"
    by code_simp+
  have "parseRetryAfter (\<lambda>_. None) 0 (\<lambda>k. if k = ''Retry-After'' then ''99999999999'' else [])
      = min (99999999999 * ns_per_s) maxRetryAfter"
    using parseRetryAfter_range [of "\<lambda>_. None" 0 "\<lambda>k. if k = ''Retry-After'' then ''99999999999'' else []"]
      t a by simp
  then show ?thesis by (simp add: maxRetryAfter_def ns_per_s_def)
qed

definition retry_trace :: "('e \<Rightarrow> int option) \<Rightarrow> nat \<Rightarrow> 'e option list \<Rightarrow> bool" where
  \<comment> \<open>the results of the attempts of one \<open>run\<close>, in order: at least one, at most the budget, and
      every attempt before another one failed transiently\<close>
  "retry_trace transient budget tr \<longleftrightarrow>
     tr \<noteq> [] \<and> length tr \<le> budget \<and> (\<forall>r \<in> set (butlast tr). \<exists>e ra. r = Some e \<and> transient e = Some ra)"

lemma run_loop_trace:
  assumes fn: "\<And>s. log (snd (fn s)) = log s @ [fst (fn s)]"
    and draw: "\<And>n s. log (snd (Int64N n s)) = log s" and pause: "\<And>d s. log (snd (pause d s)) = log s"
  shows "0 < left \<Longrightarrow> run_loop Int64N pause transient rp fn i left s = (res, s') \<Longrightarrow>
    \<exists>tr. log s' = log s @ tr \<and> retry_trace transient left tr \<and>
      (res = last tr \<and> (length tr = left \<or> last tr = None \<or> (\<exists>e. last tr = Some e \<and> transient e = None))
       \<or> (\<exists>d s1. fst (pause d s1) = res \<and> res \<noteq> None))"
proof (induction left arbitrary: i s)
  case (Suc left)
  obtain r s1 where r: "fn s = (r, s1)" by fastforce
  with fn [of s] have l1: "log s1 = log s @ [r]" by simp
  show ?case
  proof (cases "\<exists>e ra. r = Some e \<and> left \<noteq> 0 \<and> transient e = Some ra")
    case False
    with Suc.prems r have "res = r \<and> s' = s1"
      by (cases r) (auto split: if_splits option.splits)
    moreover have "r = None \<or> left = 0 \<or> (\<exists>e. r = Some e \<and> transient e = None)" using False by auto
    ultimately show ?thesis using l1 by (intro exI [of _ "[r]"]) (auto simp: retry_trace_def)
  next
    case True
    then obtain e ra where e: "r = Some e" "left \<noteq> 0" "transient e = Some ra" by blast
    obtain d s2 where d: "retry_delay Int64N rp i ra s1 = (d, s2)" by fastforce
    have l2: "log s2 = log s1"
      using d draw by (auto simp: retry_delay_def backoff_def Let_def split: prod.splits if_splits) (metis snd_conv)+
    obtain c s3 where p: "pause d s2 = (c, s3)" by fastforce
    have l3: "log s3 = log s @ [r]" using pause [of d s2] p l1 l2 by simp
    show ?thesis
    proof (cases c)
      case (Some x)
      then have "res = Some x \<and> s' = s3" using Suc.prems(2) r e d p by simp
      with l3 p Some e show ?thesis
        by (intro exI [of _ "[r]"]) (auto simp: retry_trace_def intro!: exI [of _ d] exI [of _ s2])
    next
      case None
      then have "run_loop Int64N pause transient rp fn (Suc i) left s3 = (res, s')"
        using Suc.prems(2) r e d p by simp
      from Suc.IH [OF _ this] e(2) obtain tr where tr: "log s' = log s3 @ tr" "retry_trace transient left tr"
        "res = last tr \<and> (length tr = left \<or> last tr = None \<or> (\<exists>e. last tr = Some e \<and> transient e = None))
         \<or> (\<exists>d s1. fst (pause d s1) = res \<and> res \<noteq> None)" by auto
      then have "retry_trace transient (Suc left) (r # tr)" "tr \<noteq> []" using e by (auto simp: retry_trace_def)
      with tr l3 show ?thesis by (intro exI [of _ "r # tr"]) auto
    qed
  qed
qed simp

lemma run_loop_pause_cong:
  assumes "\<And>i ra s. lo \<le> fst (retry_delay Int64N rp i ra s) \<and> fst (retry_delay Int64N rp i ra s) \<le> hi"
    and "\<And>d s. lo \<le> d \<Longrightarrow> d \<le> hi \<Longrightarrow> pause d s = pause' d s"
  shows "run_loop Int64N pause transient rp fn i left s = run_loop Int64N pause' transient rp fn i left s"
proof (induction left arbitrary: i s)
  case (Suc left)
  have "pause d s2 = pause' d s2" if "retry_delay Int64N rp i ra s1 = (d, s2)" for ra s1 d s2
    using assms(1) [of i ra s1] assms(2) that by simp
  with Suc.IH show ?case by (auto split: option.split prod.split)
qed simp

text \<open>Reasoning about a client of the loop: \<open>P k\<close> holds after at most \<open>k\<close> calls, and \<open>Q\<close> after a
  call that succeeded.\<close>

lemma retry_delay_keeps:
  "(\<And>n s. P s \<Longrightarrow> P (snd (Int64N n s))) \<Longrightarrow> P s \<Longrightarrow> P (snd (retry_delay Int64N rp i ra s))"
  by (auto simp: retry_delay_def backoff_def Let_def split: prod.splits) (metis snd_conv)+

lemma run_loop_invariant:
  assumes "\<And>k s r s1. P k s \<Longrightarrow> fn s = (r, s1) \<Longrightarrow> P (Suc k) s1 \<and> (r = None \<longrightarrow> Q s1)"
    and "\<And>k n s. P k s \<Longrightarrow> P k (snd (Int64N n s))" and "\<And>k d s. P k s \<Longrightarrow> P k (snd (pause d s))"
  shows "0 < left \<Longrightarrow> P k s \<Longrightarrow> run_loop Int64N pause transient rp fn i left s = (res, s') \<Longrightarrow>
    (\<exists>j \<le> left. P (k + j) s') \<and> (res = None \<longrightarrow> Q s')"
proof (induction left arbitrary: i s k)
  case (Suc left)
  obtain r s1 where r: "fn s = (r, s1)" by fastforce
  note p1 = assms(1) [OF Suc.prems(2) r]
  show ?case
  proof (cases "\<exists>e ra. r = Some e \<and> left \<noteq> 0 \<and> transient e = Some ra")
    case False
    with Suc.prems(3) r have "res = r \<and> s' = s1"
      by (cases r) (auto split: if_splits option.splits)
    with p1 show ?thesis by (intro conjI exI [of _ 1]) auto
  next
    case True
    then obtain e ra where e: "r = Some e" "left \<noteq> 0" "transient e = Some ra" by blast
    obtain d s2 where d: "retry_delay Int64N rp i ra s1 = (d, s2)" by fastforce
    have p2: "P (Suc k) s2"
      using retry_delay_keeps [of "P (Suc k)" Int64N s1 rp i ra] assms(2) p1 d by auto
    obtain c s3 where p: "pause d s2 = (c, s3)" by fastforce
    have p3: "P (Suc k) s3" using assms(3) [OF p2, of d] p by simp
    show ?thesis
    proof (cases c)
      case (Some x)
      then have "res = Some x \<and> s' = s3" using Suc.prems(3) r e d p by simp
      with p3 show ?thesis by (intro conjI exI [of _ 1]) auto
    next
      case None
      then have "run_loop Int64N pause transient rp fn (Suc i) left s3 = (res, s')"
        using Suc.prems(3) r e d p by simp
      from Suc.IH [OF _ p3 this] e(2) obtain j where "j \<le> left" "P (Suc k + j) s'" "res = None \<longrightarrow> Q s'" by auto
      then show ?thesis by (intro conjI exI [of _ "Suc j"]) auto
    qed
  qed
qed simp

text \<open>The last call decides: what held of the state before the first call holds before the last one, if only a
  transient failure, a draw or a pause comes in between.\<close>

lemma run_loop_last:
  assumes "\<And>s e s1. P s \<Longrightarrow> fn s = (Some e, s1) \<Longrightarrow> transient e \<noteq> None \<Longrightarrow> P s1"
    and "\<And>n s. P s \<Longrightarrow> P (snd (Int64N n s))" and "\<And>d s. P s \<Longrightarrow> P (snd (pause d s))"
  shows "0 < left \<Longrightarrow> P s \<Longrightarrow> run_loop Int64N pause transient rp fn i left s = (None, s') \<Longrightarrow>
    \<exists>s0. P s0 \<and> fn s0 = (None, s')"
proof (induction left arbitrary: i s)
  case (Suc left)
  obtain r s1 where r: "fn s = (r, s1)" by fastforce
  show ?case
  proof (cases "\<exists>e ra. r = Some e \<and> left \<noteq> 0 \<and> transient e = Some ra")
    case False
    with Suc.prems(3) r have "r = None \<and> s' = s1" by (cases r) (auto split: if_splits option.splits)
    with Suc.prems(2) r show ?thesis by blast
  next
    case True
    then obtain e ra where e: "r = Some e" "left \<noteq> 0" "transient e = Some ra" by blast
    obtain d s2 where d: "retry_delay Int64N rp i ra s1 = (d, s2)" by fastforce
    have "P s1" using assms(1) [OF Suc.prems(2)] r e by auto
    then have "P s2" using retry_delay_keeps [of P Int64N s1 rp i ra] assms(2) d by auto
    moreover obtain c s3 where p: "pause d s2 = (c, s3)" by fastforce
    ultimately have "P s3" using assms(3) [of s2 d] by simp
    moreover have "c = None \<and> run_loop Int64N pause transient rp fn (Suc i) left s3 = (None, s')"
      using Suc.prems(3) r e d p by (auto split: option.splits)
    ultimately show ?thesis using Suc.IH e(2) by blast
  qed
qed simp

lemma run_loop_keeps:
  assumes "\<And>s. P s \<Longrightarrow> P (snd (fn s))" and "\<And>n s. P s \<Longrightarrow> P (snd (Int64N n s))" and "\<And>d s. P s \<Longrightarrow> P (snd (pause d s))"
  shows "P s \<Longrightarrow> P (snd (run_loop Int64N pause transient rp fn i left s))"
proof (induction left arbitrary: i s)
  case (Suc left)
  obtain r s1 where r: "fn s = (r, s1)" by fastforce
  then have s1: "P s1" using assms(1) [OF Suc.prems] by simp
  have "P s3" if "retry_delay Int64N rp i ra s1 = (d, s2)" "pause d s2 = (c, s3)" for ra d s2 c s3
    using retry_delay_keeps [of P Int64N s1 rp i ra] assms(2) assms(3) [of s2 d] s1 that by simp
  with Suc.IH s1 r show ?case by (auto split: option.split prod.split)
qed simp

text \<open>The loop over a state commutes with a view of the state, if the function, the draws and the pauses do.\<close>

lemma retry_delay_view:
  assumes "\<And>n s. Int64N' n (view s) = map_prod id view (Int64N n s)"
  shows "retry_delay Int64N' rp i ra (view s) = map_prod id view (retry_delay Int64N rp i ra s)"
  by (auto simp: retry_delay_def backoff_def Let_def assms split: prod.splits)

lemma run_loop_view:
  assumes "\<And>s. fn' (view s) = map_prod id view (fn s)"
    and "\<And>n s. Int64N' n (view s) = map_prod id view (Int64N n s)"
    and "\<And>d s. pause' d (view s) = map_prod id view (pause d s)"
  shows "run_loop Int64N' pause' transient rp fn' i left (view s) =
    map_prod id view (run_loop Int64N pause transient rp fn i left s)"
proof (induction left arbitrary: i s)
  case (Suc left)
  then show ?case
    by (simp add: assms(1,3) retry_delay_view [where view = view and Int64N' = Int64N', OF assms(2)] split: option.split prod.split)
qed simp

text \<open>C14: what \<open>run\<close> does with any function, read off a log that the function extends with the
  result of each call. It calls the function at least once and at most \<open>max 1 maxAttempts\<close> times;
  it calls it again only after a transient failure; and it returns the result of the last call,
  having stopped because that call succeeded, failed for good or was the last one allowed, unless
  the context ended during a pause, whose error is then returned.\<close>
theorem run_attempts:
  assumes "\<And>s. log (snd (fn s)) = log s @ [fst (fn s)]"
    and "\<And>n s. log (snd (Int64N n s)) = log s" and "\<And>d s. log (snd (pause d s)) = log s"
    and "run Int64N pause transient rp fn s = (res, s')"
  shows "\<exists>tr. log s' = log s @ tr \<and> retry_trace transient (nat (max 1 (maxAttempts rp))) tr \<and>
    (res = last tr \<and> (int (length tr) = max 1 (maxAttempts rp) \<or> last tr = None
        \<or> (\<exists>e. last tr = Some e \<and> transient e = None))
     \<or> (\<exists>d s1. fst (pause d s1) = res \<and> res \<noteq> None))"
proof -
  have a: "attempts_of rp = nat (max 1 (maxAttempts rp))" "0 < attempts_of rp"
    by (auto simp: attempts_of_def)
  from assms(4) have "run_loop Int64N pause transient rp fn 0 (attempts_of rp) s = (res, s')"
    by (simp add: run_def)
  from run_loop_trace [of log, OF assms(1-3) a(2) this] a(1) show ?thesis by fastforce
qed

theorem run_attempts_witness:
  "\<exists>tr. [Some 503, None] = [] @ tr \<and> retry_trace (\<lambda>_. Some noRetryAfter) (nat (max 1 4)) (tr :: int option list)"
proof -
  let ?fn = "\<lambda>l :: int option list. (if l = [] then Some 503 else None, l @ [if l = [] then Some 503 else None])"
  have r: "run (\<lambda>_ s. (0, s)) (\<lambda>_ s. (None, s)) (\<lambda>_. Some noRetryAfter) defaultRetry ?fn [] = (None, [Some 503, None])"
    by (simp add: run_def attempts_of_def defaultRetry_def retry_delay_def backoff_def noRetryAfter_def
        Let_def numeral_eq_Suc split: prod.split)
  have "maxAttempts defaultRetry = 4" by (simp add: defaultRetry_def)
  with run_attempts [of "\<lambda>l. l", OF _ _ _ r] show ?thesis by auto
qed

text \<open>No pause exceeds \<open>maxDelay\<close>, and none is negative: replacing the pause by one that differs
  outside \<open>[0, maxDelay]\<close> changes nothing, whatever \<open>Retry-After\<close> the server sends.\<close>
theorem run_pauses_bounded:
  assumes "in_int64 (baseDelay rp)" and "in_int64 (maxDelay rp)" and "0 < maxDelay rp"
    and "uniform_draws Int64N"
    and "\<And>d s. 0 \<le> d \<Longrightarrow> d \<le> maxDelay rp \<Longrightarrow> pause d s = pause' d s"
  shows "run Int64N pause transient rp fn s = run Int64N pause' transient rp fn s"
  unfolding run_def
  by (rule run_loop_pause_cong [of 0 Int64N rp "maxDelay rp"])
    (use retry_delay_range [OF assms(1,2,4,3)] assms(5) in auto)

theorem run_pauses_bounded_witness:
  "run (\<lambda>_ s. (0, s)) (\<lambda>d s. if d \<le> 30 * ns_per_s then (None, s + d) else (Some ''long'', s)) (\<lambda>_. Some (7200 * ns_per_s))
     defaultRetry (\<lambda>s :: int. (Some ''down'', s)) 0
   = run (\<lambda>_ s. (0, s)) (\<lambda>d s. (None, s + d)) (\<lambda>_. Some (7200 * ns_per_s))
     defaultRetry (\<lambda>s :: int. (Some ''down'', s)) 0"
  by (rule run_pauses_bounded)
    (simp_all add: defaultRetry_def int64_bounds ns_per_s_def uniform_draws_def)

end
