(* ===== verification/Http_Client.thy ===== *)
theory Http_Client
  imports Retry
begin

text \<open>
  The HTTP transport every sub-package shares (\<open>client.go\<close>) and its options (\<open>options.go\<close>).

  A request is a record of what the client reads and writes of an \<open>*http.Request\<close>. Its body is
  a stream that the transport consumes, so a retry that did not reset it would send nothing. The
  transport, the authorizer, the limiter and the hooks act on a world \<open>'w\<close>. From the standard
  library, URL parsing and printing, path merging, IP parsing, date parsing, JSON decoding, the
  random source and the timer are fields of \<open>env\<close>; reference resolution, host extraction and
  header access are written out. \<open>Path\<close> is the escaped path. The log records are in \<open>Client_Diagnostics\<close>.
\<close>

section \<open>URLs\<close>

record url =
  Scheme :: string
  Opaque :: string
  User :: "string option"
  Host :: string
  Path :: string
  ForceQuery :: bool
  RawQuery :: string
  Fragment :: string

definition IsAbs :: "url \<Rightarrow> bool" where
  "IsAbs u \<longleftrightarrow> Scheme u \<noteq> []"

definition ResolveReference :: "(string \<Rightarrow> string \<Rightarrow> string) \<Rightarrow> url \<Rightarrow> url \<Rightarrow> url" where
  \<comment> \<open>\<open>net/url\<close>: \<open>u.ResolveReference(ref)\<close>\<close>
  "ResolveReference resolvePath u ref =
     (let r = (if Scheme ref = [] then ref\<lparr>Scheme := Scheme u\<rparr> else ref)
      in if Scheme ref \<noteq> [] \<or> Host ref \<noteq> [] \<or> User ref \<noteq> None then r\<lparr>Path := resolvePath (Path ref) []\<rparr>
         else if Opaque ref \<noteq> [] then r\<lparr>User := None, Host := [], Path := []\<rparr>
         else let r1 = (if Path ref = [] \<and> \<not> ForceQuery ref \<and> RawQuery ref = []
                        then r\<lparr>RawQuery := RawQuery u,
                               Fragment := (if Fragment ref = [] then Fragment u else Fragment ref)\<rparr>
                        else r)
              in if Path ref = [] \<and> Opaque u \<noteq> []
                 then r1\<lparr>Opaque := Opaque u, User := None, Host := [], Path := []\<rparr>
                 else r1\<lparr>Host := Host u, User := User u, Path := resolvePath (Path u) (Path ref)\<rparr>)"

definition last_colon :: "string \<Rightarrow> nat option" where
  "last_colon s = (if CHR '':'' \<in> set s
     then Some (length s - 1 - length (takeWhile (\<lambda>c. c \<noteq> CHR '':'') (rev s))) else None)"

definition Hostname :: "url \<Rightarrow> string" where
  \<comment> \<open>\<open>net/url\<close>: the host without a (numeric or empty) port and without the brackets of an IPv6 literal\<close>
  "Hostname u =
     (let h = (case last_colon (Host u) of
                 Some i \<Rightarrow> if list_all is_digit (drop (Suc i) (Host u)) then take i (Host u) else Host u
               | None \<Rightarrow> Host u)
      in if h \<noteq> [] \<and> hd h = CHR ''['' \<and> last h = CHR '']'' then butlast (tl h) else h)"

section \<open>Requests, responses, errors\<close>

datatype body = NilBody | HttpNoBody | Stream string bool   \<comment> \<open>unread bytes, and whether reading fails\<close>

record http_request =
  rMethod :: string
  rURL :: url
  rHeader :: "string \<Rightarrow> string"
  rBody :: body
  rGetBody :: "(string + body) option"
  rContentLength :: int

record http_response =
  StatusCode :: int
  respHeader :: "string \<Rightarrow> string"
  ContentLength :: int
  respBody :: string
  respBodyErr :: bool

record api_error =
  apiMethod :: string
  apiURL :: url
  apiStatusCode :: int
  ExpectedStatusCodes :: "int list"
  ErrorDescription :: string
  ErrorCode :: string
  apiBody :: string

datatype client_error =
    EmptyRequest
  | InvalidURL string
  | InsecureBaseURL string
  | ParseRequestURL
  | SetAuthFailed string
  | ReadRequestBody
  | GetBodyFailed string
  | LimiterFailed string
  | TransportFailed string
  | ApiErr api_error
  | TransientStatus int int api_error
  | ReadResponseBody
  | CopyResponseBody
  | DecodeResponse string
  | ContextDone string

datatype sentinel = ErrUnauthorized | ErrForbidden | ErrNotFound | ErrTooManyRequests

fun APIError_Is :: "api_error \<Rightarrow> sentinel \<Rightarrow> bool" where
  "APIError_Is e ErrUnauthorized = (apiStatusCode e = 401)"
| "APIError_Is e ErrForbidden = (apiStatusCode e = 403)"
| "APIError_Is e ErrNotFound = (apiStatusCode e = 404)"
| "APIError_Is e ErrTooManyRequests = (apiStatusCode e = 429)"

fun as_api_error :: "client_error \<Rightarrow> api_error option" where
  \<comment> \<open>\<open>errors.As(err, **APIError)\<close>, through \<open>transientStatus.Unwrap\<close>\<close>
  "as_api_error (ApiErr a) = Some a"
| "as_api_error (TransientStatus c ra a) = Some a"
| "as_api_error _ = None"

definition errors_Is :: "client_error \<Rightarrow> sentinel \<Rightarrow> bool" where
  "errors_Is e s = (case as_api_error e of Some a \<Rightarrow> APIError_Is a s | None \<Rightarrow> False)"

fun as_transient :: "client_error \<Rightarrow> int option" where
  \<comment> \<open>\<open>errors.As(err, **transientStatus)\<close>: its \<open>retryAfter\<close>\<close>
  "as_transient (TransientStatus c ra a) = Some ra"
| "as_transient _ = None"

section \<open>The client\<close>

record 'w client =
  http_Do :: "http_request \<Rightarrow> 'w \<Rightarrow> (string + http_response) \<times> 'w"
  SetAuth :: "(http_request \<Rightarrow> 'w \<Rightarrow> (string + http_request) \<times> 'w) option"
  baseURL :: "url option"
  retry :: retry_policy
  Wait :: "('w \<Rightarrow> string option \<times> 'w) option"
  userAgent :: string
  unsafeRetries :: bool
  allowInsecureBaseURL :: bool
  optErr :: "client_error option"
  onReq :: "(http_request \<Rightarrow> 'w \<Rightarrow> http_request \<times> 'w) option"
  onResp :: "((string + http_response) \<Rightarrow> 'w \<Rightarrow> 'w) option"

record ('w, 'v) env =
  url_Parse :: "string \<Rightarrow> url option"
  url_String :: "url \<Rightarrow> string"
  resolvePath :: "string \<Rightarrow> string \<Rightarrow> string"
  loopback_ip :: "string \<Rightarrow> bool"   \<comment> \<open>\<open>net.ParseIP(host)\<close> is an IP and \<open>IsLoopback()\<close>\<close>
  ParseTime :: "string \<Rightarrow> int option"
  errorBody :: "string \<Rightarrow> (string \<times> string) option"   \<comment> \<open>\<open>json.Unmarshal\<close> into \<open>errorBody\<close>\<close>
  DecodeInto :: "http_response \<Rightarrow> string option \<times> 'v option"   \<comment> \<open>\<open>json.NewDecoder(body).Decode(v)\<close>\<close>
  rand_Int64N :: "int \<Rightarrow> 'w \<Rightarrow> int \<times> 'w"
  select_after :: "int \<Rightarrow> 'w \<Rightarrow> string option \<times> 'w"   \<comment> \<open>\<open>ctx.Err()\<close>, or the timer fired\<close>
  clock :: "'w \<Rightarrow> int"

datatype target = TNil | TBytes | TWriter | TJSON
datatype 'v out = Untouched | BytesOut string | WriterOut string | JsonOut 'v

definition sdkVersion :: string where
  "sdkVersion = ''(devel)''"

definition UserAgent :: "(string \<times> string) list option \<Rightarrow> string \<Rightarrow> string \<Rightarrow> string" where
  \<comment> \<open>from the build information (module path, version), \<open>runtime.GOOS\<close> and \<open>runtime.Version()\<close>\<close>
  "UserAgent build goos version =
     (let v = (case build of None \<Rightarrow> sdkVersion
               | Some deps \<Rightarrow>
                   (case find (\<lambda>d. fst d = ''github.com/OlexiyOdarchuk/go-monobank-sdk/v2'') deps of
                      Some d \<Rightarrow> snd d | None \<Rightarrow> sdkVersion))
      in ''go-monobank-sdk/'' @ v @ '' ('' @ goos @ ''; '' @ version @ '')'')"

definition isTransientStatus :: "int \<Rightarrow> bool" where
  "isTransientStatus code \<longleftrightarrow> code = 429 \<or> 500 \<le> code \<and> code \<le> 599"

definition shouldRetry :: "'w client \<Rightarrow> http_request \<Rightarrow> bool" where
  "shouldRetry c req =
     (if rMethod req \<in> set [''GET'', ''HEAD'', ''PUT'', ''DELETE'', ''OPTIONS''] then True
      else if rMethod req \<in> set [''POST'', ''PATCH'']
      then unsafeRetries c \<or> rHeader req ''Idempotency-Key'' \<noteq> []
      else False)"

definition parseErrorBody :: "('w, 'v) env \<Rightarrow> string \<Rightarrow> string \<times> string" where
  "parseErrorBody env b =
     (if b = [] then ([], []) else case errorBody env b of None \<Rightarrow> ([], []) | Some e \<Rightarrow> e)"

definition decode_body :: "('w, 'v) env \<Rightarrow> target \<Rightarrow> http_response \<Rightarrow> 'v out \<Rightarrow> client_error option \<times> 'v out" where
  \<comment> \<open>the part of \<open>attempt\<close> after the status check\<close>
  "decode_body env v resp out0 =
     (if StatusCode resp = 204 \<or> ContentLength resp = 0 then (None, out0)
      else case v of
          TNil \<Rightarrow> (None, out0)
        | TBytes \<Rightarrow> if respBodyErr resp then (Some ReadResponseBody, out0) else (None, BytesOut (respBody resp))
        | TWriter \<Rightarrow> (if respBodyErr resp then Some CopyResponseBody else None, WriterOut (respBody resp))
        | TJSON \<Rightarrow>
            (case DecodeInto env resp of
               (e, x) \<Rightarrow> (map_option DecodeResponse e, case x of None \<Rightarrow> out0 | Some y \<Rightarrow> JsonOut y)))"

definition handle_response :: "('w, 'v) env \<Rightarrow> int list \<Rightarrow> target \<Rightarrow> http_request \<Rightarrow> 'w \<Rightarrow> http_response \<Rightarrow> 'v out \<Rightarrow>
    client_error option \<times> 'v out" where
  "handle_response env expected v req w resp out0 =
     (if StatusCode resp \<notin> set expected then
        (let (desc, code) = parseErrorBody env (respBody resp);
             api = \<lparr>apiMethod = rMethod req, apiURL = rURL req, apiStatusCode = StatusCode resp,
                    ExpectedStatusCodes = expected, ErrorDescription = desc, ErrorCode = code,
                    apiBody = respBody resp\<rparr>
         in (Some (if isTransientStatus (StatusCode resp)
                   then TransientStatus (StatusCode resp)
                          (parseRetryAfter (ParseTime env) (clock env w) (respHeader resp)) api
                   else ApiErr api), out0))
      else decode_body env v resp out0)"

definition consumed :: "body \<Rightarrow> body" where
  "consumed b = (case b of Stream _ _ \<Rightarrow> Stream [] False | _ \<Rightarrow> b)"

definition reset_body :: "http_request \<Rightarrow> string + http_request" where
  "reset_body req = (case rGetBody req of
      None \<Rightarrow> Inr req
    | Some (Inl e) \<Rightarrow> Inl e
    | Some (Inr b) \<Rightarrow> Inr (req\<lparr>rBody := b\<rparr>))"

definition attempt :: "('w, 'v) env \<Rightarrow> 'w client \<Rightarrow> target \<Rightarrow> int list \<Rightarrow>
    http_request \<times> 'v out \<times> 'w \<Rightarrow> client_error option \<times> http_request \<times> 'v out \<times> 'w" where
  "attempt env c v expected = (\<lambda>(req0, out0, w0).
     (case reset_body req0 of
        Inl e \<Rightarrow> (Some (GetBodyFailed e), req0, out0, w0)
      | Inr req1 \<Rightarrow>
         (let (req, w1) = (case onReq c of None \<Rightarrow> (req1, w0) | Some f \<Rightarrow> f req1 w0);
              (res, w2) = http_Do c req w1;
              w3 = (case onResp c of None \<Rightarrow> w2 | Some f \<Rightarrow> f res w2);
              sent = req\<lparr>rBody := consumed (rBody req)\<rparr>
          in case res of
              Inl e \<Rightarrow> (Some (TransportFailed e), sent, out0, w3)
            | Inr resp \<Rightarrow>
                (case handle_response env expected v req w3 resp out0 of
                   (err, out1) \<Rightarrow> (err, sent, out1, w3)))))"

definition attemptFn :: "('w, 'v) env \<Rightarrow> 'w client \<Rightarrow> target \<Rightarrow> int list \<Rightarrow>
    http_request \<times> 'v out \<times> 'w \<Rightarrow> client_error option \<times> http_request \<times> 'v out \<times> 'w" where
  "attemptFn env c v expected = (\<lambda>(req, out0, w).
     (case Wait c of
        None \<Rightarrow> attempt env c v expected (req, out0, w)
      | Some f \<Rightarrow>
          (case f w of
             (Some e, w1) \<Rightarrow> (Some (LimiterFailed e), req, out0, w1)
           | (None, w1) \<Rightarrow> attempt env c v expected (req, out0, w1))))"

definition set_default :: "string \<Rightarrow> string \<Rightarrow> (string \<Rightarrow> string) \<Rightarrow> string \<Rightarrow> string" where
  "set_default k v h = (if h k = [] then h(k := v) else h)"

definition prepare :: "('w, 'v) env \<Rightarrow> 'w client \<Rightarrow> string \<Rightarrow> url \<Rightarrow> url \<Rightarrow> http_request \<Rightarrow> http_request" where
  \<comment> \<open>URL, \<open>Content-Type\<close> and \<open>User-Agent\<close>\<close>
  "prepare env c sdkUA base ref req =
     (let h1 = (if rBody req \<noteq> NilBody then set_default ''Content-Type'' ''application/json'' (rHeader req)
                else rHeader req);
          h2 = set_default ''User-Agent'' (if userAgent c = [] then sdkUA else userAgent c) h1
      in req\<lparr>rURL := ResolveReference (resolvePath env) base ref, rHeader := h2\<rparr>)"

definition buffer_body :: "http_request \<Rightarrow> http_request option" where
  \<comment> \<open>reads a one-shot body so that retries can repeat it; \<open>None\<close> when reading fails\<close>
  "buffer_body req =
     (case (rBody req, rGetBody req) of
        (Stream b err, None) \<Rightarrow>
          if err then None
          else Some (req\<lparr>rGetBody := Some (Inr (Stream b False)), rBody := Stream b False,
                 rContentLength := (if rContentLength req = 0 then int (length b) else rContentLength req)\<rparr>)
      | _ \<Rightarrow> Some req)"

definition lift_world :: "('a \<Rightarrow> 'w \<Rightarrow> 'b \<times> 'w) \<Rightarrow> 'a \<Rightarrow> http_request \<times> 'v out \<times> 'w \<Rightarrow> 'b \<times> http_request \<times> 'v out \<times> 'w" where
  "lift_world f x = (\<lambda>(req, out0, w). case f x w of (y, w1) \<Rightarrow> (y, req, out0, w1))"

definition pause_or_done :: "('w, 'v) env \<Rightarrow> int \<Rightarrow> 'w \<Rightarrow> client_error option \<times> 'w" where
  "pause_or_done env d w = (case select_after env d w of (e, w1) \<Rightarrow> (map_option ContextDone e, w1))"

definition Do :: "('w, 'v) env \<Rightarrow> string \<Rightarrow> 'w client \<Rightarrow> http_request option \<Rightarrow> target \<Rightarrow> int list \<Rightarrow> 'w \<Rightarrow>
    (client_error option \<times> 'v out) \<times> 'w" where
  "Do env sdkUA c reqp v codes w =
     (case optErr c of Some e \<Rightarrow> ((Some e, Untouched), w) | None \<Rightarrow>
      case reqp of None \<Rightarrow> ((Some EmptyRequest, Untouched), w) | Some req \<Rightarrow>
      case baseURL c of None \<Rightarrow> ((Some (InvalidURL []), Untouched), w) | Some base \<Rightarrow>
      let expected = (if codes = [] then [200] else codes)
      in case url_Parse env (url_String env (rURL req)) of
          None \<Rightarrow> ((Some ParseRequestURL, Untouched), w)
        | Some ref \<Rightarrow>
          if IsAbs ref then ((Some (InvalidURL (url_String env ref)), Untouched), w)
          else
            case (case SetAuth c of None \<Rightarrow> (Inr (prepare env c sdkUA base ref req), w)
                  | Some f \<Rightarrow> f (prepare env c sdkUA base ref req) w) of
              (Inl e, w1) \<Rightarrow> ((Some (SetAuthFailed e), Untouched), w1)
            | (Inr req1, w1) \<Rightarrow>
                (case buffer_body req1 of
                   None \<Rightarrow> ((Some ReadRequestBody, Untouched), w1)
                 | Some req2 \<Rightarrow>
                     (case (if \<not> shouldRetry c req2 then attemptFn env c v expected (req2, Untouched, w1)
                            else run (lift_world (rand_Int64N env))
                                   (lift_world (pause_or_done env))
                                   as_transient (retry c) (attemptFn env c v expected) (req2, Untouched, w1))
                      of (err, _, out1, w2) \<Rightarrow> ((err, out1), w2))))"

section \<open>What reaches the transport\<close>

definition observed :: "('w, 'v) env \<Rightarrow> 'w client \<Rightarrow> ('w \<Rightarrow> (http_request \<times> (string + http_response)) list) \<Rightarrow> bool" where
  \<comment> \<open>\<open>sent\<close> is a log of the transport's exchanges, which nothing else touches\<close>
  "observed env c sent \<longleftrightarrow>
     (\<forall>req w. sent (snd (http_Do c req w)) = sent w @ [(req, fst (http_Do c req w))]) \<and>
     (\<forall>f req w. SetAuth c = Some f \<longrightarrow> sent (snd (f req w)) = sent w) \<and>
     (\<forall>f w. Wait c = Some f \<longrightarrow> sent (snd (f w)) = sent w) \<and>
     (\<forall>f req w. onReq c = Some f \<longrightarrow> sent (snd (f req w)) = sent w) \<and>
     (\<forall>f res w. onResp c = Some f \<longrightarrow> sent (f res w) = sent w) \<and>
     (\<forall>n w. sent (snd (rand_Int64N env n w)) = sent w) \<and>
     (\<forall>d w. sent (snd (select_after env d w)) = sent w)"

lemma handle_response_None:
  "handle_response env expected v req w resp out0 = (None, out1) \<Longrightarrow> StatusCode resp \<in> set expected"
  by (auto simp: handle_response_def Let_def split: if_splits prod.splits)

lemma attempt_sends:
  assumes "observed env c sent"
    and "attempt env c v expected (req, out0, w) = (err, req', out', w')"
  shows "sent w' = sent w \<and> req' = req \<and> err \<noteq> None \<and> (\<exists>e. reset_body req = Inl e) \<or>
    (\<exists>R1 R w1 res. reset_body req = Inr R1 \<and> (case onReq c of None \<Rightarrow> (R1, w) | Some f \<Rightarrow> f R1 w) = (R, w1) \<and>
       sent w' = sent w @ [(R, res)] \<and>
       req' = R\<lparr>rBody := consumed (rBody R)\<rparr> \<and>
       (err = None \<longrightarrow> (\<exists>resp. res = Inr resp \<and> StatusCode resp \<in> set expected)))"
proof (cases "reset_body req")
  case (Inl e)
  with assms(2) show ?thesis by (auto simp: attempt_def)
next
  case (Inr R1)
  obtain R w1 where R: "(case onReq c of None \<Rightarrow> (R1, w) | Some f \<Rightarrow> f R1 w) = (R, w1)" by fastforce
  have s1: "sent w1 = sent w"
    using R assms(1) by (cases "onReq c") (auto simp: observed_def, metis snd_conv)
  obtain res w2 where res: "http_Do c R w1 = (res, w2)" by fastforce
  have s2: "sent w2 = sent w @ [(R, res)]"
    using assms(1) res s1 unfolding observed_def by (metis fst_conv snd_conv)
  define w3 where "w3 = (case onResp c of None \<Rightarrow> w2 | Some f \<Rightarrow> f res w2)"
  have s3: "sent w3 = sent w @ [(R, res)]"
    unfolding w3_def using assms(1) s2 by (auto simp: observed_def split: option.split)
  have "w' = w3 \<and> req' = R\<lparr>rBody := consumed (rBody R)\<rparr>
      \<and> (err = None \<longrightarrow> (\<exists>resp. res = Inr resp \<and> StatusCode resp \<in> set expected))"
    using assms(2) Inr R res handle_response_None
    by (auto simp: attempt_def Let_def w3_def split: prod.splits sum.splits)
  with Inr R s3 show ?thesis by blast
qed

definition ready :: "http_request \<Rightarrow> http_request \<Rightarrow> bool" where
  \<comment> \<open>resetting the body of \<open>req\<close>, if it can be reset, gives \<open>R\<close>\<close>
  "ready R req \<longleftrightarrow> (\<forall>R'. reset_body req = Inr R' \<longrightarrow> R' = R)"

lemma ready_consumed:
  assumes "reset_body req = Inr R" and "case rGetBody req of None \<Rightarrow> consumed (rBody req) = rBody req | Some _ \<Rightarrow> True"
  shows "ready R (R\<lparr>rBody := consumed (rBody R)\<rparr>) \<and>
    (case rGetBody R of None \<Rightarrow> consumed (rBody R) = rBody R | Some _ \<Rightarrow> True) \<and> rGetBody R = rGetBody req"
  using assms by (auto simp: ready_def reset_body_def split: option.splits sum.splits)

definition replayable :: "http_request \<Rightarrow> bool" where
  \<comment> \<open>a body without \<open>GetBody\<close> is no stream\<close>
  "replayable req \<longleftrightarrow> (case rGetBody req of None \<Rightarrow> consumed (rBody req) = rBody req | Some _ \<Rightarrow> True)"

definition exchanges :: "('w \<Rightarrow> (http_request \<times> (string + http_response)) list) \<Rightarrow> 'w \<Rightarrow> http_request \<Rightarrow> nat \<Rightarrow>
    http_request \<times> 'v out \<times> 'w \<Rightarrow> bool" where
  \<comment> \<open>at most \<open>k\<close> exchanges since \<open>w0\<close>, each of the request \<open>R\<close>\<close>
  "exchanges sent w0 R k = (\<lambda>(req, out0, w).
     ready R req \<and> replayable req \<and>
     (\<exists>rs. length rs \<le> k \<and> sent w = sent w0 @ map (\<lambda>r. (R, r)) rs))"

definition succeeded :: "('w \<Rightarrow> (http_request \<times> (string + http_response)) list) \<Rightarrow> 'w \<Rightarrow> http_request \<Rightarrow> int list \<Rightarrow>
    http_request \<times> 'v out \<times> 'w \<Rightarrow> bool" where
  "succeeded sent w0 R expected = (\<lambda>(req, out0, w).
     \<exists>rs resp. sent w = sent w0 @ map (\<lambda>r. (R, r)) (rs @ [Inr resp]) \<and> StatusCode resp \<in> set expected)"

lemma attemptFn_exchanges:
  assumes "observed env c sent" and "onReq c = None"
    and "exchanges sent w0 R k s" and "attemptFn env c v expected s = (err, s1)"
  shows "exchanges sent w0 R (Suc k) s1 \<and> (err = None \<longrightarrow> succeeded sent w0 R expected s1)"
proof -
  obtain req out0 w where s: "s = (req, out0, w)" by (metis prod_cases3)
  obtain req' out' w' where s1: "s1 = (req', out', w')" by (metis prod_cases3)
  from assms(3) s obtain rs where rs: "length rs \<le> k" "sent w = sent w0 @ map (\<lambda>r. (R, r)) rs"
    "ready R req" "replayable req" by (auto simp: exchanges_def)
  show ?thesis
  proof (cases "\<exists>f e w1. Wait c = Some f \<and> f w = (Some e, w1)")
    case True
    then obtain f e w1 where f: "Wait c = Some f" "f w = (Some e, w1)" by blast
    then have "sent w1 = sent w" using assms(1) unfolding observed_def by (metis snd_conv)
    with f rs assms(4) s s1 show ?thesis
      by (auto simp: attemptFn_def exchanges_def intro!: exI [of _ rs])
  next
    case False
    then obtain w1 where w1: "attempt env c v expected (req, out0, w1) = (err, req', out', w')" "sent w1 = sent w"
      using assms(4) s s1 assms(1) unfolding observed_def attemptFn_def
      by (auto split: option.splits prod.splits) (metis snd_conv)+
    from attempt_sends [OF assms(1) w1(1)] assms(2) show ?thesis
    proof (elim disjE conjE exE)
      assume "sent w' = sent w1" "req' = req" "err \<noteq> None"
      with rs w1 s1 show ?thesis by (auto simp: exchanges_def intro!: exI [of _ rs])
    next
      fix R1 R2 w2 res
      assume a: "reset_body req = Inr R1" "(case onReq c of None \<Rightarrow> (R1, w1) | Some f \<Rightarrow> f R1 w1) = (R2, w2)"
        "sent w' = sent w1 @ [(R2, res)]" "req' = R2\<lparr>rBody := consumed (rBody R2)\<rparr>"
        "err = None \<longrightarrow> (\<exists>resp. res = Inr resp \<and> StatusCode resp \<in> set expected)"
      then have eq: "R1 = R" "R2 = R" using rs(3) assms(2) by (auto simp: ready_def)
      with a have req: "reset_body req = Inr R" by simp
      from ready_consumed [OF this] rs(4) have "ready R req'" "replayable req'"
        using a(4) eq by (auto simp: replayable_def consumed_def split: option.splits body.splits)
      moreover have "sent w' = sent w0 @ map (\<lambda>r. (R, r)) (rs @ [res])" using a(3) eq rs w1 by simp
      ultimately have "exchanges sent w0 R (Suc k) s1"
        using rs(1) s1 unfolding exchanges_def by (auto intro!: exI [of _ "rs @ [res]"])
      moreover have "err = None \<longrightarrow> succeeded sent w0 R expected s1"
        using a(5) s1 \<open>sent w' = sent w0 @ map (\<lambda>r. (R, r)) (rs @ [res])\<close>
        unfolding succeeded_def by auto
      ultimately show ?thesis ..
    qed
  qed
qed

definition header_authorizer :: "'w client \<Rightarrow> bool" where
  \<comment> \<open>the authorizer only sets headers, and not the idempotency key\<close>
  "header_authorizer c \<longleftrightarrow> (\<forall>f req w req'. SetAuth c = Some f \<and> fst (f req w) = Inr req' \<longrightarrow>
     (\<exists>h. req' = req\<lparr>rHeader := h\<rparr> \<and> h ''Idempotency-Key'' = rHeader req ''Idempotency-Key''))"

definition keeps_headers :: "string set \<Rightarrow> 'w client \<Rightarrow> bool" where
  \<comment> \<open>the authorizer only sets headers, and none of \<open>K\<close>\<close>
  "keeps_headers K c \<longleftrightarrow> (\<forall>f req w req'. SetAuth c = Some f \<and> fst (f req w) = Inr req' \<longrightarrow>
     (\<exists>h. req' = req\<lparr>rHeader := h\<rparr> \<and> (\<forall>k\<in>K. h k = rHeader req k)))"

lemma header_authorizer_keeps: "header_authorizer c \<longleftrightarrow> keeps_headers {''Idempotency-Key''} c"
  by (simp add: header_authorizer_def keeps_headers_def)

definition full_body :: "http_request \<Rightarrow> body" where
  \<comment> \<open>the body the caller handed over\<close>
  "full_body req = (case rGetBody req of
      Some (Inr b) \<Rightarrow> b
    | _ \<Rightarrow> (case rBody req of Stream b _ \<Rightarrow> Stream b False | b \<Rightarrow> b))"

definition same_request :: "('w, 'v) env \<Rightarrow> url \<Rightarrow> http_request \<Rightarrow> http_request \<Rightarrow> bool" where
  \<comment> \<open>\<open>R\<close> is the caller's request, resolved against \<open>base\<close>, with its whole body\<close>
  "same_request env base req R \<longleftrightarrow>
     rMethod R = rMethod req \<and> rBody R = full_body req \<and>
     rHeader R ''Idempotency-Key'' = rHeader req ''Idempotency-Key'' \<and>
     (\<exists>ref. url_Parse env (url_String env (rURL req)) = Some ref \<and> \<not> IsAbs ref \<and>
        rURL R = ResolveReference (resolvePath env) base ref)"

definition authorized :: "'w client \<Rightarrow> (string \<Rightarrow> string) \<Rightarrow> 'w \<Rightarrow> http_request \<Rightarrow> bool" where
  \<comment> \<open>\<open>R\<close> has the headers the client's authorizer made, in world \<open>w\<close>, of the caller's headers \<open>h\<close>\<close>
  "authorized c h w R \<longleftrightarrow> (\<forall>f. SetAuth c = Some f \<longrightarrow> (\<exists>r r'. fst (f r w) = Inr r' \<and> rHeader R = rHeader r' \<and>
     (\<forall>k. k \<notin> {''Content-Type'', ''User-Agent''} \<longrightarrow> rHeader r k = h k)))"

lemma buffer_body_ready:
  assumes "buffer_body req = Some req2"
  shows "replayable req2" and "rHeader req2 = rHeader req" and "rMethod req2 = rMethod req"
    and "reset_body req2 = Inr R \<Longrightarrow> R = req2\<lparr>rBody := full_body req\<rparr>" and "rURL req2 = rURL req"
  using assms
  by (auto simp: buffer_body_def replayable_def consumed_def reset_body_def full_body_def
      split: body.splits option.splits sum.splits if_splits)

lemma lift_world_exchanges:
  "exchanges sent w R k s \<Longrightarrow> (\<And>u. sent (snd (f x u)) = sent u) \<Longrightarrow> exchanges sent w R k (snd (lift_world f x s))"
  by (auto simp: lift_world_def exchanges_def split: prod.splits) (metis snd_conv)+

lemma send_exchanges:
  assumes "observed env c sent" and "onReq c = None" and "exchanges sent w R 0 s"
    and "(if \<not> retried then attemptFn env c v codes s
          else run (lift_world (rand_Int64N env)) (lift_world (pause_or_done env))
                 as_transient (retry c) (attemptFn env c v codes) s) = (err, s')"
  shows "\<exists>k. k \<le> (if retried then attempts_of (retry c) else 1) \<and>
    exchanges sent w R k s' \<and> (err = None \<longrightarrow> succeeded sent w R codes s')"
proof (cases retried)
  case False
  with assms(4) have "attemptFn env c v codes s = (err, s')" by simp
  from attemptFn_exchanges [OF assms(1-3) this] False show ?thesis by (intro exI [of _ 1]) auto
next
  case True
  then have loop: "run_loop (lift_world (rand_Int64N env)) (lift_world (pause_or_done env)) as_transient (retry c)
      (attemptFn env c v codes) 0 (attempts_of (retry c)) s = (err, s')"
    using assms(4) by (simp add: run_def)
  have n: "0 < attempts_of (retry c)" by (simp add: attempts_of_def)
  have w: "sent (snd (rand_Int64N env n u)) = sent u" for n u
    using assms(1) by (simp add: observed_def)
  have p: "sent (snd (pause_or_done env d u)) = sent u" for d u
    using assms(1) by (cases "select_after env d u") (auto simp: observed_def pause_or_done_def, metis snd_conv)
  have "(\<exists>j \<le> attempts_of (retry c). exchanges sent w R (0 + j) s') \<and>
      (err = None \<longrightarrow> succeeded sent w R codes s')"
  proof (rule run_loop_invariant [where P = "exchanges sent w R", OF _ _ _ n assms(3) loop])
    show "exchanges sent w R k (snd (lift_world (rand_Int64N env) n s))" if "exchanges sent w R k s" for k n s
      using that w by (rule lift_world_exchanges)
    show "exchanges sent w R k (snd (lift_world (pause_or_done env) d s))" if "exchanges sent w R k s" for k d s
      using that p by (rule lift_world_exchanges)
  qed (rule attemptFn_exchanges [OF assms(1,2)])
  with True show ?thesis by auto
qed

lemma Do_sends_keeping:
  assumes "observed env c sent" and "onReq c = None" and "keeps_headers K c" and "''Idempotency-Key'' \<in> K"
    and do: "Do env sdkUA c (Some req) v codes w = ((err, out1), w')"
  shows "\<exists>R rs. sent w' = sent w @ map (\<lambda>r. (R, r)) rs
    \<and> length rs \<le> (if shouldRetry c req then attempts_of (retry c) else 1)
    \<and> (rs \<noteq> [] \<longrightarrow> (\<exists>base. baseURL c = Some base \<and> same_request env base req R) \<and> authorized c (rHeader req) w R
         \<and> (\<forall>k\<in>K - {''Content-Type'', ''User-Agent''}. rHeader R k = rHeader req k))
    \<and> (err = None \<longrightarrow> (\<exists>resp. last (sent w') = (R, Inr resp) \<and> rs \<noteq> []
         \<and> StatusCode resp \<in> set (if codes = [] then [200] else codes)))"
proof (cases "\<exists>base ref. optErr c = None \<and> baseURL c = Some base \<and>
    url_Parse env (url_String env (rURL req)) = Some ref \<and> \<not> IsAbs ref")
  case False
  then have "w' = w \<and> err \<noteq> None"
    using do by (cases "optErr c"; cases err) (auto simp: Do_def Let_def split: option.splits if_splits)
  then show ?thesis by (intro exI [of _ req] exI [of _ "[]"]) simp
next
  case True
  then obtain base ref where b: "optErr c = None" "baseURL c = Some base"
    "url_Parse env (url_String env (rURL req)) = Some ref" "\<not> IsAbs ref" by blast
  let ?codes = "if codes = [] then [200] else codes"
  let ?p = "prepare env c sdkUA base ref req"
  obtain a w1 where a: "(case SetAuth c of None \<Rightarrow> (Inr ?p, w) | Some f \<Rightarrow> f ?p w) = (a, w1)" by fastforce
  have s1: "sent w1 = sent w"
    using a assms(1) by (cases "SetAuth c") (auto simp: observed_def, metis snd_conv)
  show ?thesis
  proof (cases "\<exists>req1 req2. a = Inr req1 \<and> buffer_body req1 = Some req2")
    case False
    then have "w' = w1 \<and> err \<noteq> None"
      using do b a by (auto simp: Do_def Let_def split: sum.splits option.splits)
    with s1 show ?thesis by (intro exI [of _ req] exI [of _ "[]"]) simp
  next
    case True
    then obtain req1 req2 where r: "a = Inr req1" "buffer_body req1 = Some req2" by blast
    have "\<exists>h. req1 = ?p\<lparr>rHeader := h\<rparr> \<and> (\<forall>k\<in>K. h k = rHeader ?p k)"
    proof (cases "SetAuth c")
      case None
      with a r(1) have "req1 = ?p" by simp
      then show ?thesis by (intro exI [of _ "rHeader ?p"]) simp
    next
      case (Some f)
      with a r(1) have "fst (f ?p w) = Inr req1" by simp
      with assms(3) Some show ?thesis unfolding keeps_headers_def by blast
    qed
    then obtain h where h: "req1 = ?p\<lparr>rHeader := h\<rparr>" "\<forall>k\<in>K. h k = rHeader ?p k"
      by blast
    note bb = buffer_body_ready [OF r(2)]
    have keys: "h k = rHeader req k" if "k \<in> K - {''Content-Type'', ''User-Agent''}" for k
      using that h(2) by (simp add: prepare_def set_default_def Let_def)
    with assms(4) have key: "h ''Idempotency-Key'' = rHeader req ''Idempotency-Key''" by simp
    have sr: "shouldRetry c req2 = shouldRetry c req"
      using bb(2,3) h key by (simp add: shouldRetry_def prepare_def Let_def)
    define R where "R = req2\<lparr>rBody := full_body req1\<rparr>"
    have "rBody req1 = rBody req" "rGetBody req1 = rGetBody req"
      unfolding h(1) by (simp_all add: prepare_def Let_def)
    then have "full_body req1 = full_body req" by (simp only: full_body_def)
    moreover have "rURL req1 = ResolveReference (resolvePath env) base ref"
      "rMethod req1 = rMethod req" "rHeader req1 = h"
      unfolding h(1) by (simp_all add: prepare_def Let_def)
    ultimately have R: "same_request env base req R"
      using bb(2,3,5) key b unfolding R_def same_request_def by simp
    have hR: "\<forall>k\<in>K - {''Content-Type'', ''User-Agent''}. rHeader R k = rHeader req k"
      using bb(2) keys unfolding R_def h(1) by simp
    have "rHeader R = rHeader req1" using bb(2) by (simp add: R_def)
    moreover have "\<forall>k. k \<notin> {''Content-Type'', ''User-Agent''} \<longrightarrow> rHeader ?p k = rHeader req k"
      by (simp add: prepare_def set_default_def Let_def)
    moreover have "fst (f ?p w) = Inr req1" if "SetAuth c = Some f" for f using a r(1) that by simp
    ultimately have au: "authorized c (rHeader req) w R" unfolding authorized_def by blast
    obtain rq where out: "(if \<not> shouldRetry c req2 then attemptFn env c v ?codes (req2, Untouched, w1)
        else run (lift_world (rand_Int64N env)) (lift_world (pause_or_done env))
               as_transient (retry c) (attemptFn env c v ?codes) (req2, Untouched, w1)) = (err, rq, out1, w')"
      using do b a r by (simp add: Do_def Let_def split: prod.splits if_splits)
    have "exchanges sent w R 0 (req2, Untouched, w1)"
      using bb(1,4) s1 by (auto simp: exchanges_def ready_def R_def)
    from send_exchanges [OF assms(1,2) this out] sr
    obtain rs where rs: "sent w' = sent w @ map (\<lambda>r. (R, r)) rs"
      "length rs \<le> (if shouldRetry c req then attempts_of (retry c) else 1)"
      "err = None \<longrightarrow> succeeded sent w R ?codes (rq, out1, w')"
      by (auto simp: exchanges_def intro: le_trans)
    moreover have "\<exists>resp. last (sent w') = (R, Inr resp) \<and> rs \<noteq> [] \<and> StatusCode resp \<in> set ?codes" if "err = None"
      using rs that by (auto simp: succeeded_def)
    ultimately show ?thesis using R b hR au by blast
  qed
qed

lemma Do_sends:
  assumes "observed env c sent" and "onReq c = None" and "header_authorizer c"
    and "Do env sdkUA c (Some req) v codes w = ((err, out1), w')"
  shows "\<exists>R rs. sent w' = sent w @ map (\<lambda>r. (R, r)) rs
    \<and> length rs \<le> (if shouldRetry c req then attempts_of (retry c) else 1)
    \<and> (rs \<noteq> [] \<longrightarrow> (\<exists>base. baseURL c = Some base \<and> same_request env base req R))
    \<and> (err = None \<longrightarrow> (\<exists>resp. last (sent w') = (R, Inr resp) \<and> rs \<noteq> []
         \<and> StatusCode resp \<in> set (if codes = [] then [200] else codes)))"
  using Do_sends_keeping [OF assms(1,2) assms(3) [unfolded header_authorizer_keeps] _ assms(4)] by blast

section \<open>What the caller gets\<close>

lemma attemptFn_decodes:
  assumes "observed env c sent" and "attemptFn env c v expected (req, Untouched, w) = (None, req', out', w')"
  shows "\<exists>R resp. last (sent w') = (R, Inr resp) \<and> StatusCode resp \<in> set expected
    \<and> decode_body env v resp Untouched = (None, out')"
proof -
  obtain w1 where "attempt env c v expected (req, Untouched, w1) = (None, req', out', w')"
    using assms(2) by (auto simp: attemptFn_def split: option.splits prod.splits)
  then obtain R w2 resp w3 where a: "http_Do c R w2 = (Inr resp, w3)" "w' = (case onResp c of None \<Rightarrow> w3 | Some f \<Rightarrow> f (Inr resp) w3)"
    and h: "handle_response env expected v R w' resp Untouched = (None, out')"
    by (auto simp: attempt_def Let_def split: sum.splits prod.splits)
  have "sent w3 = sent w2 @ [(R, Inr resp)]" using assms(1) a(1) unfolding observed_def by (metis fst_conv snd_conv)
  then have "sent w' = sent w2 @ [(R, Inr resp)]"
    using assms(1) a(2) by (auto simp: observed_def split: option.split)
  moreover have "StatusCode resp \<in> set expected \<and> decode_body env v resp Untouched = (None, out')"
    using h by (auto simp: handle_response_def Let_def split: if_splits prod.splits)
  ultimately show ?thesis by (intro exI [of _ R] exI [of _ resp]) simp
qed

lemma transient_untouched:
  assumes "attemptFn env c v expected (req, Untouched, w) = (Some e, req', out', w')" and "as_transient e \<noteq> None"
  shows "out' = Untouched"
  using assms
  by (auto simp: attemptFn_def attempt_def handle_response_def decode_body_def Let_def
      split: option.splits prod.splits sum.splits if_splits target.splits)

lemma Do_decodes:
  assumes "observed env c sent" and "Do env sdkUA c (Some req) v codes w = ((None, out1), w')"
  shows "\<exists>R resp. last (sent w') = (R, Inr resp) \<and> StatusCode resp \<in> set (if codes = [] then [200] else codes)
    \<and> decode_body env v resp Untouched = (None, out1)"
proof -
  define cs where "cs = (if codes = [] then [200] else codes)"
  let ?run = "run (lift_world (rand_Int64N env)) (lift_world (pause_or_done env)) as_transient (retry c) (attemptFn env c v cs)"
  have "\<exists>req2 w1 rq. attemptFn env c v cs (req2, Untouched, w1) = (None, rq, out1, w') \<or> ?run (req2, Untouched, w1) = (None, rq, out1, w')"
    using assms(2) unfolding Do_def Let_def cs_def [symmetric]
    by (auto split: option.splits sum.splits prod.splits if_splits)
  moreover have "\<exists>s0. fst (snd s0) = Untouched \<and> attemptFn env c v cs s0 = (None, rq, out1, w')"
    if "?run (req2, Untouched, w1) = (None, rq, out1, w')" for req2 w1 rq
  proof (rule run_loop_last [where P = "\<lambda>s. fst (snd s) = Untouched"])
    show "run_loop (lift_world (rand_Int64N env)) (lift_world (pause_or_done env)) as_transient (retry c)
        (attemptFn env c v cs) 0 (attempts_of (retry c)) (req2, Untouched, w1) = (None, rq, out1, w')"
      using that by (simp add: run_def)
    show "0 < attempts_of (retry c)" by (simp add: attempts_of_def)
  qed (auto simp: lift_world_def transient_untouched split: prod.splits)
  ultimately obtain s0 rq where "fst (snd s0) = Untouched" "attemptFn env c v cs s0 = (None, rq, out1, w')"
    by (metis fst_conv snd_conv)
  then show ?thesis using attemptFn_decodes [OF assms(1)] unfolding cs_def [symmetric] by (cases s0) auto
qed

definition leads_to :: "url \<Rightarrow> url \<Rightarrow> url \<Rightarrow> bool" where
  \<comment> \<open>\<open>ref\<close> has no scheme, \<open>u\<close> has the scheme of \<open>base\<close>, and the host and user of \<open>ref\<close> if it names any
      (none, if it is opaque), else those of \<open>base\<close>\<close>
  "leads_to base ref u \<longleftrightarrow> Scheme ref = [] \<and> Scheme u = Scheme base \<and>
     (if Host ref \<noteq> [] \<or> User ref \<noteq> None then Host u = Host ref \<and> User u = User ref
      else if Opaque ref \<noteq> [] then Host u = [] \<and> User u = None
      else Host u = Host base \<and> User u = User base)"

lemma Do_where:
  assumes "observed env c sent" and "onReq c = None" and "header_authorizer c"
    and "Do env sdkUA c (Some req) v codes w = (result, w')"
    and "baseURL c = Some base" and "Opaque base = []"
  shows "\<exists>log. sent w' = sent w @ log \<and> (\<forall>(R, r) \<in> set log.
    \<exists>ref. url_Parse env (url_String env (rURL req)) = Some ref \<and> leads_to base ref (rURL R))"
proof -
  obtain err out1 where "result = (err, out1)" by (cases result)
  with Do_sends [OF assms(1-3)] assms(4,5) obtain R rs where s: "sent w' = sent w @ map (\<lambda>r. (R, r)) rs"
    "rs \<noteq> [] \<longrightarrow> (\<exists>base. baseURL c = Some base \<and> same_request env base req R)" by blast
  with assms(5) have s2: "rs \<noteq> [] \<longrightarrow> same_request env base req R" by simp
  have "\<exists>ref. url_Parse env (url_String env (rURL req)) = Some ref \<and> leads_to base ref (rURL R)"
    if "same_request env base req R"
  proof -
    from that obtain ref where "url_Parse env (url_String env (rURL req)) = Some ref" "\<not> IsAbs ref"
      "rURL R = ResolveReference (resolvePath env) base ref" by (auto simp: same_request_def)
    with assms(6) show ?thesis by (auto simp: ResolveReference_def IsAbs_def Let_def leads_to_def)
  qed
  with s2 have "rs = [] \<or> (\<exists>ref. url_Parse env (url_String env (rURL req)) = Some ref \<and> leads_to base ref (rURL R))" by blast
  then show ?thesis by (intro exI [of _ "map (\<lambda>r. (R, r)) rs"] conjI s(1)) (elim disjE, simp, simp only: list.set_map, blast)
qed

lemma Do_base_host:
  assumes "observed env c sent" and "onReq c = None" and "header_authorizer c"
    and "Do env sdkUA c (Some req) v codes w = (result, w')"
    and "baseURL c = Some base" and "Opaque base = []"
    and "\<And>ref. url_Parse env (url_String env (rURL req)) = Some ref \<Longrightarrow> Host ref = [] \<and> User ref = None \<and> Opaque ref = []"
  shows "\<exists>log. sent w' = sent w @ log \<and> (\<forall>(R, r) \<in> set log.
    Scheme (rURL R) = Scheme base \<and> Host (rURL R) = Host base \<and> User (rURL R) = User base)"
proof -
  from Do_where [OF assms(1-6)] obtain log where l: "sent w' = sent w @ log" "\<forall>(R, r) \<in> set log.
    \<exists>ref. url_Parse env (url_String env (rURL req)) = Some ref \<and> leads_to base ref (rURL R)" by blast
  with assms(7) show ?thesis by (intro exI [of _ log]) (fastforce simp: leads_to_def)
qed

section \<open>Properties\<close>

text \<open>C16: a request that is not safe to repeat is sent at most once. For any transport, limiter and
  response hook, no request hook and an authorizer that only sets headers, \<open>Do\<close> with a method other than
  GET, HEAD, PUT, DELETE and OPTIONS, no \<open>Idempotency-Key\<close> header and no \<open>WithUnsafeRetries\<close> causes at
  most one exchange, however the retry policy is set; any other request at most \<open>max 1 maxAttempts\<close>.\<close>
theorem Do_sends_unsafe_requests_once:
  assumes "observed env c sent" and "onReq c = None" and "header_authorizer c"
    and "Do env sdkUA c (Some req) v codes w = (result, w')"
  shows "\<exists>log. sent w' = sent w @ log \<and>
    int (length log) \<le> (if rMethod req \<in> set [''GET'', ''HEAD'', ''PUT'', ''DELETE'', ''OPTIONS'']
        \<or> rMethod req \<in> set [''POST'', ''PATCH''] \<and> (unsafeRetries c \<or> rHeader req ''Idempotency-Key'' \<noteq> [])
      then max 1 (maxAttempts (retry c)) else 1)"
proof -
  obtain err out1 where "result = (err, out1)" by (cases result)
  with Do_sends [OF assms(1-3)] assms(4) obtain R rs where "sent w' = sent w @ map (\<lambda>r. (R, r)) rs"
    "length rs \<le> (if shouldRetry c req then attempts_of (retry c) else 1)" by blast
  then show ?thesis
    by (intro exI [of _ "map (\<lambda>r. (R, r)) rs"]) (auto simp: shouldRetry_def attempts_of_def split: if_splits)
qed

text \<open>C17: every retry repeats the whole request. All exchanges caused by one \<open>Do\<close> carry one and the
  same request: the caller's method, the caller's whole body (although the transport consumes
  it each time), the same headers, and the caller's URL resolved against the base URL.\<close>
theorem Do_repeats_the_same_request:
  assumes "observed env c sent" and "onReq c = None" and "header_authorizer c"
    and "Do env sdkUA c (Some req) v codes w = (result, w')"
  shows "\<exists>R rs. sent w' = sent w @ map (\<lambda>r. (R, r)) rs \<and>
    (rs \<noteq> [] \<longrightarrow> (\<exists>base. baseURL c = Some base \<and> same_request env base req R))"
proof -
  obtain err out1 where "result = (err, out1)" by (cases result)
  with Do_sends [OF assms(1-3)] assms(4) show ?thesis by blast
qed

text \<open>C18: success means success. If \<open>Do\<close> returns no error, then it sent something, the response to the last
  exchange has one of the statuses the caller expects (200 when none is named), and what the caller gets is that
  response's body, decoded into the target it asked for: nothing of an earlier attempt is left in it.\<close>
theorem Do_succeeds_only_on_expected_status:
  assumes "observed env c sent" and "onReq c = None" and "header_authorizer c"
    and "Do env sdkUA c (Some req) v codes w = ((None, out1), w')"
  shows "\<exists>log R resp. sent w' = sent w @ log @ [(R, Inr resp)] \<and>
    StatusCode resp \<in> set (if codes = [] then [200] else codes) \<and> decode_body env v resp Untouched = (None, out1)"
proof -
  from Do_sends [OF assms] obtain R rs where s: "sent w' = sent w @ map (\<lambda>r. (R, r)) rs" "rs \<noteq> []" by auto
  from Do_decodes [OF assms(1,4)] obtain R' resp where d: "last (sent w') = (R', Inr resp)"
    "StatusCode resp \<in> set (if codes = [] then [200] else codes)" "decode_body env v resp Untouched = (None, out1)" by blast
  have "map (\<lambda>r. (R, r)) rs = butlast (map (\<lambda>r. (R, r)) rs) @ [(R', Inr resp)]"
    using d(1) s by (metis append_butlast_last_id last_appendR list.map_disc_iff)
  with s(1) d(2,3) show ?thesis
    by (intro exI [of _ "butlast (map (\<lambda>r. (R, r)) rs)"] exI [of _ R'] exI [of _ resp]) simp
qed

text \<open>C19: where \<open>Do\<close> sends a request, in every case. With no request hook, an authorizer that only sets headers and a base
  URL that is not opaque, nothing is sent for a URL that carries a scheme when printed and parsed again, and every
  exchange keeps the scheme of the base URL. It goes to the host and user of the base URL if the parsed URL
  names none of its own (and is not opaque). If it names a host or a user, as \<open>//host/path\<close> does, the exchange goes
  there instead: the guard of \<open>Do\<close> looks at the scheme only.\<close>
theorem Do_host:
  assumes "observed env c sent" and "onReq c = None" and "header_authorizer c"
    and "Do env sdkUA c (Some req) v codes w = (result, w')"
    and "baseURL c = Some base" and "Opaque base = []"
  shows "\<exists>log. sent w' = sent w @ log \<and> (\<forall>(R, r) \<in> set log.
    \<exists>ref. url_Parse env (url_String env (rURL req)) = Some ref \<and> leads_to base ref (rURL R))"
  by (rule Do_where [OF assms])

text \<open>An instance for the witnesses: the world is the log itself, the server answers 503 once and then
  200, URLs are paths.\<close>

definition demo_url :: "string \<Rightarrow> string \<Rightarrow> string \<Rightarrow> url" where
  "demo_url sch host p = \<lparr>Scheme = sch, Opaque = [], User = None, Host = host, Path = p, ForceQuery = False,
     RawQuery = [], Fragment = []\<rparr>"

definition demo_env :: "((http_request \<times> (string + http_response)) list, unit) env" where
  "demo_env = \<lparr>url_Parse = (\<lambda>s. Some (demo_url [] [] s)), url_String = Path, resolvePath = (\<lambda>b r. r),
     loopback_ip = (\<lambda>_. False), ParseTime = (\<lambda>_. None), errorBody = (\<lambda>_. None), DecodeInto = (\<lambda>_. (None, Some ())),
     rand_Int64N = (\<lambda>_ w. (0, w)), select_after = (\<lambda>_ w. (None, w)), clock = (\<lambda>_. 0)\<rparr>"

definition demo_client :: "(http_request \<times> (string + http_response)) list client" where
  "demo_client = \<lparr>
     http_Do = (\<lambda>req w. let r = Inr \<lparr>StatusCode = (if w = [] then 503 else 200), respHeader = (\<lambda>_. []),
                                    ContentLength = 2, respBody = ''{}'', respBodyErr = False\<rparr>
                        in (r, w @ [(req, r)])),
     SetAuth = None, baseURL = Some (demo_url ''https'' ''api.monobank.ua'' []), retry = defaultRetry,
     Wait = None, userAgent = [], unsafeRetries = False, allowInsecureBaseURL = False, optErr = None,
     onReq = None, onResp = None\<rparr>"

definition demo_http_request :: "string \<Rightarrow> http_request" where
  "demo_http_request m = \<lparr>rMethod = m, rURL = demo_url [] [] ''/bank/currency'', rHeader = (\<lambda>_. []),
     rBody = Stream ''{x}'' False, rGetBody = None, rContentLength = 0\<rparr>"

lemma demo_observed: "observed demo_env demo_client (\<lambda>w. w)" "header_authorizer demo_client"
  "onReq demo_client = None"
  by (simp_all add: observed_def header_authorizer_def demo_env_def demo_client_def Let_def)

lemmas demo_defs = demo_env_def demo_client_def demo_http_request_def demo_url_def

lemma demo_GET:
  "\<exists>l. Do demo_env ''sdk'' demo_client (Some (demo_http_request ''GET'')) TJSON [] [] = ((None, JsonOut ()), l) \<and> length l = 2"
  by (simp add: Do_def demo_defs prepare_def set_default_def buffer_body_def shouldRetry_def IsAbs_def Let_def
      run_def attempts_of_def defaultRetry_def numeral_eq_Suc attemptFn_def attempt_def reset_body_def
      handle_response_def decode_body_def parseErrorBody_def isTransientStatus_def lift_world_def
      pause_or_done_def retry_delay_def backoff_def split: prod.split)

theorem Do_sends_unsafe_requests_once_witness:
  "length (snd (Do demo_env ''sdk'' demo_client (Some (demo_http_request ''POST'')) TJSON [] [])) \<le> 1"
proof -
  obtain result w' where d: "Do demo_env ''sdk'' demo_client (Some (demo_http_request ''POST'')) TJSON [] [] = (result, w')"
    by fastforce
  have "\<not> unsafeRetries demo_client" by (simp add: demo_client_def)
  with Do_sends_unsafe_requests_once [OF demo_observed(1,3,2) d] d show ?thesis
    by (simp add: demo_http_request_def)
qed

theorem Do_repeats_the_same_request_witness:
  "\<exists>R r1 r2. snd (Do demo_env ''sdk'' demo_client (Some (demo_http_request ''GET'')) TJSON [] []) = [(R, r1), (R, r2)]
    \<and> rBody R = Stream ''{x}'' False"
proof -
  obtain l where d: "Do demo_env ''sdk'' demo_client (Some (demo_http_request ''GET'')) TJSON [] [] = ((None, JsonOut ()), l)"
    and l: "length l = 2" using demo_GET by blast
  from Do_repeats_the_same_request [OF demo_observed(1,3,2) d] obtain R rs where rs: "l = map (\<lambda>r. (R, r)) rs"
    "rs \<noteq> [] \<longrightarrow> (\<exists>base. same_request demo_env base (demo_http_request ''GET'') R)" by auto
  from rs(1) l obtain r1 r2 where "rs = [r1, r2]" by (auto simp: numeral_2_eq_2 length_Suc_conv)
  moreover from this rs(2) have "rBody R = Stream ''{x}'' False"
    by (auto simp: same_request_def full_body_def demo_http_request_def)
  ultimately show ?thesis using rs(1) d by auto
qed

theorem Do_succeeds_only_on_expected_status_witness:
  "\<exists>log R resp. snd (Do demo_env ''sdk'' demo_client (Some (demo_http_request ''GET'')) TJSON [] []) = log @ [(R, Inr resp)]
    \<and> StatusCode resp = 200"
proof -
  obtain l where d: "Do demo_env ''sdk'' demo_client (Some (demo_http_request ''GET'')) TJSON [] [] = ((None, JsonOut ()), l)"
    using demo_GET by blast
  from Do_succeeds_only_on_expected_status [OF demo_observed(1,3,2) d] d show ?thesis by auto
qed

theorem Do_host_witness:
  "snd (Do demo_env ''sdk'' demo_client (Some (demo_http_request ''GET'')) TJSON [] []) \<noteq> [] \<and>
   list_all (\<lambda>(R, r). Host (rURL R) = ''api.monobank.ua'')
     (snd (Do demo_env ''sdk'' demo_client (Some (demo_http_request ''GET'')) TJSON [] []))"
proof -
  obtain l where d: "Do demo_env ''sdk'' demo_client (Some (demo_http_request ''GET'')) TJSON [] [] = ((None, JsonOut ()), l)"
    and l: "length l = 2" using demo_GET by blast
  have b: "baseURL demo_client = Some (demo_url ''https'' ''api.monobank.ua'' [])" by (simp add: demo_client_def)
  have o: "Opaque (demo_url ''https'' ''api.monobank.ua'' []) = []" by (simp add: demo_url_def)
  have ref: "url_Parse demo_env u = Some ref \<Longrightarrow> Host ref = [] \<and> User ref = None \<and> Opaque ref = []" for u ref
    by (auto simp: demo_env_def demo_url_def)
  have "Host (demo_url ''https'' ''api.monobank.ua'' []) = ''api.monobank.ua''" by (simp add: demo_url_def)
  with Do_host [OF demo_observed(1,3,2) d b o] ref have "list_all (\<lambda>(R, r). Host (rURL R) = ''api.monobank.ua'') l"
    by (fastforce simp: list_all_iff leads_to_def)
  then show ?thesis using d l by auto
qed

text \<open>The guard against absolute URLs does not cover network-path references: \<open>//host/path\<close> has no
  scheme, so \<open>IsAbs\<close> is false, and resolving it replaces the host of the base URL.\<close>

lemma network_path_leaves_the_base_host:
  assumes "Scheme ref = []" and "Host ref \<noteq> []"
  shows "\<not> IsAbs ref \<and> Host (ResolveReference rp base ref) = Host ref
    \<and> Scheme (ResolveReference rp base ref) = Scheme base"
  using assms by (simp add: IsAbs_def ResolveReference_def Let_def)

end
