(* ===== verification/Client_Options.thy ===== *)
theory Client_Options
  imports Http_Client
begin

text \<open>
  Client construction (\<open>options.go\<close>) and the mutators of \<open>client.go\<close>. An \<open>Option\<close> is a function
  on the client, as in the code; a \<open>nil\<close> argument is \<open>None\<close>. \<open>WithHTTPClient\<close> and
  \<open>WithHTTPDoer\<close> are one definition, since a standard client is used only through \<open>Do\<close>;
  \<open>WithRoundTripper\<close>, which looks into that client, \<open>WithLogger\<close> and \<open>Close\<close> are in \<open>Client_Diagnostics\<close>.
\<close>

section \<open>Definitions\<close>

definition defaultBaseURL :: string where
  "defaultBaseURL = ''https://api.monobank.ua''"

definition secure_url :: "('w, 'v) env \<Rightarrow> url \<Rightarrow> bool" where
  "secure_url env u \<longleftrightarrow>
     (if Scheme u = ''https'' \<or> Scheme u = [] then True
      else if Hostname u = ''localhost'' then True
      else loopback_ip env (Hostname u))"

definition isInsecureBaseURL :: "('w, 'v) env \<Rightarrow> string \<Rightarrow> bool" where
  "isInsecureBaseURL env uri = (case url_Parse env uri of None \<Rightarrow> False | Some u \<Rightarrow> \<not> secure_url env u)"

definition SetBaseURL :: "('w, 'v) env \<Rightarrow> string \<Rightarrow> 'w client \<Rightarrow> 'w client" where
  "SetBaseURL env uri c =
     (case url_Parse env uri of
        None \<Rightarrow> (if optErr c = None then c\<lparr>optErr := Some (InvalidURL uri)\<rparr> else c)
      | Some u \<Rightarrow> c\<lparr>baseURL := Some u\<rparr>)"

definition WithBaseURL :: "('w, 'v) env \<Rightarrow> string \<Rightarrow> 'w client \<Rightarrow> 'w client" where
  "WithBaseURL env uri c =
     (if isInsecureBaseURL env uri \<and> \<not> allowInsecureBaseURL c
      then c\<lparr>optErr := Some (InsecureBaseURL uri)\<rparr>
      else SetBaseURL env uri c)"

definition WithInsecureBaseURL :: "bool \<Rightarrow> 'w client \<Rightarrow> 'w client" where
  "WithInsecureBaseURL allow c = c\<lparr>allowInsecureBaseURL := allow\<rparr>"

definition WithHTTPDoer :: "(http_request \<Rightarrow> 'w \<Rightarrow> (string + http_response) \<times> 'w) option \<Rightarrow> 'w client \<Rightarrow> 'w client" where
  "WithHTTPDoer d c = (case d of None \<Rightarrow> c | Some f \<Rightarrow> c\<lparr>http_Do := f\<rparr>)"

definition WithAuth :: "(http_request \<Rightarrow> 'w \<Rightarrow> (string + http_request) \<times> 'w) option \<Rightarrow> 'w client \<Rightarrow> 'w client" where
  "WithAuth a c = (case a of None \<Rightarrow> c | Some f \<Rightarrow> c\<lparr>SetAuth := Some f\<rparr>)"

definition WithRequestHook :: "(http_request \<Rightarrow> 'w \<Rightarrow> http_request \<times> 'w) option \<Rightarrow> 'w client \<Rightarrow> 'w client" where
  "WithRequestHook f c = (case f of None \<Rightarrow> c | Some g \<Rightarrow> c\<lparr>onReq := Some g\<rparr>)"

definition WithResponseHook :: "((string + http_response) \<Rightarrow> 'w \<Rightarrow> 'w) option \<Rightarrow> 'w client \<Rightarrow> 'w client" where
  "WithResponseHook f c = (case f of None \<Rightarrow> c | Some g \<Rightarrow> c\<lparr>onResp := Some g\<rparr>)"

definition WithUserAgent :: "string \<Rightarrow> 'w client \<Rightarrow> 'w client" where
  "WithUserAgent ua c = (if ua = [] then c else c\<lparr>userAgent := ua\<rparr>)"

definition WithUnsafeRetries :: "bool \<Rightarrow> 'w client \<Rightarrow> 'w client" where
  "WithUnsafeRetries enabled c = c\<lparr>unsafeRetries := enabled\<rparr>"

definition WithRateLimiter :: "('w \<Rightarrow> string option \<times> 'w) option \<Rightarrow> 'w client \<Rightarrow> 'w client" where
  "WithRateLimiter l c = (case l of None \<Rightarrow> c | Some f \<Rightarrow> c\<lparr>Wait := Some f\<rparr>)"

definition with_retry_policy :: "int \<Rightarrow> int \<Rightarrow> int \<Rightarrow> retry_policy \<Rightarrow> retry_policy" where
  "with_retry_policy attempts base mx rp =
     (if attempts = 0 then defaultRetry
      else rp\<lparr>maxAttempts := attempts,
              baseDelay := (if 0 < base then base else if baseDelay rp = 0 then baseDelay defaultRetry else baseDelay rp),
              maxDelay := (if 0 < mx then mx else if maxDelay rp = 0 then maxDelay defaultRetry else maxDelay rp)\<rparr>)"

definition WithRetry :: "int \<Rightarrow> int \<Rightarrow> int \<Rightarrow> 'w client \<Rightarrow> 'w client" where
  "WithRetry attempts base mx c = c\<lparr>retry := with_retry_policy attempts base mx (retry c)\<rparr>"

definition ChainRequestHook :: "(http_request \<Rightarrow> 'w \<Rightarrow> http_request \<times> 'w) option \<Rightarrow> 'w client \<Rightarrow> 'w client" where
  "ChainRequestHook f c =
     (case f of None \<Rightarrow> c
      | Some g \<Rightarrow>
          (case onReq c of
             None \<Rightarrow> c\<lparr>onReq := Some g\<rparr>
           | Some prev \<Rightarrow> c\<lparr>onReq := Some (\<lambda>r w. case prev r w of (r1, w1) \<Rightarrow> g r1 w1)\<rparr>))"

definition ChainResponseHook :: "((string + http_response) \<Rightarrow> 'w \<Rightarrow> 'w) option \<Rightarrow> 'w client \<Rightarrow> 'w client" where
  "ChainResponseHook f c =
     (case f of None \<Rightarrow> c
      | Some g \<Rightarrow>
          (case onResp c of
             None \<Rightarrow> c\<lparr>onResp := Some g\<rparr>
           | Some prev \<Rightarrow> c\<lparr>onResp := Some (\<lambda>res w. g res (prev res w))\<rparr>))"

definition New :: "('w, 'v) env \<Rightarrow> (http_request \<Rightarrow> 'w \<Rightarrow> (string + http_response) \<times> 'w) \<Rightarrow>
    ('w client \<Rightarrow> 'w client) list \<Rightarrow> 'w client" where
  \<comment> \<open>the second argument is \<open>(&http.Client{}).Do\<close>\<close>
  "New env stdDo opts =
     (let c = \<lparr>http_Do = stdDo, SetAuth = Some (\<lambda>req w. (Inr req, w)), baseURL = url_Parse env defaultBaseURL,
               retry = \<lparr>maxAttempts = 0, baseDelay = 0, maxDelay = 0\<rparr>, Wait = None, userAgent = [],
               unsafeRetries = False, allowInsecureBaseURL = False, optErr = None, onReq = None, onResp = None\<rparr>;
          probe = fold (\<lambda>opt. opt) opts c
      in fold (\<lambda>opt. opt) opts (c\<lparr>allowInsecureBaseURL := allowInsecureBaseURL probe\<rparr>))"

section \<open>The options of the package\<close>

inductive sdk_option :: "('w, 'v) env \<Rightarrow> bool \<Rightarrow> ('w client \<Rightarrow> 'w client) \<Rightarrow> bool" for env allow where
  "sdk_option env allow (WithBaseURL env uri)"
| "a \<longrightarrow> allow \<Longrightarrow> sdk_option env allow (WithInsecureBaseURL a)"
| "sdk_option env allow (WithHTTPDoer d)"
| "sdk_option env allow (WithAuth au)"
| "sdk_option env allow (WithRequestHook rq)"
| "sdk_option env allow (WithResponseHook rs)"
| "sdk_option env allow (WithUserAgent ua)"
| "sdk_option env allow (WithUnsafeRetries u)"
| "sdk_option env allow (WithRateLimiter l)"
| "in_int64 b \<Longrightarrow> in_int64 m \<Longrightarrow> sdk_option env allow (WithRetry n b m)"

lemmas option_defs = WithBaseURL_def SetBaseURL_def WithInsecureBaseURL_def WithHTTPDoer_def WithAuth_def
  WithRequestHook_def WithResponseHook_def WithUserAgent_def WithUnsafeRetries_def WithRateLimiter_def WithRetry_def

definition secure_client :: "('w, 'v) env \<Rightarrow> 'w client \<Rightarrow> bool" where
  "secure_client env c \<longleftrightarrow> \<not> allowInsecureBaseURL c \<and> (\<forall>u. baseURL c = Some u \<longrightarrow> secure_url env u)"

lemma sdk_option_secure:
  "sdk_option env False opt \<Longrightarrow> secure_client env c \<Longrightarrow> secure_client env (opt c)"
  by (induction rule: sdk_option.induct)
    (auto simp: secure_client_def option_defs isInsecureBaseURL_def split: option.splits)

lemma fold_options_secure:
  "(\<And>opt. opt \<in> set opts \<Longrightarrow> sdk_option env False opt) \<Longrightarrow> secure_client env c \<Longrightarrow>
   secure_client env (fold (\<lambda>opt. opt) opts c)"
  by (induction opts arbitrary: c) (auto intro: sdk_option_secure)

lemma New_secure:
  assumes "\<And>opt. opt \<in> set opts \<Longrightarrow> sdk_option env False opt"
    and "\<And>u. url_Parse env defaultBaseURL = Some u \<Longrightarrow> Scheme u = ''https''"
  shows "secure_client env (New env stdDo opts)"
proof -
  let ?c = "\<lparr>http_Do = stdDo, SetAuth = Some (\<lambda>req w. (Inr req, w)), baseURL = url_Parse env defaultBaseURL,
     retry = \<lparr>maxAttempts = 0, baseDelay = 0, maxDelay = 0\<rparr>, Wait = None, userAgent = [],
     unsafeRetries = False, allowInsecureBaseURL = False, optErr = None, onReq = None, onResp = None\<rparr>"
  have c: "secure_client env ?c" using assms(2) by (auto simp: secure_client_def secure_url_def)
  from fold_options_secure [OF assms(1) this]
  have "\<not> allowInsecureBaseURL (fold (\<lambda>opt. opt) opts ?c)" by (simp add: secure_client_def)
  then have "New env stdDo opts = fold (\<lambda>opt. opt) opts ?c" by (simp add: New_def Let_def)
  with fold_options_secure [OF assms(1) c] show ?thesis by simp
qed

definition policy_ok :: "retry_policy \<Rightarrow> bool" where
  "policy_ok rp \<longleftrightarrow> in_int64 (baseDelay rp) \<and> in_int64 (maxDelay rp) \<and> 0 \<le> baseDelay rp \<and> 0 \<le> maxDelay rp
     \<and> (1 < maxAttempts rp \<longrightarrow> 0 < baseDelay rp \<and> 0 < maxDelay rp)"

lemma with_retry_policy_ok:
  "in_int64 b \<Longrightarrow> in_int64 m \<Longrightarrow> policy_ok rp \<Longrightarrow> policy_ok (with_retry_policy n b m rp)"
  by (auto simp: policy_ok_def with_retry_policy_def defaultRetry_def ns_per_s_def int64_bounds)

section \<open>Properties\<close>

text \<open>C20: a client built by \<open>New\<close> from any of the package's options, in any order and number, but
  without \<open>WithInsecureBaseURL(true)\<close>, never sends a request in clear text to a remote host: every
  exchange of every \<open>Do\<close> goes to a URL that is https, has no scheme (which no transport accepts) or names
  a loopback host. The default base URL is assumed to parse as https, the configured one not to be opaque, and the
  request to name no host of its own; there is no request hook, and the authorizer only sets headers.\<close>
theorem New_client_never_sends_in_clear:
  assumes "\<And>opt. opt \<in> set opts \<Longrightarrow> sdk_option env False opt"
    and "\<And>u. url_Parse env defaultBaseURL = Some u \<Longrightarrow> Scheme u = ''https''"
    and "c = New env stdDo opts"
    and "observed env c sent" and "onReq c = None" and "header_authorizer c"
    and "\<And>base. baseURL c = Some base \<Longrightarrow> Opaque base = []"
    and "\<And>ref. url_Parse env (url_String env (rURL req)) = Some ref \<Longrightarrow> Host ref = [] \<and> User ref = None \<and> Opaque ref = []"
    and "Do env sdkUA c (Some req) v codes w = (result, w')"
  shows "\<exists>log. sent w' = sent w @ log \<and> (\<forall>(R, r) \<in> set log. secure_url env (rURL R))"
proof (cases "baseURL c")
  case None
  with assms(9) have "w' = w" by (auto simp: Do_def split: option.splits)
  then show ?thesis by simp
next
  case (Some base)
  have "secure_client env c" unfolding assms(3) using assms(1,2) by (rule New_secure)
  with Some have b: "secure_url env base" by (simp add: secure_client_def)
  have "secure_url env (rURL R)" if "Scheme (rURL R) = Scheme base" "Host (rURL R) = Host base" for R
  proof -
    have "Hostname (rURL R) = Hostname base" using that(2) by (simp only: Hostname_def)
    with b that(1) show ?thesis by (simp add: secure_url_def)
  qed
  with Do_base_host [OF assms(4-6,9) Some assms(7) [OF Some] assms(8)] show ?thesis by blast
qed

definition demo_net :: "((http_request \<times> (string + http_response)) list, unit) env" where
  "demo_net = demo_env\<lparr>url_Parse := \<lambda>s. Some (if s = defaultBaseURL then demo_url ''https'' ''api.monobank.ua'' []
                                              else demo_url [] [] s)\<rparr>"

definition demo_built :: "(http_request \<times> (string + http_response)) list client" where
  "demo_built = New demo_net (http_Do demo_client) [WithRetry 4 0 0, WithInsecureBaseURL False]"

lemma demo_built_eq: "demo_built = demo_client\<lparr>SetAuth := Some (\<lambda>req w. (Inr req, w))\<rparr>"
  by (simp add: demo_built_def New_def Let_def demo_net_def demo_client_def WithRetry_def with_retry_policy_def
      WithInsecureBaseURL_def defaultRetry_def ns_per_s_def)

theorem New_client_never_sends_in_clear_witness:
  "list_all (\<lambda>(R, r). secure_url demo_net (rURL R))
     (snd (Do demo_net ''sdk'' demo_built (Some (demo_http_request ''GET'')) TJSON [] []))"
proof -
  obtain result w' where d: "Do demo_net ''sdk'' demo_built (Some (demo_http_request ''GET'')) TJSON [] [] = (result, w')"
    by fastforce
  have h: "\<exists>h. req = req\<lparr>rHeader := h\<rparr> \<and> h k = rHeader req k" for req :: http_request and k
    by (rule exI [of _ "rHeader req"]) simp
  have "observed demo_net demo_built (\<lambda>w. w)" "onReq demo_built = None" "header_authorizer demo_built"
    by (auto simp: demo_built_eq observed_def header_authorizer_def demo_net_def demo_defs Let_def h)
  note o = this
  have opts: "sdk_option demo_net False opt" if "opt \<in> set [WithRetry 4 0 0, WithInsecureBaseURL False]" for opt
    using that by (auto intro!: sdk_option.intros simp: int64_bounds)
  have "\<exists>log. w' = [] @ log \<and> (\<forall>(R, r) \<in> set log. secure_url demo_net (rURL R))"
    by (rule New_client_never_sends_in_clear [OF opts _ demo_built_def o _ _ d])
      (auto simp: demo_net_def demo_built_eq demo_defs defaultBaseURL_def split: if_splits)
  with d show ?thesis by (auto simp: list_all_iff)
qed

text \<open>Whatever \<open>WithRetry\<close> is given, any number of times, the policy of a client built by \<open>New\<close> stays
  well-formed: delays within \<open>int64\<close>, not negative, and positive as soon as there is a retry at all
  (so the backoff is never zero and always capped).\<close>
theorem New_retry_policy_ok:
  assumes "\<And>opt. opt \<in> set opts \<Longrightarrow> sdk_option env allow opt"
  shows "policy_ok (retry (New env stdDo opts))"
proof -
  have "policy_ok (retry (fold (\<lambda>opt. opt) opts c))" if "policy_ok (retry c)" for c
    using assms that
  proof (induction opts arbitrary: c)
    case (Cons opt opts)
    have "sdk_option env allow opt" using Cons.prems(1) by simp
    then have "policy_ok (retry (opt c))"
      by cases (use Cons.prems(2) in \<open>auto simp: option_defs with_retry_policy_ok split: option.split\<close>)
    with Cons show ?case by simp
  qed simp
  then show ?thesis by (simp add: New_def Let_def policy_ok_def int64_bounds)
qed

theorem New_retry_policy_ok_witness: "policy_ok (retry (New demo_net (http_Do demo_client) [WithRetry (-1) 5 (-7)]))"
  by (rule New_retry_policy_ok [where env = demo_net and allow = False])
    (auto intro!: sdk_option.intros simp: int64_bounds)

text \<open>What the documentation of the options says and the code does not do. A failed \<open>SetBaseURL\<close> is not
  repaired by a later good one; and with contradictory \<open>WithInsecureBaseURL\<close> options their position
  relative to \<open>WithBaseURL\<close> decides.\<close>

lemma SetBaseURL_failure_is_sticky:
  assumes "url_Parse env bad = None" and "optErr c = None"
  shows "fst (fst (Do env sdkUA (SetBaseURL env good (SetBaseURL env bad c)) req v codes w)) = Some (InvalidURL bad)"
  using assms by (simp add: SetBaseURL_def Do_def split: option.split)

lemma option_order_matters:
  assumes "isInsecureBaseURL env uri"
  shows "optErr (New env d [WithInsecureBaseURL True, WithBaseURL env uri, WithInsecureBaseURL False]) = None"
    and "optErr (New env d [WithBaseURL env uri, WithInsecureBaseURL True, WithInsecureBaseURL False])
      = Some (InsecureBaseURL uri)"
  using assms
  by (auto simp: New_def Let_def WithInsecureBaseURL_def WithBaseURL_def SetBaseURL_def isInsecureBaseURL_def
      split: option.splits)

end
