(* ===== verification/Bank_Transaction.thy ===== *)
theory Bank_Transaction
  imports Money
begin

text \<open>
  Statement rows: \<open>Transaction\<close> of \<open>bank/data.go\<close>. A row decoded by \<open>encoding/json\<close> is a \<open>raw\<close>
  transaction, whose amounts carry no currency (\<open>money.Money\<close> decodes from a bare number);
  \<open>UnmarshalJSON\<close> then attaches one. \<open>Time\<close> is a moment in nanoseconds, always a whole second.
\<close>

record transaction =
  ID :: string
  Time :: int
  Description :: string
  MCC :: int
  OriginalMCC :: int
  Hold :: bool
  Amount :: money
  OperationAmount :: money
  Currency :: currency_code
  CommissionRate :: money
  CashbackAmount :: money
  Balance :: money
  Comment :: string
  ReceiptID :: string
  InvoiceID :: string
  EDRPOU :: string
  IBAN :: string
  CounterName :: string

definition set_code :: "currency_code \<Rightarrow> money \<Rightarrow> money" where
  "set_code c m = m\<lparr>Code := c\<rparr>"

definition Transaction_UnmarshalJSON :: "(string \<Rightarrow> string + transaction) \<Rightarrow> string \<Rightarrow> string + transaction" where
  \<comment> \<open>the first argument is \<open>json.Unmarshal\<close> into the struct without its methods\<close>
  "Transaction_UnmarshalJSON unmarshal data =
     (case unmarshal data of
        Inl e \<Rightarrow> Inl e
      | Inr r \<Rightarrow>
          let c = Currency r
          in Inr (r\<lparr>Amount := set_code c (Amount r), OperationAmount := set_code c (OperationAmount r),
                    CommissionRate := set_code c (CommissionRate r),
                    CashbackAmount := set_code c (CashbackAmount r), Balance := set_code c (Balance r)\<rparr>))"

definition second :: "transaction \<Rightarrow> int" where
  "second t = Unix (Time t)"

definition whole_second :: "transaction \<Rightarrow> bool" where
  \<comment> \<open>times are decoded from Unix seconds (\<open>epoch.Seconds\<close>)\<close>
  "whole_second t \<longleftrightarrow> Time t = at_s (second t)"

definition demo_row :: "string \<Rightarrow> int \<Rightarrow> transaction" where
  "demo_row i s = \<lparr>ID = i, Time = at_s s, Description = [], MCC = 0, OriginalMCC = 0, Hold = False,
     Amount = Money_New 0 UAH, OperationAmount = Money_New 0 UAH, Currency = UAH,
     CommissionRate = Money_New 0 UAH, CashbackAmount = Money_New 0 UAH, Balance = Money_New 0 UAH,
     Comment = [], ReceiptID = [], InvoiceID = [], EDRPOU = [], IBAN = [], CounterName = []\<rparr>"

lemma demo_row [simp]: "ID (demo_row i s) = i" "Time (demo_row i s) = at_s s" "second (demo_row i s) = s"
  "whole_second (demo_row i s)"
  by (simp_all add: demo_row_def second_def whole_second_def)

text \<open>Every amount of a decoded row carries the same currency, also \<open>Amount\<close> and \<open>Balance\<close>, which the
  struct documents as amounts in the currency of the account, and \<open>OperationAmount\<close>, documented as
  an amount in the currency of the transaction.\<close>

lemma Transaction_UnmarshalJSON_one_currency:
  "Transaction_UnmarshalJSON um data = Inr t \<Longrightarrow>
   Code (Amount t) = Currency t \<and> Code (OperationAmount t) = Currency t \<and> Code (Balance t) = Currency t"
  by (auto simp: Transaction_UnmarshalJSON_def set_code_def Let_def split: sum.splits)

end
