(* ===== verification/Statement_Paging.thy ===== *)
theory Statement_Paging
  imports Bank_Transaction "HOL-Library.Multiset"
begin

text \<open>
  Statement windows: \<open>bank.DrainWindow\<close> (\<open>bank/statement.go\<close>), which works around the bank's limit of
  500 rows per response, and the \<open>TransactionsRange\<close> functions of the personal and corporate
  clients (\<open>personal/client.go\<close>, \<open>personal/iter.go\<close>, \<open>corporate/client_data.go\<close>,
  \<open>corporate/iter.go\<close>), which cut a range into 31-day windows.

  The fetcher and the consumer act on a world \<open>'w\<close>. Times are nanoseconds, as unbounded integers
  (\<open>time.Time\<close> does not wrap within the years a statement can have). The loops need not end for an
  arbitrary fetcher, so they are partial functions into \<open>option\<close>: \<open>None\<close> is a loop that never ends.

  The theorems are about the bank as the comments of \<open>statement.go\<close> document it (\<open>server\<close>): newest
  first, at most 500 rows, both ends of the window included, read at whole seconds.
\<close>

section \<open>Definitions\<close>

definition StatementMaxRows :: nat where
  "StatementMaxRows = 500"

definition MaxStatementWindow :: int where
  "MaxStatementWindow = 31 * 24 * 3600 * ns_per_s"

partial_function (option) drain_loop ::
  "(int \<Rightarrow> int \<Rightarrow> 'w \<Rightarrow> (string + transaction list) \<times> 'w) \<Rightarrow> (transaction \<Rightarrow> 'w \<Rightarrow> bool \<times> 'w) \<Rightarrow> int \<Rightarrow>
   int \<Rightarrow> string set \<Rightarrow> int \<Rightarrow> 'w \<Rightarrow> ((bool \<times> string option) \<times> 'w) option" where
  "drain_loop fetch yield from cursorTo seen boundarySecond w =
     (case fetch from cursorTo w of
        (Inl e, w1) \<Rightarrow> Some ((True, Some e), w1)
      | (Inr chunk, w1) \<Rightarrow>
          if chunk = [] then Some ((True, None), w1)
          else case emit ID seen yield chunk 0 w1 of (cont, newly, w2) \<Rightarrow>
                if \<not> cont then Some ((False, None), w2)
                else if length chunk < StatementMaxRows then Some ((True, None), w2)
                else if newly = 0 then Some ((True, None), w2)
                else
                  let oldest = Time (last chunk);
                      seen1 = (if oldest \<noteq> boundarySecond then {} else seen)
                  in drain_loop fetch yield from oldest
                       (seen1 \<union> ID ` set (filter (\<lambda>tx. Time tx = oldest) chunk)) oldest w2)"

definition DrainWindow ::
  "int \<Rightarrow> int \<Rightarrow> (int \<Rightarrow> int \<Rightarrow> 'w \<Rightarrow> (string + transaction list) \<times> 'w) \<Rightarrow> (transaction \<Rightarrow> 'w \<Rightarrow> bool \<times> 'w) \<Rightarrow>
   'w \<Rightarrow> ((bool \<times> string option) \<times> 'w) option" where
  "DrainWindow from to fetch yield w = drain_loop fetch yield from to {} zero_time w"

section \<open>The bank\<close>

definition server :: "transaction list \<Rightarrow> int \<Rightarrow> int \<Rightarrow> 'w \<Rightarrow> (string + transaction list) \<times> 'w" where
  \<comment> \<open>the answer to \<open>/personal/statement/{account}/{from}/{to}\<close>, whose bounds \<open>Transactions\<close> sends as
      Unix seconds\<close>
  "server rows from to w =
     (Inr (take StatementMaxRows (filter (\<lambda>t. Unix from \<le> second t \<and> second t \<le> Unix to) rows)), w)"

definition statement :: "transaction list \<Rightarrow> bool" where
  \<comment> \<open>rows newest first, with distinct ids and whole seconds\<close>
  "statement rows \<longleftrightarrow> sorted_wrt (\<lambda>a b. second b \<le> second a) rows \<and> distinct (map ID rows)
     \<and> (\<forall>t \<in> set rows. whole_second t)"

definition sparse :: "transaction list \<Rightarrow> bool" where
  \<comment> \<open>no second holds a full response\<close>
  "sparse rows \<longleftrightarrow> (\<forall>s. length (filter (\<lambda>t. second t = s) rows) < StatementMaxRows)"

definition window :: "transaction list \<Rightarrow> int \<Rightarrow> int \<Rightarrow> transaction list" where
  "window rows lo hi = filter (\<lambda>t. lo \<le> second t \<and> second t \<le> hi) rows"

section \<open>Lemmas\<close>

lemma statement_filter: "statement rows \<Longrightarrow> statement (filter P rows)"
  by (auto simp: statement_def sorted_wrt_filter distinct_map_filter)

lemma sparse_filter: "sparse rows \<Longrightarrow> sparse (filter P rows)"
  unfolding sparse_def filter_filter
proof
  fix s
  assume "\<forall>s. length (filter (\<lambda>t. second t = s) rows) < StatementMaxRows"
  then have "length (filter (\<lambda>t. second t = s) rows) < StatementMaxRows" by blast
  moreover have "length (filter (\<lambda>x. P x \<and> second x = s) rows) \<le> length (filter (\<lambda>t. second t = s) rows)"
    by (induction rows) auto
  ultimately show "length (filter (\<lambda>x. P x \<and> second x = s) rows) < StatementMaxRows"
    by (rule le_less_trans [rotated])
qed

lemma filter_last_split:
  \<comment> \<open>cutting a descending list inside: what is at most the last kept key\<close>
  assumes "sorted_wrt (\<lambda>a b. f b \<le> (f a :: int)) (C @ E)" and "C \<noteq> []"
  shows "filter (\<lambda>x. f x \<le> f (last C)) (C @ E) = filter (\<lambda>x. f x = f (last C)) C @ E"
proof -
  have C: "f (last C) \<le> f x" if "x \<in> set C" for x
    using assms that by (induction C) (auto simp: sorted_wrt_append)
  have E: "f x \<le> f (last C)" if "x \<in> set E" for x
    using assms that last_in_set by (fastforce simp: sorted_wrt_append)
  have "filter (\<lambda>x. f x \<le> f (last C)) C = filter (\<lambda>x. f x = f (last C)) C"
    by (rule filter_cong) (auto dest: C)
  moreover have "filter (\<lambda>x. f x \<le> f (last C)) E = E" using E by (simp add: filter_id_conv)
  ultimately show ?thesis by simp
qed

lemma next_page:
  \<comment> \<open>after a full page \<open>C\<close> of a sparse statement, the boundary second is older, and what is left is the
      rows of that second in \<open>C\<close> and then the rest\<close>
  assumes "statement W" and "sparse W" and "filter (\<lambda>x. second x \<le> s) W = C @ E"
    and "length C = StatementMaxRows"
  defines "t \<equiv> last C"
  defines "A' \<equiv> filter (\<lambda>x. second x = second t) C"
  shows "filter (\<lambda>x. second x \<le> Unix (Time t)) W = A' @ E" and "Time t = at_s (second t)"
    and "length (A' @ E) < length (C @ E)" and "second t \<noteq> s" and "filter (\<lambda>x. Time x = Time t) C = A'"
    and "second t \<le> s"
proof -
  have ne: "C \<noteq> []" using assms(4) by (auto simp: StatementMaxRows_def)
  have st: "statement (C @ E)" unfolding assms(3) [symmetric] by (rule statement_filter [OF assms(1)])
  have sp: "sparse (C @ E)" unfolding assms(3) [symmetric] by (rule sparse_filter [OF assms(2)])
  have tin: "t \<in> set (C @ E)" unfolding t_def using ne by simp
  then show ts: "Time t = at_s (second t)" using st by (simp add: statement_def whole_second_def)
  have srt: "sorted_wrt (\<lambda>a b. second b \<le> second a) (C @ E)" using st by (simp add: statement_def)
  show le: "second t \<le> s"
    using tin unfolding assms(3) [symmetric] by simp
  have "filter (\<lambda>x. second x \<le> second t) W = filter (\<lambda>x. second x \<le> second t) (C @ E)"
    unfolding assms(3) [symmetric] using le by (auto simp: filter_filter intro: filter_cong)
  also have "\<dots> = A' @ E"
    unfolding A'_def t_def by (rule filter_last_split [OF srt ne])
  finally show W': "filter (\<lambda>x. second x \<le> Unix (Time t)) W = A' @ E" using ts by simp
  have "length A' \<le> length (filter (\<lambda>x. second x = second t) (C @ E))" by (simp add: A'_def)
  also have "\<dots> < StatementMaxRows" using sp by (simp add: sparse_def)
  finally show smaller: "length (A' @ E) < length (C @ E)" using assms(4) by simp
  show "second t \<noteq> s" using smaller W' assms(3) ts by auto
  show "filter (\<lambda>x. Time x = Time t) C = A'"
    unfolding A'_def
  proof (rule filter_cong [OF refl])
    fix x assume "x \<in> set C"
    then have "Time x = at_s (second x)" using st by (auto simp: statement_def whole_second_def)
    with ts show "(Time x = Time t) = (second x = second t)" by simp
  qed
qed

lemma drain_loop_whole_window:
  assumes "statement W" and "sparse W"
    and "\<And>to. Unix to \<le> hi \<Longrightarrow> filter (\<lambda>t. Unix from \<le> second t \<and> second t \<le> Unix to) rows = filter (\<lambda>t. second t \<le> Unix to) W"
  shows "filter (\<lambda>t. second t \<le> Unix cursorTo) W = A @ B \<Longrightarrow> Unix cursorTo \<le> hi \<Longrightarrow> seen = ID ` set A \<Longrightarrow>
    (\<forall>t \<in> set A. second t = Unix cursorTo) \<Longrightarrow> boundary = at_s (Unix cursorTo) \<or> seen = {} \<Longrightarrow>
    drain_loop (server rows) yield from cursorTo seen boundary w = Some (case for_each yield B w of (c, w1) \<Rightarrow> ((c, None), w1))"
proof (induction "length (filter (\<lambda>t. second t \<le> Unix cursorTo) W)" arbitrary: cursorTo A B seen boundary w rule: less_induct)
  case less
  let ?N = "StatementMaxRows"
  define C where "C = take ?N (A @ B)"
  define E where "E = drop ?N (A @ B)"
  have CE: "A @ B = C @ E" unfolding C_def E_def by (rule append_take_drop_id [symmetric])
  have st: "statement (A @ B)" unfolding less.prems(1) [symmetric] by (rule statement_filter [OF assms(1)])
  have sp: "sparse (A @ B)" unfolding less.prems(1) [symmetric] by (rule sparse_filter [OF assms(2)])
  have fetch: "server rows from cursorTo w = (Inr C, w)" for w :: 'a
    by (simp add: server_def assms(3) less.prems(1,2) C_def)
  have lenA: "length A < ?N"
  proof -
    have "length A = length (filter (\<lambda>t. second t = Unix cursorTo) A)"
      using less.prems(4) by (simp add: filter_id_conv)
    also have "\<dots> \<le> length (filter (\<lambda>t. second t = Unix cursorTo) (A @ B))" by simp
    also have "\<dots> < ?N" using sp by (simp add: sparse_def)
    finally show ?thesis .
  qed
  define B1 where "B1 = take (?N - length A) B"
  have C: "C = A @ B1" unfolding C_def B1_def using lenA by simp
  have B: "B = B1 @ E" unfolding B1_def E_def using lenA by simp
  have dist: "ID ` set B \<inter> seen = {}"
    using st less.prems(3) by (auto simp: statement_def)
  then have dist1: "ID ` set B1 \<inter> seen = {}" unfolding B by auto
  obtain m where m: "emit ID seen yield C 0 w = (fst (for_each yield B1 w), m, snd (for_each yield B1 w))"
    "fst (for_each yield B1 w) \<longrightarrow> m = length B1"
  proof -
    have "emit ID seen yield C 0 w = emit ID seen yield B1 0 w"
      unfolding C by (rule emit_seen) (simp add: less.prems(3))
    with emit_for_each [OF dist1, of yield 0 w] that show thesis by auto
  qed
  show ?case
  proof (cases "C = []")
    case True
    then have "B = []" unfolding C_def by (auto simp: StatementMaxRows_def)
    with True show ?thesis by (simp add: drain_loop.simps fetch)
  next
    case ne: False
    show ?thesis
    proof (cases "fst (for_each yield B1 w)")
      case False
      then have "for_each yield B w = (False, snd (for_each yield B1 w))"
        unfolding B by (cases "for_each yield B1 w") (simp add: for_each_append)
      with False m(1) ne show ?thesis by (simp add: drain_loop.simps fetch)
    next
      case True
      define w2 where "w2 = snd (for_each yield B1 w)"
      have f1: "for_each yield B1 w = (True, w2)" using True unfolding w2_def by (metis prod.collapse)
      have fB: "for_each yield B w = for_each yield E w2" unfolding B by (simp add: for_each_append f1)
      have em: "emit ID seen yield C 0 w = (True, length B1, w2)" using m f1 by simp
      show ?thesis
      proof (cases "length C < ?N")
        case short: True
        then have "E = []" unfolding C_def E_def by (simp add: min_def split: if_splits)
        with short em ne fB show ?thesis by (simp add: drain_loop.simps fetch)
      next
        case False
        then have full: "length C = ?N" unfolding C_def by simp
        with C lenA have nz: "length B1 \<noteq> 0" by auto
        define t where "t = last C"
        define A' where "A' = filter (\<lambda>x. second x = second t) C"
        note np = next_page [OF assms(1,2) less.prems(1) [unfolded CE] full, folded t_def, folded A'_def]
        have smaller: "length (filter (\<lambda>x. second x \<le> Unix (Time t)) W) < length (filter (\<lambda>x. second x \<le> Unix cursorTo) W)"
          unfolding np(1) less.prems(1) CE by (rule np(3))
        have seen': "(if Time t \<noteq> boundary then {} else seen) \<union> ID ` set (filter (\<lambda>x. Time x = Time t) C) = ID ` set A'"
          using less.prems(5) np(2,4) unfolding np(5) by auto
        have "drain_loop (server rows) yield from (Time t) (ID ` set A') (Time t) w2
            = Some (case for_each yield E w2 of (c, w1) \<Rightarrow> ((c, None), w1))"
          by (rule less.hyps [OF smaller np(1) _ refl]) (use np(2,6) less.prems(2) in \<open>auto simp: A'_def\<close>)
        then show ?thesis
          using em ne full nz fB seen' by (simp add: drain_loop.simps [of _ _ _ cursorTo] fetch Let_def t_def)
      qed
    qed
  qed
qed

lemma DrainWindow_for_each:
  assumes "statement rows" and "sparse (window rows (Unix from) (Unix to))"
  shows "DrainWindow from to (server rows) yield w =
    Some (case for_each yield (window rows (Unix from) (Unix to)) w of (c, w1) \<Rightarrow> ((c, None), w1))"
  unfolding DrainWindow_def
  by (rule drain_loop_whole_window [where W = "window rows (Unix from) (Unix to)" and A = "[]" and hi = "Unix to"])
    (use assms in \<open>auto simp: window_def statement_filter filter_filter intro!: filter_cong\<close>)

section \<open>Ranges\<close>

text \<open>The loops of \<open>TransactionsRange\<close> (collecting) and \<open>TransactionsRangeIter\<close> (yielding); \<open>ctxErr\<close> is
  \<open>ctx.Err()\<close>. In the iterator the consumer is handed a row or an error.\<close>

partial_function (option) range_loop ::
  "(int \<Rightarrow> int \<Rightarrow> 'w \<Rightarrow> (string + transaction list) \<times> 'w) \<Rightarrow> int \<Rightarrow> int \<Rightarrow> transaction list \<Rightarrow> 'w \<Rightarrow>
   ((string + transaction list) \<times> 'w) option" where
  "range_loop fetch cursor to all w =
     (if to < cursor then Some (Inr all, w)
      else
        let end0 = cursor + MaxStatementWindow;
            stop = (if to < end0 then to else end0)
        in Option.bind
             (DrainWindow cursor stop
                (\<lambda>f t (acc, w). case fetch f t w of (r, w1) \<Rightarrow> (r, (acc, w1)))
                (\<lambda>tx (acc, w). (True, (acc @ [tx], w))) (all, w))
             (\<lambda>((cont, err), (all1, w1)).
                if err \<noteq> None then Some (Inl (the err), w1)
                else
                  let next = stop + ns_per_s
                  in if \<not> cursor < next then Some (Inr all1, w1)
                     else range_loop fetch next to all1 w1))"

definition TransactionsRange ::
  "(int \<Rightarrow> int \<Rightarrow> 'w \<Rightarrow> (string + transaction list) \<times> 'w) \<Rightarrow> int \<Rightarrow> int \<Rightarrow> 'w \<Rightarrow>
   ((string + transaction list) \<times> 'w) option" where
  "TransactionsRange fetch from to w =
     (if to = zero_time \<or> \<not> from < to then Some (Inr [], w) else range_loop fetch from to [] w)"

partial_function (option) range_iter ::
  "('w \<Rightarrow> string option) \<Rightarrow> (int \<Rightarrow> int \<Rightarrow> 'w \<Rightarrow> (string + transaction list) \<times> 'w) \<Rightarrow>
   (string + transaction \<Rightarrow> 'w \<Rightarrow> bool \<times> 'w) \<Rightarrow> int \<Rightarrow> int \<Rightarrow> 'w \<Rightarrow> 'w option" where
  "range_iter ctxErr fetch yield cursor to w =
     (if to < cursor then Some w
      else if ctxErr w \<noteq> None then Some (snd (yield (Inl (the (ctxErr w))) w))
      else
        let end0 = cursor + MaxStatementWindow;
            stop = (if to < end0 then to else end0)
        in Option.bind (DrainWindow cursor stop fetch (\<lambda>tx. yield (Inr tx)) w)
             (\<lambda>((cont, err), w1).
                if err \<noteq> None then Some (snd (yield (Inl (the err)) w1))
                else if \<not> cont then Some w1
                else
                  let next = stop + ns_per_s
                  in if \<not> cursor < next then Some w1 else range_iter ctxErr fetch yield next to w1))"

definition TransactionsRangeIter ::
  "('w \<Rightarrow> string option) \<Rightarrow> (int \<Rightarrow> int \<Rightarrow> 'w \<Rightarrow> (string + transaction list) \<times> 'w) \<Rightarrow>
   (string + transaction \<Rightarrow> 'w \<Rightarrow> bool \<times> 'w) \<Rightarrow> int \<Rightarrow> int \<Rightarrow> 'w \<Rightarrow> 'w option" where
  "TransactionsRangeIter ctxErr fetch yield from to w =
     (if to = zero_time \<or> \<not> from < to then Some w else range_iter ctxErr fetch yield from to w)"

text \<open>What every request of a range keeps, the range keeps. The first second asked for always lies in the range.\<close>

lemma drain_loop_invariant:
  "drain_loop fetch yield from c seen b w = Some res \<Longrightarrow>
   (\<And>t w. J w \<Longrightarrow> J (snd (fetch from t w))) \<Longrightarrow> (\<And>x w. J w \<Longrightarrow> J (snd (yield x w))) \<Longrightarrow> J w \<Longrightarrow> J (snd res)"
proof (induction rule: drain_loop.raw_induct [rotated 1, consumes 1])
  case (1 loop fetch yield fr c seen b w res)
  obtain r w1 where f: "fetch fr c w = (r, w1)" by fastforce
  have w1: "J w1" using "1.prems"(1) [OF "1.prems"(3), of c] f by simp
  show ?case
  proof (cases r)
    case (Inr chunk)
    obtain cont m w2 where e: "emit ID seen yield chunk 0 w1 = (cont, m, w2)" by (metis prod.collapse)
    have w2: "J w2" using emit_invariant [OF "1.prems"(2) e w1] .
    have loop: "J (snd res)" if "loop fetch yield fr o' seen' b' w2 = Some res" for o' seen' b'
      using that by (rule "1.IH") (use "1.prems" w2 in blast)+
    show ?thesis using "1.hyps" f e Inr w1 w2 loop by (auto simp: Let_def split: if_splits)
  qed (use "1.hyps" f w1 in auto)
qed

lemma range_loop_invariant:
  "range_loop fetch cursor to all w = Some res \<Longrightarrow>
   (\<And>f t w. cursor \<le> f \<Longrightarrow> f \<le> to \<Longrightarrow> I w \<Longrightarrow> I (snd (fetch f t w))) \<Longrightarrow> I w \<Longrightarrow> I (snd res)"
proof (induction rule: range_loop.raw_induct [rotated 1, consumes 1])
  case (1 loop fetch cursor to all w res)
  show ?case
  proof (cases "to < cursor")
    case False
    define stop where "stop = (if to < cursor + MaxStatementWindow then to else cursor + MaxStatementWindow)"
    let ?f = "\<lambda>f t (acc, w). case fetch f t w of (r, w1) \<Rightarrow> (r, (acc, w1))"
    let ?y = "\<lambda>tx (acc, w). (True, (acc @ [tx], w))"
    let ?d = "DrainWindow cursor stop ?f ?y (all, w)"
    from False "1.hyps" obtain cont err all1 w1 where d: "?d = Some ((cont, err), (all1, w1))"
      by (auto simp: Let_def stop_def bind_eq_Some_conv)
    have "(\<lambda>(acc, w). I w) (snd ((cont, err), (all1, w1)))"
    proof (rule drain_loop_invariant [OF d [unfolded DrainWindow_def]])
      show "(\<lambda>(acc, w). I w) (snd (?f cursor t u))" if "(\<lambda>(acc, w). I w) u" for t u
        using that "1.prems"(1) [of cursor "snd u" t] False by (cases u) (auto split: prod.split)
    qed (use "1.prems" in auto)
    then have w1: "I w1" by simp
    show ?thesis
    proof (cases "err = None \<and> cursor < stop + ns_per_s")
      case True
      have "loop fetch (stop + ns_per_s) to all1 w1 = Some res"
        using "1.hyps" False d True by (simp add: Let_def stop_def)
      from "1.IH" [OF this _ w1] True "1.prems"(1) show ?thesis by simp
    next
      case nt: False
      then show ?thesis using "1.hyps" False d w1 by (auto simp: Let_def stop_def split: if_splits)
    qed
  qed (use 1 in auto)
qed

lemma TransactionsRange_invariant:
  assumes "TransactionsRange fetch from to w = Some res" and "I w"
    and "\<And>f t w. from \<le> f \<Longrightarrow> f \<le> to \<Longrightarrow> I w \<Longrightarrow> I (snd (fetch f t w))"
  shows "I (snd res)"
proof (cases "to = zero_time \<or> \<not> from < to")
  case False
  with assms(1) have "range_loop fetch from to [] w = Some res" by (simp add: TransactionsRange_def)
  then show ?thesis using assms(3,2) by (rule range_loop_invariant)
qed (use assms in \<open>auto simp: TransactionsRange_def\<close>)
section \<open>Ranges over the bank\<close>

function windows :: "int \<Rightarrow> int \<Rightarrow> (int \<times> int) list" where
  \<comment> \<open>the windows a range is cut into, in seconds\<close>
  "windows lo hi = (if hi < lo then []
     else let e = min hi (lo + 2678400) in (lo, e) # windows (e + 1) hi)"
  by pat_completeness auto
termination by (relation "measure (\<lambda>(lo, hi). nat (hi + 1 - lo))") auto

declare windows.simps [simp del]

definition window_rows :: "transaction list \<Rightarrow> int \<Rightarrow> int \<Rightarrow> transaction list" where
  "window_rows rows lo hi = concat (map (\<lambda>(l, h). window rows l h) (windows lo hi))"

lemma window_rows_step:
  "lo \<le> hi \<Longrightarrow> window_rows rows lo hi =
    window rows lo (min hi (lo + 2678400)) @ window_rows rows (min hi (lo + 2678400) + 1) hi"
  unfolding window_rows_def by (subst windows.simps) (simp add: Let_def)

lemma window_rows_empty: "hi < lo \<Longrightarrow> window_rows rows lo hi = []"
  unfolding window_rows_def by (subst windows.simps) simp

lemma mset_window_rows: "mset (window_rows rows lo hi) = mset (window rows lo hi)"
proof (induction lo hi rule: windows.induct)
  case (1 lo hi)
  show ?case
  proof (cases "hi < lo")
    case True
    then have "window rows lo hi = []" by (auto simp: window_def filter_empty_conv)
    with True show ?thesis by (simp add: window_rows_empty)
  next
    case False
    define e where "e = min hi (lo + 2678400)"
    have e: "e \<le> hi" "lo \<le> e" using False by (auto simp: e_def)
    have "mset (window rows lo hi) = mset (window rows lo e) + mset (window rows (e + 1) hi)"
      unfolding window_def using e by (induction rows) auto
    moreover have "mset (window_rows rows (e + 1) hi) = mset (window rows (e + 1) hi)"
      using 1 False by (simp add: e_def)
    ultimately show ?thesis
      using False window_rows_step [of lo hi rows] by (simp add: e_def)
  qed
qed

lemma sparse_window: "sparse (window rows a b) \<Longrightarrow> a \<le> c \<Longrightarrow> d \<le> b \<Longrightarrow> sparse (window rows c d)"
proof -
  assume "sparse (window rows a b)" "a \<le> c" "d \<le> b"
  then have "window rows c d = filter (\<lambda>t. c \<le> second t \<and> second t \<le> d) (window rows a b)"
    by (auto simp: window_def filter_filter intro!: filter_cong)
  with \<open>sparse (window rows a b)\<close> show ?thesis by (simp add: sparse_filter)
qed

lemma Unix_shift: "Unix (t + n * ns_per_s) = Unix t + n" "(t + n * ns_per_s) mod ns_per_s = t mod ns_per_s"
  by (simp_all add: Unix_def ns_per_s_def)

lemma Unix_le_iff: "a mod ns_per_s \<le> b mod ns_per_s \<Longrightarrow> a \<le> b \<longleftrightarrow> Unix a \<le> Unix b"
proof -
  assume m: "a mod ns_per_s \<le> b mod ns_per_s"
  have "a = Unix a * ns_per_s + a mod ns_per_s" "b = Unix b * ns_per_s + b mod ns_per_s"
    unfolding Unix_def by simp_all
  moreover have "0 \<le> a mod ns_per_s" "b mod ns_per_s < ns_per_s" by (simp_all add: ns_per_s_def)
  ultimately show ?thesis using m unfolding ns_per_s_def by linarith
qed

text \<open>One step of either loop: the next window in seconds, and the cursor after it.\<close>

lemma window_step:
  assumes "cursor mod ns_per_s \<le> to mod ns_per_s" and "cursor \<le> to"
  defines "stop \<equiv> (if to < cursor + MaxStatementWindow then to else cursor + MaxStatementWindow)"
  shows "Unix cursor \<le> Unix to" and "Unix stop = min (Unix to) (Unix cursor + 2678400)"
    and "to < stop + ns_per_s \<and> Unix stop = Unix to \<or>
      (stop + ns_per_s) mod ns_per_s \<le> to mod ns_per_s \<and> Unix (stop + ns_per_s) = Unix stop + 1"
    and "cursor < stop + ns_per_s"
proof -
  have w: "cursor + MaxStatementWindow = cursor + 2678400 * ns_per_s" by (simp add: MaxStatementWindow_def)
  show "Unix cursor \<le> Unix to" using assms(1,2) Unix_le_iff by blast
  have m: "(cursor + MaxStatementWindow) mod ns_per_s \<le> to mod ns_per_s"
    unfolding w Unix_shift using assms(1) .
  have u: "Unix (cursor + MaxStatementWindow) = Unix cursor + 2678400" unfolding w Unix_shift ..
  have le: "to < cursor + MaxStatementWindow \<Longrightarrow> Unix to \<le> Unix (cursor + MaxStatementWindow)"
    by (simp add: Unix_def ns_per_s_def zdiv_mono1)
  show s: "Unix stop = min (Unix to) (Unix cursor + 2678400)"
    unfolding stop_def using le u Unix_le_iff [OF m] by (auto simp: min_def)
  have n: "Unix (stop + ns_per_s) = Unix stop + 1" "(stop + ns_per_s) mod ns_per_s = stop mod ns_per_s"
    using Unix_shift [of stop 1] by simp_all
  show "to < stop + ns_per_s \<and> Unix stop = Unix to \<or>
      (stop + ns_per_s) mod ns_per_s \<le> to mod ns_per_s \<and> Unix (stop + ns_per_s) = Unix stop + 1"
    using n m unfolding stop_def by (auto simp: ns_per_s_def)
  show "cursor < stop + ns_per_s"
    using assms(2) unfolding stop_def by (auto simp: ns_per_s_def MaxStatementWindow_def)
qed

lemma for_each_collect:
  "for_each (\<lambda>tx (acc, w). (True, (acc @ [tx], w))) xs (all, w) = (True, (all @ xs, w))"
  by (induction xs arbitrary: all) auto

lemma range_loop_server:
  "statement rows \<Longrightarrow> cursor mod ns_per_s \<le> to mod ns_per_s \<Longrightarrow> sparse (window rows (Unix cursor) (Unix to)) \<Longrightarrow>
   range_loop (server rows) cursor to all w = Some (Inr (all @ window_rows rows (Unix cursor) (Unix to)), w)"
proof (induction "nat (to + 1 - cursor)" arbitrary: cursor all rule: less_induct)
  case less
  show ?case
  proof (cases "to < cursor")
    case True
    then have "Unix to < Unix cursor" using Unix_le_iff [OF less.prems(2)] by auto
    with True show ?thesis by (subst range_loop.simps) (simp add: window_rows_empty)
  next
    case False
    define stop where "stop = (if to < cursor + MaxStatementWindow then to else cursor + MaxStatementWindow)"
    have le: "cursor \<le> to" using False by simp
    note ws = window_step [OF less.prems(2) le, folded stop_def]
    have sp: "sparse (window rows (Unix cursor) (Unix stop))"
      by (rule sparse_window [OF less.prems(3)]) (simp_all add: ws(2))
    have f: "(\<lambda>f t (acc, w). case server rows f t w of (r, w1) \<Rightarrow> (r, (acc, w1))) = server rows"
      by (auto simp: fun_eq_iff server_def)
    have d: "DrainWindow cursor stop (server rows) (\<lambda>tx (acc, w). (True, (acc @ [tx], w))) (all, w)
        = Some ((True, None), (all @ window rows (Unix cursor) (Unix stop), w))"
      by (simp add: DrainWindow_for_each [OF less.prems(1) sp] for_each_collect)
    have r: "range_loop (server rows) cursor to all w
        = range_loop (server rows) (stop + ns_per_s) to (all @ window rows (Unix cursor) (Unix stop)) w"
      using False ws(4) by (subst range_loop.simps) (simp add: f d stop_def [symmetric] Let_def)
    have wr: "window_rows rows (Unix cursor) (Unix to)
        = window rows (Unix cursor) (Unix stop) @ window_rows rows (Unix stop + 1) (Unix to)"
      using window_rows_step [OF ws(1)] by (simp add: ws(2))
    from ws(3) show ?thesis
    proof
      assume a: "to < stop + ns_per_s \<and> Unix stop = Unix to"
      then show ?thesis unfolding r wr by (subst range_loop.simps) (simp add: window_rows_empty)
    next
      assume b: "(stop + ns_per_s) mod ns_per_s \<le> to mod ns_per_s \<and> Unix (stop + ns_per_s) = Unix stop + 1"
      have sp': "sparse (window rows (Unix (stop + ns_per_s)) (Unix to))"
        by (rule sparse_window [OF less.prems(3)]) (use b ws(1,2) in auto)
      have "nat (to + 1 - (stop + ns_per_s)) < nat (to + 1 - cursor)" using ws(4) le by simp
      from less.hyps [OF this less.prems(1) _ sp'] b show ?thesis unfolding r wr by simp
    qed
  qed
qed

lemma range_iter_server:
  assumes "\<And>w. ctxErr w = None"
  shows "statement rows \<Longrightarrow> cursor mod ns_per_s \<le> to mod ns_per_s \<Longrightarrow> sparse (window rows (Unix cursor) (Unix to)) \<Longrightarrow>
   range_iter ctxErr (server rows) yield cursor to w =
     Some (snd (for_each (\<lambda>tx. yield (Inr tx)) (window_rows rows (Unix cursor) (Unix to)) w))"
proof (induction "nat (to + 1 - cursor)" arbitrary: cursor w rule: less_induct)
  case less
  let ?y = "\<lambda>tx. yield (Inr tx)"
  show ?case
  proof (cases "to < cursor")
    case True
    then have "Unix to < Unix cursor" using Unix_le_iff [OF less.prems(2)] by auto
    with True show ?thesis by (subst range_iter.simps) (simp add: window_rows_empty)
  next
    case False
    define stop where "stop = (if to < cursor + MaxStatementWindow then to else cursor + MaxStatementWindow)"
    have le: "cursor \<le> to" using False by simp
    note ws = window_step [OF less.prems(2) le, folded stop_def]
    have sp: "sparse (window rows (Unix cursor) (Unix stop))"
      by (rule sparse_window [OF less.prems(3)]) (simp_all add: ws(2))
    obtain c w1 where c: "for_each ?y (window rows (Unix cursor) (Unix stop)) w = (c, w1)" by fastforce
    have d: "DrainWindow cursor stop (server rows) ?y w = Some ((c, None), w1)"
      by (simp add: DrainWindow_for_each [OF less.prems(1) sp] c)
    have r: "range_iter ctxErr (server rows) yield cursor to w
        = (if \<not> c then Some w1 else range_iter ctxErr (server rows) yield (stop + ns_per_s) to w1)"
      using False ws(4) by (subst range_iter.simps) (simp add: assms d stop_def [symmetric] Let_def)
    have wr: "for_each ?y (window_rows rows (Unix cursor) (Unix to)) w
        = (if \<not> c then (False, w1) else for_each ?y (window_rows rows (Unix stop + 1) (Unix to)) w1)"
      using window_rows_step [OF ws(1)] c by (simp add: ws(2) for_each_append)
    from ws(3) show ?thesis
    proof
      assume a: "to < stop + ns_per_s \<and> Unix stop = Unix to"
      then show ?thesis unfolding r wr by (subst range_iter.simps) (simp add: window_rows_empty)
    next
      assume b: "(stop + ns_per_s) mod ns_per_s \<le> to mod ns_per_s \<and> Unix (stop + ns_per_s) = Unix stop + 1"
      have sp': "sparse (window rows (Unix (stop + ns_per_s)) (Unix to))"
        by (rule sparse_window [OF less.prems(3)]) (use b ws(1,2) in auto)
      have "nat (to + 1 - (stop + ns_per_s)) < nat (to + 1 - cursor)" using ws(4) le by simp
      from less.hyps [OF this less.prems(1) _ sp'] b show ?thesis unfolding r wr by simp
    qed
  qed
qed

section \<open>Properties\<close>

text \<open>C22: \<open>DrainWindow\<close> visits the whole window, in order, once. Against the documented bank, for any
  statement in which no second of the window holds 500 rows or more, and for any consumer, draining
  the window terminates and does exactly what looping over all its rows, newest first, would do:
  the same rows, each once, the same final state, stopping where the consumer stops. The window
  can hold any number of rows.\<close>
theorem DrainWindow_visits_whole_window:
  assumes "statement rows" and "sparse (window rows (Unix from) (Unix to))"
  shows "DrainWindow from to (server rows) yield w =
    Some (case for_each yield (filter (\<lambda>t. Unix from \<le> second t \<and> second t \<le> Unix to) rows) w of
      (cont, w1) \<Rightarrow> ((cont, None), w1))"
  using DrainWindow_for_each [OF assms] by (simp add: window_def)

definition demo_rows :: "transaction list" where
  "demo_rows = [demo_row ''c'' 2678405, demo_row ''b'' 20, demo_row ''a'' 10]"

lemma demo_rows: "statement demo_rows" "sparse (window demo_rows lo hi)"
  by (auto simp: demo_rows_def statement_def sparse_def window_def StatementMaxRows_def)

theorem DrainWindow_visits_whole_window_witness:
  "DrainWindow (at_s 10) (at_s 20) (server demo_rows) (\<lambda>t acc. (True, acc @ [ID t])) []
   = Some ((True, None), [''b'', ''a''])"
  using DrainWindow_visits_whole_window [OF demo_rows, of "at_s 10" "at_s 20" "\<lambda>t acc. (True, acc @ [ID t])" "[]"]
  by (simp add: demo_rows_def)

text \<open>\<open>TransactionsRange\<close> returns every row of the range exactly once. For a range of any length whose
  start has no larger sub-second part than its end (whole seconds, say), against the documented
  bank with fewer than 500 rows per second, it terminates without error and its result is a
  permutation of the rows whose second lies in the range.\<close>
theorem TransactionsRange_complete:
  assumes "statement rows" and "sparse (window rows (Unix from) (Unix to))"
    and "from < to" and "to \<noteq> zero_time" and "from mod ns_per_s \<le> to mod ns_per_s"
  shows "\<exists>all. TransactionsRange (server rows) from to w = Some (Inr all, w)
    \<and> mset all = mset (filter (\<lambda>t. Unix from \<le> second t \<and> second t \<le> Unix to) rows) \<and> distinct (map ID all)"
proof -
  let ?all = "window_rows rows (Unix from) (Unix to)"
  have "mset ?all = mset (filter (\<lambda>t. Unix from \<le> second t \<and> second t \<le> Unix to) rows)"
    by (simp add: mset_window_rows window_def)
  moreover have "distinct (map ID ?all)"
  proof -
    have "mset (map ID ?all) = mset (map ID (window rows (Unix from) (Unix to)))"
      using mset_window_rows [of rows] by simp
    moreover have "distinct (map ID (window rows (Unix from) (Unix to)))"
      using assms(1) by (simp add: statement_def window_def distinct_map_filter)
    ultimately show ?thesis by (metis mset_eq_imp_distinct_iff)
  qed
  ultimately show ?thesis
    using range_loop_server [OF assms(1,5,2), of "[]" w] assms(3,4) by (auto simp: TransactionsRange_def)
qed

theorem TransactionsRange_complete_witness:
  "\<exists>all. TransactionsRange (server demo_rows) (at_s 10) (at_s 3000000) () = Some (Inr all, ())
    \<and> mset all = mset demo_rows"
proof -
  have "at_s 10 < at_s 3000000" "at_s 3000000 \<noteq> zero_time" "at_s 10 mod ns_per_s \<le> at_s 3000000 mod ns_per_s"
    by (simp_all add: zero_time_def at_s_def ns_per_s_def)
  from TransactionsRange_complete [OF demo_rows(1) demo_rows(2) this, of "()"] show ?thesis
    by (auto simp: demo_rows_def)
qed

text \<open>C24: streaming agrees with collecting. Under the same conditions and with a context that does not
  end, iterating \<open>TransactionsRangeIter\<close> with any consumer does what looping over the list returned by
  \<open>TransactionsRange\<close> would do, including an early stop.\<close>
theorem TransactionsRangeIter_agrees:
  assumes "statement rows" and "sparse (window rows (Unix from) (Unix to))"
    and "from mod ns_per_s \<le> to mod ns_per_s" and "\<And>w. ctxErr w = None"
  shows "\<exists>all. TransactionsRange (server rows) from to w = Some (Inr all, w)
    \<and> TransactionsRangeIter ctxErr (server rows) yield from to w = Some (snd (for_each (\<lambda>tx. yield (Inr tx)) all w))"
  using range_loop_server [OF assms(1,3,2), of "[]" w] range_iter_server [of ctxErr, OF assms(4,1,3,2), of yield w]
  by (auto simp: TransactionsRange_def TransactionsRangeIter_def)

theorem TransactionsRangeIter_agrees_witness:
  "\<exists>all. TransactionsRange (server demo_rows) (at_s 10) (at_s 3000000) [] = Some (Inr all, [] :: (string + transaction) list)
    \<and> TransactionsRangeIter (\<lambda>_. None) (server demo_rows) (\<lambda>r acc. (acc = [], acc @ [r])) (at_s 10) (at_s 3000000) []
      = Some (snd (for_each (\<lambda>tx acc. (acc = [], acc @ [Inr tx])) all ([] :: (string + transaction) list)))"
proof -
  have "at_s 10 mod ns_per_s \<le> at_s 3000000 mod ns_per_s" by (simp add: at_s_def ns_per_s_def)
  from TransactionsRangeIter_agrees [OF demo_rows this, of "\<lambda>_. None" "[]" "\<lambda>r acc. (acc = [], acc @ [r])"]
  show ?thesis by simp
qed

section \<open>Where the code and its documentation part\<close>

text \<open>Exactly 500 rows in one second, the newest of the window: everything older is lost and the result
  looks complete. (The comment of \<open>DrainWindow\<close> says that only rows beyond the cap within that one
  second cannot be reached.)\<close>

lemma DrainWindow_loses_older_rows:
  assumes "statement (R @ older)" and "length R = StatementMaxRows" and "\<forall>t \<in> set R. second t = s"
    and "Unix from \<le> s" and "s \<le> Unix to"
  shows "DrainWindow from to (server (R @ older)) (\<lambda>t acc. (True, acc @ [t])) [] = Some ((True, None), R)"
proof -
  have ne: "R \<noteq> []" using assms(2) by (auto simp: StatementMaxRows_def)
  then have lt: "Time (last R) = at_s s" "second (last R) = s"
    using assms(1,3) by (auto simp: statement_def whole_second_def)
  have R: "filter (\<lambda>t. Unix from \<le> second t \<and> second t \<le> u) R = R" if "s \<le> u" for u
    using assms(3,4) that by (auto simp: filter_id_conv)
  have fetch: "server (R @ older) from c acc = (Inr R, acc)" if "s \<le> Unix c" for c and acc :: "transaction list"
    using that assms(2) R by (simp add: server_def)
  have at: "filter (\<lambda>t. Time t = at_s s) R = R"
    using assms(1,3) by (auto simp: filter_id_conv statement_def whole_second_def)
  then have at': "{x \<in> set R. Time x = at_s s} = set R" by (metis set_filter)
  have collect: "for_each (\<lambda>t acc. (True, acc @ [t])) xs acc = (True, acc @ xs)" for xs acc
    by (induction xs arbitrary: acc) auto
  obtain m where "emit ID {} (\<lambda>t acc. (True, acc @ [t])) R 0 [] = (True, m, R)" "m = length R"
    using emit_for_each [of ID R "{}" "\<lambda>t acc. (True, acc @ [t])" 0 "[]"] by (auto simp: collect)
  note e1 = this
  have e2: "emit ID (ID ` set R) (\<lambda>t acc. (True, acc @ [t])) R 0 R = (True, 0, R)"
    using emit_seen [of ID R "ID ` set R" "\<lambda>t acc. (True, acc @ [t])" "[]" 0 R] by simp
  have "drain_loop (server (R @ older)) (\<lambda>t acc. (True, acc @ [t])) from (at_s s) (ID ` set R) (at_s s) R
      = Some ((True, None), R)"
    using ne assms(2) e2 by (subst drain_loop.simps) (simp add: fetch)
  then show ?thesis
    unfolding DrainWindow_def
    using ne assms(2,5) e1 lt at' by (subst drain_loop.simps) (simp add: fetch Let_def)
qed

text \<open>The result of \<open>TransactionsRange\<close> is newest first inside a window, but the windows come oldest first: it
  is in no chronological order.\<close>

lemma TransactionsRange_not_chronological:
  "TransactionsRange (server demo_rows) (at_s 0) (at_s 3000000) () =
     Some (Inr [demo_row ''b'' 20, demo_row ''a'' 10, demo_row ''c'' 2678405], ())"
proof -
  have w: "windows 0 3000000 = [(0, 2678400), (2678401, 3000000)]"
    by (subst windows.simps, simp add: Let_def, subst windows.simps, simp add: Let_def, subst windows.simps, simp)
  have "at_s 0 mod ns_per_s \<le> at_s 3000000 mod ns_per_s" by (simp add: at_s_def ns_per_s_def)
  from range_loop_server [OF demo_rows(1) this, of "[]" "()"] demo_rows(2)
  show ?thesis
    by (simp add: TransactionsRange_def zero_time_def window_rows_def w)
      (simp add: window_def demo_rows_def at_s_def ns_per_s_def)
qed

text \<open>A start with a larger sub-second part than the end can lose the last second.\<close>

lemma TransactionsRange_subsecond_loss:
  "TransactionsRange (server [demo_row ''x'' 2678401]) 1 (at_s 2678401) () = Some (Inr [], ())"
proof -
  have s: "statement [demo_row ''x'' 2678401]" "sparse (window [demo_row ''x'' 2678401] a b)" for a b
    by (simp_all add: statement_def sparse_def window_def StatementMaxRows_def)
  have d: "DrainWindow 1 (1 + MaxStatementWindow) (\<lambda>f t (acc, w). case server [demo_row ''x'' 2678401] f t w of (r, w1) \<Rightarrow> (r, (acc, w1)))
      (\<lambda>tx (acc, w). (True, (acc @ [tx], w))) ([], ()) = Some ((True, None), ([], ()))"
  proof -
    have f: "(\<lambda>f t (acc, w). case server rows f t w of (r, w1) \<Rightarrow> (r, (acc, w1))) = server rows" for rows
      by (auto simp: fun_eq_iff server_def)
    show ?thesis unfolding f
      by (simp add: DrainWindow_for_each [OF s]) (simp add: window_def Unix_def MaxStatementWindow_def ns_per_s_def)
  qed
  have "range_loop (server [demo_row ''x'' 2678401]) (1 + MaxStatementWindow + ns_per_s) (at_s 2678401) [] () = Some (Inr [], ())"
    by (subst range_loop.simps) (simp add: at_s_def MaxStatementWindow_def ns_per_s_def)
  with d show ?thesis
    unfolding TransactionsRange_def
    by (subst range_loop.simps) (simp add: at_s_def MaxStatementWindow_def ns_per_s_def zero_time_def)
qed

end
