(* ===== verification/Business_Paging.thy ===== *)
theory Business_Paging
  imports Money "HOL-Library.Sublist"
begin

text \<open>
  The lazy iterators of the corporate API (\<open>business/iter.go\<close>) and the guards of \<open>Statement\<close>
  (\<open>business/statement.go\<close>): offset paging over contacts, time paging over operations.

  The page requests and the consumer act on a world \<open>'w\<close>; the consumer is handed a row or an error
  and says whether to go on. The loops are partial functions into \<open>option\<close>, since an arbitrary
  server can keep them going. Times are nanoseconds.
\<close>

section \<open>Contacts\<close>

record 'c contacts_page =
  HasMore :: bool
  Contacts :: "'c list"

partial_function (option) contacts_loop ::
  "('w \<Rightarrow> string option) \<Rightarrow> (int \<Rightarrow> int \<Rightarrow> 'w \<Rightarrow> (string + 'c contacts_page) \<times> 'w) \<Rightarrow>
   (string + 'c \<Rightarrow> 'w \<Rightarrow> bool \<times> 'w) \<Rightarrow> int \<Rightarrow> int \<Rightarrow> 'w \<Rightarrow> 'w option" where
  "contacts_loop ctxErr fetch yield pageSize offset w =
     (if ctxErr w \<noteq> None then Some (snd (yield (Inl (the (ctxErr w))) w))
      else case fetch pageSize offset w of
          (Inl e, w1) \<Rightarrow> Some (snd (yield (Inl e) w1))
        | (Inr page, w1) \<Rightarrow>
            (case for_each (\<lambda>c. yield (Inr c)) (Contacts page) w1 of (cont, w2) \<Rightarrow>
               if \<not> cont then Some w2
               else if \<not> HasMore page \<or> Contacts page = [] then Some w2
               else contacts_loop ctxErr fetch yield pageSize (offset + int (length (Contacts page))) w2))"

definition ContactsAll ::
  "('w \<Rightarrow> string option) \<Rightarrow> (int \<Rightarrow> int \<Rightarrow> 'w \<Rightarrow> (string + 'c contacts_page) \<times> 'w) \<Rightarrow> int \<Rightarrow>
   (string + 'c \<Rightarrow> 'w \<Rightarrow> bool \<times> 'w) \<Rightarrow> 'w \<Rightarrow> 'w option" where
  "ContactsAll ctxErr fetch pageSize yield w = contacts_loop ctxErr fetch yield pageSize 0 w"

definition SearchContactsAll ::
  "('w \<Rightarrow> string option) \<Rightarrow> (string \<Rightarrow> int \<Rightarrow> int \<Rightarrow> 'w \<Rightarrow> (string + 'c contacts_page) \<times> 'w) \<Rightarrow> string \<Rightarrow> int \<Rightarrow>
   (string + 'c \<Rightarrow> 'w \<Rightarrow> bool \<times> 'w) \<Rightarrow> 'w \<Rightarrow> 'w option" where
  "SearchContactsAll ctxErr search query pageSize yield w =
     contacts_loop ctxErr (search query) yield pageSize 0 w"

definition directory :: "nat \<Rightarrow> 'c list \<Rightarrow> int \<Rightarrow> int \<Rightarrow> 'w \<Rightarrow> (string + 'c contacts_page) \<times> 'w" where
  \<comment> \<open>the documented service over a fixed directory: \<open>limit\<close> contacts from \<open>offset\<close>, a default limit when
      none is sent, and whether there are more\<close>
  "directory dflt xs limit offset w =
     (let n = (if 0 < limit then nat limit else dflt);
          o' = (if 0 < offset then nat offset else 0)
      in (Inr \<lparr>HasMore = o' + n < length xs, Contacts = take n (drop o' xs)\<rparr>, w))"

lemma contacts_loop_directory:
  assumes "\<And>w. ctxErr w = None" and "0 < dflt"
  shows "n \<le> length xs \<Longrightarrow> contacts_loop ctxErr (directory dflt xs) yield pageSize (int n) w
    = Some (snd (for_each (\<lambda>c. yield (Inr c)) (drop n xs) w))"
proof (induction "length xs - n" arbitrary: n w rule: less_induct)
  case less
  define k where "k = (if 0 < pageSize then nat pageSize else dflt)"
  define P where "P = take k (drop n xs)"
  have k: "0 < k" using assms(2) by (auto simp: k_def)
  have fetch: "directory dflt xs pageSize (int n) w = (Inr \<lparr>HasMore = n + k < length xs, Contacts = P\<rparr>, w)" for w :: 'a
    by (simp add: directory_def k_def P_def Let_def)
  obtain c w1 where c: "for_each (\<lambda>c. yield (Inr c)) P w = (c, w1)" by fastforce
  have dr: "drop n xs = P @ drop (n + k) xs" by (simp add: P_def add.commute flip: drop_drop)
  have all: "for_each (\<lambda>c. yield (Inr c)) (drop n xs) w
      = (if \<not> c then (False, w1) else for_each (\<lambda>c. yield (Inr c)) (drop (n + k) xs) w1)"
    unfolding dr by (simp add: for_each_append c)
  show ?case
  proof (cases "n + k < length xs")
    case True
    then have ne: "P \<noteq> []" "length P = k" using k by (auto simp: P_def)
    then have "int n + int (length P) = int (n + k)" by simp
    moreover have "contacts_loop ctxErr (directory dflt xs) yield pageSize (int (n + k)) w1
        = Some (snd (for_each (\<lambda>c. yield (Inr c)) (drop (n + k) xs) w1))"
      by (rule less.hyps) (use True k in auto)
    ultimately show ?thesis
      using ne True by (subst contacts_loop.simps) (simp add: assms(1) fetch c all)
  next
    case False
    then show ?thesis by (subst contacts_loop.simps) (simp add: assms(1) fetch c all)
  qed
qed

section \<open>Operations\<close>

record statement_item =
  ID :: string
  ExternalReference :: string
  Time :: int
  CompletedTime :: int
  Description :: string
  Amount :: money
  CurrencyCode :: string
  ReceiptID :: string
  CounterEdrpou :: string
  CounterIBAN :: string
  CounterName :: string
  Reverse :: bool
  Status :: string
  UltimateDebit :: "(string \<times> string) option"

definition StatementItem_UnmarshalJSON :: "(string \<Rightarrow> string + statement_item) \<Rightarrow> string \<Rightarrow> string + statement_item" where
  "StatementItem_UnmarshalJSON unmarshal data =
     (case unmarshal data of
        Inl e \<Rightarrow> Inl e
      | Inr r \<Rightarrow>
          (case Currency_Parse (CurrencyCode r) of
             Some c \<Rightarrow> Inr (r\<lparr>Amount := (Amount r)\<lparr>Code := c\<rparr>\<rparr>)
           | None \<Rightarrow> Inr r))"

datatype direction = DirDefault | StatementUp | StatementDown

definition ErrInvalidTimeRange :: string where
  "ErrInvalidTimeRange = ''business: invalid time range''"

definition Statement ::
  "(int \<Rightarrow> int option \<Rightarrow> direction \<Rightarrow> int option \<Rightarrow> 'w \<Rightarrow> (string + statement_item list) \<times> 'w) \<Rightarrow>
   int \<Rightarrow> int \<Rightarrow> direction \<Rightarrow> int \<Rightarrow> 'w \<Rightarrow> (string + statement_item list) \<times> 'w" where
  \<comment> \<open>the first argument is the request: the bounds in Unix seconds, the direction and the limit, each
      sent only when given\<close>
  "Statement get from to dir limit w =
     (if from = zero_time \<or> Unix from < 0 then (Inl ErrInvalidTimeRange, w)
      else if to \<noteq> zero_time \<and> \<not> from < to then (Inl ErrInvalidTimeRange, w)
      else get (Unix from) (if to = zero_time then None else Some (Unix to)) dir
             (if 0 < limit then Some limit else None) w)"

partial_function (option) statement_loop ::
  "('w \<Rightarrow> string option) \<Rightarrow> (int \<Rightarrow> int \<Rightarrow> direction \<Rightarrow> int \<Rightarrow> 'w \<Rightarrow> (string + statement_item list) \<times> 'w) \<Rightarrow>
   (string + statement_item \<Rightarrow> 'w \<Rightarrow> bool \<times> 'w) \<Rightarrow> int \<Rightarrow> int \<Rightarrow> int \<Rightarrow> string set \<Rightarrow> int \<Rightarrow> 'w \<Rightarrow> 'w option" where
  "statement_loop ctxErr fetch yield from pageSize cursorTo seen cursorSecond w =
     (if ctxErr w \<noteq> None then Some (snd (yield (Inl (the (ctxErr w))) w))
      else if \<not> from < cursorTo then Some w
      else case fetch from cursorTo StatementDown pageSize w of
          (Inl e, w1) \<Rightarrow> Some (snd (yield (Inl e) w1))
        | (Inr page, w1) \<Rightarrow>
            if page = [] then Some w1
            else case emit ID seen (\<lambda>i. yield (Inr i)) page 0 w1 of (cont, newly, w2) \<Rightarrow>
              if \<not> cont then Some w2
              else
                let oldest = Time (last page); newest = Time (hd page)
                in if oldest = newest \<and> (pageSize \<le> 0 \<or> pageSize \<le> int (length page)) then
                     (if newly = 0 then Some w2
                      else
                        let seen1 = (if oldest \<noteq> cursorSecond then {} else seen)
                        in statement_loop ctxErr fetch yield from pageSize oldest
                             (seen1 \<union> ID ` set page) oldest w2)
                   else
                     let next = oldest - ns_per_s
                     in if \<not> next < cursorTo then Some w2
                        else statement_loop ctxErr fetch yield from pageSize next {} zero_time w2)"

definition StatementAll ::
  "('w \<Rightarrow> string option) \<Rightarrow> ('w \<Rightarrow> int) \<Rightarrow> (int \<Rightarrow> int \<Rightarrow> direction \<Rightarrow> int \<Rightarrow> 'w \<Rightarrow> (string + statement_item list) \<times> 'w) \<Rightarrow>
   int \<Rightarrow> int \<Rightarrow> int \<Rightarrow> (string + statement_item \<Rightarrow> 'w \<Rightarrow> bool \<times> 'w) \<Rightarrow> 'w \<Rightarrow> 'w option" where
  \<comment> \<open>\<open>Now\<close> is \<open>time.Now()\<close>\<close>
  "StatementAll ctxErr Now fetch from to pageSize yield w =
     statement_loop ctxErr fetch yield from pageSize (if to = zero_time then Now w else to) {} zero_time w"

section \<open>The bank\<close>

definition isecond :: "statement_item \<Rightarrow> int" where
  "isecond i = Unix (Time i)"

definition operations :: "nat \<Rightarrow> statement_item list \<Rightarrow> int \<Rightarrow> int option \<Rightarrow> direction \<Rightarrow> int option \<Rightarrow> 'w \<Rightarrow>
    (string + statement_item list) \<times> 'w" where
  \<comment> \<open>the service over a fixed list of operations, newest first: both bounds included, at most \<open>limit\<close>
      rows, a default limit when none is sent\<close>
  "operations dflt rows f t dir limit w =
     (Inr (take (case limit of None \<Rightarrow> dflt | Some l \<Rightarrow> nat l)
        (filter (\<lambda>i. f \<le> isecond i \<and> (case t of None \<Rightarrow> True | Some s \<Rightarrow> isecond i \<le> s)) rows)), w)"

definition newest_first :: "statement_item list \<Rightarrow> bool" where
  \<comment> \<open>newest first, several operations in one second allowed; times are whole seconds\<close>
  "newest_first rows \<longleftrightarrow> sorted_wrt (\<lambda>a b. isecond b \<le> isecond a) rows \<and> (\<forall>i \<in> set rows. Time i = at_s (isecond i))"

lemma newest_first_filter: "newest_first rows \<Longrightarrow> newest_first (filter P rows)"
  by (auto simp: newest_first_def sorted_wrt_filter)

lemma newest_first_drop: "newest_first rows \<Longrightarrow> newest_first (drop n rows)"
  by (auto simp: newest_first_def sorted_wrt_drop dest: in_set_dropD)

lemma newest_first_append:
  "newest_first (C @ E) \<longleftrightarrow> newest_first C \<and> newest_first E \<and> (\<forall>i \<in> set C. \<forall>j \<in> set E. isecond j \<le> isecond i)"
  by (auto simp: newest_first_def sorted_wrt_append)

lemma newest_first_hd: "newest_first rows \<Longrightarrow> i \<in> set rows \<Longrightarrow> isecond i \<le> isecond (hd rows)"
  by (cases rows) (auto simp: newest_first_def)

lemma newest_first_last: "newest_first rows \<Longrightarrow> i \<in> set rows \<Longrightarrow> isecond (last rows) \<le> isecond i"
  by (induction rows rule: rev_induct) (auto simp: newest_first_append)

function visited :: "nat \<Rightarrow> int \<Rightarrow> statement_item list \<Rightarrow> statement_item list" where
  \<comment> \<open>what paging shows of the operations of a range that starts in second \<open>f\<close>, \<open>n\<close> to a page: a page; and,
      if it spans several seconds and does not end next to the start, what is left of the operations older
      than its oldest second\<close>
  "visited n f rows =
     (if rows = [] \<or> n = 0 then []
      else let C = take n rows; t = isecond (last C)
           in C @ (if isecond (hd C) \<noteq> t \<and> f < t - 1 then visited n f (filter (\<lambda>i. isecond i < t) (drop n rows)) else []))"
  by pat_completeness auto
termination
  by (relation "measure (\<lambda>(n, f, rows). length rows)") (auto intro: le_less_trans [OF length_filter_le])

declare visited.simps [simp del]

definition unsplit :: "nat \<Rightarrow> int \<Rightarrow> statement_item list \<Rightarrow> bool" where
  \<comment> \<open>cut into pages of \<open>n\<close>, each page but the last spans several seconds, shares none with the next page, and
      ends at least two seconds after the start of the range\<close>
  "unsplit n f rows \<longleftrightarrow> (\<forall>k < length rows. Suc k * n < length rows \<longrightarrow>
     (let t = isecond (rows ! (Suc k * n - 1))
      in isecond (rows ! (Suc k * n)) < t \<and> t < isecond (rows ! (k * n)) \<and> f < t - 1))"

lemma visited_subseq: "subseq (visited n f rows) rows"
proof (induction n f rows rule: visited.induct)
  case (1 n f rows)
  let ?t = "isecond (last (take n rows))"
  show ?case
  proof (cases "rows = [] \<or> n = 0")
    case False
    let ?R = "if isecond (hd (take n rows)) \<noteq> ?t \<and> f < ?t - 1
        then visited n f (filter (\<lambda>i. isecond i < ?t) (drop n rows)) else []"
    have "subseq ?R (drop n rows)"
      using 1 [OF False refl refl] subseq_order.trans [OF _ subseq_filter_left] by auto
    then have "subseq (take n rows @ ?R) (take n rows @ drop n rows)" by (rule list_emb_append_mono [OF subseq_order.refl])
    moreover have "visited n f rows = take n rows @ ?R" using False by (subst visited.simps) (simp add: Let_def)
    ultimately show ?thesis by simp
  qed (subst visited.simps, simp)
qed

definition in_range :: "statement_item list \<Rightarrow> int \<Rightarrow> int \<Rightarrow> statement_item list" where
  "in_range rows from to = filter (\<lambda>i. Unix from \<le> isecond i \<and> isecond i \<le> Unix to) rows"

lemma in_range_cut:
  "u \<le> Unix to \<Longrightarrow> Unix v = u \<Longrightarrow> in_range rows from v = filter (\<lambda>i. isecond i \<le> u) (in_range rows from to)"
  by (auto simp: in_range_def filter_filter intro!: filter_cong)

lemma Statement_operations:
  assumes "0 \<le> Unix from" and "from < t"
  shows "Statement (operations dflt rows) from t StatementDown pageSize w =
    (Inr (take (if 0 < pageSize then nat pageSize else dflt) (in_range rows from t)), w)"
proof -
  have "from \<noteq> zero_time" "t \<noteq> zero_time"
    using assms by (auto simp: Unix_def zero_time_def ns_per_s_def)
  with assms show ?thesis by (auto simp: Statement_def operations_def in_range_def)
qed

text \<open>After a page \<open>C\<close> that leaves \<open>E\<close>: the oldest second \<open>t\<close>, and the cursor one second before it.\<close>

lemma page_cursor:
  assumes "newest_first rows" and "in_range rows from to = C @ E" and "C \<noteq> []"
  defines "t \<equiv> last C"
  shows "Time t - ns_per_s < to" and "from < Time t - ns_per_s \<longleftrightarrow> Unix from < isecond t - 1"
    and "in_range rows from (Time t - ns_per_s) = filter (\<lambda>i. isecond i < isecond t) E"
    and "isecond (hd C) = isecond t \<Longrightarrow> in_range rows from (Time t) = C @ E"
    and "Time t = Time (hd C) \<longleftrightarrow> isecond (hd C) = isecond t"
proof -
  have nf: "newest_first (C @ E)" unfolding assms(2) [symmetric] in_range_def by (rule newest_first_filter [OF assms(1)])
  have "t \<in> set (in_range rows from to)" "hd C \<in> set (in_range rows from to)" unfolding assms(2) t_def using assms(3) by simp_all
  then have tr: "t \<in> set rows" "hd C \<in> set rows" "isecond t \<le> Unix to" by (auto simp: in_range_def)
  have tt: "Time t = at_s (isecond t)" "Time (hd C) = at_s (isecond (hd C))" using assms(1) tr by (simp_all add: newest_first_def)
  show "Time t = Time (hd C) \<longleftrightarrow> isecond (hd C) = isecond t" unfolding tt by (auto simp: at_s_def ns_per_s_def)
  have nx: "Unix (Time t - ns_per_s) = isecond t - 1" "Unix (Time t) = isecond t"
    unfolding tt by (simp_all add: Unix_def at_s_def ns_per_s_def)
  show "Time t - ns_per_s < to" using tr(3) unfolding tt by (simp add: Unix_def at_s_def ns_per_s_def)
  show "from < Time t - ns_per_s \<longleftrightarrow> Unix from < isecond t - 1"
  proof -
    have "from = 1000000000 * (from div 1000000000) + from mod 1000000000" "0 \<le> from mod 1000000000"
      "from mod 1000000000 < 1000000000" by simp_all
    then have "from < 1000000000 * k \<longleftrightarrow> from div 1000000000 < k" for k by linarith
    from this [of "isecond t - 1"] show ?thesis unfolding tt by (simp add: Unix_def at_s_def ns_per_s_def algebra_simps)
  qed
  have "isecond t - 1 \<le> Unix to" using tr(3) by simp
  from in_range_cut [OF this nx(1), of rows "from"]
  have "in_range rows from (Time t - ns_per_s) = filter (\<lambda>i. isecond i \<le> isecond t - 1) (C @ E)" unfolding assms(2) .
  moreover have "filter (\<lambda>i. isecond i \<le> isecond t - 1) C = []"
    using newest_first_last [of C] nf by (fastforce simp: newest_first_append t_def filter_empty_conv)
  ultimately show "in_range rows from (Time t - ns_per_s) = filter (\<lambda>i. isecond i < isecond t) E"
    by (simp add: zle_diff1_eq)
  show "in_range rows from (Time t) = C @ E" if h: "isecond (hd C) = isecond t"
  proof -
    have "isecond i \<le> isecond t" if "i \<in> set (C @ E)" for i
      using newest_first_hd [OF nf that] h assms(3) by simp
    then have "filter (\<lambda>i. isecond i \<le> isecond t) (C @ E) = C @ E" by (simp add: filter_id_conv)
    with in_range_cut [OF tr(3) nx(2), of rows "from"] show ?thesis unfolding assms(2) by simp
  qed
qed

lemma statement_loop_visits:
  assumes "\<And>w. ctxErr w = None" and "0 \<le> Unix from" and "newest_first rows"
    and n: "n = (if 0 < pageSize then nat pageSize else dflt)" "0 < n"
  shows "from < cursorTo \<Longrightarrow> statement_loop ctxErr (Statement (operations dflt rows)) yield from pageSize cursorTo {} zero_time w
    = Some (snd (for_each (\<lambda>i. yield (Inr i)) (visited n (Unix from) (in_range rows from cursorTo)) w))"
proof (induction "length (in_range rows from cursorTo)" arbitrary: cursorTo w rule: less_induct)
  case less
  let ?y = "\<lambda>i. yield (Inr i)" and ?loop = "statement_loop ctxErr (Statement (operations dflt rows)) yield from pageSize"
  note fetch = Statement_operations [OF assms(2), of _ dflt rows pageSize, folded n(1)]
  define C where "C = take n (in_range rows from cursorTo)"
  define E where "E = drop n (in_range rows from cursorTo)"
  let ?t = "isecond (last C)" and ?next = "Time (last C) - ns_per_s"
  have CE: "in_range rows from cursorTo = C @ E" unfolding C_def E_def by (rule append_take_drop_id [symmetric])
  show ?case
  proof (cases "C = []")
    case True
    then have "in_range rows from cursorTo = []" using n(2) by (simp add: C_def)
    with less.prems show ?thesis
      by (subst statement_loop.simps) (simp add: assms(1) fetch visited.simps)
  next
    case ne: False
    note pc = page_cursor [OF assms(3) CE ne]
    define R where "R = (if isecond (hd C) \<noteq> ?t \<and> Unix from < ?t - 1 then visited n (Unix from) (filter (\<lambda>i. isecond i < ?t) E) else [])"
    have v: "visited n (Unix from) (in_range rows from cursorTo) = C @ R"
      using ne n(2) by (subst visited.simps) (auto simp: C_def E_def R_def Let_def)
    obtain c m w2 where em: "emit ID {} ?y C 0 w = (c, m, w2)" "for_each ?y C w = (c, w2)" "c \<longrightarrow> m = length C"
      using emit_for_each [of ID C "{}" ?y 0 w] by (cases "for_each ?y C w") auto
    have all: "for_each ?y (C @ R) w = (if \<not> c then (False, w2) else for_each ?y R w2)"
      by (simp add: for_each_append em(2))
    let ?again = "isecond (hd C) = ?t \<and> (pageSize \<le> 0 \<or> pageSize \<le> int (length C))"
    have step: "?loop cursorTo {} zero_time w = (if \<not> c then Some w2
        else if ?again then ?loop (Time (last C)) ({} \<union> ID ` set C) (Time (last C)) w2
        else ?loop ?next {} zero_time w2)"
      using less.prems em ne pc(1,5)
      by (subst statement_loop.simps) (auto simp: assms(1) fetch C_def [symmetric] Let_def)
    show ?thesis
    proof (cases ?again)
      case True
      have "?loop (Time (last C)) (ID ` set C) (Time (last C)) w2 = Some w2"
      proof (cases "from < Time (last C)")
        case f: True
        have "take n (in_range rows from (Time (last C))) = C" using pc(4) True CE C_def by metis
        moreover have "emit ID (ID ` set C) ?y C 0 w2 = (True, 0, w2)"
          using emit_seen [of ID C "ID ` set C" ?y "[]" 0 w2] by simp
        ultimately show ?thesis using True f ne pc(5)
          by (subst statement_loop.simps) (simp add: assms(1) fetch Let_def)
      next
        case False
        then show ?thesis by (subst statement_loop.simps) (simp add: assms(1))
      qed
      with True step v all show ?thesis by (simp add: R_def)
    next
      case False
      have "?loop ?next {} zero_time w2 = Some (snd (for_each ?y R w2))"
      proof (cases "from < ?next")
        case True
        have "length (in_range rows from ?next) < length (in_range rows from cursorTo)"
          unfolding pc(3) CE using ne length_filter_le [of _ E] by (simp add: le_less_trans add_strict_increasing)
        from less.hyps [OF this True, of w2] have "?loop ?next {} zero_time w2
            = Some (snd (for_each ?y (visited n (Unix from) (filter (\<lambda>i. isecond i < ?t) E)) w2))" unfolding pc(3) .
        moreover have "E = []" if "isecond (hd C) = ?t"
        proof -
          have "length C < n" using \<open>\<not> ?again\<close> that n(1) by (auto split: if_splits)
          then show ?thesis by (simp add: C_def E_def)
        qed
        ultimately show ?thesis using True pc(2) by (auto simp: R_def visited.simps)
      next
        case False
        then show ?thesis using pc(2) by (subst statement_loop.simps) (auto simp: assms(1) R_def)
      qed
      then show ?thesis using step v all unfolding if_not_P [OF False] by simp
    qed
  qed
qed

lemma unsplit_step:
  assumes "0 < n" and "n < length rows"
  shows "unsplit n f rows \<longleftrightarrow> isecond (rows ! n) < isecond (rows ! (n - 1)) \<and> isecond (rows ! (n - 1)) < isecond (rows ! 0) \<and>
    f < isecond (rows ! (n - 1)) - 1 \<and> unsplit n f (drop n rows)"
proof -
  let ?P = "\<lambda>rows k. let t = isecond (rows ! (Suc k * n - 1))
      in isecond (rows ! (Suc k * n)) < t \<and> t < isecond (rows ! (k * n)) \<and> f < t - 1"
  have u: "unsplit n f xs \<longleftrightarrow> (\<forall>k. Suc k * n < length xs \<longrightarrow> ?P xs k)" for xs
  proof -
    have "k < length xs" if "Suc k * n < length xs" for k
    proof -
      have "Suc k * 1 \<le> Suc k * n" using assms(1) by (intro mult_le_mono2) simp
      with that show ?thesis by simp
    qed
    then show ?thesis unfolding unsplit_def by blast
  qed
  have s: "Suc (Suc k) * n - 1 = n + (Suc k * n - 1)" "Suc (Suc k) * n = n + Suc k * n" "Suc k * n = n + k * n" "n + Suc k * n - 1 = n + (Suc k * n - 1)" for k
    using assms(1) by auto
  have "?P rows (Suc k) = ?P (drop n rows) k" if "Suc (Suc k) * n < length rows" for k
    using assms that by (simp only: s(2,4) nth_drop less_imp_le s(3) [of k, symmetric])
  moreover have "Suc k * n < length (drop n rows) \<longleftrightarrow> Suc (Suc k) * n < length rows" for k using assms by auto
  ultimately have "(\<forall>k. Suc (Suc k) * n < length rows \<longrightarrow> ?P rows (Suc k)) \<longleftrightarrow> unsplit n f (drop n rows)" unfolding u by blast
  moreover have "(\<forall>k. Suc k * n < length rows \<longrightarrow> ?P rows k) \<longleftrightarrow>
      ?P rows 0 \<and> (\<forall>k. Suc (Suc k) * n < length rows \<longrightarrow> ?P rows (Suc k))"
    using assms(2) by (metis mult.commute mult_1_right not0_implies_Suc One_nat_def)
  ultimately show ?thesis unfolding u [of rows] by (simp add: Let_def)
qed

lemma visited_all_iff:
  assumes "0 < n"
  shows "newest_first rows \<Longrightarrow> visited n f rows = rows \<longleftrightarrow> unsplit n f rows"
proof (induction "length rows" arbitrary: rows rule: less_induct)
  case less
  show ?case
  proof (cases "length rows \<le> n")
    case True
    then have "unsplit n f rows" by (auto simp: unsplit_def)
    moreover have "visited n f rows = rows" using True assms
      by (subst visited.simps) (simp add: Let_def visited.simps)
    ultimately show ?thesis by simp
  next
    case False
    let ?t = "isecond (last (take n rows))" and ?E = "drop n rows"
    let ?F = "filter (\<lambda>i. isecond i < ?t) ?E"
    have ne: "rows \<noteq> []" "?E \<noteq> []" "n < length rows" using False by auto
    have h: "last (take n rows) = rows ! (n - 1)" "hd (take n rows) = rows ! 0" "hd ?E = rows ! n"
      using assms ne by (simp_all add: last_conv_nth hd_conv_nth hd_drop_conv_nth)
    have v: "visited n f rows = take n rows @ (if isecond (rows ! 0) \<noteq> ?t \<and> f < ?t - 1 then visited n f ?F else [])"
      using ne assms by (subst visited.simps) (simp add: Let_def h)
    have "rows ! 0 \<in> set (take n rows)" using ne assms h(2) by (metis hd_in_set take_eq_Nil not_gr_zero)
    then have le: "?t \<le> isecond (rows ! 0)"
      using newest_first_last [of "take n rows" "rows ! 0"] less.prems newest_first_append [of "take n rows" ?E] by simp
    have E: "newest_first ?E" using less.prems by (rule newest_first_drop)
    have keep: "?F = ?E \<longleftrightarrow> isecond (rows ! n) < ?t"
    proof
      assume "?F = ?E"
      then show "isecond (rows ! n) < ?t" using ne(2) h(3) by (metis (mono_tags, lifting) filter_id_conv hd_in_set)
    next
      assume "isecond (rows ! n) < ?t"
      then show "?F = ?E" using newest_first_hd [OF E] unfolding h(3) by (fastforce simp: filter_id_conv)
    qed
    have shrink: "visited n f ?F = ?E \<longleftrightarrow> ?F = ?E \<and> visited n f ?E = ?E"
    proof
      assume a: "visited n f ?F = ?E"
      then have "length ?E \<le> length ?F" using list_emb_length [OF visited_subseq [of n f ?F]] by simp
      then have "?F = ?E" using length_filter_le [of "\<lambda>i. isecond i < ?t" ?E] by (metis filter_id_conv length_filter_less le_antisym not_less)
      with a show "?F = ?E \<and> visited n f ?E = ?E" by simp
    qed simp
    have "visited n f ?E = ?E \<longleftrightarrow> unsplit n f ?E" using less.hyps [of ?E] E ne assms by simp
    moreover have "visited n f rows = rows \<longleftrightarrow> isecond (rows ! 0) \<noteq> ?t \<and> f < ?t - 1 \<and> visited n f ?F = ?E"
    proof -
      have "take n rows @ X = rows \<longleftrightarrow> X = ?E" for X by (metis append_take_drop_id same_append_eq)
      then show ?thesis using ne(2) unfolding v by auto
    qed
    ultimately have "visited n f rows = rows \<longleftrightarrow>
        isecond (rows ! 0) \<noteq> ?t \<and> f < ?t - 1 \<and> isecond (rows ! n) < ?t \<and> unsplit n f ?E" by (simp only: shrink keep)
    moreover have "isecond (rows ! 0) \<noteq> ?t \<longleftrightarrow> ?t < isecond (rows ! 0)" using le by linarith
    ultimately show ?thesis unfolding unsplit_step [OF assms ne(3)] h(1) by blast
  qed
qed

section \<open>Properties\<close>

text \<open>Offset paging is complete. Over a fixed directory behind the documented limit/offset service,
  for every page size (0 or less meaning the service's own) and a context that does not end,
  \<open>ContactsAll\<close> and \<open>SearchContactsAll\<close> terminate and do exactly what looping over the whole list
  would do, including an early stop.\<close>
theorem ContactsAll_visits_directory:
  assumes "\<And>w. ctxErr w = None" and "0 < dflt"
  shows "ContactsAll ctxErr (directory dflt xs) pageSize yield w = Some (snd (for_each (\<lambda>c. yield (Inr c)) xs w))
    \<and> SearchContactsAll ctxErr (\<lambda>q. directory dflt (found q)) query pageSize yield w
      = Some (snd (for_each (\<lambda>c. yield (Inr c)) (found query) w))"
  using contacts_loop_directory [of ctxErr dflt 0 _ yield pageSize w, OF assms]
  by (simp add: ContactsAll_def SearchContactsAll_def)

theorem ContactsAll_visits_directory_witness:
  "ContactsAll (\<lambda>_. None) (directory 100 [1, 2, 3 :: nat]) 2 (\<lambda>r acc. (True, acc @ [r])) []
    = Some [Inr 1, Inr 2, Inr 3]"
  using ContactsAll_visits_directory [of "\<lambda>_. None" 100 "[1, 2, 3 :: nat]" 2 "\<lambda>r acc. (True, acc @ [r])" "[]"]
  by simp

text \<open>C26: what time paging shows of a range, also when operations share a second. Over a fixed list of operations,
  newest first, any number in a second, behind the documented service, for every page size (\<open>n\<close> rows a page: the
  caller's, or the service's own) and a context that does not end, \<open>StatementAll\<close> terminates and does exactly what
  looping over the list \<open>vs\<close> would do, including an early stop. \<open>vs\<close> is empty when \<open>from\<close> is not before \<open>to\<close> (now, if zero).
  Else it is taken page by page from the operations between \<open>from\<close> and \<open>to\<close>, in their order, none twice: of the oldest
  second of a page only what is on the page, and nothing after a page that lies within one second or that ends in the second
  of \<open>from\<close> or the next one. It is the whole range if and only if each page of \<open>n\<close> but the last spans several seconds,
  shares none with the next page, and ends two seconds or more after \<open>from\<close>.\<close>
theorem StatementAll_visits:
  assumes "\<And>w. ctxErr w = None" and "0 \<le> Unix from" and "newest_first rows"
    and "n = (if 0 < pageSize then nat pageSize else dflt)" and "0 < n" and "u = (if to = zero_time then Now w else to)"
  shows "\<exists>vs. StatementAll ctxErr Now (Statement (operations dflt rows)) from to pageSize yield w
      = Some (snd (for_each (\<lambda>i. yield (Inr i)) vs w)) \<and>
    vs = (if from < u then visited n (Unix from) (in_range rows from u) else []) \<and> subseq vs (in_range rows from u) \<and>
    (from < u \<longrightarrow> (vs = in_range rows from u \<longleftrightarrow> unsplit n (Unix from) (in_range rows from u)))"
proof (cases "from < u")
  case True
  have "newest_first (in_range rows from u)" unfolding in_range_def by (rule newest_first_filter [OF assms(3)])
  with True show ?thesis
    using statement_loop_visits [OF assms(1-5) True, where yield = yield and w = w] visited_all_iff [OF assms(5)] assms(6)
    by (simp add: StatementAll_def visited_subseq)
next
  case False
  then have "statement_loop ctxErr (Statement (operations dflt rows)) yield from pageSize u {} zero_time w = Some w"
    by (subst statement_loop.simps) (simp add: assms(1))
  with False show ?thesis unfolding StatementAll_def assms(6) [symmetric] by simp
qed

text \<open>Two common cases in which nothing is split: the range fits one page; or no second has two operations, none is in
  the second of \<open>from\<close>, and a page holds at least two.\<close>

lemma unsplit_one_page: "length rows \<le> n \<Longrightarrow> unsplit n f rows"
  by (auto simp: unsplit_def)

lemma unsplit_spaced:
  assumes "sorted_wrt (\<lambda>a b. isecond b < isecond a) rows" and "\<And>i. i \<in> set rows \<Longrightarrow> f < isecond i" and "2 \<le> n"
  shows "unsplit n f rows"
  unfolding unsplit_def Let_def
proof (intro allI impI)
  fix k
  assume k: "Suc k * n < length rows"
  have lt: "k * n < Suc k * n - 1" "Suc k * n - 1 < Suc k * n" using assms(3) by auto
  note later = sorted_wrt_nth_less [OF assms(1)]
  have "isecond (rows ! (Suc k * n)) < isecond (rows ! (Suc k * n - 1))" "isecond (rows ! (Suc k * n - 1)) < isecond (rows ! (k * n))"
    by (rule later; use k lt in linarith)+
  moreover have "f < isecond (rows ! (Suc k * n))" by (rule assms(2)) (use k in simp)
  ultimately show "isecond (rows ! (Suc k * n)) < isecond (rows ! (Suc k * n - 1)) \<and>
      isecond (rows ! (Suc k * n - 1)) < isecond (rows ! (k * n)) \<and> f < isecond (rows ! (Suc k * n - 1)) - 1" by simp
qed

definition demo_item :: "string \<Rightarrow> int \<Rightarrow> statement_item" where
  "demo_item i s = \<lparr>ID = i, ExternalReference = [], Time = at_s s, CompletedTime = at_s s, Description = [],
     Amount = Money_New 0 UAH, CurrencyCode = ''UAH'', ReceiptID = [], CounterEdrpou = [], CounterIBAN = [],
     CounterName = [], Reverse = False, Status = [], UltimateDebit = None\<rparr>"

lemma demo_item [simp]: "ID (demo_item i s) = i" "Time (demo_item i s) = at_s s" "isecond (demo_item i s) = s"
  by (simp_all add: demo_item_def isecond_def)

theorem StatementAll_visits_witness:
  "StatementAll (\<lambda>_. None) (\<lambda>_. at_s 100) (Statement (operations 500 [demo_item ''d'' 12, demo_item ''c'' 10, demo_item ''b'' 10, demo_item ''a'' 9]))
     (at_s 5) zero_time 2 (\<lambda>r acc. (True, acc @ [r])) []
   = Some [Inr (demo_item ''d'' 12), Inr (demo_item ''c'' 10), Inr (demo_item ''a'' 9)]"
proof -
  let ?rows = "[demo_item ''d'' 12, demo_item ''c'' 10, demo_item ''b'' 10, demo_item ''a'' 9]"
  have nf: "newest_first ?rows" by (simp add: newest_first_def)
  have f: "0 \<le> Unix (at_s 5)" "at_s 5 < at_s 100" by simp (simp add: at_s_def ns_per_s_def)
  have r: "in_range ?rows (at_s 5) (at_s 100) = ?rows" by (simp add: in_range_def)
  have v: "visited 2 5 ?rows = [demo_item ''d'' 12, demo_item ''c'' 10, demo_item ''a'' 9]"
    by (simp add: visited.simps Let_def numeral_2_eq_2)
  show ?thesis
    using StatementAll_visits [of "\<lambda>_. None" "at_s 5" ?rows 2 2 500 "at_s 100" zero_time "\<lambda>_. at_s 100" "[]"
        "\<lambda>r acc. (True, acc @ [r])", OF _ f(1) nf] f(2) unfolding r by (auto simp: v)
qed

section \<open>Where the code and its documentation part\<close>

abbreviation (input) collect :: "string + statement_item \<Rightarrow> string list \<Rightarrow> bool \<times> string list" where
  "collect \<equiv> \<lambda>r acc. (True, case r of Inl e \<Rightarrow> acc @ [''error''] | Inr i \<Rightarrow> acc @ [ID i])"

abbreviation (input) all_of :: "statement_item list \<Rightarrow> int \<Rightarrow> int \<Rightarrow> string list option" where
  "all_of rows from n \<equiv> StatementAll (\<lambda>_. None) (\<lambda>_. 0) (Statement (operations 500 rows)) (at_s from) (at_s 20) n collect []"

lemmas statement_eval = Statement_def operations_def at_s_def zero_time_def ns_per_s_def Unix_def Let_def

text \<open>A full page that spans several seconds drops the other operations of its oldest second, which the
  comment of \<open>DrainWindow\<close> says this function does not do.\<close>

lemma StatementAll_drops_boundary_second:
  "all_of [demo_item ''a'' 10, demo_item ''b'' 9, demo_item ''c'' 9] 1 2 = Some [''a'', ''b'']"
  unfolding StatementAll_def
  by (subst statement_loop.simps, simp add: statement_eval, subst statement_loop.simps, simp add: statement_eval)

text \<open>A full page within one second is asked for again with the same bounds, so the same rows come back
  and the iteration ends: everything older is lost. With a page size of 1 only the newest operation
  is ever returned.\<close>

lemma StatementAll_stops_after_full_second:
  "all_of [demo_item ''a'' 10, demo_item ''b'' 9] 1 1 = Some [''a'']"
  unfolding StatementAll_def
  by (subst statement_loop.simps, simp add: statement_eval, subst statement_loop.simps, simp add: statement_eval)

text \<open>An operation in the second of \<open>from\<close> is lost when the page before it ends one second later, although
  the range is documented as \<open>[from, to]\<close>.\<close>

lemma StatementAll_misses_start:
  "all_of [demo_item ''a'' 10, demo_item ''b'' 9, demo_item ''c'' 8] 8 2 = Some [''a'', ''b'']"
  unfolding StatementAll_def
  by (subst statement_loop.simps, simp add: statement_eval, subst statement_loop.simps, simp add: statement_eval)

end
