(* ===== verification/Acquiring_Webhook.thy ===== *)
theory Acquiring_Webhook
  imports Webhook_Handler
begin

text \<open>
  Webhooks of the acquiring package: signature and freshness (\<open>acquiring/webhook.go\<close>), the dedup key
  (\<open>acquiring/dedup.go\<close>) and the \<open>http.Handler\<close> (\<open>acquiring/handler.go\<close>).

  The memory is the one of \<open>webhook/dedup.go\<close>: \<open>acquiring/dedup.go\<close> repeats that code word for word,
  so the handler takes the same interface. Other than there, no key id comes with a request: a
  signature that does not verify is what makes the handler fetch the key again. The code compares
  key pointers, so a held key carries an address; each fetched key is a new one.

  Parameters: signature primitives, key parsing (\<open>ParsePubKey\<close>), JSON decoding, \<open>time.Parse\<close>, the clock
  and the callbacks.
\<close>

section \<open>Verification\<close>

datatype acq_error =
    AcqMissingPubKey | AcqBadSignatureEncoding | AcqBadSignature | ErrWebhookNoTimestamp | ErrWebhookStale

definition VerifyWebhook :: "'k crypto \<Rightarrow> 'k option \<Rightarrow> string \<Rightarrow> string \<Rightarrow> acq_error option" where
  "VerifyWebhook cr pub body xSign =
     (case pub of
        None \<Rightarrow> Some AcqMissingPubKey
      | Some pk \<Rightarrow>
         (case b64_decode xSign of
            None \<Rightarrow> Some AcqBadSignatureEncoding
          | Some sig \<Rightarrow> if VerifyASN1 cr pk (Sum256 cr body) sig then None else Some AcqBadSignature))"

definition date_layouts :: "string list" where
  "date_layouts = [''2006-01-02T15:04:05.999999999Z07:00'', ''2006-01-02T15:04:05Z07:00'',
     ''2006-01-02T15:04:05.000Z'', ''2006-01-02T15:04:05Z'', ''2006-01-02 15:04:05'']"

fun first_layout :: "(string \<Rightarrow> string \<Rightarrow> int option) \<Rightarrow> string list \<Rightarrow> string \<Rightarrow> int option" where
  "first_layout parse [] s = None"
| "first_layout parse (l # ls) s = (case parse l s of Some t \<Rightarrow> Some t | None \<Rightarrow> first_layout parse ls s)"

definition parseModifiedDate :: "(string \<Rightarrow> string \<Rightarrow> int option) \<Rightarrow> string \<Rightarrow> acq_error + int" where
  "parseModifiedDate parse s =
     (if s = [] then Inl ErrWebhookNoTimestamp
      else case first_layout parse date_layouts s of Some t \<Rightarrow> Inr t | None \<Rightarrow> Inl ErrWebhookNoTimestamp)"

record clocked =
  ParseLayout :: "string \<Rightarrow> string \<Rightarrow> int option"   \<comment> \<open>\<open>time.Parse\<close>\<close>
  ProbeDate :: "string \<Rightarrow> string option"   \<comment> \<open>\<open>json.Unmarshal\<close> into the struct with \<open>modifiedDate\<close> only\<close>

definition VerifyWebhookFresh :: "'k crypto \<Rightarrow> clocked \<Rightarrow> int \<Rightarrow> 'k option \<Rightarrow> string \<Rightarrow> string \<Rightarrow> int \<Rightarrow> acq_error option" where
  "VerifyWebhookFresh cr ck now pub body xSign maxAge =
     (case VerifyWebhook cr pub body xSign of
        Some e \<Rightarrow> Some e
      | None \<Rightarrow>
         (case ProbeDate ck body of
            None \<Rightarrow> Some ErrWebhookNoTimestamp
          | Some d \<Rightarrow>
             (case parseModifiedDate (ParseLayout ck) d of
                Inl e \<Rightarrow> Some e
              | Inr t \<Rightarrow> if 0 < maxAge \<and> maxAge < Since now t then Some ErrWebhookStale else None)))"

datatype 'k public_key = ECDSA_P256 'k | ECDSA_other string 'k | OtherKey string

record 'k key_parsers =
  pem_Decode :: "string \<Rightarrow> string option"   \<comment> \<open>the bytes of the first PEM block\<close>
  ParsePKIX :: "string \<Rightarrow> string + 'k public_key"   \<comment> \<open>\<open>x509.ParsePKIXPublicKey\<close>\<close>

definition ParsePubKey :: "'k key_parsers \<Rightarrow> string \<Rightarrow> string + 'k" where
  "ParsePubKey kp keyB64 =
     (if keyB64 = [] then Inl ''empty key''
      else case b64_decode keyB64 of
          None \<Rightarrow> Inl ''base64 decode''
        | Some pem \<Rightarrow>
            (case pem_Decode kp pem of
               None \<Rightarrow> Inl ''no PEM block found''
             | Some block \<Rightarrow>
                 (case ParsePKIX kp block of
                    Inl e \<Rightarrow> Inl e
                  | Inr (ECDSA_P256 k) \<Rightarrow> Inr k
                  | Inr (ECDSA_other curve k) \<Rightarrow> Inl (''expected P-256, got '' @ curve)
                  | Inr (OtherKey t) \<Rightarrow> Inl (''expected ECDSA, got '' @ t))))"

definition Public :: "'k key_parsers \<Rightarrow> string option \<Rightarrow> string + 'k" where
  \<comment> \<open>\<open>(*ServerKey).Public\<close>, of the \<open>Key\<close> field\<close>
  "Public kp k = (case k of None \<Rightarrow> Inl ''acquiring: missing public key'' | Some key \<Rightarrow> ParsePubKey kp key)"

section \<open>The dedup key\<close>

record invoice =
  InvoiceID :: string
  ModifiedDate :: string

definition DedupKey :: "'e invoice_scheme option \<Rightarrow> string" where
  "DedupKey iv =
     (case iv of
        None \<Rightarrow> []
      | Some i \<Rightarrow> if ModifiedDate i = [] then InvoiceID i else InvoiceID i @ ''|'' @ ModifiedDate i)"

section \<open>The handler\<close>

record 'k held_key =
  addr :: nat
  pub :: 'k

datatype acq_handler_error =
    AcqKeyNotLoaded | AcqRefreshFailed string | AcqParseFailed string | EmptyInvoiceID | AcqOnEventFailed string

record ('k, 'd, 'u, 'e) acq_options =
  PubKeyOf :: "'u \<Rightarrow> (string + string option) \<times> 'u"   \<comment> \<open>\<open>Keys.PubKey\<close>: the \<open>key\<close> field of the response\<close>
  KeyParsers :: "'k key_parsers"
  OnInvoice :: "'e invoice_scheme \<Rightarrow> 'u \<Rightarrow> string option \<times> 'u"
  AcqDedup :: "'d dedup_api option"
  MaxAge :: int
  AcqOnError :: "(acq_handler_error \<Rightarrow> 'u \<Rightarrow> 'u) option"
  AcqMaxBodyBytes :: int
  AcqNow :: "'u \<Rightarrow> int"
  AcqCrypto :: "'k crypto"
  AcqClock :: clocked
  ParseWebhook :: "string \<Rightarrow> string + 'e invoice_scheme"

record ('k, 'd, 'u) acq_handler =
  akey :: "'k held_key option"
  nextAddr :: nat
  alastRefreshAt :: int
  amemory :: 'd
  aworld :: 'u

definition AcqDefaultMaxBodyBytes :: int where
  "AcqDefaultMaxBodyBytes = 1048576"

definition acqMinRefreshInterval :: int where
  "acqMinRefreshInterval = 30 * ns_per_s"

definition acq_report :: "('k, 'd, 'u, 'e) acq_options \<Rightarrow> acq_handler_error \<Rightarrow> ('k, 'd, 'u) acq_handler \<Rightarrow> ('k, 'd, 'u) acq_handler" where
  "acq_report opts err h = (case AcqOnError opts of None \<Rightarrow> h | Some f \<Rightarrow> h\<lparr>aworld := f err (aworld h)\<rparr>)"

definition acq_refresh :: "('k, 'd, 'u, 'e) acq_options \<Rightarrow> ('k, 'd, 'u) acq_handler \<Rightarrow> string option \<times> ('k, 'd, 'u) acq_handler" where
  "acq_refresh opts h =
     (case PubKeyOf opts (aworld h) of
        (Inl e, u) \<Rightarrow> (Some e, h\<lparr>aworld := u\<rparr>)
      | (Inr k, u) \<Rightarrow>
          (case Public (KeyParsers opts) k of
             Inl e \<Rightarrow> (Some e, h\<lparr>aworld := u\<rparr>)
           | Inr p \<Rightarrow> (None, h\<lparr>akey := Some \<lparr>addr = nextAddr h, pub = p\<rparr>, nextAddr := nextAddr h + 1, aworld := u\<rparr>)))"

definition NewWebhookHandler :: "('u \<Rightarrow> (string + string option) \<times> 'u) option \<Rightarrow>
    ('e invoice_scheme \<Rightarrow> 'u \<Rightarrow> string option \<times> 'u) option \<Rightarrow> ('k, 'd, 'u, 'e) acq_options \<Rightarrow> 'd \<Rightarrow> 'u \<Rightarrow>
    string + (('k, 'd, 'u, 'e) acq_options \<times> ('k, 'd, 'u) acq_handler)" where
  "NewWebhookHandler keys onEvent opts d u =
     (case (keys, onEvent) of
        (None, _) \<Rightarrow> Inl ''acquiring: WebhookHandlerOptions.Keys is required''
      | (Some _, None) \<Rightarrow> Inl ''acquiring: WebhookHandlerOptions.OnEvent is required''
      | (Some ks, Some oe) \<Rightarrow>
          let maxBody = (if AcqMaxBodyBytes opts \<le> 0 then AcqDefaultMaxBodyBytes else AcqMaxBodyBytes opts);
              opts' = opts\<lparr>PubKeyOf := ks, OnInvoice := oe, AcqMaxBodyBytes := maxBody\<rparr>
          in case acq_refresh opts' \<lparr>akey = None, nextAddr = 0, alastRefreshAt = zero_time, amemory = d, aworld = u\<rparr> of
               (Some e, _) \<Rightarrow> Inl (''initial PubKey fetch: '' @ e)
             | (None, h) \<Rightarrow> Inr (opts', h))"

definition acq_throttled :: "('k, 'd, 'u, 'e) acq_options \<Rightarrow> ('k, 'd, 'u) acq_handler \<Rightarrow> bool" where
  "acq_throttled opts h \<longleftrightarrow> Since (AcqNow opts (aworld h)) (alastRefreshAt h) < acqMinRefreshInterval"

definition acq_refreshCoalesced :: "('k, 'd, 'u, 'e) acq_options \<Rightarrow> ('k, 'd, 'u) acq_handler \<Rightarrow> string option \<times> ('k, 'd, 'u) acq_handler" where
  "acq_refreshCoalesced opts h =
     (if acq_throttled opts h then (None, h)
      else if acq_throttled opts h then (None, h)
      else case acq_refresh opts h of
          (Some e, h') \<Rightarrow> (Some e, h')
        | (None, h') \<Rightarrow> (None, h'\<lparr>alastRefreshAt := AcqNow opts (aworld h')\<rparr>))"

definition acq_verify :: "('k, 'd, 'u, 'e) acq_options \<Rightarrow> 'k held_key \<Rightarrow> string \<Rightarrow> string \<Rightarrow> ('k, 'd, 'u) acq_handler \<Rightarrow>
    acq_error option \<times> ('k, 'd, 'u) acq_handler" where
  "acq_verify opts key body xSign h =
     (let check = (\<lambda>k. VerifyWebhook (AcqCrypto opts) (Some (pub k)) body xSign);
          err = check key;
          (key1, err1, h1) =
            (if err = Some AcqBadSignature then
               (case acq_refreshCoalesced opts h of
                  (Some e, h') \<Rightarrow> (key, err, acq_report opts (AcqRefreshFailed e) h')
                | (None, h') \<Rightarrow>
                    (case akey h' of
                       Some k \<Rightarrow> if addr k \<noteq> addr key then (k, check k, h') else (key, err, h')
                     | None \<Rightarrow> (key, err, h')))
             else (key, err, h))
      in if err1 \<noteq> None then (err1, h1)
         else if 0 < MaxAge opts then
           (VerifyWebhookFresh (AcqCrypto opts) (AcqClock opts) (AcqNow opts (aworld h1)) (Some (pub key1)) body xSign (MaxAge opts), h1)
         else (None, h1))"

definition acq_deliver :: "('k, 'd, 'u, 'e) acq_options \<Rightarrow> 'e invoice_scheme \<Rightarrow> ('k, 'd, 'u) acq_handler \<Rightarrow> nat \<times> ('k, 'd, 'u) acq_handler" where
  "acq_deliver opts iv h =
     (let dkey = DedupKey (Some iv);
          (dup, h1) =
            (if dkey = [] then (False, acq_report opts EmptyInvoiceID h)
             else case AcqDedup opts of
                 None \<Rightarrow> (False, h)
               | Some api \<Rightarrow> (case api_Has api dkey (amemory h) of (b, d) \<Rightarrow> (b, h\<lparr>amemory := d\<rparr>)))
      in if dup then (200, h1)
         else case OnInvoice opts iv (aworld h1) of
             (Some e, u) \<Rightarrow> (500, acq_report opts (AcqOnEventFailed e) (h1\<lparr>aworld := u\<rparr>))
           | (None, u) \<Rightarrow>
               (200, case AcqDedup opts of
                       None \<Rightarrow> h1\<lparr>aworld := u\<rparr>
                     | Some api \<Rightarrow>
                         if dkey = [] then h1\<lparr>aworld := u\<rparr>
                         else h1\<lparr>aworld := u, amemory := api_Add api dkey (amemory h1)\<rparr>))"

definition acq_ServeHTTP :: "('k, 'd, 'u, 'e) acq_options \<Rightarrow> request \<Rightarrow> ('k, 'd, 'u) acq_handler \<Rightarrow> nat \<times> ('k, 'd, 'u) acq_handler" where
  "acq_ServeHTTP opts r h =
     (if Method r = ''GET'' then (200, h)
      else if Method r \<noteq> ''POST'' then (405, h)
      else case ReadLimited (AcqMaxBodyBytes opts) r of
          BodyTooLarge \<Rightarrow> (413, h)
        | BodyReadError \<Rightarrow> (400, h)
        | BodyOk body \<Rightarrow>
           (case akey h of
              None \<Rightarrow> (503, acq_report opts AcqKeyNotLoaded h)
            | Some key \<Rightarrow>
               (case acq_verify opts key body (Header r ''X-Sign'') h of
                  (Some e, h1) \<Rightarrow> (401, h1)
                | (None, h1) \<Rightarrow>
                   (case ParseWebhook opts body of
                      Inl e \<Rightarrow> (400, acq_report opts (AcqParseFailed e) h1)
                    | Inr iv \<Rightarrow> acq_deliver opts iv h1))))"

fun acq_serve_all :: "('k, 'd, 'u, 'e) acq_options \<Rightarrow> request list \<Rightarrow> ('k, 'd, 'u) acq_handler \<Rightarrow> ('k, 'd, 'u) acq_handler" where
  "acq_serve_all opts [] h = h"
| "acq_serve_all opts (r # rs) h = acq_serve_all opts rs (snd (acq_ServeHTTP opts r h))"

section \<open>Lemmas\<close>

lemma VerifyWebhook_None_iff:
  "VerifyWebhook cr pb body xSign = None \<longleftrightarrow>
    (\<exists>pk sig. pb = Some pk \<and> b64_decode xSign = Some sig \<and> VerifyASN1 cr pk (Sum256 cr body) sig)"
  by (auto simp: VerifyWebhook_def split: option.splits)

lemma VerifyWebhookFresh_None_iff:
  "VerifyWebhookFresh cr ck now pb body xSign maxAge = None \<longleftrightarrow>
    VerifyWebhook cr pb body xSign = None \<and>
    (\<exists>d t. ProbeDate ck body = Some d \<and> parseModifiedDate (ParseLayout ck) d = Inr t \<and>
      (0 < maxAge \<longrightarrow> Since now t \<le> maxAge))"
  by (auto simp: VerifyWebhookFresh_def split: option.splits sum.splits)

lemma acq_report_fields [simp]:
  "akey (acq_report opts e h) = akey h" "amemory (acq_report opts e h) = amemory h"
  by (simp_all add: acq_report_def split: option.split)

lemma acq_refresh_memory: "amemory (snd (acq_refresh opts h)) = amemory h"
  by (auto simp: acq_refresh_def split: prod.split sum.split)

lemma acq_refreshCoalesced_memory: "amemory (snd (acq_refreshCoalesced opts h)) = amemory h"
  using acq_refresh_memory [of opts h]
  by (auto simp: acq_refreshCoalesced_def split: prod.split option.split)

lemma acq_verify_memory: "amemory (snd (acq_verify opts key body x h)) = amemory h"
  using acq_refreshCoalesced_memory [of opts h]
  by (auto simp: acq_verify_def Let_def split: prod.split option.split)

lemma acq_verify_current:
  assumes "akey h = Some key" and "acq_verify opts key body x h = (None, h')"
  shows "\<exists>k. akey h' = Some k \<and> VerifyWebhook (AcqCrypto opts) (Some (pub k)) body x = None \<and>
    (0 < MaxAge opts \<longrightarrow> VerifyWebhookFresh (AcqCrypto opts) (AcqClock opts) (AcqNow opts (aworld h')) (Some (pub k)) body x (MaxAge opts) = None)"
proof (cases "VerifyWebhook (AcqCrypto opts) (Some (pub key)) body x = Some AcqBadSignature")
  case False
  with assms(2) have "h' = h" "VerifyWebhook (AcqCrypto opts) (Some (pub key)) body x = None"
    "0 < MaxAge opts \<longrightarrow> VerifyWebhookFresh (AcqCrypto opts) (AcqClock opts) (AcqNow opts (aworld h)) (Some (pub key)) body x (MaxAge opts) = None"
    by (auto simp: acq_verify_def Let_def split: if_splits)
  with assms(1) show ?thesis by blast
next
  case True
  obtain e h1 where r: "acq_refreshCoalesced opts h = (e, h1)" by fastforce
  from assms(2) True r obtain k where k: "e = None" "akey h1 = Some k" "addr k \<noteq> addr key" "h' = h1"
    "VerifyWebhook (AcqCrypto opts) (Some (pub k)) body x = None"
    "0 < MaxAge opts \<longrightarrow> VerifyWebhookFresh (AcqCrypto opts) (AcqClock opts) (AcqNow opts (aworld h1)) (Some (pub k)) body x (MaxAge opts) = None"
    by (auto simp: acq_verify_def Let_def split: if_splits option.splits)
  then show ?thesis by blast
qed

lemma acq_deliver_key: "akey (snd (acq_deliver opts i h)) = akey h"
  by (auto simp: acq_deliver_def Let_def split: prod.split option.split)

lemma acq_verify_OnInvoice: "acq_verify (opts\<lparr>OnInvoice := f\<rparr>) key body x h = acq_verify opts key body x h"
proof -
  have "acq_report (opts\<lparr>OnInvoice := f\<rparr>) = acq_report opts" by (simp add: fun_eq_iff acq_report_def)
  moreover have "acq_refresh (opts\<lparr>OnInvoice := f\<rparr>) = acq_refresh opts" by (simp add: fun_eq_iff acq_refresh_def split: sum.split prod.split)
  ultimately have "acq_refreshCoalesced (opts\<lparr>OnInvoice := f\<rparr>) = acq_refreshCoalesced opts"
    "acq_report (opts\<lparr>OnInvoice := f\<rparr>) = acq_report opts"
    by (simp_all add: fun_eq_iff acq_refreshCoalesced_def acq_throttled_def split: prod.split option.split)
  moreover have "AcqCrypto (opts\<lparr>OnInvoice := f\<rparr>) = AcqCrypto opts" "MaxAge (opts\<lparr>OnInvoice := f\<rparr>) = MaxAge opts"
    "AcqClock (opts\<lparr>OnInvoice := f\<rparr>) = AcqClock opts" "AcqNow (opts\<lparr>OnInvoice := f\<rparr>) = AcqNow opts"
    by simp_all
  note eqs = this calculation
  show ?thesis unfolding acq_verify_def eqs by (rule refl)
qed

lemma acq_deliver_memory:
  "amemory (snd (acq_deliver opts i h)) =
     (case AcqDedup opts of
        None \<Rightarrow> amemory h
      | Some api \<Rightarrow>
          let k = DedupKey (Some i)
          in if k = [] then amemory h
             else case api_Has api k (amemory h) of (dup, d) \<Rightarrow>
               if dup \<or> fst (OnInvoice opts i (aworld h)) \<noteq> None then d else api_Add api k d)"
  by (auto simp: acq_deliver_def Let_def split: prod.splits option.splits)

lemma acq_deliver_200_iff:
  "fst (acq_deliver opts i h) = 200 \<longleftrightarrow>
     (let k = DedupKey (Some i);
          dup = (k \<noteq> [] \<and> (case AcqDedup opts of None \<Rightarrow> False | Some api \<Rightarrow> fst (api_Has api k (amemory h))));
          w = aworld (if k = [] then acq_report opts EmptyInvoiceID h else h)
      in dup \<or> fst (OnInvoice opts i w) = None)"
  by (auto simp: acq_deliver_def Let_def split: prod.splits option.splits)

lemma acq_ServeHTTP_cases:
  "(amemory (snd (acq_ServeHTTP opts r h)) = amemory h \<and>
      (Method r = ''POST'' \<longrightarrow> fst (acq_ServeHTTP opts r h) \<in> {413, 400, 503, 401})) \<or>
   (\<exists>i h1. amemory h1 = amemory h \<and> ParseWebhook opts (Body r) = Inr i \<and> acq_ServeHTTP opts r h = acq_deliver opts i h1)"
proof -
  have m: "amemory h1 = amemory h" if "acq_verify opts k b x h = (e, h1)" for k b x e h1
    using acq_verify_memory [of opts k b x h] that by simp
  show ?thesis
    by (auto simp: acq_ServeHTTP_def ReadLimited_def split: option.split prod.split sum.split dest: m)
qed

context deduper
begin

lemma acq_request_keeps:
  assumes "AcqDedup opts = Some api" and "dinv (amemory h)" and "k \<in> seen (amemory h)"
    and "age (amemory h) k + 1 < window (amemory h)"
    and d'_def: "d' = amemory (snd (acq_ServeHTTP opts r h))"
  shows "dinv d' \<and> k \<in> seen d' \<and> age d' k \<le> age (amemory h) k + 1 \<and> window d' = window (amemory h)"
  using acq_ServeHTTP_cases [of opts r h]
proof
  assume "amemory (snd (acq_ServeHTTP opts r h)) = amemory h \<and>
      (Method r = ''POST'' \<longrightarrow> fst (acq_ServeHTTP opts r h) \<in> {413, 400, 503, 401})"
  with assms show ?thesis by simp
next
  assume "\<exists>i h1. amemory h1 = amemory h \<and> ParseWebhook opts (Body r) = Inr i \<and> acq_ServeHTTP opts r h = acq_deliver opts i h1"
  then obtain i h1 where h1: "amemory h1 = amemory h" and s: "acq_ServeHTTP opts r h = acq_deliver opts i h1" by blast
  let ?j = "DedupKey (Some i)"
  from h1 have "d' = amemory h \<or> d' = snd (has ?j (amemory h)) \<or>
      (\<not> fst (has ?j (amemory h)) \<and> d' = add ?j (snd (has ?j (amemory h))))"
    unfolding d'_def s acq_deliver_memory assms(1) by (auto simp: Let_def split: prod.split)
  then show ?thesis
    using check_then_record_keeps [OF assms(2-4), of d' ?j] assms(2-4) by auto
qed

lemma acq_serve_all_keeps:
  assumes "AcqDedup opts = Some api"
  shows "dinv (amemory h) \<Longrightarrow> k \<in> seen (amemory h) \<Longrightarrow> age (amemory h) k + length rs < window (amemory h) \<Longrightarrow>
    dinv (amemory (acq_serve_all opts rs h)) \<and> k \<in> seen (amemory (acq_serve_all opts rs h))"
proof (induction rs arbitrary: h)
  case (Cons r rs)
  from Cons.prems have "age (amemory h) k + 1 < window (amemory h)" by simp
  from acq_request_keeps [OF assms Cons.prems(1,2) this refl, of r] Cons.prems(3)
  show ?case unfolding acq_serve_all.simps by (intro Cons.IH) auto
qed simp

lemma acq_delivered_recorded:
  assumes "AcqDedup opts = Some api" and "dinv (amemory h)" and "DedupKey (Some i) = k" and "k \<noteq> []"
    and "fst (acq_deliver opts i h) = 200" and d'_def: "d' = amemory (snd (acq_deliver opts i h))"
  shows "dinv d' \<and> k \<in> seen d' \<and> age d' k = 0 \<and> window d' = window (amemory h)"
proof -
  let ?d = "snd (has k (amemory h))"
  have "fst (has k (amemory h)) \<and> d' = ?d \<or> \<not> fst (has k (amemory h)) \<and> d' = add k ?d"
    using assms(1,3-5) unfolding acq_deliver_200_iff d'_def acq_deliver_memory
    by (auto simp: Let_def split: prod.split)
  then show ?thesis
    using assms(2,4) has_iff [OF assms(2), of k] age_has_same [OF assms(2), of k]
    by (auto simp: dinv_has dinv_add seen_has window_has window_add seen_add_new age_add_new)
qed

lemma acq_known_not_delivered:
  assumes "AcqDedup opts = Some api" and "dinv (amemory h)" and "k \<in> seen (amemory h)"
    and "ParseWebhook opts (Body r) = Inr i" and "DedupKey (Some i) = k"
  shows "acq_ServeHTTP (opts\<lparr>OnInvoice := f\<rparr>) r h = acq_ServeHTTP (opts\<lparr>OnInvoice := g\<rparr>) r h"
proof -
  have ne: "k \<noteq> []" using assms(2,3) empty_not_seen by auto
  have d: "acq_deliver (opts\<lparr>OnInvoice := f\<rparr>) i h1 = acq_deliver (opts\<lparr>OnInvoice := g\<rparr>) i h1"
    if "amemory h1 = amemory h" for h1
    using assms(1,3,5) ne that has_iff [OF assms(2), of k]
    by (auto simp: acq_deliver_def Let_def split: prod.split)
  have m: "amemory h1 = amemory h" if "acq_verify opts k' b x h = (e, h1)" for k' b x e h1
    using acq_verify_memory [of opts k' b x h] that by simp
  show ?thesis
    using assms(4)
    by (auto simp: acq_ServeHTTP_def ReadLimited_def acq_verify_OnInvoice acq_report_def d m split: option.split prod.split)
qed

end

section \<open>Properties\<close>

text \<open>C27: the acquiring callback only ever sees authentic, fresh, new invoice states. If replacing
  \<open>OnEvent\<close> changes what \<open>ServeHTTP\<close> does to anything, then the request was a POST within the size
  limit, the key held afterwards (possibly fetched meanwhile) verifies the signature over the bytes
  that were parsed, with \<open>MaxAge\<close> set the signed \<open>modifiedDate\<close> parses and is not older than that, and
  the dedup key was not remembered as processed.\<close>
theorem OnInvoice_only_for_verified_new_states:
  assumes "acq_ServeHTTP (opts\<lparr>OnInvoice := f\<rparr>) r h \<noteq> acq_ServeHTTP (opts\<lparr>OnInvoice := g\<rparr>) r h"
  defines "h' \<equiv> snd (acq_verify opts (the (akey h)) (Body r) (Header r ''X-Sign'') h)"
  shows "\<exists>k sig i. Method r = ''POST'' \<and> int (length (Body r)) \<le> AcqMaxBodyBytes opts
    \<and> akey (snd (acq_ServeHTTP (opts\<lparr>OnInvoice := f\<rparr>) r h)) = Some k
    \<and> b64_decode (Header r ''X-Sign'') = Some sig
    \<and> VerifyASN1 (AcqCrypto opts) (pub k) (Sum256 (AcqCrypto opts) (Body r)) sig
    \<and> (0 < MaxAge opts \<longrightarrow> (\<exists>d t. ProbeDate (AcqClock opts) (Body r) = Some d
         \<and> parseModifiedDate (ParseLayout (AcqClock opts)) d = Inr t
         \<and> Since (AcqNow opts (aworld h')) t \<le> MaxAge opts))
    \<and> ParseWebhook opts (Body r) = Inr i
    \<and> (\<nexists>api. AcqDedup opts = Some api \<and> DedupKey (Some i) \<noteq> [] \<and> fst (api_Has api (DedupKey (Some i)) (amemory h)))"
proof -
  have p: "Method r = ''POST''" "\<not> AcqMaxBodyBytes opts < int (length (Body r))" "\<not> BodyErr r"
    using assms by (auto simp: acq_ServeHTTP_def ReadLimited_def split: if_splits)
  then obtain key where key: "akey h = Some key"
    using assms by (cases "akey h") (auto simp: acq_ServeHTTP_def ReadLimited_def acq_report_def)
  obtain e h1 where v: "acq_verify opts key (Body r) (Header r ''X-Sign'') h = (e, h1)" by fastforce
  have vf: "acq_verify (opts\<lparr>OnInvoice := F\<rparr>) key (Body r) (Header r ''X-Sign'') h = (e, h1)" for F
    using v by (simp add: acq_verify_OnInvoice)
  have e: "e = None"
    using assms p key by (cases e) (simp_all add: acq_ServeHTTP_def ReadLimited_def vf)
  obtain i where i: "ParseWebhook opts (Body r) = Inr i"
    using assms p key e
    by (cases "ParseWebhook opts (Body r)") (simp_all add: acq_ServeHTTP_def ReadLimited_def vf acq_report_def)
  have s: "acq_ServeHTTP (opts\<lparr>OnInvoice := F\<rparr>) r h = acq_deliver (opts\<lparr>OnInvoice := F\<rparr>) i h1" for F
    using p key e i by (simp add: acq_ServeHTTP_def ReadLimited_def vf)
  have "amemory h1 = amemory h" using acq_verify_memory [of opts key] v by (metis snd_conv)
  with assms have n: "\<nexists>api. AcqDedup opts = Some api \<and> DedupKey (Some i) \<noteq> []
      \<and> fst (api_Has api (DedupKey (Some i)) (amemory h))"
    unfolding s by (auto simp: acq_deliver_def Let_def split: prod.splits)
  obtain k where k: "akey h1 = Some k" "VerifyWebhook (AcqCrypto opts) (Some (pub k)) (Body r) (Header r ''X-Sign'') = None"
    "0 < MaxAge opts \<longrightarrow> VerifyWebhookFresh (AcqCrypto opts) (AcqClock opts) (AcqNow opts (aworld h1)) (Some (pub k)) (Body r) (Header r ''X-Sign'') (MaxAge opts) = None"
    using acq_verify_current [OF key v [unfolded e]] by blast
  have h': "h' = h1" unfolding h'_def using key v by simp
  have "akey (snd (acq_ServeHTTP (opts\<lparr>OnInvoice := f\<rparr>) r h)) = Some k"
    unfolding s acq_deliver_key by (rule k(1))
  with p k i n show ?thesis
    unfolding h' by (auto simp: VerifyWebhook_None_iff VerifyWebhookFresh_None_iff)
qed

definition demo_acq_options :: "(nat, memory_deduper, string list, unit) acq_options" where
  \<comment> \<open>as \<open>demo_options\<close>: a signature repeats the body, a body is an invoice id\<close>
  "demo_acq_options =
     \<lparr>PubKeyOf = (\<lambda>u. (Inr (Some (b64_encode ''pem'')), u)),
      KeyParsers = \<lparr>pem_Decode = Some, ParsePKIX = (\<lambda>_. Inr (ECDSA_P256 7))\<rparr>,
      OnInvoice = (\<lambda>i u. (None, InvoiceID i # u)), AcqDedup = Some \<lparr>api_Has = Has, api_Add = Add_id\<rparr>,
      MaxAge = 0, AcqOnError = None, AcqMaxBodyBytes = AcqDefaultMaxBodyBytes, AcqNow = (\<lambda>_. 0),
      AcqCrypto = \<lparr>Sum256 = (\<lambda>b. b), VerifyASN1 = (\<lambda>k d s. k = 7 \<and> s = d)\<rparr>,
      AcqClock = \<lparr>ParseLayout = (\<lambda>_ _. None), ProbeDate = (\<lambda>_. None)\<rparr>,
      ParseWebhook = (\<lambda>b. Inr \<lparr>InvoiceID = b, ModifiedDate = []\<rparr>)\<rparr>"

definition demo_acq_handler :: "(nat, memory_deduper, string list) acq_handler" where
  \<comment> \<open>the held key is out of date, so the first request makes the handler fetch the key\<close>
  "demo_acq_handler = \<lparr>akey = Some \<lparr>addr = 0, pub = 5\<rparr>, nextAddr = 1, alastRefreshAt = zero_time,
     amemory = NewMemoryDeduper 2, aworld = []\<rparr>"

lemma demo_acq_throttled: "\<not> acq_throttled (demo_acq_options\<lparr>OnInvoice := f\<rparr>) demo_acq_handler"
  by (simp add: acq_throttled_def demo_acq_options_def demo_acq_handler_def Since_def zero_time_def
      acqMinRefreshInterval_def ns_per_s_def int64_min_def int64_max_def)

lemma demo_acq_serve:
  "acq_ServeHTTP (demo_acq_options\<lparr>OnInvoice := f\<rparr>) (demo_request ''inv'') demo_acq_handler =
   acq_deliver (demo_acq_options\<lparr>OnInvoice := f\<rparr>) \<lparr>InvoiceID = ''inv'', ModifiedDate = []\<rparr>
     (demo_acq_handler\<lparr>akey := Some \<lparr>addr = 1, pub = 7\<rparr>, nextAddr := 2, alastRefreshAt := 0\<rparr>)"
proof -
  let ?h = "demo_acq_handler\<lparr>akey := Some \<lparr>addr = 1, pub = 7\<rparr>, nextAddr := 2\<rparr>"
  have "b64_encode ''pem'' \<noteq> []" by simp
  then have "acq_refresh (demo_acq_options\<lparr>OnInvoice := f\<rparr>) demo_acq_handler = (None, ?h)"
    by (simp add: acq_refresh_def demo_acq_options_def demo_acq_handler_def Public_def
        ParsePubKey_def b64_decode_encode del: b64_encode.simps)
  then have "acq_refreshCoalesced (demo_acq_options\<lparr>OnInvoice := f\<rparr>) demo_acq_handler = (None, ?h\<lparr>alastRefreshAt := 0\<rparr>)"
    using demo_acq_throttled [of f]
    by (simp add: acq_refreshCoalesced_def) (simp add: demo_acq_options_def)
  moreover have "akey demo_acq_handler = Some \<lparr>addr = 0, pub = 5\<rparr>" by (simp add: demo_acq_handler_def)
  moreover have "VerifyWebhook (AcqCrypto demo_acq_options) (Some 5) ''inv'' (b64_encode ''inv'') = Some AcqBadSignature"
    "VerifyWebhook (AcqCrypto demo_acq_options) (Some 7) ''inv'' (b64_encode ''inv'') = None"
    by (simp_all add: VerifyWebhook_def b64_decode_encode demo_acq_options_def del: b64_encode.simps)
  moreover have "MaxAge demo_acq_options = 0" "AcqMaxBodyBytes demo_acq_options = 1048576"
    "ParseWebhook demo_acq_options ''inv'' = Inr \<lparr>InvoiceID = ''inv'', ModifiedDate = []\<rparr>"
    by (simp_all add: demo_acq_options_def AcqDefaultMaxBodyBytes_def)
  ultimately show ?thesis
    by (simp add: acq_ServeHTTP_def ReadLimited_def acq_verify_def demo_request_def Let_def del: b64_encode.simps)
qed

theorem OnInvoice_only_for_verified_new_states_witness:
  "\<exists>k. akey (snd (acq_ServeHTTP (demo_acq_options\<lparr>OnInvoice := \<lambda>_ u. (None, u)\<rparr>) (demo_request ''inv'') demo_acq_handler)) = Some k
    \<and> pub k = 7"
proof -
  have "fst (acq_ServeHTTP (demo_acq_options\<lparr>OnInvoice := \<lambda>_ u. (None, u)\<rparr>) (demo_request ''inv'') demo_acq_handler) = 200"
       "fst (acq_ServeHTTP (demo_acq_options\<lparr>OnInvoice := \<lambda>_ u. (Some [], u)\<rparr>) (demo_request ''inv'') demo_acq_handler) = 500"
    unfolding demo_acq_serve
    by (simp_all add: acq_deliver_def DedupKey_def demo_acq_options_def demo_acq_handler_def Has_def NewMemoryDeduper_def Let_def)
  then have "acq_ServeHTTP (demo_acq_options\<lparr>OnInvoice := \<lambda>_ u. (None, u)\<rparr>) (demo_request ''inv'') demo_acq_handler
      \<noteq> acq_ServeHTTP (demo_acq_options\<lparr>OnInvoice := \<lambda>_ u. (Some [], u)\<rparr>) (demo_request ''inv'') demo_acq_handler"
    by auto
  from OnInvoice_only_for_verified_new_states [OF this] show ?thesis
    by (auto simp: demo_acq_options_def)
qed

text \<open>A redelivered invoice state is not processed twice. Once \<open>ServeHTTP\<close> has answered 200 to a
  POST whose payload has a dedup key, then after any further requests, fewer than the memory's
  capacity, a request with the same key does not depend on \<open>OnEvent\<close> at all; and if it answered
  500 the key is not remembered, so the retry will run \<open>OnEvent\<close> again.\<close>
theorem invoice_state_processed_once:
  assumes "AcqDedup opts = Some \<lparr>api_Has = Has, api_Add = Add_id\<rparr>" and "lru_inv (amemory h)"
    and "Method r = ''POST''" and "ParseWebhook opts (Body r) = Inr i" and "DedupKey (Some i) \<noteq> []"
    and "int (length rs) < capacity (amemory h)"
    and "ParseWebhook opts (Body r') = Inr i'" and "DedupKey (Some i') = DedupKey (Some i)"
    and "acq_ServeHTTP opts r h = (code, h1)"
  shows "(code = 200 \<longrightarrow> acq_ServeHTTP (opts\<lparr>OnInvoice := f\<rparr>) r' (acq_serve_all opts rs h1)
        = acq_ServeHTTP (opts\<lparr>OnInvoice := g\<rparr>) r' (acq_serve_all opts rs h1))
    \<and> (code = 500 \<longrightarrow> DedupKey (Some i) \<notin> set (lru_abs (amemory h1)))"
proof -
  let ?k = "DedupKey (Some i)"
  have d: "\<exists>h2. amemory h2 = amemory h \<and> acq_deliver opts i h2 = (code, h1)" if "code = 200 \<or> code = 500"
    using acq_ServeHTTP_cases [of opts r h] that assms(3,4,9) by auto
  have once: "acq_ServeHTTP (opts\<lparr>OnInvoice := f\<rparr>) r' (acq_serve_all opts rs h1)
      = acq_ServeHTTP (opts\<lparr>OnInvoice := g\<rparr>) r' (acq_serve_all opts rs h1)" if c: "code = 200"
  proof -
    obtain h2 where h2: "amemory h2 = amemory h" "acq_deliver opts i h2 = (code, h1)" using d c by blast
    have "lru_inv (amemory h1) \<and> ?k \<in> set (lru_abs (amemory h1)) \<and> lru_age (lru_abs (amemory h1)) ?k = 0
        \<and> nat (capacity (amemory h1)) = nat (capacity (amemory h))"
      using mem_dedup.acq_delivered_recorded [OF assms(1), of h2 i ?k] h2 assms(2,5) c by simp
    with mem_dedup.acq_serve_all_keeps [OF assms(1), of h1 ?k rs] assms(6)
    have "lru_inv (amemory (acq_serve_all opts rs h1)) \<and> ?k \<in> set (lru_abs (amemory (acq_serve_all opts rs h1)))" by simp
    with mem_dedup.acq_known_not_delivered [OF assms(1), of _ ?k] assms(7,8) show ?thesis by blast
  qed
  have "?k \<notin> set (lru_abs (amemory h1))" if c: "code = 500"
  proof -
    obtain h2 where h2: "amemory h2 = amemory h" "acq_deliver opts i h2 = (code, h1)" using d c by blast
    then have "amemory h1 = snd (Has ?k (amemory h)) \<and> \<not> fst (Has ?k (amemory h))"
      using acq_deliver_memory [of opts i h2] acq_deliver_200_iff [of opts i h2] c assms(1,5)
      by (auto simp: Let_def split: prod.splits)
    then show ?thesis using mem_dedup.has_iff [OF assms(2)] mem_dedup.seen_has [OF assms(2)] by auto
  qed
  with once show ?thesis by blast
qed

theorem invoice_state_processed_once_witness:
  "acq_ServeHTTP (demo_acq_options\<lparr>OnInvoice := \<lambda>_ u. (None, ''again'' # u)\<rparr>) (demo_request ''inv'')
     (snd (acq_ServeHTTP demo_acq_options (demo_request ''inv'') demo_acq_handler))
   = acq_ServeHTTP (demo_acq_options\<lparr>OnInvoice := \<lambda>_ u. (Some ''no'', u)\<rparr>) (demo_request ''inv'')
     (snd (acq_ServeHTTP demo_acq_options (demo_request ''inv'') demo_acq_handler))"
proof -
  let ?i = "\<lparr>InvoiceID = ''inv'', ModifiedDate = []\<rparr>"
  have p: "ParseWebhook demo_acq_options (Body (demo_request ''inv'')) = Inr ?i"
    by (simp add: demo_acq_options_def demo_request_def)
  have d: "AcqDedup demo_acq_options = Some \<lparr>api_Has = Has, api_Add = Add_id\<rparr>" by (simp add: demo_acq_options_def)
  have m: "lru_inv (amemory demo_acq_handler)" by (simp add: demo_acq_handler_def lru_inv_New)
  have k: "DedupKey (Some ?i) \<noteq> []" by (simp add: DedupKey_def)
  obtain code h1 where s: "acq_ServeHTTP demo_acq_options (demo_request ''inv'') demo_acq_handler = (code, h1)" by fastforce
  have "fst (acq_ServeHTTP (demo_acq_options\<lparr>OnInvoice := OnInvoice demo_acq_options\<rparr>) (demo_request ''inv'') demo_acq_handler) = 200"
    unfolding demo_acq_serve
    by (simp add: acq_deliver_def DedupKey_def demo_acq_options_def demo_acq_handler_def Has_def NewMemoryDeduper_def Let_def)
  with s have c: "code = 200" by simp
  have "Method (demo_request ''inv'') = ''POST''" "int (length []) < capacity (amemory demo_acq_handler)"
    by (simp_all add: demo_request_def demo_acq_handler_def NewMemoryDeduper_def)
  from invoice_state_processed_once [OF d m this(1) p k this(2) p refl s] c s show ?thesis by simp
qed

text \<open>The dedup key tells invoice states apart. For invoice ids without a vertical bar, two payloads
  have the same key exactly when both the invoice id and the modified date agree, and the key is
  empty exactly when both are.\<close>
theorem DedupKey_identifies_state:
  assumes "CHR ''|'' \<notin> set (InvoiceID i)" and "CHR ''|'' \<notin> set (InvoiceID j)"
  shows "(DedupKey (Some i) = DedupKey (Some j) \<longleftrightarrow> InvoiceID i = InvoiceID j \<and> ModifiedDate i = ModifiedDate j)
    \<and> (DedupKey (Some i) = [] \<longleftrightarrow> InvoiceID i = [] \<and> ModifiedDate i = [])"
proof -
  have split: "takeWhile (\<lambda>c. c \<noteq> CHR ''|'') (a @ CHR ''|'' # d) = a" if "CHR ''|'' \<notin> set a" for a d :: string
    using that by (induction a) auto
  have bar: "a @ CHR ''|'' # d \<noteq> b" if "CHR ''|'' \<notin> set b" for a b d :: string
    using that by auto
  have inj: "a @ CHR ''|'' # d = b @ CHR ''|'' # e \<longleftrightarrow> a = b \<and> d = e"
    if "CHR ''|'' \<notin> set a" "CHR ''|'' \<notin> set b" for a b d e :: string
    using split that by (metis append_same_eq list.inject same_append_eq)
  show ?thesis
    using assms bar [OF assms(1)] bar [OF assms(2)] inj [OF assms]
    by (auto simp: DedupKey_def)
qed

theorem DedupKey_identifies_state_witness:
  "DedupKey (Some \<lparr>InvoiceID = ''p2_9ZgpZVsl3'', ModifiedDate = ''2024-01-01T00:00:00Z''\<rparr>)
    \<noteq> DedupKey (Some \<lparr>InvoiceID = ''p2_9ZgpZVsl3'', ModifiedDate = ''2024-01-01T00:00:05Z''\<rparr>)"
  by (subst DedupKey_identifies_state [THEN conjunct1]) simp_all

text \<open>Payloads without an invoice id still get a key when they carry a date: two of them with the same
  date are taken for one state, and the warning about the empty id is not given.\<close>

lemma DedupKey_without_invoice_id: "DedupKey (Some \<lparr>InvoiceID = [], ModifiedDate = ''d''\<rparr>) = ''|d''"
  by (simp add: DedupKey_def)

end
