(* ===== verification/Acquiring_Reconcile.thy ===== *)
theory Acquiring_Reconcile
  imports Acquiring_Webhook Money "HOL-Library.List_Lexorder" "HOL-Library.Char_ord"
begin

text \<open>
  What a merchant does when webhooks are not enough: classifying subscriptions
  (\<open>acquiring/lifecycle.go\<close>), polling an invoice and comparing a statement with the merchant's own
  records (\<open>acquiring/reconcile.go\<close>), with the payload types these read (\<open>acquiring/types.go\<close>,
  \<open>acquiring/subscription.go\<close>).

  The string enumerations stay strings, as in the code, since the server may send anything. A Go map
  is an association list with distinct keys in the (arbitrary) order a \<open>range\<close> visits it. Polling runs
  against an explicit clock: a context has a deadline and may be cancelled at some instant, a
  \<open>select\<close> waits for whichever of timer and context comes first, and a tie is decided by a parameter.
\<close>

section \<open>Subscriptions\<close>

record subscription_wallet_data =
  swCardToken :: string
  swWalletID :: string
  swStatus :: string
  FailureDescription :: string

record subscription_summary =
  TotalPaid :: int
  TotalFailed :: int

record subscription_status_response =
  SubscriptionID :: string
  sStatus :: string
  StartDate :: string
  EndDate :: string
  sAmount :: int
  sCurrency :: int
  Interval :: string
  NextChargeDate :: string
  CancellationDesc :: string
  Summary :: subscription_summary
  sWalletData :: subscription_wallet_data

definition AmountMoney :: "subscription_status_response \<Rightarrow> money" where
  "AmountMoney s = Money_New (sAmount s) (sCurrency s)"

datatype subscription_health =
    HealthActive | HealthChargeFailed | HealthWalletDead | HealthCancelled | HealthUnknown

definition GraceEligible :: "subscription_health \<Rightarrow> bool" where
  "GraceEligible h \<longleftrightarrow> h = HealthChargeFailed"

definition Terminal :: "subscription_health \<Rightarrow> bool" where
  "Terminal h \<longleftrightarrow> h = HealthCancelled \<or> h = HealthWalletDead"

definition RetainAccess :: "subscription_health \<Rightarrow> bool" where
  "RetainAccess h \<longleftrightarrow> \<not> Terminal h"

definition ClassifySubscription :: "subscription_status_response option \<Rightarrow> subscription_health" where
  "ClassifySubscription sto =
     (case sto of
        None \<Rightarrow> HealthUnknown
      | Some st \<Rightarrow>
          if sStatus st = ''cancelled'' then HealthCancelled
          else if swStatus (sWalletData st) = ''failed'' then HealthWalletDead
          else if sStatus st = ''active'' then HealthActive
          else HealthUnknown)"

definition ClassifyCharge :: "string \<Rightarrow> string \<Rightarrow> subscription_health" where
  "ClassifyCharge payment walletStatus =
     (if walletStatus = ''failed'' then HealthWalletDead
      else if payment = ''failed'' then HealthChargeFailed
      else if payment = ''success'' \<or> payment = ''new'' then HealthActive
      else HealthUnknown)"

section \<open>Payloads\<close>

record cancel_op =
  coStatus :: string
  coAmount :: money
  coCurrency :: int
  coCreatedDate :: string
  coModifiedDate :: string
  coApprovalCode :: string
  coRRN :: string
  coExtRef :: string

definition CancelOp_UnmarshalJSON :: "(string \<Rightarrow> string + cancel_op) \<Rightarrow> string \<Rightarrow> string + cancel_op" where
  "CancelOp_UnmarshalJSON unmarshal data =
     (case unmarshal data of
        Inl e \<Rightarrow> Inl e
      | Inr r \<Rightarrow> Inr (r\<lparr>coAmount := (coAmount r)\<lparr>Code := coCurrency r\<rparr>\<rparr>))"

record payment_info =
  piMaskedPan :: string
  piApprovalCode :: string
  piRRN :: string
  TranID :: string
  piTerminal :: string
  Bank :: string
  PaymentSystem :: string
  PaymentMethod :: string
  Fee :: money
  Country :: string
  AgentFee :: money

record wallet_data =
  CardToken :: string
  WalletID :: string
  wStatus :: string

record tips_info =
  EmployeeID :: string
  tAmount :: int

record invoice_status_response = invoice +
  iStatus :: string
  FailureReason :: string
  iErrCode :: string
  iAmount :: money
  iCurrency :: int
  FinalAmount :: money
  CreatedDate :: string
  Reference :: string
  Destination :: string
  CancelList :: "cancel_op list"
  PaymentInfo :: "payment_info option"
  WalletData :: "wallet_data option"
  TipsInfo :: "tips_info option"

definition InvoiceStatusResponse_UnmarshalJSON ::
  "(string \<Rightarrow> string + invoice_status_response) \<Rightarrow> string \<Rightarrow> string + invoice_status_response" where
  \<comment> \<open>\<open>unmarshal\<close> decodes into \<open>raw\<close>, which runs \<open>CancelOp.UnmarshalJSON\<close> on the elements of \<open>CancelList\<close>\<close>
  "InvoiceStatusResponse_UnmarshalJSON unmarshal data =
     (case unmarshal data of
        Inl e \<Rightarrow> Inl e
      | Inr r \<Rightarrow>
          let c = iCurrency r
          in Inr (r\<lparr>iAmount := (iAmount r)\<lparr>Code := c\<rparr>, FinalAmount := (FinalAmount r)\<lparr>Code := c\<rparr>,
                    PaymentInfo := map_option (\<lambda>p. p\<lparr>Fee := (Fee p)\<lparr>Code := c\<rparr>, AgentFee := (AgentFee p)\<lparr>Code := c\<rparr>\<rparr>)
                                     (PaymentInfo r)\<rparr>))"

record statement_refund =
  rAmount :: money
  rCurrency :: int
  rDate :: string
  rApprovalCode :: string
  rRRN :: string
  rMaskedPan :: string

definition StatementRefund_UnmarshalJSON :: "(string \<Rightarrow> string + statement_refund) \<Rightarrow> string \<Rightarrow> string + statement_refund" where
  "StatementRefund_UnmarshalJSON unmarshal data =
     (case unmarshal data of
        Inl e \<Rightarrow> Inl e
      | Inr r \<Rightarrow> Inr (r\<lparr>rAmount := (rAmount r)\<lparr>Code := rCurrency r\<rparr>\<rparr>))"

record statement_invoice =
  siInvoiceID :: string
  siStatus :: string
  siMaskedPan :: string
  siDate :: string
  PaymentScheme :: string
  siAmount :: money
  ProfitAmount :: money
  siCurrency :: int
  siApprovalCode :: string
  siRRN :: string
  siReference :: string
  ShortQrID :: string
  siDestination :: string
  siCancelList :: "statement_refund list"
  Metadata :: "(string \<times> string) list"

definition StatementInvoice_UnmarshalJSON :: "(string \<Rightarrow> string + statement_invoice) \<Rightarrow> string \<Rightarrow> string + statement_invoice" where
  "StatementInvoice_UnmarshalJSON unmarshal data =
     (case unmarshal data of
        Inl e \<Rightarrow> Inl e
      | Inr r \<Rightarrow> Inr (r\<lparr>siAmount := (siAmount r)\<lparr>Code := siCurrency r\<rparr>,
                        ProfitAmount := (ProfitAmount r)\<lparr>Code := siCurrency r\<rparr>\<rparr>))"

section \<open>Polling\<close>

definition IsTerminal :: "string \<Rightarrow> bool" where
  "IsTerminal s \<longleftrightarrow> s = ''success'' \<or> s = ''failure'' \<or> s = ''reversed'' \<or> s = ''expired''"

record poll_options =
  PollInterval :: int
  Timeout :: int
  TreatHoldAsTerminal :: bool

definition defaultPollInterval :: int where
  "defaultPollInterval = 2 * ns_per_s"

definition minPollInterval :: int where
  "minPollInterval = 500000000"

datatype ctx_error = DeadlineExceeded | Canceled

record go_context =
  Deadline :: "int option"
  CancelAt :: "int option"   \<comment> \<open>when the caller cancels it, if ever\<close>

definition ctx_done :: "go_context \<Rightarrow> (int \<times> ctx_error) option" where
  \<comment> \<open>when \<open>ctx.Done()\<close> is closed, and the \<open>ctx.Err()\<close> from then on\<close>
  "ctx_done ctx =
     (case (Deadline ctx, CancelAt ctx) of
        (None, None) \<Rightarrow> None
      | (Some d, None) \<Rightarrow> Some (d, DeadlineExceeded)
      | (None, Some c) \<Rightarrow> Some (c, Canceled)
      | (Some d, Some c) \<Rightarrow> if c < d then Some (c, Canceled) else Some (d, DeadlineExceeded))"

definition WithTimeout :: "go_context \<Rightarrow> int \<Rightarrow> int \<Rightarrow> go_context" where
  \<comment> \<open>\<open>context.WithTimeout(ctx, timeout)\<close> at the instant \<open>now\<close>\<close>
  "WithTimeout ctx now timeout =
     ctx\<lparr>Deadline := Some (case Deadline ctx of None \<Rightarrow> now + timeout | Some d \<Rightarrow> min d (now + timeout))\<rparr>"

record 'w timed =
  tnow :: int
  others :: 'w

definition select_timer :: "('w timed \<Rightarrow> bool) \<Rightarrow> go_context \<Rightarrow> int \<Rightarrow> 'w timed \<Rightarrow> ctx_error option \<times> 'w timed" where
  \<comment> \<open>\<open>select { case <-ctx.Done(): case <-timer.C: }\<close> for a timer due at \<open>due\<close>; \<open>tie\<close> is the runtime's
      choice when both are ready\<close>
  "select_timer tie ctx due w =
     (let fires = max (tnow w) due
      in case ctx_done ctx of
          None \<Rightarrow> (None, w\<lparr>tnow := fires\<rparr>)
        | Some (d, e) \<Rightarrow>
            let ends = max (tnow w) d
            in if ends < fires \<or> ends = fires \<and> tie w then (Some e, w\<lparr>tnow := ends\<rparr>)
               else (None, w\<lparr>tnow := fires\<rparr>))"

datatype poll_error =
    ErrEmptyID | ErrPollTimeout "string option" | PollCanceled | StatusFailed string

definition poll_stopped :: "invoice_status_response option \<Rightarrow> ctx_error \<Rightarrow> invoice_status_response option \<times> poll_error option" where
  "poll_stopped last' e =
     (case (e, last') of
        (DeadlineExceeded, Some iv) \<Rightarrow> (Some iv, Some (ErrPollTimeout (Some (iStatus iv))))
      | (DeadlineExceeded, None) \<Rightarrow> (None, Some (ErrPollTimeout None))
      | (Canceled, _) \<Rightarrow> (last', Some PollCanceled))"

partial_function (option) poll_loop ::
  "('w timed \<Rightarrow> bool) \<Rightarrow> (go_context \<Rightarrow> string \<Rightarrow> 'w timed \<Rightarrow> (string + invoice_status_response) \<times> 'w timed) \<Rightarrow>
   go_context \<Rightarrow> string \<Rightarrow> (string \<Rightarrow> bool) \<Rightarrow> int \<Rightarrow> int \<Rightarrow> invoice_status_response option \<Rightarrow> 'w timed \<Rightarrow>
   ((invoice_status_response option \<times> poll_error option) \<times> 'w timed) option" where
  "poll_loop tie InvoiceStatus ctx invoiceID terminal interval due last' w =
     (case select_timer tie ctx due w of (done, w1) \<Rightarrow>
        if done \<noteq> None then Some (poll_stopped last' (the done), w1)
        else case InvoiceStatus ctx invoiceID w1 of
            (Inl e, w2) \<Rightarrow> Some ((None, Some (StatusFailed e)), w2)
          | (Inr iv, w2) \<Rightarrow>
              if terminal (iStatus iv) then Some ((Some iv, None), w2)
              else poll_loop tie InvoiceStatus ctx invoiceID terminal interval (tnow w2 + interval) (Some iv) w2)"

definition poll_interval :: "poll_options \<Rightarrow> int" where
  "poll_interval opts =
     (let interval = (if PollInterval opts \<le> 0 then defaultPollInterval else PollInterval opts)
      in if interval < minPollInterval then minPollInterval else interval)"

definition poll_terminal :: "poll_options \<Rightarrow> string \<Rightarrow> bool" where
  "poll_terminal opts s \<longleftrightarrow> IsTerminal s \<or> (TreatHoldAsTerminal opts \<and> s = ''hold'')"

definition PollInvoice ::
  "('w timed \<Rightarrow> bool) \<Rightarrow> (go_context \<Rightarrow> string \<Rightarrow> 'w timed \<Rightarrow> (string + invoice_status_response) \<times> 'w timed) \<Rightarrow>
   go_context \<Rightarrow> string \<Rightarrow> poll_options \<Rightarrow> 'w timed \<Rightarrow>
   ((invoice_status_response option \<times> poll_error option) \<times> 'w timed) option" where
  "PollInvoice tie InvoiceStatus ctx invoiceID opts w =
     (if invoiceID = [] then Some ((None, Some ErrEmptyID), w)
      else
        let ctx1 = (if 0 < Timeout opts then WithTimeout ctx (tnow w) (Timeout opts) else ctx)
        in poll_loop tie InvoiceStatus ctx1 invoiceID (poll_terminal opts) (poll_interval opts) (tnow w) None w)"

section \<open>Reconciliation\<close>

record local_payment =
  lpAmount :: money
  lpStatus :: string

record mismatch =
  mmInvoiceID :: string
  Reason :: string
  LocalAmount :: money
  RemoteAmount :: money
  LocalStatus :: string
  RemoteStatus :: string

record reconciliation =
  OnlyRemote :: "statement_invoice list"
  OnlyLocal :: "string list"
  Mismatches :: "mismatch list"

definition Clean :: "reconciliation \<Rightarrow> bool" where
  "Clean r \<longleftrightarrow> OnlyRemote r = [] \<and> OnlyLocal r = [] \<and> Mismatches r = []"

definition zero_money :: money where
  "zero_money = \<lparr>Minor = 0, Code = 0\<rparr>"

definition row_mismatches :: "local_payment \<Rightarrow> statement_invoice \<Rightarrow> mismatch list" where
  "row_mismatches lp row =
     (if Minor (lpAmount lp) \<noteq> Minor (siAmount row)
      then [\<lparr>mmInvoiceID = siInvoiceID row, Reason = ''amount'', LocalAmount = lpAmount lp,
             RemoteAmount = siAmount row, LocalStatus = [], RemoteStatus = []\<rparr>] else []) @
     (if lpStatus lp \<noteq> [] \<and> lpStatus lp \<noteq> siStatus row
      then [\<lparr>mmInvoiceID = siInvoiceID row, Reason = ''status'', LocalAmount = zero_money,
             RemoteAmount = zero_money, LocalStatus = lpStatus lp, RemoteStatus = siStatus row\<rparr>] else [])"

fun reconcile_rows :: "statement_invoice list \<Rightarrow> (string \<rightharpoonup> local_payment) \<Rightarrow> string set \<Rightarrow> reconciliation \<Rightarrow> string set \<times> reconciliation" where
  "reconcile_rows [] local seen rec = (seen, rec)"
| "reconcile_rows (row # rows) local seen rec =
     (let seen1 = insert (siInvoiceID row) seen
      in case local (siInvoiceID row) of
          None \<Rightarrow> reconcile_rows rows local seen1 (rec\<lparr>OnlyRemote := OnlyRemote rec @ [row]\<rparr>)
        | Some lp \<Rightarrow> reconcile_rows rows local seen1 (rec\<lparr>Mismatches := Mismatches rec @ row_mismatches lp row\<rparr>))"

definition ReconcileStatement :: "statement_invoice list \<Rightarrow> (string \<times> local_payment) list \<Rightarrow> reconciliation" where
  "ReconcileStatement statement local =
     (case reconcile_rows statement (map_of local) {} \<lparr>OnlyRemote = [], OnlyLocal = [], Mismatches = []\<rparr> of
        (seen, rec) \<Rightarrow> rec\<lparr>OnlyLocal := sort (filter (\<lambda>k. k \<notin> seen) (map fst local))\<rparr>)"

section \<open>Lemmas\<close>

lemma reconcile_rows_eq:
  "reconcile_rows rows local seen rec =
    (seen \<union> siInvoiceID ` set rows,
     rec\<lparr>OnlyRemote := OnlyRemote rec @ filter (\<lambda>r. local (siInvoiceID r) = None) rows,
         Mismatches := Mismatches rec @ concat (map (\<lambda>r. case local (siInvoiceID r) of None \<Rightarrow> [] | Some lp \<Rightarrow> row_mismatches lp r) rows)\<rparr>)"
  by (induction rows arbitrary: seen rec) (auto simp: Let_def split: option.split)

lemma ReconcileStatement_eq:
  "ReconcileStatement rows local =
    \<lparr>OnlyRemote = filter (\<lambda>r. siInvoiceID r \<notin> dom (map_of local)) rows,
     OnlyLocal = sort (filter (\<lambda>k. k \<notin> siInvoiceID ` set rows) (map fst local)),
     Mismatches = concat (map (\<lambda>r. case map_of local (siInvoiceID r) of None \<Rightarrow> [] | Some lp \<Rightarrow> row_mismatches lp r) rows)\<rparr>"
  by (simp add: ReconcileStatement_def reconcile_rows_eq domIff)

lemma sort_eq_of_set:
  assumes "distinct xs" and "distinct ys" and "set xs = set ys"
  shows "sort xs = sort (ys :: string list)"
  using assms by (intro properties_for_sort [symmetric]) (auto simp: set_eq_iff_mset_eq_distinct)

lemma select_timer_cases:
  assumes "ctx_done ctx = Some (d, e)"
  shows "select_timer tie ctx due w = (Some e, w\<lparr>tnow := max (tnow w) d\<rparr>) \<or>
    select_timer tie ctx due w = (None, w\<lparr>tnow := max (tnow w) due\<rparr>) \<and> max (tnow w) due \<le> max (tnow w) d"
  using assms by (auto simp: select_timer_def Let_def)

lemma poll_stopped_result:
  assumes "poll_stopped last' e = (res, err)" and "\<forall>iv. last' = Some iv \<longrightarrow> \<not> terminal (iStatus iv)"
  shows "err \<noteq> None" and "res = Some iv \<Longrightarrow> \<not> terminal (iStatus iv)"
    and "err = Some (ErrPollTimeout s) \<Longrightarrow> e = DeadlineExceeded"
  using assms by (auto simp: poll_stopped_def split: ctx_error.splits option.splits)

lemma poll_loop_returns:
  assumes dn: "ctx_done ctx = Some (d, e)" and "0 < interval"
    and clock: "\<And>w. tnow w \<le> tnow (snd (fetch ctx iid w))"
    and "\<forall>iv. last' = Some iv \<longrightarrow> \<not> terminal (iStatus iv)"
  shows "\<exists>res err w'. poll_loop tie fetch ctx iid terminal interval due last' w = Some ((res, err), w') \<and>
    (err = None \<longleftrightarrow> (\<exists>iv. res = Some iv \<and> terminal (iStatus iv))) \<and>
    (\<forall>s. err = Some (ErrPollTimeout s) \<longrightarrow> e = DeadlineExceeded \<and> d \<le> tnow w')"
  using assms(4)
proof (induction "nat (d + 1 - due) + (if due \<le> tnow w then 1 else 0)" arbitrary: due last' w rule: less_induct)
  case less
  note unfold = poll_loop.simps [of tie fetch ctx iid terminal interval due last' w]
  from select_timer_cases [OF dn, of tie due w] show ?case
  proof
    assume sel: "select_timer tie ctx due w = (Some e, w\<lparr>tnow := max (tnow w) d\<rparr>)"
    obtain res err where r: "poll_stopped last' e = (res, err)" by fastforce
    note facts = poll_stopped_result [OF r less.prems]
    show ?thesis
      using facts by (intro exI [of _ res] exI [of _ err] exI [of _ "w\<lparr>tnow := max (tnow w) d\<rparr>"])
        (auto simp: unfold sel r)
  next
    assume "select_timer tie ctx due w = (None, w\<lparr>tnow := max (tnow w) due\<rparr>) \<and> max (tnow w) due \<le> max (tnow w) d"
    then have sel: "select_timer tie ctx due w = (None, w\<lparr>tnow := max (tnow w) due\<rparr>)"
      and late: "max (tnow w) due \<le> max (tnow w) d" by auto
    define w1 where "w1 = w\<lparr>tnow := max (tnow w) due\<rparr>"
    obtain r w2 where f: "fetch ctx iid w1 = (r, w2)" by fastforce
    have mono: "max (tnow w) due \<le> tnow w2" using clock [of w1] f by (simp add: w1_def)
    show ?thesis
    proof (cases r)
      case (Inl x)
      then show ?thesis by (auto simp: unfold sel f w1_def [symmetric])
    next
      case (Inr iv)
      show ?thesis
      proof (cases "terminal (iStatus iv)")
        case True
        then show ?thesis using Inr by (auto simp: unfold sel f w1_def [symmetric])
      next
        case False
        have "\<exists>res err w'. poll_loop tie fetch ctx iid terminal interval (tnow w2 + interval) (Some iv) w2 = Some ((res, err), w') \<and>
          (err = None \<longleftrightarrow> (\<exists>iv. res = Some iv \<and> terminal (iStatus iv))) \<and>
          (\<forall>s. err = Some (ErrPollTimeout s) \<longrightarrow> e = DeadlineExceeded \<and> d \<le> tnow w')"
          by (rule less.hyps) (use mono late assms(2) False in auto)
        moreover have "poll_loop tie fetch ctx iid terminal interval due last' w
          = poll_loop tie fetch ctx iid terminal interval (tnow w2 + interval) (Some iv) w2"
          using False Inr by (simp add: unfold sel f w1_def [symmetric])
        ultimately show ?thesis by simp
      qed
    qed
  qed
qed

lemma WithTimeout_done:
  "\<exists>d e. ctx_done (WithTimeout ctx now timeout) = Some (d, e) \<and>
     (e = DeadlineExceeded \<longrightarrow> d = now + timeout \<or> Deadline ctx = Some d)"
  by (auto simp: ctx_done_def WithTimeout_def min_def split: option.split)

lemma poll_interval_pos: "minPollInterval \<le> poll_interval opts" "0 < poll_interval opts"
  by (simp_all add: poll_interval_def minPollInterval_def Let_def)

text \<open>
  Access is withdrawn only for a cancelled subscription or a dead card token: a failed charge
  alone keeps it, and no status the server may invent takes it away.
\<close>

lemma RetainAccess_iff:
  "RetainAccess (ClassifyCharge payment walletStatus) \<longleftrightarrow> walletStatus \<noteq> ''failed''"
  "RetainAccess (ClassifySubscription sto) \<longleftrightarrow>
    (case sto of None \<Rightarrow> True | Some st \<Rightarrow> sStatus st \<noteq> ''cancelled'' \<and> swStatus (sWalletData st) \<noteq> ''failed'')"
  "GraceEligible (ClassifyCharge payment walletStatus) \<longleftrightarrow> payment = ''failed'' \<and> walletStatus \<noteq> ''failed''"
  by (auto simp: RetainAccess_def Terminal_def GraceEligible_def ClassifyCharge_def ClassifySubscription_def
      split: option.split)

section \<open>Properties\<close>

text \<open>
  C30: Polling with a timeout returns, whatever the server answers, provided the clock does not run
  backwards. It returns without an error exactly when the invoice it returns is in a state the caller
  waits for (terminal, or hold when asked for), and it reports a timeout only once the timeout, or the
  deadline the caller's context already had, has passed.
\<close>

theorem PollInvoice_returns:
  assumes "0 < Timeout opts"
    and clock: "\<And>c i v. tnow v \<le> tnow (snd (InvoiceStatus c i v))"
  shows "\<exists>res err w'. PollInvoice tie InvoiceStatus ctx invoiceID opts w = Some ((res, err), w') \<and>
    (err = None \<longleftrightarrow> (\<exists>iv. res = Some iv \<and> poll_terminal opts (iStatus iv))) \<and>
    (\<forall>s. err = Some (ErrPollTimeout s) \<longrightarrow>
      tnow w + Timeout opts \<le> tnow w' \<or> (\<exists>d. Deadline ctx = Some d \<and> d \<le> tnow w'))"
proof (cases "invoiceID = []")
  case False
  obtain d e where d: "ctx_done (WithTimeout ctx (tnow w) (Timeout opts)) = Some (d, e)"
    and why: "e = DeadlineExceeded \<longrightarrow> d = tnow w + Timeout opts \<or> Deadline ctx = Some d"
    using WithTimeout_done by blast
  have "\<exists>res err w'. poll_loop tie InvoiceStatus (WithTimeout ctx (tnow w) (Timeout opts)) invoiceID
        (poll_terminal opts) (poll_interval opts) (tnow w) None w = Some ((res, err), w') \<and>
      (err = None \<longleftrightarrow> (\<exists>iv. res = Some iv \<and> poll_terminal opts (iStatus iv))) \<and>
      (\<forall>s. err = Some (ErrPollTimeout s) \<longrightarrow> e = DeadlineExceeded \<and> d \<le> tnow w')"
    by (rule poll_loop_returns [OF d poll_interval_pos(2)]) (use clock in simp_all)
  with False why assms(1) show ?thesis by (fastforce simp: PollInvoice_def)
qed (simp add: PollInvoice_def)

definition demo_iv :: "string \<Rightarrow> invoice_status_response" where
  "demo_iv st = \<lparr>InvoiceID = ''i'', ModifiedDate = [], iStatus = st, FailureReason = [], iErrCode = [],
     iAmount = zero_money, iCurrency = 980, FinalAmount = zero_money, CreatedDate = [], Reference = [], Destination = [],
     CancelList = [], PaymentInfo = None, WalletData = None, TipsInfo = None\<rparr>"

definition slow_server :: "string \<Rightarrow> go_context \<Rightarrow> string \<Rightarrow> nat timed \<Rightarrow> (string + invoice_status_response) \<times> nat timed" where
  \<comment> \<open>answers after a tenth of a second; the second answer and the later ones have status \<open>st\<close>\<close>
  "slow_server st c i v =
     (Inr (demo_iv (if others v = 0 then ''processing'' else st)),
      v\<lparr>tnow := tnow v + 100000000, others := others v + 1\<rparr>)"

theorem PollInvoice_returns_witness:
  "PollInvoice (\<lambda>_. True) (slow_server ''success'') \<lparr>Deadline = None, CancelAt = None\<rparr> ''i''
       \<lparr>PollInterval = 0, Timeout = 5 * ns_per_s, TreatHoldAsTerminal = False\<rparr> \<lparr>tnow = 0, others = 0\<rparr>
     = Some ((Some (demo_iv ''success''), None), \<lparr>tnow = 2200000000, others = 2\<rparr>) \<and>
   (\<exists>res err w'. PollInvoice (\<lambda>_. True) (slow_server ''processing'') \<lparr>Deadline = None, CancelAt = None\<rparr> ''i''
       \<lparr>PollInterval = 0, Timeout = 5 * ns_per_s, TreatHoldAsTerminal = False\<rparr> \<lparr>tnow = 0, others = 0\<rparr>
     = Some ((res, err), w'))"
proof
  show "PollInvoice (\<lambda>_. True) (slow_server ''success'') \<lparr>Deadline = None, CancelAt = None\<rparr> ''i''
       \<lparr>PollInterval = 0, Timeout = 5 * ns_per_s, TreatHoldAsTerminal = False\<rparr> \<lparr>tnow = 0, others = 0\<rparr>
     = Some ((Some (demo_iv ''success''), None), \<lparr>tnow = 2200000000, others = 2\<rparr>)"
    by (simp add: PollInvoice_def poll_loop.simps select_timer_def ctx_done_def WithTimeout_def slow_server_def
        demo_iv_def poll_terminal_def IsTerminal_def poll_interval_def minPollInterval_def defaultPollInterval_def
        ns_per_s_def Let_def)
qed (use PollInvoice_returns [of "\<lparr>PollInterval = 0, Timeout = 5 * ns_per_s, TreatHoldAsTerminal = False\<rparr>"
        "slow_server ''processing''" "\<lambda>_. True" "\<lparr>Deadline = None, CancelAt = None\<rparr>" "''i''" "\<lparr>tnow = 0, others = 0\<rparr>"]
      in \<open>auto simp: slow_server_def ns_per_s_def\<close>)

text \<open>
  C31: A reconciliation is clean exactly when the statement and the merchant's records have the same
  invoices, and on each of them the amounts agree in minor units and the statuses agree whenever the
  record has one.
\<close>

theorem ReconcileStatement_Clean_iff:
  "Clean (ReconcileStatement rows local) \<longleftrightarrow>
    siInvoiceID ` set rows = fst ` set local \<and>
    (\<forall>r\<in>set rows. \<forall>lp. map_of local (siInvoiceID r) = Some lp \<longrightarrow>
      Minor (lpAmount lp) = Minor (siAmount r) \<and> (lpStatus lp = [] \<or> lpStatus lp = siStatus r))"
proof -
  have rm: "row_mismatches lp r = [] \<longleftrightarrow>
      Minor (lpAmount lp) = Minor (siAmount r) \<and> (lpStatus lp = [] \<or> lpStatus lp = siStatus r)" for lp r
    by (simp add: row_mismatches_def)
  have ol: "OnlyLocal (ReconcileStatement rows local) = [] \<longleftrightarrow> fst ` set local \<subseteq> siInvoiceID ` set rows"
    by (auto simp: ReconcileStatement_eq filter_empty_conv simp flip: set_empty)
  have onlyr: "OnlyRemote (ReconcileStatement rows local) = [] \<longleftrightarrow> siInvoiceID ` set rows \<subseteq> fst ` set local"
    by (auto simp: ReconcileStatement_eq filter_empty_conv dom_map_of_conv_image_fst)
  have mm: "Mismatches (ReconcileStatement rows local) = [] \<longleftrightarrow>
      (\<forall>r\<in>set rows. \<forall>lp. map_of local (siInvoiceID r) = Some lp \<longrightarrow> row_mismatches lp r = [])"
    by (auto simp: ReconcileStatement_eq split: option.splits)
  show ?thesis unfolding Clean_def ol onlyr mm rm by auto
qed

definition demo_si :: "string \<Rightarrow> int \<Rightarrow> string \<Rightarrow> statement_invoice" where
  "demo_si i a st = \<lparr>siInvoiceID = i, siStatus = st, siMaskedPan = [], siDate = [], PaymentScheme = ''full'',
     siAmount = \<lparr>Minor = a, Code = 980\<rparr>, ProfitAmount = \<lparr>Minor = a, Code = 980\<rparr>, siCurrency = 980,
     siApprovalCode = [], siRRN = [], siReference = [], ShortQrID = [], siDestination = [], siCancelList = [], Metadata = []\<rparr>"

definition demo_lp :: "int \<Rightarrow> string \<Rightarrow> local_payment" where
  "demo_lp a st = \<lparr>lpAmount = \<lparr>Minor = a, Code = 980\<rparr>, lpStatus = st\<rparr>"

theorem ReconcileStatement_Clean_iff_witness:
  "Clean (ReconcileStatement [demo_si ''b'' 5 ''success'', demo_si ''a'' 7 ''hold'']
     [(''a'', demo_lp 7 []), (''b'', demo_lp 5 ''success'')])"
  unfolding ReconcileStatement_Clean_iff by (auto simp: demo_si_def demo_lp_def)

text \<open>
  C32: The result does not depend on the order in which Go visits the map of local records, and the
  lists are exactly the rows and ids missing on the other side, in statement order and in
  ascending order.
\<close>

theorem ReconcileStatement_deterministic:
  assumes "distinct (map fst l1)" and "distinct (map fst l2)" and "map_of l1 = map_of l2"
  shows "ReconcileStatement rows l1 = ReconcileStatement rows l2 \<and>
    OnlyRemote (ReconcileStatement rows l1) = filter (\<lambda>r. siInvoiceID r \<notin> fst ` set l1) rows \<and>
    sorted (OnlyLocal (ReconcileStatement rows l1)) \<and> distinct (OnlyLocal (ReconcileStatement rows l1)) \<and>
    set (OnlyLocal (ReconcileStatement rows l1)) = fst ` set l1 - siInvoiceID ` set rows"
proof (intro conjI)
  have "fst ` set l1 = fst ` set l2" using assms(3) by (metis dom_map_of_conv_image_fst)
  with assms have "sort (filter (\<lambda>k. k \<notin> siInvoiceID ` set rows) (map fst l1))
      = sort (filter (\<lambda>k. k \<notin> siInvoiceID ` set rows) (map fst l2))"
    by (intro sort_eq_of_set) auto
  with assms(3) show "ReconcileStatement rows l1 = ReconcileStatement rows l2"
    by (simp add: ReconcileStatement_eq)
qed (use assms(1) in \<open>auto simp: ReconcileStatement_eq simp flip: dom_map_of_conv_image_fst\<close>)

theorem ReconcileStatement_deterministic_witness:
  "ReconcileStatement [demo_si ''c'' 1 ''success''] [(''b'', demo_lp 7 []), (''a'', demo_lp 5 [])]
   = ReconcileStatement [demo_si ''c'' 1 ''success''] [(''a'', demo_lp 5 []), (''b'', demo_lp 7 [])]"
  using ReconcileStatement_deterministic
    [of "[(''b'', demo_lp 7 []), (''a'', demo_lp 5 [])]" "[(''a'', demo_lp 5 []), (''b'', demo_lp 7 [])]"
      "[demo_si ''c'' 1 ''success'']"]
  by (simp add: fun_upd_twist)

end
