(* ===== verification/Business_Idempotency.thy ===== *)
theory Business_Idempotency
  imports Go_Prelude
begin

text \<open>
  The generator of idempotency keys (\<open>business/idempotency.go\<close>): a version-4 UUID from 16 random
  bytes. A byte is a \<open>nat\<close> below 256; the source of randomness is a parameter.
\<close>

unbundle bit_operations_syntax

definition hex_lower :: "nat \<Rightarrow> char" where
  "hex_lower d = (if d < 10 then char_of (48 + d) else char_of (87 + d))"

definition hex_Encode :: "nat list \<Rightarrow> string" where
  "hex_Encode bs = concat (map (\<lambda>b. [hex_lower (b div 16), hex_lower (b mod 16)]) bs)"

definition uuid_bytes :: "nat list \<Rightarrow> nat list" where
  "uuid_bytes b = b[6 := (b ! 6 AND 15) OR 64, 8 := (b ! 8 AND 63) OR 128]"

definition uuid_text :: "nat list \<Rightarrow> string" where
  "uuid_text b = hex_Encode (take 4 b) @ ''-'' @ hex_Encode (take 2 (drop 4 b)) @ ''-'' @ hex_Encode (take 2 (drop 6 b)) @ ''-'' @
     hex_Encode (take 2 (drop 8 b)) @ ''-'' @ hex_Encode (take 6 (drop 10 b))"

definition NewIdempotencyKey :: "string + nat list \<Rightarrow> string + string" where
  \<comment> \<open>the argument is what \<open>rand.Read\<close> did to the 16-byte array\<close>
  "NewIdempotencyKey random = (case random of
      Inl e \<Rightarrow> Inl (''business: crypto/rand failed: '' @ e)
    | Inr b \<Rightarrow> Inr (uuid_text (uuid_bytes b)))"

lemma and_15: "(n :: nat) AND 15 = n mod 16"
  using take_bit_eq_mask [of 4 n] by (simp add: take_bit_eq_mod mask_eq_exp_minus_1)

lemma and_63: "(n :: nat) AND 63 = n mod 64"
  using take_bit_eq_mask [of 6 n] by (simp add: take_bit_eq_mod mask_eq_exp_minus_1)

lemma or_power: "(m :: nat) < 2 ^ k \<Longrightarrow> m OR 2 ^ k = m + 2 ^ k"
proof (rule disjunctive_add [symmetric])
  fix n
  assume "m < 2 ^ k"
  then show "\<not> bit m n \<or> \<not> bit (2 ^ k :: nat) n"
    by (cases "n = k") (simp_all add: bit_exp_iff, simp add: bit_iff_odd)
qed

lemma hex_lower_inj: "a < 16 \<Longrightarrow> b < 16 \<Longrightarrow> hex_lower a = hex_lower b \<longleftrightarrow> a = b"
proof -
  assume "a < 16" "b < 16"
  then have "(of_char (hex_lower a) :: nat) = (if a < 10 then 48 + a else 87 + a)"
    "(of_char (hex_lower b) :: nat) = (if b < 10 then 48 + b else 87 + b)"
    by (auto simp: hex_lower_def)
  moreover have "hex_lower a = hex_lower b \<longleftrightarrow> (of_char (hex_lower a) :: nat) = of_char (hex_lower b)" by simp
  ultimately show "hex_lower a = hex_lower b \<longleftrightarrow> a = b" by (simp split: if_splits)
qed

lemma hex_Encode_inj:
  assumes "list_all (\<lambda>x. x < 256) xs" and "list_all (\<lambda>x. x < 256) ys" and "hex_Encode xs = hex_Encode ys"
  shows "xs = ys"
  using assms
proof (induction xs arbitrary: ys)
  case Nil
  then show ?case by (cases ys) (auto simp: hex_Encode_def)
next
  case (Cons x xs)
  then obtain y ys' where ys: "ys = y # ys'" by (cases ys) (auto simp: hex_Encode_def)
  have "x div 16 < 16" "y div 16 < 16" using Cons.prems ys by auto
  with Cons.prems ys have "x div 16 = y div 16" "x mod 16 = y mod 16" "hex_Encode xs = hex_Encode ys'"
    by (auto simp: hex_Encode_def hex_lower_inj)
  then have "x = y" "xs = ys'" using Cons.prems ys Cons.IH by (metis div_mult_mod_eq, simp)
  with ys show ?case by simp
qed

lemma length_hex_Encode [simp]: "length (hex_Encode bs) = 2 * length bs"
  by (induction bs) (auto simp: hex_Encode_def)

lemma list_all_pieces: "list_all P zs \<Longrightarrow> list_all P (take n zs)" "list_all P zs \<Longrightarrow> list_all P (drop n zs)"
  by (auto simp: list_all_iff dest: in_set_takeD in_set_dropD)

lemma uuid_pieces:
  assumes "length zs = 16"
  shows "take 4 zs @ take 2 (drop 4 zs) @ take 2 (drop 6 zs) @ take 2 (drop 8 zs) @ take 6 (drop 10 zs) = zs"
proof -
  have split: "take n (drop m zs) @ drop (m + n) zs = drop m zs" for n m
    by (metis append_take_drop_id drop_drop add.commute)
  have "take 6 (drop 10 zs) = drop 10 zs" using assms by simp
  then show ?thesis using split [of 2 8] split [of 2 6] split [of 2 4] append_take_drop_id [of 4 zs] by simp
qed

lemma uuid_text_inj:
  assumes "length xs = 16" "length ys = 16" and b: "list_all (\<lambda>x. x < 256) xs" "list_all (\<lambda>x. x < 256) ys"
    and "uuid_text xs = uuid_text ys"
  shows "xs = ys"
proof -
  have h: "hex_Encode (take 4 (drop 0 xs)) = hex_Encode (take 4 (drop 0 ys))"
    "hex_Encode (take 2 (drop 4 xs)) = hex_Encode (take 2 (drop 4 ys))"
    "hex_Encode (take 2 (drop 6 xs)) = hex_Encode (take 2 (drop 6 ys))"
    "hex_Encode (take 2 (drop 8 xs)) = hex_Encode (take 2 (drop 8 ys))"
    "hex_Encode (take 6 (drop 10 xs)) = hex_Encode (take 6 (drop 10 ys))"
    using assms(1,2,5) by (simp_all add: uuid_text_def)
  have p: "take n (drop m xs) = take n (drop m ys)" if "hex_Encode (take n (drop m xs)) = hex_Encode (take n (drop m ys))" for n m
    by (rule hex_Encode_inj [OF _ _ that]) (simp_all add: list_all_pieces b)
  have e: "take 4 xs = take 4 ys" using p [OF h(1)] by simp
  have "xs = take 4 xs @ take 2 (drop 4 xs) @ take 2 (drop 6 xs) @ take 2 (drop 8 xs) @ take 6 (drop 10 xs)"
    using uuid_pieces [OF assms(1)] by (rule sym)
  also have "\<dots> = take 4 ys @ take 2 (drop 4 ys) @ take 2 (drop 6 ys) @ take 2 (drop 8 ys) @ take 6 (drop 10 ys)"
    by (simp only: e p [OF h(2)] p [OF h(3)] p [OF h(4)] p [OF h(5)])
  also have "\<dots> = ys" by (rule uuid_pieces [OF assms(2)])
  finally show ?thesis .
qed

lemma uuid_bytes_eq:
  "uuid_bytes b = b[6 := b ! 6 mod 16 + 64, 8 := b ! 8 mod 64 + 128]"
proof -
  have "b ! 6 mod 16 < 2 ^ 6" "b ! 8 mod 64 < 2 ^ 7"
    using mod_less_divisor [of 16 "b ! 6"] mod_less_divisor [of 64 "b ! 8"] by simp_all
  from this [THEN or_power] show ?thesis by (simp add: uuid_bytes_def and_15 and_63)
qed

lemma hex_Encode_nth:
  "i < length bs \<Longrightarrow> hex_Encode bs ! (2 * i) = hex_lower (bs ! i div 16) \<and> hex_Encode bs ! (2 * i + 1) = hex_lower (bs ! i mod 16)"
proof (induction bs arbitrary: i)
  case (Cons b bs)
  show ?case
  proof (cases i)
    case (Suc j)
    with Cons show ?thesis by (auto simp: hex_Encode_def)
  qed (simp add: hex_Encode_def)
qed simp

definition hex_digits :: "char set" where
  "hex_digits = set ''0123456789abcdef''"

lemma hex_lower_digit: "d < 16 \<Longrightarrow> hex_lower d \<in> hex_digits"
proof -
  assume "d < 16"
  then have "d \<in> {0, 1, 2, 3, 4, 5, 6, 7, 8, 9, 10, 11, 12, 13, 14, 15}" by (simp add: eval_nat_numeral less_Suc_eq)
  then show ?thesis by (elim insertE emptyE) (simp_all add: hex_digits_def hex_lower_def char_of_def bit_0)
qed

lemma hex_Encode_digits: "list_all (\<lambda>x. x < 256) bs \<Longrightarrow> i < 2 * length bs \<Longrightarrow> hex_Encode bs ! i \<in> hex_digits"
proof -
  assume b: "list_all (\<lambda>x. x < 256) bs" and "i < 2 * length bs"
  then have "hex_Encode bs ! i \<in> set (hex_Encode bs)" by simp
  then obtain x where "x \<in> set bs" "hex_Encode bs ! i = hex_lower (x div 16) \<or> hex_Encode bs ! i = hex_lower (x mod 16)"
    unfolding hex_Encode_def by auto
  moreover from this(1) b have "x div 16 < 16" by (auto simp: list_all_iff)
  ultimately show "hex_Encode bs ! i \<in> hex_digits"
    using hex_lower_digit [of "x div 16"] hex_lower_digit [of "x mod 16"] by auto
qed

lemma uuid_text_digits:
  assumes "length z = 16" and b: "list_all (\<lambda>x. x < 256) z" and "i < 36" and "i \<notin> {8, 13, 18, 23}"
  shows "uuid_text z ! i \<in> hex_digits"
proof -
  have h: "hex_Encode (take n (drop m z)) ! j \<in> hex_digits" if "j < 2 * n" "m + n \<le> 16" for n m j
    by (rule hex_Encode_digits) (use that assms(1) b in \<open>simp_all add: list_all_pieces\<close>)
  have k: "uuid_text z ! i =
     (if i < 8 then hex_Encode (take 4 (drop 0 z)) ! i else if i < 13 then hex_Encode (take 2 (drop 4 z)) ! (i - 9)
      else if i < 18 then hex_Encode (take 2 (drop 6 z)) ! (i - 14) else if i < 23 then hex_Encode (take 2 (drop 8 z)) ! (i - 19)
      else hex_Encode (take 6 (drop 10 z)) ! (i - 24))"
    using assms(1,4) by (auto simp: uuid_text_def nth_append nth_Cons')
  consider "i < 8" | "8 < i" "i < 13" | "13 < i" "i < 18" | "18 < i" "i < 23" | "23 < i" using assms(4) by fastforce
  then show ?thesis unfolding k by cases (use h assms(3) in \<open>auto simp del: drop0\<close>)
qed

section \<open>Properties\<close>

text \<open>
  C36: A key is a version-4 UUID: 36 characters, hyphens after 8, 13, 18 and 23 of them, lower-case hex
  digits elsewhere, the digit 4 for the version and 8, 9, a or b for the variant; and it keeps all 122 remaining random bits, so two keys
  are equal only if the random bytes were, apart from the six bits the format fixes.
\<close>

theorem NewIdempotencyKey_v4:
  assumes "length b = 16" and "list_all (\<lambda>x. x < 256) b"
    and "length b' = 16" and "list_all (\<lambda>x. x < 256) b'"
  shows "\<exists>k. NewIdempotencyKey (Inr b) = Inr k \<and> length k = 36 \<and>
    k ! 8 = CHR ''-'' \<and> k ! 13 = CHR ''-'' \<and> k ! 18 = CHR ''-'' \<and> k ! 23 = CHR ''-'' \<and>
    (\<forall>i < 36. i \<notin> {8, 13, 18, 23} \<longrightarrow> k ! i \<in> hex_digits) \<and> k ! 14 = CHR ''4'' \<and> k ! 19 \<in> set ''89ab'' \<and>
    (NewIdempotencyKey (Inr b') = Inr k \<longleftrightarrow>
       b'[6 := b' ! 6 mod 16, 8 := b' ! 8 mod 64] = b[6 := b ! 6 mod 16, 8 := b ! 8 mod 64])"
proof -
  let ?u = "uuid_bytes b" let ?v = "uuid_bytes b'" let ?k = "uuid_text ?u"
  have u: "length (uuid_bytes z) = 16" "list_all (\<lambda>x. x < 256) (uuid_bytes z)"
    if "length z = 16" "list_all (\<lambda>x. x < 256) z" for z
  proof -
    have "z ! 6 mod 16 + 64 < 256" "z ! 8 mod 64 + 128 < 256"
      using mod_less_divisor [of 16 "z ! 6"] mod_less_divisor [of 64 "z ! 8"] by linarith+
    then show "length (uuid_bytes z) = 16" "list_all (\<lambda>x. x < 256) (uuid_bytes z)"
      using that unfolding uuid_bytes_eq by (auto simp: list_all_iff dest!: set_update_subset_insert [THEN subsetD])
  qed
  note ub = u [OF assms(1,2)] and vb = u [OF assms(3,4)]
  have hx: "hex_Encode (take 2 (drop 6 ?u)) ! 0 = CHR ''4''" "hex_Encode (take 2 (drop 8 ?u)) ! 0 \<in> set ''89ab''"
  proof -
    have e: "hex_Encode (take 2 (drop 6 ?u)) ! 0 = hex_lower (?u ! 6 div 16)"
      "hex_Encode (take 2 (drop 8 ?u)) ! 0 = hex_lower (?u ! 8 div 16)"
      using hex_Encode_nth [of 0 "take 2 (drop 6 ?u)"] hex_Encode_nth [of 0 "take 2 (drop 8 ?u)"] ub(1) by simp_all
    have "?u ! 6 = b ! 6 mod 16 + 64" "?u ! 8 = b ! 8 mod 64 + 128" using assms(1) by (simp_all add: uuid_bytes_eq)
    then have "?u ! 6 div 16 = 4" "?u ! 8 div 16 = 8 + b ! 8 mod 64 div 16" by simp_all
    moreover have "b ! 8 mod 64 div 16 < 4"
      using mod_less_divisor [of 64 "b ! 8"] by (simp add: less_mult_imp_div_less)
    then consider "b ! 8 mod 64 div 16 = 0" | "b ! 8 mod 64 div 16 = 1" | "b ! 8 mod 64 div 16 = 2" | "b ! 8 mod 64 div 16 = 3"
      by linarith
    then have "hex_lower (8 + b ! 8 mod 64 div 16) \<in> set ''89ab''"
      by cases (simp_all add: hex_lower_def char_of_def bit_0)
    ultimately show "hex_Encode (take 2 (drop 6 ?u)) ! 0 = CHR ''4''" "hex_Encode (take 2 (drop 8 ?u)) ! 0 \<in> set ''89ab''"
      unfolding e by (simp_all add: hex_lower_def char_of_def bit_0)
  qed
  have shape: "length ?k = 36" "?k ! 8 = CHR ''-''" "?k ! 13 = CHR ''-''" "?k ! 18 = CHR ''-''" "?k ! 23 = CHR ''-''"
    "?k ! 14 = hex_Encode (take 2 (drop 6 ?u)) ! 0" "?k ! 19 = hex_Encode (take 2 (drop 8 ?u)) ! 0"
    using ub(1) by (simp_all add: uuid_text_def nth_append)
  have "NewIdempotencyKey (Inr b') = Inr ?k \<longleftrightarrow> ?v = ?u"
    using uuid_text_inj [OF vb(1) ub(1) vb(2) ub(2)] by (auto simp: NewIdempotencyKey_def)
  also have "\<dots> \<longleftrightarrow> b'[6 := b' ! 6 mod 16, 8 := b' ! 8 mod 64] = b[6 := b ! 6 mod 16, 8 := b ! 8 mod 64]"
    using assms(1,3) unfolding uuid_bytes_eq by (auto simp: list_eq_iff_nth_eq nth_list_update)
  finally show ?thesis using shape hx uuid_text_digits [OF ub]
    by (intro exI [of _ ?k] conjI allI impI) (simp_all add: NewIdempotencyKey_def)
qed

theorem NewIdempotencyKey_v4_witness:
  "length (case NewIdempotencyKey (Inr (replicate 16 255)) of Inr k \<Rightarrow> k | Inl e \<Rightarrow> []) = 36 \<and>
   NewIdempotencyKey (Inr (replicate 16 255)) \<noteq> NewIdempotencyKey (Inr (replicate 16 254))"
proof -
  have "(replicate 16 (254::nat))[6 := replicate 16 254 ! 6 mod 16, 8 := replicate 16 254 ! 8 mod 64] ! 0
      \<noteq> (replicate 16 255)[6 := replicate 16 255 ! 6 mod 16, 8 := replicate 16 255 ! 8 mod 64] ! 0"
    by simp
  then have "(replicate 16 (254::nat))[6 := replicate 16 254 ! 6 mod 16, 8 := replicate 16 254 ! 8 mod 64]
      \<noteq> (replicate 16 255)[6 := replicate 16 255 ! 6 mod 16, 8 := replicate 16 255 ! 8 mod 64]"
    by metis
  moreover have "list_all (\<lambda>x. x < 256) (replicate 16 (255::nat))" "list_all (\<lambda>x. x < 256) (replicate 16 (254::nat))"
    by (simp_all add: list_all_iff)
  ultimately show ?thesis
    using NewIdempotencyKey_v4 [of "replicate 16 255" "replicate 16 254"] by auto
qed

end
