(* ===== verification/Go_Url.thy ===== *)
theory Go_Url
  imports Go_Prelude "HOL-Library.Multiset" "HOL-Library.List_Lexorder" "HOL-Library.Char_ord"
begin

text \<open>
  The part of Go's \<open>net/url\<close> with which the endpoint methods build request targets: percent-encoding of
  path segments and query components, the query encoder of \<open>url.Values\<close> (a map with one value per
  key here, since the SDK only calls \<open>Set\<close>), and the merging of paths with removal of dot segments.

  Decoders are the inverse the server applies; the round trips say that a caller's string arrives
  as one segment or one value, whatever bytes it has.
\<close>

section \<open>Percent-encoding\<close>

definition is_alpha :: "char \<Rightarrow> bool" where
  "is_alpha c \<longleftrightarrow> (97 \<le> (of_char c :: nat) \<and> (of_char c :: nat) \<le> 122) \<or> (65 \<le> (of_char c :: nat) \<and> (of_char c :: nat) \<le> 90)"

definition is_alnum :: "char \<Rightarrow> bool" where
  "is_alnum c \<longleftrightarrow> is_alpha c \<or> (48 \<le> (of_char c :: nat) \<and> (of_char c :: nat) \<le> 57)"

lemma digit_alnum: "is_digit c \<Longrightarrow> is_alnum c"
  using of_nat_of_char [of c, where 'a = int] by (auto simp: is_digit_def is_alnum_def simp del: of_nat_of_char)

datatype enc_mode = PathSegment | QueryComponent

definition shouldEscape :: "enc_mode \<Rightarrow> char \<Rightarrow> bool" where
  "shouldEscape mode c =
     (if is_alnum c then False
      else if c \<in> set ''-_.~'' then False
      else if c \<in> set ''$&+,/:;=?@'' then
        (case mode of PathSegment \<Rightarrow> c \<in> set ''/;,?'' | QueryComponent \<Rightarrow> True)
      else True)"

definition hex_digit :: "nat \<Rightarrow> char" where
  "hex_digit d = (if d < 10 then char_of (48 + d) else char_of (55 + d))"

definition hex_val :: "char \<Rightarrow> nat option" where
  "hex_val c =
     (let n = of_char c :: nat
      in if 48 \<le> n \<and> n \<le> 57 then Some (n - 48)
         else if 97 \<le> n \<and> n \<le> 102 then Some (n - 87)
         else if 65 \<le> n \<and> n \<le> 70 then Some (n - 55)
         else None)"

definition escape_char :: "enc_mode \<Rightarrow> char \<Rightarrow> string" where
  "escape_char mode c =
     (if c = CHR '' '' \<and> mode = QueryComponent then ''+''
      else if shouldEscape mode c
      then [CHR ''%'', hex_digit (of_char c div 16), hex_digit (of_char c mod 16)]
      else [c])"

definition escape :: "enc_mode \<Rightarrow> string \<Rightarrow> string" where
  "escape mode s = concat (map (escape_char mode) s)"

fun unescape :: "enc_mode \<Rightarrow> string \<Rightarrow> string option" where
  "unescape mode [] = Some []"
| "unescape mode (c # cs) =
     (if c = CHR ''%'' then
        (case cs of
           a # b # rest \<Rightarrow>
             (case (hex_val a, hex_val b) of
                (Some x, Some y) \<Rightarrow> map_option ((#) (char_of (16 * x + y))) (unescape mode rest)
              | _ \<Rightarrow> None)
         | _ \<Rightarrow> None)
      else if c = CHR ''+'' \<and> mode = QueryComponent then map_option ((#) (CHR '' '')) (unescape mode cs)
      else map_option ((#) c) (unescape mode cs))"

abbreviation PathEscape :: "string \<Rightarrow> string" where
  "PathEscape \<equiv> escape PathSegment"

abbreviation QueryEscape :: "string \<Rightarrow> string" where
  "QueryEscape \<equiv> escape QueryComponent"

lemma hex_val_digit [simp]: "d < 16 \<Longrightarrow> hex_val (hex_digit d) = Some d"
  by (auto simp: hex_val_def hex_digit_def Let_def)

lemma escape_simps [simp]:
  "escape mode [] = []" "escape mode (c # cs) = escape_char mode c @ escape mode cs"
  "escape mode (s @ t) = escape mode s @ escape mode t"
  by (simp_all add: escape_def)

lemma of_char_less [simp]: "(of_char (c :: char) :: nat) < 256"
  by (simp add: of_char_def horner_sum_of_bool_2_less [of "[digit0 c, digit1 c, digit2 c, digit3 c, digit4 c, digit5 c, digit6 c, digit7 c]", simplified])

lemma nibble: "(of_char (c :: char) :: nat) div 16 < 16"
  using of_char_less [of c] by (simp add: less_mult_imp_div_less)

lemma unescape_escape_char:
  "unescape mode (escape_char mode c @ cs) = map_option ((#) c) (unescape mode cs)"
proof (cases "shouldEscape mode c")
  case True
  have "(of_char c :: nat) div 16 < 16" by (rule nibble)
  moreover have "16 * ((of_char c :: nat) div 16) + of_char c mod 16 = of_char c" by simp
  ultimately show ?thesis using True by (simp add: escape_char_def)
next
  case False
  then have "c \<noteq> CHR ''%''" "c = CHR ''+'' \<Longrightarrow> mode = PathSegment"
    by (auto simp: shouldEscape_def is_alnum_def is_alpha_def split: if_splits enc_mode.splits)
  with False show ?thesis by (auto simp: escape_char_def)
qed

lemma unescape_escape [simp]: "unescape mode (escape mode s) = Some s"
  by (induction s) (simp_all add: unescape_escape_char)

lemma escape_inj: "escape mode s = escape mode t \<longleftrightarrow> s = t"
  by (metis option.inject unescape_escape)

lemma hex_digit_plain: "d < 16 \<Longrightarrow> is_alnum (hex_digit d)"
  by (auto simp: hex_digit_def is_alnum_def is_alpha_def)

lemma escape_char_chars:
  "c' \<in> set (escape_char mode c) \<Longrightarrow> is_alnum c' \<or> c' = CHR ''%'' \<or> (c' = CHR ''+'' \<and> mode = QueryComponent) \<or> c' = c \<and> \<not> shouldEscape mode c"
  using hex_digit_plain [OF nibble [of c]] hex_digit_plain [of "of_char c mod 16"]
  by (auto simp: escape_char_def split: if_splits)

definition url_delims :: "enc_mode \<Rightarrow> string" where
  \<comment> \<open>what separates parts of a target, besides control characters\<close>
  "url_delims mode = (case mode of PathSegment \<Rightarrow> ''/?#;, '' | QueryComponent \<Rightarrow> ''/?#&=; '')"

definition is_ctl :: "char \<Rightarrow> bool" where
  "is_ctl c \<longleftrightarrow> (of_char c :: nat) < 32 \<or> (of_char c :: nat) = 127"

lemma plain_chars:
  assumes "\<not> shouldEscape mode c"
  shows "is_alnum c \<or> c \<in> set ''-_.~$&+:=@'' \<and> (mode = QueryComponent \<longrightarrow> c \<in> set ''-_.~'')"
  using assms unfolding shouldEscape_def by (cases mode) (auto split: if_splits)

lemma alnum_not:
  "is_alnum c \<Longrightarrow> \<not> is_ctl c" "is_alnum c \<Longrightarrow> c \<notin> set ''/?#;, &=''"
  unfolding is_alnum_def is_alpha_def is_ctl_def by force+

lemma escape_safe:
  assumes "c \<in> set (escape mode s)"
  shows "c \<notin> set (url_delims mode)" and "\<not> is_ctl c"
proof -
  from assms obtain a where a: "c \<in> set (escape_char mode a)" by (auto simp: escape_def)
  consider "is_alnum c" | "c = CHR ''%''" | "c = CHR ''+''" "mode = QueryComponent"
    | "c \<in> set ''-_.~$&+:=@''" "mode = QueryComponent \<longrightarrow> c \<in> set ''-_.~''"
    using escape_char_chars [OF a] plain_chars [of mode c] by blast
  note cs = this
  show "c \<notin> set (url_delims mode)"
    by (cases rule: cs) (use alnum_not(2) [of c] in \<open>auto simp: url_delims_def split: enc_mode.split\<close>)
  show "\<not> is_ctl c"
    by (cases rule: cs) (use alnum_not(1) [of c] in \<open>auto simp: is_ctl_def\<close>)
qed

lemma escape_Nil_iff [simp]: "escape mode s = [] \<longleftrightarrow> s = []"
  by (cases s) (auto simp: escape_char_def)

section \<open>Splitting\<close>

fun split_on :: "char \<Rightarrow> string \<Rightarrow> string list" where
  \<comment> \<open>\<open>strings.Split(s, sep)\<close> for a one-byte separator\<close>
  "split_on d [] = [[]]"
| "split_on d (c # cs) =
     (if c = d then [] # split_on d cs
      else case split_on d cs of (w # ws) \<Rightarrow> (c # w) # ws | [] \<Rightarrow> [[c]])"

lemma split_on_ne [simp]: "split_on d s \<noteq> []"
  by (cases s) (auto split: list.split)

lemma split_on_plain: "d \<notin> set s \<Longrightarrow> split_on d s = [s]"
  by (induction s) auto

lemma split_on_append: "d \<notin> set s \<Longrightarrow> split_on d (s @ d # t) = s # split_on d t"
  by (induction s) auto

definition cut :: "char \<Rightarrow> string \<Rightarrow> string \<times> string" where
  \<comment> \<open>\<open>strings.Cut(s, sep)\<close>: before and after the first separator\<close>
  "cut d s = (takeWhile (\<lambda>c. c \<noteq> d) s, drop 1 (dropWhile (\<lambda>c. c \<noteq> d) s))"

lemma cut_append: "d \<notin> set s \<Longrightarrow> cut d (s @ d # t) = (s, t)"
  by (simp add: cut_def takeWhile_append dropWhile_append)

lemma cut_plain: "d \<notin> set s \<Longrightarrow> cut d s = (s, [])"
  unfolding cut_def by (induction s) auto

section \<open>Query strings\<close>

type_synonym url_values = "(string \<times> string) list"

definition Set :: "string \<Rightarrow> string \<Rightarrow> url_values \<Rightarrow> url_values" where
  "Set k v q = filter (\<lambda>p. fst p \<noteq> k) q @ [(k, v)]"

definition encode_pair :: "string \<times> string \<Rightarrow> string" where
  "encode_pair p = QueryEscape (fst p) @ ''='' @ QueryEscape (snd p)"

fun join :: "char \<Rightarrow> string list \<Rightarrow> string" where
  "join d [] = []"
| "join d [w] = w"
| "join d (w # ws) = w @ d # join d ws"

definition Encode :: "url_values \<Rightarrow> string" where
  \<comment> \<open>keys in ascending order\<close>
  "Encode q = join (CHR ''&'') (map encode_pair (sort_key fst q))"

definition decode_pair :: "string \<Rightarrow> (string \<times> string) option" where
  "decode_pair s =
     (case cut (CHR ''='') s of (k, v) \<Rightarrow>
        (case (unescape QueryComponent k, unescape QueryComponent v) of
           (Some k', Some v') \<Rightarrow> Some (k', v')
         | _ \<Rightarrow> None))"

definition ParseQuery :: "string \<Rightarrow> (string \<times> string) list" where
  \<comment> \<open>\<open>url.ParseQuery\<close>: empty and malformed pairs, and pairs with a semicolon, are left out\<close>
  "ParseQuery s = List.map_filter (\<lambda>w. if w = [] \<or> CHR '';'' \<in> set w then None else decode_pair w) (split_on (CHR ''&'') s)"

lemma Set_keys: "distinct (map fst q) \<Longrightarrow> distinct (map fst (Set k v q))"
  by (auto simp: Set_def distinct_map_filter)

lemma map_of_Set [simp]: "map_of (Set k v q) = (map_of q)(k \<mapsto> v)"
proof
  fix x
  have "map_of (filter (\<lambda>p. fst p \<noteq> k) q) x = (if x = k then None else map_of q x)" by (induction q) auto
  then show "map_of (Set k v q) x = ((map_of q)(k \<mapsto> v)) x" by (auto simp: Set_def map_add_def split: option.split)
qed

lemma encode_pair_safe:
  assumes "c \<in> set (encode_pair p)" shows "c \<notin> set ''/?#&; ''" and "\<not> is_ctl c"
proof -
  from assms have "c = CHR ''='' \<or> c \<in> set (QueryEscape (fst p)) \<or> c \<in> set (QueryEscape (snd p))"
    by (auto simp: encode_pair_def)
  then show "c \<notin> set ''/?#&; ''" and "\<not> is_ctl c"
    using escape_safe [of c QueryComponent] by (auto simp: url_delims_def is_ctl_def)
qed

lemma encode_pair_ne [simp]: "encode_pair p \<noteq> []"
  by (simp add: encode_pair_def)

lemma decode_encode_pair: "decode_pair (encode_pair p) = Some p"
proof -
  have "CHR ''='' \<notin> set (QueryEscape (fst p))"
    using escape_safe(1) [of "CHR ''=''" QueryComponent] by (auto simp: url_delims_def)
  then have "cut (CHR ''='') (encode_pair p) = (QueryEscape (fst p), QueryEscape (snd p))"
    by (simp add: encode_pair_def cut_append)
  then show ?thesis by (simp add: decode_pair_def)
qed

lemma split_join:
  "list_all (\<lambda>w. d \<notin> set w) ws \<Longrightarrow> ws \<noteq> [] \<Longrightarrow> split_on d (join d ws) = ws"
  by (induction d ws rule: join.induct) (auto simp: split_on_plain split_on_append)

lemma ParseQuery_Encode: "ParseQuery (Encode q) = sort_key fst q"
proof (cases "q = []")
  case False
  have amp: "CHR ''&'' \<notin> set (encode_pair p)" "CHR '';'' \<notin> set (encode_pair p)" for p
    using encode_pair_safe(1) [of _ p] by auto
  have "split_on (CHR ''&'') (Encode q) = map encode_pair (sort_key fst q)"
    unfolding Encode_def using False
    by (intro split_join) (auto simp: list_all_iff amp simp flip: set_empty)
  then show ?thesis
    by (simp add: ParseQuery_def map_filter_def amp decode_encode_pair comp_def)
qed (simp add: ParseQuery_def Encode_def map_filter_def)

lemma map_of_eqI_set: "distinct (map fst p) \<Longrightarrow> distinct (map fst q) \<Longrightarrow> set p = set q \<Longrightarrow> map_of p = map_of q"
  by (metis map_of_inject_set)

lemma map_of_sort_key_fst: "distinct (map fst q) \<Longrightarrow> map_of (sort_key fst q) = map_of q"
proof -
  assume d: "distinct (map fst q)"
  have "distinct (map fst (sort_key fst q))"
    using d by (metis mset_map mset_sort mset_eq_imp_distinct_iff)
  with d show "map_of (sort_key fst q) = map_of q" by (intro map_of_eqI_set) auto
qed

lemma join_chars: "c \<in> set (join d ws) \<Longrightarrow> c = d \<or> (\<exists>w\<in>set ws. c \<in> set w)"
  by (induction d ws rule: join.induct) auto

lemma Encode_safe:
  assumes "c \<in> set (Encode q)" shows "c \<notin> set ''/?# ''" and "\<not> is_ctl c"
proof -
  from join_chars [OF assms [unfolded Encode_def]]
  have "c = CHR ''&'' \<or> (\<exists>p. c \<in> set (encode_pair p))" by auto
  then show "c \<notin> set ''/?# ''" and "\<not> is_ctl c"
    using encode_pair_safe [of c] by (auto simp: is_ctl_def)
qed

end
