(* ===== verification/Endpoints.thy ===== *)
theory Endpoints
  imports Client_Options Go_Url
begin

text \<open>
  What the endpoint methods of all sub-packages share: \<open>http.NewRequestWithContext\<close> with a path-only
  target, \<open>json.Marshal\<close> of the request body, \<open>c.c.Do\<close> and the result. \<open>url.Parse\<close>, printing and path
  merging stay fields of \<open>env\<close>; \<open>go_targets\<close> says what they do with the targets the methods build, and
  \<open>dispatch_sends\<close> turns it into what the transport sees.
\<close>

section \<open>Request targets\<close>

definition URL_Path :: "url \<Rightarrow> string" where
  \<comment> \<open>the decoded path; a parsed URL always has one\<close>
  "URL_Path u = (case unescape PathSegment (Path u) of Some p \<Rightarrow> p | None \<Rightarrow> Path u)"

definition last_slash :: "string \<Rightarrow> nat option" where
  "last_slash s = (if CHR ''/'' \<in> set s
     then Some (length s - 1 - length (takeWhile (\<lambda>c. c \<noteq> CHR ''/'') (rev s))) else None)"

fun resolve_elems :: "string list \<Rightarrow> string \<Rightarrow> bool \<Rightarrow> string" where
  \<comment> \<open>the loop of \<open>resolvePath\<close> over the path elements; \<open>dst\<close> starts with a slash\<close>
  "resolve_elems [] dst first = dst"
| "resolve_elems (e # es) dst first =
     (if e = ''.'' then resolve_elems es dst False
      else if e = ''..'' then
        (case last_slash (tl dst) of
           None \<Rightarrow> resolve_elems es ''/'' True
         | Some i \<Rightarrow> resolve_elems es (''/'' @ take i (tl dst)) first)
      else resolve_elems es ((if first then dst else dst @ ''/'') @ e) False)"

definition resolve_path :: "string \<Rightarrow> string \<Rightarrow> string" where
  \<comment> \<open>\<open>net/url\<close>: \<open>resolvePath(base, ref)\<close>\<close>
  "resolve_path base ref =
     (let full = (if ref = [] then base
                  else if hd ref \<noteq> CHR ''/''
                  then take (case last_slash base of None \<Rightarrow> 0 | Some i \<Rightarrow> Suc i) base @ ref
                  else ref)
      in if full = [] then []
         else let es = split_on (CHR ''/'') full;
                  d = resolve_elems es ''/'' True;
                  r = (if last es = ''.'' \<or> last es = ''..'' then d @ ''/'' else d)
              in if 1 < length r \<and> r ! 1 = CHR ''/'' then tl r else r)"

definition parse_target :: "string \<Rightarrow> url" where
  "parse_target s = (case cut (CHR ''?'') s of (p, q) \<Rightarrow>
     \<lparr>Scheme = [], Opaque = [], User = None, Host = [], Path = p, ForceQuery = False, RawQuery = q, Fragment = []\<rparr>)"

definition path_char :: "char \<Rightarrow> bool" where
  "path_char c \<longleftrightarrow> is_alnum c \<or> c \<in> set ''-_.~$&+:=@/%''"

definition target_ok :: "string \<Rightarrow> bool" where
  \<comment> \<open>a path with one leading slash, properly escaped, and an optional non-empty query\<close>
  "target_ok s \<longleftrightarrow> s \<noteq> [] \<and> hd s = CHR ''/'' \<and> (tl s = [] \<or> hd (tl s) \<noteq> CHR ''/'') \<and> last s \<noteq> CHR ''?'' \<and>
     list_all path_char (fst (cut (CHR ''?'') s)) \<and> unescape PathSegment (fst (cut (CHR ''?'') s)) \<noteq> None \<and>
     list_all (\<lambda>c. \<not> is_ctl c \<and> c \<notin> set ''# '') (snd (cut (CHR ''?'') s))"

definition go_targets :: "('w, 'v) env \<Rightarrow> bool" where
  \<comment> \<open>documented behaviour of \<open>net/url\<close> on these targets\<close>
  "go_targets env \<longleftrightarrow> resolvePath env = resolve_path \<and>
     (\<forall>s. target_ok s \<longrightarrow> url_Parse env s = Some (parse_target s) \<and> url_String env (parse_target s) = s)"

section \<open>Calls\<close>

definition NewRequest :: "('w, 'v) env \<Rightarrow> string \<Rightarrow> string \<Rightarrow> string option \<Rightarrow> http_request option" where
  \<comment> \<open>\<open>http.NewRequestWithContext\<close> with \<open>http.NoBody\<close> or \<open>bytes.NewReader(b)\<close>\<close>
  "NewRequest env meth uri b =
     (case url_Parse env uri of
        None \<Rightarrow> None
      | Some u \<Rightarrow> Some
          \<lparr>rMethod = meth, rURL = u, rHeader = (\<lambda>_. []),
           rBody = (case b of None \<Rightarrow> HttpNoBody | Some s \<Rightarrow> if s = [] then HttpNoBody else Stream s False),
           rGetBody = (case b of None \<Rightarrow> None | Some s \<Rightarrow> Some (Inr (if s = [] then HttpNoBody else Stream s False))),
           rContentLength = (case b of None \<Rightarrow> 0 | Some s \<Rightarrow> int (length s))\<rparr>)"

datatype 'e fault = Guard 'e | Marshal string | CreateRequest | Failed client_error

type_synonym ('e, 'v, 'w) outcome = "('e fault + 'v out) \<times> 'w"

definition set_headers :: "(string \<times> string) list \<Rightarrow> http_request \<Rightarrow> http_request" where
  "set_headers hs req = req\<lparr>rHeader := fold (\<lambda>(k, v) h. h(k := v)) hs (rHeader req)\<rparr>"

definition dispatch :: "('w, 'v) env \<Rightarrow> string \<Rightarrow> 'w client \<Rightarrow> string \<Rightarrow> string \<Rightarrow> string option \<Rightarrow>
    (string \<times> string) list \<Rightarrow> target \<Rightarrow> int list \<Rightarrow> 'w \<Rightarrow> ('e, 'v, 'w) outcome" where
  "dispatch env ua c meth uri b hs v codes w =
     (case NewRequest env meth uri b of
        None \<Rightarrow> (Inl CreateRequest, w)
      | Some req \<Rightarrow>
          (case Do env ua c (Some (set_headers hs req)) v codes w of
             ((Some e, _), w1) \<Rightarrow> (Inl (Failed e), w1)
           | ((None, out1), w1) \<Rightarrow> (Inr out1, w1)))"

definition send_json :: "('w, 'v) env \<Rightarrow> string \<Rightarrow> 'w client \<Rightarrow> string \<Rightarrow> string \<Rightarrow> string + string \<Rightarrow>
    (string \<times> string) list \<Rightarrow> target \<Rightarrow> int list \<Rightarrow> 'w \<Rightarrow> ('e, 'v, 'w) outcome" where
  \<comment> \<open>with the result of \<open>json.Marshal\<close>\<close>
  "send_json env ua c meth uri marshalled hs v codes w =
     (case marshalled of
        Inl e \<Rightarrow> (Inl (Marshal e), w)
      | Inr b \<Rightarrow> dispatch env ua c meth uri (Some b) hs v codes w)"

abbreviation get_json :: "('w, 'v) env \<Rightarrow> string \<Rightarrow> 'w client \<Rightarrow> string \<Rightarrow> 'w \<Rightarrow> ('e, 'v, 'w) outcome" where
  "get_json env ua c uri \<equiv> dispatch env ua c ''GET'' uri None [] TJSON [200]"

definition with_query :: "string \<Rightarrow> url_values \<Rightarrow> string" where
  "with_query uri q = (if Encode q = [] then uri else uri @ ''?'' @ Encode q)"

definition opt_Set :: "bool \<Rightarrow> string \<Rightarrow> string \<Rightarrow> url_values \<Rightarrow> url_values" where
  "opt_Set b k v q = (if b then Set k v q else q)"

definition map_json :: "('a \<Rightarrow> 'b) \<Rightarrow> ('e, 'a, 'w) outcome \<Rightarrow> ('e, 'b, 'w) outcome" where
  "map_json f r = (case r of
      (Inl e, w) \<Rightarrow> (Inl e, w)
    | (Inr (JsonOut x), w) \<Rightarrow> (Inr (JsonOut (f x)), w)
    | (Inr (BytesOut b), w) \<Rightarrow> (Inr (BytesOut b), w)
    | (Inr (WriterOut b), w) \<Rightarrow> (Inr (WriterOut b), w)
    | (Inr Untouched, w) \<Rightarrow> (Inr Untouched, w))"

section \<open>Paths without dot segments\<close>

definition dots :: "string set" where
  "dots = {''.'', ''..''}"

lemma resolve_elems_plain:
  "set es \<inter> dots = {} \<Longrightarrow> resolve_elems es dst False = dst @ concat (map ((#) (CHR ''/'')) es)"
  by (induction es arbitrary: dst) (auto simp: dots_def)

lemma concat_split_on: "concat (map ((#) d) (split_on d t)) = d # t"
proof (induction t)
  case (Cons c t)
  then show ?case by (cases "split_on d t") auto
qed simp

lemma resolve_path_plain:
  assumes "set (split_on (CHR ''/'') (CHR ''/'' # t)) \<inter> dots = {}"
  shows "resolve_path base (CHR ''/'' # t) = CHR ''/'' # t"
proof -
  have s: "split_on (CHR ''/'') (CHR ''/'' # t) = [] # split_on (CHR ''/'') t" by simp
  have d: "resolve_elems (split_on (CHR ''/'') t) ''/'' False = ''//'' @ t"
    using assms by (simp add: resolve_elems_plain concat_split_on)
  have "last (split_on (CHR ''/'') (CHR ''/'' # t)) \<notin> dots"
    using assms by (metis disjoint_iff last_in_set split_on_ne)
  then show ?thesis by (simp add: resolve_path_def Let_def d dots_def)
qed

lemma split_on_cat: "split_on d (s @ d # t) = split_on d s @ split_on d t"
proof (induction s)
  case (Cons c s)
  then show ?case by (cases "split_on d s") auto
qed simp

lemma escape_dots: "escape mode s \<in> dots \<longleftrightarrow> s \<in> dots"
proof -
  have "escape mode ''.'' = ''.''" "escape mode ''..'' = ''..''"
    by (simp_all add: escape_char_def shouldEscape_def)
  then have "escape mode s = ''.'' \<longleftrightarrow> s = ''.''" "escape mode s = ''..'' \<longleftrightarrow> s = ''..''"
    using escape_inj [of mode s "''.''"] escape_inj [of mode s "''..''"] by (simp_all only:)
  then show ?thesis unfolding dots_def by blast
qed

lemma PathEscape_segment: "CHR ''/'' \<notin> set (PathEscape s)" "CHR ''?'' \<notin> set (PathEscape s)"
  using escape_safe(1) [of _ PathSegment s] by (auto simp: url_delims_def)

lemma PathEscape_path_char: "list_all path_char (PathEscape s)"
proof -
  have "path_char c" if "c \<in> set (PathEscape s)" for c
  proof -
    from that obtain a where a: "c \<in> set (escape_char PathSegment a)" by (auto simp: escape_def)
    have sub: "set ''-_.~$&+:=@'' \<subseteq> set ''-_.~$&+:=@/%''" "CHR ''%'' \<in> set ''-_.~$&+:=@/%''" by simp_all
    have "is_alnum c \<or> c = CHR ''%'' \<or> c \<in> set ''-_.~$&+:=@''"
      using escape_char_chars [OF a] plain_chars [of PathSegment c] by blast
    then show ?thesis unfolding path_char_def using sub by blast
  qed
  then show ?thesis by (simp add: list_all_iff)
qed

section \<open>What the transport sees\<close>

definition sent_body :: "string option \<Rightarrow> body" where
  "sent_body b = (case b of None \<Rightarrow> HttpNoBody | Some s \<Rightarrow> if s = [] then HttpNoBody else Stream s False)"

lemma set_headers_fields [simp]:
  "rMethod (set_headers hs req) = rMethod req" "rURL (set_headers hs req) = rURL req"
  "rBody (set_headers hs req) = rBody req" "rGetBody (set_headers hs req) = rGetBody req"
  by (simp_all add: set_headers_def)

lemma guard_or: "(if A then True else if B then C else False) \<longleftrightarrow> A \<or> B \<and> C"
  by simp

definition plain_client :: "('w, 'v) env \<Rightarrow> 'w client \<Rightarrow> ('w \<Rightarrow> (http_request \<times> (string + http_response)) list) \<Rightarrow> bool" where
  \<comment> \<open>a client without request hook, whose authorizer sets headers, over a logging transport\<close>
  "plain_client env c sent \<longleftrightarrow> observed env c sent \<and> onReq c = None \<and> header_authorizer c"

definition repeatable :: "'w client \<Rightarrow> string \<Rightarrow> (string \<times> string) list \<Rightarrow> bool" where
  \<comment> \<open>which calls the retry policy may repeat\<close>
  "repeatable c meth hs \<longleftrightarrow> meth \<in> set [''GET'', ''HEAD'', ''PUT'', ''DELETE'', ''OPTIONS'']
     \<or> meth \<in> set [''POST'', ''PATCH''] \<and>
       (unsafeRetries c \<or> fold (\<lambda>(k, v) h. h(k := v)) hs (\<lambda>_. []) ''Idempotency-Key'' \<noteq> [])"

definition is_call :: "'w client \<Rightarrow> string \<Rightarrow> string \<Rightarrow> string option \<Rightarrow> (string \<times> string) list \<Rightarrow> http_request \<Rightarrow> bool" where
  \<comment> \<open>\<open>R\<close> is the call \<open>meth uri\<close>, resolved against the client's base URL, with this body and idempotency key\<close>
  "is_call c meth uri b hs R \<longleftrightarrow>
     rMethod R = meth \<and> rBody R = sent_body b \<and>
     rHeader R ''Idempotency-Key'' = fold (\<lambda>(k, v) h. h(k := v)) hs (\<lambda>_. []) ''Idempotency-Key'' \<and>
     (\<exists>base. baseURL c = Some base \<and> rURL R = ResolveReference resolve_path base (parse_target uri))"

lemma dispatch_sends_keeping:
  assumes c: "observed env c sent" "onReq c = None" "keeps_headers K c" "''Idempotency-Key'' \<in> K"
    and "go_targets env" and "target_ok uri"
    and d: "dispatch env ua c meth uri b hs v codes w = (res, w')"
  shows "\<exists>R rs. sent w' = sent w @ map (\<lambda>r. (R, r)) rs \<and>
    (rs \<noteq> [] \<longrightarrow> is_call c meth uri b hs R \<and> authorized c (fold (\<lambda>(k, v) h. h(k := v)) hs (\<lambda>_. [])) w R \<and>
      (\<forall>k\<in>K - {''Content-Type'', ''User-Agent''}. rHeader R k = fold (\<lambda>(k, v) h. h(k := v)) hs (\<lambda>_. []) k)) \<and>
    (\<forall>out1. res = Inr out1 \<longrightarrow> (\<exists>resp. last (sent w') = (R, Inr resp) \<and> rs \<noteq> [] \<and>
      StatusCode resp \<in> set (if codes = [] then [200] else codes))) \<and>
    length rs \<le> (if repeatable c meth hs then attempts_of (retry c) else 1)"
proof -
  have t: "url_Parse env uri = Some (parse_target uri)" "url_String env (parse_target uri) = uri"
    and rp: "resolvePath env = resolve_path" using assms(5,6) by (auto simp: go_targets_def)
  obtain req where r: "NewRequest env meth uri b = Some req" by (simp add: NewRequest_def t)
  have req: "rMethod req = meth" "rURL req = parse_target uri" "rHeader req = (\<lambda>_. [])" "full_body (set_headers hs req) = sent_body b"
    using r by (auto simp: NewRequest_def t full_body_def sent_body_def split: option.splits)
  obtain err out1 w1 where D: "Do env ua c (Some (set_headers hs req)) v codes w = ((err, out1), w1)"
    by (metis prod.collapse)
  have w': "w1 = w'" and res: "err = None \<longleftrightarrow> (\<exists>out1. res = Inr out1)"
    using d r D by (auto simp: dispatch_def split: option.splits)
  from Do_sends_keeping [OF c D] obtain R rs where s: "sent w1 = sent w @ map (\<lambda>r. (R, r)) rs"
    "length rs \<le> (if shouldRetry c (set_headers hs req) then attempts_of (retry c) else 1)"
    "rs \<noteq> [] \<longrightarrow> (\<exists>base. baseURL c = Some base \<and> same_request env base (set_headers hs req) R) \<and> authorized c (rHeader (set_headers hs req)) w R \<and>
      (\<forall>k\<in>K - {''Content-Type'', ''User-Agent''}. rHeader R k = rHeader (set_headers hs req) k)"
    "err = None \<longrightarrow> (\<exists>resp. last (sent w1) = (R, Inr resp) \<and> rs \<noteq> [] \<and> StatusCode resp \<in> set (if codes = [] then [200] else codes))"
    by blast
  have hd: "rHeader (set_headers hs req) = fold (\<lambda>(k, v) h. h(k := v)) hs (\<lambda>_. [])"
    by (simp add: set_headers_def req(3))
  have call: "is_call c meth uri b hs R" if "baseURL c = Some base" "same_request env base (set_headers hs req) R" for base
    using that by (auto simp: is_call_def same_request_def req t rp hd)
  have bound: "length rs \<le> (if repeatable c meth hs then attempts_of (retry c) else 1)"
    using s(2) unfolding shouldRetry_def repeatable_def set_headers_fields req(1) hd guard_or .
  show ?thesis
  proof (intro exI [of _ R] exI [of _ rs] conjI)
    show "sent w' = sent w @ map (\<lambda>r. (R, r)) rs" using s(1) w' by simp
    show "rs \<noteq> [] \<longrightarrow> is_call c meth uri b hs R \<and> authorized c (fold (\<lambda>(k, v) h. h(k := v)) hs (\<lambda>_. [])) w R \<and>
        (\<forall>k\<in>K - {''Content-Type'', ''User-Agent''}. rHeader R k = fold (\<lambda>(k, v) h. h(k := v)) hs (\<lambda>_. []) k)"
      using s(3) call unfolding hd by blast
    show "\<forall>out1. res = Inr out1 \<longrightarrow> (\<exists>resp. last (sent w') = (R, Inr resp) \<and> rs \<noteq> [] \<and>
        StatusCode resp \<in> set (if codes = [] then [200] else codes))"
      using s(4) res w' by auto
  qed (rule bound)
qed

lemma dispatch_sends:
  assumes "plain_client env c sent" and "go_targets env" and "target_ok uri"
    and "dispatch env ua c meth uri b hs v codes w = (res, w')"
  shows "\<exists>R rs. sent w' = sent w @ map (\<lambda>r. (R, r)) rs \<and> (rs \<noteq> [] \<longrightarrow> is_call c meth uri b hs R) \<and>
    (\<forall>out1. res = Inr out1 \<longrightarrow> (\<exists>resp. last (sent w') = (R, Inr resp) \<and> rs \<noteq> [] \<and>
      StatusCode resp \<in> set (if codes = [] then [200] else codes))) \<and>
    length rs \<le> (if repeatable c meth hs then attempts_of (retry c) else 1)"
proof -
  have "observed env c sent" "onReq c = None" "keeps_headers {''Idempotency-Key''} c"
    using assms(1) by (simp_all add: plain_client_def header_authorizer_keeps)
  from dispatch_sends_keeping [OF this _ assms(2-4)] show ?thesis by blast
qed

lemma is_call_path:
  assumes "is_call c meth uri b hs R" and "baseURL c = Some base" and "target_ok uri" and "Opaque base = []"
    and "set (split_on (CHR ''/'') (fst (cut (CHR ''?'') uri))) \<inter> dots = {}"
  shows "Path (rURL R) = fst (cut (CHR ''?'') uri)" and "RawQuery (rURL R) = snd (cut (CHR ''?'') uri)"
    and "Host (rURL R) = Host base" and "Scheme (rURL R) = Scheme base"
proof -
  obtain p q where pq: "cut (CHR ''?'') uri = (p, q)" by fastforce
  have p: "p \<noteq> []" "hd p = CHR ''/''"
    using assms(3) pq unfolding target_ok_def cut_def by (cases uri; auto)+
  then obtain t where t: "p = CHR ''/'' # t" by (cases p) auto
  have "resolve_path (Path base) p = p"
    unfolding t using assms(5) pq t by (intro resolve_path_plain) simp
  with assms(1,2,4) p pq show "Path (rURL R) = fst (cut (CHR ''?'') uri)" "RawQuery (rURL R) = snd (cut (CHR ''?'') uri)"
    "Host (rURL R) = Host base" "Scheme (rURL R) = Scheme base"
    by (auto simp: is_call_def parse_target_def ResolveReference_def Let_def)
qed

section \<open>Targets built from a caller's strings\<close>

definition plain_path :: "string \<Rightarrow> bool" where
  \<comment> \<open>a literal path prefix: \<open>/seg/seg/\<close> and so on, of letters, digits, \<open>-\<close> and \<open>_\<close>\<close>
  "plain_path p \<longleftrightarrow> p \<noteq> [] \<and> hd p = CHR ''/'' \<and> (tl p = [] \<or> hd (tl p) \<noteq> CHR ''/'') \<and>
     list_all (\<lambda>c. is_alnum c \<or> c \<in> set ''-_/'') p"

lemma plain_path_chars:
  assumes "list_all (\<lambda>c. is_alnum c \<or> c \<in> set ''-_/'') p"
  shows "list_all path_char p" and "CHR ''?'' \<notin> set p" and "CHR ''%'' \<notin> set p"
    and "set (split_on (CHR ''/'') p) \<inter> dots = {}"
proof -
  have sub: "set ''-_/'' \<subseteq> set ''-_.~$&+:=@/%''" by simp
  show "list_all path_char p"
    using assms sub unfolding list_all_iff path_char_def by blast
  have no: "\<not> is_alnum (CHR ''?'')" "\<not> is_alnum (CHR ''%'')" "\<not> is_alnum (CHR ''.'')"
    by (simp_all add: is_alnum_def is_alpha_def)
  show "CHR ''?'' \<notin> set p" "CHR ''%'' \<notin> set p" using assms no by (auto simp: list_all_iff)
  have "CHR ''.'' \<notin> set p" using assms no by (auto simp: list_all_iff)
  then have "\<forall>e\<in>set (split_on (CHR ''/'') p). CHR ''.'' \<notin> set e"
  proof (induction p)
    case (Cons c p)
    then show ?case by (cases "split_on (CHR ''/'') p") auto
  qed simp
  then show "set (split_on (CHR ''/'') p) \<inter> dots = {}" by (auto simp: dots_def)
qed

lemma unescape_plain_append:
  "CHR ''%'' \<notin> set p \<Longrightarrow> unescape PathSegment t = Some t' \<Longrightarrow> unescape PathSegment (p @ t) = Some (p @ t')"
  by (induction p) auto

lemma unescape_escape_append:
  "unescape mode t = Some t' \<Longrightarrow> unescape mode (escape mode s @ t) = Some (s @ t')"
  by (induction s) (simp_all add: unescape_escape_char)

text \<open>A target \<open>pre / PathEscape s post\<close>, possibly with a query: it is one the hypotheses cover, the
  path has exactly the expected segments, and the segment decodes to \<open>s\<close>.\<close>

lemma target_segment:
  assumes "plain_path (pre @ ''/'')" and "list_all (\<lambda>c. is_alnum c \<or> c \<in> set ''-_/'') post" and "post = [] \<or> hd post = CHR ''/''"
    and "s \<noteq> []"
  shows "cut (CHR ''?'') (pre @ ''/'' @ PathEscape s @ post) = (pre @ ''/'' @ PathEscape s @ post, [])"
    and "target_ok (pre @ ''/'' @ PathEscape s @ post)"
    and "split_on (CHR ''/'') (pre @ ''/'' @ PathEscape s @ post)
      = split_on (CHR ''/'') pre @ PathEscape s # (if post = [] then [] else split_on (CHR ''/'') (tl post))"
proof -
  let ?p = "pre @ ''/'' @ PathEscape s @ post"
  have pc: "list_all (\<lambda>c. is_alnum c \<or> c \<in> set ''-_/'') (pre @ ''/'')" using assms(1) by (simp add: plain_path_def)
  note c1 = plain_path_chars [OF pc] and c2 = plain_path_chars [OF assms(2)]
  have "CHR ''?'' \<notin> set ?p" using c1(2) c2(2) PathEscape_segment(2) [of s] by auto
  then show cut: "cut (CHR ''?'') ?p = (?p, [])" by (rule cut_plain)
  have "unescape PathSegment post = Some post" using unescape_plain_append [OF c2(3), of "[]" "[]"] by simp
  from unescape_plain_append [OF c1(3) unescape_escape_append [OF this]]
  have "unescape PathSegment ?p \<noteq> None" by simp
  moreover have "list_all path_char ?p" using c1(1) c2(1) PathEscape_path_char [of s] by simp
  moreover have "last ?p \<noteq> CHR ''?''" using \<open>CHR ''?'' \<notin> set ?p\<close> by (metis append_is_Nil_conv last_in_set list.distinct(1))
  moreover have "hd ?p = CHR ''/''" using assms(1) by (cases pre) (auto simp: plain_path_def)
  moreover have "tl ?p = [] \<or> hd (tl ?p) \<noteq> CHR ''/''"
  proof (cases pre)
    case Nil
    have "hd (PathEscape s @ post) \<noteq> CHR ''/''"
      using assms(4) PathEscape_segment(1) [of s] by (metis escape_Nil_iff hd_append2 hd_in_set)
    then show ?thesis using Nil by simp
  next
    case (Cons a l)
    then show ?thesis using assms(1) by (cases l) (auto simp: plain_path_def)
  qed
  ultimately show "target_ok ?p" unfolding target_ok_def cut by simp
  have "split_on (CHR ''/'') ?p = split_on (CHR ''/'') pre @ split_on (CHR ''/'') (PathEscape s @ post)"
    by (simp add: split_on_cat)
  moreover have "split_on (CHR ''/'') (PathEscape s @ post) = PathEscape s # (if post = [] then [] else split_on (CHR ''/'') (tl post))"
    using assms(3) PathEscape_segment(1) [of s] by (cases post) (auto simp: split_on_plain split_on_append)
  ultimately show "split_on (CHR ''/'') ?p
      = split_on (CHR ''/'') pre @ PathEscape s # (if post = [] then [] else split_on (CHR ''/'') (tl post))" by simp
qed

lemma Encode_Nil_iff [simp]: "Encode q = [] \<longleftrightarrow> q = []"
proof -
  have "join d ws = [] \<longleftrightarrow> ws = [] \<or> ws = [[]]" for d and ws :: "string list"
    by (induction d ws rule: join.induct) auto
  moreover have "sort_key fst q = [] \<longleftrightarrow> q = []" by (metis set_empty set_sort)
  ultimately show ?thesis by (auto simp: Encode_def map_eq_Cons_conv)
qed

definition escaped :: "string \<Rightarrow> bool" where
  "escaped p \<longleftrightarrow> list_all path_char p \<and> unescape PathSegment p \<noteq> None"

lemma unescape_append:
  "unescape mode a = Some a' \<Longrightarrow> unescape mode b = Some b' \<Longrightarrow> unescape mode (a @ b) = Some (a' @ b')"
  by (induction mode a arbitrary: a' rule: unescape.induct) (auto split: if_splits list.splits option.splits)

lemma escaped_append [intro]: "escaped a \<Longrightarrow> escaped b \<Longrightarrow> escaped (a @ b)"
  using unescape_append [of PathSegment a _ b] by (auto simp: escaped_def)

lemma escaped_PathEscape [intro]: "escaped (PathEscape s)"
  by (simp add: escaped_def PathEscape_path_char)

lemma escaped_plain: "list_all (\<lambda>c. is_alnum c \<or> c \<in> set ''-_/'') p \<Longrightarrow> escaped p"
  using plain_path_chars [of p] unescape_plain_append [of p "[]" "[]"] by (simp add: escaped_def)

lemma target_escaped:
  assumes "escaped p" and p: "p \<noteq> []" "hd p = CHR ''/''" "tl p = [] \<or> hd (tl p) \<noteq> CHR ''/''"
  shows "cut (CHR ''?'') (with_query p q) = (p, Encode q)" and "target_ok (with_query p q)"
proof -
  have c: "list_all path_char p" "unescape PathSegment p \<noteq> None" using assms(1) by (simp_all add: escaped_def)
  have "\<not> path_char (CHR ''?'')" by (simp add: path_char_def is_alnum_def is_alpha_def)
  with c(1) have nq: "CHR ''?'' \<notin> set p" by (auto simp: list_all_iff)
  then show cut: "cut (CHR ''?'') (with_query p q) = (p, Encode q)"
    using Encode_Nil_iff [of "[]"] by (simp add: with_query_def cut_append cut_plain del: Encode_Nil_iff)
  have "CHR ''?'' \<notin> set (Encode q)" using Encode_safe(1) [of "CHR ''?''" q] by auto
  moreover have "last p \<noteq> CHR ''?''" using nq p(1) last_in_set by metis
  moreover have "last (Encode q) \<noteq> CHR ''?''" if "q \<noteq> []"
    using that \<open>CHR ''?'' \<notin> set (Encode q)\<close> by (metis Encode_Nil_iff last_in_set)
  moreover have "list_all (\<lambda>c. \<not> is_ctl c \<and> c \<notin> set ''# '') (Encode q)"
    using Encode_safe [of _ q] by (fastforce simp: list_all_iff)
  ultimately show "target_ok (with_query p q)"
    using p c unfolding target_ok_def cut by (auto simp: with_query_def hd_append tl_append split: list.split)
qed

lemma target_query:
  assumes "plain_path p"
  shows "cut (CHR ''?'') (with_query p q) = (p, Encode q)" and "target_ok (with_query p q)"
    and "set (split_on (CHR ''/'') p) \<inter> dots = {}"
proof -
  have pc: "list_all (\<lambda>c. is_alnum c \<or> c \<in> set ''-_/'') p" and p: "p \<noteq> []" "hd p = CHR ''/''"
    "tl p = [] \<or> hd (tl p) \<noteq> CHR ''/''" using assms by (auto simp: plain_path_def)
  note target_escaped [OF escaped_plain [OF pc] p]
  then show "cut (CHR ''?'') (with_query p q) = (p, Encode q)" "target_ok (with_query p q)" by simp_all
  show "set (split_on (CHR ''/'') p) \<inter> dots = {}" by (rule plain_path_chars(4) [OF pc])
qed

lemma ParseQuery_of: "distinct (map fst q) \<Longrightarrow> map_of (ParseQuery (Encode q)) = map_of q"
  by (simp add: ParseQuery_Encode map_of_sort_key_fst)

lemma opt_Set_map_of [simp]: "map_of (opt_Set b k v q) = (if b then (map_of q)(k \<mapsto> v) else map_of q)"
  by (simp add: opt_Set_def)

lemma opt_Set_keys: "distinct (map fst q) \<Longrightarrow> distinct (map fst (opt_Set b k v q))"
  by (simp add: opt_Set_def Set_keys)

section \<open>Literal targets\<close>

lemmas literal_path = plain_path_def is_alnum_def is_alpha_def

lemma literal_target:
  assumes "plain_path p" shows "target_ok p"
  using target_query(2) [OF assms, of "[]"] Encode_Nil_iff [of "[]"] by (simp add: with_query_def del: Encode_Nil_iff)

lemma send_json_sends:
  assumes "plain_client env c sent" and "go_targets env" and "target_ok uri"
    and "send_json env ua c meth uri marshalled hs v codes w = (res, w')"
  shows "\<exists>R rs. sent w' = sent w @ map (\<lambda>r. (R, r)) rs \<and>
    (rs \<noteq> [] \<longrightarrow> (\<exists>b. marshalled = Inr b \<and> is_call c meth uri (Some b) hs R)) \<and>
    length rs \<le> (if repeatable c meth hs then attempts_of (retry c) else 1)"
proof (cases marshalled)
  case (Inl e)
  with assms(4) have "w' = w" by (simp add: send_json_def)
  then show ?thesis by (intro exI [of _ undefined] exI [of _ "[]"]) simp
next
  case (Inr b)
  with assms(4) have "dispatch env ua c meth uri (Some b) hs v codes w = (res, w')" by (simp add: send_json_def)
  from dispatch_sends [OF assms(1-3) this] Inr show ?thesis by blast
qed

section \<open>Authorizers\<close>

text \<open>
  The interface \<open>auth.Authorizer\<close>: an authorizer writes headers out of a set \<open>H\<close> and touches nothing else
  of the request. Every authorizer of the SDK is an instance; what the transport theorems ask of a client's
  authorizer follows here once.
\<close>

locale authorizer =
  fixes setAuth :: "http_request \<Rightarrow> 'w \<Rightarrow> (string + http_request) \<times> 'w" and H :: "string set"
  assumes sets_only: "fst (setAuth r w) = Inr r' \<Longrightarrow> \<exists>h. r' = r\<lparr>rHeader := h\<rparr> \<and> (\<forall>k. k \<notin> H \<longrightarrow> h k = rHeader r k)"
begin

lemma keeps_headers_with: "keeps_headers (- H) (c\<lparr>SetAuth := Some setAuth\<rparr>)"
  by (auto simp: keeps_headers_def dest!: sets_only)

lemma header_authorizer_with:
  "''Idempotency-Key'' \<notin> H \<Longrightarrow> SetAuth c = Some setAuth \<Longrightarrow> header_authorizer c"
  by (auto simp: header_authorizer_def dest!: sets_only)

lemma keeps_fields:
  assumes "setAuth r w = (Inr r', w')"
  shows "rMethod r' = rMethod r" and "rURL r' = rURL r" and "rBody r' = rBody r" and "rGetBody r' = rGetBody r"
    and "k \<notin> H \<Longrightarrow> rHeader r' k = rHeader r k"
  using sets_only [of r w r'] assms by auto

end

section \<open>An environment for the witnesses\<close>

definition web_env :: "((http_request \<times> (string + http_response)) list, unit) env" where
  "web_env = demo_env\<lparr>url_Parse := \<lambda>s. Some (parse_target s),
     url_String := \<lambda>u. Path u @ (if RawQuery u = [] then [] else ''?'' @ RawQuery u), resolvePath := resolve_path\<rparr>"

lemma cut_join: "fst (cut d s) @ (if d \<in> set s then d # snd (cut d s) else []) = s"
  unfolding cut_def by (induction s) auto

lemma web_env_targets: "go_targets web_env"
proof -
  have "url_String web_env (parse_target s) = s" if "target_ok s" for s
  proof (cases "CHR ''?'' \<in> set s")
    case True
    have "snd (cut (CHR ''?'') s) \<noteq> []"
    proof
      assume "snd (cut (CHR ''?'') s) = []"
      with True cut_join [of "CHR ''?''" s] have "s = fst (cut (CHR ''?'') s) @ [CHR ''?'']" by simp
      then have "last s = CHR ''?''" by (metis last_snoc)
      with that show False by (simp add: target_ok_def)
    qed
    with True cut_join [of "CHR ''?''" s] show ?thesis
      by (simp add: web_env_def parse_target_def split: prod.split) (metis fst_conv snd_conv append_Cons append_Nil)
  next
    case False
    then show ?thesis by (simp add: web_env_def parse_target_def cut_plain)
  qed
  then show ?thesis by (simp add: go_targets_def web_env_def)
qed

lemma web_client: "plain_client web_env demo_client (\<lambda>w. w)"
  by (simp add: plain_client_def observed_def header_authorizer_def web_env_def demo_defs Let_def)

end
