(* ===== verification/Business_Client.thy ===== *)
theory Business_Client
  imports Endpoints Business_Paging
begin

text \<open>
  The client of corp-api.monobank.ua (\<open>business/\<close>): construction and authorization, the endpoint methods
  with their guards, targets, bodies and accepted statuses, and the idempotency key.

  A method takes the environment, the SDK's user agent, the client and the world. A request body is
  handed to \<open>json.Marshal\<close> (a parameter where the body has a type of its own), and the response is
  whatever the environment's decoder makes of it (\<open>'v\<close>).
\<close>

section \<open>Construction\<close>

definition BusinessBaseURL :: string where
  "BusinessBaseURL = ''https://corp-api.monobank.ua''"

definition TokenAuth_SetAuth :: "string \<Rightarrow> http_request \<Rightarrow> 'w \<Rightarrow> (string + http_request) \<times> 'w" where
  "TokenAuth_SetAuth token r w =
     (Inr (r\<lparr>rHeader := set_default ''Accept'' ''application/json'' ((rHeader r)(''X-Token'' := token))\<rparr>), w)"

definition business_New :: "('w, 'v) env \<Rightarrow> (http_request \<Rightarrow> 'w \<Rightarrow> (string + http_response) \<times> 'w) \<Rightarrow> string \<Rightarrow>
    ('w client \<Rightarrow> 'w client) list \<Rightarrow> 'w client" where
  "business_New env stdDo token opts =
     New env stdDo ([WithBaseURL env BusinessBaseURL, WithAuth (Some (TokenAuth_SetAuth token))] @ opts)"

section \<open>Accounts\<close>

datatype business_error =
    ErrNilRequest | ErrIdempotencyKeyRequired | ErrBatchSize nat | ErrEmptyRegistryReference | ErrOperationRefRequired

type_synonym ('v, 'w) business_call = "'w \<Rightarrow> (business_error, 'v, 'w) outcome"

definition Accounts :: "('w, 'v) env \<Rightarrow> string \<Rightarrow> 'w client \<Rightarrow> ('v, 'w) business_call" where
  "Accounts env ua c = get_json env ua c ''/ext/v1/accounts''"

definition Account :: "('w, 'v) env \<Rightarrow> string \<Rightarrow> 'w client \<Rightarrow> string \<Rightarrow> ('v, 'w) business_call" where
  "Account env ua c iban = get_json env ua c (''/ext/v1/accounts/'' @ PathEscape iban)"

definition AccountBalances :: "('w, 'v) env \<Rightarrow> string \<Rightarrow> 'w client \<Rightarrow> string \<Rightarrow> string \<Rightarrow> string \<Rightarrow> ('v, 'w) business_call" where
  "AccountBalances env ua c iban dateFrom dateTo =
     (let q = Set ''dateTo'' dateTo (Set ''dateFrom'' dateFrom [])
      in get_json env ua c (''/ext/v1/accounts/'' @ PathEscape iban @ ''/balances?'' @ Encode q))"

section \<open>Contacts\<close>

definition page_query :: "int \<Rightarrow> int \<Rightarrow> url_values \<Rightarrow> url_values" where
  "page_query limit offset q =
     opt_Set (0 < offset) ''offset'' (Itoa offset) (opt_Set (0 < limit) ''limit'' (Itoa limit) q)"

definition ContactsGet :: "('w, 'v) env \<Rightarrow> string \<Rightarrow> 'w client \<Rightarrow> int \<Rightarrow> int \<Rightarrow> ('v, 'w) business_call" where
  "ContactsGet env ua c limit offset =
     get_json env ua c (with_query ''/ext/v1/salary-contacts'' (page_query limit offset []))"

definition SearchContacts :: "('w, 'v) env \<Rightarrow> string \<Rightarrow> 'w client \<Rightarrow> string \<Rightarrow> int \<Rightarrow> int \<Rightarrow> ('v, 'w) business_call" where
  "SearchContacts env ua c query limit offset =
     get_json env ua c (with_query ''/ext/v1/salary-contacts/search''
       (page_query limit offset (opt_Set (query \<noteq> []) ''query'' query [])))"

definition ContactByID :: "('w, 'v) env \<Rightarrow> string \<Rightarrow> 'w client \<Rightarrow> string \<Rightarrow> ('v, 'w) business_call" where
  "ContactByID env ua c i = get_json env ua c (''/ext/v1/salary-contacts/'' @ PathEscape i)"

definition CreateContact :: "('w, 'v) env \<Rightarrow> string \<Rightarrow> 'w client \<Rightarrow> ('r \<Rightarrow> string + string) \<Rightarrow> 'r option \<Rightarrow> ('v, 'w) business_call" where
  "CreateContact env ua c marshal inp w =
     (case inp of
        None \<Rightarrow> (Inl (Guard ErrNilRequest), w)
      | Some r \<Rightarrow> send_json env ua c ''POST'' ''/ext/v1/salary-contacts'' (marshal r) [] TNil [200] w)"

definition DeleteContact :: "('w, 'v) env \<Rightarrow> string \<Rightarrow> 'w client \<Rightarrow> string \<Rightarrow> ('v, 'w) business_call" where
  "DeleteContact env ua c i = dispatch env ua c ''DELETE'' (''/ext/v1/salary-contacts/'' @ PathEscape i) None [] TNil [200]"

definition DeleteContactsBatch :: "('w, 'v) env \<Rightarrow> string \<Rightarrow> 'w client \<Rightarrow> (string list \<Rightarrow> string + string) \<Rightarrow> string list \<Rightarrow>
    ('v, 'w) business_call" where
  \<comment> \<open>\<open>marshal\<close> encodes the object with the single field \<open>ids\<close>\<close>
  "DeleteContactsBatch env ua c marshal ids w =
     (if ids = [] then (Inl (Guard ErrNilRequest), w)
      else send_json env ua c ''DELETE'' ''/ext/v1/salary-contacts/batch'' (marshal ids) [] TNil [200] w)"

section \<open>Statement\<close>

fun direction_string :: "direction \<Rightarrow> string" where
  "direction_string DirDefault = []"
| "direction_string StatementUp = ''UP''"
| "direction_string StatementDown = ''DOWN''"

definition statement_uri :: "string \<Rightarrow> int \<Rightarrow> int option \<Rightarrow> direction \<Rightarrow> int option \<Rightarrow> string" where
  "statement_uri account f t dir limit =
     with_query (''/ext/v1/statement/'' @ PathEscape account @ ''/'' @ Itoa f @ (case t of None \<Rightarrow> [] | Some n \<Rightarrow> ''/'' @ Itoa n))
       (case limit of
          None \<Rightarrow> opt_Set (direction_string dir \<noteq> []) ''direction'' (direction_string dir) []
        | Some n \<Rightarrow> Set ''limit'' (Itoa n) (opt_Set (direction_string dir \<noteq> []) ''direction'' (direction_string dir) []))"

definition statement_get :: "('w, statement_item list) env \<Rightarrow> string \<Rightarrow> 'w client \<Rightarrow> (business_error fault \<Rightarrow> string) \<Rightarrow> string \<Rightarrow>
    int \<Rightarrow> int option \<Rightarrow> direction \<Rightarrow> int option \<Rightarrow> 'w \<Rightarrow> (string + statement_item list) \<times> 'w" where
  \<comment> \<open>the request behind \<open>Statement\<close>; \<open>text\<close> is the error's message\<close>
  "statement_get env ua c message account f t dir limit w =
     (case get_json env ua c (statement_uri account f t dir limit) w of
        (Inl e, w1) \<Rightarrow> (Inl (message e), w1)
      | (Inr (JsonOut items), w1) \<Rightarrow> (Inr items, w1)
      | (Inr _, w1) \<Rightarrow> (Inr [], w1))"

definition Operation :: "('w, 'v) env \<Rightarrow> string \<Rightarrow> 'w client \<Rightarrow> string \<Rightarrow> string \<Rightarrow> ('v, 'w) business_call" where
  "Operation env ua c i externalReference w =
     (if i = [] \<and> externalReference = [] then (Inl (Guard ErrOperationRefRequired), w)
      else let q = opt_Set (externalReference \<noteq> []) ''externalReference'' externalReference (opt_Set (i \<noteq> []) ''id'' i [])
           in get_json env ua c (''/ext/v1/statement?'' @ Encode q) w)"

section \<open>Payments and salary registries\<close>

definition keyed_post :: "('w, 'v) env \<Rightarrow> string \<Rightarrow> 'w client \<Rightarrow> string \<Rightarrow> string \<Rightarrow> string + string \<Rightarrow> ('v, 'w) business_call" where
  "keyed_post env ua c uri key marshalled =
     send_json env ua c ''POST'' uri marshalled [(''Idempotency-Key'', key)] TJSON [200]"

definition PreparePayment :: "('w, 'v) env \<Rightarrow> string \<Rightarrow> 'w client \<Rightarrow> ('r \<Rightarrow> string + string) \<Rightarrow> string \<Rightarrow> 'r option \<Rightarrow>
    ('v, 'w) business_call" where
  "PreparePayment env ua c marshal idempotencyKey inp w =
     (case inp of
        None \<Rightarrow> (Inl (Guard ErrNilRequest), w)
      | Some r \<Rightarrow>
          if idempotencyKey = [] then (Inl (Guard ErrIdempotencyKeyRequired), w)
          else keyed_post env ua c ''/ext/v1/payment/prepare'' idempotencyKey (marshal r) w)"

definition PaymentState :: "('w, 'v) env \<Rightarrow> string \<Rightarrow> 'w client \<Rightarrow> string \<Rightarrow> ('v, 'w) business_call" where
  "PaymentState env ua c i = get_json env ua c (''/ext/v1/payment/'' @ PathEscape i @ ''/state'')"

definition PaymentStateByReference :: "('w, 'v) env \<Rightarrow> string \<Rightarrow> 'w client \<Rightarrow> string \<Rightarrow> ('v, 'w) business_call" where
  "PaymentStateByReference env ua c externalReference =
     get_json env ua c (''/ext/v1/payment/state?'' @ Encode (Set ''externalReference'' externalReference []))"

definition CreateSalaryRegistry :: "('w, 'v) env \<Rightarrow> string \<Rightarrow> 'w client \<Rightarrow> ('r \<Rightarrow> string + string) \<Rightarrow> string \<Rightarrow> 'r option \<Rightarrow>
    ('v, 'w) business_call" where
  "CreateSalaryRegistry env ua c marshal idempotencyKey inp w =
     (case inp of
        None \<Rightarrow> (Inl (Guard ErrNilRequest), w)
      | Some r \<Rightarrow>
          if idempotencyKey = [] then (Inl (Guard ErrIdempotencyKeyRequired), w)
          else keyed_post env ua c ''/ext/v1/payments/salary/registries'' idempotencyKey (marshal r) w)"

definition SalaryRegistryTypes :: "('w, 'v) env \<Rightarrow> string \<Rightarrow> 'w client \<Rightarrow> ('v, 'w) business_call" where
  "SalaryRegistryTypes env ua c = get_json env ua c ''/ext/v1/payments/salary/registries/types''"

definition SalaryRegistryStatus :: "('w, 'v) env \<Rightarrow> string \<Rightarrow> 'w client \<Rightarrow> string \<Rightarrow> ('v, 'w) business_call" where
  "SalaryRegistryStatus env ua c i =
     get_json env ua c (''/ext/v1/payments/salary/registries/'' @ PathEscape i @ ''/status'')"

record salary_recipient =
  FullName :: string
  INN :: string
  DocumentType :: string
  DocumentNumber :: string
  DocumentSeries :: string
  recIBAN :: string
  recAmount :: int

record submit_batch_request =
  RegistryReference :: string
  RegistryName :: string
  SenderIBAN :: string
  SalaryRegistryType :: string
  From :: string
  To :: string
  Recipients :: "salary_recipient list"

definition MaxSalaryBatchRecipients :: nat where
  "MaxSalaryBatchRecipients = 1000"

definition SubmitSalaryRegistryBatch :: "('w, 'v) env \<Rightarrow> string \<Rightarrow> 'w client \<Rightarrow> (submit_batch_request \<Rightarrow> string + string) \<Rightarrow> string \<Rightarrow>
    submit_batch_request option \<Rightarrow> ('v, 'w) business_call" where
  "SubmitSalaryRegistryBatch env ua c marshal idempotencyKey inp w =
     (case inp of
        None \<Rightarrow> (Inl (Guard ErrNilRequest), w)
      | Some r \<Rightarrow>
          if idempotencyKey = [] then (Inl (Guard ErrIdempotencyKeyRequired), w)
          else let n = length (Recipients r)
               in if n = 0 \<or> MaxSalaryBatchRecipients < n then (Inl (Guard (ErrBatchSize n)), w)
                  else keyed_post env ua c ''/ext/v2/payments/salary/registries'' idempotencyKey (marshal r) w)"

definition FinalizeSalaryRegistry :: "('w, 'v) env \<Rightarrow> string \<Rightarrow> 'w client \<Rightarrow> (string \<Rightarrow> string + string) \<Rightarrow> string \<Rightarrow>
    ('v, 'w) business_call" where
  \<comment> \<open>\<open>marshal\<close> encodes the object with the single field \<open>registryReference\<close>\<close>
  "FinalizeSalaryRegistry env ua c marshal registryReference w =
     (if registryReference = [] then (Inl (Guard ErrEmptyRegistryReference), w)
      else send_json env ua c ''POST'' ''/ext/v2/payments/salary/registries/finalize'' (marshal registryReference) [] TNil [200] w)"

section \<open>Payslips\<close>

record 'a result_wrapper =
  Result :: 'a

definition UploadPayslips :: "('w, 'v result_wrapper) env \<Rightarrow> string \<Rightarrow> 'w client \<Rightarrow> ('r \<Rightarrow> string + string) \<Rightarrow> 'r option \<Rightarrow>
    ('v, 'w) business_call" where
  "UploadPayslips env ua c marshal inp w =
     (case inp of
        None \<Rightarrow> (Inl (Guard ErrNilRequest), w)
      | Some r \<Rightarrow> map_json Result (send_json env ua c ''POST'' ''/ext/v1/payslips/batch'' (marshal r) [] TJSON [200] w))"

definition DeletePayslips :: "('w, 'v) env \<Rightarrow> string \<Rightarrow> 'w client \<Rightarrow> ('r \<Rightarrow> string + string) \<Rightarrow> 'r option \<Rightarrow> ('v, 'w) business_call" where
  "DeletePayslips env ua c marshal inp w =
     (case inp of
        None \<Rightarrow> (Inl (Guard ErrNilRequest), w)
      | Some r \<Rightarrow> send_json env ua c ''DELETE'' ''/ext/v1/payslips/batch'' (marshal r) [] TNil [204, 200] w)"

definition ImportStatus :: "('w, 'v result_wrapper) env \<Rightarrow> string \<Rightarrow> 'w client \<Rightarrow> string \<Rightarrow> ('v, 'w) business_call" where
  "ImportStatus env ua c period w =
     map_json Result (get_json env ua c (''/ext/v1/payslip-imports/status?'' @ Encode (Set ''period'' period [])) w)"

definition DeleteImport :: "('w, 'v) env \<Rightarrow> string \<Rightarrow> 'w client \<Rightarrow> string \<Rightarrow> ('v, 'w) business_call" where
  "DeleteImport env ua c period =
     dispatch env ua c ''DELETE'' (''/ext/v1/payslip-imports?'' @ Encode (Set ''period'' period [])) None [] TNil [204, 200]"

definition SendPayslipsToMobile :: "('w, 'v result_wrapper) env \<Rightarrow> string \<Rightarrow> 'w client \<Rightarrow> string \<Rightarrow> ('v, 'w) business_call" where
  "SendPayslipsToMobile env ua c period w =
     map_json Result (dispatch env ua c ''POST'' (''/ext/v1/payslip-imports/send?'' @ Encode (Set ''period'' period [])) None []
       TJSON [200] w)"

definition PayslipPDF :: "('w, 'v) env \<Rightarrow> string \<Rightarrow> 'w client \<Rightarrow> string \<Rightarrow> string \<Rightarrow> ('v, 'w) business_call" where
  "PayslipPDF env ua c identification period =
     dispatch env ua c ''GET''
       (''/ext/v1/payslips/pdf?'' @ Encode (Set ''period'' period (Set ''identification'' identification [])))
       None [(''Accept'', ''application/pdf'')] TBytes [200]"

section \<open>Properties\<close>

text \<open>
  A payment is prepared under one idempotency key. Whatever the transport answers, all exchanges caused by
  one \<open>PreparePayment\<close>, retries included, are the same POST with the same non-empty key and the same
  marshalled body, at most as many as the retry policy allows; without a body or a key nothing is sent.
\<close>

theorem PreparePayment_one_key:
  assumes "plain_client env c sent" and "go_targets env"
    and "PreparePayment env ua c marshal key inp w = (res, w')"
  shows "\<exists>R rs. sent w' = sent w @ map (\<lambda>r. (R, r)) rs \<and> length rs \<le> attempts_of (retry c) \<and>
    (rs \<noteq> [] \<longrightarrow> key \<noteq> [] \<and> rHeader R ''Idempotency-Key'' = key \<and> rMethod R = ''POST'' \<and>
      (\<exists>r b. inp = Some r \<and> marshal r = Inr b \<and> rBody R = sent_body (Some b)))"
proof (cases "inp = None \<or> key = []")
  case True
  with assms(3) have "w' = w" by (auto simp: PreparePayment_def split: option.splits)
  then show ?thesis by (intro exI [of _ undefined] exI [of _ "[]"]) simp
next
  case False
  then obtain r where r: "inp = Some r" "key \<noteq> []" by auto
  with assms(3) have s: "send_json env ua c ''POST'' ''/ext/v1/payment/prepare'' (marshal r) [(''Idempotency-Key'', key)] TJSON [200] w = (res, w')"
    by (simp add: PreparePayment_def keyed_post_def)
  have t: "target_ok ''/ext/v1/payment/prepare''" by (rule literal_target) (simp add: literal_path)
  obtain R rs where R: "sent w' = sent w @ map (\<lambda>r. (R, r)) rs" "length rs \<le> attempts_of (retry c)"
    "rs \<noteq> [] \<longrightarrow> (\<exists>b. marshal r = Inr b \<and> is_call c ''POST'' ''/ext/v1/payment/prepare'' (Some b) [(''Idempotency-Key'', key)] R)"
    using send_json_sends [OF assms(1,2) t s] r(2) by (auto simp: repeatable_def)
  then show ?thesis using r by (intro exI [of _ R] exI [of _ rs]) (auto simp: is_call_def)
qed

theorem PreparePayment_one_key_witness:
  "\<exists>R rs. snd (PreparePayment web_env ''sdk'' demo_client (\<lambda>r. Inr r) ''k-1'' (Some ''{}'') []) = map (\<lambda>r. (R, r)) rs \<and> length rs \<le> 4"
proof -
  obtain res w' where d: "PreparePayment web_env ''sdk'' demo_client (\<lambda>r. Inr r) ''k-1'' (Some ''{}'') [] = (res, w')"
    by fastforce
  have "attempts_of (retry demo_client) = 4" by (simp add: attempts_of_def demo_client_def defaultRetry_def)
  with PreparePayment_one_key [OF web_client web_env_targets d] d show ?thesis by auto
qed

text \<open>
  A contact id cannot redirect a deletion. For every non-empty id other than the two dot segments, of whatever
  bytes, each exchange of \<open>DeleteContact\<close> is a DELETE to the base URL's host whose path has exactly the
  four segments of the endpoint and a fifth that decodes to that id, and there is no query.
\<close>

theorem DeleteContact_addresses_one_contact:
  assumes "plain_client env c sent" and "go_targets env" and "baseURL c = Some base" and "Opaque base = []"
    and "i \<noteq> []" and "i \<notin> {''.'', ''..''}"
    and "DeleteContact env ua c i w = (res, w')"
  shows "\<exists>log. sent w' = sent w @ log \<and>
    list_all (\<lambda>(R, r). rMethod R = ''DELETE'' \<and> Host (rURL R) = Host base \<and> Scheme (rURL R) = Scheme base \<and>
      RawQuery (rURL R) = [] \<and>
      (case split_on (CHR ''/'') (Path (rURL R)) of
         [a, b, d, e, seg] \<Rightarrow> [a, b, d, e] = [[], ''ext'', ''v1'', ''salary-contacts''] \<and> unescape PathSegment seg = Some i
       | _ \<Rightarrow> False)) log"
proof -
  let ?uri = "''/ext/v1/salary-contacts'' @ ''/'' @ PathEscape i @ []"
  have pp: "plain_path (''/ext/v1/salary-contacts'' @ ''/'')" by (simp add: literal_path)
  note t = target_segment [OF pp _ _ assms(5), of "[]", simplified]
  have ts: "target_ok ?uri" "cut (CHR ''?'') ?uri = (?uri, [])"
    "split_on (CHR ''/'') ?uri = [[], ''ext'', ''v1'', ''salary-contacts'', PathEscape i]" using t by simp_all
  have "dispatch env ua c ''DELETE'' ?uri None [] TNil [200] w = (res, w')" using assms(7) by (simp add: DeleteContact_def)
  from dispatch_sends [OF assms(1,2) ts(1) this] obtain R rs
    where R: "sent w' = sent w @ map (\<lambda>r. (R, r)) rs" "rs \<noteq> [] \<longrightarrow> is_call c ''DELETE'' ?uri None [] R" by blast
  have "PathEscape i \<notin> dots" using escape_dots [of PathSegment i] assms(6) by (simp add: dots_def)
  then have nd: "set (split_on (CHR ''/'') (fst (cut (CHR ''?'') ?uri))) \<inter> dots = {}"
    unfolding ts(2) fst_conv ts(3) by (auto simp: dots_def)
  have "rMethod R = ''DELETE'' \<and> Host (rURL R) = Host base \<and> Scheme (rURL R) = Scheme base \<and>
      RawQuery (rURL R) = [] \<and> split_on (CHR ''/'') (Path (rURL R)) = [[], ''ext'', ''v1'', ''salary-contacts'', PathEscape i]"
    if "is_call c ''DELETE'' ?uri None [] R"
    using is_call_path [OF that assms(3) ts(1) assms(4) nd] that ts(2,3) by (simp add: is_call_def)
  with R show ?thesis by (intro exI [of _ "map (\<lambda>r. (R, r)) rs"]) (auto simp: list_all_iff)
qed

theorem DeleteContact_addresses_one_contact_witness:
  "list_all (\<lambda>(R, r). unescape PathSegment (last (split_on (CHR ''/'') (Path (rURL R)))) = Some ''a/../b'')
     (snd (DeleteContact web_env ''sdk'' demo_client ''a/../b'' []))"
proof -
  obtain res w' where d: "DeleteContact web_env ''sdk'' demo_client ''a/../b'' [] = (res, w')" by fastforce
  have b: "baseURL demo_client = Some (demo_url ''https'' ''api.monobank.ua'' [])" "Opaque (demo_url ''https'' ''api.monobank.ua'' []) = []"
    by (simp_all add: demo_client_def demo_url_def)
  from DeleteContact_addresses_one_contact [OF web_client web_env_targets b _ _ d] d show ?thesis
    by (auto simp: list_all_iff split: list.splits)
qed

text \<open>
  Search text arrives as it is. Each exchange of \<open>SearchContacts\<close> goes to the search path of the base URL's
  host, and decoding its query gives exactly the parameters asked for: the text when it is not empty,
  limit and offset when they are positive, and nothing else, whatever characters the text has.
\<close>

theorem SearchContacts_query_arrives:
  assumes "plain_client env c sent" and "go_targets env" and "baseURL c = Some base" and "Opaque base = []"
    and "SearchContacts env ua c query limit offset w = (res, w')"
  shows "\<exists>log. sent w' = sent w @ log \<and>
    list_all (\<lambda>(R, r). Host (rURL R) = Host base \<and> Path (rURL R) = ''/ext/v1/salary-contacts/search'' \<and>
      map_of (ParseQuery (RawQuery (rURL R))) = (\<lambda>k.
        if k = ''query'' \<and> query \<noteq> [] then Some query
        else if k = ''limit'' \<and> 0 < limit then Some (Itoa limit)
        else if k = ''offset'' \<and> 0 < offset then Some (Itoa offset)
        else None)) log"
proof -
  let ?q = "page_query limit offset (opt_Set (query \<noteq> []) ''query'' query [])"
  let ?uri = "with_query ''/ext/v1/salary-contacts/search'' ?q"
  have pp: "plain_path ''/ext/v1/salary-contacts/search''" by (simp add: literal_path)
  note t = target_query(1,2) [OF pp, of ?q] target_query(3) [OF pp]
  have "dispatch env ua c ''GET'' ?uri None [] TJSON [200] w = (res, w')" using assms(5) by (simp add: SearchContacts_def)
  from dispatch_sends [OF assms(1,2) t(2) this] obtain R rs
    where R: "sent w' = sent w @ map (\<lambda>r. (R, r)) rs" "rs \<noteq> [] \<longrightarrow> is_call c ''GET'' ?uri None [] R" by blast
  have nd: "set (split_on (CHR ''/'') (fst (cut (CHR ''?'') ?uri))) \<inter> dots = {}" unfolding t(1) fst_conv by (rule t(3))
  have "distinct (map fst ?q)" by (simp add: page_query_def opt_Set_keys)
  then have q: "map_of (ParseQuery (Encode ?q)) = (\<lambda>k. if k = ''query'' \<and> query \<noteq> [] then Some query
        else if k = ''limit'' \<and> 0 < limit then Some (Itoa limit)
        else if k = ''offset'' \<and> 0 < offset then Some (Itoa offset) else None)"
    by (auto simp: ParseQuery_of page_query_def fun_eq_iff)
  have "Host (rURL R) = Host base \<and> Path (rURL R) = ''/ext/v1/salary-contacts/search'' \<and> RawQuery (rURL R) = Encode ?q"
    if "is_call c ''GET'' ?uri None [] R"
    using is_call_path [OF that assms(3) t(2) assms(4) nd] t(1) by simp
  with R q show ?thesis by (intro exI [of _ "map (\<lambda>r. (R, r)) rs"]) (auto simp: list_all_iff)
qed

theorem SearchContacts_query_arrives_witness:
  "list_all (\<lambda>(R, r). map_of (ParseQuery (RawQuery (rURL R))) ''query'' = Some ''a&limit=9'' \<and>
       map_of (ParseQuery (RawQuery (rURL R))) ''limit'' = None)
     (snd (SearchContacts web_env ''sdk'' demo_client ''a&limit=9'' 0 0 []))"
proof -
  obtain res w' where d: "SearchContacts web_env ''sdk'' demo_client ''a&limit=9'' 0 0 [] = (res, w')" by fastforce
  have b: "baseURL demo_client = Some (demo_url ''https'' ''api.monobank.ua'' [])" "Opaque (demo_url ''https'' ''api.monobank.ua'' []) = []"
    by (simp_all add: demo_client_def demo_url_def)
  from SearchContacts_query_arrives [OF web_client web_env_targets b d] d show ?thesis by (auto simp: list_all_iff)
qed

text \<open>
  Nothing guards the ids that go into a path, and percent-encoding leaves dots alone: the id \<open>..\<close> turns the
  deletion of a contact into a DELETE of another resource, since the client merges paths before
  it sends.
\<close>

lemma dot_segment_leaves_the_endpoint:
  "resolve_path [] (''/ext/v1/salary-contacts/'' @ PathEscape ''..'') = ''/ext/v1/''"
  "resolve_path [] (''/ext/v1/payment/'' @ PathEscape ''..'' @ ''/state'') = ''/ext/v1/state''"
  by (simp_all add: resolve_path_def Let_def escape_char_def shouldEscape_def last_slash_def)

end
