(* ===== verification/Acquiring_Client.thy ===== *)
theory Acquiring_Client
  imports Endpoints Acquiring_Reconcile
begin

text \<open>
  The client of the acquiring API (\<open>acquiring/\<close>): construction and authorization, all endpoint methods,
  the typed errors (\<open>errors.go\<close>) and the page iterators over subscriptions.

  Methods are modelled as in the business client: guards, target, body, accepted statuses. Responses
  that only wrap a list are unwrapped by a projection. \<open>RFC3339\<close> formatting of an instant in UTC is a
  parameter.
\<close>

section \<open>Construction\<close>

definition AcquiringBaseURL :: string where
  "AcquiringBaseURL = ''https://api.monobank.ua''"

definition AcqTokenAuth_SetAuth :: "string \<Rightarrow> http_request \<Rightarrow> 'w \<Rightarrow> (string + http_request) \<times> 'w" where
  "AcqTokenAuth_SetAuth token r w =
     (Inr (r\<lparr>rHeader := set_default ''Accept'' ''application/json'' ((rHeader r)(''X-Token'' := token))\<rparr>), w)"

definition acquiring_New :: "('w, 'v) env \<Rightarrow> (http_request \<Rightarrow> 'w \<Rightarrow> (string + http_response) \<times> 'w) \<Rightarrow> string \<Rightarrow>
    ('w client \<Rightarrow> 'w client) list \<Rightarrow> 'w client" where
  "acquiring_New env stdDo token opts =
     New env stdDo ([WithBaseURL env AcquiringBaseURL, WithAuth (Some (AcqTokenAuth_SetAuth token))] @ opts)"

section \<open>Errors\<close>

record acq_api_error =
  aStatusCode :: int
  aCode :: string
  aText :: string
  aBase :: "api_error option"

definition AsAPIError :: "(string \<Rightarrow> (string \<times> string) option) \<Rightarrow> client_error option \<Rightarrow> acq_api_error option" where
  \<comment> \<open>the first argument is \<open>json.Unmarshal\<close> into \<open>errCodeBody\<close>\<close>
  "AsAPIError errCodeBody err =
     (case err of
        None \<Rightarrow> None
      | Some e \<Rightarrow>
          (case as_api_error e of
             None \<Rightarrow> None
           | Some base \<Rightarrow>
               let out0 = \<lparr>aStatusCode = apiStatusCode base, aCode = [], aText = [], aBase = Some base\<rparr>;
                   out1 = (case errCodeBody (apiBody base) of
                             None \<Rightarrow> out0
                           | Some (code, txt) \<Rightarrow> out0\<lparr>aCode := code, aText := txt\<rparr>)
               in Some (if aText out1 = [] then out1\<lparr>aText := ErrorDescription base\<rparr> else out1)))"

definition Acq_Unwrap :: "acq_api_error \<Rightarrow> api_error option" where
  "Acq_Unwrap e = aBase e"

definition acq_Code :: "(string \<Rightarrow> (string \<times> string) option) \<Rightarrow> client_error option \<Rightarrow> string" where
  "acq_Code errCodeBody err = (case AsAPIError errCodeBody err of Some e \<Rightarrow> aCode e | None \<Rightarrow> [])"

definition acq_is :: "(string \<Rightarrow> (string \<times> string) option) \<Rightarrow> client_error option \<Rightarrow> string \<Rightarrow> int \<Rightarrow> bool" where
  "acq_is errCodeBody err code status =
     (case AsAPIError errCodeBody err of
        None \<Rightarrow> False
      | Some e \<Rightarrow> if aCode e \<noteq> [] then aCode e = code else aStatusCode e = status)"

definition IsBadRequest where
  "IsBadRequest eb err = acq_is eb err ''BAD_REQUEST'' 400"

definition IsForbidden where
  "IsForbidden eb err = acq_is eb err ''FORBIDDEN'' 403"

definition IsNotFound where
  "IsNotFound eb err = acq_is eb err ''NOT_FOUND'' 404"

definition IsTooManyRequests where
  "IsTooManyRequests eb err = acq_is eb err ''TMR'' 429"

definition IsInternalError where
  "IsInternalError eb err = acq_is eb err ''INTERNAL_ERROR'' 500"

lemma acq_is_functional:
  assumes "acq_is eb err c1 s1" and "acq_is eb err c2 s2"
  shows "c1 = c2 \<or> s1 = s2"
  using assms by (auto simp: acq_is_def split: option.splits if_splits)

lemma error_kinds_disjoint:
  "IsNotFound eb err \<Longrightarrow> \<not> IsForbidden eb err" "IsNotFound eb err \<Longrightarrow> \<not> IsTooManyRequests eb err"
  "IsNotFound eb err \<Longrightarrow> \<not> IsBadRequest eb err" "IsTooManyRequests eb err \<Longrightarrow> \<not> IsInternalError eb err"
  "IsTooManyRequests eb err \<Longrightarrow> \<not> IsBadRequest eb err"
  by (auto simp: IsNotFound_def IsForbidden_def IsTooManyRequests_def IsInternalError_def IsBadRequest_def
      dest: acq_is_functional)

text \<open>The comment on \<open>is\<close> promises a match on code or status; a body with another code hides the status.\<close>

lemma code_hides_status:
  assumes "as_api_error e = Some base" and "apiStatusCode base = 404" and "eb (apiBody base) = Some (''INVOICE_NOT_FOUND'', t)"
  shows "\<not> IsNotFound eb (Some e)"
  using assms by (auto simp: IsNotFound_def acq_is_def AsAPIError_def Let_def)

section \<open>Merchant\<close>

datatype acquiring_error = AcqNilRequest | AcqEmptyID | SubscriptionIDRequired | DateFromRequired

type_synonym ('v, 'w) acquiring_call = "'w \<Rightarrow> (acquiring_error, 'v, 'w) outcome"

record 'a list_response =
  List :: "'a list"

definition MerchantDetails :: "('w, 'v) env \<Rightarrow> string \<Rightarrow> 'w client \<Rightarrow> ('v, 'w) acquiring_call" where
  "MerchantDetails env ua c = get_json env ua c ''/api/merchant/details''"

definition Employees :: "('w, 'a list_response) env \<Rightarrow> string \<Rightarrow> 'w client \<Rightarrow> ('a list, 'w) acquiring_call" where
  "Employees env ua c w = map_json List (get_json env ua c ''/api/merchant/employee/list'' w)"

definition PubKey :: "('w, 'v) env \<Rightarrow> string \<Rightarrow> 'w client \<Rightarrow> ('v, 'w) acquiring_call" where
  "PubKey env ua c = get_json env ua c ''/api/merchant/pubkey''"

definition Submerchants :: "('w, 'a list_response) env \<Rightarrow> string \<Rightarrow> 'w client \<Rightarrow> ('a list, 'w) acquiring_call" where
  "Submerchants env ua c w = map_json List (get_json env ua c ''/api/merchant/submerchant/list'' w)"

definition acq_Statement :: "('w, statement_invoice list_response) env \<Rightarrow> string \<Rightarrow> 'w client \<Rightarrow> int \<Rightarrow> int \<Rightarrow> string \<Rightarrow>
    (statement_invoice list, 'w) acquiring_call" where
  "acq_Statement env ua c from to code w =
     (let q = opt_Set (code \<noteq> []) ''code'' code
                (opt_Set (to \<noteq> zero_time) ''to'' (Itoa (Unix to)) (Set ''from'' (Itoa (Unix from)) []))
      in map_json List (get_json env ua c (''/api/merchant/statement?'' @ Encode q) w))"

section \<open>Invoices\<close>

definition acq_post :: "('w, 'v) env \<Rightarrow> string \<Rightarrow> 'w client \<Rightarrow> string \<Rightarrow> ('r \<Rightarrow> string + string) \<Rightarrow> 'r option \<Rightarrow> target \<Rightarrow>
    ('v, 'w) acquiring_call" where
  \<comment> \<open>the shape of the methods that post a request of their own\<close>
  "acq_post env ua c uri marshal inp v w =
     (case inp of
        None \<Rightarrow> (Inl (Guard AcqNilRequest), w)
      | Some r \<Rightarrow> send_json env ua c ''POST'' uri (marshal r) [] v [200] w)"

definition acq_post_id :: "('w, 'v) env \<Rightarrow> string \<Rightarrow> 'w client \<Rightarrow> string \<Rightarrow> (string \<Rightarrow> string + string) \<Rightarrow> string \<Rightarrow>
    ('v, 'w) acquiring_call" where
  \<comment> \<open>the shape of the methods that post an object with one identifier\<close>
  "acq_post_id env ua c uri marshal i w =
     (if i = [] then (Inl (Guard AcqEmptyID), w)
      else send_json env ua c ''POST'' uri (marshal i) [] TNil [200] w)"

definition acq_get_id :: "('w, 'v) env \<Rightarrow> string \<Rightarrow> 'w client \<Rightarrow> string \<Rightarrow> string \<Rightarrow> string \<Rightarrow> ('v, 'w) acquiring_call" where
  \<comment> \<open>the shape of the methods that look something up by one identifier\<close>
  "acq_get_id env ua c uri k i w =
     (if i = [] then (Inl (Guard AcqEmptyID), w)
      else get_json env ua c (uri @ ''?'' @ Encode (Set k i [])) w)"

definition CreateInvoice where
  "CreateInvoice env ua c marshal inp = acq_post env ua c ''/api/merchant/invoice/create'' marshal inp TJSON"

definition InvoiceStatus where
  "InvoiceStatus env ua c invoiceID = acq_get_id env ua c ''/api/merchant/invoice/status'' ''invoiceId'' invoiceID"

definition CancelInvoice where
  "CancelInvoice env ua c marshal inp = acq_post env ua c ''/api/merchant/invoice/cancel'' marshal inp TJSON"

definition FinalizeInvoice where
  "FinalizeInvoice env ua c marshal inp = acq_post env ua c ''/api/merchant/invoice/finalize'' marshal inp TJSON"

definition RemoveInvoice where
  "RemoveInvoice env ua c marshal invoiceID = acq_post_id env ua c ''/api/merchant/invoice/remove'' marshal invoiceID"

definition FiscalChecks :: "('w, 'a list_response) env \<Rightarrow> string \<Rightarrow> 'w client \<Rightarrow> string \<Rightarrow> ('a list, 'w) acquiring_call" where
  "FiscalChecks env ua c invoiceID w =
     map_json List (if invoiceID = [] then (Inl (Guard AcqEmptyID), w)
       else get_json env ua c (with_query ''/api/merchant/invoice/fiscal-checks'' (Set ''invoiceId'' invoiceID [])) w)"

definition Receipt :: "('w, 'v) env \<Rightarrow> string \<Rightarrow> 'w client \<Rightarrow> string \<Rightarrow> string \<Rightarrow> ('v, 'w) acquiring_call" where
  "Receipt env ua c invoiceID email w =
     (if invoiceID = [] then (Inl (Guard AcqEmptyID), w)
      else let q = opt_Set (email \<noteq> []) ''email'' email (Set ''invoiceId'' invoiceID [])
           in get_json env ua c (''/api/merchant/invoice/receipt?'' @ Encode q) w)"

definition PaymentDirect where
  "PaymentDirect env ua c marshal inp = acq_post env ua c ''/api/merchant/invoice/payment-direct'' marshal inp TJSON"

definition SyncPayment where
  "SyncPayment env ua c marshal inp = acq_post env ua c ''/api/merchant/invoice/sync-payment'' marshal inp TJSON"

section \<open>Wallets, QR desks, terminals, keys\<close>

definition Wallet :: "('w, 'a list_response) env \<Rightarrow> string \<Rightarrow> 'w client \<Rightarrow> string \<Rightarrow> ('a list, 'w) acquiring_call" where
  "Wallet env ua c walletID w =
     map_json List (get_json env ua c (with_query ''/api/merchant/wallet'' (opt_Set (walletID \<noteq> []) ''walletId'' walletID [])) w)"

definition DeleteCard :: "('w, 'v) env \<Rightarrow> string \<Rightarrow> 'w client \<Rightarrow> string \<Rightarrow> ('v, 'w) acquiring_call" where
  "DeleteCard env ua c cardToken w =
     (if cardToken = [] then (Inl (Guard AcqEmptyID), w)
      else dispatch env ua c ''DELETE'' (''/api/merchant/wallet/card?'' @ Encode (Set ''cardToken'' cardToken [])) None [] TNil [200] w)"

definition WalletPayment where
  "WalletPayment env ua c marshal inp = acq_post env ua c ''/api/merchant/wallet/payment'' marshal inp TJSON"

definition QRList :: "('w, 'a list_response) env \<Rightarrow> string \<Rightarrow> 'w client \<Rightarrow> ('a list, 'w) acquiring_call" where
  "QRList env ua c w = map_json List (get_json env ua c ''/api/merchant/qr/list'' w)"

definition QRDetails where
  "QRDetails env ua c qrID = acq_get_id env ua c ''/api/merchant/qr/details'' ''qrId'' qrID"

definition QRResetAmount where
  "QRResetAmount env ua c marshal qrID = acq_post_id env ua c ''/api/merchant/qr/reset-amount'' marshal qrID"

definition Terminals :: "('w, 'a list_response) env \<Rightarrow> string \<Rightarrow> 'w client \<Rightarrow> ('a list, 'w) acquiring_call" where
  "Terminals env ua c w = map_json List (get_json env ua c ''/api/merchant/t2p/terminal/list'' w)"

definition T2PPaymentStatus where
  "T2PPaymentStatus env ua c externalPaymentID =
     acq_get_id env ua c ''/api/merchant/t2p/terminal/payment/external/status'' ''externalPaymentId'' externalPaymentID"

definition SplitReceivers :: "('w, 'a list_response) env \<Rightarrow> string \<Rightarrow> 'w client \<Rightarrow> ('a list, 'w) acquiring_call" where
  "SplitReceivers env ua c w = map_json List (get_json env ua c ''/api/merchant/split-receiver/list'' w)"

definition MonoPayKeyImport where
  \<comment> \<open>\<open>keyId\<close> projects \<open>out.Result.KeyID\<close>\<close>
  "MonoPayKeyImport env ua c keyId marshal inp w =
     map_json keyId (acq_post env ua c ''/api/merchant/monopay/pubkey-import'' marshal inp TJSON w)"

definition MonoPayKeyDelete where
  "MonoPayKeyDelete env ua c marshal keyID = acq_post_id env ua c ''/api/merchant/monopay/pubkey-delete'' marshal keyID"

definition MonoPayKeyList :: "('w, 'a list_response) env \<Rightarrow> string \<Rightarrow> 'w client \<Rightarrow> ('a list, 'w) acquiring_call" where
  "MonoPayKeyList env ua c w = map_json List (get_json env ua c ''/api/merchant/monopay/pubkey-list'' w)"

record pos_cancel_request =
  RRN :: string
  posAmount :: int

definition POSTransactionCancel :: "('w, 'v) env \<Rightarrow> string \<Rightarrow> 'w client \<Rightarrow> (pos_cancel_request \<Rightarrow> string + string) \<Rightarrow>
    pos_cancel_request option \<Rightarrow> ('v, 'w) acquiring_call" where
  "POSTransactionCancel env ua c marshal inp w =
     (case inp of
        None \<Rightarrow> (Inl (Guard AcqNilRequest), w)
      | Some r \<Rightarrow>
          if RRN r = [] then (Inl (Guard AcqEmptyID), w)
          else send_json env ua c ''POST'' ''/api/merchant/pos-transaction-cancel'' (marshal r) [] TNil [200] w)"

section \<open>Subscriptions\<close>

definition SubscriptionCreate where
  "SubscriptionCreate env ua c marshal inp = acq_post env ua c ''/api/merchant/subscription/create'' marshal inp TJSON"

definition SubscriptionEdit where
  "SubscriptionEdit env ua c marshal inp = acq_post env ua c ''/api/merchant/subscription/edit'' marshal inp TNil"

definition SubscriptionRemove where
  "SubscriptionRemove env ua c marshal subscriptionID = acq_post_id env ua c ''/api/merchant/subscription/remove'' marshal subscriptionID"

definition SubscriptionStatus where
  "SubscriptionStatus env ua c subscriptionID = acq_get_id env ua c ''/api/merchant/subscription/status'' ''subscriptionId'' subscriptionID"

record subscription_list_options =
  loStatus :: string
  loLimit :: int
  loPage :: int
  loDateFrom :: int
  loDateTo :: int

record subscription_payments_options =
  poSubscriptionID :: string
  poLimit :: int
  poPage :: int
  poDateFrom :: int
  poDateTo :: int

record pagination =
  TotalItems :: int
  ItemsPerPage :: int
  CurrentPage :: int
  TotalPages :: int

record 'a paged_response =
  Items :: "'a list"
  Pagination :: pagination

definition dates_query :: "(int \<Rightarrow> string) \<Rightarrow> int \<Rightarrow> int \<Rightarrow> url_values \<Rightarrow> url_values" where
  "dates_query rfc3339 from to q =
     opt_Set (to \<noteq> zero_time) ''dateTo'' (rfc3339 to) (Set ''dateFrom'' (rfc3339 from) q)"

definition limit_page_query :: "int \<Rightarrow> int \<Rightarrow> url_values \<Rightarrow> url_values" where
  "limit_page_query limit page q = opt_Set (0 < page) ''page'' (Itoa page) (opt_Set (0 < limit) ''limit'' (Itoa limit) q)"

definition SubscriptionList :: "(int \<Rightarrow> string) \<Rightarrow> ('w, 'v) env \<Rightarrow> string \<Rightarrow> 'w client \<Rightarrow> subscription_list_options \<Rightarrow>
    ('v, 'w) acquiring_call" where
  "SubscriptionList rfc3339 env ua c opts w =
     (if loDateFrom opts = zero_time then (Inl (Guard DateFromRequired), w)
      else
        let q = limit_page_query (loLimit opts) (loPage opts)
                  (opt_Set (loStatus opts \<noteq> []) ''status'' (loStatus opts) (dates_query rfc3339 (loDateFrom opts) (loDateTo opts) []))
        in get_json env ua c (''/api/merchant/subscription/list?'' @ Encode q) w)"

definition SubscriptionPayments :: "(int \<Rightarrow> string) \<Rightarrow> ('w, 'v) env \<Rightarrow> string \<Rightarrow> 'w client \<Rightarrow> subscription_payments_options \<Rightarrow>
    ('v, 'w) acquiring_call" where
  "SubscriptionPayments rfc3339 env ua c opts w =
     (if poSubscriptionID opts = [] then (Inl (Guard SubscriptionIDRequired), w)
      else if poDateFrom opts = zero_time then (Inl (Guard DateFromRequired), w)
      else
        let q = limit_page_query (poLimit opts) (poPage opts)
                  (dates_query rfc3339 (poDateFrom opts) (poDateTo opts) (Set ''subscriptionId'' (poSubscriptionID opts) []))
        in get_json env ua c (''/api/merchant/subscription/payments?'' @ Encode q) w)"

partial_function (option) pages_loop ::
  "('w \<Rightarrow> string option) \<Rightarrow> (int \<Rightarrow> 'w \<Rightarrow> (string + 'a paged_response) \<times> 'w) \<Rightarrow> (string + 'a \<Rightarrow> 'w \<Rightarrow> bool \<times> 'w) \<Rightarrow>
   int \<Rightarrow> 'w \<Rightarrow> 'w option" where
  "pages_loop ctxErr fetch yield page w =
     (if ctxErr w \<noteq> None then Some (snd (yield (Inl (the (ctxErr w))) w))
      else case fetch page w of
          (Inl e, w1) \<Rightarrow> Some (snd (yield (Inl e) w1))
        | (Inr resp, w1) \<Rightarrow>
            (case for_each (\<lambda>x. yield (Inr x)) (Items resp) w1 of (cont, w2) \<Rightarrow>
               if \<not> cont then Some w2
               else if Items resp = [] \<or> TotalPages (Pagination resp) \<le> page then Some w2
               else pages_loop ctxErr fetch yield (wrap64 (page + 1)) w2))"

definition SubscriptionListAll ::
  "('w \<Rightarrow> string option) \<Rightarrow> (subscription_list_options \<Rightarrow> 'w \<Rightarrow> (string + 'a paged_response) \<times> 'w) \<Rightarrow> subscription_list_options \<Rightarrow>
   (string + 'a \<Rightarrow> 'w \<Rightarrow> bool \<times> 'w) \<Rightarrow> 'w \<Rightarrow> 'w option" where
  "SubscriptionListAll ctxErr fetch opts yield =
     pages_loop ctxErr (\<lambda>page. fetch (opts\<lparr>loPage := page\<rparr>)) yield (if loPage opts < 1 then 1 else loPage opts)"

definition SubscriptionPaymentsAll ::
  "('w \<Rightarrow> string option) \<Rightarrow> (subscription_payments_options \<Rightarrow> 'w \<Rightarrow> (string + 'a paged_response) \<times> 'w) \<Rightarrow> subscription_payments_options \<Rightarrow>
   (string + 'a \<Rightarrow> 'w \<Rightarrow> bool \<times> 'w) \<Rightarrow> 'w \<Rightarrow> 'w option" where
  "SubscriptionPaymentsAll ctxErr fetch opts yield =
     pages_loop ctxErr (\<lambda>page. fetch (opts\<lparr>poPage := page\<rparr>)) yield (if poPage opts < 1 then 1 else poPage opts)"

section \<open>Iterating over pages\<close>

definition pages_of :: "nat \<Rightarrow> 'a list \<Rightarrow> int \<Rightarrow> 'w \<Rightarrow> (string + 'a paged_response) \<times> 'w" where
  \<comment> \<open>the documented service over a fixed list, \<open>n\<close> items a page, the first page being 1\<close>
  "pages_of n xs page w =
     (Inr \<lparr>Items = take n (drop (n * (nat page - 1)) xs),
           Pagination = \<lparr>TotalItems = int (length xs), ItemsPerPage = int n, CurrentPage = page,
                         TotalPages = int ((length xs + n - 1) div n)\<rparr>\<rparr>, w)"

lemma more_pages: "0 < n \<Longrightarrow> int ((l + n - 1) div n) \<le> int p \<longleftrightarrow> l \<le> n * p"
  for n l p :: nat
proof -
  assume n: "0 < n"
  have "(l + n - 1) div n \<le> p \<longleftrightarrow> l + n - 1 < n * Suc p"
    using n by (metis div_less_iff_less_mult less_Suc_eq_le mult.commute)
  also have "\<dots> \<longleftrightarrow> l \<le> n * p" using n by auto
  finally show ?thesis by simp
qed

lemma pages_loop_visits:
  fixes ctxErr :: "'w \<Rightarrow> string option"
  assumes ctx: "\<And>w. ctxErr w = None" and n: "0 < n" and "int (length xs) \<le> int64_max"
  shows "1 \<le> p \<Longrightarrow> pages_loop ctxErr (pages_of n xs) yield (int p) w
    = Some (snd (for_each (\<lambda>x. yield (Inr x)) (drop (n * (p - 1)) xs) w))"
proof (induction "length xs - n * (p - 1)" arbitrary: p w rule: less_induct)
  case less
  define P where "P = take n (drop (n * (p - 1)) xs)"
  obtain c w1 where c: "for_each (\<lambda>x. yield (Inr x)) P w = (c, w1)" by fastforce
  have np: "n * (p - 1) + n = n * p" using less.prems by (cases p) auto
  then have dr: "drop (n * (p - 1)) xs = P @ drop (n * p) xs"
    by (metis P_def append_take_drop_id drop_drop add.commute)
  have all: "for_each (\<lambda>x. yield (Inr x)) (drop (n * (p - 1)) xs) w
      = (if \<not> c then (False, w1) else for_each (\<lambda>x. yield (Inr x)) (drop (n * p) xs) w1)"
    unfolding dr by (simp add: for_each_append c)
  define T where "T = int ((length xs + n - 1) div n)"
  have fetch: "pages_of n xs (int p) w = (Inr \<lparr>Items = P, Pagination = \<lparr>TotalItems = int (length xs),
      ItemsPerPage = int n, CurrentPage = int p, TotalPages = T\<rparr>\<rparr>, w)" for w :: 'w
    by (simp add: pages_of_def P_def T_def)
  show ?case
  proof (cases "length xs \<le> n * p")
    case True
    then have "drop (n * p) xs = []" by simp
    moreover have "T \<le> int p" using True more_pages [OF n, of "length xs" p] by (simp add: T_def)
    ultimately show ?thesis by (subst pages_loop.simps) (simp add: ctx fetch c all [simplified])
  next
    case False
    have "p \<le> n * p" using n by simp
    with False have "int p + 1 \<le> int64_max" using assms(3) by linarith
    then have wr: "wrap64 (int p + 1) = int (Suc p)" by (simp add: wrap64_id int64_bounds)
    have ne: "P \<noteq> []" using False n np by (auto simp: P_def)
    have "pages_loop ctxErr (pages_of n xs) yield (int (Suc p)) w1
        = Some (snd (for_each (\<lambda>x. yield (Inr x)) (drop (n * (Suc p - 1)) xs) w1))"
      by (rule less.hyps) (use False n np in auto)
    moreover have "\<not> T \<le> int p" using False more_pages [OF n, of "length xs" p] by (simp add: T_def)
    ultimately show ?thesis using ne by (subst pages_loop.simps) (simp add: ctx fetch c all [simplified] wr del: of_nat_Suc)
  qed
qed

lemma SubscriptionListAll_visits_all:
  assumes "\<And>w. ctxErr w = None" and "0 < n" and "int (length xs) \<le> int64_max" and "loPage opts \<le> 1"
  shows "SubscriptionListAll ctxErr (\<lambda>o'. pages_of n xs (loPage o')) opts yield w
    = Some (snd (for_each (\<lambda>x. yield (Inr x)) xs w))"
proof -
  have "(if loPage opts < 1 then 1 else loPage opts) = int 1" using assms(4) by simp
  with pages_loop_visits [OF assms(1-3), where p = 1 and yield = yield and w = w] show ?thesis
    by (simp add: SubscriptionListAll_def)
qed

section \<open>Properties\<close>

text \<open>
  A POS refund goes out at most once. Whatever the transport answers and however the retry policy is set,
  one \<open>POSTransactionCancel\<close> of a client without \<open>WithUnsafeRetries\<close> causes at most one exchange, a POST of
  the marshalled refund; without an RRN it causes none.
\<close>

theorem POSTransactionCancel_at_most_once:
  assumes "plain_client env c sent" and "go_targets env" and "\<not> unsafeRetries c"
    and "POSTransactionCancel env ua c marshal inp w = (res, w')"
  shows "\<exists>log. sent w' = sent w @ log \<and> length log \<le> 1 \<and>
    list_all (\<lambda>(R, r). rMethod R = ''POST'' \<and>
      (\<exists>rq b. inp = Some rq \<and> RRN rq \<noteq> [] \<and> marshal rq = Inr b \<and> rBody R = sent_body (Some b))) log"
proof (cases "\<exists>rq. inp = Some rq \<and> RRN rq \<noteq> []")
  case False
  with assms(4) have "w' = w" by (auto simp: POSTransactionCancel_def split: option.splits)
  then show ?thesis by simp
next
  case True
  then obtain rq where rq: "inp = Some rq" "RRN rq \<noteq> []" by blast
  have t: "target_ok ''/api/merchant/pos-transaction-cancel''" by (rule literal_target) (simp add: literal_path)
  have s: "send_json env ua c ''POST'' ''/api/merchant/pos-transaction-cancel'' (marshal rq) [] TNil [200] w = (res, w')"
    using assms(4) rq by (simp add: POSTransactionCancel_def)
  obtain R rs where R: "sent w' = sent w @ map (\<lambda>r. (R, r)) rs" "length rs \<le> 1"
    "rs \<noteq> [] \<longrightarrow> (\<exists>b. marshal rq = Inr b \<and> is_call c ''POST'' ''/api/merchant/pos-transaction-cancel'' (Some b) [] R)"
    using send_json_sends [OF assms(1,2) t s] assms(3) by (auto simp: repeatable_def)
  then show ?thesis using rq
    by (intro exI [of _ "map (\<lambda>r. (R, r)) rs"]) (auto simp: list_all_iff is_call_def)
qed

theorem POSTransactionCancel_at_most_once_witness:
  "length (snd (POSTransactionCancel web_env ''sdk'' demo_client (\<lambda>r. Inr (RRN r)) (Some \<lparr>RRN = ''1'', posAmount = 5\<rparr>) [])) \<le> 1"
proof -
  obtain res w' where d: "POSTransactionCancel web_env ''sdk'' demo_client (\<lambda>r. Inr (RRN r)) (Some \<lparr>RRN = ''1'', posAmount = 5\<rparr>) [] = (res, w')"
    by fastforce
  have "\<not> unsafeRetries demo_client" by (simp add: demo_client_def)
  from POSTransactionCancel_at_most_once [OF web_client web_env_targets this d] d show ?thesis by auto
qed

end
