(* ===== verification/Corp_Auth.thy ===== *)
theory Corp_Auth
  imports Endpoints Go_Base64
begin

text \<open>
  The authorizers of the Open API (\<open>auth/\<close>): none, a personal token, and the ECDSA signature of the
  corporate API with the key handling around it.

  Bytes are characters, a big integer is a \<open>nat\<close>. The hash functions, the signature primitive, ASN.1 and PEM
  coding are parameters; the clock and the random source act on the world. Slicing out of range is a
  panic, modelled as \<open>None\<close>.
\<close>

section \<open>Big integers as bytes\<close>

function Bytes :: "nat \<Rightarrow> string" where
  \<comment> \<open>\<open>big.Int.Bytes\<close>: big-endian, without leading zeros\<close>
  "Bytes n = (if n = 0 then [] else Bytes (n div 256) @ [byte (n mod 256)])"
  by pat_completeness auto
termination by (relation "measure id") auto

declare Bytes.simps [simp del]

definition SetBytes :: "string \<Rightarrow> nat" where
  "SetBytes s = foldl (\<lambda>n c. n * 256 + byte_val c) 0 s"

lemma SetBytes_simps [simp]: "SetBytes [] = 0" "SetBytes (s @ [c]) = SetBytes s * 256 + byte_val c"
  by (simp_all add: SetBytes_def)

lemma SetBytes_Bytes [simp]: "SetBytes (Bytes n) = n"
proof (induction n rule: Bytes.induct)
  case (1 n)
  then show ?case by (subst Bytes.simps) (auto simp: byte_val_byte)
qed

lemma length_Bytes: "n < 256 ^ k \<Longrightarrow> length (Bytes n) \<le> k"
proof (induction k arbitrary: n)
  case 0
  then show ?case by (simp add: Bytes.simps)
next
  case (Suc k)
  then have "n div 256 < 256 ^ k" by (simp add: less_mult_imp_div_less mult.commute)
  from Suc.IH [OF this] show ?case by (subst Bytes.simps) simp
qed

lemma SetBytes_zeros: "SetBytes (replicate k (CHR 0x00) @ s) = SetBytes s"
proof (induction s rule: rev_induct)
  case Nil
  show ?case by (induction k) (simp_all add: SetBytes_def byte_val_def)
next
  case (snoc c s)
  then show ?case by (metis SetBytes_simps(2) append_assoc)
qed

lemma SetBytes_lead_zero: "SetBytes (CHR 0x00 # s) = SetBytes s"
  using SetBytes_zeros [of 1 s] by simp

section \<open>Points and keys\<close>

record point =
  px :: nat
  py :: nat

definition copy_at :: "nat \<Rightarrow> string \<Rightarrow> string \<Rightarrow> string" where
  \<comment> \<open>\<open>copy(out[i:i+len(src)], src)\<close>\<close>
  "copy_at i src dst = take i dst @ src @ drop (i + length src) dst"

definition serializeECDSAPubKeyUncompressed :: "point \<Rightarrow> string option" where
  "serializeECDSAPubKeyUncompressed pub =
     (let coordSize = 32;
          out0 = (replicate (1 + 2 * coordSize) (CHR 0x00))[0 := byte 4];
          xb = Bytes (px pub);
          yb = Bytes (py pub)
      in if 1 + coordSize < length xb \<or> 1 + 2 * coordSize < length yb then None
         else Some (copy_at (1 + 2 * coordSize - length yb) yb (copy_at (1 + coordSize - length xb) xb out0)))"

datatype key_error = ErrDecodePrivateKey | ErrNoPrivateKey | ErrParseEC string | UnknownVersion int
  | ErrInvalidPrivateKey | ErrInvalidEC

record ec_private_key =
  ecVersion :: int
  ecPrivateKey :: string

record pem_block =
  blockType :: string
  blockBytes :: string

record 'k key_lib =
  pem_Decode :: "string \<Rightarrow> (pem_block \<times> string) option"
  asn1_Unmarshal :: "string \<Rightarrow> string + ec_private_key"
  curveN :: nat
  PrivKeyFromBytes :: "string \<Rightarrow> 'k"
  PublicKey :: "'k \<Rightarrow> point"
  sha1 :: "string \<Rightarrow> string"

fun strip_zeros :: "nat \<Rightarrow> string \<Rightarrow> string" where
  "strip_zeros expected [] = []"
| "strip_zeros expected (c # raw) =
     (if expected < length (c # raw) \<and> c = CHR 0x00 then strip_zeros expected raw else c # raw)"

definition parseECPrivateKey :: "'k key_lib \<Rightarrow> string \<Rightarrow> key_error + 'k" where
  "parseECPrivateKey lib b =
     (case asn1_Unmarshal lib b of
        Inl e \<Rightarrow> Inl (ErrParseEC e)
      | Inr privKey \<Rightarrow>
          if ecVersion privKey \<noteq> 1 then Inl (UnknownVersion (ecVersion privKey))
          else
            let expected = (bit_len (curveN lib) + 7) div 8;
                raw = strip_zeros expected (ecPrivateKey privKey)
            in if expected < length raw then Inl ErrInvalidPrivateKey
               else if curveN lib \<le> SetBytes raw then Inl ErrInvalidEC
               else Inr (PrivKeyFromBytes lib (copy_at (expected - length raw) raw (replicate expected (CHR 0x00)))))"

partial_function (option) decodePrivateKey :: "'k key_lib \<Rightarrow> string \<Rightarrow> (key_error + 'k) option" where
  "decodePrivateKey lib b =
     (case pem_Decode lib b of
        None \<Rightarrow> Some (Inl ErrNoPrivateKey)
      | Some (block, rest) \<Rightarrow>
          if blockType block \<noteq> ''EC PRIVATE KEY'' then decodePrivateKey lib rest
          else Some (parseECPrivateKey lib (blockBytes block)))"

fun hex_encode :: "string \<Rightarrow> string" where
  \<comment> \<open>\<open>hex.EncodeToString\<close>, lower case\<close>
  "hex_encode [] = []"
| "hex_encode (c # cs) = ''0123456789abcdef'' ! (byte_val c div 16) # ''0123456789abcdef'' ! (byte_val c mod 16) # hex_encode cs"

record 'k corp_auth_maker =
  privateKey :: 'k
  makerKeyID :: string

definition NewCorpAuthMaker :: "'k key_lib \<Rightarrow> string \<Rightarrow> (key_error + 'k corp_auth_maker) option" where
  \<comment> \<open>\<open>None\<close>: no result (the PEM decoder does not get to an end, or a slice is out of range)\<close>
  "NewCorpAuthMaker lib secKey =
     (case decodePrivateKey lib secKey of
        None \<Rightarrow> None
      | Some (Inl e) \<Rightarrow> Some (Inl ErrDecodePrivateKey)
      | Some (Inr k) \<Rightarrow>
          (case serializeECDSAPubKeyUncompressed (PublicKey lib k) of
             None \<Rightarrow> None
           | Some pkBytes \<Rightarrow> Some (Inr \<lparr>privateKey = k, makerKeyID = hex_encode (sha1 lib pkBytes)\<rparr>)))"

definition PublicKeyPEM :: "'k key_lib \<Rightarrow> (string \<Rightarrow> string + string) \<Rightarrow> (string \<Rightarrow> string) \<Rightarrow> 'k corp_auth_maker \<Rightarrow>
    (string + string) option" where
  \<comment> \<open>\<open>spki\<close> marshals the SubjectPublicKeyInfo of the point, \<open>pem\<close> is \<open>pem.EncodeToMemory\<close>\<close>
  "PublicKeyPEM lib spki pem c =
     (let pub = PublicKey lib (privateKey c)
      in if 8 * 32 < bit_len (px pub) \<or> 8 * 32 < bit_len (py pub)
         then Some (Inl ''auth: public-key coordinates exceed 32 bytes'')
         else case serializeECDSAPubKeyUncompressed pub of
             None \<Rightarrow> None
           | Some pt \<Rightarrow> Some (case spki pt of Inl e \<Rightarrow> Inl (''auth: '' @ e) | Inr der \<Rightarrow> Inr (pem der)))"

section \<open>What the key handling guarantees\<close>

lemma copy_at_zeros:
  assumes "length src \<le> n" and "length pre = i"
  shows "copy_at (i + n - length src) src (pre @ replicate n (CHR 0x00) @ post)
    = pre @ replicate (n - length src) (CHR 0x00) @ src @ post"
proof -
  have "i + n - length src = length pre + (n - length src)" using assms by simp
  moreover have "i + n - length src + length src = length pre + n" using assms by simp
  ultimately show ?thesis
    using assms(1) by (simp add: copy_at_def take_replicate min_def)
qed

lemma serialize_point:
  assumes "px pub < 256 ^ 32" and "py pub < 256 ^ 32"
  obtains xs ys where "serializeECDSAPubKeyUncompressed pub = Some (byte 4 # xs @ ys)"
    and "length xs = 32" and "length ys = 32" and "SetBytes xs = px pub" and "SetBytes ys = py pub"
proof -
  let ?pad = "\<lambda>s. replicate (32 - length s) (CHR 0x00) @ s"
  let ?xb = "Bytes (px pub)" and ?yb = "Bytes (py pub)"
  have l: "length ?xb \<le> 32" "length ?yb \<le> 32" using assms length_Bytes by blast+
  have o: "(replicate (1 + 2 * 32) (CHR 0x00))[0 := byte 4]
      = [byte 4] @ replicate 32 (CHR 0x00) @ replicate 32 (CHR 0x00)" by (simp add: numeral_eq_Suc)
  have x: "copy_at (1 + 32 - length ?xb) ?xb ((replicate (1 + 2 * 32) (CHR 0x00))[0 := byte 4])
      = ([byte 4] @ ?pad ?xb) @ replicate 32 (CHR 0x00) @ []"
    unfolding o using copy_at_zeros [OF l(1), of "[byte 4]" 1 "replicate 32 (CHR 0x00)"] by simp
  have y: "copy_at (1 + 2 * 32 - length ?yb) ?yb (([byte 4] @ ?pad ?xb) @ replicate 32 (CHR 0x00) @ [])
      = ([byte 4] @ ?pad ?xb) @ ?pad ?yb"
    using copy_at_zeros [OF l(2), of "[byte 4] @ ?pad ?xb" 33 "[]"] l(1) by simp
  have "serializeECDSAPubKeyUncompressed pub = Some (byte 4 # ?pad ?xb @ ?pad ?yb)"
    using l unfolding serializeECDSAPubKeyUncompressed_def Let_def x y by simp
  moreover have "length (?pad ?xb) = 32" "length (?pad ?yb) = 32" using l by simp_all
  moreover have "SetBytes (?pad ?xb) = px pub" "SetBytes (?pad ?yb) = py pub" by (simp_all add: SetBytes_zeros)
  ultimately show thesis by (rule that)
qed

lemma strip_zeros_val [simp]: "SetBytes (strip_zeros n raw) = SetBytes raw"
  by (induction n raw rule: strip_zeros.induct) (auto simp: SetBytes_lead_zero)

text \<open>An accepted key is the big-endian value of the file, below the group order and padded to its length.\<close>

lemma parseECPrivateKey_accepts:
  assumes "parseECPrivateKey lib b = Inr k"
  shows "\<exists>key padded. asn1_Unmarshal lib b = Inr key \<and> ecVersion key = 1 \<and> k = PrivKeyFromBytes lib padded \<and>
    SetBytes padded = SetBytes (ecPrivateKey key) \<and> SetBytes padded < curveN lib \<and>
    length padded = (bit_len (curveN lib) + 7) div 8"
proof -
  let ?n = "(bit_len (curveN lib) + 7) div 8"
  obtain key where key: "asn1_Unmarshal lib b = Inr key" "ecVersion key = 1"
    using assms by (auto simp: parseECPrivateKey_def split: sum.splits if_splits)
  let ?raw = "strip_zeros ?n (ecPrivateKey key)"
  have l: "length ?raw \<le> ?n" and v: "SetBytes ?raw < curveN lib"
    and k: "k = PrivKeyFromBytes lib (copy_at (?n - length ?raw) ?raw (replicate ?n (CHR 0x00)))"
    using assms key by (auto simp: parseECPrivateKey_def Let_def split: if_splits)
  have "copy_at (?n - length ?raw) ?raw (replicate ?n (CHR 0x00)) = replicate (?n - length ?raw) (CHR 0x00) @ ?raw"
    using copy_at_zeros [OF l, of "[]" 0 "[]"] by simp
  with key k l v show ?thesis
    by (intro exI [of _ key] exI [of _ "replicate (?n - length ?raw) (CHR 0x00) @ ?raw"]) (simp add: SetBytes_zeros)
qed

text \<open>Zero is below the group order, so a file with the zero key is accepted, although no such key exists.\<close>

lemma parseECPrivateKey_zero:
  assumes "asn1_Unmarshal lib b = Inr \<lparr>ecVersion = 1, ecPrivateKey = []\<rparr>" and "0 < curveN lib"
  shows "\<exists>k. parseECPrivateKey lib b = Inr k"
  using assms by (simp add: parseECPrivateKey_def Let_def)

definition pem_blocks_shrink :: "'k key_lib \<Rightarrow> bool" where
  \<comment> \<open>documented of \<open>pem.Decode\<close>: the rest comes after the block\<close>
  "pem_blocks_shrink lib \<longleftrightarrow> (\<forall>b block rest. pem_Decode lib b = Some (block, rest) \<longrightarrow> length rest < length b)"

lemma decodePrivateKey_returns:
  assumes "pem_blocks_shrink lib"
  shows "\<exists>r. decodePrivateKey lib b = Some r"
proof (induction b rule: measure_induct_rule [of length])
  case (less b)
  then show ?case using assms
    by (subst decodePrivateKey.simps) (auto simp: pem_blocks_shrink_def split: option.split)
qed

lemma decodePrivateKey_skips:
  assumes "pem_Decode lib b = Some (block, rest)" and "blockType block \<noteq> ''EC PRIVATE KEY''"
  shows "decodePrivateKey lib b = decodePrivateKey lib rest"
  using assms by (subst decodePrivateKey.simps) simp

text \<open>With coordinates of at most 32 bytes, building the authorizer never panics.\<close>

lemma NewCorpAuthMaker_returns:
  assumes "pem_blocks_shrink lib" and "\<And>k. px (PublicKey lib k) < 256 ^ 32 \<and> py (PublicKey lib k) < 256 ^ 32"
  shows "\<exists>r. NewCorpAuthMaker lib secKey = Some r"
proof -
  obtain r where r: "decodePrivateKey lib secKey = Some r" using decodePrivateKey_returns [OF assms(1)] by blast
  show ?thesis
  proof (cases r)
    case (Inr k)
    obtain out where "serializeECDSAPubKeyUncompressed (PublicKey lib k) = Some out"
      using assms(2) [of k] by (elim conjE serialize_point) blast+
    with r Inr show ?thesis by (simp add: NewCorpAuthMaker_def)
  qed (simp add: NewCorpAuthMaker_def r)
qed

section \<open>Authorizers\<close>

type_synonym 'w setter = "http_request \<Rightarrow> 'w \<Rightarrow> (string + http_request) \<times> 'w"

definition Public_SetAuth :: "'w setter" where
  "Public_SetAuth r w = (Inr r, w)"

definition Personal_SetAuth :: "string \<Rightarrow> 'w setter" where
  "Personal_SetAuth token r w =
     (if token = [] then (Inl ''auth: Personal token is empty'', w)
      else (Inr (r\<lparr>rHeader := (rHeader r)(''X-Token'' := token)\<rparr>), w))"

record ('k, 'w) sign_lib =
  time_Now :: "'w \<Rightarrow> int \<times> 'w"
  sha256 :: "string \<Rightarrow> string"
  SignASN1 :: "'k \<Rightarrow> string \<Rightarrow> 'w \<Rightarrow> (string + string) \<times> 'w"

record 'k corp =
  maker :: "'k corp_auth_maker"
  requestID :: string
  permissions :: string

definition maker_New :: "'k corp_auth_maker \<Rightarrow> string \<Rightarrow> 'k corp" where
  "maker_New c rid = \<lparr>maker = c, requestID = rid, permissions = []\<rparr>"

definition maker_NewPermissions :: "'k corp_auth_maker \<Rightarrow> string list \<Rightarrow> 'k corp" where
  "maker_NewPermissions c perms = \<lparr>maker = c, requestID = [], permissions = concat perms\<rparr>"

definition signString :: "('k, 'w) sign_lib \<Rightarrow> 'k corp \<Rightarrow> string \<Rightarrow> 'w \<Rightarrow> (string + string) \<times> 'w" where
  "signString lib a str w =
     (case SignASN1 lib (privateKey (maker a)) (sha256 lib str) w of
        (Inl e, w1) \<Rightarrow> (Inl e, w1)
      | (Inr der, w1) \<Rightarrow> (Inr (b64_encode der), w1))"

definition sign :: "('k, 'w) sign_lib \<Rightarrow> 'k corp \<Rightarrow> string \<Rightarrow> string \<Rightarrow> string \<Rightarrow> 'w \<Rightarrow> (string + string) \<times> 'w" where
  "sign lib a timestamp actor urlPath = signString lib a (timestamp @ actor @ urlPath)"

definition Corp_SetAuth :: "('k, 'w) sign_lib \<Rightarrow> 'k corp \<Rightarrow> 'w setter" where
  "Corp_SetAuth lib a r w =
     (let (actor, h) = (if requestID a \<noteq> [] then (requestID a, (rHeader r)(''X-Request-Id'' := requestID a))
                        else if permissions a \<noteq> [] then (permissions a, (rHeader r)(''X-Permissions'' := permissions a))
                        else ([], rHeader r));
          (now, w1) = time_Now lib w;
          timestamp = Itoa (Unix now)
      in case sign lib a timestamp actor (URL_Path (rURL r)) w1 of
           (Inl e, w2) \<Rightarrow> (Inl (''calculate Sign: '' @ e), w2)
         | (Inr sg, w2) \<Rightarrow>
             (Inr (r\<lparr>rHeader := h(''X-Key-Id'' := makerKeyID (maker a), ''X-Time'' := timestamp, ''X-Sign'' := sg)\<rparr>), w2))"

interpretation public: authorizer Public_SetAuth "{}"
  by unfold_locales (auto simp: Public_SetAuth_def intro!: exI [of _ "rHeader r" for r])

interpretation personal: authorizer "Personal_SetAuth token" "{''X-Token''}" for token
  by unfold_locales (auto simp: Personal_SetAuth_def split: if_splits)

definition corp_headers :: "string set" where
  "corp_headers = {''X-Request-Id'', ''X-Permissions'', ''X-Key-Id'', ''X-Time'', ''X-Sign''}"

interpretation corp: authorizer "Corp_SetAuth lib a" corp_headers for lib a
  by unfold_locales
    (auto simp: Corp_SetAuth_def Let_def corp_headers_def split: prod.splits sum.splits if_splits)

section \<open>Signatures\<close>

definition signed_request :: "(string \<Rightarrow> string) \<Rightarrow> (string \<Rightarrow> string \<Rightarrow> bool) \<Rightarrow> http_request \<Rightarrow> bool" where
  \<comment> \<open>what the bank can check of a request it receives: the signature covers time, actor and path\<close>
  "signed_request sha verify R \<longleftrightarrow>
     (case b64_decode (rHeader R ''X-Sign'') of
        None \<Rightarrow> False
      | Some der \<Rightarrow> verify (sha (rHeader R ''X-Time'' @ rHeader R ''X-Request-Id'' @ rHeader R ''X-Permissions''
          @ URL_Path (rURL R))) der)"

definition signs_for :: "('k, 'w) sign_lib \<Rightarrow> 'k \<Rightarrow> (string \<Rightarrow> string \<Rightarrow> bool) \<Rightarrow> bool" where
  \<comment> \<open>documented of \<open>ecdsa.SignASN1\<close>: what it returns verifies under the public key\<close>
  "signs_for lib k verify \<longleftrightarrow> (\<forall>h w der w'. SignASN1 lib k h w = (Inr der, w') \<longrightarrow> verify h der)"

lemma signed_request_cong:
  "\<forall>k\<in>corp_headers. rHeader R k = rHeader r k \<Longrightarrow> URL_Path (rURL R) = URL_Path (rURL r) \<Longrightarrow>
    signed_request sha verify R = signed_request sha verify r"
  by (auto simp: signed_request_def corp_headers_def split: option.split)

lemma Corp_SetAuth_headers:
  assumes "Corp_SetAuth lib a r w = (Inr r', w')"
    and "rHeader r ''X-Request-Id'' = []" and "rHeader r ''X-Permissions'' = []"
    and "requestID a = [] \<or> permissions a = []"
  obtains der w2 where
    "SignASN1 lib (privateKey (maker a))
       (sha256 lib (rHeader r' ''X-Time'' @ requestID a @ permissions a @ URL_Path (rURL r))) (snd (time_Now lib w)) = (Inr der, w2)"
    "rHeader r' ''X-Sign'' = b64_encode der" "rHeader r' ''X-Key-Id'' = makerKeyID (maker a)"
    "rHeader r' ''X-Time'' = Itoa (Unix (fst (time_Now lib w)))"
    "rHeader r' ''X-Request-Id'' = requestID a" "rHeader r' ''X-Permissions'' = permissions a"
  using assms
  by (auto simp: Corp_SetAuth_def sign_def signString_def Let_def split: prod.splits sum.splits if_splits)

lemma Corp_SetAuth_signs:
  assumes "signs_for lib (privateKey (maker a)) verify" and "Corp_SetAuth lib a r w = (Inr r', w')"
    and "rHeader r ''X-Request-Id'' = []" and "rHeader r ''X-Permissions'' = []"
    and "requestID a = [] \<or> permissions a = []"
  shows "signed_request (sha256 lib) verify r'"
proof -
  have u: "rURL r' = rURL r" by (rule corp.keeps_fields(2) [OF assms(2)])
  from assms(2-5) show ?thesis
  proof (rule Corp_SetAuth_headers)
    fix der w2
    assume "SignASN1 lib (privateKey (maker a))
       (sha256 lib (rHeader r' ''X-Time'' @ requestID a @ permissions a @ URL_Path (rURL r))) (snd (time_Now lib w)) = (Inr der, w2)"
      and h: "rHeader r' ''X-Sign'' = b64_encode der" "rHeader r' ''X-Request-Id'' = requestID a"
        "rHeader r' ''X-Permissions'' = permissions a"
    with assms(1) have "verify (sha256 lib (rHeader r' ''X-Time'' @ requestID a @ permissions a @ URL_Path (rURL r))) der"
      unfolding signs_for_def by blast
    then show ?thesis by (simp add: signed_request_def h u b64_decode_encode)
  qed
qed

end
