(* ===== verification/Open_API.thy ===== *)
theory Open_API
  imports Corp_Auth Statement_Paging Webhook_Handler
begin

text \<open>
  The clients of the Open API: the public endpoints (\<open>bank/client.go\<close>, \<open>bank/serverkey.go\<close>), the personal
  client (\<open>personal/\<close>) and the corporate client (\<open>corporate/\<close>), over the modelled \<open>Do\<close>.

  The corporate client signs each request with an authorizer of its own before handing it to the base
  client. JSON coding, the curve check of a point and the text of an error are parameters.
\<close>

section \<open>Public endpoints\<close>

record bank_sync_response =
  ServerKeyID :: string
  ServerPubKey :: string
  ServerTimeMsec :: int

datatype bank_error = DecodeServerPubKey | ErrInvalidPubKey

definition asServerKey :: "(string \<Rightarrow> point option) \<Rightarrow> bank_sync_response \<Rightarrow> bank_error + point server_key \<times> int" where
  \<comment> \<open>\<open>ParsePubKey\<close> is the curve library's; the second part of the result is \<open>ServerTime\<close>\<close>
  "asServerKey ParsePubKey r =
     (case b64_decode (ServerPubKey r) of
        None \<Rightarrow> Inl DecodeServerPubKey
      | Some pubBytes \<Rightarrow>
          if length pubBytes \<noteq> 65 \<or> pubBytes ! 0 \<noteq> byte 4 then Inl ErrInvalidPubKey
          else case ParsePubKey pubBytes of
              None \<Rightarrow> Inl ErrInvalidPubKey
            | Some pk \<Rightarrow> Inr (\<lparr>KeyID = ServerKeyID r, PubKey = Some pk\<rparr>, ServerTimeMsec r * 1000000))"

definition bank_New :: "('w, 'v) env \<Rightarrow> (http_request \<Rightarrow> 'w \<Rightarrow> (string + http_response) \<times> 'w) \<Rightarrow>
    ('w client \<Rightarrow> 'w client) list \<Rightarrow> 'w client" where
  "bank_New env stdDo opts = New env stdDo opts"

type_synonym ('v, 'w) bank_call = "'w \<Rightarrow> (bank_error, 'v, 'w) outcome"

definition bank_Rates :: "('w, 'v) env \<Rightarrow> string \<Rightarrow> 'w client \<Rightarrow> ('v, 'w) bank_call" where
  "bank_Rates env ua c = get_json env ua c ''/bank/currency''"

definition bank_ServerKey :: "(string \<Rightarrow> point option) \<Rightarrow> ('w, bank_sync_response) env \<Rightarrow> string \<Rightarrow> 'w client \<Rightarrow>
    (point server_key \<times> int, 'w) bank_call" where
  "bank_ServerKey ParsePubKey env ua c w =
     (case get_json env ua c ''/bank/sync'' w of
        (Inl e, w1) \<Rightarrow> (Inl e, w1)
      | (Inr (JsonOut raw), w1) \<Rightarrow> (map_sum Guard JsonOut (asServerKey ParsePubKey raw), w1)
      | (Inr _, w1) \<Rightarrow> (map_sum Guard JsonOut (asServerKey ParsePubKey
           \<lparr>ServerKeyID = [], ServerPubKey = [], ServerTimeMsec = 0\<rparr>), w1))"

section \<open>Personal client\<close>

type_synonym ('v, 'w) personal_call = "'w \<Rightarrow> (unit, 'v, 'w) outcome"

definition personal_New :: "('w, 'v) env \<Rightarrow> (http_request \<Rightarrow> 'w \<Rightarrow> (string + http_response) \<times> 'w) \<Rightarrow> string \<Rightarrow>
    ('w client \<Rightarrow> 'w client) list \<Rightarrow> 'w client" where
  "personal_New env stdDo token opts = New env stdDo (WithAuth (Some (Personal_SetAuth token)) # opts)"

definition statement_path :: "string \<Rightarrow> int \<Rightarrow> int \<Rightarrow> string" where
  "statement_path accountID from to =
     ''/personal/statement/'' @ PathEscape accountID @ ''/'' @ Itoa (Unix from) @ ''/'' @ Itoa (Unix to)"

definition personal_ClientInfo :: "('w, 'v) env \<Rightarrow> string \<Rightarrow> 'w client \<Rightarrow> ('v, 'w) personal_call" where
  "personal_ClientInfo env ua c = get_json env ua c ''/personal/client-info''"

definition personal_Transactions :: "('w, 'v) env \<Rightarrow> string \<Rightarrow> 'w client \<Rightarrow> string \<Rightarrow> int \<Rightarrow> int \<Rightarrow> ('v, 'w) personal_call" where
  "personal_Transactions env ua c accountID from to = get_json env ua c (statement_path accountID from to)"

definition rows_of :: "('e fault \<Rightarrow> string) \<Rightarrow> ('e, transaction list, 'w) outcome \<Rightarrow> (string + transaction list) \<times> 'w" where
  \<comment> \<open>the result as the paging loops see it; \<open>errText\<close> is \<open>err.Error()\<close>\<close>
  "rows_of errText r = (case r of
      (Inl e, w) \<Rightarrow> (Inl (errText e), w)
    | (Inr (JsonOut rows), w) \<Rightarrow> (Inr rows, w)
    | (Inr _, w) \<Rightarrow> (Inr [], w))"

definition personal_TransactionsRange where
  "personal_TransactionsRange env ua c errText accountID from to w =
     TransactionsRange (\<lambda>f t w. rows_of errText (personal_Transactions env ua c accountID f t w)) from to w"

definition personal_TransactionsRangeIter where
  "personal_TransactionsRangeIter env ua c errText ctxErr accountID from to yield w =
     TransactionsRangeIter ctxErr (\<lambda>f t w. rows_of errText (personal_Transactions env ua c accountID f t w)) yield from to w"

definition personal_SetWebHook :: "('w, 'v) env \<Rightarrow> string \<Rightarrow> 'w client \<Rightarrow> (string \<Rightarrow> string + string) \<Rightarrow> string \<Rightarrow>
    ('v, 'w) personal_call" where
  "personal_SetWebHook env ua c marshal uri = send_json env ua c ''POST'' ''/personal/webhook'' (marshal uri) [] TNil [200]"

section \<open>Corporate client\<close>

record 'w auth_maker =
  am_New :: "string \<Rightarrow> 'w setter"
  am_NewPermissions :: "string list \<Rightarrow> 'w setter"

definition corp_maker :: "('k, 'w) sign_lib \<Rightarrow> 'k corp_auth_maker \<Rightarrow> 'w auth_maker" where
  \<comment> \<open>\<open>*CorpAuthMaker\<close> as a \<open>CorpAuthMakerAPI\<close>\<close>
  "corp_maker lib m = \<lparr>am_New = (\<lambda>rid. Corp_SetAuth lib (maker_New m rid)),
     am_NewPermissions = (\<lambda>ps. Corp_SetAuth lib (maker_NewPermissions m ps))\<rparr>"

record 'w corporate_client =
  cc :: "'w client"
  authMaker :: "'w auth_maker"
  allowInsecureCallback :: bool

datatype corporate_error = ErrEmptyAuthMaker | CorpNilRequest | ErrInvalidCallback | ErrInsecureCallback
  | ErrLogoTooLarge | SignRequest string

type_synonym ('v, 'w) corporate_call = "'w \<Rightarrow> (corporate_error, 'v, 'w) outcome"

definition corporate_New :: "('w, 'v) env \<Rightarrow> (http_request \<Rightarrow> 'w \<Rightarrow> (string + http_response) \<times> 'w) \<Rightarrow>
    'w auth_maker option \<Rightarrow> ('w client \<Rightarrow> 'w client) list \<Rightarrow> corporate_error + 'w corporate_client" where
  "corporate_New env stdDo am opts =
     (case am of
        None \<Rightarrow> Inl ErrEmptyAuthMaker
      | Some a \<Rightarrow> Inr \<lparr>cc = New env stdDo opts, authMaker = a, allowInsecureCallback = False\<rparr>)"

definition AllowInsecureCallback :: "bool \<Rightarrow> 'w corporate_client \<Rightarrow> 'w corporate_client" where
  "AllowInsecureCallback allow c = c\<lparr>allowInsecureCallback := allow\<rparr>"

definition corp_do :: "('w, 'v) env \<Rightarrow> string \<Rightarrow> 'w corporate_client \<Rightarrow> http_request \<Rightarrow> 'w setter \<Rightarrow> target \<Rightarrow> int list \<Rightarrow>
    ('v, 'w) corporate_call" where
  "corp_do env ua c req a v codes w =
     (case a req w of
        (Inl e, w1) \<Rightarrow> (Inl (Guard (SignRequest e)), w1)
      | (Inr req1, w1) \<Rightarrow>
          (case Do env ua (cc c) (Some req1) v codes w1 of
             ((Some e, _), w2) \<Rightarrow> (Inl (Failed e), w2)
           | ((None, out1), w2) \<Rightarrow> (Inr out1, w2)))"

definition corp_dispatch :: "('w, 'v) env \<Rightarrow> string \<Rightarrow> 'w corporate_client \<Rightarrow> 'w setter \<Rightarrow> string \<Rightarrow> string \<Rightarrow> string option \<Rightarrow>
    (string \<times> string) list \<Rightarrow> target \<Rightarrow> ('v, 'w) corporate_call" where
  \<comment> \<open>the end of every method: build the request, set its headers, sign and send it\<close>
  "corp_dispatch env ua c a meth uri b hs v w =
     (case NewRequest env meth uri b of
        None \<Rightarrow> (Inl CreateRequest, w)
      | Some req \<Rightarrow> corp_do env ua c (set_headers hs req) a v [200] w)"

definition corp_send_json :: "('w, 'v) env \<Rightarrow> string \<Rightarrow> 'w corporate_client \<Rightarrow> string \<Rightarrow> string + string \<Rightarrow> target \<Rightarrow>
    ('v, 'w) corporate_call" where
  \<comment> \<open>a POST of \<open>json.Marshal(in)\<close>, signed without an actor\<close>
  "corp_send_json env ua c uri marshalled v w =
     (case marshalled of
        Inl e \<Rightarrow> (Inl (Marshal e), w)
      | Inr b \<Rightarrow> corp_dispatch env ua c (am_New (authMaker c) []) ''POST'' uri (Some b) [] v w)"

definition validateCallbackURL :: "('w, 'v) env \<Rightarrow> string \<Rightarrow> bool \<Rightarrow> corporate_error option" where
  "validateCallbackURL env callbackURL allowInsecure =
     (if callbackURL = [] then Some ErrInvalidCallback
      else case url_Parse env callbackURL of
          None \<Rightarrow> Some ErrInvalidCallback
        | Some u \<Rightarrow>
            if Scheme u = [] then Some ErrInvalidCallback
            else if Scheme u = ''https'' then None
            else if allowInsecure then None
            else if Hostname u = ''localhost'' then None
            else if loopback_ip env (Hostname u) then None
            else Some ErrInsecureCallback)"

definition Auth :: "('w, 'v) env \<Rightarrow> string \<Rightarrow> 'w corporate_client \<Rightarrow> string \<Rightarrow> string list \<Rightarrow> ('v, 'w) corporate_call" where
  "Auth env ua c callbackURL perms w =
     (case validateCallbackURL env callbackURL (allowInsecureCallback c) of
        Some e \<Rightarrow> (Inl (Guard e), w)
      | None \<Rightarrow> corp_dispatch env ua c (am_NewPermissions (authMaker c) perms) ''POST'' ''/personal/auth/request'' None
                  [(''X-Callback'', callbackURL)] TJSON w)"

definition CheckAuth :: "('w, 'v) env \<Rightarrow> string \<Rightarrow> 'w corporate_client \<Rightarrow> string \<Rightarrow> ('v, 'w) corporate_call" where
  "CheckAuth env ua c rid = corp_dispatch env ua c (am_New (authMaker c) rid) ''GET'' ''/personal/auth/request'' None [] TNil"

definition corp_ClientInfo :: "('w, 'v) env \<Rightarrow> string \<Rightarrow> 'w corporate_client \<Rightarrow> string \<Rightarrow> ('v, 'w) corporate_call" where
  "corp_ClientInfo env ua c rid = corp_dispatch env ua c (am_New (authMaker c) rid) ''GET'' ''/personal/client-info'' None [] TJSON"

definition corp_Transactions :: "('w, 'v) env \<Rightarrow> string \<Rightarrow> 'w corporate_client \<Rightarrow> string \<Rightarrow> string \<Rightarrow> int \<Rightarrow> int \<Rightarrow>
    ('v, 'w) corporate_call" where
  "corp_Transactions env ua c rid accountID from to =
     corp_dispatch env ua c (am_New (authMaker c) rid) ''GET'' (statement_path accountID from to) None [] TJSON"

definition corp_TransactionsRange where
  "corp_TransactionsRange env ua c errText rid accountID from to w =
     TransactionsRange (\<lambda>f t w. rows_of errText (corp_Transactions env ua c rid accountID f t w)) from to w"

definition corp_TransactionsRangeIter where
  "corp_TransactionsRangeIter env ua c errText ctxErr rid accountID from to yield w =
     TransactionsRangeIter ctxErr (\<lambda>f t w. rows_of errText (corp_Transactions env ua c rid accountID f t w)) yield from to w"

definition GetSettings :: "('w, 'v) env \<Rightarrow> string \<Rightarrow> 'w corporate_client \<Rightarrow> ('v, 'w) corporate_call" where
  "GetSettings env ua c = corp_dispatch env ua c (am_New (authMaker c) []) ''GET'' ''/personal/corp/settings'' None [] TJSON"

definition corp_SetWebHook :: "('w, 'v) env \<Rightarrow> string \<Rightarrow> 'w corporate_client \<Rightarrow> (string \<Rightarrow> string + string) \<Rightarrow> string \<Rightarrow>
    ('v, 'w) corporate_call" where
  "corp_SetWebHook env ua c marshal uri = corp_send_json env ua c ''/personal/corp/webhook'' (marshal uri) TNil"

record registration_request =
  regPubkey :: "string option"   \<comment> \<open>bytes, or nil\<close>
  regName :: string
  regDescription :: string
  regContactPerson :: string
  regPhone :: string
  regEmail :: string
  regLogo :: "string option"

definition MaxRegistrationLogoBytes :: nat where
  "MaxRegistrationLogoBytes = 1048576"

definition Register :: "('w, 'v) env \<Rightarrow> string \<Rightarrow> 'w corporate_client \<Rightarrow> (registration_request \<Rightarrow> string + string) \<Rightarrow>
    registration_request option \<Rightarrow> ('v, 'w) corporate_call" where
  "Register env ua c marshal inp w =
     (case inp of
        None \<Rightarrow> (Inl (Guard CorpNilRequest), w)
      | Some r \<Rightarrow>
          if MaxRegistrationLogoBytes < (case regLogo r of None \<Rightarrow> 0 | Some b \<Rightarrow> length b) then (Inl (Guard ErrLogoTooLarge), w)
          else corp_send_json env ua c ''/personal/auth/registration'' (marshal r) TJSON w)"

definition RegistrationStatus :: "('w, 'v) env \<Rightarrow> string \<Rightarrow> 'w corporate_client \<Rightarrow> (string \<Rightarrow> string + string) \<Rightarrow> string \<Rightarrow>
    ('v, 'w) corporate_call" where
  "RegistrationStatus env ua c marshal pubkeyPEM =
     corp_send_json env ua c ''/personal/auth/registration/status'' (marshal pubkeyPEM) TJSON"

definition SignatureCreate :: "('w, 'v) env \<Rightarrow> string \<Rightarrow> 'w corporate_client \<Rightarrow> ('r \<Rightarrow> string + string) \<Rightarrow> 'r option \<Rightarrow>
    ('v, 'w) corporate_call" where
  "SignatureCreate env ua c marshal inp w =
     (case inp of
        None \<Rightarrow> (Inl (Guard CorpNilRequest), w)
      | Some r \<Rightarrow> corp_send_json env ua c ''/personal/signature/create'' (marshal r) TJSON w)"

definition SignatureStatus :: "('w, 'v) env \<Rightarrow> string \<Rightarrow> 'w corporate_client \<Rightarrow> string \<Rightarrow> ('v, 'w) corporate_call" where
  "SignatureStatus env ua c rid = corp_dispatch env ua c (am_New (authMaker c) []) ''GET''
     (with_query ''/personal/signature/status'' [(''requestId'', rid)]) None [] TJSON"

definition SignatureCancel :: "('w, 'v) env \<Rightarrow> string \<Rightarrow> 'w corporate_client \<Rightarrow> string \<Rightarrow> ('v, 'w) corporate_call" where
  "SignatureCancel env ua c rid = corp_dispatch env ua c (am_New (authMaker c) []) ''DELETE''
     (with_query ''/personal/signature/cancel'' [(''requestId'', rid)]) None [] TNil"

section \<open>What the corporate client sends\<close>

definition corp_client :: "('w, 'v) env \<Rightarrow> ('k, 'w) sign_lib \<Rightarrow> 'k corp_auth_maker \<Rightarrow> (string \<Rightarrow> string \<Rightarrow> bool) \<Rightarrow>
    'w corporate_client \<Rightarrow> ('w \<Rightarrow> (http_request \<times> (string + http_response)) list) \<Rightarrow> bool" where
  \<comment> \<open>a corporate client over a logging transport, with the SDK's own authorizer and no second one\<close>
  "corp_client env lib m verify c sent \<longleftrightarrow>
     observed env (cc c) sent \<and> onReq (cc c) = None \<and> keeps_headers UNIV (cc c) \<and>
     authMaker c = corp_maker lib m \<and> signs_for lib (privateKey m) verify \<and>
     (\<forall>w. sent (snd (time_Now lib w)) = sent w) \<and> (\<forall>k h w. sent (snd (SignASN1 lib k h w)) = sent w)"

lemma Corp_SetAuth_quiet:
  assumes "\<And>w. sent (snd (time_Now lib w)) = sent w" and "\<And>k h w. sent (snd (SignASN1 lib k h w)) = sent w"
  shows "sent (snd (Corp_SetAuth lib a r w)) = sent w"
proof -
  obtain now w1 where n: "time_Now lib w = (now, w1)" by fastforce
  have "sent w2 = sent w" if "sign lib a ts actor p w1 = (x, w2)" for ts actor p x w2
    using that assms(1) [of w] assms(2) [of "privateKey (maker a)" "sha256 lib (ts @ actor @ p)" w1] n
    by (auto simp: sign_def signString_def split: prod.splits sum.splits)
  then show ?thesis by (auto simp: Corp_SetAuth_def Let_def n split: prod.split sum.split)
qed

lemma corp_dispatch_sends:
  fixes a :: "'k corp"
  assumes c: "corp_client env lib m verify c sent" and "go_targets env" and "target_ok uri"
    and base: "baseURL (cc c) = Some base" "Opaque base = []"
    and dots: "set (split_on (CHR ''/'') (fst (cut (CHR ''?'') uri))) \<inter> dots = {}"
    and a: "maker a = m" "requestID a = [] \<or> permissions a = []"
    and hs: "set (map fst hs) \<inter> corp_headers = {}"
    and d: "corp_dispatch env ua c (Corp_SetAuth lib a) meth uri b hs v w = (res, w')"
  shows "\<exists>R rs. sent w' = sent w @ map (\<lambda>r. (R, r)) rs \<and> (rs \<noteq> [] \<longrightarrow>
    rMethod R = meth \<and> rBody R = sent_body b \<and> Host (rURL R) = Host base \<and> Scheme (rURL R) = Scheme base \<and>
    Path (rURL R) = fst (cut (CHR ''?'') uri) \<and> RawQuery (rURL R) = snd (cut (CHR ''?'') uri) \<and>
    rHeader R ''X-Key-Id'' = makerKeyID m \<and> rHeader R ''X-Request-Id'' = requestID a \<and>
    rHeader R ''X-Permissions'' = permissions a \<and> signed_request (sha256 lib) verify R) \<and>
    (meth = ''POST'' \<and> \<not> unsafeRetries (cc c) \<and> ''Idempotency-Key'' \<notin> fst ` set hs \<longrightarrow> length rs \<le> 1) \<and>
    (\<forall>out1. res = Inr out1 \<longrightarrow> rs \<noteq> [])"
proof -
  have t: "url_Parse env uri = Some (parse_target uri)" "url_String env (parse_target uri) = uri"
    and rp: "resolvePath env = resolve_path" using assms(2,3) by (auto simp: go_targets_def)
  obtain req where r: "NewRequest env meth uri b = Some req" by (simp add: NewRequest_def t)
  have req: "rMethod req = meth" "rURL req = parse_target uri" "rHeader req = (\<lambda>_. [])"
    "full_body (set_headers hs req) = sent_body b"
    using r by (auto simp: NewRequest_def t full_body_def sent_body_def split: option.splits)
  have cl: "observed env (cc c) sent" "onReq (cc c) = None" "keeps_headers UNIV (cc c)" "signs_for lib (privateKey m) verify"
    and quiet: "\<And>w. sent (snd (time_Now lib w)) = sent w" "\<And>k h w. sent (snd (SignASN1 lib k h w)) = sent w"
    using c by (auto simp: corp_client_def)
  have absent: "rHeader (set_headers hs req) k = []" if "k \<notin> fst ` set hs" for k
  proof -
    have "fold (\<lambda>(k, v) h. h(k := v)) hs h k = h k" for h :: "string \<Rightarrow> string"
      using that by (induction hs arbitrary: h) auto
    then show ?thesis by (simp add: set_headers_def req(3))
  qed
  have hd0: "rHeader (set_headers hs req) k = []" if "k \<in> corp_headers" for k
    using hs that by (intro absent) auto
  obtain x w1 where x: "Corp_SetAuth lib a (set_headers hs req) w = (x, w1)" by fastforce
  have w1: "sent w1 = sent w" using Corp_SetAuth_quiet [OF quiet, of a "set_headers hs req" w] x by simp
  show ?thesis
  proof (cases x)
    case (Inl e)
    then have "w' = w1" "\<forall>out1. res \<noteq> Inr out1" using d r x by (auto simp: corp_dispatch_def corp_do_def)
    with w1 show ?thesis by (intro exI [of _ undefined] exI [of _ "[]"]) simp
  next
    case (Inr req1)
    note x1 = x [unfolded Inr]
    note keep = corp.keeps_fields [OF x1]
    have "full_body req1 = full_body (set_headers hs req)" unfolding full_body_def keep(3,4) ..
    with req(4) have fb: "full_body req1 = sent_body b" by simp
    have e: "rHeader (set_headers hs req) ''X-Request-Id'' = []" "rHeader (set_headers hs req) ''X-Permissions'' = []"
      by (rule hd0, simp add: corp_headers_def)+
    from x1 e a(2) have H: "rHeader req1 ''X-Key-Id'' = makerKeyID m" "rHeader req1 ''X-Request-Id'' = requestID a"
      "rHeader req1 ''X-Permissions'' = permissions a" using a(1) by (auto elim: Corp_SetAuth_headers)
    have sg: "signed_request (sha256 lib) verify req1"
      using Corp_SetAuth_signs [OF _ x1 e a(2)] cl(4) a(1) by simp
    obtain err out1 w2 where D: "Do env ua (cc c) (Some req1) v [200] w1 = ((err, out1), w2)" by (metis prod.collapse)
    have w': "w2 = w'" "\<forall>out1. res = Inr out1 \<longrightarrow> err = None"
      using d r x1 D by (auto simp: corp_dispatch_def corp_do_def split: option.splits)
    from Do_sends_keeping [OF cl(1-3) UNIV_I D] obtain R rs where s: "sent w2 = sent w1 @ map (\<lambda>r. (R, r)) rs"
      "length rs \<le> (if shouldRetry (cc c) req1 then attempts_of (retry (cc c)) else 1)" "err = None \<longrightarrow> rs \<noteq> []"
      "rs \<noteq> [] \<longrightarrow> (\<exists>base. baseURL (cc c) = Some base \<and> same_request env base req1 R)
         \<and> (\<forall>k\<in>UNIV - {''Content-Type'', ''User-Agent''}. rHeader R k = rHeader req1 k)" by blast
    have goal: "rMethod R = meth \<and> rBody R = sent_body b \<and> Host (rURL R) = Host base \<and> Scheme (rURL R) = Scheme base \<and>
      Path (rURL R) = fst (cut (CHR ''?'') uri) \<and> RawQuery (rURL R) = snd (cut (CHR ''?'') uri) \<and>
      rHeader R ''X-Key-Id'' = makerKeyID m \<and> rHeader R ''X-Request-Id'' = requestID a \<and>
      rHeader R ''X-Permissions'' = permissions a \<and> signed_request (sha256 lib) verify R" if "rs \<noteq> []"
    proof -
      from that s(4) base(1) have sr: "same_request env base req1 R"
        and hk: "\<And>k. k \<in> corp_headers \<Longrightarrow> rHeader R k = rHeader req1 k" by (auto simp: corp_headers_def)
      have u: "rURL R = ResolveReference resolve_path base (parse_target uri)"
        using sr keep(2) req(2) by (auto simp: same_request_def t rp)
      have ic: "is_call (cc c) meth uri b [(''Idempotency-Key'', rHeader R ''Idempotency-Key'')] R"
        using sr keep(1) req(1) fb base(1) u by (auto simp: is_call_def same_request_def)
      note P = is_call_path [OF ic base(1) assms(3) base(2) dots]
      have "Path (rURL R) = Path (rURL req1)"
        using P(1) keep(2) req(2) by (simp add: parse_target_def split: prod.split)
      then have "URL_Path (rURL R) = URL_Path (rURL req1)" unfolding URL_Path_def by (rule arg_cong)
      with sg have "signed_request (sha256 lib) verify R"
        using signed_request_cong [of R req1 "sha256 lib" verify] hk by blast
      moreover have "rHeader R ''X-Key-Id'' = makerKeyID m" "rHeader R ''X-Request-Id'' = requestID a"
        "rHeader R ''X-Permissions'' = permissions a" using H hk by (simp_all add: corp_headers_def)
      ultimately show ?thesis using P ic by (simp add: is_call_def)
    qed
    moreover have "length rs \<le> 1"
      if "meth = ''POST'' \<and> \<not> unsafeRetries (cc c) \<and> ''Idempotency-Key'' \<notin> fst ` set hs"
    proof -
      have "rHeader req1 ''Idempotency-Key'' = []"
        using keep(5) [of "''Idempotency-Key''"] absent [of "''Idempotency-Key''"] that by (simp add: corp_headers_def)
      then have "\<not> shouldRetry (cc c) req1" using that keep(1) req(1) by (simp add: shouldRetry_def)
      with s(2) show ?thesis by simp
    qed
    ultimately show ?thesis using s(1,3) w1 w' by (intro exI [of _ R] exI [of _ rs]) simp
  qed
qed

lemma Itoa_path: "list_all (\<lambda>c. is_alnum c \<or> c \<in> set ''-_/'') (Itoa n)"
proof -
  have "list_all (\<lambda>c. is_alnum c \<or> c \<in> set ''-_/'') (nat_digits k)" for k
    using nat_digits_digits [of k] by (auto simp: list_all_iff digit_alnum)
  then show ?thesis by (simp add: Itoa_def)
qed

lemma statement_path_target:
  assumes "accountID \<noteq> []" and "accountID \<notin> dots"
  shows "cut (CHR ''?'') (statement_path accountID from to) = (statement_path accountID from to, [])"
    and "target_ok (statement_path accountID from to)"
    and "set (split_on (CHR ''/'') (statement_path accountID from to)) \<inter> dots = {}"
proof -
  let ?post = "''/'' @ Itoa (Unix from) @ ''/'' @ Itoa (Unix to)"
  have pre: "plain_path (''/personal/statement'' @ ''/'')" by (simp add: literal_path)
  have po: "list_all (\<lambda>c. is_alnum c \<or> c \<in> set ''-_/'') ?post" "?post = [] \<or> hd ?post = CHR ''/''"
    using Itoa_path by auto
  have p: "statement_path accountID from to = ''/personal/statement'' @ ''/'' @ PathEscape accountID @ ?post"
    by (simp add: statement_path_def)
  note ts = target_segment [OF pre po assms(1)]
  show "cut (CHR ''?'') (statement_path accountID from to) = (statement_path accountID from to, [])"
    "target_ok (statement_path accountID from to)"
    unfolding p by (rule ts(1), rule ts(2))
  have "set (split_on (CHR ''/'') ''/personal/statement'') \<inter> dots = {}" by (simp add: dots_def)
  moreover have "set (split_on (CHR ''/'') (tl ?post)) \<inter> dots = {}"
    using plain_path_chars(4) [of "tl ?post"] Itoa_path by simp
  ultimately show "set (split_on (CHR ''/'') (statement_path accountID from to)) \<inter> dots = {}"
    unfolding p ts(3) using assms(2) escape_dots [of PathSegment accountID] by (auto simp: dots_def)
qed

text \<open>Every call is covered by \<open>corp_dispatch_sends\<close>; for statements of one account:\<close>

lemma corp_Transactions_sends:
  assumes "corp_client env lib m verify c sent" and "go_targets env"
    and "baseURL (cc c) = Some base" and "Opaque base = []"
    and "accountID \<noteq> []" and "accountID \<notin> dots"
    and "corp_Transactions env ua c rid accountID from to w = (res, w')"
  shows "\<exists>R rs. sent w' = sent w @ map (\<lambda>r. (R, r)) rs \<and> (rs \<noteq> [] \<longrightarrow>
    rMethod R = ''GET'' \<and> Host (rURL R) = Host base \<and> Path (rURL R) = statement_path accountID from to \<and>
    rHeader R ''X-Key-Id'' = makerKeyID m \<and> rHeader R ''X-Request-Id'' = rid \<and> signed_request (sha256 lib) verify R)"
proof -
  note t = statement_path_target [OF assms(5,6), of "from" to]
  have a: "am_New (authMaker c) rid = Corp_SetAuth lib (maker_New m rid)"
    using assms(1) by (simp add: corp_client_def corp_maker_def)
  have mk: "maker (maker_New m rid) = m" "requestID (maker_New m rid) = rid" "permissions (maker_New m rid) = []"
    by (simp_all add: maker_New_def)
  have d: "corp_dispatch env ua c (Corp_SetAuth lib (maker_New m rid)) ''GET'' (statement_path accountID from to) None [] TJSON w = (res, w')"
    using assms(7) by (simp add: corp_Transactions_def a)
  have "requestID (maker_New m rid) = [] \<or> permissions (maker_New m rid) = []" by (simp add: mk)
  from corp_dispatch_sends [OF assms(1,2) t(2) assms(3,4) _ mk(1) this _ d] t(1,3) mk show ?thesis by auto
qed

section \<open>Keys, tokens and callbacks\<close>

text \<open>The point encoding of \<open>auth\<close> and the decoding of \<open>bank\<close> fit: a key in the form \<open>auth\<close> writes is read
  back by \<open>asServerKey\<close>, whatever leading zeros its coordinates have.\<close>

definition parses_points :: "(nat \<Rightarrow> nat \<Rightarrow> bool) \<Rightarrow> (string \<Rightarrow> point option) \<Rightarrow> bool" where
  \<comment> \<open>documented of \<open>secp256k1.ParsePubKey\<close> on the uncompressed form: the coordinates, if they are on the curve\<close>
  "parses_points on_curve parse \<longleftrightarrow> (\<forall>xs ys. length xs = 32 \<and> length ys = 32 \<longrightarrow>
     parse (byte 4 # xs @ ys) = (if on_curve (SetBytes xs) (SetBytes ys) then Some \<lparr>px = SetBytes xs, py = SetBytes ys\<rparr> else None))"

lemma asServerKey_serialize:
  assumes "parses_points on_curve parse" and "px pub < 256 ^ 32" and "py pub < 256 ^ 32" and "on_curve (px pub) (py pub)"
  shows "\<exists>bs. serializeECDSAPubKeyUncompressed pub = Some bs \<and>
    asServerKey parse \<lparr>ServerKeyID = i, ServerPubKey = b64_encode bs, ServerTimeMsec = ms\<rparr>
      = Inr (\<lparr>KeyID = i, PubKey = Some pub\<rparr>, ms * 1000000)"
  using assms(2,3)
proof (rule serialize_point)
  fix xs ys
  assume s: "serializeECDSAPubKeyUncompressed pub = Some (byte 4 # xs @ ys)" and l: "length xs = 32" "length ys = 32"
    and v: "SetBytes xs = px pub" "SetBytes ys = py pub"
  have "parse (byte 4 # xs @ ys) = Some pub" using assms(1,4) l v by (simp add: parses_points_def)
  then show ?thesis using s l by (simp add: asServerKey_def b64_decode_encode)
qed

text \<open>Only points on the curve become keys.\<close>

lemma asServerKey_on_curve:
  assumes "parses_points on_curve parse" and "asServerKey parse r = Inr (k, t)"
  shows "\<exists>pk. PubKey k = Some pk \<and> on_curve (px pk) (py pk)"
proof -
  from assms(2) obtain bs pk where b: "length bs = 65" "bs ! 0 = byte 4" "parse bs = Some pk" "PubKey k = Some pk"
    by (auto simp: asServerKey_def split: option.splits if_splits)
  then obtain rest where r: "bs = byte 4 # rest" "length rest = 64" by (cases bs) auto
  have l: "length (take 32 rest) = 32" "length (drop 32 rest) = 32" using r(2) by simp_all
  have "parse (byte 4 # take 32 rest @ drop 32 rest) = (if on_curve (SetBytes (take 32 rest)) (SetBytes (drop 32 rest))
      then Some \<lparr>px = SetBytes (take 32 rest), py = SetBytes (drop 32 rest)\<rparr> else None)"
    using assms(1) l unfolding parses_points_def by blast
  with b r show ?thesis by (auto split: if_splits)
qed

text \<open>With an empty token nothing is sent.\<close>

lemma Do_empty_token:
  assumes "SetAuth c = Some (Personal_SetAuth [])" and "Do env ua c (Some req) v codes w = ((err, out1), w')"
  shows "w' = w \<and> err \<noteq> None"
  using assms by (cases "optErr c"; cases err) (auto simp: Do_def Personal_SetAuth_def Let_def split: option.splits if_splits)

lemma validateCallbackURL_accepts:
  "validateCallbackURL env s False = None \<longleftrightarrow> (\<exists>u. s \<noteq> [] \<and> url_Parse env s = Some u \<and> Scheme u \<noteq> [] \<and>
     (Scheme u = ''https'' \<or> Hostname u = ''localhost'' \<or> loopback_ip env (Hostname u)))"
  by (auto simp: validateCallbackURL_def split: option.split)

lemma Auth_refuses:
  "validateCallbackURL env cb (allowInsecureCallback c) = Some e \<Longrightarrow> Auth env ua c cb perms w = (Inl (Guard e), w)"
  by (simp add: Auth_def)

section \<open>Properties\<close>

text \<open>
  C38: Every request a corporate statement range causes is signed for what it asks. Whatever the bank answers and
  however often \<open>Do\<close> retries, each exchange of \<open>TransactionsRange\<close> is a GET on the base host for the
  statement of that account from an instant inside the range; it carries the service's key id and the
  client's request id, and its \<open>X-Sign\<close> verifies, under the service's key, over exactly its \<open>X-Time\<close>, its
  actor and the path it is sent to.
\<close>

theorem corp_TransactionsRange_signed:
  assumes "corp_client env lib m verify c sent" and "go_targets env"
    and "baseURL (cc c) = Some base" and "Opaque base = []"
    and "accountID \<noteq> []" and "accountID \<notin> {''.'', ''..''}"
    and "corp_TransactionsRange env ua c errText rid accountID from to w = Some (res, w')"
  shows "\<exists>log. sent w' = sent w @ log \<and> list_all (\<lambda>(R, r).
    rMethod R = ''GET'' \<and> Host (rURL R) = Host base \<and>
    (\<exists>f t. from \<le> f \<and> f \<le> to \<and> Path (rURL R) = statement_path accountID f t) \<and>
    rHeader R ''X-Key-Id'' = makerKeyID m \<and> rHeader R ''X-Request-Id'' = rid \<and> signed_request (sha256 lib) verify R) log"
proof -
  define ok where "ok R \<longleftrightarrow> rMethod R = ''GET'' \<and> Host (rURL R) = Host base \<and>
    (\<exists>f t. from \<le> f \<and> f \<le> to \<and> Path (rURL R) = statement_path accountID f t) \<and>
    rHeader R ''X-Key-Id'' = makerKeyID m \<and> rHeader R ''X-Request-Id'' = rid \<and> signed_request (sha256 lib) verify R" for R
  define I where "I u \<longleftrightarrow> (\<exists>log. sent u = sent w @ log \<and> list_all (\<lambda>(R, r). ok R) log)" for u
  have nd: "accountID \<notin> dots" using assms(6) by (simp add: dots_def)
  have "I (snd (res, w'))"
  proof (rule TransactionsRange_invariant [OF assms(7) [unfolded corp_TransactionsRange_def]])
    show "I w" by (simp add: I_def)
    fix f t u
    assume ft: "from \<le> f" "f \<le> to" and "I u"
    then obtain log where log: "sent u = sent w @ log" "list_all (\<lambda>(R, r). ok R) log" by (auto simp: I_def)
    obtain res' u' where d: "corp_Transactions env ua c rid accountID f t u = (res', u')" by fastforce
    from corp_Transactions_sends [OF assms(1-5) nd d] obtain R rs where
      R: "sent u' = sent u @ map (\<lambda>r. (R, r)) rs" "rs \<noteq> [] \<longrightarrow> ok R" using ft unfolding ok_def by blast
    have "list_all (\<lambda>(R, r). ok R) (log @ map (\<lambda>r. (R, r)) rs)" using log(2) R(2) by (auto simp: list_all_iff)
    then have "I u'" unfolding I_def using log(1) R(1) by (metis append.assoc)
    moreover have "snd (rows_of errText (corp_Transactions env ua c rid accountID f t u)) = u'"
      by (simp add: rows_of_def d split: sum.split out.split)
    ultimately show "I (snd (rows_of errText (corp_Transactions env ua c rid accountID f t u)))" by simp
  qed
  then show ?thesis unfolding I_def ok_def by simp
qed

text \<open>An instance: the world is the log, a signature is the digest itself and the digest the text.\<close>

definition demo_lib :: "(unit, (http_request \<times> (string + http_response)) list) sign_lib" where
  "demo_lib = \<lparr>time_Now = (\<lambda>w. (0, w)), sha256 = (\<lambda>s. s), SignASN1 = (\<lambda>k h w. (Inr h, w))\<rparr>"

definition demo_corp :: "(http_request \<times> (string + http_response)) list corporate_client" where
  "demo_corp = \<lparr>cc = demo_client\<lparr>http_Do := \<lambda>req w. (Inl ''down'', w @ [(req, Inl ''down'')])\<rparr>,
     authMaker = corp_maker demo_lib \<lparr>privateKey = (), makerKeyID = ''k''\<rparr>, allowInsecureCallback = False\<rparr>"

definition statement_env :: "((http_request \<times> (string + http_response)) list, transaction list) env" where
  "statement_env = \<lparr>url_Parse = url_Parse web_env, url_String = url_String web_env, resolvePath = resolve_path,
     loopback_ip = (\<lambda>_. False), ParseTime = (\<lambda>_. None), errorBody = (\<lambda>_. None), DecodeInto = (\<lambda>_. (None, Some [])),
     rand_Int64N = (\<lambda>_ w. (0, w)), select_after = (\<lambda>_ w. (None, w)), clock = (\<lambda>_. 0)\<rparr>"

lemma demo_corp_client: "corp_client statement_env demo_lib \<lparr>privateKey = (), makerKeyID = ''k''\<rparr> (=) demo_corp (\<lambda>w. w)"
  by (simp add: corp_client_def observed_def keeps_headers_def signs_for_def demo_corp_def demo_lib_def
      statement_env_def demo_client_def)

lemma statement_env_targets: "go_targets statement_env"
  using web_env_targets by (simp add: go_targets_def statement_env_def)

lemma parse_target_fields [simp]: "Scheme (parse_target s) = []"
  by (simp add: parse_target_def split: prod.split)

lemma demo_corp_fails:
  "\<exists>e l. corp_Transactions statement_env ''sdk'' demo_corp ''r'' ''a'' f t [] = (Inl e, l) \<and> length l = 1"
  by (simp add: corp_Transactions_def corp_dispatch_def corp_do_def NewRequest_def statement_env_def web_env_def demo_corp_def
      corp_maker_def maker_New_def Corp_SetAuth_def sign_def signString_def demo_lib_def set_headers_def
      Do_def demo_client_def prepare_def set_default_def buffer_body_def shouldRetry_def IsAbs_def Let_def
      run_def attempts_of_def defaultRetry_def numeral_eq_Suc attemptFn_def attempt_def reset_body_def
      lift_world_def pause_or_done_def retry_delay_def backoff_def split: prod.split)

theorem corp_TransactionsRange_signed_witness:
  "\<exists>res R r. corp_TransactionsRange statement_env ''sdk'' demo_corp (\<lambda>_. ''e'') ''r'' ''a'' (at_s 0) (at_s 9) [] = Some (res, [(R, r)]) \<and>
    rHeader R ''X-Request-Id'' = ''r'' \<and> signed_request (\<lambda>s. s) (=) R"
proof -
  let ?T = "corp_TransactionsRange statement_env ''sdk'' demo_corp (\<lambda>_. ''e'') ''r'' ''a'' (at_s 0) (at_s 9) []"
  obtain e l where t: "corp_Transactions statement_env ''sdk'' demo_corp ''r'' ''a'' (at_s 0) (at_s 9) [] = (Inl e, l)" "length l = 1"
    using demo_corp_fails by blast
  have z: "at_s 9 \<noteq> zero_time" by (simp add: at_s_def zero_time_def ns_per_s_def)
  have stop: "(if at_s 9 < at_s 0 + MaxStatementWindow then at_s 9 else at_s 0 + MaxStatementWindow) = at_s 9"
    by (simp add: at_s_def ns_per_s_def MaxStatementWindow_def)
  have run: "?T = Some (Inl ''e'', l)"
    unfolding corp_TransactionsRange_def TransactionsRange_def
    by (subst range_loop.simps, unfold DrainWindow_def, subst drain_loop.simps)
      (simp add: z stop [simplified] t rows_of_def Let_def)
  have a: "''a'' \<noteq> []" "''a'' \<notin> {''.'', ''..''}" by simp_all
  have b: "baseURL (cc demo_corp) = Some (demo_url ''https'' ''api.monobank.ua'' [])"
    "Opaque (demo_url ''https'' ''api.monobank.ua'' []) = []" by (simp_all add: demo_corp_def demo_client_def demo_url_def)
  obtain R r where "l = [(R, r)]" using t(2) by (cases l) auto
  with corp_TransactionsRange_signed [OF demo_corp_client statement_env_targets b a run] run show ?thesis
    by (auto simp: demo_lib_def)
qed

end
