(* ===== verification/Installment_Client.thy ===== *)
theory Installment_Client
  imports Endpoints Go_Base64 Installment_Money
begin

text \<open>
  The client of the installment API (\<open>installment/\<close>): it does not use the shared transport but signs and
  sends each request itself, once.

  HMAC-SHA256 and JSON coding are parameters. A response body is read through a limit; a body that breaks
  off after the limit is not noticed. \<open>zero\<close> is the zero value a method returns when a successful response
  has no body. A nil \<open>*http.Client\<close> panics at the first request (\<open>NilHTTPClient\<close>).
\<close>

section \<open>Construction\<close>

definition BaseURLProduction :: string where
  "BaseURLProduction = ''https://u2.monobank.com.ua''"

definition MaxJSONResponseBytes :: nat where
  "MaxJSONResponseBytes = 1048576"

definition MaxPDFResponseBytes :: nat where
  "MaxPDFResponseBytes = 52428800"

record inst_api_error =
  iStatusCode :: int
  iMessage :: string
  iTraceID :: string

datatype inst_error = InstNilRequest | ErrEmptyOrderID | ErrEmptyDate | PhoneError phone_error | ErrEmptyQRID
  | ErrEmptyStoreID | ErrEmptySecret | InstInsecureBaseURL string
  | InstMarshal string | BuildRequest | NilHTTPClient | DoRequest string | ReadInstBody | InstAPIError inst_api_error
  | InstDecode string

record 'w inst_client =
  ih :: "(http_request \<Rightarrow> 'w \<Rightarrow> (string + http_response) \<times> 'w) option"
  iBaseURL :: string
  storeID :: string
  isecret :: string
  iAllowInsecure :: bool

definition Inst_WithBaseURL :: "string \<Rightarrow> 'w inst_client \<Rightarrow> 'w inst_client" where
  "Inst_WithBaseURL u c = c\<lparr>iBaseURL := u\<rparr>"

definition Inst_WithInsecureBaseURL :: "bool \<Rightarrow> 'w inst_client \<Rightarrow> 'w inst_client" where
  "Inst_WithInsecureBaseURL allow c = c\<lparr>iAllowInsecure := allow\<rparr>"

definition Inst_WithHTTPClient :: "(http_request \<Rightarrow> 'w \<Rightarrow> (string + http_response) \<times> 'w) option \<Rightarrow> 'w inst_client \<Rightarrow> 'w inst_client" where
  "Inst_WithHTTPClient h c = c\<lparr>ih := h\<rparr>"

definition inst_isInsecureBaseURL :: "('w, 'v) env \<Rightarrow> string \<Rightarrow> bool" where
  "inst_isInsecureBaseURL env u =
     (case url_Parse env u of
        None \<Rightarrow> False
      | Some p \<Rightarrow>
          if Scheme p = ''https'' \<or> Scheme p = [] then False
          else if Hostname p = ''localhost'' then False
          else if loopback_ip env (Hostname p) then False
          else True)"

definition installment_New :: "('w, 'v) env \<Rightarrow> (http_request \<Rightarrow> 'w \<Rightarrow> (string + http_response) \<times> 'w) \<Rightarrow> string \<Rightarrow> string \<Rightarrow>
    ('w inst_client \<Rightarrow> 'w inst_client) list \<Rightarrow> inst_error + 'w inst_client" where
  "installment_New env stdDo sid secret opts =
     (if sid = [] then Inl ErrEmptyStoreID
      else if secret = [] then Inl ErrEmptySecret
      else
        let c = fold (\<lambda>f. f) opts
              \<lparr>ih = Some stdDo, iBaseURL = BaseURLProduction, storeID = sid, isecret = secret, iAllowInsecure = False\<rparr>
        in if inst_isInsecureBaseURL env (iBaseURL c) \<and> \<not> iAllowInsecure c then Inl (InstInsecureBaseURL (iBaseURL c))
           else Inr c)"

section \<open>Signatures\<close>

definition Inst_Sign :: "(string \<Rightarrow> string \<Rightarrow> string) \<Rightarrow> 'w inst_client \<Rightarrow> string \<Rightarrow> string" where
  "Inst_Sign hmac c body = b64_encode (hmac (isecret c) body)"

datatype callback_error = ErrCallbackBadLength | ErrCallbackSignatureMismatch

definition VerifyCallback :: "(string \<Rightarrow> string \<Rightarrow> string) \<Rightarrow> 'w inst_client \<Rightarrow> string \<Rightarrow> string \<Rightarrow> callback_error option" where
  "VerifyCallback hmac c body signatureHeader =
     (if length signatureHeader \<noteq> 44 then Some ErrCallbackBadLength
      else if Inst_Sign hmac c body \<noteq> signatureHeader then Some ErrCallbackSignatureMismatch
      else None)"

definition ParseCallback :: "(string \<Rightarrow> string + 'v) \<Rightarrow> string \<Rightarrow> string + 'v" where
  "ParseCallback unmarshal body = (case unmarshal body of
      Inl e \<Rightarrow> Inl (''installment: parse callback: '' @ e)
    | Inr info \<Rightarrow> Inr info)"

section \<open>Requests\<close>

record ('w, 'v) inst_env =
  web :: "('w, 'v) env"
  hmac :: "string \<Rightarrow> string \<Rightarrow> string"
  unmarshalOut :: "string \<Rightarrow> string + 'v"
  zeroOut :: 'v
  unmarshalErr :: "string \<Rightarrow> inst_api_error \<Rightarrow> inst_api_error"   \<comment> \<open>\<open>json.Unmarshal(body, e)\<close>, its error ignored\<close>

type_synonym ('v, 'w) inst_call = "'w \<Rightarrow> (inst_error + 'v) \<times> 'w"

definition decodeAPIError :: "('w, 'v) inst_env \<Rightarrow> http_response \<Rightarrow> string \<Rightarrow> inst_api_error" where
  "decodeAPIError ie resp body =
     (let e = unmarshalErr ie body \<lparr>iStatusCode = StatusCode resp, iMessage = [], iTraceID = respHeader resp ''Trace-Id''\<rparr>
      in if iMessage e = [] then e\<lparr>iMessage := body\<rparr> else e)"

definition read_limited :: "nat \<Rightarrow> http_response \<Rightarrow> string option" where
  \<comment> \<open>\<open>io.ReadAll(io.LimitReader(resp.Body, n))\<close>\<close>
  "read_limited n resp = (if respBodyErr resp \<and> length (respBody resp) < n then None else Some (take n (respBody resp)))"

definition signed_post :: "('w, 'v) inst_env \<Rightarrow> 'w inst_client \<Rightarrow> string \<Rightarrow> string \<Rightarrow> string + string \<Rightarrow> nat \<Rightarrow>
    (http_response \<times> string, 'w) inst_call" where
  \<comment> \<open>the common part of \<open>doJSON\<close> and \<open>doPDF\<close>, up to the body that was read; \<open>Header.Set\<close>
      stores the canonical form of a name\<close>
  "signed_post ie c path accept marshalled limit w =
     (case marshalled of
        Inl e \<Rightarrow> (Inl (InstMarshal e), w)
      | Inr body \<Rightarrow>
          (case NewRequest (web ie) ''POST'' (iBaseURL c @ path) (Some body) of
             None \<Rightarrow> (Inl BuildRequest, w)
           | Some req \<Rightarrow>
               let req1 = set_headers [(''Content-Type'', ''application/json''), (''Accept'', accept),
                     (''Store-Id'', storeID c), (''Signature'', Inst_Sign (hmac ie) c body)] req
               in case ih c of
                    None \<Rightarrow> (Inl NilHTTPClient, w)
                  | Some h \<Rightarrow>
                      (case h req1 w of
                         (Inl e, w1) \<Rightarrow> (Inl (DoRequest e), w1)
                       | (Inr resp, w1) \<Rightarrow>
                           (case read_limited limit resp of
                              None \<Rightarrow> (Inl ReadInstBody, w1)
                            | Some b \<Rightarrow> (Inr (resp, b), w1)))))"

definition doJSON :: "('w, 'v) inst_env \<Rightarrow> 'w inst_client \<Rightarrow> string \<Rightarrow> string + string \<Rightarrow> bool \<Rightarrow> int \<Rightarrow>
    ('v, 'w) inst_call" where
  \<comment> \<open>\<open>wantOut\<close>: \<open>out != nil\<close>\<close>
  "doJSON ie c path marshalled wantOut wantStatus w =
     (case signed_post ie c path ''application/json'' marshalled MaxJSONResponseBytes w of
        (Inl e, w1) \<Rightarrow> (Inl e, w1)
      | (Inr (resp, rbody), w1) \<Rightarrow>
          if StatusCode resp \<noteq> wantStatus then (Inl (InstAPIError (decodeAPIError ie resp rbody)), w1)
          else if \<not> wantOut \<or> rbody = [] then (Inr (zeroOut ie), w1)
          else case unmarshalOut ie rbody of
              Inl e \<Rightarrow> (Inl (InstDecode e), w1)
            | Inr v \<Rightarrow> (Inr v, w1))"

definition doPDF :: "('w, 'v) inst_env \<Rightarrow> 'w inst_client \<Rightarrow> string \<Rightarrow> string + string \<Rightarrow> (string, 'w) inst_call" where
  "doPDF ie c path marshalled w =
     (case signed_post ie c path ''application/pdf'' marshalled MaxPDFResponseBytes w of
        (Inl e, w1) \<Rightarrow> (Inl e, w1)
      | (Inr (resp, rbody), w1) \<Rightarrow>
          if StatusCode resp \<noteq> 200 then (Inl (InstAPIError (decodeAPIError ie resp rbody)), w1)
          else (Inr rbody, w1))"

section \<open>Endpoints\<close>

definition inst_post :: "('w, 'v) inst_env \<Rightarrow> 'w inst_client \<Rightarrow> string \<Rightarrow> ('r \<Rightarrow> string + string) \<Rightarrow> 'r option \<Rightarrow> int \<Rightarrow>
    ('v, 'w) inst_call" where
  \<comment> \<open>the shape of the methods that post a request of their own\<close>
  "inst_post ie c path marshal inp status w =
     (case inp of None \<Rightarrow> (Inl InstNilRequest, w) | Some r \<Rightarrow> doJSON ie c path (marshal r) True status w)"

definition inst_order :: "('w, 'v) inst_env \<Rightarrow> 'w inst_client \<Rightarrow> string \<Rightarrow> (string \<Rightarrow> string + string) \<Rightarrow> string \<Rightarrow>
    ('v, 'w) inst_call" where
  \<comment> \<open>the shape of the methods about one order\<close>
  "inst_order ie c path marshal orderID w =
     (if orderID = [] then (Inl ErrEmptyOrderID, w) else doJSON ie c path (marshal orderID) True 200 w)"

definition CreateOrder where "CreateOrder ie c marshal inp = inst_post ie c ''/api/order/create'' marshal inp 201"

definition OrderState where "OrderState ie c marshal orderID = inst_order ie c ''/api/order/state'' marshal orderID"

definition ConfirmOrder where "ConfirmOrder ie c marshal orderID = inst_order ie c ''/api/order/confirm'' marshal orderID"

definition RejectOrder where "RejectOrder ie c marshal orderID = inst_order ie c ''/api/order/reject'' marshal orderID"

definition ReturnOrder where "ReturnOrder ie c marshal inp = inst_post ie c ''/api/order/return'' marshal inp 200"

definition OrderInfo where "OrderInfo ie c marshal orderID = inst_order ie c ''/api/order/info'' marshal orderID"

definition OrderData where "OrderData ie c marshal orderID = inst_order ie c ''/api/order/data'' marshal orderID"

definition CheckPaid where "CheckPaid ie c marshal orderID = inst_order ie c ''/api/order/check/paid'' marshal orderID"

definition GuaranteeLetterPDF :: "('w, 'v) inst_env \<Rightarrow> 'w inst_client \<Rightarrow> ('r \<Rightarrow> string + string) \<Rightarrow> 'r option \<Rightarrow>
    (string, 'w) inst_call" where
  "GuaranteeLetterPDF ie c marshal inp w =
     (case inp of None \<Rightarrow> (Inl InstNilRequest, w) | Some r \<Rightarrow> doPDF ie c ''/api/order/guarantee/letter'' (marshal r) w)"

definition GuaranteeLetterData where
  "GuaranteeLetterData ie c marshal inp = inst_post ie c ''/api/order/data/for/guarantee/letter'' marshal inp 200"

definition GuaranteeLetterDataV2 where
  "GuaranteeLetterDataV2 ie c marshal inp = inst_post ie c ''/api/v2/order/data/for/guarantee/letter'' marshal inp 200"

definition CreateQRCart :: "('w, unit) inst_env \<Rightarrow> 'w inst_client \<Rightarrow> ('r \<Rightarrow> string) \<Rightarrow> ('r \<Rightarrow> string + string) \<Rightarrow> 'r option \<Rightarrow>
    (unit, 'w) inst_call" where
  \<comment> \<open>the third argument is the field \<open>QRID\<close> of the request\<close>
  "CreateQRCart ie c qrID marshal inp w =
     (case inp of
        None \<Rightarrow> (Inl InstNilRequest, w)
      | Some r \<Rightarrow> if qrID r = [] then (Inl ErrEmptyQRID, w) else doJSON ie c ''/api/v1/qr/cart'' (marshal r) False 201 w)"

definition CancelQRCart :: "('w, unit) inst_env \<Rightarrow> 'w inst_client \<Rightarrow> (string \<Rightarrow> string + string) \<Rightarrow> string \<Rightarrow>
    (unit, 'w) inst_call" where
  "CancelQRCart ie c marshal qrID w =
     (if qrID = [] then (Inl ErrEmptyQRID, w) else doJSON ie c ''/api/v1/qr/cart/cancel'' (marshal qrID) False 200 w)"

definition DailyReport :: "('w, 'v) inst_env \<Rightarrow> 'w inst_client \<Rightarrow> ('v \<Rightarrow> 'o list) \<Rightarrow> (string \<Rightarrow> string + string) \<Rightarrow> string \<Rightarrow>
    ('o list, 'w) inst_call" where
  \<comment> \<open>the third argument is the field \<open>Orders\<close> of the response\<close>
  "DailyReport ie c Orders marshal date w =
     (if date = [] then (Inl ErrEmptyDate, w)
      else case doJSON ie c ''/api/store/report'' (marshal date) True 200 w of
          (Inl e, w1) \<Rightarrow> (Inl e, w1)
        | (Inr out1, w1) \<Rightarrow> (Inr (Orders out1), w1))"

definition ValidateClientLegacy :: "('w, 'v) inst_env \<Rightarrow> 'w inst_client \<Rightarrow> (string \<Rightarrow> string + string) \<Rightarrow> string \<Rightarrow>
    ('v, 'w) inst_call" where
  "ValidateClientLegacy ie c marshal phone w =
     (case validatePhone phone of
        Some e \<Rightarrow> (Inl (PhoneError e), w)
      | None \<Rightarrow> doJSON ie c ''/api/client/validate'' (marshal phone) True 200 w)"

definition ValidateClient :: "('w, bool) inst_env \<Rightarrow> 'w inst_client \<Rightarrow> (string \<Rightarrow> string + string) \<Rightarrow> string \<Rightarrow>
    (bool, 'w) inst_call" where
  \<comment> \<open>the response is its one field \<open>Found\<close>\<close>
  "ValidateClient ie c marshal phone w =
     (case validatePhone phone of
        Some e \<Rightarrow> (Inl (PhoneError e), w)
      | None \<Rightarrow> doJSON ie c ''/api/v2/client/validate'' (marshal phone) True 200 w)"

section \<open>What goes over the wire\<close>

definition inst_observed :: "'w inst_client \<Rightarrow> ('w \<Rightarrow> (http_request \<times> (string + http_response)) list) \<Rightarrow> bool" where
  "inst_observed c sent \<longleftrightarrow> (\<forall>h req w. ih c = Some h \<longrightarrow> sent (snd (h req w)) = sent w @ [(req, fst (h req w))])"

definition hmac_sha256 :: "(string \<Rightarrow> string \<Rightarrow> string) \<Rightarrow> bool" where
  \<comment> \<open>documented of HMAC-SHA256: 32 bytes\<close>
  "hmac_sha256 mac \<longleftrightarrow> (\<forall>k b. length (mac k b) = 32)"

lemma length_Inst_Sign: "hmac_sha256 mac \<Longrightarrow> length (Inst_Sign mac c body) = 44"
  by (simp add: Inst_Sign_def length_b64_encode hmac_sha256_def)

definition signed_call :: "('w, 'v) inst_env \<Rightarrow> 'w inst_client \<Rightarrow> string \<Rightarrow> string + string \<Rightarrow> http_request \<Rightarrow> bool" where
  "signed_call ie c path marshalled R \<longleftrightarrow> (\<exists>body. marshalled = Inr body \<and> rBody R = sent_body (Some body) \<and>
     url_Parse (web ie) (iBaseURL c @ path) = Some (rURL R) \<and> rMethod R = ''POST'' \<and>
     rHeader R ''Store-Id'' = storeID c \<and> VerifyCallback (hmac ie) c body (rHeader R ''Signature'') = None)"

lemma signed_post_sends:
  assumes "inst_observed c sent" and "hmac_sha256 (hmac ie)"
    and d: "signed_post ie c path accept marshalled limit w = (res, w')"
  shows "(sent w' = sent w \<and> (\<exists>e. res = Inl e)) \<or> (\<exists>R r. sent w' = sent w @ [(R, r)] \<and> signed_call ie c path marshalled R \<and>
    (\<forall>resp b. res = Inr (resp, b) \<longrightarrow> r = Inr resp \<and> b = take limit (respBody resp)))"
proof (cases "\<exists>body req h. marshalled = Inr body \<and> NewRequest (web ie) ''POST'' (iBaseURL c @ path) (Some body) = Some req \<and> ih c = Some h")
  case False
  then have "w' = w \<and> (\<exists>e. res = Inl e)"
    using d by (auto simp: signed_post_def Let_def split: sum.splits option.splits)
  then show ?thesis by blast
next
  case True
  then obtain body req h where b: "marshalled = Inr body" "NewRequest (web ie) ''POST'' (iBaseURL c @ path) (Some body) = Some req" "ih c = Some h"
    by blast
  define R where "R = set_headers [(''Content-Type'', ''application/json''), (''Accept'', accept),
    (''Store-Id'', storeID c), (''Signature'', Inst_Sign (hmac ie) c body)] req"
  obtain r w1 where r: "h R w = (r, w1)" by fastforce
  have "sent w1 = sent w @ [(R, r)]" using assms(1) b(3) r unfolding inst_observed_def by (metis fst_conv snd_conv)
  moreover have "w' = w1" and "res = Inr (resp, b') \<Longrightarrow> r = Inr resp \<and> b' = take limit (respBody resp)" for resp b'
    using d b r by (auto simp: signed_post_def R_def Let_def read_limited_def split: sum.splits option.splits if_splits)
  moreover have "signed_call ie c path marshalled R"
    using b length_Inst_Sign [OF assms(2), of c body]
    by (auto simp: signed_call_def R_def NewRequest_def sent_body_def set_headers_def VerifyCallback_def split: option.splits)
  ultimately show ?thesis by blast
qed

lemma doPDF_sends:
  assumes "inst_observed c sent" and "hmac_sha256 (hmac ie)" and d: "doPDF ie c path marshalled w = (res, w')"
  shows "(sent w' = sent w \<and> (\<exists>e. res = Inl e)) \<or> (\<exists>R r. sent w' = sent w @ [(R, r)] \<and> signed_call ie c path marshalled R \<and>
    (\<forall>b. res = Inr b \<longrightarrow> (\<exists>resp. r = Inr resp \<and> StatusCode resp = 200 \<and> b = take MaxPDFResponseBytes (respBody resp))))"
proof -
  obtain x w1 where x: "signed_post ie c path ''application/pdf'' marshalled MaxPDFResponseBytes w = (x, w1)" by fastforce
  have "w' = w1" and "\<And>e. x = Inl e \<Longrightarrow> res = Inl e"
    and "\<And>b. res = Inr b \<Longrightarrow> \<exists>resp. x = Inr (resp, b) \<and> StatusCode resp = 200"
    using d x by (auto simp: doPDF_def split: sum.splits prod.splits if_splits)
  with signed_post_sends [OF assms(1,2) x] show ?thesis by (metis Inr_not_Inl)
qed

text \<open>A signature is bound to its body as far as the HMAC is.\<close>

lemma VerifyCallback_iff:
  "hmac_sha256 mac \<Longrightarrow> VerifyCallback mac c body h = None \<longleftrightarrow> h = Inst_Sign mac c body"
  using length_Inst_Sign [of mac c body] by (auto simp: VerifyCallback_def)

lemma VerifyCallback_other_body:
  "hmac_sha256 mac \<Longrightarrow> VerifyCallback mac c body' (Inst_Sign mac c body) = None \<longleftrightarrow> mac (isecret c) body' = mac (isecret c) body"
  by (auto simp: VerifyCallback_iff) (auto simp: Inst_Sign_def b64_encode_inj)

lemma installment_New_secure:
  "installment_New env stdDo sid secret opts = Inr c \<Longrightarrow> \<not> inst_isInsecureBaseURL env (iBaseURL c) \<or> iAllowInsecure c"
  by (auto simp: installment_New_def Let_def split: if_splits)

lemma inst_isInsecureBaseURL_eq: "inst_isInsecureBaseURL env u = isInsecureBaseURL env u"
  by (auto simp: inst_isInsecureBaseURL_def isInsecureBaseURL_def secure_url_def split: option.split)

text \<open>A PDF over the limit comes back cut off, without an error.\<close>

lemma doPDF_truncates:
  assumes "signed_post ie c path ''application/pdf'' (Inr b) n w = (Inr (resp, take n (respBody resp)), w1)"
    and "n = MaxPDFResponseBytes" and "StatusCode resp = 200" and "MaxPDFResponseBytes < length (respBody resp)"
  shows "\<exists>pdf. doPDF ie c path (Inr b) w = (Inr pdf, w1) \<and> pdf \<noteq> respBody resp"
proof -
  have "length (take n (respBody resp)) < length (respBody resp)" using assms(2,4) by simp
  then have "take n (respBody resp) \<noteq> respBody resp" by (metis less_irrefl)
  then show ?thesis using assms by (simp add: doPDF_def)
qed

text \<open>The error body is decoded over the whole struct: a field \<open>StatusCode\<close> in it replaces the status.\<close>

lemma decodeAPIError_status_from_body:
  assumes "unmarshalErr ie body \<lparr>iStatusCode = StatusCode resp, iMessage = [], iTraceID = respHeader resp ''Trace-Id''\<rparr> = e"
    and "iStatusCode e = s"
  shows "iStatusCode (decodeAPIError ie resp body) = s"
  using assms by (simp add: decodeAPIError_def Let_def)

section \<open>Properties\<close>

text \<open>
  An installment call is sent once, signed, and succeeds only on the expected status. Whatever the server answers,
  \<open>CreateOrder\<close> causes at most one exchange: a POST of the marshalled order to the endpoint below the
  configured base URL, with the store id and a signature header that \<open>VerifyCallback\<close> accepts for exactly
  that body. A result is only returned for status 201, and it was decoded from the response body.
\<close>

theorem CreateOrder_one_signed_request:
  assumes "inst_observed c sent" and "hmac_sha256 (hmac ie)" and "CreateOrder ie c marshal inp w = (res, w')"
  shows "(sent w' = sent w \<and> (\<exists>e. res = Inl e)) \<or>
    (\<exists>R r order body. sent w' = sent w @ [(R, r)] \<and> inp = Some order \<and> marshal order = Inr body \<and>
       rMethod R = ''POST'' \<and> rBody R = sent_body (Some body) \<and>
       url_Parse (web ie) (iBaseURL c @ ''/api/order/create'') = Some (rURL R) \<and>
       rHeader R ''Store-Id'' = storeID c \<and> VerifyCallback (hmac ie) c body (rHeader R ''Signature'') = None \<and>
       (\<forall>v. res = Inr v \<longrightarrow> (\<exists>resp. r = Inr resp \<and> StatusCode resp = 201 \<and>
          (respBody resp = [] \<and> v = zeroOut ie \<or> unmarshalOut ie (take MaxJSONResponseBytes (respBody resp)) = Inr v))))"
proof (cases inp)
  case None
  with assms(3) show ?thesis by (auto simp: CreateOrder_def inst_post_def)
next
  case (Some order)
  with assms(3) have d: "doJSON ie c ''/api/order/create'' (marshal order) True 201 w = (res, w')"
    by (simp add: CreateOrder_def inst_post_def)
  obtain x w1 where x: "signed_post ie c ''/api/order/create'' ''application/json'' (marshal order) MaxJSONResponseBytes w = (x, w1)"
    by fastforce
  have w: "w' = w1" and l: "\<And>e. x = Inl e \<Longrightarrow> res = Inl e"
    and r: "\<And>v. res = Inr v \<Longrightarrow> \<exists>resp b. x = Inr (resp, b) \<and> StatusCode resp = 201 \<and>
      (b = [] \<and> v = zeroOut ie \<or> unmarshalOut ie b = Inr v)"
    using d x by (auto simp: doJSON_def split: sum.splits prod.splits if_splits)
  have empty: "take MaxJSONResponseBytes s = [] \<longleftrightarrow> s = []" for s :: string by (simp add: MaxJSONResponseBytes_def)
  from signed_post_sends [OF assms(1,2) x] show ?thesis
  proof (elim disjE exE conjE)
    fix R rr
    assume s: "sent w1 = sent w @ [(R, rr)]" "signed_call ie c ''/api/order/create'' (marshal order) R"
      "\<forall>resp b. x = Inr (resp, b) \<longrightarrow> rr = Inr resp \<and> b = take MaxJSONResponseBytes (respBody resp)"
    have "\<forall>v. res = Inr v \<longrightarrow> (\<exists>resp. rr = Inr resp \<and> StatusCode resp = 201 \<and>
      (respBody resp = [] \<and> v = zeroOut ie \<or> unmarshalOut ie (take MaxJSONResponseBytes (respBody resp)) = Inr v))"
      using r s(3) empty by metis
    with s(1,2) w Some show ?thesis unfolding signed_call_def by blast
  qed (use w l in blast)
qed

definition demo_inst_env :: "((http_request \<times> (string + http_response)) list, unit) inst_env" where
  "demo_inst_env = \<lparr>web = demo_env, hmac = (\<lambda>k b. take 32 (k @ b) @ replicate (32 - length (k @ b)) (CHR ''.'')), unmarshalOut = (\<lambda>_. Inr ()),
     zeroOut = (), unmarshalErr = (\<lambda>_ e. e)\<rparr>"

definition demo_inst_client :: "(http_request \<times> (string + http_response)) list inst_client" where
  "demo_inst_client = \<lparr>ih = Some (\<lambda>req w. let r = Inr \<lparr>StatusCode = 201, respHeader = (\<lambda>_. []), ContentLength = 2,
       respBody = ''{}'', respBodyErr = False\<rparr> in (r, w @ [(req, r)])),
     iBaseURL = BaseURLProduction, storeID = ''shop'', isecret = ''s'', iAllowInsecure = False\<rparr>"

theorem CreateOrder_one_signed_request_witness:
  "\<exists>R r. CreateOrder demo_inst_env demo_inst_client Inr (Some ''{}'') [] = (Inr (), [(R, r)]) \<and>
    VerifyCallback (hmac demo_inst_env) demo_inst_client ''{}'' (rHeader R ''Signature'') = None"
proof -
  have o: "inst_observed demo_inst_client (\<lambda>w. w)" by (simp add: inst_observed_def demo_inst_client_def Let_def)
  have h: "hmac_sha256 (hmac demo_inst_env)" by (auto simp: hmac_sha256_def demo_inst_env_def min_def)
  obtain R r where d: "CreateOrder demo_inst_env demo_inst_client Inr (Some ''{}'') [] = (Inr (), [(R, r)])"
    by (simp add: CreateOrder_def inst_post_def doJSON_def signed_post_def demo_inst_env_def demo_inst_client_def demo_env_def
        NewRequest_def read_limited_def MaxJSONResponseBytes_def Let_def)
  from CreateOrder_one_signed_request [OF o h d] d show ?thesis by auto
qed

end
