(* ===== verification/Go_Float.thy ===== *)
theory Go_Float
  imports Go_Prelude Complex_Main
begin

text \<open>
  \<open>float64\<close>: binary64 with round-to-nearest-even, over rationals.

  A finite value is the rational it stands for; \<open>fl\<close> rounds to the nearest such value, with the smallest exponent
  of subnormal numbers, and \<open>to_f64\<close> adds the overflow to infinity. The sign of zero is not kept.
  Converting a value outside int64 is up to the platform and is a parameter of \<open>int64_of\<close>.
\<close>

section \<open>Rounding\<close>

definition round_even :: "rat \<Rightarrow> int" where
  "round_even x =
     (let f = \<lfloor>x\<rfloor>; d = x - of_int f
      in if d < 1 / 2 then f else if 1 / 2 < d then f + 1 else if even f then f else f + 1)"

function blen :: "int \<Rightarrow> int" where
  \<comment> \<open>the length in bits\<close>
  "blen n = (if n \<le> 0 then 0 else 1 + blen (n div 2))"
  by pat_completeness auto
termination by (relation "measure nat") auto

declare blen.simps [simp del]

definition expo :: "rat \<Rightarrow> int" where
  \<comment> \<open>the exponent of a positive value\<close>
  "expo x =
     (let (p, q) = quotient_of x; k = blen p - blen q
      in if 2 powi k \<le> x then k else k - 1)"

definition ulp_exp :: "rat \<Rightarrow> int" where
  "ulp_exp x = max (expo \<bar>x\<bar> - 52) (- 1074)"

definition fl :: "rat \<Rightarrow> rat" where
  "fl x = (if x = 0 then 0 else of_int (round_even (x / 2 powi ulp_exp x)) * 2 powi ulp_exp x)"

lemma powi_less_iff [simp]: "(2::rat) powi a < 2 powi b \<longleftrightarrow> a < b"
proof (cases "a < b")
  case False
  then have "(2::rat) powi b \<le> 2 powi a" by (intro power_int_increasing) auto
  with False show ?thesis by simp
qed (simp add: power_int_strict_increasing)

lemma powi_le_iff [simp]: "(2::rat) powi a \<le> 2 powi b \<longleftrightarrow> a \<le> b"
  using powi_less_iff [of b a] by linarith

lemma powi_add: "(2::rat) powi (a + b) = 2 powi a * 2 powi b"
  by (simp add: power_int_add)

lemma blen_bounds: "0 < n \<Longrightarrow> (2::rat) powi blen n \<le> 2 * of_int n \<and> of_int n < (2::rat) powi blen n"
proof (induction n rule: blen.induct)
  case (1 n)
  show ?case
  proof (cases "n = 1")
    case True
    then show ?thesis by (simp add: blen.simps)
  next
    case False
    with 1 have ih: "(2::rat) powi blen (n div 2) \<le> 2 * of_int (n div 2)" "of_int (n div 2) < (2::rat) powi blen (n div 2)" by auto
    have "blen n = blen (n div 2) + 1" using 1(2) by (subst blen.simps) simp
    then have p: "(2::rat) powi blen n = 2 powi blen (n div 2) * 2" by (simp add: power_int_add)
    have nn: "0 \<le> blen k" for k by (induction k rule: blen.induct) (subst blen.simps, auto)
    have i: "(2::rat) powi blen (n div 2) = of_int (2 ^ nat (blen (n div 2)))" using nn by (simp add: power_int_def)
    from ih(2) have "n div 2 < 2 ^ nat (blen (n div 2))" unfolding i by (simp only: of_int_less_iff)
    then have "n < 2 ^ nat (blen (n div 2)) * 2" by linarith
    then have "of_int n < (2::rat) powi blen (n div 2) * 2" unfolding i by (metis of_int_less_iff of_int_mult of_int_numeral)
    moreover have "2 * (of_int (n div 2) :: rat) \<le> of_int n"
    proof -
      have "2 * (n div 2) \<le> n" by linarith
      then show ?thesis by (metis of_int_le_iff of_int_mult of_int_numeral)
    qed
    ultimately show ?thesis using ih(1) p by linarith
  qed
qed

lemma expo_bounds:
  assumes "0 < x"
  shows "2 powi expo x \<le> x" and "x < 2 powi (expo x + 1)"
proof -
  obtain p q where pq: "quotient_of x = (p, q)" by fastforce
  have q: "0 < q" using quotient_of_denom_pos [OF pq] .
  have x: "x = of_int p / of_int q" by (rule quotient_of_div [OF pq])
  with assms q have p: "0 < p" by (simp add: zero_less_divide_iff)
  define k where "k = blen p - blen q"
  let ?A = "2 powi blen p :: rat" and ?B = "2 powi blen q :: rat"
  have bp: "?A \<le> 2 * of_int p" "of_int p < ?A" and bq: "?B \<le> 2 * of_int q" "of_int q < ?B"
    using blen_bounds [OF p] blen_bounds [OF q] by auto
  have pk: "(2::rat) powi k = ?A / ?B" by (simp add: k_def power_int_diff)
  have qq: "(0::rat) < of_int q" using q by simp
  have BB: "0 < ?B" by simp
  have "x < 2 * 2 powi k"
  proof -
    have "of_int p * ?B < ?A * (2 * of_int q)"
      using bp(2) bq(1) qq p by (intro mult_less_le_imp_less) auto
    then show ?thesis unfolding x pk using qq BB by (simp add: field_simps)
  qed
  moreover have "2 powi k < 2 * x"
  proof -
    have "?A * of_int q < (2 * of_int p) * ?B"
      using bp(1) bq(2) qq p by (intro mult_le_less_imp_less) auto
    then show ?thesis unfolding x pk using qq BB by (simp add: field_simps)
  qed
  moreover have "expo x = (if 2 powi k \<le> x then k else k - 1)" by (simp add: expo_def pq k_def)
  ultimately show "2 powi expo x \<le> x" "x < 2 powi (expo x + 1)"
    by (auto simp: power_int_add power_int_diff)
qed

lemma expo_unique:
  assumes "2 powi k \<le> x" and "x < 2 powi (k + 1)"
  shows "expo x = k"
proof -
  have x: "0 < x" using assms(1) by (metis less_le_trans zero_less_power_int zero_less_numeral)
  have "(2::rat) powi k < 2 powi (expo x + 1)" "(2::rat) powi expo x < 2 powi (k + 1)"
    using expo_bounds [OF x] assms by (metis le_less_trans)+
  then show ?thesis by simp
qed

lemma round_even_near: "\<bar>of_int (round_even x) - x\<bar> \<le> 1 / 2"
proof -
  have "of_int \<lfloor>x\<rfloor> \<le> x" "x < of_int \<lfloor>x\<rfloor> + 1" by linarith+
  then show ?thesis unfolding round_even_def Let_def abs_le_iff by (auto simp del: of_int_floor_le; linarith)
qed

lemma round_even_int [simp]: "round_even (of_int n) = n"
  by (simp add: round_even_def)

lemma round_even_mono: "x \<le> y \<Longrightarrow> round_even x \<le> round_even y"
proof -
  assume xy: "x \<le> y"
  have f: "\<lfloor>x\<rfloor> \<le> \<lfloor>y\<rfloor>" using xy by (rule floor_mono)
  show ?thesis
  proof (cases "\<lfloor>x\<rfloor> = \<lfloor>y\<rfloor>")
    case True
    with xy show ?thesis by (auto simp: round_even_def Let_def)
  next
    case False
    with f show ?thesis by (auto simp: round_even_def Let_def)
  qed
qed

lemma fl_0 [simp]: "fl 0 = 0" by (simp add: fl_def)

lemma fl_error: "\<bar>fl x - x\<bar> \<le> 2 powi ulp_exp x / 2"
proof (cases "x = 0")
  case False
  let ?u = "2 powi ulp_exp x :: rat"
  have "fl x - x = (of_int (round_even (x / ?u)) - x / ?u) * ?u" using False by (simp add: fl_def field_simps)
  then have "\<bar>fl x - x\<bar> = \<bar>of_int (round_even (x / ?u)) - x / ?u\<bar> * ?u" by (simp add: abs_mult)
  also have "\<dots> \<le> 1 / 2 * ?u" by (intro mult_right_mono round_even_near) simp
  finally show ?thesis by simp
qed simp

lemma fl_rel_error:
  assumes "2 powi (- 1022) \<le> \<bar>x\<bar>"
  shows "\<bar>fl x - x\<bar> \<le> \<bar>x\<bar> / 2 ^ 53"
proof -
  have p: "0 < \<bar>x\<bar>" using assms by (metis less_le_trans zero_less_power_int zero_less_numeral)
  note b = expo_bounds [OF p]
  have "(2::rat) powi (- 1022) < 2 powi (expo \<bar>x\<bar> + 1)" using assms b(2) by (rule le_less_trans)
  then have "- 1022 < expo \<bar>x\<bar> + 1" by (simp only: powi_less_iff)
  then have "ulp_exp x = expo \<bar>x\<bar> - 52" by (simp add: ulp_exp_def)
  then have "2 powi ulp_exp x = 2 powi expo \<bar>x\<bar> / (2 ^ 52 :: rat)" by (simp add: power_int_diff)
  with fl_error [of x] b(1) show ?thesis by simp
qed

lemma fl_exact:
  assumes x: "x = of_int m * 2 powi k" and m: "\<bar>m\<bar> \<le> 2 ^ 53" and k: "- 1074 \<le> k"
  shows "fl x = x"
proof (cases "x = 0")
  case False
  have int: "fl x = x" if "x / 2 powi ulp_exp x = of_int n" for n
  proof -
    have "x = of_int n * 2 powi ulp_exp x" using that by (simp add: field_simps)
    then show ?thesis using False that by (simp add: fl_def)
  qed
  show ?thesis
  proof (cases "ulp_exp x \<le> k")
    case True
    have "x / 2 powi ulp_exp x = of_int m * 2 powi (k - ulp_exp x)" by (subst x) (simp add: power_int_diff)
    also have "2 powi (k - ulp_exp x) = (of_int (2 ^ nat (k - ulp_exp x)) :: rat)" using True by (simp add: power_int_def)
    finally show ?thesis using int [of "m * 2 ^ nat (k - ulp_exp x)"] by simp
  next
    case lt: False
    then have u: "ulp_exp x = expo \<bar>x\<bar> - 52" using k by (auto simp: ulp_exp_def)
    have p: "0 < \<bar>x\<bar>" using False by simp
    have "\<bar>x\<bar> \<le> 2 ^ 53 * 2 powi k"
    proof -
      have "\<bar>of_int m :: rat\<bar> \<le> 2 ^ 53" using m by (metis of_int_abs of_int_le_iff of_int_numeral of_int_power)
      then show ?thesis by (simp add: x abs_mult)
    qed
    also have "\<dots> = 2 powi (k + 53)" by (simp add: powi_add)
    finally have le: "\<bar>x\<bar> \<le> 2 powi (k + 53)" .
    have "(2::rat) powi expo \<bar>x\<bar> \<le> 2 powi (k + 53)" using expo_bounds(1) [OF p] le by (rule order_trans)
    then have "expo \<bar>x\<bar> \<le> k + 53" by simp
    with lt u have e: "expo \<bar>x\<bar> = k + 53" by linarith
    with expo_bounds(1) [OF p] le have "\<bar>x\<bar> = 2 powi (k + 53)" by simp
    then have "x = 2 powi (k + 53) \<or> x = - (2 powi (k + 53))" by (auto simp: abs_if split: if_splits)
    moreover have "2 powi (k + 53) / 2 powi ulp_exp x = (2 ^ 52 :: rat)" unfolding u e by (simp add: power_int_diff [symmetric])
    ultimately have "x / 2 powi ulp_exp x = of_int (2 ^ 52) \<or> x / 2 powi ulp_exp x = of_int (- (2 ^ 52))" by auto
    then show ?thesis using int by blast
  qed
qed simp

lemma fl_eval:
  assumes "2 powi k \<le> \<bar>x\<bar>" and "\<bar>x\<bar> < 2 powi (k + 1)" and "- 1022 \<le> k"
  shows "fl x = of_int (round_even (x / 2 powi (k - 52))) * 2 powi (k - 52)"
proof -
  have "expo \<bar>x\<bar> = k" by (rule expo_unique) fact+
  with assms(3) have u: "ulp_exp x = k - 52" by (simp add: ulp_exp_def)
  have "0 < \<bar>x\<bar>" using assms(1) by (metis less_le_trans zero_less_power_int zero_less_numeral)
  then have "x \<noteq> 0" by simp
  with u show ?thesis by (simp add: fl_def)
qed

lemma fl_int: "\<bar>n\<bar> \<le> 2 ^ 53 \<Longrightarrow> fl (of_int n) = of_int n"
  by (rule fl_exact [of _ n 0]) simp_all

definition tiny :: rat where
  "tiny = 2 powi (- 1075)"

lemma tiny_bounds: "0 < tiny" "tiny \<le> 1 / 2 ^ 60"
proof -
  show "0 < tiny" unfolding tiny_def by (intro zero_less_power_int) simp
  have "tiny \<le> 2 powi (- 60)" unfolding tiny_def by (simp only: powi_le_iff)
  then show "tiny \<le> 1 / 2 ^ 60" by (simp add: power_int_def power_one_over)
qed

lemma fl_abs_error: "\<bar>fl x - x\<bar> \<le> \<bar>x\<bar> / 2 ^ 53 + tiny"
proof (cases "ulp_exp x = - 1074 \<or> x = 0")
  case True
  have "(2::rat) powi (- 1074) = tiny * 2" unfolding tiny_def using powi_add [of "- 1075" 1] by (simp only: power_int_1_right) simp
  then have t: "(2::rat) powi (- 1074) / 2 = tiny" by simp
  have "\<bar>fl x - x\<bar> \<le> tiny"
  proof (cases "x = 0")
    case True
    with tiny_bounds(1) show ?thesis by simp
  next
    case False
    with True have "ulp_exp x = - 1074" by simp
    with fl_error [of x] t show ?thesis by metis
  qed
  moreover have "0 \<le> \<bar>x\<bar> / 2 ^ 53" by simp
  ultimately show ?thesis by linarith
next
  case False
  then have "\<bar>fl x - x\<bar> \<le> \<bar>x\<bar> / 2 ^ 53"
  proof -
    have p: "0 < \<bar>x\<bar>" using False by simp
    have "ulp_exp x = expo \<bar>x\<bar> - 52" using False by (auto simp: ulp_exp_def)
    then have "2 powi ulp_exp x = 2 powi expo \<bar>x\<bar> / (2 ^ 52 :: rat)" by (simp add: power_int_diff)
    with fl_error [of x] expo_bounds(1) [OF p] show ?thesis by simp
  qed
  then show ?thesis using tiny_bounds(1) by linarith
qed

lemma fl_nonneg: "0 \<le> x \<Longrightarrow> 0 \<le> fl x"
  using round_even_mono [of 0 "x / 2 powi ulp_exp x"] round_even_int [of 0] by (simp add: fl_def)

lemma fl_nonpos: "x \<le> 0 \<Longrightarrow> fl x \<le> 0"
  using round_even_mono [of "x / 2 powi ulp_exp x" 0] round_even_int [of 0]
  by (simp add: fl_def mult_nonpos_nonneg divide_nonpos_nonneg)

section \<open>Values and operations\<close>

datatype f64 = Fin rat | Inf bool   \<comment> \<open>whether negative\<close> | NaN

definition to_f64 :: "rat \<Rightarrow> f64" where
  "to_f64 x = (let r = fl x in if \<bar>r\<bar> < 2 ^ 1024 then Fin r else Inf (r < 0))"

definition f_of_int :: "int \<Rightarrow> f64" where
  "f_of_int n = to_f64 (of_int n)"

fun f_neg :: "f64 \<Rightarrow> f64" where
  "f_neg (Fin a) = Fin (- a)"
| "f_neg (Inf s) = Inf (\<not> s)"
| "f_neg NaN = NaN"

fun f_add :: "f64 \<Rightarrow> f64 \<Rightarrow> f64" where
  "f_add (Fin a) (Fin b) = to_f64 (a + b)"
| "f_add (Inf s) (Fin _) = Inf s"
| "f_add (Fin _) (Inf s) = Inf s"
| "f_add (Inf s) (Inf t) = (if s = t then Inf s else NaN)"
| "f_add _ _ = NaN"

definition f_sub :: "f64 \<Rightarrow> f64 \<Rightarrow> f64" where
  "f_sub x y = f_add x (f_neg y)"

fun f_mult :: "f64 \<Rightarrow> f64 \<Rightarrow> f64" where
  "f_mult (Fin a) (Fin b) = to_f64 (a * b)"
| "f_mult (Inf s) (Fin b) = (if b = 0 then NaN else Inf (s \<noteq> (b < 0)))"
| "f_mult (Fin a) (Inf t) = (if a = 0 then NaN else Inf ((a < 0) \<noteq> t))"
| "f_mult (Inf s) (Inf t) = Inf (s \<noteq> t)"
| "f_mult _ _ = NaN"

fun f_div :: "f64 \<Rightarrow> f64 \<Rightarrow> f64" where
  "f_div (Fin a) (Fin b) = (if b = 0 then (if a = 0 then NaN else Inf (a < 0)) else to_f64 (a / b))"
| "f_div (Inf s) (Fin b) = Inf (s \<noteq> (b < 0))"
| "f_div (Fin a) (Inf t) = Fin 0"
| "f_div _ _ = NaN"

fun f_le :: "f64 \<Rightarrow> f64 \<Rightarrow> bool" where
  "f_le (Fin a) (Fin b) = (a \<le> b)"
| "f_le (Inf s) (Inf t) = (s \<or> \<not> t)"
| "f_le (Inf s) (Fin _) = s"
| "f_le (Fin _) (Inf t) = (\<not> t)"
| "f_le _ _ = False"

fun f_less :: "f64 \<Rightarrow> f64 \<Rightarrow> bool" where
  "f_less (Fin a) (Fin b) = (a < b)"
| "f_less (Inf s) (Inf t) = (s \<and> \<not> t)"
| "f_less (Inf s) (Fin _) = s"
| "f_less (Fin _) (Inf t) = (\<not> t)"
| "f_less _ _ = False"

definition trunc :: "rat \<Rightarrow> int" where
  "trunc a = (if 0 \<le> a then \<lfloor>a\<rfloor> else \<lceil>a\<rceil>)"

fun int64_of :: "(f64 \<Rightarrow> int) \<Rightarrow> f64 \<Rightarrow> int" where
  \<comment> \<open>\<open>int64(x)\<close>; the first argument is what the platform does outside the range\<close>
  "int64_of oor (Fin a) = (if in_int64 (trunc a) then trunc a else oor (Fin a))"
| "int64_of oor x = oor x"

lemma to_f64_fl: "\<bar>x\<bar> \<le> 2 ^ 1000 \<Longrightarrow> to_f64 x = Fin (fl x)"
proof -
  assume x: "\<bar>x\<bar> \<le> 2 ^ 1000"
  have t: "tiny \<le> 1" using tiny_bounds(2) by (rule order_trans) simp
  have "\<bar>fl x\<bar> \<le> \<bar>x\<bar> + \<bar>fl x - x\<bar>" by linarith
  also have "\<dots> \<le> 2 ^ 1000 + (2 ^ 1000 / 2 ^ 53 + 1)" using fl_abs_error [of x] x t by (intro add_mono) (auto intro: order_trans)
  also have "\<dots> < 2 ^ 1024" by simp
  finally show ?thesis by (simp add: to_f64_def Let_def)
qed

lemma f_of_int_exact: "\<bar>n\<bar> \<le> 2 ^ 53 \<Longrightarrow> f_of_int n = Fin (of_int n)"
proof -
  assume n: "\<bar>n\<bar> \<le> 2 ^ 53"
  then have "\<bar>of_int n :: rat\<bar> \<le> of_int (2 ^ 53)" by (metis of_int_abs of_int_le_iff)
  then have "\<bar>of_int n :: rat\<bar> \<le> 2 ^ 1000" by (rule order_trans) simp
  with fl_int [OF n] show ?thesis by (simp add: f_of_int_def to_f64_fl)
qed

end
