(* ===== verification/Money_Float.thy ===== *)
theory Money_Float
  imports Money Installment_Money Go_Float
begin

text \<open>
  The amounts that pass through \<open>float64\<close>: \<open>FromMajor\<close>, \<open>UAH\<close>, \<open>Scale\<close> and \<open>Major\<close> of \<open>money/money.go\<close>, their
  counterparts in \<open>installment/money.go\<close>, \<open>Rates.Convert\<close> (\<open>bank/currency.go\<close>) and the balances of
  \<open>business/types.go\<close>. \<open>oor\<close> is the platform's conversion of a float outside int64.
\<close>

section \<open>Definitions\<close>

definition Pow10 :: "nat \<Rightarrow> f64" where
  \<comment> \<open>\<open>math.Pow10\<close>, exact for the decimals of a currency\<close>
  "Pow10 d = to_f64 (10 ^ d)"

definition half_away :: "(f64 \<Rightarrow> int) \<Rightarrow> f64 \<Rightarrow> int" where
  \<comment> \<open>the rounding of \<open>FromMajor\<close>, \<open>Scale\<close> and others\<close>
  "half_away oor r =
     (if f_le (Fin 0) r then int64_of oor (f_add r (Fin (1 / 2))) else int64_of oor (f_sub r (Fin (1 / 2))))"

definition FromMajor :: "(f64 \<Rightarrow> int) \<Rightarrow> f64 \<Rightarrow> currency_code \<Rightarrow> money" where
  "FromMajor oor major code = \<lparr>Minor = half_away oor (f_mult major (Pow10 (Decimals code))), Code = code\<rparr>"

definition Money_UAH :: "(f64 \<Rightarrow> int) \<Rightarrow> f64 \<Rightarrow> money" where
  "Money_UAH oor major = FromMajor oor major 980"

definition Scale :: "(f64 \<Rightarrow> int) \<Rightarrow> money \<Rightarrow> f64 \<Rightarrow> money" where
  "Scale oor m factor = \<lparr>Minor = half_away oor (f_mult (f_of_int (Minor m)) factor), Code = Code m\<rparr>"

definition Major :: "money \<Rightarrow> f64" where
  "Major m = (let d = Decimals (Code m)
     in if d = 0 then f_of_int (Minor m) else f_div (f_of_int (Minor m)) (Pow10 d))"

definition pad_zeros :: "nat \<Rightarrow> string \<Rightarrow> string" where
  "pad_zeros n s = replicate (n - length s) (CHR ''0'') @ s"

definition format_fixed :: "nat \<Rightarrow> rat \<Rightarrow> string" where
  \<comment> \<open>\<open>fmt\<close>'s \<open>%.*f\<close> of a finite value: its exact decimal expansion, rounded to nearest, ties to even\<close>
  "format_fixed d a =
     (let s = pad_zeros (d + 1) (nat_digits (nat (round_even (\<bar>a\<bar> * 10 ^ d)))); k = length s - d
      in (if a < 0 then ''-'' else []) @ take k s @ (if d = 0 then [] else ''.'' @ drop k s))"

definition Money_String :: "money \<Rightarrow> string" where
  "Money_String m = (case Major m of Fin a \<Rightarrow> format_fixed (Decimals (Code m)) a @ '' '' @ Code_String (Code m) | _ \<Rightarrow> [])"

definition Money_MarshalJSON :: "money \<Rightarrow> string" where
  "Money_MarshalJSON m = Itoa (Minor m)"

definition Money_UnmarshalJSON :: "(string \<Rightarrow> string + int) \<Rightarrow> string \<Rightarrow> money \<Rightarrow> string + money" where
  \<comment> \<open>the first argument is \<open>json.Unmarshal\<close> into an \<open>int64\<close>\<close>
  "Money_UnmarshalJSON unmarshal data m = (case unmarshal data of Inl e \<Rightarrow> Inl e | Inr n \<Rightarrow> Inr (m\<lparr>Minor := n\<rparr>))"

definition MoneyFromMajor :: "(f64 \<Rightarrow> int) \<Rightarrow> f64 \<Rightarrow> int" where
  \<comment> \<open>in kopecks\<close>
  "MoneyFromMajor oor major =
     (case major of
        Fin _ \<Rightarrow>
          let scaled = f_mult major (Fin 100)
          in if f_le (f_of_int int64_max) scaled then int64_max
             else if f_le scaled (f_of_int int64_min) then int64_min
             else half_away oor scaled
      | _ \<Rightarrow> 0)"

definition Inst_Major :: "int \<Rightarrow> f64" where
  "Inst_Major kop = f_div (f_of_int kop) (Fin 100)"

record rate =
  CurrencyCodeA :: int
  CurrencyCodeB :: int
  RateSell :: f64
  RateBuy :: f64
  RateCross :: f64

fun Convert_loop :: "(f64 \<Rightarrow> int) \<Rightarrow> money \<Rightarrow> currency_code \<Rightarrow> rate list \<Rightarrow> money option" where
  "Convert_loop oor amount to [] = None"
| "Convert_loop oor amount to (r # rs) =
     (if Code amount = CurrencyCodeA r \<and> to = CurrencyCodeB r then
        let rt = (if RateBuy r = Fin 0 then RateCross r else RateBuy r)
        in if rt = Fin 0 then Convert_loop oor amount to rs else Some ((Scale oor amount rt)\<lparr>Code := to\<rparr>)
      else if Code amount = CurrencyCodeB r \<and> to = CurrencyCodeA r then
        let rt = (if RateSell r = Fin 0 then RateCross r else RateSell r)
        in if rt = Fin 0 then Convert_loop oor amount to rs
           else Some ((Scale oor amount (f_div (Fin 1) rt))\<lparr>Code := to\<rparr>)
      else Convert_loop oor amount to rs)"

definition Convert :: "(f64 \<Rightarrow> int) \<Rightarrow> rate list \<Rightarrow> money \<Rightarrow> currency_code \<Rightarrow> money option" where
  \<comment> \<open>\<open>None\<close> is \<open>ErrNoRate\<close>\<close>
  "Convert oor rs amount to = (if Code amount = to then Some amount else Convert_loop oor amount to rs)"

fun f_Round :: "f64 \<Rightarrow> f64" where
  \<comment> \<open>\<open>math.Round\<close>: half away from zero\<close>
  "f_Round (Fin a) = Fin (of_int (if 0 \<le> a then \<lfloor>a + 1 / 2\<rfloor> else \<lceil>a - 1 / 2\<rceil>))"
| "f_Round x = x"

definition balance_money :: "(f64 \<Rightarrow> int) \<Rightarrow> f64 \<Rightarrow> currency_code \<Rightarrow> money" where
  \<comment> \<open>\<open>Account.BalanceMoney\<close> and \<open>BalancePoint.Money\<close>\<close>
  "balance_money oor balance code =
     Money_New (int64_of oor (f_Round (f_mult balance (f_of_int (MinorPerMajor code))))) code"

section \<open>Rounding to minor units\<close>

lemma half_away_near:
  assumes "\<bar>a - of_int k\<bar> \<le> 5 / 16" and k: "\<bar>k\<bar> \<le> 2 ^ 50"
  shows "half_away oor (Fin a) = k"
proof -
  have kq: "\<bar>of_int k :: rat\<bar> \<le> 2 ^ 50" using k by (metis of_int_abs of_int_le_iff of_int_numeral of_int_power)
  have ia: "in_int64 k" using k by (auto simp: in_int64_def int64_min_def int64_max_def)
  show ?thesis
  proof (cases "0 \<le> a")
    case True
    let ?s = "a + 1 / 2"
    have s: "\<bar>?s\<bar> \<le> 2 ^ 50 + 1" using assms(1) kq by linarith
    then have f: "f_add (Fin a) (Fin (1 / 2)) = Fin (fl ?s)" by (simp add: to_f64_fl)
    have "\<bar>fl ?s - ?s\<bar> < 3 / 16" using fl_abs_error [of ?s] s tiny_bounds(2) by simp
    then have "of_int k < fl ?s" "fl ?s < of_int k + 1" using assms(1) by linarith+
    moreover have "0 \<le> fl ?s" using True by (intro fl_nonneg) simp
    ultimately have "trunc (fl ?s) = k" by (simp add: trunc_def floor_eq_iff)
    with True f ia show ?thesis by (simp add: half_away_def)
  next
    case False
    let ?s = "a - 1 / 2"
    have s: "\<bar>?s\<bar> \<le> 2 ^ 50 + 1" using assms(1) kq by linarith
    then have f: "f_sub (Fin a) (Fin (1 / 2)) = Fin (fl ?s)" by (simp add: f_sub_def to_f64_fl)
    have "\<bar>fl ?s - ?s\<bar> < 3 / 16" using fl_abs_error [of ?s] s tiny_bounds(2) by simp
    then have b: "of_int k - 1 < fl ?s" "fl ?s < of_int k" "fl ?s < 0" using assms(1) False by linarith+
    then have "trunc (fl ?s) = k" by (simp add: trunc_def ceiling_eq_iff)
    with False f ia show ?thesis by (simp add: half_away_def)
  qed
qed

lemma Pow10_exact: "d \<le> 3 \<Longrightarrow> Pow10 d = Fin (10 ^ d)"
proof -
  assume "d \<le> 3"
  then have "(10::int) ^ d \<le> 10 ^ 3" by (intro power_increasing) auto
  then have "\<bar>(10::int) ^ d\<bar> \<le> 2 ^ 53" by simp
  from f_of_int_exact [OF this] show ?thesis by (simp add: Pow10_def f_of_int_def)
qed

lemma Decimals_le: "Decimals c \<le> 3"
  by (auto simp: Decimals_def decimals_map_def split: option.split)

lemma scale_near:
  assumes k: "\<bar>k\<bar> \<le> 2 ^ 50" and p: "1 \<le> p" "p \<le> 1000"
  shows "\<bar>fl (of_int k / p) * p - of_int k\<bar> \<le> 1 / 8 + 1 / 2 ^ 50"
proof -
  have kq: "\<bar>of_int k :: rat\<bar> \<le> 2 ^ 50" using k by (metis of_int_abs of_int_le_iff of_int_numeral of_int_power)
  define y where "y = fl (of_int k / p)"
  have kp: "\<bar>of_int k / p\<bar> * p = \<bar>of_int k\<bar>" using p by (simp add: abs_mult abs_divide)
  have "tiny * p \<le> 1 / 2 ^ 60 * 1000" using tiny_bounds p by (intro mult_mono) auto
  then have t: "tiny * p \<le> 1 / 2 ^ 50" by (rule order_trans) simp
  have "(y - of_int k / p) * p = y * p - of_int k" using p by (simp add: left_diff_distrib)
  then have "\<bar>y * p - of_int k\<bar> = \<bar>y - of_int k / p\<bar> * p" using p by (metis abs_mult abs_of_pos less_le_trans zero_less_one)
  also have "\<dots> \<le> (\<bar>of_int k / p\<bar> / 2 ^ 53 + tiny) * p" unfolding y_def using p by (intro mult_right_mono fl_abs_error) auto
  also have "\<dots> = \<bar>of_int k\<bar> / 2 ^ 53 + tiny * p" using kp by (simp add: distrib_right)
  also have "\<dots> \<le> 1 / 8 + 1 / 2 ^ 50" using kq t by simp
  finally show ?thesis by (simp add: y_def)
qed

lemma scale_back:
  assumes k: "\<bar>k\<bar> \<le> 2 ^ 50" and p: "1 \<le> p" "p \<le> 1000"
  shows "\<bar>fl (fl (of_int k / p) * p) - of_int k\<bar> \<le> 5 / 16" and "\<bar>fl (of_int k / p) * p\<bar> \<le> 2 ^ 51"
proof -
  have kq: "\<bar>of_int k :: rat\<bar> \<le> 2 ^ 50" using k by (metis of_int_abs of_int_le_iff of_int_numeral of_int_power)
  define y where "y = fl (of_int k / p)"
  have e1: "\<bar>y * p - of_int k\<bar> \<le> 1 / 8 + 1 / 2 ^ 50" unfolding y_def by (rule scale_near [OF assms])
  moreover have "1 / 8 + 1 / 2 ^ 50 \<le> (1 :: rat)" by simp
  ultimately have yp: "\<bar>y * p\<bar> \<le> 2 ^ 50 + 1" using kq by linarith
  then show "\<bar>fl (of_int k / p) * p\<bar> \<le> 2 ^ 51" unfolding y_def by simp
  have "\<bar>fl (y * p) - y * p\<bar> \<le> 1 / 8 + 1 / 2 ^ 50" using fl_abs_error [of "y * p"] yp tiny_bounds(2) by simp
  moreover have "1 / 8 + 1 / 2 ^ 50 + (1 / 8 + 1 / 2 ^ 50) \<le> (5 / 16 :: rat)" by simp
  ultimately show "\<bar>fl (fl (of_int k / p) * p) - of_int k\<bar> \<le> 5 / 16" using e1 unfolding y_def by linarith
qed

lemma Major_finite:
  assumes "\<bar>Minor m\<bar> \<le> 2 ^ 50"
  shows "Major m = Fin (fl (of_int (Minor m) / 10 ^ Decimals (Code m)))"
proof -
  have i: "f_of_int (Minor m) = Fin (of_int (Minor m))" by (rule f_of_int_exact) (rule order_trans [OF assms], simp)
  have kq: "\<bar>of_int (Minor m) :: rat\<bar> \<le> 2 ^ 50" using assms by (metis of_int_abs of_int_le_iff of_int_numeral of_int_power)
  have "\<bar>of_int (Minor m) / 10 ^ Decimals (Code m) :: rat\<bar> \<le> \<bar>of_int (Minor m)\<bar>"
    using mult_left_mono [of 1 "10 ^ Decimals (Code m)" "\<bar>of_int (Minor m) :: rat\<bar>"] by (simp add: abs_divide divide_le_eq)
  then have "\<bar>of_int (Minor m) / 10 ^ Decimals (Code m) :: rat\<bar> \<le> 2 ^ 50" using kq by (rule order_trans)
  then have b: "\<bar>of_int (Minor m) / 10 ^ Decimals (Code m) :: rat\<bar> \<le> 2 ^ 1000" by (rule order_trans) simp
  show ?thesis
  proof (cases "Decimals (Code m) = 0")
    case True
    have "fl (of_int (Minor m)) = of_int (Minor m)" by (rule fl_int) (rule order_trans [OF assms], simp)
    with True i show ?thesis by (simp add: Major_def)
  next
    case False
    with i b Pow10_exact [OF Decimals_le] show ?thesis by (simp add: Major_def to_f64_fl)
  qed
qed

text \<open>\<open>half_away\<close> is the nearest integer up to the rounding of the addition.\<close>

lemma half_away_within:
  assumes a: "\<bar>a\<bar> \<le> 2 ^ 52"
  shows "\<bar>of_int (half_away oor (Fin a)) - a\<bar> \<le> 1 / 2 + (\<bar>a\<bar> + 1) / 2 ^ 53 + tiny"
proof -
  have small: "in_int64 (trunc z)" if "\<bar>z\<bar> \<le> 2 ^ 60" for z
  proof -
    have "\<bar>of_int (trunc z) :: rat\<bar> \<le> \<bar>z\<bar>"
    proof (cases "0 \<le> z")
      case True
      then have "0 \<le> (of_int \<lfloor>z\<rfloor> :: rat)" "of_int \<lfloor>z\<rfloor> \<le> z" by simp_all
      with True show ?thesis by (simp add: trunc_def)
    next
      case False
      then have "(of_int \<lceil>z\<rceil> :: rat) \<le> 0" "z \<le> of_int \<lceil>z\<rceil>" by simp_all
      with False show ?thesis by (simp add: trunc_def)
    qed
    with that have "\<bar>of_int (trunc z) :: rat\<bar> \<le> of_int (2 ^ 60)" by simp
    then have "\<bar>trunc z\<bar> \<le> 2 ^ 60" by (metis of_int_abs of_int_le_iff)
    then show ?thesis by (auto simp: in_int64_def int64_min_def int64_max_def)
  qed
  have e: "\<bar>fl s - s\<bar> \<le> (\<bar>a\<bar> + 1) / 2 ^ 53 + tiny" and s60: "\<bar>fl s\<bar> \<le> 2 ^ 60" and s1000: "\<bar>s\<bar> \<le> 2 ^ 1000"
    if s: "\<bar>s\<bar> \<le> \<bar>a\<bar> + 1 / 2" for s
  proof -
    have "\<bar>s\<bar> / 2 ^ 53 \<le> (\<bar>a\<bar> + 1) / 2 ^ 53" using s by (intro divide_right_mono) auto
    then show e: "\<bar>fl s - s\<bar> \<le> (\<bar>a\<bar> + 1) / 2 ^ 53 + tiny" using fl_abs_error [of s] by linarith
    have "(\<bar>a\<bar> + 1) / 2 ^ 53 \<le> 1" using a by simp
    moreover have "tiny \<le> 1" using tiny_bounds(2) by (rule order_trans) simp
    ultimately have "\<bar>fl s\<bar> \<le> 2 ^ 52 + 3" using e s a by linarith
    then show "\<bar>fl s\<bar> \<le> 2 ^ 60" by (rule order_trans) simp
    have "\<bar>s\<bar> \<le> 2 ^ 53" using s a by simp
    then show "\<bar>s\<bar> \<le> 2 ^ 1000" by (rule order_trans) simp
  qed
  show ?thesis
  proof (cases "0 \<le> a")
    case True
    let ?s = "a + 1 / 2"
    have s: "\<bar>?s\<bar> \<le> \<bar>a\<bar> + 1 / 2" using True by simp
    have "0 \<le> fl ?s" using True by (intro fl_nonneg) simp
    then have "half_away oor (Fin a) = \<lfloor>fl ?s\<rfloor>"
      using True small [OF s60 [OF s]] by (simp add: half_away_def to_f64_fl [OF s1000 [OF s]] trunc_def)
    moreover have "of_int \<lfloor>fl ?s\<rfloor> \<le> fl ?s" "fl ?s < of_int \<lfloor>fl ?s\<rfloor> + 1" by linarith+
    ultimately show ?thesis using e [OF s] by linarith
  next
    case False
    let ?s = "a - 1 / 2"
    have s: "\<bar>?s\<bar> \<le> \<bar>a\<bar> + 1 / 2" using False by simp
    have n: "fl ?s \<le> 0" using False by (intro fl_nonpos) simp
    have t: "trunc (fl ?s) = \<lceil>fl ?s\<rceil>" using n by (cases "fl ?s = 0") (auto simp: trunc_def)
    have "half_away oor (Fin a) = \<lceil>fl ?s\<rceil>"
      using False small [OF s60 [OF s]] t by (simp add: half_away_def f_sub_def to_f64_fl [OF s1000 [OF s], simplified])
    moreover have "fl ?s \<le> of_int \<lceil>fl ?s\<rceil>" "of_int \<lceil>fl ?s\<rceil> < fl ?s + 1" by linarith+
    ultimately show ?thesis using e [OF s] by linarith
  qed
qed

section \<open>Where the rounding differs from its comment\<close>

text \<open>\<open>Scale\<close> is said to round half away from zero and float64 to be exact up to \<open>2 ^ 53\<close>. Adding 0.5 rounds
  itself: multiplying \<open>2 ^ 52 + 1\<close> minor units by 1 changes the amount, and a product just below one half
  becomes 1.\<close>

lemma Scale_by_one_changes_amount:
  "Scale oor \<lparr>Minor = 4503599627370497, Code = 980\<rparr> (Fin 1) = \<lparr>Minor = 4503599627370498, Code = 980\<rparr>"
proof -
  have "fl 4503599627370497 = 4503599627370497" "fl (9007199254740995 / 2) = 4503599627370498" by code_simp+
  then show ?thesis
    by (simp add: Scale_def half_away_def f_of_int_def to_f64_fl trunc_def in_int64_def int64_min_def int64_max_def)
qed

definition below_half :: rat where
  \<comment> \<open>0.49999999999999994, the largest float64 below one half\<close>
  "below_half = 1 / 2 - 1 / 2 ^ 54"

lemma Scale_below_half_is_one:
  "fl below_half = below_half \<and> below_half < 1 / 2 \<and> Minor (Scale oor \<lparr>Minor = 1, Code = 980\<rparr> (Fin below_half)) = 1"
proof -
  have f: "fl (9007199254740991 / 18014398509481984) = 9007199254740991 / 18014398509481984"
    "fl (18014398509481983 / 18014398509481984) = 1" "fl 1 = 1" by code_simp+
  have b: "below_half = 9007199254740991 / 18014398509481984" by (simp add: below_half_def)
  show ?thesis
    by (simp add: b f Scale_def half_away_def f_of_int_def to_f64_fl trunc_def in_int64_def int64_min_def int64_max_def)
qed

section \<open>Conversions\<close>

lemma Scale_within:
  assumes "\<bar>Minor m\<bar> \<le> 2 ^ 53" and "\<bar>of_int (Minor m) * f\<bar> \<le> 2 ^ 50"
  shows "\<bar>of_int (Minor (Scale oor m (Fin f))) - of_int (Minor m) * f\<bar> < 1"
proof -
  let ?x = "of_int (Minor m) * f"
  have "\<bar>?x\<bar> \<le> 2 ^ 1000" using assms(2) by (rule order_trans) simp
  then have s: "Minor (Scale oor m (Fin f)) = half_away oor (Fin (fl ?x))"
    by (simp add: Scale_def f_of_int_exact [OF assms(1)] to_f64_fl)
  have t: "tiny \<le> 1 / 16" using tiny_bounds(2) by (rule order_trans) simp
  have "\<bar>?x\<bar> / 2 ^ 53 \<le> 1 / 8" using assms(2) by simp
  with fl_abs_error [of ?x] t have e1: "\<bar>fl ?x - ?x\<bar> \<le> 3 / 16" by linarith
  with assms(2) have a: "\<bar>fl ?x\<bar> \<le> 2 ^ 50 + 1" by linarith
  then have b: "\<bar>fl ?x\<bar> \<le> 2 ^ 52" and c: "(\<bar>fl ?x\<bar> + 1) / 2 ^ 53 \<le> 3 / 16" by simp_all
  show ?thesis unfolding s using half_away_within [OF b, of oor] c e1 t by linarith
qed

definition quotes :: "currency_code \<Rightarrow> currency_code \<Rightarrow> rate \<Rightarrow> bool" where
  "quotes a b r \<longleftrightarrow> a = CurrencyCodeA r \<and> b = CurrencyCodeB r \<or> a = CurrencyCodeB r \<and> b = CurrencyCodeA r"

lemma Convert_loop_skip:
  "list_all (\<lambda>r. \<not> quotes (Code amount) to r) pre \<Longrightarrow> Convert_loop oor amount to (pre @ rs) = Convert_loop oor amount to rs"
proof (induction pre)
  case (Cons q pre)
  then have "\<not> (Code amount = CurrencyCodeA q \<and> to = CurrencyCodeB q)" "\<not> (Code amount = CurrencyCodeB q \<and> to = CurrencyCodeA q)"
    by (simp_all add: quotes_def)
  then show ?case unfolding append_Cons Convert_loop.simps using Cons by (simp only: if_False) simp
qed simp

text \<open>The first row of the pair decides, in its direction, if it has a rate; without such a row there is none.\<close>

lemma Convert_first_rate:
  assumes "list_all (\<lambda>r. \<not> quotes (Code amount) to r) pre" and "Code amount \<noteq> to"
    and "CurrencyCodeA r = Code amount" and "CurrencyCodeB r = to" and "RateBuy r \<noteq> Fin 0"
  shows "Convert oor (pre @ r # rs) amount to = Some ((Scale oor amount (RateBuy r))\<lparr>Code := to\<rparr>)"
  using assms(2-) by (simp add: Convert_def Convert_loop_skip [OF assms(1)])

lemma Convert_no_rate:
  assumes "list_all (\<lambda>r. \<not> quotes (Code amount) to r) rs" and "Code amount \<noteq> to"
  shows "Convert oor rs amount to = None"
  using Convert_loop_skip [OF assms(1), of oor "[]"] assms(2) by (simp add: Convert_def)

lemma Inst_Major_roundtrip:
  assumes "\<bar>k\<bar> \<le> 2 ^ 50"
  shows "MoneyFromMajor oor (Inst_Major k) = k"
proof -
  have h: "1 \<le> (100 :: rat)" "(100 :: rat) \<le> 1000" by simp_all
  note sb = scale_back [OF assms h]
  have i: "f_of_int k = Fin (of_int k)" by (rule f_of_int_exact) (rule order_trans [OF assms], simp)
  have kq: "\<bar>of_int k :: rat\<bar> \<le> 2 ^ 50" using assms by (metis of_int_abs of_int_le_iff of_int_numeral of_int_power)
  have "\<bar>of_int k / 100 :: rat\<bar> \<le> 2 ^ 50" using kq by simp
  then have "\<bar>of_int k / 100 :: rat\<bar> \<le> 2 ^ 1000" by (rule order_trans) simp
  then have m: "Inst_Major k = Fin (fl (of_int k / 100))" by (simp add: Inst_Major_def i to_f64_fl)
  have "\<bar>fl (of_int k / 100) * 100 :: rat\<bar> \<le> 2 ^ 1000" by (rule order_trans [OF sb(2)]) simp
  then have s: "f_mult (Inst_Major k) (Fin 100) = Fin (fl (fl (of_int k / 100) * 100))" by (simp add: m to_f64_fl)
  have lim: "f_of_int int64_max = Fin 9223372036854775808" "f_of_int int64_min = Fin (- 9223372036854775808)"
  proof -
    have "fl 9223372036854775807 = 9223372036854775808" "fl (- 9223372036854775808) = - 9223372036854775808" by code_simp+
    then show "f_of_int int64_max = Fin 9223372036854775808" "f_of_int int64_min = Fin (- 9223372036854775808)"
      by (simp_all add: f_of_int_def int64_max_def int64_min_def to_f64_fl)
  qed
  have "\<bar>fl (fl (of_int k / 100) * 100)\<bar> \<le> 2 ^ 50 + 1" using sb(1) kq by linarith
  then have "\<not> f_le (f_of_int int64_max) (Fin (fl (fl (of_int k / 100) * 100)))"
    "\<not> f_le (Fin (fl (fl (of_int k / 100) * 100))) (f_of_int int64_min)" by (auto simp: lim)
  with m s half_away_near [OF sb(1) assms, of oor] show ?thesis by (simp add: MoneyFromMajor_def Let_def)
qed

lemma round_even_close: "\<bar>x - of_int n\<bar> < 1 / 2 \<Longrightarrow> round_even x = n"
proof -
  assume x: "\<bar>x - of_int n\<bar> < 1 / 2"
  have "\<bar>of_int (round_even x) - (of_int n :: rat)\<bar> < 1" using x round_even_near [of x] by linarith
  then have "\<bar>of_int (round_even x - n) :: rat\<bar> < of_int 1" by simp
  then have "\<bar>round_even x - n\<bar> < 1" by (metis of_int_abs of_int_less_iff)
  then show ?thesis by simp
qed

text \<open>Up to \<open>2 ^ 50\<close> minor units \<open>String\<close> prints the amount exactly: the digits of the minor units, with the point
  before the last \<open>d\<close>.\<close>

lemma Money_String_exact:
  assumes "\<bar>Minor m\<bar> \<le> 2 ^ 50"
  defines "d \<equiv> Decimals (Code m)"
  defines "s \<equiv> pad_zeros (d + 1) (nat_digits (nat \<bar>Minor m\<bar>))"
  shows "Money_String m = (if Minor m < 0 then ''-'' else []) @ take (length s - d) s @
    (if d = 0 then [] else ''.'' @ drop (length s - d) s) @ '' '' @ Code_String (Code m)"
proof -
  let ?p = "10 ^ d :: rat" and ?k = "of_int (Minor m) :: rat"
  have "(10::rat) ^ d \<le> 10 ^ 3" unfolding d_def using Decimals_le by (intro power_increasing) auto
  then have p: "1 \<le> ?p" "?p \<le> 1000" by simp_all
  define a where "a = fl (?k / ?p)"
  have ak: "\<bar>a * ?p - ?k\<bar> < 1 / 2" unfolding a_def by (rule order_le_less_trans [OF scale_near [OF assms(1) p]]) simp
  have sg: "a < 0 \<longleftrightarrow> Minor m < 0"
  proof (cases "Minor m < 0")
    case True
    then have "?k \<le> - 1" by simp
    then have "a * ?p < 0" using ak by linarith
    then show ?thesis using True p by (simp add: mult_less_0_iff)
  next
    case False
    then have "0 \<le> a" unfolding a_def using p by (intro fl_nonneg) simp
    with False show ?thesis by simp
  qed
  have "\<bar>\<bar>a\<bar> * ?p - of_int \<bar>Minor m\<bar>\<bar> < 1 / 2"
  proof -
    have "\<bar>a\<bar> * ?p = \<bar>a * ?p\<bar>" using p by (simp add: abs_mult)
    then show ?thesis using ak abs_triangle_ineq3 [of "a * ?p" ?k] by simp
  qed
  then have r: "round_even (\<bar>a\<bar> * ?p) = \<bar>Minor m\<bar>" by (rule round_even_close)
  have "Major m = Fin a" using Major_finite [OF assms(1)] by (simp add: a_def d_def)
  then have "Money_String m = format_fixed d a @ '' '' @ Code_String (Code m)" by (simp add: Money_String_def d_def)
  moreover have "format_fixed d a = (if Minor m < 0 then ''-'' else []) @ take (length s - d) s @
      (if d = 0 then [] else ''.'' @ drop (length s - d) s)"
    unfolding format_fixed_def r Let_def s_def [symmetric] sg ..
  ultimately show ?thesis by simp
qed

section \<open>Properties\<close>

text \<open>
  C21: \<open>FromMajor\<close> inverts \<open>Major\<close>. For every currency and every amount of up to \<open>2 ^ 50\<close> minor units, converting the
  amount to a float64 in major units and back gives exactly the same amount, although neither the
  division nor the multiplication is exact.
\<close>

theorem FromMajor_Major:
  assumes "\<bar>Minor m\<bar> \<le> 2 ^ 50"
  shows "FromMajor oor (Major m) (Code m) = m"
proof -
  let ?p = "10 ^ Decimals (Code m) :: rat"
  have "(10::rat) ^ Decimals (Code m) \<le> 10 ^ 3" using Decimals_le by (intro power_increasing) auto
  then have p: "1 \<le> ?p" "?p \<le> 1000" by simp_all
  note sb = scale_back [OF assms p]
  have "\<bar>fl (of_int (Minor m) / ?p) * ?p\<bar> \<le> 2 ^ 1000" by (rule order_trans [OF sb(2)]) simp
  then have "f_mult (Major m) (Pow10 (Decimals (Code m))) = Fin (fl (fl (of_int (Minor m) / ?p) * ?p))"
    by (simp add: Major_finite [OF assms] Pow10_exact [OF Decimals_le] to_f64_fl)
  with half_away_near [OF sb(1) assms, of oor] show ?thesis by (simp add: FromMajor_def)
qed

theorem FromMajor_Major_witness:
  "FromMajor (\<lambda>_. 0) (Major \<lparr>Minor = 14999, Code = 980\<rparr>) 980 = \<lparr>Minor = 14999, Code = 980\<rparr>"
proof -
  have "\<bar>Minor \<lparr>Minor = 14999, Code = 980\<rparr>\<bar> \<le> 2 ^ 50" by simp
  from FromMajor_Major [OF this, of "\<lambda>_. 0"] show ?thesis by simp
qed

end
