(* ===== verification/Basket.thy ===== *)
theory Basket
  imports Money_Float
begin

text \<open>
  Basket orders (\<open>acquiring/basket.go\<close>): validated lines, the builder that keeps the first error, and the check
  against the invoice amount. A basket is the record of its lines and its error; an option is a function on
  the line.
\<close>

section \<open>Lines\<close>

record adjustment =
  adjType :: string
  adjMode :: string
  adjValue :: f64
  adjTax :: "int list"

record basket_item =
  itName :: string
  Qty :: f64
  Sum :: int
  Total :: int
  Icon :: string
  Unit :: string
  itCode :: string
  Barcode :: string
  Header :: string
  Footer :: string
  Tax :: "int list"
  UKTZED :: string
  Discounts :: "adjustment list"
  SplitReceiverID :: string

datatype basket_error = ErrBasketName | ErrBasketCode | ErrBasketQty | ErrBasketSum | ErrBasketTotal

definition expectedTotal :: "(f64 \<Rightarrow> int) \<Rightarrow> f64 \<Rightarrow> int \<Rightarrow> int" where
  "expectedTotal oor qty unitSum = half_away oor (f_mult qty (f_of_int unitSum))"

definition Validate :: "(f64 \<Rightarrow> int) \<Rightarrow> basket_item \<Rightarrow> basket_error option" where
  "Validate oor it =
     (if itName it = [] then Some ErrBasketName
      else if itCode it = [] then Some ErrBasketCode
      else if f_le (Qty it) (Fin 0) \<or> Qty it = NaN \<or> Qty it = Inf False \<or> Qty it = Inf True then Some ErrBasketQty
      else if Sum it \<le> 0 then Some ErrBasketSum
      else if Total it \<noteq> 0 \<and> Total it \<noteq> expectedTotal oor (Qty it) (Sum it) then Some ErrBasketTotal
      else None)"

definition Filled :: "(f64 \<Rightarrow> int) \<Rightarrow> basket_item \<Rightarrow> basket_item" where
  "Filled oor it = (if Total it = 0 then it\<lparr>Total := expectedTotal oor (Qty it) (Sum it)\<rparr> else it)"

definition NewBasketItem :: "(f64 \<Rightarrow> int) \<Rightarrow> string \<Rightarrow> string \<Rightarrow> f64 \<Rightarrow> int \<Rightarrow> (basket_item \<Rightarrow> basket_item) list \<Rightarrow>
    basket_error + basket_item" where
  "NewBasketItem oor name code qty unitSum opts =
     (let it0 = \<lparr>itName = name, Qty = qty, Sum = unitSum, Total = 0, Icon = [], Unit = [], itCode = code, Barcode = [],
                 Header = [], Footer = [], Tax = [], UKTZED = [], Discounts = [], SplitReceiverID = []\<rparr>;
          it = Filled oor (fold (\<lambda>f. f) opts it0)
      in case Validate oor it of Some e \<Rightarrow> Inl e | None \<Rightarrow> Inr it)"

definition WithUnit :: "string \<Rightarrow> basket_item \<Rightarrow> basket_item" where "WithUnit u it = it\<lparr>Unit := u\<rparr>"

definition WithIcon :: "string \<Rightarrow> basket_item \<Rightarrow> basket_item" where "WithIcon u it = it\<lparr>Icon := u\<rparr>"

definition WithBarcode :: "string \<Rightarrow> basket_item \<Rightarrow> basket_item" where "WithBarcode b it = it\<lparr>Barcode := b\<rparr>"

definition WithUKTZED :: "string \<Rightarrow> basket_item \<Rightarrow> basket_item" where "WithUKTZED u it = it\<lparr>UKTZED := u\<rparr>"

definition WithBasketTax :: "int list \<Rightarrow> basket_item \<Rightarrow> basket_item" where "WithBasketTax t it = it\<lparr>Tax := t\<rparr>"

definition WithBasketHeader :: "string \<Rightarrow> basket_item \<Rightarrow> basket_item" where "WithBasketHeader s it = it\<lparr>Header := s\<rparr>"

definition WithBasketFooter :: "string \<Rightarrow> basket_item \<Rightarrow> basket_item" where "WithBasketFooter s it = it\<lparr>Footer := s\<rparr>"

definition WithBasketDiscounts :: "adjustment list \<Rightarrow> basket_item \<Rightarrow> basket_item" where "WithBasketDiscounts d it = it\<lparr>Discounts := d\<rparr>"

section \<open>The builder\<close>

record basket =
  items :: "basket_item list"
  berr :: "basket_error option"

definition NewBasket :: basket where
  "NewBasket = \<lparr>items = [], berr = None\<rparr>"

definition Basket_Add :: "(f64 \<Rightarrow> int) \<Rightarrow> basket_item \<Rightarrow> basket \<Rightarrow> basket" where
  "Basket_Add oor it b =
     (if berr b \<noteq> None then b
      else case Validate oor (Filled oor it) of
          Some e \<Rightarrow> b\<lparr>berr := Some e\<rparr>
        | None \<Rightarrow> b\<lparr>items := items b @ [Filled oor it]\<rparr>)"

definition AddItem :: "(f64 \<Rightarrow> int) \<Rightarrow> string \<Rightarrow> string \<Rightarrow> f64 \<Rightarrow> int \<Rightarrow> (basket_item \<Rightarrow> basket_item) list \<Rightarrow> basket \<Rightarrow> basket" where
  "AddItem oor name code qty unitSum opts b =
     (if berr b \<noteq> None then b
      else case NewBasketItem oor name code qty unitSum opts of
          Inl e \<Rightarrow> b\<lparr>berr := Some e\<rparr>
        | Inr it \<Rightarrow> b\<lparr>items := items b @ [it]\<rparr>)"

definition Basket_Total :: "basket \<Rightarrow> int" where
  "Basket_Total b = foldl (\<lambda>s it. wrap64 (s + Total it)) 0 (items b)"

definition Basket_Len :: "basket \<Rightarrow> nat" where
  "Basket_Len b = length (items b)"

definition Basket_Items :: "basket \<Rightarrow> basket_error + basket_item list" where
  "Basket_Items b = (case berr b of Some e \<Rightarrow> Inl e | None \<Rightarrow> Inr (items b))"

definition Build :: "basket \<Rightarrow> int \<Rightarrow> basket_error + basket_item list" where
  "Build b wantTotal =
     (case berr b of
        Some e \<Rightarrow> Inl e
      | None \<Rightarrow> if wantTotal \<noteq> 0 \<and> Basket_Total b \<noteq> wantTotal then Inl ErrBasketTotal else Basket_Items b)"

section \<open>What the builder keeps\<close>

inductive built :: "(f64 \<Rightarrow> int) \<Rightarrow> basket \<Rightarrow> bool" for oor where
  new: "built oor NewBasket"
| add: "built oor b \<Longrightarrow> built oor (Basket_Add oor it b)"
| add_item: "built oor b \<Longrightarrow> built oor (AddItem oor name code qty s opts b)"

definition line_ok :: "(f64 \<Rightarrow> int) \<Rightarrow> basket_item \<Rightarrow> bool" where
  "line_ok oor it \<longleftrightarrow> itName it \<noteq> [] \<and> itCode it \<noteq> [] \<and> (\<exists>q. Qty it = Fin q \<and> 0 < q) \<and> 0 < Sum it \<and>
     Total it = expectedTotal oor (Qty it) (Sum it)"

lemma Validate_Filled: "Validate oor (Filled oor it) = None \<Longrightarrow> line_ok oor (Filled oor it)"
  by (cases "Qty it") (auto simp: Validate_def Filled_def line_ok_def split: if_splits)

lemma NewBasketItem_ok: "NewBasketItem oor name code qty s opts = Inr it \<Longrightarrow> line_ok oor it"
  by (auto simp: NewBasketItem_def Let_def split: option.splits dest: Validate_Filled)

lemma built_lines: "built oor b \<Longrightarrow> list_all (line_ok oor) (items b)"
proof (induction rule: built.induct)
  case (add b it)
  then show ?case by (auto simp: Basket_Add_def Validate_Filled split: option.split)
next
  case (add_item b name code qty s opts)
  then show ?case by (auto simp: AddItem_def dest: NewBasketItem_ok split: sum.split)
qed (simp add: NewBasket_def)

text \<open>The first error stays, and nothing is added after it.\<close>

lemma Basket_error_sticky:
  "berr b = Some e \<Longrightarrow> Basket_Add oor it b = b" "berr b = Some e \<Longrightarrow> AddItem oor n c q s opts b = b"
  by (simp_all add: Basket_Add_def AddItem_def)

lemma foldl_wrap: "foldl (\<lambda>s x. wrap64 (s + f x)) (wrap64 a) xs = wrap64 (a + sum_list (map f xs))"
  by (induction xs arbitrary: a) (simp_all add: add.assoc)

lemma Basket_Total_wrap: "Basket_Total b = wrap64 (sum_list (map Total (items b)))"
  using foldl_wrap [of Total 0 "items b"] by (simp add: Basket_Total_def)

lemma Basket_Add_accepts:
  assumes "line_ok oor it" and "Total it \<noteq> 0" and "berr b = None"
  shows "items (Basket_Add oor it b) = items b @ [it] \<and> berr (Basket_Add oor it b) = None"
  using assms by (auto simp: Basket_Add_def Filled_def Validate_def line_ok_def)

text \<open>For whole quantities the expected total is the exact product.\<close>

lemma expectedTotal_exact:
  assumes "\<bar>n\<bar> \<le> 2 ^ 50" and "\<bar>s\<bar> \<le> 2 ^ 50" and "\<bar>n * s\<bar> \<le> 2 ^ 50"
  shows "expectedTotal oor (f_of_int n) s = n * s"
proof -
  have "\<bar>n\<bar> \<le> 2 ^ 53" "\<bar>s\<bar> \<le> 2 ^ 53" "\<bar>n * s\<bar> \<le> 2 ^ 53" using assms by (auto intro: order_trans)
  then have f: "f_of_int n = Fin (of_int n)" "f_of_int s = Fin (of_int s)" "f_of_int (n * s) = Fin (of_int (n * s))"
    by (simp_all add: f_of_int_exact)
  have "f_mult (f_of_int n) (f_of_int s) = f_of_int (n * s)" by (simp add: f(1,2)) (simp add: f_of_int_def)
  then have "f_mult (f_of_int n) (f_of_int s) = Fin (of_int (n * s))" using f(3) by simp
  with half_away_near [of "of_int (n * s)" "n * s" oor] assms(3) show ?thesis by (simp add: expectedTotal_def)
qed

section \<open>Properties\<close>

text \<open>
  C40: What the basket builder hands out is consistent. However a basket was built, if \<open>Build\<close> returns lines, each of
  them has a name, a code, a positive finite quantity, a positive unit price and the total that quantity
  and price give; and if the invoice amount was given, the line totals add up to it (in 64-bit
  arithmetic).
\<close>

theorem Build_consistent:
  assumes "built oor b" and "Build b wantTotal = Inr its"
  shows "list_all (\<lambda>it. itName it \<noteq> [] \<and> itCode it \<noteq> [] \<and> (\<exists>q. Qty it = Fin q \<and> 0 < q) \<and> 0 < Sum it \<and>
      Total it = expectedTotal oor (Qty it) (Sum it)) its \<and>
    (wantTotal \<noteq> 0 \<longrightarrow> wrap64 (sum_list (map Total its)) = wantTotal)"
proof -
  have its: "its = items b" and tot: "wantTotal \<noteq> 0 \<longrightarrow> Basket_Total b = wantTotal"
    using assms(2) by (auto simp: Build_def Basket_Items_def split: option.splits if_splits)
  show ?thesis using built_lines [OF assms(1)] tot unfolding its line_ok_def Basket_Total_wrap by blast
qed

theorem Build_consistent_witness:
  "\<exists>its. Build (AddItem (\<lambda>_. 0) ''coffee'' ''SKU-1'' (Fin 2) 4500 [] NewBasket) 9000 = Inr its \<and> sum_list (map Total its) = 9000"
proof -
  have e: "expectedTotal (\<lambda>_. 0) (Fin 2) 4500 = 9000"
    using expectedTotal_exact [of 2 4500 "\<lambda>_. 0"] f_of_int_exact [of 2] by simp
  let ?b = "AddItem (\<lambda>_. 0) ''coffee'' ''SKU-1'' (Fin 2) 4500 [] NewBasket"
  have "built (\<lambda>_. 0) ?b" by (intro built.intros)
  moreover obtain it where b: "Build ?b 9000 = Inr [it]" "in_int64 (Total it)"
    by (simp add: Build_def AddItem_def NewBasket_def NewBasketItem_def Filled_def Validate_def Basket_Items_def Basket_Total_def
        e Let_def wrap64_def in_int64_def int64_min_def int64_max_def)
  ultimately show ?thesis using Build_consistent [of "\<lambda>_. 0" ?b 9000 "[it]"] b by (auto simp: wrap64_id)
qed

end
