(* ===== verification/Rate_Limiter.thy ===== *)
theory Rate_Limiter
  imports Go_Float
begin

text \<open>
  The token bucket (\<open>ratelimit.go\<close>): \<open>Limiter\<close>, used by any number of goroutines, and \<open>KeyedLimiter\<close>, which keeps a
  limiter per key.

  Times and durations are nanoseconds; \<open>time.Now\<close> is monotonic. What happens between \<open>Lock\<close> and \<open>Unlock\<close> in one
  round of \<open>Wait\<close> is \<open>acquire\<close>; the goroutines around it are the step relation \<open>lstep\<close>, in which any of
  them may run, be delayed, or be cancelled at any point. Tokens are \<open>float64\<close>.
\<close>

section \<open>The bucket\<close>

record limiter =
  every :: int
  burst :: int
  tokens :: f64
  last_refill :: int

definition NewLimiter :: "int \<Rightarrow> int \<Rightarrow> int \<Rightarrow> limiter" where
  \<comment> \<open>the last argument is \<open>time.Now()\<close>\<close>
  "NewLimiter ev b now =
     (let b1 = (if b < 1 then 1 else b) in \<lparr>every = ev, burst = b1, tokens = f_of_int b1, last_refill = now\<rparr>)"

definition time_Sub :: "int \<Rightarrow> int \<Rightarrow> int" where
  \<comment> \<open>\<open>t.Sub(u)\<close> saturates\<close>
  "time_Sub t u = max int64_min (min int64_max (t - u))"

definition acquire :: "(f64 \<Rightarrow> int) \<Rightarrow> int \<Rightarrow> limiter \<Rightarrow> int option \<times> limiter" where
  \<comment> \<open>one round of \<open>Wait\<close> under the lock: \<open>None\<close> when a token was taken, otherwise how long to sleep\<close>
  "acquire oor now l =
     (let elapsed = time_Sub now (last_refill l);
          t0 = f_add (tokens l) (f_div (f_of_int elapsed) (f_of_int (every l)));
          t1 = (if f_less (f_of_int (burst l)) t0 then f_of_int (burst l) else t0);
          l1 = l\<lparr>last_refill := now, tokens := t1\<rparr>
      in if f_le (Fin 1) t1 then (None, l1\<lparr>tokens := f_sub t1 (Fin 1)\<rparr>)
         else (Some (int64_of oor (f_mult (f_sub (Fin 1) t1) (f_of_int (every l)))), l1))"

section \<open>Goroutines\<close>

datatype pc = Idle | Acquiring | Sleeping int | Granted | Cancelled

record lsys =
  lim :: limiter
  clk :: int
  procs :: "nat \<Rightarrow> pc"
  grants :: nat
  sections :: nat

inductive lstep :: "(f64 \<Rightarrow> int) \<Rightarrow> lsys \<Rightarrow> lsys \<Rightarrow> bool" for oor where
  tick: "0 \<le> d \<Longrightarrow> lstep oor s (s\<lparr>clk := clk s + d\<rparr>)"
| call_cancelled: "procs s p = Idle \<Longrightarrow> lstep oor s (s\<lparr>procs := (procs s)(p := Cancelled)\<rparr>)"
| call_unlimited: "procs s p = Idle \<Longrightarrow> every (lim s) \<le> 0 \<Longrightarrow>
    lstep oor s (s\<lparr>procs := (procs s)(p := Granted), grants := Suc (grants s)\<rparr>)"
| call: "procs s p = Idle \<Longrightarrow> 0 < every (lim s) \<Longrightarrow> lstep oor s (s\<lparr>procs := (procs s)(p := Acquiring)\<rparr>)"
| grant: "procs s p = Acquiring \<Longrightarrow> acquire oor (clk s) (lim s) = (None, l) \<Longrightarrow>
    lstep oor s (s\<lparr>lim := l, procs := (procs s)(p := Granted), grants := Suc (grants s), sections := Suc (sections s)\<rparr>)"
| sleep: "procs s p = Acquiring \<Longrightarrow> acquire oor (clk s) (lim s) = (Some d, l) \<Longrightarrow>
    lstep oor s (s\<lparr>lim := l, procs := (procs s)(p := Sleeping (clk s + d)), sections := Suc (sections s)\<rparr>)"
| wake: "procs s p = Sleeping t \<Longrightarrow> t \<le> clk s \<Longrightarrow> lstep oor s (s\<lparr>procs := (procs s)(p := Acquiring)\<rparr>)"
| cancel: "procs s p = Sleeping t \<Longrightarrow> lstep oor s (s\<lparr>procs := (procs s)(p := Cancelled)\<rparr>)"
| return: "procs s p \<in> {Granted, Cancelled} \<Longrightarrow> lstep oor s (s\<lparr>procs := (procs s)(p := Idle)\<rparr>)"

inductive_cases lstepE: "lstep oor s s'"

inductive reachable :: "(f64 \<Rightarrow> int) \<Rightarrow> lsys \<Rightarrow> lsys \<Rightarrow> bool" for oor s0 where
  start: "reachable oor s0 s0"
| step: "reachable oor s0 s \<Longrightarrow> lstep oor s s' \<Longrightarrow> reachable oor s0 s'"

definition fresh :: "int \<Rightarrow> int \<Rightarrow> int \<Rightarrow> lsys" where
  \<comment> \<open>right after \<open>NewLimiter\<close>, with no call under way\<close>
  "fresh ev b now = \<lparr>lim = NewLimiter ev b now, clk = now, procs = (\<lambda>_. Idle), grants = 0, sections = 0\<rparr>"

section \<open>One round\<close>

lemma fl_upper: "0 \<le> x \<Longrightarrow> fl x \<le> x + x / 2 ^ 53 + tiny"
  using fl_abs_error [of x] by (simp add: abs_le_iff)

lemma fl_int_rel: "1 \<le> n \<Longrightarrow> \<bar>fl (of_int n) - of_int n\<bar> \<le> of_int n / 2 ^ 53"
proof -
  assume "1 \<le> n"
  then have n: "1 \<le> (of_int n :: rat)" by simp
  have "(2::rat) powi (- 1022) \<le> 2 powi 0" by (simp only: powi_le_iff)
  then have "(2::rat) powi (- 1022) \<le> \<bar>of_int n\<bar>" using n by simp
  from fl_rel_error [OF this] n show ?thesis by simp
qed

lemma quotient_upper:
  assumes "0 \<le> e" and "1 \<le> v"
  shows "fl (of_int e) / fl (of_int v) \<le> of_int e / of_int v + 4 * (of_int e / of_int v) / 2 ^ 53"
    and "0 \<le> fl (of_int e) / fl (of_int v)"
proof -
  define d :: rat where "d = 1 / 2 ^ 53"
  have d: "0 < d" "d \<le> 1 / 8" by (simp_all add: d_def)
  have rel: "\<bar>fl (of_int n) - of_int n\<bar> \<le> of_int n * d" if "1 \<le> n" for n
    using fl_int_rel [OF that] by (simp add: d_def)
  have v: "of_int v * (1 - d) \<le> fl (of_int v)" using rel [OF assms(2)] unfolding right_diff_distrib by linarith
  have v0: "0 < of_int v * (1 - d)" using assms(2) d by simp
  have e: "fl (of_int e) \<le> of_int e * (1 + d)" and e0: "0 \<le> fl (of_int e)"
  proof -
    show "fl (of_int e) \<le> of_int e * (1 + d)"
    proof (cases "e = 0")
      case False
      with assms(1) rel [of e] show ?thesis unfolding distrib_left by linarith
    qed simp
    show "0 \<le> fl (of_int e)" using assms(1) by (intro fl_nonneg) simp
  qed
  have fv: "0 < fl (of_int v)" using v v0 by linarith
  then show "0 \<le> fl (of_int e) / fl (of_int v)" using e0 by simp
  have "fl (of_int e) / fl (of_int v) \<le> of_int e * (1 + d) / (of_int v * (1 - d))"
    using e e0 v v0 fv by (intro frac_le) auto
  also have "\<dots> = of_int e / of_int v * ((1 + d) / (1 - d))" by simp
  also have "\<dots> \<le> of_int e / of_int v * (1 + 4 * d)"
  proof (intro mult_left_mono)
    have "1 + d \<le> (1 + 4 * d) * (1 - d)" using d mult_mono [of d "1 / 8" d d] by (simp add: algebra_simps)
    then show "(1 + d) / (1 - d) \<le> 1 + 4 * d" using d by (simp add: pos_divide_le_eq)
    show "0 \<le> (of_int e / of_int v :: rat)" using assms by simp
  qed
  finally show "fl (of_int e) / fl (of_int v) \<le> of_int e / of_int v + 4 * (of_int e / of_int v) / 2 ^ 53"
    by (simp add: d_def algebra_simps)
qed

lemma int_bound_1000: "\<bar>n\<bar> \<le> 2 ^ 63 \<Longrightarrow> \<bar>of_int n :: rat\<bar> \<le> 2 ^ 1000"
proof -
  assume "\<bar>n\<bar> \<le> 2 ^ 63"
  then have "\<bar>of_int n :: rat\<bar> \<le> of_int (2 ^ 63)" by (metis of_int_abs of_int_le_iff)
  then show ?thesis by (rule order_trans) simp
qed

lemma nonneg_bound_1000: "0 \<le> z \<Longrightarrow> z \<le> 2 ^ 70 \<Longrightarrow> \<bar>z :: rat\<bar> \<le> 2 ^ 1000"
proof -
  assume "0 \<le> z" "z \<le> 2 ^ 70"
  then have "\<bar>z\<bar> \<le> 2 ^ 70" by simp
  then show ?thesis by (rule order_trans) simp
qed

text \<open>What refilling adds, before the cap: at most the elapsed share, up to the error of three roundings.\<close>

lemma refill_upper:
  assumes "0 \<le> e" and "1 \<le> v" and "0 \<le> t" and "t \<le> b" and "1 \<le> b" and x: "x = of_int e / of_int v" "x \<le> 2 * b"
  shows "fl (t + fl (fl (of_int e) / fl (of_int v))) \<le> t + x + 17 * b / 2 ^ 53"
proof -
  define d :: rat where "d = 1 / 2 ^ 53"
  define q where "q = fl (of_int e) / fl (of_int v)"
  have d: "0 < d" "d \<le> 1 / 100" and tn: "0 < tiny" "tiny \<le> d / 100"
    using tiny_bounds by (auto simp: d_def intro: order_trans)
  have bd: "tiny \<le> b * d / 100"
  proof -
    have "d \<le> b * d" using d(1) assms(5) by simp
    then show ?thesis using tn(2) by linarith
  qed
  have q: "0 \<le> q" "q \<le> x + 4 * (x * d)"
    using quotient_upper [OF assms(1,2)] by (simp_all add: q_def x(1) d_def)
  have x0: "0 \<le> x" using x(1) assms(1,2) by simp
  have xd: "x * d \<le> 2 * (b * d)" using x(2) d(1) by (simp add: mult_right_mono flip: mult.assoc)
  have "fl q \<le> q + q * d + tiny" using fl_upper [OF q(1)] by (simp add: d_def)
  moreover have "q \<le> 3 * b" 
  proof -
    have "b * d \<le> b / 100" using d(2) assms(5) mult_left_mono [of d "1 / 100" b] by simp
    with q(2) xd x(2) assms(5) show ?thesis by linarith
  qed
  moreover from this have "q * d \<le> 3 * (b * d)" using d(1) by (simp add: mult_right_mono flip: mult.assoc)
  ultimately have fq: "fl q \<le> x + 11 * (b * d) + tiny" using q(2) xd by linarith
  have fq0: "0 \<le> fl q" using q(1) by (rule fl_nonneg)
  have bb: "b * d \<le> b / 100" using d(2) assms(5) mult_left_mono [of d "1 / 100" b] by simp
  have s: "t + fl q \<le> 4 * b" using fq assms(4,5) x(2) bb bd by linarith
  then have "(t + fl q) * d \<le> 4 * (b * d)" using d(1) by (simp add: mult_right_mono flip: mult.assoc)
  moreover have "fl (t + fl q) \<le> (t + fl q) + (t + fl q) * d + tiny" using fl_upper [of "t + fl q"] assms(3) fq0 by (simp add: d_def)
  ultimately have "fl (t + fl q) \<le> t + x + 15 * (b * d) + 2 * tiny" using fq by linarith
  also have "\<dots> \<le> t + x + 17 * (b * d)" using bd tn(1) by linarith
  finally show ?thesis by (simp add: q_def d_def)
qed

lemma acquire_round:
  assumes l: "every l = v" "burst l = b" "tokens l = Fin t" "last_refill l \<le> now"
    and v: "1 \<le> v" "v \<le> int64_max" and b: "1 \<le> b" "b \<le> 2 ^ 52" and t: "0 \<le> t" "t \<le> of_int b"
    and a: "acquire oor now l = (r, l')"
  shows "\<exists>t'. tokens l' = Fin t' \<and> 0 \<le> t' \<and> t' \<le> of_int b \<and> every l' = v \<and> burst l' = b \<and> last_refill l' = now \<and>
    t' + (if r = None then 1 else 0) \<le> t + of_int (now - last_refill l) / of_int v + of_int b / 2 ^ 48"
proof -
  define e where "e = time_Sub now (last_refill l)"
  have e: "0 \<le> e" "e \<le> now - last_refill l" "\<bar>e\<bar> \<le> 2 ^ 63" using l(4) by (auto simp: e_def time_Sub_def int64_min_def int64_max_def)
  define x :: rat where "x = of_int e / of_int v"
  have x: "0 \<le> x" "x \<le> of_int (now - last_refill l) / of_int v"
    using e v(1) unfolding x_def by (auto intro!: divide_right_mono)
  define B :: rat where "B = of_int b"
  have B: "1 \<le> B" "B \<le> 2 ^ 52" using b unfolding B_def by (simp, metis of_int_le_iff of_int_numeral of_int_power)
  let ?q = "fl (of_int e) / fl (of_int v) :: rat"
  have V: "\<bar>v\<bar> \<le> 2 ^ 63" using v by (simp add: int64_max_def)
  have fe: "f_of_int e = Fin (fl (of_int e))" and fv: "f_of_int v = Fin (fl (of_int v))"
    using int_bound_1000 [OF e(3)] int_bound_1000 [OF V] by (simp_all add: f_of_int_def to_f64_fl)
  have v0: "fl (of_int v) \<noteq> 0"
  proof
    assume "fl (of_int v) = 0"
    with fl_int_rel [OF v(1)] v(1) show False by simp
  qed
  note qu = quotient_upper [OF e(1) v(1), folded x_def]
  have "x \<le> 2 ^ 63"
  proof -
    have "x \<le> of_int e" unfolding x_def using e(1) v(1) by (simp add: divide_le_eq mult_left_le_one_le mult_le_cancel_left1)
    also have "\<dots> \<le> of_int (2 ^ 63)" using e(3) by (simp only: of_int_le_iff abs_le_iff)
    finally show ?thesis by simp
  qed
  moreover from this have "4 * x / 2 ^ 53 \<le> 2 ^ 63" by simp
  ultimately have "?q \<le> 2 ^ 63 + 2 ^ 63" using qu(1) by linarith
  then have "?q \<le> 2 ^ 64" by simp
  then have q1000: "\<bar>?q\<bar> \<le> 2 ^ 1000" using qu(2) \<open>?q \<le> 2 ^ 63 + 2 ^ 63\<close> by (intro nonneg_bound_1000) auto
  define t0 where "t0 = fl (t + fl ?q)"
  have q0: "0 \<le> fl ?q" using qu(2) by (rule fl_nonneg)
  have t00: "0 \<le> t0" unfolding t0_def using q0 t(1) by (intro fl_nonneg) simp
  have "\<bar>t + fl ?q\<bar> \<le> 2 ^ 1000"
  proof -
    have "fl ?q \<le> 2 ^ 66" using fl_upper [OF qu(2)] \<open>?q \<le> 2 ^ 64\<close> tiny_bounds(2) by simp
    then have "t + fl ?q \<le> 2 ^ 67" using t(2) B(2) unfolding B_def by simp
    then show ?thesis using q0 t(1) by (intro nonneg_bound_1000) auto
  qed
  then have ft0: "f_add (tokens l) (f_div (f_of_int e) (f_of_int (every l))) = Fin t0"
    by (simp add: l fe fv v0 to_f64_fl [OF q1000] to_f64_fl t0_def)
  have fb: "f_of_int (burst l) = Fin B" unfolding l B_def using b by (intro f_of_int_exact) simp
  define t1 where "t1 = (if B < t0 then B else t0)"
  have t1: "0 \<le> t1" "t1 \<le> B" using t00 B by (auto simp: t1_def)
  have up: "t1 \<le> t + x + 17 * B / 2 ^ 53"
  proof (cases "x \<le> 2 * B")
    case True
    from refill_upper [OF e(1) v(1) t(1) t(2) [folded B_def] B(1) x_def True]
    show ?thesis unfolding t1_def t0_def by auto
  next
    case False
    with t1(2) t(1) B show ?thesis by (simp add: field_simps)
  qed
  have acq: "(r, l') = (if 1 \<le> t1 then (None, l\<lparr>last_refill := now, tokens := f_sub (Fin t1) (Fin 1)\<rparr>)
     else (Some (int64_of oor (f_mult (f_sub (Fin 1) (Fin t1)) (f_of_int (every l)))), l\<lparr>last_refill := now, tokens := Fin t1\<rparr>))"
    using a unfolding acquire_def Let_def e_def [symmetric] ft0 fb by (simp add: t1_def split: if_splits)
  show ?thesis
  proof (cases "1 \<le> t1")
    case False
    with acq have "tokens l' = Fin t1 \<and> every l' = v \<and> burst l' = b \<and> last_refill l' = now \<and> r \<noteq> None" using l by simp
    moreover have "17 * B / 2 ^ 53 \<le> B / 2 ^ 48" using B(1) by simp
    then have "t1 \<le> t + of_int (now - last_refill l) / of_int v + B / 2 ^ 48" using up x(2) by linarith
    ultimately show ?thesis using t1 unfolding B_def by (intro exI [of _ t1]) auto
  next
    case True
    have "\<bar>t1 - 1\<bar> \<le> 2 ^ 1000" using True t1(2) B(2) by (intro nonneg_bound_1000) auto
    then have f: "f_sub (Fin t1) (Fin 1) = Fin (fl (t1 - 1))" by (simp add: f_sub_def to_f64_fl)
    have n: "0 \<le> fl (t1 - 1)" using True by (intro fl_nonneg) simp
    have m: "fl (t1 - 1) \<le> (t1 - 1) + (t1 - 1) / 2 ^ 53 + tiny" using True by (intro fl_upper) simp
    have m1: "(t1 - 1) / 2 ^ 53 \<le> B / 2 ^ 53" using t1(2) by simp
    have m2: "tiny \<le> B / 2 ^ 53" using tiny_bounds(2) B(1) by simp
    have "B / 2 ^ 53 \<le> 1 / 2" using B(2) by simp
    moreover have "tiny \<le> 1 / 2" using tiny_bounds(2) by (rule order_trans) simp
    ultimately have "fl (t1 - 1) \<le> B" using m m1 t1(2) by linarith
    moreover have "fl (t1 - 1) + 1 \<le> t + of_int (now - last_refill l) / of_int v + B / 2 ^ 48"
    proof -
      have "fl (t1 - 1) + 1 \<le> t + x + 17 * B / 2 ^ 53 + B / 2 ^ 53 + B / 2 ^ 53" using m m1 m2 up by linarith
      also have "\<dots> \<le> t + x + B / 2 ^ 48" using B(1) by simp
      finally show ?thesis using x(2) by linarith
    qed
    ultimately show ?thesis using acq True f n l unfolding B_def by (intro exI [of _ "fl (t1 - 1)"]) auto
  qed
qed

section \<open>All goroutines\<close>

definition limited :: "int \<Rightarrow> int \<Rightarrow> int \<Rightarrow> lsys \<Rightarrow> bool" where
  \<comment> \<open>tokens stay between 0 and the burst, and what was granted and what is left came in at the rate\<close>
  "limited v b start s \<longleftrightarrow>
     (\<exists>t. tokens (lim s) = Fin t \<and> 0 \<le> t \<and> t \<le> of_int b \<and> every (lim s) = v \<and> burst (lim s) = b \<and>
        last_refill (lim s) \<le> clk s \<and>
        of_nat (grants s) + t \<le> of_int b + of_int (last_refill (lim s) - start) / of_int v + of_nat (sections s) * (of_int b / 2 ^ 48))"

lemma limited_acquire:
  assumes "limited v b start s" and v: "1 \<le> v" "v \<le> int64_max" and b: "1 \<le> b" "b \<le> 2 ^ 52"
    and a: "acquire oor (clk s) (lim s) = (r, l)"
  shows "limited v b start (s\<lparr>lim := l, procs := ps, grants := grants s + (if r = None then 1 else 0), sections := Suc (sections s)\<rparr>)"
proof -
  obtain t where t: "tokens (lim s) = Fin t" "0 \<le> t" "t \<le> of_int b" "every (lim s) = v" "burst (lim s) = b" "last_refill (lim s) \<le> clk s"
    and g: "of_nat (grants s) + t \<le> of_int b + of_int (last_refill (lim s) - start) / of_int v + of_nat (sections s) * (of_int b / 2 ^ 48)"
    using assms(1) by (auto simp: limited_def)
  from acquire_round [OF t(4,5,1,6) v b t(2,3) a] obtain t' where
    t': "tokens l = Fin t'" "0 \<le> t'" "t' \<le> of_int b" "every l = v" "burst l = b" "last_refill l = clk s"
    and u: "t' + (if r = None then 1 else 0) \<le> t + of_int (clk s - last_refill (lim s)) / of_int v + of_int b / 2 ^ 48"
    by blast
  have sp: "of_int (last_refill (lim s) - start) / of_int v + of_int (clk s - last_refill (lim s)) / of_int v
      = (of_int (clk s - start) / of_int v :: rat)" by (simp flip: add_divide_distrib)
  have "of_nat (grants s + (if r = None then 1 else 0)) + t' \<le> of_int b + of_int (clk s - start) / of_int v
      + of_nat (Suc (sections s)) * (of_int b / 2 ^ 48)"
    using g u sp unfolding of_nat_Suc distrib_right by (auto split: if_splits; linarith)
  with t' show ?thesis by (simp add: limited_def)
qed

lemma limited_mono:
  "limited v b start s \<Longrightarrow> lim s' = lim s \<Longrightarrow> grants s' = grants s \<Longrightarrow> sections s' = sections s \<Longrightarrow> clk s \<le> clk s' \<Longrightarrow>
    limited v b start s'"
  unfolding limited_def by (auto intro: order_trans)

lemma lstep_limited:
  assumes "lstep oor s s'" and inv: "limited v b start s" and v: "1 \<le> v" "v \<le> int64_max" and b: "1 \<le> b" "b \<le> 2 ^ 52"
  shows "limited v b start s'"
  using assms(1)
proof cases
  case (grant p l)
  then show ?thesis using limited_acquire [OF inv v b grant(3), where ps = "(procs s)(p := Granted)"] by simp
next
  case (sleep p d l)
  then show ?thesis using limited_acquire [OF inv v b sleep(3), where ps = "(procs s)(p := Sleeping (clk s + d))"] by simp
next
  case (call_unlimited p)
  moreover have "every (lim s) = v" using inv by (auto simp: limited_def)
  ultimately show ?thesis using v(1) by simp
qed (rule limited_mono [OF inv]; simp)+

lemma reachable_limited:
  assumes "reachable oor (fresh v b now) s" and "1 \<le> v" "v \<le> int64_max" and "1 \<le> b" "b \<le> 2 ^ 52"
  shows "limited v b now s"
  using assms(1)
proof induction
  case start
  have "f_of_int b = Fin (of_int b)" using assms(4,5) by (intro f_of_int_exact) simp
  then show ?case using assms(4) by (simp add: limited_def fresh_def NewLimiter_def)
next
  case (step s s')
  show ?case by (rule lstep_limited [OF step(2,3) assms(2-5)])
qed

section \<open>A limiter per key\<close>

record keyed_bucket =
  blim :: nat   \<comment> \<open>the pointer to the limiter\<close>
  lastAccess :: int

record keyed_limiter =
  kevery :: int
  kburst :: int
  idleTTL :: int
  heap :: "limiter list"   \<comment> \<open>all limiters ever created; goroutines may still wait on evicted ones\<close>
  limiters :: "string \<rightharpoonup> keyed_bucket"
  stopped :: bool

definition NewKeyedLimiter :: "int \<Rightarrow> int \<Rightarrow> int \<Rightarrow> keyed_limiter" where
  "NewKeyedLimiter ev b ttl =
     \<lparr>kevery = ev, kburst = (if b < 1 then 1 else b), idleTTL = ttl, heap = [], limiters = Map.empty, stopped = False\<rparr>"

definition Stop :: "keyed_limiter \<Rightarrow> keyed_limiter" where
  "Stop k = k\<lparr>stopped := True\<rparr>"

definition sweep_interval :: "keyed_limiter \<Rightarrow> int" where
  "sweep_interval k = (let i = go_quo (idleTTL k) 2 in if i < ns_per_s then ns_per_s else i)"

definition evictIdle :: "int \<Rightarrow> keyed_limiter \<Rightarrow> keyed_limiter" where
  "evictIdle now k = k\<lparr>limiters := (\<lambda>key. case limiters k key of
      None \<Rightarrow> None
    | Some b \<Rightarrow> if idleTTL k < time_Sub now (lastAccess b) then None else Some b)\<rparr>"

definition sweep_tick :: "int \<Rightarrow> keyed_limiter \<Rightarrow> keyed_limiter" where
  \<comment> \<open>one tick of the background sweeper, which runs if \<open>idleTTL > 0\<close> and until \<open>Stop\<close>\<close>
  "sweep_tick now k = (if 0 < idleTTL k \<and> \<not> stopped k then evictIdle now k else k)"

definition bucket :: "int \<Rightarrow> string \<Rightarrow> keyed_limiter \<Rightarrow> nat \<times> keyed_limiter" where
  "bucket now key k =
     (case limiters k key of
        Some b \<Rightarrow> (blim b, k\<lparr>limiters := (limiters k)(key \<mapsto> b\<lparr>lastAccess := now\<rparr>)\<rparr>)
      | None \<Rightarrow>
          let p = length (heap k)
          in (p, k\<lparr>heap := heap k @ [NewLimiter (kevery k) (kburst k) now],
                   limiters := (limiters k)(key \<mapsto> \<lparr>blim = p, lastAccess = now\<rparr>)\<rparr>))"

definition limiterKeyFrom :: "string option \<Rightarrow> string" where
  \<comment> \<open>the value \<open>WithLimiterKey\<close> put into the context\<close>
  "limiterKeyFrom ctx = (case ctx of None \<Rightarrow> [] | Some key \<Rightarrow> key)"

definition WaitKey :: "(f64 \<Rightarrow> int) \<Rightarrow> int \<Rightarrow> string \<Rightarrow> keyed_limiter \<Rightarrow> int option \<times> keyed_limiter" where
  \<comment> \<open>the first round of \<open>k.bucket(key).Wait\<close>\<close>
  "WaitKey oor now key k =
     (case bucket now key k of (p, k1) \<Rightarrow>
        if every (heap k1 ! p) \<le> 0 then (None, k1)
        else case acquire oor now (heap k1 ! p) of (r, l) \<Rightarrow> (r, k1\<lparr>heap := (heap k1)[p := l]\<rparr>))"

definition keyed_inv :: "keyed_limiter \<Rightarrow> bool" where
  \<comment> \<open>pointers are valid, and no two keys share a limiter\<close>
  "keyed_inv k \<longleftrightarrow> (\<forall>key b. limiters k key = Some b \<longrightarrow> blim b < length (heap k)) \<and>
     (\<forall>k1 k2 b1 b2. limiters k k1 = Some b1 \<and> limiters k k2 = Some b2 \<and> blim b1 = blim b2 \<longrightarrow> k1 = k2)"

lemma keyed_inv_New: "keyed_inv (NewKeyedLimiter ev b ttl)"
  by (simp add: keyed_inv_def NewKeyedLimiter_def)

lemma keyed_inv_evict: "keyed_inv k \<Longrightarrow> keyed_inv (sweep_tick now k)"
  unfolding keyed_inv_def sweep_tick_def evictIdle_def by (auto split: option.splits if_splits)

lemma bucket_inv:
  assumes "keyed_inv k" and "bucket now key k = (p, k')"
  shows "keyed_inv k'" and "p < length (heap k')" and "\<exists>b. limiters k' key = Some b \<and> blim b = p"
    and "\<And>i. i < length (heap k) \<Longrightarrow> heap k' ! i = heap k ! i"
proof -
  show "keyed_inv k'"
  proof (cases "limiters k key")
    case None
    then have k': "heap k' = heap k @ [NewLimiter (kevery k) (kburst k) now]"
      "limiters k' = (limiters k)(key \<mapsto> \<lparr>blim = length (heap k), lastAccess = now\<rparr>)" using assms(2) by (auto simp: bucket_def Let_def)
    have "blim b \<noteq> length (heap k)" "blim b < Suc (length (heap k))" if "limiters k x = Some b" for x b
      using assms(1) that unfolding keyed_inv_def by (auto dest: less_imp_neq less_SucI)
    then show ?thesis using assms(1) None unfolding keyed_inv_def k' by (auto split: if_splits; blast)
  next
    case (Some b)
    then show ?thesis using assms unfolding keyed_inv_def by (auto simp: bucket_def split: if_splits)
  qed
  show "p < length (heap k')" and "\<exists>b. limiters k' key = Some b \<and> blim b = p"
    using assms by (auto simp: keyed_inv_def bucket_def Let_def split: option.splits)
  show "heap k' ! i = heap k ! i" if "i < length (heap k)" for i
    using assms(2) that by (auto simp: bucket_def Let_def nth_append split: option.splits)
qed

lemma WaitKey_inv:
  assumes "keyed_inv k" and "WaitKey oor now key k = (r, k')"
  shows "keyed_inv k'"
proof -
  obtain p k1 where b: "bucket now key k = (p, k1)" by fastforce
  have i: "keyed_inv k1" by (rule bucket_inv(1) [OF assms(1) b])
  have "limiters k' = limiters k1 \<and> length (heap k') = length (heap k1)"
    using assms(2) b by (auto simp: WaitKey_def split: if_splits prod.splits)
  with i show ?thesis by (simp add: keyed_inv_def)
qed

text \<open>Waiting under one key leaves the limiter of every other key alone.\<close>

lemma WaitKey_isolated:
  assumes "keyed_inv k" and "WaitKey oor now key k = (r, k')" and "limiters k other = Some b" and "other \<noteq> key"
  shows "limiters k' other = Some b \<and> heap k' ! blim b = heap k ! blim b"
proof -
  obtain p k1 where bk: "bucket now key k = (p, k1)" by fastforce
  note bi = bucket_inv [OF assms(1) bk]
  have o: "limiters k1 other = Some b" using bk assms(3,4) by (auto simp: bucket_def Let_def split: option.splits)
  with bi(1,3) assms(4) have "blim b \<noteq> p" unfolding keyed_inv_def by metis
  moreover have "blim b < length (heap k)" using assms(1,3) by (auto simp: keyed_inv_def)
  ultimately show ?thesis using assms(2) bk o bi(4) by (auto simp: WaitKey_def split: if_splits prod.splits)
qed

text \<open>A bucket is idle when \<open>bucket\<close> was not called for it, even while goroutines still wait on its limiter. After its
  eviction the key gets a full bucket, whatever the old one had left.\<close>

lemma evicted_bucket_is_full:
  assumes "limiters k key = Some b" and "idleTTL k < time_Sub now (lastAccess b)" and "0 < idleTTL k" and "\<not> stopped k"
    and "bucket now key (sweep_tick now k) = (p, k')"
  shows "p = length (heap k) \<and> tokens (heap k' ! p) = f_of_int (if kburst k < 1 then 1 else kburst k) \<and>
    heap k' ! blim b = (heap k @ [NewLimiter (kevery k) (kburst k) now]) ! blim b"
  using assms by (auto simp: sweep_tick_def evictIdle_def bucket_def Let_def NewLimiter_def)

section \<open>Properties\<close>

text \<open>
  C29: The limiter never grants faster than its rate. For any number of goroutines and any interleaving of their calls,
  wake-ups and cancellations, in every reachable state the tokens lie between 0 and the burst, and the
  number of grants since construction is at most the burst plus the elapsed time divided by the period,
  plus a rounding allowance of one \<open>2 ^ 48\<close>th of the burst for each passage through the critical section.
\<close>

theorem Limiter_rate:
  assumes "reachable oor (fresh v b now) s" and "1 \<le> v" and "v \<le> int64_max" and "1 \<le> b" and "b \<le> 2 ^ 52"
  shows "(\<exists>t. tokens (lim s) = Fin t \<and> 0 \<le> t \<and> t \<le> of_int b) \<and>
    of_nat (grants s) \<le> of_int b + of_int (clk s - now) / of_int v + of_nat (sections s) * ((of_int b :: rat) / 2 ^ 48)"
proof -
  have inv: "limited v b now s" by (rule reachable_limited [OF assms])
  then obtain t where t: "tokens (lim s) = Fin t" "0 \<le> t" "t \<le> of_int b" "last_refill (lim s) \<le> clk s"
    and g: "of_nat (grants s) + t \<le> of_int b + of_int (last_refill (lim s) - now) / of_int v + of_nat (sections s) * (of_int b / 2 ^ 48)"
    by (auto simp: limited_def)
  have "of_int (last_refill (lim s) - now) / of_int v \<le> (of_int (clk s - now) / of_int v :: rat)"
    using t(4) assms(2) by (intro divide_right_mono) auto
  then have "of_nat (grants s) \<le> of_int b + of_int (clk s - now) / of_int v + of_nat (sections s) * ((of_int b :: rat) / 2 ^ 48)"
    using g t(2) by linarith
  with t show ?thesis by blast
qed

definition demo_granted :: lsys where
  \<comment> \<open>one call, right after construction with a period of a minute and a burst of 1\<close>
  "demo_granted = (fresh (60 * ns_per_s) 1 0)\<lparr>lim := \<lparr>every = 60 * ns_per_s, burst = 1, tokens = Fin 0, last_refill = 0\<rparr>,
     procs := (\<lambda>_. Idle)(0 := Granted), grants := 1, sections := 1\<rparr>"

lemma demo_granted_reachable: "reachable oor (fresh (60 * ns_per_s) 1 0) demo_granted"
proof -
  let ?s = "fresh (60 * ns_per_s) 1 0"
  have r: "reachable oor ?s (?s\<lparr>procs := (procs ?s)(0 := Acquiring)\<rparr>)" (is "reachable _ _ ?s1")
    by (intro reachable.step [OF reachable.start] lstep.call) (simp_all add: fresh_def NewLimiter_def ns_per_s_def)
  have f: "f_of_int 1 = Fin 1" "f_of_int 0 = Fin 0" using f_of_int_exact [of 1] f_of_int_exact [of 0] by simp_all
  have one: "fl 1 = 1" using fl_int [of 1] by simp
  have sixty: "f_div (Fin 0) (f_of_int (60 * ns_per_s)) = Fin 0"
    using f_of_int_exact [of "60 * ns_per_s"] by (simp add: ns_per_s_def to_f64_fl)
  have a: "acquire oor (clk ?s1) (lim ?s1) = (None, \<lparr>every = 60 * ns_per_s, burst = 1, tokens = Fin 0, last_refill = 0\<rparr>)"
    by (simp add: fresh_def NewLimiter_def acquire_def Let_def time_Sub_def int64_min_def int64_max_def f sixty f_sub_def to_f64_fl one)
  have "lstep oor ?s1 (?s1\<lparr>lim := \<lparr>every = 60 * ns_per_s, burst = 1, tokens = Fin 0, last_refill = 0\<rparr>,
      procs := (procs ?s1)(0 := Granted), grants := Suc (grants ?s1), sections := Suc (sections ?s1)\<rparr>)"
    by (rule lstep.grant [OF _ a]) simp
  from reachable.step [OF r this] show ?thesis by (simp add: demo_granted_def fresh_def)
qed

theorem Limiter_rate_witness:
  "of_nat (grants demo_granted) \<le> (1 :: rat) + of_int (clk demo_granted - 0) / of_int (60 * ns_per_s) + of_nat (sections demo_granted) * (1 / 2 ^ 48)"
proof -
  have "1 \<le> 60 * ns_per_s" "60 * ns_per_s \<le> int64_max" "(1::int) \<le> 1" "(1::int) \<le> 2 ^ 52"
    by (simp_all add: ns_per_s_def int64_max_def)
  from Limiter_rate [OF demo_granted_reachable this] show ?thesis by simp
qed

end
