(* ===== verification/Go_Date.thy ===== *)
theory Go_Date
  imports Go_Prelude
begin

text \<open>
  Calendar dates as \<open>time.Time\<close> formats and parses them with the layout \<open>2006-01-02\<close>, and the type \<open>Date\<close>
  of the Open Banking client (\<open>openbanking/types.go\<close>).

  A \<open>time.Time\<close> is an instant with the offset of its location at that instant; days are counted from
  1 January of year 1 in the proleptic Gregorian calendar. The lemmas show that the calendar
  conversions invert each other and that text and day determine each other.
\<close>

section \<open>The calendar\<close>

definition leap :: "int \<Rightarrow> bool" where
  "leap y \<longleftrightarrow> y mod 4 = 0 \<and> (y mod 100 \<noteq> 0 \<or> y mod 400 = 0)"

definition month_lengths :: "int \<Rightarrow> int list" where
  "month_lengths y = [31, if leap y then 29 else 28, 31, 30, 31, 30, 31, 31, 30, 31, 30, 31]"

definition year_start :: "int \<Rightarrow> int" where
  \<comment> \<open>days from 1 January of year 1 to 1 January of year \<open>y\<close>\<close>
  "year_start y = 365 * (y - 1) + (y - 1) div 4 - (y - 1) div 100 + (y - 1) div 400"

definition year_of :: "int \<Rightarrow> int" where
  "year_of n =
     (let y = n * 400 div 146097 + 1
      in if n < year_start y then y - 1 else if year_start (y + 1) \<le> n then y + 1 else y)"

fun month_of :: "int list \<Rightarrow> int \<Rightarrow> nat \<times> int" where
  \<comment> \<open>month and day of the month for a day of the year, both counted from 1\<close>
  "month_of [] r = (0, 0)"
| "month_of (l # ls) r = (if r < l then (1, r + 1) else case month_of ls (r - l) of (m, d) \<Rightarrow> (Suc m, d))"

definition civil :: "int \<Rightarrow> int \<times> nat \<times> int" where
  "civil n = (let y = year_of n in (y, month_of (month_lengths y) (n - year_start y)))"

definition day_number :: "int \<Rightarrow> nat \<Rightarrow> int \<Rightarrow> int" where
  "day_number y m d = year_start y + sum_list (take (m - 1) (month_lengths y)) + (d - 1)"

definition valid_date :: "int \<Rightarrow> nat \<Rightarrow> int \<Rightarrow> bool" where
  "valid_date y m d \<longleftrightarrow> 1 \<le> m \<and> m \<le> 12 \<and> 1 \<le> d \<and> d \<le> month_lengths y ! (m - 1)"

lemma year_start_step: "year_start (y + 1) = year_start y + (if leap y then 366 else 365)"
proof -
  have q: "y div c = (y - 1) div c + (if y mod c = 0 then 1 else 0)" if "0 < c" for c :: int
  proof (cases "y mod c = 0")
    case True
    have "(y - 1) div c = y div c - 1"
    proof (rule int_div_pos_eq)
      show "y - 1 = c * (y div c - 1) + (c - 1)" using True div_mult_mod_eq [of y c] by (simp add: algebra_simps)
    qed (use that in simp_all)
    with True show ?thesis by simp
  next
    case False
    have "(y - 1) div c = y div c"
    proof (rule int_div_pos_eq)
      show "y - 1 = c * (y div c) + (y mod c - 1)" by (simp add: algebra_simps)
      show "0 \<le> y mod c - 1" using False that pos_mod_sign [of c y] by linarith
      show "y mod c - 1 < c" using that pos_mod_bound [of c y] by linarith
    qed
    with False show ?thesis by simp
  qed
  define A B C where "A \<longleftrightarrow> y mod 4 = 0" and "B \<longleftrightarrow> y mod 100 = 0" and "C \<longleftrightarrow> y mod 400 = 0"
  have m: "B \<longrightarrow> A" "C \<longrightarrow> B" unfolding A_def B_def C_def by presburger+
  have q4: "y div 4 = (y - 1) div 4 + (if A then 1 else 0)" and q100: "y div 100 = (y - 1) div 100 + (if B then 1 else 0)"
    and q400: "y div 400 = (y - 1) div 400 + (if C then 1 else 0)"
    unfolding A_def B_def C_def by (rule q, simp)+
  have "y + 1 - 1 = y" by simp
  then have "year_start (y + 1) = year_start y + 365 + (if A then 1 else 0) - (if B then 1 else 0) + (if C then 1 else 0)"
    unfolding year_start_def by (simp only: q4 q100 q400) (simp only: algebra_simps)
  moreover have "leap y \<longleftrightarrow> A \<and> (\<not> B \<or> C)" by (simp add: leap_def A_def B_def C_def)
  ultimately show ?thesis using m by (cases A; cases B; cases C) simp_all
qed

lemma sum_month_lengths: "sum_list (month_lengths y) = (if leap y then 366 else 365)"
  by (simp add: month_lengths_def)

lemma year_start_mono: "y \<le> z \<Longrightarrow> year_start y \<le> year_start z"
proof (induction z rule: int_ge_induct)
  case (step z)
  then show ?case using year_start_step [of z] by (auto split: if_splits)
qed simp

lemma div_range: "0 < c \<Longrightarrow> c * (x div c) \<le> (x :: int) \<and> x < c * (x div c) + c"
  by (metis add_le_cancel_left add_less_cancel_left le_add_same_cancel1 mult_div_mod_eq pos_mod_bound pos_mod_sign)

lemma year_start_near:
  "146097 * (y - 1) - 699 \<le> 400 * year_start y" "400 * year_start y \<le> 146097 * (y - 1) + 396"
proof -
  let ?k = "y - 1"
  note b = div_range [of 4 ?k] div_range [of 100 ?k] div_range [of 400 ?k]
  show "146097 * (y - 1) - 699 \<le> 400 * year_start y" unfolding year_start_def using b by simp
  show "400 * year_start y \<le> 146097 * (y - 1) + 396" unfolding year_start_def using b by simp
qed

lemma year_of_bounds: "year_start (year_of n) \<le> n" "n < year_start (year_of n + 1)"
proof -
  define k where "k = n * 400 div 146097"
  have k: "146097 * k \<le> 400 * n" "400 * n < 146097 * k + 146097"
    using div_range [of 146097 "n * 400"] unfolding k_def by simp_all
  have "year_start k \<le> n" using year_start_near(2) [of k] k(1) by (simp add: algebra_simps)
  moreover have "n < year_start (k + 3)" using year_start_near(1) [of "k + 3"] k(2) by (simp add: algebra_simps)
  ultimately show "year_start (year_of n) \<le> n" "n < year_start (year_of n + 1)"
    unfolding year_of_def k_def [symmetric] by (auto simp: Let_def add.commute)
qed

lemma year_of_unique: "year_start y \<le> n \<Longrightarrow> n < year_start (y + 1) \<Longrightarrow> year_of n = y"
  using year_of_bounds [of n] year_start_mono [of "y + 1" "year_of n"] year_start_mono [of "year_of n + 1" y]
  by linarith

lemma sum_take_nonneg: "list_all ((<) 0) ls \<Longrightarrow> 0 \<le> (sum_list (take k ls) :: int)"
  by (intro sum_list_nonneg) (metis in_set_takeD less_le list_all_iff)

lemma month_of_sum:
  "list_all ((<) 0) ls \<Longrightarrow> 1 \<le> m \<Longrightarrow> m \<le> length ls \<Longrightarrow> 1 \<le> d \<Longrightarrow> d \<le> ls ! (m - 1) \<Longrightarrow>
   month_of ls (sum_list (take (m - 1) ls) + (d - 1)) = (m, d)"
proof (induction ls arbitrary: m)
  case (Cons l ls)
  show ?case
  proof (cases "m = 1")
    case False
    then obtain k where m: "m = Suc (Suc k)" using Cons.prems(2) by (metis Suc_le_D One_nat_def not0_implies_Suc)
    have "0 \<le> sum_list (take k ls)" using Cons.prems(1) by (intro sum_take_nonneg) simp
    moreover have "month_of ls (sum_list (take k ls) + (d - 1)) = (Suc k, d)"
      using Cons.IH [of "Suc k"] Cons.prems m by simp
    ultimately show ?thesis using Cons.prems(4) m by (simp add: algebra_simps)
  qed (use Cons.prems in auto)
qed simp

lemma month_of_valid:
  "0 \<le> r \<Longrightarrow> r < sum_list ls \<Longrightarrow> month_of ls r = (m, d) \<Longrightarrow>
   1 \<le> m \<and> m \<le> length ls \<and> 1 \<le> d \<and> d \<le> ls ! (m - 1) \<and> r = sum_list (take (m - 1) ls) + (d - 1)"
proof (induction ls arbitrary: r m d)
  case (Cons l ls)
  show ?case
  proof (cases "r < l")
    case False
    obtain m' d' where mo: "month_of ls (r - l) = (m', d')" by fastforce
    from Cons.IH [of "r - l" m' d'] Cons.prems False mo
    have "1 \<le> m' \<and> m' \<le> length ls \<and> 1 \<le> d' \<and> d' \<le> ls ! (m' - 1) \<and> r - l = sum_list (take (m' - 1) ls) + (d' - 1)"
      by simp
    then show ?thesis using Cons.prems(3) False mo by (cases m') auto
  qed (use Cons.prems in auto)
qed simp

lemma sum_take_le: "list_all ((<) 0) ls \<Longrightarrow> m < length ls \<Longrightarrow> sum_list (take m ls) + ls ! m \<le> (sum_list ls :: int)"
proof (induction ls arbitrary: m)
  case (Cons l ls)
  have "0 \<le> sum_list ls" using Cons.prems(1) by (intro sum_list_nonneg) (auto simp: list_all_iff)
  with Cons show ?case by (cases m) auto
qed simp

lemma month_lengths_props: "length (month_lengths y) = 12" "list_all ((<) 0) (month_lengths y)"
  by (simp_all add: month_lengths_def)

lemma civil_day_number:
  assumes "valid_date y m d" shows "civil (day_number y m d) = (y, m, d)"
proof -
  have v: "1 \<le> m" "m \<le> length (month_lengths y)" "1 \<le> d" "d \<le> month_lengths y ! (m - 1)"
    using assms by (simp_all add: valid_date_def month_lengths_props)
  have "0 \<le> sum_list (take (m - 1) (month_lengths y))" by (rule sum_take_nonneg [OF month_lengths_props(2)])
  moreover have "m - 1 < length (month_lengths y)" using v by simp
  note sum_take_le [OF month_lengths_props(2) this]
  ultimately have "year_of (day_number y m d) = y"
    using v(3,4) year_start_step [of y] sum_month_lengths [of y]
    by (intro year_of_unique) (auto simp: day_number_def)
  with month_of_sum [OF month_lengths_props(2) v] show ?thesis
    by (simp add: civil_def day_number_def Let_def)
qed

lemma civil_valid:
  assumes "civil n = (y, m, d)" shows "valid_date y m d" and "day_number y m d = n"
proof -
  have y: "year_of n = y" and mo: "month_of (month_lengths y) (n - year_start y) = (m, d)"
    using assms by (auto simp: civil_def Let_def)
  have "0 \<le> n - year_start y" "n - year_start y < sum_list (month_lengths y)"
    using year_of_bounds [of n] year_start_step [of y] sum_month_lengths [of y] y by auto
  from month_of_valid [OF this mo] show "valid_date y m d" "day_number y m d = n"
    by (auto simp: valid_date_def day_number_def month_lengths_props)
qed

section \<open>The layout 2006-01-02\<close>

record go_time =
  instant :: int   \<comment> \<open>nanoseconds since the Unix epoch\<close>
  offset :: int    \<comment> \<open>of its location at that instant, in seconds east of UTC\<close>

definition day_of :: "go_time \<Rightarrow> int" where
  "day_of t = (Unix (instant t) + offset t) div 86400 + 719162"

definition midnight_UTC :: "int \<Rightarrow> go_time" where
  "midnight_UTC n = \<lparr>instant = at_s ((n - 719162) * 86400), offset = 0\<rparr>"

definition pad :: "nat \<Rightarrow> int \<Rightarrow> string" where
  \<comment> \<open>\<open>appendInt\<close> of package \<open>time\<close>\<close>
  "pad w n = (if n < 0 then ''-'' else []) @
     replicate (w - length (nat_digits (nat \<bar>n\<bar>))) (CHR ''0'') @ nat_digits (nat \<bar>n\<bar>)"

definition format_date :: "go_time \<Rightarrow> string" where
  "format_date t = (case civil (day_of t) of (y, m, d) \<Rightarrow> pad 4 y @ ''-'' @ pad 2 (int m) @ ''-'' @ pad 2 d)"

definition num_field :: "nat \<Rightarrow> string \<Rightarrow> (int \<times> string) option" where
  \<comment> \<open>a field of exactly \<open>w\<close> digits\<close>
  "num_field w s = (if w \<le> length s \<and> list_all is_digit (take w s) then Some (digits_val 0 (take w s), drop w s) else None)"

definition hyphen :: "string \<Rightarrow> string option" where
  "hyphen s = (case s of c # cs \<Rightarrow> if c = CHR ''-'' then Some cs else None | [] \<Rightarrow> None)"

definition parse_date :: "string \<Rightarrow> string + go_time" where
  \<comment> \<open>\<open>time.Parse("2006-01-02", s)\<close>\<close>
  "parse_date s =
     (case num_field 4 s of None \<Rightarrow> Inl ''cannot parse year'' | Some (y, s1) \<Rightarrow>
      case hyphen s1 of None \<Rightarrow> Inl ''cannot parse'' | Some s2 \<Rightarrow>
      case num_field 2 s2 of None \<Rightarrow> Inl ''cannot parse month'' | Some (m, s3) \<Rightarrow>
      if m < 1 \<or> 12 < m then Inl ''month out of range'' else
      case hyphen s3 of None \<Rightarrow> Inl ''cannot parse'' | Some s4 \<Rightarrow>
      case num_field 2 s4 of None \<Rightarrow> Inl ''cannot parse day'' | Some (d, s5) \<Rightarrow>
      if s5 \<noteq> [] then Inl ''extra text''
      else if d < 1 \<or> month_lengths y ! nat (m - 1) < d then Inl ''day out of range''
      else Inr (midnight_UTC (day_number y (nat m) d)))"

lemma day_of_midnight [simp]: "day_of (midnight_UTC n) = n"
  by (simp add: day_of_def midnight_UTC_def)

lemma nat_digits_length: "n < 10 ^ w \<Longrightarrow> 0 < w \<Longrightarrow> length (nat_digits n) \<le> w"
proof (induction n arbitrary: w rule: nat_digits.induct)
  case (1 n)
  show ?case
  proof (cases "n < 10")
    case True
    with 1 show ?thesis by (subst nat_digits.simps) simp
  next
    case False
    with 1 obtain v where w: "w = Suc v" "0 < v" by (cases w) (auto, metis gr0I power_0 One_nat_def mult_1_right)
    with 1 False have "length (nat_digits (n div 10)) \<le> v" by (intro 1) auto
    with False w show ?thesis by (subst nat_digits.simps) simp
  qed
qed

lemma zeros_digits: "list_all is_digit (replicate k (CHR ''0''))" "digits_val 0 (replicate k (CHR ''0'')) = 0"
  by (induction k) (simp_all add: is_digit_def digit_of_def)

lemma pad_props:
  assumes "0 \<le> n" and "n < 10 ^ w" and "0 < w"
  shows "length (pad w n) = w" and "list_all is_digit (pad w n)" and "digits_val 0 (pad w n) = n"
proof -
  have "nat n < 10 ^ w" using assms by (metis nat_less_iff of_nat_power of_nat_numeral)
  from nat_digits_length [OF this assms(3)] assms(1) show "length (pad w n) = w" by (simp add: pad_def)
  show "list_all is_digit (pad w n)" "digits_val 0 (pad w n) = n"
    using assms(1) by (simp_all add: pad_def zeros_digits)
qed

lemma digits_inj:
  "length xs = length ys \<Longrightarrow> list_all is_digit xs \<Longrightarrow> list_all is_digit ys \<Longrightarrow> digits_val 0 xs = digits_val 0 ys \<Longrightarrow> xs = ys"
proof (induction xs arbitrary: ys)
  case (Cons x xs)
  then obtain y zs where ys: "ys = y # zs" by (cases ys) auto
  have v: "digits_val 0 (x # xs) = digit_of x * 10 ^ length xs + digits_val 0 xs"
    "digits_val 0 ys = digit_of y * 10 ^ length xs + digits_val 0 zs"
    using digits_val_acc [of "digit_of x" xs] digits_val_acc [of "digit_of y" zs] Cons.prems(1) ys by simp_all
  have b: "0 \<le> digits_val 0 xs" "digits_val 0 xs < 10 ^ length xs" "0 \<le> digits_val 0 zs" "digits_val 0 zs < 10 ^ length xs"
    using digits_val_bounds [of xs 0] digits_val_bounds [of zs 0] Cons.prems ys by simp_all
  have "digit_of x = (digit_of x * 10 ^ length xs + digits_val 0 xs) div 10 ^ length xs" using b by simp
  also have "\<dots> = digit_of y" using Cons.prems(4) b unfolding v by simp
  finally have d: "digit_of x = digit_of y" .
  then have "x = y" by (simp add: digit_of_def)
  moreover have "xs = zs" using Cons.IH [of zs] Cons.prems v d ys by simp
  ultimately show ?case using ys by simp
qed simp

lemma num_field_pad:
  "0 \<le> n \<Longrightarrow> n < 10 ^ w \<Longrightarrow> 0 < w \<Longrightarrow> num_field w (pad w n @ s) = Some (n, s)"
  by (simp add: num_field_def pad_props)

lemma num_field_SomeD:
  assumes "num_field w s = Some (n, s')" and "0 < w"
  shows "s = pad w n @ s'" and "0 \<le> n" and "n < 10 ^ w"
proof -
  have f: "w \<le> length s" "list_all is_digit (take w s)" "n = digits_val 0 (take w s)" "s' = drop w s"
    using assms(1) by (auto simp: num_field_def split: if_splits)
  from digits_val_bounds [OF f(2), of 0] f(1,3) show n: "0 \<le> n" "n < 10 ^ w" by simp_all
  have "pad w n = take w s" using pad_props [OF n assms(2)] f by (intro digits_inj) simp_all
  with f(4) show "s = pad w n @ s'" by simp
qed

lemma month_lengths_le: "1 \<le> m \<Longrightarrow> m \<le> 12 \<Longrightarrow> month_lengths y ! (m - 1) \<le> 31"
proof -
  assume "1 \<le> m" "m \<le> 12"
  then have "month_lengths y ! (m - 1) \<in> set (month_lengths y)" by (intro nth_mem) (simp add: month_lengths_def)
  then show ?thesis by (auto simp: month_lengths_def split: if_splits)
qed

lemma parse_date_fields:
  assumes "valid_date y m d" and "0 \<le> y" and "y < 10000"
  shows "parse_date (pad 4 y @ ''-'' @ pad 2 (int m) @ ''-'' @ pad 2 d) = Inr (midnight_UTC (day_number y m d))"
proof -
  have v: "1 \<le> m" "m \<le> 12" "1 \<le> d" "d \<le> month_lengths y ! (m - 1)" using assms(1) by (simp_all add: valid_date_def)
  have "d < 100" using month_lengths_le [OF v(1,2), of y] v(4) by simp
  moreover have "nat (int m - 1) = m - 1" using v(1) by simp
  ultimately show ?thesis using v assms(2,3) num_field_pad [of d 2 "[]"]
    by (simp add: parse_date_def num_field_pad hyphen_def)
qed

theorem parse_format_date:
  assumes "0 \<le> fst (civil (day_of t))" and "fst (civil (day_of t)) < 10000"
  shows "parse_date (format_date t) = Inr (midnight_UTC (day_of t))"
proof -
  obtain y m d where c: "civil (day_of t) = (y, m, d)" by (metis prod_cases3)
  with parse_date_fields [OF civil_valid(1) [OF c]] civil_valid(2) [OF c] assms show ?thesis
    by (simp add: format_date_def)
qed

theorem format_parse_date:
  assumes "parse_date s = Inr t"
  shows "format_date t = s" and "t = midnight_UTC (day_of t)"
proof -
  obtain y s1 s2 m s3 s4 d where p: "num_field 4 s = Some (y, s1)" "hyphen s1 = Some s2" "num_field 2 s2 = Some (m, s3)"
    "1 \<le> m" "m \<le> 12" "hyphen s3 = Some s4" "num_field 2 s4 = Some (d, [])" "1 \<le> d" "d \<le> month_lengths y ! nat (m - 1)"
    "t = midnight_UTC (day_number y (nat m) d)"
    using assms by (auto simp: parse_date_def not_less split: option.splits prod.splits if_splits)
  have "valid_date y (nat m) d" using p(4,5,8,9) by (auto simp: valid_date_def nat_diff_distrib)
  then have c: "civil (day_of t) = (y, nat m, d)" using p(10) by (simp add: civil_day_number)
  have h: "a = ''-'' @ b" if "hyphen a = Some b" for a b using that by (auto simp: hyphen_def split: list.splits if_splits)
  have "s = pad 4 y @ ''-'' @ pad 2 m @ ''-'' @ pad 2 d"
    using num_field_SomeD(1) [OF p(1)] num_field_SomeD(1) [OF p(3)] num_field_SomeD(1) [OF p(7)] h [OF p(2)] h [OF p(6)] by simp
  with c p(4) show "format_date t = s" by (simp add: format_date_def)
  show "t = midnight_UTC (day_of t)" by (simp add: p(10))
qed

end
