(* ===== verification/Open_Banking.thy ===== *)
theory Open_Banking
  imports Endpoints Business_Idempotency Currency Mcc Go_Date
begin

text \<open>
  The Open Banking client (\<open>openbanking/\<close>): the authorizer that adds \<open>X-Request-ID\<close>, the headers of the
  Berlin Group protocol, the guards, targets and accepted statuses of all seventeen operations, the cursor of
  the next statement page, and the constructor of the mutually authenticated HTTP client.

  Header names are kept as the source spells them; \<open>canonical\<close> is what \<open>http.Header\<close> makes of them.
\<close>

section \<open>Headers\<close>

fun canonical_from :: "bool \<Rightarrow> string \<Rightarrow> string" where
  "canonical_from up [] = []"
| "canonical_from up (c # cs) =
     (let n = of_char c :: nat;
          c' = (if up \<and> 97 \<le> n \<and> n \<le> 122 then char_of (n - 32)
                else if \<not> up \<and> 65 \<le> n \<and> n \<le> 90 then char_of (n + 32) else c)
      in c' # canonical_from (c = CHR ''-'') cs)"

definition canonical_key :: "string \<Rightarrow> string" where
  \<comment> \<open>\<open>textproto.CanonicalMIMEHeaderKey\<close> of a valid header name\<close>
  "canonical_key = canonical_from True"

definition HeaderRequestID :: string where "HeaderRequestID = ''X-Request-ID''"
definition HeaderConsentID :: string where "HeaderConsentID = ''Consent-ID''"
definition HeaderPSUID :: string where "HeaderPSUID = ''PSU-ID''"
definition HeaderPSUIDType :: string where "HeaderPSUIDType = ''PSU-ID-Type''"
definition HeaderPSUCorporateID :: string where "HeaderPSUCorporateID = ''PSU-Corporate-ID''"
definition HeaderPSUCorporateIDType :: string where "HeaderPSUCorporateIDType = ''PSU-Corporate-ID-Type''"
definition HeaderPSUIPAddress :: string where "HeaderPSUIPAddress = ''PSU-IP-Address''"
definition HeaderTPPRedirectURI :: string where "HeaderTPPRedirectURI = ''TPP-Redirect-URI''"
definition HeaderTPPSCAApproachPreference :: string where "HeaderTPPSCAApproachPreference = ''TPP-SCA-Approach-Preference''"

lemma canonical_names [simp]:
  "canonical_key HeaderRequestID = ''X-Request-Id''" "canonical_key HeaderConsentID = ''Consent-Id''"
  "canonical_key HeaderPSUID = ''Psu-Id''" "canonical_key HeaderPSUIDType = ''Psu-Id-Type''"
  "canonical_key HeaderPSUCorporateID = ''Psu-Corporate-Id''" "canonical_key HeaderPSUCorporateIDType = ''Psu-Corporate-Id-Type''"
  "canonical_key HeaderPSUIPAddress = ''Psu-Ip-Address''" "canonical_key HeaderTPPRedirectURI = ''Tpp-Redirect-Uri''"
  "canonical_key HeaderTPPSCAApproachPreference = ''Tpp-Sca-Approach-Preference''"
  by code_simp+

definition setIfNotEmpty :: "string \<Rightarrow> string \<Rightarrow> (string \<times> string) list" where
  "setIfNotEmpty name value = (if value \<noteq> [] then [(canonical_key name, value)] else [])"

record psu =
  psuID :: string
  IDType :: string
  CorporateID :: string
  CorporateIDType :: string
  IPAddress :: string

definition PSU_apply :: "psu \<Rightarrow> (string \<times> string) list" where
  "PSU_apply p = setIfNotEmpty HeaderPSUID (psuID p) @ setIfNotEmpty HeaderPSUIDType (IDType p) @
     setIfNotEmpty HeaderPSUCorporateID (CorporateID p) @ setIfNotEmpty HeaderPSUCorporateIDType (CorporateIDType p) @
     setIfNotEmpty HeaderPSUIPAddress (IPAddress p)"

record initiation_options =
  PSU :: psu
  TPPRedirectURI :: string

record account_options =
  ConsentID :: string
  PSUIPAddress :: string

definition AccountOptions_apply :: "account_options \<Rightarrow> (string \<times> string) list" where
  "AccountOptions_apply opts = (canonical_key HeaderConsentID, ConsentID opts) # setIfNotEmpty HeaderPSUIPAddress (PSUIPAddress opts)"

section \<open>Dates\<close>

type_synonym date = go_time

definition NewDate :: "go_time \<Rightarrow> date" where
  "NewDate t = t"

definition Date_IsZero :: "date \<Rightarrow> bool" where
  "Date_IsZero d \<longleftrightarrow> instant d = zero_time"

definition Date_String :: "date \<Rightarrow> string" where
  "Date_String d = (if Date_IsZero d then [] else format_date d)"

definition zero_Date :: date where
  "zero_Date = \<lparr>instant = zero_time, offset = 0\<rparr>"

definition Date_MarshalJSON :: "(string \<Rightarrow> string) \<Rightarrow> date \<Rightarrow> string" where
  \<comment> \<open>\<open>quote\<close> is \<open>json.Marshal\<close> of a string\<close>
  "Date_MarshalJSON quote d = quote (Date_String d)"

definition Date_UnmarshalJSON :: "(string \<Rightarrow> string + string) \<Rightarrow> string \<Rightarrow> string + date" where
  \<comment> \<open>\<open>unquote\<close> is \<open>json.Unmarshal\<close> into a string\<close>
  "Date_UnmarshalJSON unquote data =
     (case unquote data of
        Inl e \<Rightarrow> Inl e
      | Inr s \<Rightarrow> if s = [] then Inr zero_Date else parse_date s)"

record transactions_options = account_options +
  BookingStatus :: string
  DateFrom :: date
  DateTo :: date
  PageID :: string

section \<open>Construction\<close>

definition OB_BaseURLProduction :: string where
  "OB_BaseURLProduction = ''https://openbanking.mono.bank''"

record 'w request_id_auth =
  NewRequestID :: "('w \<Rightarrow> string \<times> 'w) option"

definition requestIDFromContext :: "('w \<Rightarrow> string option) \<Rightarrow> 'w \<Rightarrow> string" where
  \<comment> \<open>\<open>pinned\<close> looks up the value under \<open>requestIDKey\<close> in the context of the call\<close>
  "requestIDFromContext pinned w = (case pinned w of None \<Rightarrow> [] | Some i \<Rightarrow> i)"

definition newUUIDv4 :: "('w \<Rightarrow> nat list \<times> 'w) \<Rightarrow> 'w \<Rightarrow> string \<times> 'w" where
  \<comment> \<open>\<open>rand_Read\<close> fills a 16-byte array\<close>
  "newUUIDv4 rand_Read w = (case rand_Read w of (b, w1) \<Rightarrow> (uuid_text (uuid_bytes b), w1))"

definition newID :: "('w \<Rightarrow> nat list \<times> 'w) \<Rightarrow> 'w request_id_auth \<Rightarrow> 'w \<Rightarrow> string \<times> 'w" where
  "newID rand_Read a w = (case NewRequestID a of Some f \<Rightarrow> f w | None \<Rightarrow> newUUIDv4 rand_Read w)"

definition RequestIDAuth_SetAuth :: "('w \<Rightarrow> string option) \<Rightarrow> ('w \<Rightarrow> nat list \<times> 'w) \<Rightarrow> 'w request_id_auth \<Rightarrow>
    http_request \<Rightarrow> 'w \<Rightarrow> (string + http_request) \<times> 'w" where
  "RequestIDAuth_SetAuth pinned rand_Read a r w =
     (let (h, w1) =
        (if rHeader r (canonical_key HeaderRequestID) = [] then
           (let i = requestIDFromContext pinned w;
                (i', w') = (if i = [] then newID rand_Read a w else (i, w))
            in ((rHeader r)(canonical_key HeaderRequestID := i'), w'))
         else (rHeader r, w))
      in (Inr (r\<lparr>rHeader := set_default ''Accept'' ''application/json'' h\<rparr>), w1))"

definition openbanking_New :: "('w, 'v) env \<Rightarrow> ('w \<Rightarrow> string option) \<Rightarrow> ('w \<Rightarrow> nat list \<times> 'w) \<Rightarrow>
    (http_request \<Rightarrow> 'w \<Rightarrow> (string + http_response) \<times> 'w) \<Rightarrow> ('w client \<Rightarrow> 'w client) list \<Rightarrow> 'w client" where
  "openbanking_New env pinned rand_Read stdDo opts =
     New env stdDo ([WithBaseURL env OB_BaseURLProduction,
       WithAuth (Some (RequestIDAuth_SetAuth pinned rand_Read \<lparr>NewRequestID = None\<rparr>))] @ opts)"

interpretation request_id: authorizer "RequestIDAuth_SetAuth pinned rand_Read a" "{''X-Request-Id'', ''Accept''}"
  for pinned rand_Read a
  by unfold_locales (auto simp: RequestIDAuth_SetAuth_def Let_def set_default_def split: prod.splits if_splits)

section \<open>Guards and paths\<close>

datatype ob_error =
    ObErrEmptyID | ObErrNilRequest | ErrMissingConsentID | ErrMissingPSUIPAddress | ErrMissingBookingStatus

type_synonym ('v, 'w) ob_call = "'w \<Rightarrow> (ob_error, 'v, 'w) outcome"

definition badPathSegment :: "string \<Rightarrow> bool" where
  "badPathSegment s \<longleftrightarrow> s = [] \<or> s = ''.'' \<or> s = ''..''"

definition pathPrefix :: string where
  "pathPrefix = ''/ext''"

definition consentsPath :: string where
  "consentsPath = pathPrefix @ ''/v2/consents/account-access''"

definition accountsPath :: string where
  "accountsPath = pathPrefix @ ''/v2/accounts''"

definition paymentsPath :: string where
  "paymentsPath = pathPrefix @ ''/v2/payments''"

definition certRequestPath :: string where
  "certRequestPath = pathPrefix @ ''/test-integration/cert-request''"

section \<open>Consents\<close>

definition CreateConsent :: "('w, 'v) env \<Rightarrow> string \<Rightarrow> 'w client \<Rightarrow> ('r \<Rightarrow> string + string) \<Rightarrow> 'r option \<Rightarrow> initiation_options \<Rightarrow>
    ('v, 'w) ob_call" where
  "CreateConsent env ua c marshal inp opts w =
     (case inp of
        None \<Rightarrow> (Inl (Guard ObErrNilRequest), w)
      | Some r \<Rightarrow>
          if IPAddress (PSU opts) = [] then (Inl (Guard ErrMissingPSUIPAddress), w)
          else send_json env ua c ''POST'' consentsPath (marshal r)
                 (PSU_apply (PSU opts) @ setIfNotEmpty HeaderTPPRedirectURI (TPPRedirectURI opts)) TJSON [201] w)"

definition StartConsentAuthorisation :: "('w, 'v) env \<Rightarrow> string \<Rightarrow> 'w client \<Rightarrow> string \<Rightarrow> ('v, 'w) ob_call" where
  "StartConsentAuthorisation env ua c consentID w =
     (if badPathSegment consentID then (Inl (Guard ObErrEmptyID), w)
      else dispatch env ua c ''POST'' (consentsPath @ ''/'' @ PathEscape consentID @ ''/authorisations'') None [] TJSON [201] w)"

definition Consent :: "('w, 'v) env \<Rightarrow> string \<Rightarrow> 'w client \<Rightarrow> string \<Rightarrow> ('v, 'w) ob_call" where
  "Consent env ua c consentID w =
     (if badPathSegment consentID then (Inl (Guard ObErrEmptyID), w)
      else get_json env ua c (consentsPath @ ''/'' @ PathEscape consentID) w)"

definition ConsentStatus :: "('w, 'v) env \<Rightarrow> string \<Rightarrow> 'w client \<Rightarrow> string \<Rightarrow> ('v, 'w) ob_call" where
  "ConsentStatus env ua c consentID w =
     (if badPathSegment consentID then (Inl (Guard ObErrEmptyID), w)
      else get_json env ua c (consentsPath @ ''/'' @ PathEscape consentID @ ''/status'') w)"

definition RevokeConsent :: "('w, 'v) env \<Rightarrow> string \<Rightarrow> 'w client \<Rightarrow> string \<Rightarrow> ('v, 'w) ob_call" where
  "RevokeConsent env ua c consentID w =
     (if badPathSegment consentID then (Inl (Guard ObErrEmptyID), w)
      else dispatch env ua c ''DELETE'' (consentsPath @ ''/'' @ PathEscape consentID) None [] TNil [204] w)"

section \<open>Accounts\<close>

record 'a accounts_response =
  outAccounts :: 'a

definition ob_Accounts :: "('w, 'v accounts_response) env \<Rightarrow> string \<Rightarrow> 'w client \<Rightarrow> account_options \<Rightarrow> bool \<Rightarrow>
    ('v, 'w) ob_call" where
  \<comment> \<open>the options with their field \<open>WithBalance\<close>\<close>
  "ob_Accounts env ua c opts withBalance w =
     (if ConsentID opts = [] then (Inl (Guard ErrMissingConsentID), w)
      else map_json outAccounts
        (dispatch env ua c ''GET'' (accountsPath @ (if withBalance then ''?withBalance=true'' else [])) None
           (AccountOptions_apply opts) TJSON [200] w))"

definition ob_Balances :: "('w, 'v) env \<Rightarrow> string \<Rightarrow> 'w client \<Rightarrow> string \<Rightarrow> account_options \<Rightarrow> ('v, 'w) ob_call" where
  "ob_Balances env ua c accountID opts w =
     (if badPathSegment accountID then (Inl (Guard ObErrEmptyID), w)
      else if ConsentID opts = [] then (Inl (Guard ErrMissingConsentID), w)
      else dispatch env ua c ''GET'' (accountsPath @ ''/'' @ PathEscape accountID @ ''/balances'') None
             (AccountOptions_apply opts) TJSON [200] w)"

definition transactions_query :: "transactions_options \<Rightarrow> url_values" where
  "transactions_query opts =
     opt_Set (PageID opts \<noteq> []) ''pageId'' (PageID opts)
       (opt_Set (\<not> Date_IsZero (DateTo opts)) ''dateTo'' (Date_String (DateTo opts))
         (opt_Set (\<not> Date_IsZero (DateFrom opts)) ''dateFrom'' (Date_String (DateFrom opts))
           (Set ''bookingStatus'' (BookingStatus opts) [])))"

definition ob_Transactions :: "('w, 'v) env \<Rightarrow> string \<Rightarrow> 'w client \<Rightarrow> string \<Rightarrow> transactions_options \<Rightarrow> ('v, 'w) ob_call" where
  "ob_Transactions env ua c accountID opts w =
     (if badPathSegment accountID then (Inl (Guard ObErrEmptyID), w)
      else if ConsentID opts = [] then (Inl (Guard ErrMissingConsentID), w)
      else if BookingStatus opts = [] then (Inl (Guard ErrMissingBookingStatus), w)
      else dispatch env ua c ''GET''
             (accountsPath @ ''/'' @ PathEscape accountID @ ''/transactions?'' @ Encode (transactions_query opts)) None
             (AccountOptions_apply (account_options.truncate opts)) TJSON [200] w)"

record href =
  Href :: string

record account_report_links =
  First :: "href option"
  Next :: "href option"

record 't account_report =
  Booked :: "'t list"
  reportLinks :: account_report_links

record ('a, 't) transactions_response =
  outAccount :: 'a
  reportTransactions :: "'t account_report option"

definition NextPageID :: "(string \<Rightarrow> url option) \<Rightarrow> ('a, 't) transactions_response option \<Rightarrow> string \<times> bool" where
  "NextPageID parse page =
     (case page of None \<Rightarrow> ([], False) | Some p \<Rightarrow>
      case reportTransactions p of None \<Rightarrow> ([], False) | Some rep \<Rightarrow>
      case Next (reportLinks rep) of None \<Rightarrow> ([], False) | Some l \<Rightarrow>
      case parse (Href l) of
        None \<Rightarrow> ([], False)
      | Some u \<Rightarrow>
          (let i = (case map_of (ParseQuery (RawQuery u)) ''pageId'' of None \<Rightarrow> [] | Some v \<Rightarrow> v)
           in (i, i \<noteq> [])))"

section \<open>Payments\<close>

definition paymentPath :: "string \<Rightarrow> string \<Rightarrow> string \<Rightarrow> ob_error + string" where
  "paymentPath product paymentID suffix =
     (if badPathSegment product \<or> badPathSegment paymentID then Inl ObErrEmptyID
      else Inr (paymentsPath @ ''/'' @ PathEscape product @ ''/'' @ PathEscape paymentID @ suffix))"

definition on_path :: "ob_error + string \<Rightarrow> (string \<Rightarrow> ('v, 'w) ob_call) \<Rightarrow> ('v, 'w) ob_call" where
  "on_path p call w = (case p of Inl e \<Rightarrow> (Inl (Guard e), w) | Inr uri \<Rightarrow> call uri w)"

definition CreatePayment :: "('w, 'v) env \<Rightarrow> string \<Rightarrow> 'w client \<Rightarrow> ('r \<Rightarrow> string + string) \<Rightarrow> string \<Rightarrow> 'r option \<Rightarrow>
    initiation_options \<Rightarrow> ('v, 'w) ob_call" where
  "CreatePayment env ua c marshal product inp opts w =
     (if badPathSegment product then (Inl (Guard ObErrEmptyID), w)
      else case inp of
        None \<Rightarrow> (Inl (Guard ObErrNilRequest), w)
      | Some r \<Rightarrow>
          if IPAddress (PSU opts) = [] then (Inl (Guard ErrMissingPSUIPAddress), w)
          else send_json env ua c ''POST'' (paymentsPath @ ''/'' @ PathEscape product) (marshal r)
                 (PSU_apply (PSU opts) @ setIfNotEmpty HeaderTPPRedirectURI (TPPRedirectURI opts)) TJSON [201] w)"

definition Payment :: "('w, 'v) env \<Rightarrow> string \<Rightarrow> 'w client \<Rightarrow> string \<Rightarrow> string \<Rightarrow> ('v, 'w) ob_call" where
  "Payment env ua c product paymentID =
     on_path (paymentPath product paymentID []) (get_json env ua c)"

definition PaymentStatus :: "('w, 'v) env \<Rightarrow> string \<Rightarrow> 'w client \<Rightarrow> string \<Rightarrow> string \<Rightarrow> ('v, 'w) ob_call" where
  "PaymentStatus env ua c product paymentID =
     on_path (paymentPath product paymentID ''/status'') (get_json env ua c)"

definition CancelPayment :: "('w, 'v) env \<Rightarrow> string \<Rightarrow> 'w client \<Rightarrow> string \<Rightarrow> string \<Rightarrow> ('v, 'w) ob_call" where
  "CancelPayment env ua c product paymentID =
     on_path (paymentPath product paymentID []) (\<lambda>uri. dispatch env ua c ''DELETE'' uri None [] TNil [204])"

definition StartPaymentAuthorisation :: "('w, 'v) env \<Rightarrow> string \<Rightarrow> 'w client \<Rightarrow> string \<Rightarrow> string \<Rightarrow> string \<Rightarrow> ('v, 'w) ob_call" where
  \<comment> \<open>the last argument is the option \<open>SCAApproachPreference\<close>\<close>
  "StartPaymentAuthorisation env ua c product paymentID preference =
     on_path (paymentPath product paymentID ''/authorisations'')
       (\<lambda>uri. dispatch env ua c ''POST'' uri None (setIfNotEmpty HeaderTPPSCAApproachPreference preference) TJSON [201])"

record authorisations_response =
  AuthorisationIDs :: "string list"

definition PaymentAuthorisations :: "('w, authorisations_response) env \<Rightarrow> string \<Rightarrow> 'w client \<Rightarrow> string \<Rightarrow> string \<Rightarrow>
    (string list, 'w) ob_call" where
  "PaymentAuthorisations env ua c product paymentID =
     on_path (paymentPath product paymentID ''/authorisations'') (\<lambda>uri w. map_json AuthorisationIDs (get_json env ua c uri w))"

definition PaymentAuthorisationStatus :: "('w, 'v) env \<Rightarrow> string \<Rightarrow> 'w client \<Rightarrow> string \<Rightarrow> string \<Rightarrow> string \<Rightarrow> ('v, 'w) ob_call" where
  "PaymentAuthorisationStatus env ua c product paymentID authorisationID w =
     (if badPathSegment authorisationID then (Inl (Guard ObErrEmptyID), w)
      else on_path (paymentPath product paymentID (''/authorisations/'' @ PathEscape authorisationID)) (get_json env ua c) w)"

section \<open>Test certificates, messages, codes\<close>

definition RequestTestCertificate :: "('w, 'v) env \<Rightarrow> string \<Rightarrow> 'w client \<Rightarrow> ('r \<Rightarrow> string + string) \<Rightarrow> 'r option \<Rightarrow> ('v, 'w) ob_call" where
  "RequestTestCertificate env ua c marshal inp w =
     (case inp of
        None \<Rightarrow> (Inl (Guard ObErrNilRequest), w)
      | Some r \<Rightarrow> send_json env ua c ''POST'' certRequestPath (marshal r) [] TJSON [201] w)"

definition TestCertificateStatus :: "('w, 'v) env \<Rightarrow> string \<Rightarrow> 'w client \<Rightarrow> (string \<Rightarrow> string + string) \<Rightarrow> string \<Rightarrow> ('v, 'w) ob_call" where
  \<comment> \<open>\<open>marshal\<close> encodes the object with the single field \<open>csrPem\<close>\<close>
  "TestCertificateStatus env ua c marshal csrPEM w =
     (if csrPEM = [] then (Inl (Guard ObErrEmptyID), w)
      else send_json env ua c ''POST'' (certRequestPath @ ''/status'') (marshal csrPEM) [] TJSON [200] w)"

record client_message =
  msgCategory :: string
  msgCode :: string
  msgText :: string

definition Messages :: "(string \<Rightarrow> client_message list option) \<Rightarrow> client_error option \<Rightarrow> client_message list" where
  \<comment> \<open>\<open>decode\<close> is \<open>json.Unmarshal\<close> into \<open>errorBody\<close>; a nil slice is the empty list\<close>
  "Messages decode err =
     (case err of None \<Rightarrow> [] | Some e \<Rightarrow>
      case as_api_error e of None \<Rightarrow> [] | Some api \<Rightarrow>
      if apiBody api = [] then []
      else case decode (apiBody api) of None \<Rightarrow> [] | Some ms \<Rightarrow> ms)"

definition Card_MCCCode :: "string \<Rightarrow> int" where
  \<comment> \<open>of the field \<open>MerchantCategoryCode\<close>\<close>
  "Card_MCCCode code =
     (case Atoi code of None \<Rightarrow> 0 | Some n \<Rightarrow> if n < 1 \<or> 9999 < n then 0 else n)"

section \<open>The mutually authenticated HTTP client\<close>

record mtls_config =
  CertPEM :: string
  KeyPEM :: string
  RootCAsPEM :: string
  cfgTimeout :: int

datatype mtls_error =
    ErrNoClientCert | LoadClientCert string | ErrInvalidCA | NotStdTransport | ReadCert string | ReadKey string | ReadCA string

record ('cert, 'pool) tls_client =
  Certificates :: "'cert list"
  MinVersion :: int
  RootCAs :: "'pool option"
  Timeout :: int

definition DefaultTimeout :: int where
  "DefaultTimeout = 30 * 1000000000"

definition NewMTLSHTTPClient :: "(string \<Rightarrow> string \<Rightarrow> string + 'cert) \<Rightarrow> (string \<Rightarrow> 'pool option) \<Rightarrow> bool \<Rightarrow> mtls_config \<Rightarrow>
    mtls_error + ('cert, 'pool) tls_client" where
  \<comment> \<open>\<open>tls.X509KeyPair\<close>, the pool when \<open>AppendCertsFromPEM\<close> accepts, and whether
      \<open>http.DefaultTransport\<close> is an \<open>*http.Transport\<close>; 771 is TLS 1.2\<close>
  "NewMTLSHTTPClient keyPair pool stdTransport cfg =
     (if CertPEM cfg = [] \<or> KeyPEM cfg = [] then Inl ErrNoClientCert
      else case keyPair (CertPEM cfg) (KeyPEM cfg) of
        Inl e \<Rightarrow> Inl (LoadClientCert e)
      | Inr cert \<Rightarrow>
          (case (if RootCAsPEM cfg = [] then Inr None
                 else case pool (RootCAsPEM cfg) of None \<Rightarrow> Inl ErrInvalidCA | Some p \<Rightarrow> Inr (Some p)) of
             Inl e \<Rightarrow> Inl e
           | Inr cas \<Rightarrow>
               if \<not> stdTransport then Inl NotStdTransport
               else Inr \<lparr>Certificates = [cert], MinVersion = 771, RootCAs = cas,
                         Timeout = (if cfgTimeout cfg = 0 then DefaultTimeout else cfgTimeout cfg)\<rparr>))"

definition NewMTLSHTTPClientFromFiles :: "(string \<Rightarrow> string + string) \<Rightarrow> (string \<Rightarrow> string \<Rightarrow> string + 'cert) \<Rightarrow>
    (string \<Rightarrow> 'pool option) \<Rightarrow> bool \<Rightarrow> string \<Rightarrow> string \<Rightarrow> string \<Rightarrow> mtls_error + ('cert, 'pool) tls_client" where
  "NewMTLSHTTPClientFromFiles ReadFile keyPair pool stdTransport certFile keyFile caFile =
     (case ReadFile certFile of Inl e \<Rightarrow> Inl (ReadCert e) | Inr certPEM \<Rightarrow>
      case ReadFile keyFile of Inl e \<Rightarrow> Inl (ReadKey e) | Inr keyPEM \<Rightarrow>
      if caFile = [] then
        NewMTLSHTTPClient keyPair pool stdTransport \<lparr>CertPEM = certPEM, KeyPEM = keyPEM, RootCAsPEM = [], cfgTimeout = 0\<rparr>
      else case ReadFile caFile of
        Inl e \<Rightarrow> Inl (ReadCA e)
      | Inr caPEM \<Rightarrow>
          NewMTLSHTTPClient keyPair pool stdTransport
            \<lparr>CertPEM = certPEM, KeyPEM = keyPEM, RootCAsPEM = caPEM, cfgTimeout = 0\<rparr>)"

section \<open>What the bank receives\<close>

definition request_id :: "('w \<Rightarrow> string option) \<Rightarrow> ('w \<Rightarrow> nat list \<times> 'w) \<Rightarrow> 'w request_id_auth \<Rightarrow> 'w \<Rightarrow> string" where
  "request_id pinned rand_Read a w =
     (if requestIDFromContext pinned w = [] then fst (newID rand_Read a w) else requestIDFromContext pinned w)"

definition ob_client :: "('w, 'v) env \<Rightarrow> ('w \<Rightarrow> string option) \<Rightarrow> ('w \<Rightarrow> nat list \<times> 'w) \<Rightarrow> 'w request_id_auth \<Rightarrow> 'w client \<Rightarrow>
    ('w \<Rightarrow> (http_request \<times> (string + http_response)) list) \<Rightarrow> bool" where
  \<comment> \<open>a client with the package's authorizer and no request hook, over a logging transport\<close>
  "ob_client env pinned rand_Read a c sent \<longleftrightarrow>
     observed env c sent \<and> onReq c = None \<and> SetAuth c = Some (RequestIDAuth_SetAuth pinned rand_Read a)"

lemma fold_other: "k \<notin> set (map fst hs) \<Longrightarrow> fold (\<lambda>(k, v) h. h(k := v)) hs h k = h k"
  by (induction hs arbitrary: h) auto

lemma RequestIDAuth_sets_id:
  assumes "fst (RequestIDAuth_SetAuth pinned rand_Read a r w) = Inr r'" and "rHeader r ''X-Request-Id'' = []"
  shows "rHeader r' ''X-Request-Id'' = request_id pinned rand_Read a w"
  using assms by (auto simp: RequestIDAuth_SetAuth_def Let_def set_default_def request_id_def split: prod.splits if_splits)

lemma ob_dispatch_sends:
  assumes c: "ob_client env pinned rand_Read a c sent" and "go_targets env" and "target_ok uri"
    and base: "baseURL c = Some base" "Opaque base = []"
    and dots: "set (split_on (CHR ''/'') (fst (cut (CHR ''?'') uri))) \<inter> dots = {}"
    and hs: "''X-Request-Id'' \<notin> set (map fst hs)"
    and d: "dispatch env ua c meth uri b hs v codes w = (res, w')"
  shows "\<exists>R rs. sent w' = sent w @ map (\<lambda>r. (R, r)) rs \<and>
    length rs \<le> (if repeatable c meth hs then attempts_of (retry c) else 1) \<and>
    (rs \<noteq> [] \<longrightarrow> rMethod R = meth \<and> rBody R = sent_body b \<and> Host (rURL R) = Host base \<and> Scheme (rURL R) = Scheme base \<and>
      Path (rURL R) = fst (cut (CHR ''?'') uri) \<and> RawQuery (rURL R) = snd (cut (CHR ''?'') uri) \<and>
      rHeader R ''X-Request-Id'' = request_id pinned rand_Read a w \<and>
      (\<forall>k. k \<notin> {''X-Request-Id'', ''Accept'', ''Content-Type'', ''User-Agent''} \<longrightarrow>
        rHeader R k = fold (\<lambda>(k, v) h. h(k := v)) hs (\<lambda>_. []) k))"
proof -
  let ?h = "fold (\<lambda>(k, v) h. h(k := v)) hs (\<lambda>_. [])"
  have cl: "observed env c sent" "onReq c = None" and au: "SetAuth c = Some (RequestIDAuth_SetAuth pinned rand_Read a)"
    using c by (auto simp: ob_client_def)
  have keep: "keeps_headers (- {''X-Request-Id'', ''Accept''}) c"
    using request_id.keeps_headers_with [of pinned rand_Read a c] au by (simp only: keeps_headers_def) simp
  from dispatch_sends_keeping [OF cl keep _ assms(2,3) d] obtain R rs
    where s: "sent w' = sent w @ map (\<lambda>r. (R, r)) rs" "length rs \<le> (if repeatable c meth hs then attempts_of (retry c) else 1)"
      and r: "rs \<noteq> [] \<longrightarrow> is_call c meth uri b hs R \<and> authorized c ?h w R \<and>
        (\<forall>k\<in>- {''X-Request-Id'', ''Accept''} - {''Content-Type'', ''User-Agent''}. rHeader R k = ?h k)" by auto
  have rid: "rHeader R ''X-Request-Id'' = request_id pinned rand_Read a w" if "authorized c ?h w R"
  proof -
    from that au obtain r r' where x: "fst (RequestIDAuth_SetAuth pinned rand_Read a r w) = Inr r'" "rHeader R = rHeader r'"
      "rHeader r ''X-Request-Id'' = ?h ''X-Request-Id''" unfolding authorized_def by auto
    with fold_other [OF hs] RequestIDAuth_sets_id [OF x(1)] show ?thesis by simp
  qed
  have call: "rMethod R = meth" "rBody R = sent_body b" if "is_call c meth uri b hs R" using that by (simp_all add: is_call_def)
  show ?thesis
    using s r rid call is_call_path [OF _ base(1) assms(3) base(2) dots] by (intro exI [of _ R] exI [of _ rs]) auto
qed

lemma escaped_segment: "\<not> badPathSegment s \<Longrightarrow> PathEscape s \<notin> dots"
  using escape_dots [of PathSegment s] by (simp add: badPathSegment_def dots_def)

lemma split_slash: "split_on (CHR ''/'') (s @ CHR ''/'' # t) = split_on (CHR ''/'') s @ split_on (CHR ''/'') t"
  by (rule split_on_cat)

lemma split_PathEscape: "split_on (CHR ''/'') (PathEscape s) = [PathEscape s]"
  by (rule split_on_plain) (rule PathEscape_segment(1))

lemmas ob_paths = pathPrefix_def accountsPath_def paymentsPath_def consentsPath_def

lemma payment_path_target:
  assumes "paymentPath product paymentID [] = Inr uri"
  shows "target_ok uri" and "cut (CHR ''?'') uri = (uri, [])"
    and "split_on (CHR ''/'') uri = [[], ''ext'', ''v2'', ''payments'', PathEscape product, PathEscape paymentID]"
    and "set (split_on (CHR ''/'') uri) \<inter> dots = {}"
proof -
  have g: "\<not> badPathSegment product" "\<not> badPathSegment paymentID"
    and u: "uri = (''/ext/v2/payments/'' @ PathEscape product) @ CHR ''/'' # PathEscape paymentID"
    using assms by (auto simp: paymentPath_def ob_paths split: if_splits)
  have e: "escaped (''/ext/v2/payments/'')" "escaped ''/''" by (rule escaped_plain, simp add: is_alnum_def is_alpha_def)+
  have "escaped ((''/ext/v2/payments/'' @ PathEscape product) @ ''/'' @ PathEscape paymentID)"
    by (intro escaped_append escaped_PathEscape e)
  then have "escaped uri" by (simp add: u)
  from target_escaped [OF this, of "[]"] u show t: "target_ok uri" "cut (CHR ''?'') uri = (uri, [])"
    using Encode_Nil_iff [of "[]"] by (simp_all add: with_query_def del: Encode_Nil_iff)
  show sp: "split_on (CHR ''/'') uri = [[], ''ext'', ''v2'', ''payments'', PathEscape product, PathEscape paymentID]"
    unfolding u split_slash split_PathEscape by (simp add: split_PathEscape)
  show "set (split_on (CHR ''/'') uri) \<inter> dots = {}"
    unfolding sp using escaped_segment [OF g(1)] escaped_segment [OF g(2)] by (auto simp: dots_def)
qed

lemma transactions_target:
  fixes q :: url_values
  assumes "\<not> badPathSegment accountID"
  defines "p \<equiv> accountsPath @ ''/'' @ PathEscape accountID @ ''/transactions''"
  shows "target_ok (with_query p q)" and "cut (CHR ''?'') (with_query p q) = (p, Encode q)"
    and "split_on (CHR ''/'') p = [[], ''ext'', ''v2'', ''accounts'', PathEscape accountID, ''transactions'']"
    and "set (split_on (CHR ''/'') p) \<inter> dots = {}"
proof -
  have u: "p = (''/ext/v2/accounts/'' @ PathEscape accountID) @ CHR ''/'' # ''transactions''"
    by (simp add: p_def ob_paths)
  have e: "escaped ''/ext/v2/accounts/''" "escaped ''/transactions''" by (rule escaped_plain, simp add: is_alnum_def is_alpha_def)+
  have "escaped ((''/ext/v2/accounts/'' @ PathEscape accountID) @ ''/transactions'')"
    by (intro escaped_append escaped_PathEscape e)
  then have "escaped p" by (simp add: u)
  from target_escaped [OF this, of q] u show "target_ok (with_query p q)" "cut (CHR ''?'') (with_query p q) = (p, Encode q)"
    by simp_all
  show sp: "split_on (CHR ''/'') p = [[], ''ext'', ''v2'', ''accounts'', PathEscape accountID, ''transactions'']"
    unfolding u split_slash by (simp add: split_PathEscape)
  show "set (split_on (CHR ''/'') p) \<inter> dots = {}"
    unfolding sp using escaped_segment [OF assms(1)] by (auto simp: dots_def)
qed

lemma transactions_query_keys: "distinct (map fst (transactions_query opts))" "transactions_query opts \<noteq> []"
  by (simp add: transactions_query_def opt_Set_keys Set_keys) (simp add: transactions_query_def opt_Set_def Set_def)

section \<open>Properties\<close>

lemma date_chars: "list_all (\<lambda>c. is_digit c \<or> c = CHR ''-'') (format_date d)"
proof -
  have "list_all (\<lambda>c. is_digit c \<or> c = CHR ''-'') ds" if "list_all is_digit ds" for ds
    using that by (simp add: list_all_iff)
  from this [OF nat_digits_digits] this [OF zeros_digits(1)] show ?thesis
    by (simp add: format_date_def pad_def split: prod.split)
qed

lemma zero_Date_midnight: "zero_Date = midnight_UTC 0"
  by (simp add: zero_Date_def midnight_UTC_def zero_time_def at_s_def ns_per_s_def)

lemma format_date_ne: "format_date d \<noteq> []"
  by (simp add: format_date_def split: prod.split)

lemma Date_back:
  assumes "unquote (quote (Date_String d)) = Inr (Date_String d)"
    and y: "0 \<le> fst (civil (day_of d))" "fst (civil (day_of d)) \<le> 9999"
  shows "Date_UnmarshalJSON unquote (Date_MarshalJSON quote d) = Inr (if Date_IsZero d then zero_Date else midnight_UTC (day_of d))"
  using assms(1) parse_format_date [OF y(1)] y(2) format_date_ne [of d]
  by (auto simp: Date_UnmarshalJSON_def Date_MarshalJSON_def Date_String_def split: if_splits)

text \<open>
  C13: Dates survive the wire. For an encoder and a decoder of JSON strings that agree on digits and hyphens, a
  date of the years 0 to 9999, in whatever time zone, is sent as its calendar day and comes back as midnight
  UTC of the same day, the unset date as the unset one; and text that is accepted is printed again unchanged,
  except the day that stands for the unset date.
\<close>

theorem Date_JSON_roundtrip:
  assumes q: "\<And>s. list_all (\<lambda>c. is_digit c \<or> c = CHR ''-'') s \<Longrightarrow> unquote (quote s) = Inr s"
    and y: "0 \<le> fst (civil (day_of d))" "fst (civil (day_of d)) \<le> 9999"
    and p: "Date_UnmarshalJSON unquote data = Inr d'" "unquote data = Inr s"
  shows "Date_UnmarshalJSON unquote (Date_MarshalJSON quote d) =
      Inr (if Date_IsZero d then zero_Date else midnight_UTC (day_of d)) \<and>
    Date_String d' = (if s = ''0001-01-01'' then [] else s)"
proof (rule conjI)
  have "list_all (\<lambda>c. is_digit c \<or> c = CHR ''-'') (Date_String d)" using date_chars by (simp add: Date_String_def)
  then show "Date_UnmarshalJSON unquote (Date_MarshalJSON quote d) =
      Inr (if Date_IsZero d then zero_Date else midnight_UTC (day_of d))"
    by (intro Date_back q y)
  show "Date_String d' = (if s = ''0001-01-01'' then [] else s)"
  proof (cases "s = []")
    case True
    with p show ?thesis by (auto simp: Date_UnmarshalJSON_def Date_String_def Date_IsZero_def zero_Date_def)
  next
    case False
    with p have d': "parse_date s = Inr d'" by (simp add: Date_UnmarshalJSON_def)
    note f = format_parse_date [OF d']
    have "Date_IsZero d' \<longleftrightarrow> d' = zero_Date"
      using f(2) by (metis Date_IsZero_def zero_Date_def go_time.select_convs(1) go_time.surjective go_time.select_convs(2)
          midnight_UTC_def unit.exhaust)
    moreover have "d' = zero_Date \<longleftrightarrow> s = ''0001-01-01''"
    proof
      have "format_date zero_Date = ''0001-01-01''" unfolding zero_Date_midnight by code_simp
      then show "d' = zero_Date \<Longrightarrow> s = ''0001-01-01''" using f(1) by simp
      have "parse_date ''0001-01-01'' = Inr zero_Date" unfolding zero_Date_midnight by code_simp
      then show "s = ''0001-01-01'' \<Longrightarrow> d' = zero_Date" using d' by simp
    qed
    ultimately show ?thesis using f(1) by (simp add: Date_String_def)
  qed
qed

theorem Date_JSON_roundtrip_witness:
  "Date_UnmarshalJSON (\<lambda>s. Inr s) (Date_MarshalJSON (\<lambda>s. s) \<lparr>instant = at_s 1735689599, offset = 7200\<rparr>)
     = Inr (midnight_UTC 739251) \<and> Date_String (midnight_UTC 739251) = ''2025-01-01''"
proof -
  let ?d = "\<lparr>instant = at_s 1735689599, offset = 7200\<rparr>"
  have c: "civil (day_of ?d) = (2025, 1, 1)" "day_of ?d = 739251" by code_simp+
  have p: "Date_UnmarshalJSON (\<lambda>s. Inr s) ''2025-01-01'' = Inr (midnight_UTC 739251)" by code_simp
  have z: "\<not> Date_IsZero ?d" by (simp add: Date_IsZero_def at_s_def ns_per_s_def zero_time_def)
  show ?thesis
    using Date_JSON_roundtrip [where unquote = "\<lambda>s. Inr s" and quote = "\<lambda>s. s" and d = ?d, OF refl _ _ p refl] c z by simp
qed

text \<open>
  C34: An identifier cannot redirect the cancellation of a payment. Whatever the two strings are, either
  nothing is sent and the call fails with the guard's error, or every exchange, retries included, is the same DELETE to the base
  URL's host, whose path has exactly the four segments of the endpoint and two more that decode to the
  product and the payment id, without a query and under one request id.
\<close>

theorem CancelPayment_addresses_one_payment:
  assumes "ob_client env pinned rand_Read a c sent" and "go_targets env" and "baseURL c = Some base" and "Opaque base = []"
    and cancel: "CancelPayment env ua c product paymentID w = (res, w')"
  shows "\<exists>R rs. sent w' = sent w @ map (\<lambda>r. (R, r)) rs \<and> length rs \<le> attempts_of (retry c) \<and>
    (badPathSegment product \<or> badPathSegment paymentID \<longrightarrow> rs = [] \<and> res = Inl (Guard ObErrEmptyID)) \<and>
    (rs \<noteq> [] \<longrightarrow> rMethod R = ''DELETE'' \<and> Host (rURL R) = Host base \<and> Scheme (rURL R) = Scheme base \<and> RawQuery (rURL R) = [] \<and>
      rHeader R ''X-Request-Id'' = request_id pinned rand_Read a w \<and>
      (\<exists>s1 s2. split_on (CHR ''/'') (Path (rURL R)) = [[], ''ext'', ''v2'', ''payments'', s1, s2] \<and>
        unescape PathSegment s1 = Some product \<and> unescape PathSegment s2 = Some paymentID))"
proof (cases "paymentPath product paymentID []")
  case (Inl e)
  then have "e = ObErrEmptyID" by (auto simp: paymentPath_def split: if_splits)
  with Inl cancel have "w' = w" "res = Inl (Guard ObErrEmptyID)" by (auto simp: CancelPayment_def on_path_def)
  then show ?thesis by (intro exI [of _ undefined] exI [of _ "[]"]) simp
next
  case (Inr uri)
  note t = payment_path_target [OF Inr]
  from Inr have g: "\<not> (badPathSegment product \<or> badPathSegment paymentID)" by (auto simp: paymentPath_def split: if_splits)
  have d: "dispatch env ua c ''DELETE'' uri None [] TNil [204] w = (res, w')" using cancel Inr by (simp add: CancelPayment_def on_path_def)
  have dots: "set (split_on (CHR ''/'') (fst (cut (CHR ''?'') uri))) \<inter> dots = {}" unfolding t(2) fst_conv by (rule t(4))
  from ob_dispatch_sends [OF assms(1,2) t(1) assms(3,4) dots _ d] obtain R rs
    where "sent w' = sent w @ map (\<lambda>r. (R, r)) rs" "length rs \<le> attempts_of (retry c)"
      "rs \<noteq> [] \<longrightarrow> rMethod R = ''DELETE'' \<and> Host (rURL R) = Host base \<and> Scheme (rURL R) = Scheme base \<and>
         Path (rURL R) = uri \<and> RawQuery (rURL R) = [] \<and> rHeader R ''X-Request-Id'' = request_id pinned rand_Read a w"
    unfolding t(2) by (auto simp: repeatable_def)
  then show ?thesis using g t(3) by (intro exI [of _ R] exI [of _ rs]) auto
qed

definition ob_demo_client :: "(http_request \<times> (string + http_response)) list client" where
  "ob_demo_client = demo_client\<lparr>SetAuth := Some (RequestIDAuth_SetAuth (\<lambda>_. Some ''trace-1'') (\<lambda>w. (replicate 16 0, w)) \<lparr>NewRequestID = None\<rparr>)\<rparr>"

lemma ob_demo: "ob_client web_env (\<lambda>_. Some ''trace-1'') (\<lambda>w. (replicate 16 0, w)) \<lparr>NewRequestID = None\<rparr> ob_demo_client (\<lambda>w. w)"
  "baseURL ob_demo_client = Some (demo_url ''https'' ''api.monobank.ua'' [])" "Opaque (demo_url ''https'' ''api.monobank.ua'' []) = []"
  by (simp_all add: ob_client_def ob_demo_client_def observed_def web_env_def demo_defs Let_def
      RequestIDAuth_SetAuth_def requestIDFromContext_def split: prod.split)

theorem CancelPayment_addresses_one_payment_witness:
  "list_all (\<lambda>(R, r). rMethod R = ''DELETE'' \<and> rHeader R ''X-Request-Id'' = ''trace-1'')
     (snd (CancelPayment web_env ''sdk'' ob_demo_client ''credit-transfers'' ''a/../b'' [])) \<and>
   snd (CancelPayment web_env ''sdk'' ob_demo_client ''credit-transfers'' ''..'' []) = []"
proof -
  obtain res w' where d: "CancelPayment web_env ''sdk'' ob_demo_client ''credit-transfers'' ''a/../b'' [] = (res, w')" by fastforce
  obtain res2 w2 where d2: "CancelPayment web_env ''sdk'' ob_demo_client ''credit-transfers'' ''..'' [] = (res2, w2)" by fastforce
  note th = CancelPayment_addresses_one_payment [OF ob_demo(1) web_env_targets ob_demo(2,3)]
  have "w2 = []" using th [OF d2] by (auto simp: badPathSegment_def)
  moreover obtain R rs where "w' = map (\<lambda>r. (R, r)) rs"
    "rs \<noteq> [] \<longrightarrow> rMethod R = ''DELETE'' \<and> rHeader R ''X-Request-Id'' = ''trace-1''"
    using th [OF d] by (auto simp: request_id_def requestIDFromContext_def)
  ultimately show ?thesis using d d2 by (auto simp: list_all_iff)
qed

text \<open>
  C35: A statement request says exactly what the caller asked for. Without an account id, a consent or a booking
  status nothing is sent; otherwise every exchange is one GET to the base URL's host whose path
  names the account in a single segment, whose query decodes to the booking status, the dates that are set and the page cursor
  and nothing else, and which carries the consent and one request id.
\<close>

theorem ob_Transactions_request:
  assumes "ob_client env pinned rand_Read a c sent" and "go_targets env" and "baseURL c = Some base" and "Opaque base = []"
    and call: "ob_Transactions env ua c accountID opts w = (res, w')"
  shows "\<exists>R rs. sent w' = sent w @ map (\<lambda>r. (R, r)) rs \<and> length rs \<le> attempts_of (retry c) \<and>
    (rs \<noteq> [] \<longrightarrow> \<not> badPathSegment accountID \<and> BookingStatus opts \<noteq> [] \<and> ConsentID opts \<noteq> [] \<and>
      rMethod R = ''GET'' \<and> Host (rURL R) = Host base \<and> Scheme (rURL R) = Scheme base \<and>
      rHeader R ''X-Request-Id'' = request_id pinned rand_Read a w \<and> rHeader R ''Consent-Id'' = ConsentID opts \<and>
      rHeader R ''Psu-Ip-Address'' = PSUIPAddress opts \<and>
      (\<exists>seg. split_on (CHR ''/'') (Path (rURL R)) = [[], ''ext'', ''v2'', ''accounts'', seg, ''transactions''] \<and>
        unescape PathSegment seg = Some accountID) \<and>
      map_of (ParseQuery (RawQuery (rURL R))) = (\<lambda>k.
        if k = ''bookingStatus'' then Some (BookingStatus opts)
        else if k = ''dateFrom'' \<and> \<not> Date_IsZero (DateFrom opts) then Some (format_date (DateFrom opts))
        else if k = ''dateTo'' \<and> \<not> Date_IsZero (DateTo opts) then Some (format_date (DateTo opts))
        else if k = ''pageId'' \<and> PageID opts \<noteq> [] then Some (PageID opts)
        else None))"
proof (cases "badPathSegment accountID \<or> ConsentID opts = [] \<or> BookingStatus opts = []")
  case True
  with call have "w' = w" by (auto simp: ob_Transactions_def split: if_splits)
  then show ?thesis by (intro exI [of _ undefined] exI [of _ "[]"]) simp
next
  case False
  let ?q = "transactions_query opts" and ?hs = "AccountOptions_apply (account_options.truncate opts)"
  let ?p = "accountsPath @ ''/'' @ PathEscape accountID @ ''/transactions''"
  have g: "\<not> badPathSegment accountID" using False by simp
  note t = transactions_target [OF g]
  have d: "dispatch env ua c ''GET'' (with_query ?p ?q) None ?hs TJSON [200] w = (res, w')"
    using call False transactions_query_keys(2) [of opts] by (simp add: ob_Transactions_def with_query_def)
  have dots: "set (split_on (CHR ''/'') (fst (cut (CHR ''?'') (with_query ?p ?q)))) \<inter> dots = {}" unfolding t(2) fst_conv by (rule t(4))
  have hs: "''X-Request-Id'' \<notin> set (map fst ?hs)" by (auto simp: AccountOptions_apply_def setIfNotEmpty_def)
  have hv: "fold (\<lambda>(k, v) h. h(k := v)) ?hs (\<lambda>_. []) ''Consent-Id'' = ConsentID opts"
    "fold (\<lambda>(k, v) h. h(k := v)) ?hs (\<lambda>_. []) ''Psu-Ip-Address'' = PSUIPAddress opts"
    by (simp_all add: AccountOptions_apply_def setIfNotEmpty_def account_options.truncate_def)
  have q: "map_of (ParseQuery (Encode ?q)) = (\<lambda>k.
        if k = ''bookingStatus'' then Some (BookingStatus opts)
        else if k = ''dateFrom'' \<and> \<not> Date_IsZero (DateFrom opts) then Some (format_date (DateFrom opts))
        else if k = ''dateTo'' \<and> \<not> Date_IsZero (DateTo opts) then Some (format_date (DateTo opts))
        else if k = ''pageId'' \<and> PageID opts \<noteq> [] then Some (PageID opts) else None)"
    unfolding ParseQuery_of [OF transactions_query_keys(1)] by (auto simp: transactions_query_def Date_String_def fun_eq_iff)
  from ob_dispatch_sends [OF assms(1,2) t(1) assms(3,4) dots hs d] obtain R rs
    where "sent w' = sent w @ map (\<lambda>r. (R, r)) rs" "length rs \<le> attempts_of (retry c)"
      "rs \<noteq> [] \<longrightarrow> rMethod R = ''GET'' \<and> Host (rURL R) = Host base \<and> Scheme (rURL R) = Scheme base \<and>
         Path (rURL R) = ?p \<and> RawQuery (rURL R) = Encode ?q \<and> rHeader R ''X-Request-Id'' = request_id pinned rand_Read a w \<and>
         rHeader R ''Consent-Id'' = ConsentID opts \<and> rHeader R ''Psu-Ip-Address'' = PSUIPAddress opts"
    unfolding t(2) fst_conv snd_conv using hv by (auto simp: repeatable_def)
  then show ?thesis using False t(3) q by (intro exI [of _ R] exI [of _ rs]) (simp del: append_assoc)
qed

theorem ob_Transactions_request_witness:
  "list_all (\<lambda>(R, r). rHeader R ''Consent-Id'' = ''c-1'' \<and> map_of (ParseQuery (RawQuery (rURL R))) ''pageId'' = Some ''a&b'' \<and>
       map_of (ParseQuery (RawQuery (rURL R))) ''dateFrom'' = None)
     (snd (ob_Transactions web_env ''sdk'' ob_demo_client ''acc''
       \<lparr>ConsentID = ''c-1'', PSUIPAddress = [], BookingStatus = ''booked'', DateFrom = zero_Date, DateTo = zero_Date, PageID = ''a&b''\<rparr> []))"
proof -
  let ?o = "\<lparr>ConsentID = ''c-1'', PSUIPAddress = [], BookingStatus = ''booked'', DateFrom = zero_Date, DateTo = zero_Date, PageID = ''a&b''\<rparr>"
  obtain res w' where d: "ob_Transactions web_env ''sdk'' ob_demo_client ''acc'' ?o [] = (res, w')" by fastforce
  from ob_Transactions_request [OF ob_demo(1) web_env_targets ob_demo(2,3) d] obtain R rs
    where "w' = map (\<lambda>r. (R, r)) rs" "rs \<noteq> [] \<longrightarrow> rHeader R ''Consent-Id'' = ''c-1'' \<and>
      map_of (ParseQuery (RawQuery (rURL R))) ''pageId'' = Some ''a&b'' \<and> map_of (ParseQuery (RawQuery (rURL R))) ''dateFrom'' = None"
    by (auto simp: Date_IsZero_def zero_Date_def)
  then show ?thesis using d by (auto simp: list_all_iff)
qed

text \<open>The generated request id is a version-4 UUID and so never empty.\<close>

lemma request_id_default:
  assumes "NewRequestID a = None" and "length (fst (rand_Read w)) = 16"
  shows "requestIDFromContext pinned w = [] \<Longrightarrow> length (request_id pinned rand_Read a w) = 36"
    and "request_id pinned rand_Read a w \<noteq> []"
proof -
  show l: "length (request_id pinned rand_Read a w) = 36" if "requestIDFromContext pinned w = []"
    using assms that by (cases "rand_Read w") (simp add: request_id_def newID_def newUUIDv4_def uuid_text_def uuid_bytes_def)
  show "request_id pinned rand_Read a w \<noteq> []"
  proof (cases "requestIDFromContext pinned w = []")
    case True
    from l [OF this] show ?thesis by (metis list.size(3) zero_neq_numeral)
  qed (simp add: request_id_def)
qed

text \<open>The cursor of one page is what the next request asks for.\<close>

lemma NextPageID_of_link:
  assumes "parse (Href l) = Some u" and "RawQuery u = Encode (transactions_query opts)" and "PageID opts \<noteq> []"
  shows "NextPageID parse (Some \<lparr>outAccount = x, reportTransactions = Some \<lparr>Booked = b, reportLinks = \<lparr>First = f, Next = Some l\<rparr>\<rparr>\<rparr>) = (PageID opts, True)"
proof -
  have "map_of (ParseQuery (Encode (transactions_query opts))) ''pageId'' = Some (PageID opts)"
    unfolding ParseQuery_of [OF transactions_query_keys(1)] using assms(3) by (simp add: transactions_query_def)
  with assms show ?thesis by (simp add: NextPageID_def)
qed

text \<open>
  A CA file that is named but empty is not an error: the client falls back to the system's roots, while a
  file without a certificate is refused.
\<close>

lemma empty_ca_file_uses_system_roots:
  assumes "ReadFile cf = Inr cert" "ReadFile kf = Inr key" "ReadFile ca = Inr []" "ca \<noteq> []" "cert \<noteq> []" "key \<noteq> []"
    and "keyPair cert key = Inr pair"
  shows "\<exists>cl. NewMTLSHTTPClientFromFiles ReadFile keyPair pool True cf kf ca = Inr cl \<and> RootCAs cl = None"
  using assms by (simp add: NewMTLSHTTPClientFromFiles_def NewMTLSHTTPClient_def)

end
