(* ===== verification/Go_Utf8.thy ===== *)
theory Go_Utf8
  imports Go_Prelude
begin

text \<open>
  UTF-8 as \<open>unicode/utf8\<close> reads and writes it: decoding one rune, encoding one rune, and the runes of a byte
  string, an invalid byte being one \<open>RuneError\<close>. The lemmas say that encoding inverts decoding in both
  directions.
\<close>

section \<open>Runes\<close>

definition RuneError :: nat where
  "RuneError = 65533"

definition cont :: "nat \<Rightarrow> bool" where
  "cont b \<longleftrightarrow> 128 \<le> b \<and> b \<le> 191"

definition valid_rune :: "nat \<Rightarrow> bool" where
  "valid_rune r \<longleftrightarrow> r < 1114112 \<and> \<not> (55296 \<le> r \<and> r \<le> 57343)"

definition decode_rune :: "nat list \<Rightarrow> nat \<times> nat" where
  \<comment> \<open>\<open>utf8.DecodeRune\<close> of bytes: the rune and its width\<close>
  "decode_rune bs =
     (case bs of
        [] \<Rightarrow> (RuneError, 0)
      | b0 # rest \<Rightarrow>
          if b0 < 128 then (b0, 1)
          else if 194 \<le> b0 \<and> b0 \<le> 223 then
            (case rest of
               b1 # _ \<Rightarrow> if cont b1 then ((b0 - 192) * 64 + (b1 - 128), 2) else (RuneError, 1)
             | _ \<Rightarrow> (RuneError, 1))
          else if 224 \<le> b0 \<and> b0 \<le> 239 then
            (case rest of
               b1 # b2 # _ \<Rightarrow>
                 if cont b1 \<and> (b0 = 224 \<longrightarrow> 160 \<le> b1) \<and> (b0 = 237 \<longrightarrow> b1 \<le> 159) \<and> cont b2
                 then ((b0 - 224) * 4096 + (b1 - 128) * 64 + (b2 - 128), 3) else (RuneError, 1)
             | _ \<Rightarrow> (RuneError, 1))
          else if 240 \<le> b0 \<and> b0 \<le> 244 then
            (case rest of
               b1 # b2 # b3 # _ \<Rightarrow>
                 if cont b1 \<and> (b0 = 240 \<longrightarrow> 144 \<le> b1) \<and> (b0 = 244 \<longrightarrow> b1 \<le> 143) \<and> cont b2 \<and> cont b3
                 then ((b0 - 240) * 262144 + (b1 - 128) * 4096 + (b2 - 128) * 64 + (b3 - 128), 4) else (RuneError, 1)
             | _ \<Rightarrow> (RuneError, 1))
          else (RuneError, 1))"

definition encode_rune :: "nat \<Rightarrow> nat list" where
  \<comment> \<open>\<open>utf8.AppendRune\<close>\<close>
  "encode_rune r =
     (if r < 128 then [r]
      else if r < 2048 then [192 + r div 64, 128 + r mod 64]
      else if \<not> valid_rune r then [239, 191, 189]
      else if r < 65536 then [224 + r div 4096, 128 + r div 64 mod 64, 128 + r mod 64]
      else [240 + r div 262144, 128 + r div 4096 mod 64, 128 + r div 64 mod 64, 128 + r mod 64])"

fun runes_of :: "nat list \<Rightarrow> nat list" where
  "runes_of [] = []"
| "runes_of (b # bs) = (case decode_rune (b # bs) of (r, n) \<Rightarrow> r # runes_of (drop (n - 1) bs))"

definition bytes_of :: "string \<Rightarrow> nat list" where
  "bytes_of s = map of_char s"

definition string_of :: "nat list \<Rightarrow> string" where
  "string_of bs = map char_of bs"

definition runes :: "string \<Rightarrow> nat list" where
  "runes s = runes_of (bytes_of s)"

lemma valid_two: "k \<le> (31 :: nat) \<Longrightarrow> x \<le> 63 \<Longrightarrow> valid_rune (k * 64 + x)"
  by (simp add: valid_rune_def)

lemma valid_three:
  assumes "k \<le> (15 :: nat)" "x \<le> 63" "y \<le> 63" "k = 13 \<longrightarrow> x \<le> 31"
  shows "valid_rune (k * 4096 + x * 64 + y)"
proof -
  consider "k \<le> 12" | "k = 13" | "14 \<le> k" by linarith
  then show ?thesis using assms by cases (simp_all add: valid_rune_def)
qed

lemma valid_four:
  assumes "k \<le> (4 :: nat)" "x \<le> 63" "y \<le> 63" "z \<le> 63" "k = 0 \<longrightarrow> 16 \<le> x" "k = 4 \<longrightarrow> x \<le> 15"
  shows "valid_rune (k * 262144 + x * 4096 + y * 64 + z)"
proof -
  consider "k = 0" | "1 \<le> k" "k \<le> 3" | "k = 4" using assms(1) by linarith
  then show ?thesis using assms by cases (simp_all add: valid_rune_def)
qed

lemma decode_valid: "valid_rune (fst (decode_rune bs))"
proof (cases bs)
  case (Cons b0 rest)
  have "valid_rune RuneError" by (simp add: valid_rune_def RuneError_def)
  moreover have "valid_rune ((b0 - 192) * 64 + (b1 - 128))" if "194 \<le> b0" "b0 \<le> 223" "cont b1" for b1
    using that by (intro valid_two) (auto simp: cont_def)
  moreover have "valid_rune ((b0 - 224) * 4096 + (b1 - 128) * 64 + (b2 - 128))"
    if "b0 \<le> 239" "cont b1" "b0 = 237 \<longrightarrow> b1 \<le> 159" "cont b2" for b1 b2
    using that by (intro valid_three) (auto simp: cont_def)
  moreover have "valid_rune ((b0 - 240) * 262144 + (b1 - 128) * 4096 + (b2 - 128) * 64 + (b3 - 128))"
    if "240 \<le> b0" "b0 \<le> 244" "cont b1" "b0 = 240 \<longrightarrow> 144 \<le> b1" "b0 = 244 \<longrightarrow> b1 \<le> 143" "cont b2" "cont b3" for b1 b2 b3
    using that by (intro valid_four) (auto simp: cont_def)
  moreover have "valid_rune b0" if "b0 < 128" using that by (simp add: valid_rune_def)
  ultimately show ?thesis unfolding Cons decode_rune_def by (auto split: list.split)
qed (simp add: decode_rune_def valid_rune_def RuneError_def)

lemma base64_digits: "r div 64 div 64 = r div 4096" "r div 4096 div 64 = r div (262144 :: nat)"
  by (simp_all add: div_mult2_eq [symmetric])

lemma decode_encode:
  assumes "valid_rune r"
  shows "decode_rune (encode_rune r @ s) = (r, length (encode_rune r))"
proof -
  have m: "x mod 64 \<le> 63" for x :: nat using mod_less_divisor [of 64 x] by linarith
  have c: "cont (128 + x mod 64)" for x :: nat using m [of x] by (simp add: cont_def)
  have j1: "r div 64 * 64 + r mod 64 = r" by simp
  have j2: "r div 4096 * 64 + r div 64 mod 64 = r div 64" using div_mult_mod_eq [of "r div 64" 64] by (simp add: base64_digits)
  have j3: "r div 262144 * 64 + r div 4096 mod 64 = r div 4096" using div_mult_mod_eq [of "r div 4096" 64] by (simp add: base64_digits)
  consider "r < 128" | "128 \<le> r" "r < 2048" | "2048 \<le> r" "r < 65536" | "65536 \<le> r" by linarith
  then show ?thesis
  proof cases
    case 2
    have "2 \<le> r div 64" "r div 64 \<le> 31" using 2 j1 m [of r] by linarith+
    with 2 c [of r] j1 show ?thesis by (simp add: encode_rune_def decode_rune_def)
  next
    case 3
    let ?k = "r div 4096" and ?x = "r div 64 mod 64"
    have b: "?k \<le> 15" using 3 by (simp add: less_eq_div_iff_mult_less_eq div_le_mono [of r 65535 4096])
    have lo: "160 \<le> 128 + ?x" if "?k = 0" using j1 j2 m [of r] 3 that by linarith
    have hi: "128 + ?x \<le> 159" if "?k = 13"
      using j1 j2 m [of r] m [of "r div 64"] assms that unfolding valid_rune_def by linarith
    have "?k * 4096 + ?x * 64 + r mod 64 = r" using j1 j2 by linarith
    with 3 b lo hi c [of r] c [of "r div 64"] assms show ?thesis by (simp add: encode_rune_def decode_rune_def)
  next
    case 4
    let ?k = "r div 262144" and ?x = "r div 4096 mod 64"
    have v: "r < 1114112" using assms by (simp add: valid_rune_def)
    have e: "?k * 262144 + ?x * 4096 + (r div 64 mod 64) * 64 + r mod 64 = r" using j1 j2 j3 by linarith
    have b: "?k \<le> 4" using e v by linarith
    have lo: "144 \<le> 128 + ?x" if "?k = 0" using e 4 m [of r] m [of "r div 64"] that by linarith
    have hi: "128 + ?x \<le> 143" if "?k = 4" using e v that by linarith
    from 4 b lo hi c [of r] c [of "r div 64"] c [of "r div 4096"] e assms show ?thesis
      by (simp add: encode_rune_def decode_rune_def)
  qed (simp add: encode_rune_def decode_rune_def)
qed

lemma encode_bytes: "valid_rune r \<Longrightarrow> \<forall>b\<in>set (encode_rune r). b < 256"
  by (auto simp: encode_rune_def valid_rune_def div_less_iff_less_mult)

lemma runes_of_ne: "bs \<noteq> [] \<Longrightarrow> runes_of bs \<noteq> [] \<and> hd (runes_of bs) = fst (decode_rune bs)"
  by (cases bs) (auto split: prod.split)

lemma bytes_string_of: "\<forall>b\<in>set bs. b < 256 \<Longrightarrow> bytes_of (string_of bs) = bs"
  by (induction bs) (auto simp: bytes_of_def string_of_def)


lemma two_digits: "x < 64 \<Longrightarrow> (k * 64 + x) div 64 = k" "x < (64 :: nat) \<Longrightarrow> (k * 64 + x) mod 64 = x" for k x :: nat
  by simp_all

lemma encode_two: "2 \<le> k \<Longrightarrow> k \<le> 31 \<Longrightarrow> x < 64 \<Longrightarrow> encode_rune (k * 64 + x) = [192 + k, 128 + x]"
  by (simp add: encode_rune_def)

lemma encode_three:
  assumes "k \<le> 15" "x < 64" "y < 64" "k = 0 \<longrightarrow> 32 \<le> x" "k = 13 \<longrightarrow> x \<le> 31"
  shows "encode_rune (k * 4096 + x * 64 + y) = [224 + k, 128 + x, 128 + y]"
proof -
  define q where "q = k * 64 + x"
  have q: "k * 4096 + x * 64 + y = q * 64 + y" by (simp add: q_def algebra_simps)
  have e: "q div 64 = k" "q mod 64 = x" unfolding q_def by (rule two_digits [OF assms(2)])+
  have d: "(q * 64 + y) div 64 = q" "(q * 64 + y) mod 64 = y" by (rule two_digits [OF assms(3)])+
  then have e': "(q * 64 + y) div 4096 = k" using e(1) base64_digits(1) by metis
  have v: "valid_rune (q * 64 + y)" unfolding q [symmetric] using assms by (intro valid_three) auto
  have "32 \<le> q" "q \<le> 1023" using assms by (cases "k = 0"; simp add: q_def)+
  with assms(3) have "2048 \<le> q * 64 + y" "q * 64 + y < 65536" by linarith+
  with v d e e' show ?thesis unfolding q encode_rune_def by simp
qed

lemma encode_four:
  assumes "k \<le> 4" "x < 64" "y < 64" "z < 64" "k = 0 \<longrightarrow> 16 \<le> x" "k = 4 \<longrightarrow> x \<le> 15"
  shows "encode_rune (k * 262144 + x * 4096 + y * 64 + z) = [240 + k, 128 + x, 128 + y, 128 + z]"
proof -
  define p where "p = k * 64 + x"
  define q where "q = p * 64 + y"
  have q: "k * 262144 + x * 4096 + y * 64 + z = q * 64 + z" by (simp add: q_def p_def algebra_simps)
  have f: "p div 64 = k" "p mod 64 = x" unfolding p_def by (rule two_digits [OF assms(2)])+
  have e: "q div 64 = p" "q mod 64 = y" unfolding q_def by (rule two_digits [OF assms(3)])+
  have d: "(q * 64 + z) div 64 = q" "(q * 64 + z) mod 64 = z" by (rule two_digits [OF assms(4)])+
  have e': "(q * 64 + z) div 4096 = p" using d(1) e(1) base64_digits(1) by metis
  have f': "(q * 64 + z) div 262144 = k" using e' f(1) base64_digits(2) by metis
  have v: "valid_rune (q * 64 + z)" unfolding q [symmetric] using assms by (intro valid_four) auto
  have "16 \<le> p" using assms by (cases "k = 0") (auto simp: p_def)
  then have "1024 \<le> q" unfolding q_def by linarith
  then have "65536 \<le> q * 64 + z" by linarith
  with v d e e' f f' show ?thesis unfolding q encode_rune_def by simp
qed

text \<open>The bytes of a well-formed rune are its encoding.\<close>

lemma take_decode:
  assumes "decode_rune (b # bs) = (r, n)" and "\<not> (r = RuneError \<and> n = 1)"
  shows "take n (b # bs) = encode_rune r \<and> 0 < n"
proof -
  have x: "c - 128 < 64" "128 + (c - 128) = c" if "cont c" for c
    using that unfolding cont_def by linarith+
  have two: "encode_rune ((b - 192) * 64 + (b1 - 128)) = [b, b1]" if "194 \<le> b" "b \<le> 223" "cont b1" for b1
    using that x [OF that(3)] by (subst encode_two) auto
  have three: "encode_rune ((b - 224) * 4096 + (b1 - 128) * 64 + (b2 - 128)) = [b, b1, b2]"
    if "224 \<le> b" "b \<le> 239" "cont b1" "b = 224 \<longrightarrow> 160 \<le> b1" "b = 237 \<longrightarrow> b1 \<le> 159" "cont b2" for b1 b2
    using that x [OF that(3)] x [OF that(6)] by (subst encode_three) auto
  have four: "encode_rune ((b - 240) * 262144 + (b1 - 128) * 4096 + (b2 - 128) * 64 + (b3 - 128)) = [b, b1, b2, b3]"
    if "240 \<le> b" "b \<le> 244" "cont b1" "b = 240 \<longrightarrow> 144 \<le> b1" "b = 244 \<longrightarrow> b1 \<le> 143" "cont b2" "cont b3" for b1 b2 b3
    using that x [OF that(3)] x [OF that(6)] x [OF that(7)] by (subst encode_four) auto
  consider "b < 128" | "194 \<le> b" "b \<le> 223" | "224 \<le> b" "b \<le> 239" | "240 \<le> b" "b \<le> 244"
    | "128 \<le> b" "b < 194" | "244 < b" by linarith
  then show ?thesis
  proof cases
    case 1
    with assms show ?thesis by (auto simp: decode_rune_def encode_rune_def)
  next
    case 2
    with assms obtain b1 bs1 where "bs = b1 # bs1" "cont b1" "r = (b - 192) * 64 + (b1 - 128)" "n = 2"
      by (auto simp: decode_rune_def split: list.splits if_splits)
    with two [OF 2] show ?thesis by (simp add: take_Cons')
  next
    case 3
    with assms obtain b1 b2 bs1 where "bs = b1 # b2 # bs1" "cont b1" "b = 224 \<longrightarrow> 160 \<le> b1" "b = 237 \<longrightarrow> b1 \<le> 159" "cont b2"
        "r = (b - 224) * 4096 + (b1 - 128) * 64 + (b2 - 128)" "n = 3"
      by (auto simp: decode_rune_def split: list.splits if_splits)
    with three [OF 3, of b1 b2] show ?thesis by (simp add: take_Cons')
  next
    case 4
    with assms obtain b1 b2 b3 bs1 where "bs = b1 # b2 # b3 # bs1" "cont b1" "b = 240 \<longrightarrow> 144 \<le> b1" "b = 244 \<longrightarrow> b1 \<le> 143"
        "cont b2" "cont b3" "r = (b - 240) * 262144 + (b1 - 128) * 4096 + (b2 - 128) * 64 + (b3 - 128)" "n = 4"
      by (auto simp: decode_rune_def split: list.splits if_splits)
    with four [OF 4, of b1 b2 b3] show ?thesis by (simp add: take_Cons')
  next
    case 5
    with assms show ?thesis by (auto simp: decode_rune_def)
  next
    case 6
    with assms show ?thesis by (auto simp: decode_rune_def)
  qed
qed

definition valid_utf8 :: "string \<Rightarrow> bool" where
  \<comment> \<open>\<open>utf8.ValidString\<close>: encoding the runes gives the bytes back\<close>
  "valid_utf8 s \<longleftrightarrow> concat (map encode_rune (runes s)) = bytes_of s"

end
