(* ===== verification/Log_Redaction.thy ===== *)
theory Log_Redaction
  imports Bank_Transaction Money_Float Http_Client Mcc Go_Utf8
begin

text \<open>
  What reaches a log: the masking functions that \<open>bank/data.go\<close>, \<open>business/logvalue.go\<close> and
  \<open>openbanking/logvalue.go\<close> each carry in identical form, and the client data of \<open>bank/data.go\<close>
  with its lookups and \<open>LogValue\<close> methods.

  For each masking function an abstract view says what it lets through, and the lemmas say that the
  output determines the view and nothing more: two secrets with the same view log alike. Strings
  are byte strings, so masking a name decodes UTF-8 the way \<open>[]rune(s)\<close> does.
\<close>

section \<open>Masks\<close>

definition maskName :: "string \<Rightarrow> string" where
  "maskName name =
     (if name = [] then []
      else let r = runes name
           in if length r \<le> 1 then ''*'' else string_of (encode_rune (r ! 0)) @ replicate (length r - 1) (CHR ''*''))"

definition redactIBAN :: "string \<Rightarrow> string" where
  "redactIBAN iban =
     (if iban = [] then [] else if length iban \<le> 6 then ''***''
      else take 2 iban @ ''***'' @ drop (length iban - 4) iban)"

definition redactID :: "string \<Rightarrow> string" where
  "redactID i = (if i = [] then [] else ''***'')"

definition redactTIN :: "string \<Rightarrow> string" where
  "redactTIN tin = (if tin = [] then [] else ''***'')"

definition redactCardMask :: "string \<Rightarrow> string" where
  "redactCardMask m = (if length m \<le> 4 then ''****'' else ''****'' @ drop (length m - 4) m)"

definition redactURL :: "(string \<Rightarrow> url option) \<Rightarrow> string \<Rightarrow> string" where
  "redactURL parse u =
     (if u = [] then []
      else case parse u of
        None \<Rightarrow> ''***''
      | Some p \<Rightarrow>
          if Host p = [] then ''***''
          else if Path p = [] \<or> Path p = ''/'' then Scheme p @ ''://'' @ Host p
          else Scheme p @ ''://'' @ Host p @ ''/***'')"

text \<open>What each mask lets through.\<close>

definition name_view :: "string \<Rightarrow> nat option \<times> nat" where
  "name_view name = (let r = runes name in (if 2 \<le> length r then Some (hd r) else None, length r))"

definition iban_view :: "string \<Rightarrow> (string \<times> string) option \<times> bool" where
  "iban_view iban = (if 6 < length iban then Some (take 2 iban, drop (length iban - 4) iban) else None, iban = [])"

lemma runes_ne: "name \<noteq> [] \<Longrightarrow> runes name \<noteq> []" "runes [] = []"
  using runes_of_ne [of "bytes_of name"] by (auto simp: runes_def bytes_of_def)

lemma runes_hd_valid: "runes name \<noteq> [] \<Longrightarrow> valid_rune (hd (runes name))"
  using runes_of_ne [of "bytes_of name"] decode_valid [of "bytes_of name"]
  by (cases "bytes_of name = []") (auto simp: runes_def)

lemma masked_inj:
  assumes "valid_rune r" "valid_rune r'"
    and e: "string_of (encode_rune r) @ replicate m (CHR ''*'') = string_of (encode_rune r') @ replicate n (CHR ''*'')"
  shows "r = r' \<and> m = n"
proof -
  let ?st = "\<lambda>k. map (of_char :: char \<Rightarrow> nat) (replicate k (CHR ''*''))"
  have b: "bytes_of (string_of (encode_rune x)) = encode_rune x" if "valid_rune x" for x
    by (rule bytes_string_of [OF encode_bytes [OF that]])
  have "encode_rune r @ ?st m = encode_rune r' @ ?st n"
    using arg_cong [OF e, of bytes_of] b [OF assms(1)] b [OF assms(2)] by (simp add: bytes_of_def)
  then have d: "decode_rune (encode_rune r @ ?st m) = decode_rune (encode_rune r' @ ?st n)" by (rule arg_cong)
  from d [unfolded decode_encode [OF assms(1)] decode_encode [OF assms(2)]] have "r = r'" by simp
  with arg_cong [OF e, of length] show ?thesis by simp
qed

lemma encode_length: "0 < length (encode_rune r)"
  by (simp add: encode_rune_def)

lemma mask_not_star:
  fixes k r :: nat
  assumes "2 \<le> k"
  defines "m \<equiv> string_of (encode_rune r) @ replicate (k - 1) (CHR ''*'')"
  shows "[] \<noteq> m" and "''*'' \<noteq> m"
proof -
  have "length m = length (encode_rune r) + (k - 1)"
    by (simp only: m_def string_of_def length_append length_map length_replicate)
  then have "2 \<le> length m" using encode_length [of r] assms(1) by linarith
  then show "[] \<noteq> m" "''*'' \<noteq> m" by auto
qed

lemma maskName_cases:
  obtains "runes n = []" "n = []" "maskName n = []"
  | "length (runes n) = 1" "n \<noteq> []" "maskName n = ''*''"
  | "2 \<le> length (runes n)" "n \<noteq> []" "valid_rune (hd (runes n))"
    "maskName n = string_of (encode_rune (hd (runes n))) @ replicate (length (runes n) - 1) (CHR ''*'')"
    "[] \<noteq> maskName n" "''*'' \<noteq> maskName n"
proof (cases "n = []")
  case True
  then show thesis using that(1) by (simp add: maskName_def runes_ne(2))
next
  case False
  with runes_ne(1) have r: "runes n \<noteq> []" by simp
  show thesis
  proof (cases "length (runes n) \<le> 1")
    case True
    with r have "length (runes n) = 1" by (cases "runes n") auto
    then show thesis using that(2) False by (simp add: maskName_def Let_def)
  next
    case g: False
    have m: "maskName n = string_of (encode_rune (hd (runes n))) @ replicate (length (runes n) - 1) (CHR ''*'')"
      using False g r by (simp add: maskName_def Let_def hd_conv_nth)
    have "2 \<le> length (runes n)" using g by simp
    then show thesis using that(3) False runes_hd_valid [OF r] m mask_not_star [of "length (runes n)" "hd (runes n)"] by (simp only: m) blast
  qed
qed

text \<open>A masked name tells the first character, when there are more, and how many there are.\<close>

lemma maskName_view: "maskName a = maskName b \<longleftrightarrow> name_view a = name_view b"
proof (cases rule: maskName_cases [of a]; cases rule: maskName_cases [of b])
  fix P
  assume a: "2 \<le> length (runes a)" "valid_rune (hd (runes a))"
      "maskName a = string_of (encode_rune (hd (runes a))) @ replicate (length (runes a) - 1) (CHR ''*'')"
    and b: "2 \<le> length (runes b)" "valid_rune (hd (runes b))"
      "maskName b = string_of (encode_rune (hd (runes b))) @ replicate (length (runes b) - 1) (CHR ''*'')"
  have "maskName a = maskName b \<longleftrightarrow> hd (runes a) = hd (runes b) \<and> length (runes a) - 1 = length (runes b) - 1"
    unfolding a(3) b(3) by (rule iffI, erule masked_inj [OF a(2) b(2)], elim conjE, simp only:)
  also have "\<dots> \<longleftrightarrow> hd (runes a) = hd (runes b) \<and> length (runes a) = length (runes b)" using a(1) b(1) by auto
  finally show ?thesis using a(1) b(1) by (simp add: name_view_def Let_def)
next
  assume "length (runes a) = 1" "maskName a = ''*''" "2 \<le> length (runes b)" "''*'' \<noteq> maskName b"
  then show ?thesis by (simp add: name_view_def Let_def)
next
  assume "runes a = []" "maskName a = []" "2 \<le> length (runes b)" "[] \<noteq> maskName b"
  then show ?thesis by (simp add: name_view_def Let_def)
qed (auto simp: name_view_def Let_def)

lemma redactIBAN_view: "redactIBAN a = redactIBAN b \<longleftrightarrow> iban_view a = iban_view b"
proof -
  have l: "length (take 2 x @ ''***'' @ drop (length x - 4) x) = 9" if "6 < length x" for x :: string using that by simp
  have ne: "take 2 x @ ''***'' @ drop (length x - 4) x \<noteq> ''***''" if "6 < length x" for x :: string
  proof
    assume "take 2 x @ ''***'' @ drop (length x - 4) x = ''***''"
    from arg_cong [OF this, of length] l [OF that] show False by (simp only: list.size)
  qed
  have nn: "take 2 x @ ''***'' @ drop (length x - 4) x \<noteq> []" for x :: string by simp
  have eq: "take 2 x @ ''***'' @ drop (length x - 4) x = take 2 y @ ''***'' @ drop (length y - 4) y \<longleftrightarrow>
      take 2 x = take 2 y \<and> drop (length x - 4) x = drop (length y - 4) y" if "6 < length x" "6 < length y" for x y :: string
    using that by (subst append_eq_append_conv) auto
  consider "6 < length a" "6 < length b" | "6 < length a" "length b \<le> 6" | "length a \<le> 6" "6 < length b" | "length a \<le> 6" "length b \<le> 6"
    by linarith
  then show ?thesis
  proof cases
    case 1
    then have "a \<noteq> []" "b \<noteq> []" by auto
    with 1 eq [OF 1] show ?thesis by (simp only: redactIBAN_def iban_view_def) simp
  next
    case 2
    then have "a \<noteq> []" by auto
    with 2 ne [of a] nn [of a] show ?thesis by (simp only: redactIBAN_def iban_view_def) simp
  next
    case 3
    then have "b \<noteq> []" by auto
    with 3 ne [of b, symmetric] nn [of b, symmetric] show ?thesis by (simp only: redactIBAN_def iban_view_def) simp
  next
    case 4
    then show ?thesis by (simp add: redactIBAN_def iban_view_def)
  qed
qed

lemma redactID_view: "redactID a = redactID b \<longleftrightarrow> (a = [] \<longleftrightarrow> b = [])" "redactTIN a = redactTIN b \<longleftrightarrow> (a = [] \<longleftrightarrow> b = [])"
  by (simp_all add: redactID_def redactTIN_def)

lemma redactCardMask_view:
  "4 < length a \<Longrightarrow> 4 < length b \<Longrightarrow> redactCardMask a = redactCardMask b \<longleftrightarrow> drop (length a - 4) a = drop (length b - 4) b"
  by (simp add: redactCardMask_def)

text \<open>Of a webhook URL neither path, query nor credentials are logged.\<close>

lemma redactURL_hides:
  assumes "parse a = Some p" "parse b = Some q" "a \<noteq> []" "b \<noteq> []" "Scheme p = Scheme q" "Host p = Host q"
    and "Path p \<in> {[], ''/''} \<longleftrightarrow> Path q \<in> {[], ''/''}"
  shows "redactURL parse a = redactURL parse b"
  using assms by (auto simp: redactURL_def)

section \<open>Log values\<close>

datatype slog =
    SString string | SInt int | SBool bool | STime int | SDuration int
  | SStrings "string list"   \<comment> \<open>\<open>slog.Any\<close> of a slice of strings\<close>
  | SValues "slog list"      \<comment> \<open>\<open>slog.AnyValue\<close> of a slice of values\<close>
  | SGroup "(string \<times> slog) list"

definition log_list :: "('a \<Rightarrow> slog) \<Rightarrow> 'a list \<Rightarrow> slog" where
  \<comment> \<open>the \<open>LogValue\<close> of the collection types: one value per element, in order\<close>
  "log_list f xs = SValues (map f xs)"

lemma log_list_view:
  assumes "\<And>x y. f x = f y \<longleftrightarrow> g x = g y"
  shows "log_list f xs = log_list f ys \<longleftrightarrow> map g xs = map g ys"
proof -
  have "map f xs = map f ys \<longleftrightarrow> map g xs = map g ys"
  proof (induction xs arbitrary: ys)
    case (Cons x xs)
    then show ?case by (cases ys) (auto simp: assms)
  qed simp
  then show ?thesis by (simp add: log_list_def)
qed

section \<open>Client data\<close>

record account =
  accAccountID :: string
  accSendID :: string
  accBalance :: money
  accCreditLimit :: money
  accCurrency :: currency_code
  accCashbackType :: string
  accCardMasks :: "string list"
  accType :: string
  accIBAN :: string

record jar =
  jarID :: string
  jarSendID :: string
  jarTitle :: string
  jarDescription :: string
  jarCurrency :: currency_code
  jarBalance :: money
  jarGoal :: money

record managed_client =
  mcID :: string
  mcTIN :: string
  mcName :: string
  mcAccounts :: "account list"

record client_info =
  ciID :: string
  ciName :: string
  ciWebHookURL :: string
  ciPermissions :: string
  ciAccounts :: "account list"
  ciJars :: "jar list"
  ciManagedClients :: "managed_client list"

definition Account_UnmarshalJSON :: "(string \<Rightarrow> string + account) \<Rightarrow> string \<Rightarrow> string + account" where
  "Account_UnmarshalJSON unmarshal data =
     (case unmarshal data of
        Inl e \<Rightarrow> Inl e
      | Inr a \<Rightarrow> Inr (a\<lparr>accBalance := set_code (accCurrency a) (accBalance a),
                         accCreditLimit := set_code (accCurrency a) (accCreditLimit a)\<rparr>))"

definition Jar_UnmarshalJSON :: "(string \<Rightarrow> string + jar) \<Rightarrow> string \<Rightarrow> string + jar" where
  "Jar_UnmarshalJSON unmarshal data =
     (case unmarshal data of
        Inl e \<Rightarrow> Inl e
      | Inr j \<Rightarrow> Inr (j\<lparr>jarBalance := set_code (jarCurrency j) (jarBalance j), jarGoal := set_code (jarCurrency j) (jarGoal j)\<rparr>))"

fun find_index :: "('a \<Rightarrow> bool) \<Rightarrow> 'a list \<Rightarrow> nat \<Rightarrow> nat option" where
  \<comment> \<open>the loop of the lookups, which return a pointer to the first match\<close>
  "find_index P [] i = None"
| "find_index P (x # xs) i = (if P x then Some i else find_index P xs (Suc i))"

definition Accounts_ByID :: "account list \<Rightarrow> string \<Rightarrow> nat option" where
  "Accounts_ByID as i = find_index (\<lambda>a. accAccountID a = i) as 0"

definition Accounts_ByIBAN :: "account list \<Rightarrow> string \<Rightarrow> nat option" where
  "Accounts_ByIBAN as iban = find_index (\<lambda>a. accIBAN a = iban) as 0"

definition Jars_ByID :: "jar list \<Rightarrow> string \<Rightarrow> nat option" where
  "Jars_ByID js i = find_index (\<lambda>j. jarID j = i) js 0"

definition ManagedClients_ByID :: "managed_client list \<Rightarrow> string \<Rightarrow> nat option" where
  "ManagedClients_ByID ms i = find_index (\<lambda>m. mcID m = i) ms 0"

definition ClientInfo_Account :: "client_info \<Rightarrow> string \<Rightarrow> nat option" where
  "ClientInfo_Account c = Accounts_ByID (ciAccounts c)"

definition ClientInfo_Jar :: "client_info \<Rightarrow> string \<Rightarrow> nat option" where
  "ClientInfo_Jar c = Jars_ByID (ciJars c)"

definition ClientInfo_ManagedClient :: "client_info \<Rightarrow> string \<Rightarrow> nat option" where
  "ClientInfo_ManagedClient c = ManagedClients_ByID (ciManagedClients c)"

fun ByCurrency :: "account list \<Rightarrow> currency_code \<Rightarrow> account list" where
  "ByCurrency [] code = []"
| "ByCurrency (a # as) code = (if accCurrency a = code then a # ByCurrency as code else ByCurrency as code)"

definition Transaction_MCCCode :: "transaction \<Rightarrow> int" where
  "Transaction_MCCCode t = MCCCode (MCC t)"

definition OriginalMCCCode :: "transaction \<Rightarrow> int" where
  "OriginalMCCCode t = MCCCode (OriginalMCC t)"

definition ClientInfo_LogValue :: "(string \<Rightarrow> url option) \<Rightarrow> client_info \<Rightarrow> slog" where
  "ClientInfo_LogValue parse c = SGroup
     [(''clientId'', SString (ciID c)), (''name'', SString (maskName (ciName c))),
      (''webHookUrl'', SString (redactURL parse (ciWebHookURL c))), (''accounts'', SInt (int (length (ciAccounts c)))),
      (''jars'', SInt (int (length (ciJars c)))), (''managedClients'', SInt (int (length (ciManagedClients c))))]"

definition ManagedClient_LogValue :: "managed_client \<Rightarrow> slog" where
  "ManagedClient_LogValue m = SGroup
     [(''clientId'', SString (mcID m)), (''name'', SString (maskName (mcName m))), (''tin'', SString (redactTIN (mcTIN m))),
      (''accounts'', SInt (int (length (mcAccounts m))))]"

definition Account_LogValue :: "account \<Rightarrow> slog" where
  "Account_LogValue a = SGroup
     [(''id'', SString (accAccountID a)), (''type'', SString (accType a)), (''currency'', SString (Code_String (accCurrency a))),
      (''iban'', SString (redactIBAN (accIBAN a))), (''cardMasks'', SStrings (map redactCardMask (accCardMasks a))),
      (''balance'', SString (Money_String (accBalance a)))]"

definition Transaction_LogValue :: "transaction \<Rightarrow> slog" where
  "Transaction_LogValue t = SGroup
     [(''id'', SString (ID t)), (''time'', STime (Time t)), (''amount'', SString (Money_String (Amount t))),
      (''currency'', SString (Code_String (Currency t))), (''mcc'', SInt (MCC t)), (''hold'', SBool (Hold t)),
      (''descriptionSet'', SBool (Description t \<noteq> [])), (''commentSet'', SBool (Comment t \<noteq> [])),
      (''counterIban'', SString (redactIBAN (IBAN t))), (''counterEdrpou'', SString (redactTIN (EDRPOU t))),
      (''counterName'', SString (maskName (CounterName t)))]"

definition Jar_LogValue :: "jar \<Rightarrow> slog" where
  "Jar_LogValue j = SGroup
     [(''id'', SString (jarID j)), (''currency'', SString (Code_String (jarCurrency j))),
      (''balance'', SString (Money_String (jarBalance j))), (''goal'', SString (Money_String (jarGoal j))),
      (''titleSet'', SBool (jarTitle j \<noteq> [])), (''descriptionSet'', SBool (jarDescription j \<noteq> []))]"

definition Accounts_LogValue :: "account list \<Rightarrow> slog" where
  "Accounts_LogValue = log_list Account_LogValue"

definition Jars_LogValue :: "jar list \<Rightarrow> slog" where
  "Jars_LogValue = log_list Jar_LogValue"

definition Transactions_LogValue :: "transaction list \<Rightarrow> slog" where
  "Transactions_LogValue = log_list Transaction_LogValue"

definition ManagedClients_LogValue :: "managed_client list \<Rightarrow> slog" where
  "ManagedClients_LogValue = log_list ManagedClient_LogValue"

lemma find_index_Some:
  "find_index P xs i = Some k \<longleftrightarrow> i \<le> k \<and> k - i < length xs \<and> P (xs ! (k - i)) \<and> (\<forall>j < k - i. \<not> P (xs ! j))"
proof (induction xs arbitrary: i)
  case (Cons x xs)
  show ?case
  proof (cases "P x")
    case True
    then show ?thesis by (cases "k = i") (auto, metis nth_Cons_0 zero_less_diff le_neq_implies_less)
  next
    case False
    have "find_index P (x # xs) i = Some k \<longleftrightarrow> Suc i \<le> k \<and> k - Suc i < length xs \<and> P (xs ! (k - Suc i)) \<and> (\<forall>j < k - Suc i. \<not> P (xs ! j))"
      using False Cons by simp
    also have "\<dots> \<longleftrightarrow> i \<le> k \<and> k - i < length (x # xs) \<and> P ((x # xs) ! (k - i)) \<and> (\<forall>j < k - i. \<not> P ((x # xs) ! j))"
      using False by (cases "k - i") (auto simp: nth_Cons less_Suc_eq_0_disj Suc_diff_le split: nat.splits, (metis Suc_diff_Suc diff_Suc_Suc diff_is_0_eq' nat.inject not_less_eq_eq zero_less_Suc zero_less_diff Suc_leI)+)
    finally show ?thesis .
  qed
qed simp

lemma ByCurrency_filter: "ByCurrency as code = filter (\<lambda>a. accCurrency a = code) as"
  by (induction as) auto

section \<open>Properties\<close>

definition transaction_view :: "transaction \<Rightarrow> (string \<times> int \<times> string \<times> string \<times> int \<times> bool) \<times> bool \<times> bool \<times>
    ((string \<times> string) option \<times> bool) \<times> bool \<times> nat option \<times> nat" where
  "transaction_view t = ((ID t, Time t, Money_String (Amount t), Code_String (Currency t), MCC t, Hold t),
     Description t = [], Comment t = [], iban_view (IBAN t), EDRPOU t = [], name_view (CounterName t))"

text \<open>
  C37: A logged statement says nothing about the counterparties beyond its masks. Two statements produce the
  same log value exactly when they agree row by row on the id, time, amount, currency, category and hold flag,
  on whether description, comment and company code are set, on the country prefix and the last four digits of the IBAN, and on
  the initial and the length of the name, decoded as UTF-8: no other byte of those fields reaches the log.
\<close>

theorem Transactions_LogValue_reveals:
  "Transactions_LogValue ts = Transactions_LogValue us \<longleftrightarrow> map transaction_view ts = map transaction_view us"
proof -
  have "Transaction_LogValue t = Transaction_LogValue u \<longleftrightarrow> transaction_view t = transaction_view u" for t u
    by (simp add: Transaction_LogValue_def transaction_view_def maskName_view redactIBAN_view redactID_view)
  then show ?thesis unfolding Transactions_LogValue_def by (rule log_list_view)
qed

lemma Account_LogValue_hides:
  assumes "accAccountID a = accAccountID b" "accType a = accType b" "accCurrency a = accCurrency b" "accBalance a = accBalance b"
    and "iban_view (accIBAN a) = iban_view (accIBAN b)" "map redactCardMask (accCardMasks a) = map redactCardMask (accCardMasks b)"
  shows "Account_LogValue a = Account_LogValue b"
  using assms by (simp add: Account_LogValue_def redactIBAN_view)

lemma ManagedClient_LogValue_reveals:
  "ManagedClient_LogValue a = ManagedClient_LogValue b \<longleftrightarrow> mcID a = mcID b \<and> name_view (mcName a) = name_view (mcName b) \<and>
    (mcTIN a = [] \<longleftrightarrow> mcTIN b = []) \<and> length (mcAccounts a) = length (mcAccounts b)"
  by (auto simp: ManagedClient_LogValue_def maskName_view redactID_view)

end
