(* ===== verification/Open_Banking_Log.thy ===== *)
theory Open_Banking_Log
  imports Open_Banking Log_Redaction
begin

text \<open>
  The \<open>LogValue\<close> methods of the Open Banking types (\<open>openbanking/logvalue.go\<close>, \<open>openbanking/client.go\<close>)
  over the masks of \<open>Log_Redaction\<close>, with the types of \<open>openbanking/types.go\<close> and of the endpoint files they log.
\<close>

section \<open>Types\<close>

record amount =
  amCurrency :: string
  amValue :: string

definition CurrencyCode_of :: "amount \<Rightarrow> currency_code option" where
  "CurrencyCode_of a = FromAlpha3 (amCurrency a)"

record ob_account =
  oaIBAN :: string
  oaCurrency :: string

record access_rights =
  arAccount :: ob_account
  arRights :: "string list"

record account_access =
  Cards :: "access_rights list"
  Payments :: "access_rights list"
  Savings :: "access_rights list"
  Loans :: "access_rights list"

record ob_balance =
  BalanceAmount :: amount
  BalanceType :: string
  CreditLimitIncluded :: bool

record account_details =
  adResourceID :: string
  adIBAN :: string
  adCurrency :: string
  adProduct :: string
  adBalances :: "ob_balance list"

record account_reference =
  refIBAN :: string
  refCurrency :: string
  refProduct :: string

record payment_account_reference =
  parIBAN :: string
  parCurrency :: string

record balances_response =
  blAccount :: account_reference
  blBalances :: "ob_balance list"

record party =
  partyName :: string

record creditor =
  crdName :: string
  crdCreditorID :: string
  crdCreditorIDType :: string

record card_transaction =
  ctTransactionDateTime :: go_time
  ctTradeName :: string
  ctMerchantCategoryCode :: string

record ob_transaction =
  otTransactionID :: string
  otBookingDate :: date
  otTransactionAmount :: amount
  otCreditor :: "party option"
  otDebtor :: "party option"
  otCardTransaction :: "card_transaction option"
  otRemittance :: "string list"

record create_consent_request =
  ccAccess :: account_access
  ccConsentType :: string
  ccRecurringIndicator :: bool
  ccValidTo :: date
  ccFrequencyPerDay :: int

record consent =
  csAccess :: account_access
  csConsentType :: string
  csRecurringIndicator :: bool
  csValidTo :: date
  csFrequencyPerDay :: int
  csConsentStatus :: string

record create_payment_request =
  cpInstructedAmount :: amount
  cpCreditorAccount :: payment_account_reference
  cpCreditor :: creditor
  cpDebtorAccount :: payment_account_reference
  cpRemittance :: "string list"

record ob_payment =
  pmTransactionStatus :: string
  pmPaymentID :: string
  pmInstructedAmount :: amount
  pmCreditorAccount :: payment_account_reference
  pmCreditor :: creditor
  pmDebtorAccount :: payment_account_reference

record certificate_request =
  cqOrganization :: string
  cqContactPerson :: string
  cqPhone :: string
  cqEmail :: string
  cqDescription :: string
  cqEDRPOU :: string
  cqCSRPEM :: string

record authorisation_links =
  SCARedirect :: "href option"
  SCAStatusLink :: "href option"

record start_authorisation_response =
  saAuthorisationID :: string
  saSCAStatus :: string
  saLinks :: authorisation_links

section \<open>Log values\<close>

definition MTLSConfig_LogValue :: "mtls_config \<Rightarrow> slog" where
  "MTLSConfig_LogValue c = SGroup
     [(''certPEMBytes'', SInt (int (length (CertPEM c)))),
      (''keyPEM'', SString (if KeyPEM c \<noteq> [] then ''***'' else ''not set'')),
      (''customRootCAs'', SBool (RootCAsPEM c \<noteq> [])), (''timeout'', SDuration (cfgTimeout c))]"

definition PSU_LogValue :: "psu \<Rightarrow> slog" where
  "PSU_LogValue p = SGroup
     [(''id'', SString (redactID (psuID p))), (''idType'', SString (IDType p)), (''corporateId'', SString (redactID (CorporateID p))),
      (''corporateIdType'', SString (CorporateIDType p)), (''ipAddressSet'', SBool (IPAddress p \<noteq> []))]"

definition AccountReference_LogValue :: "account_reference \<Rightarrow> slog" where
  "AccountReference_LogValue a = SGroup
     [(''iban'', SString (redactIBAN (refIBAN a))), (''currency'', SString (refCurrency a)), (''product'', SString (refProduct a))]"

definition PaymentAccountReference_LogValue :: "payment_account_reference \<Rightarrow> slog" where
  "PaymentAccountReference_LogValue a = SGroup
     [(''iban'', SString (redactIBAN (parIBAN a))), (''currency'', SString (parCurrency a))]"

definition AccountDetails_LogValue :: "account_details \<Rightarrow> slog" where
  "AccountDetails_LogValue a = SGroup
     [(''resourceId'', SString (adResourceID a)), (''iban'', SString (redactIBAN (adIBAN a))), (''currency'', SString (adCurrency a)),
      (''product'', SString (adProduct a)), (''balances'', SInt (int (length (adBalances a))))]"

definition Party_LogValue :: "party \<Rightarrow> slog" where
  "Party_LogValue p = SGroup [(''name'', SString (maskName (partyName p)))]"

definition Creditor_LogValue :: "creditor \<Rightarrow> slog" where
  "Creditor_LogValue c = SGroup
     [(''name'', SString (maskName (crdName c))), (''creditorId'', SString (redactID (crdCreditorID c))),
      (''creditorIdType'', SString (crdCreditorIDType c))]"

definition ob_Transaction_LogValue :: "ob_transaction \<Rightarrow> slog" where
  "ob_Transaction_LogValue t = SGroup
     ([(''transactionId'', SString (otTransactionID t)), (''amount'', SString (amValue (otTransactionAmount t))),
       (''currency'', SString (amCurrency (otTransactionAmount t))), (''remittanceInfoSet'', SBool (otRemittance t \<noteq> []))] @
      (if \<not> Date_IsZero (otBookingDate t) then [(''bookingDate'', SString (Date_String (otBookingDate t)))] else []) @
      (case otCreditor t of Some p \<Rightarrow> [(''creditor'', Party_LogValue p)] | None \<Rightarrow> []) @
      (case otDebtor t of Some p \<Rightarrow> [(''debtor'', Party_LogValue p)] | None \<Rightarrow> []))"

definition ByResourceID :: "account_details list \<Rightarrow> string \<Rightarrow> nat option" where
  "ByResourceID as i = find_index (\<lambda>a. adResourceID a = i) as 0"

definition AccountList_LogValue :: "account_details list \<Rightarrow> slog" where
  "AccountList_LogValue = log_list AccountDetails_LogValue"

definition TransactionList_LogValue :: "ob_transaction list \<Rightarrow> slog" where
  "TransactionList_LogValue = log_list ob_Transaction_LogValue"

definition ob_Account_LogValue :: "ob_account \<Rightarrow> slog" where
  "ob_Account_LogValue a = SGroup [(''iban'', SString (redactIBAN (oaIBAN a))), (''currency'', SString (oaCurrency a))]"

definition AccountAccessRights_LogValue :: "access_rights \<Rightarrow> slog" where
  "AccountAccessRights_LogValue a = SGroup [(''account'', ob_Account_LogValue (arAccount a)), (''rights'', SStrings (arRights a))]"

definition AccountAccess_LogValue :: "account_access \<Rightarrow> slog" where
  "AccountAccess_LogValue a = SGroup
     [(''cards'', SInt (int (length (Cards a)))), (''payments'', SInt (int (length (Payments a)))),
      (''savings'', SInt (int (length (Savings a)))), (''loans'', SInt (int (length (Loans a))))]"

definition CreateConsentRequest_LogValue :: "create_consent_request \<Rightarrow> slog" where
  "CreateConsentRequest_LogValue r = SGroup
     [(''access'', AccountAccess_LogValue (ccAccess r)), (''consentType'', SString (ccConsentType r)),
      (''recurringIndicator'', SBool (ccRecurringIndicator r)), (''validTo'', SString (Date_String (ccValidTo r))),
      (''frequencyPerDay'', SInt (ccFrequencyPerDay r))]"

definition Consent_LogValue :: "consent \<Rightarrow> slog" where
  "Consent_LogValue c = SGroup
     [(''access'', AccountAccess_LogValue (csAccess c)), (''consentType'', SString (csConsentType c)),
      (''consentStatus'', SString (csConsentStatus c)), (''recurringIndicator'', SBool (csRecurringIndicator c)),
      (''validTo'', SString (Date_String (csValidTo c)))]"

definition InitiationOptions_LogValue :: "initiation_options \<Rightarrow> slog" where
  "InitiationOptions_LogValue opts = SGroup
     [(''psu'', PSU_LogValue (PSU opts)), (''tppRedirectURI'', SString (TPPRedirectURI opts))]"

definition AccountsResponse_LogValue :: "account_details list accounts_response \<Rightarrow> slog" where
  "AccountsResponse_LogValue r = SGroup [(''accounts'', SInt (int (length (outAccounts r))))]"

definition BalancesResponse_LogValue :: "balances_response \<Rightarrow> slog" where
  "BalancesResponse_LogValue r = SGroup
     [(''account'', AccountReference_LogValue (blAccount r)), (''balances'', SInt (int (length (blBalances r))))]"

definition TransactionsResponse_LogValue :: "(account_reference, ob_transaction) transactions_response \<Rightarrow> slog" where
  "TransactionsResponse_LogValue r = SGroup
     [(''account'', AccountReference_LogValue (outAccount r)),
      (''booked'', SInt (case reportTransactions r of None \<Rightarrow> 0 | Some rep \<Rightarrow> int (length (Booked rep))))]"

definition AccountReport_LogValue :: "ob_transaction account_report \<Rightarrow> slog" where
  "AccountReport_LogValue r = SGroup [(''booked'', SInt (int (length (Booked r))))]"

definition CreatePaymentRequest_LogValue :: "create_payment_request \<Rightarrow> slog" where
  "CreatePaymentRequest_LogValue r = SGroup
     [(''creditor'', Creditor_LogValue (cpCreditor r)), (''creditorAccount'', PaymentAccountReference_LogValue (cpCreditorAccount r)),
      (''debtorAccount'', PaymentAccountReference_LogValue (cpDebtorAccount r)), (''amount'', SString (amValue (cpInstructedAmount r))),
      (''currency'', SString (amCurrency (cpInstructedAmount r)))]"

definition Payment_LogValue :: "ob_payment \<Rightarrow> slog" where
  "Payment_LogValue p = SGroup
     [(''creditor'', Creditor_LogValue (pmCreditor p)), (''creditorAccount'', PaymentAccountReference_LogValue (pmCreditorAccount p)),
      (''debtorAccount'', PaymentAccountReference_LogValue (pmDebtorAccount p)), (''amount'', SString (amValue (pmInstructedAmount p))),
      (''currency'', SString (amCurrency (pmInstructedAmount p))), (''transactionStatus'', SString (pmTransactionStatus p))]"

definition AccountOptions_LogValue :: "account_options \<Rightarrow> slog" where
  "AccountOptions_LogValue opts = SGroup
     [(''consentId'', SString (ConsentID opts)), (''psuIPAddressSet'', SBool (PSUIPAddress opts \<noteq> []))]"

definition AccountsOptions_LogValue :: "account_options \<Rightarrow> bool \<Rightarrow> slog" where
  "AccountsOptions_LogValue opts withBalance = SGroup
     [(''account'', AccountOptions_LogValue opts), (''withBalance'', SBool withBalance)]"

definition TransactionsOptions_LogValue :: "transactions_options \<Rightarrow> slog" where
  "TransactionsOptions_LogValue opts = SGroup
     [(''account'', AccountOptions_LogValue (account_options.truncate opts)), (''bookingStatus'', SString (BookingStatus opts)),
      (''dateFrom'', SString (Date_String (DateFrom opts))), (''dateTo'', SString (Date_String (DateTo opts))),
      (''pageIDSet'', SBool (PageID opts \<noteq> []))]"

definition CertificateRequest_LogValue :: "certificate_request \<Rightarrow> slog" where
  "CertificateRequest_LogValue r = SGroup
     [(''organization'', SString (maskName (cqOrganization r))), (''contactPerson'', SString (maskName (cqContactPerson r))),
      (''phoneSet'', SBool (cqPhone r \<noteq> [])), (''emailSet'', SBool (cqEmail r \<noteq> [])), (''edrpou'', SString (redactID (cqEDRPOU r))),
      (''csrPEMBytes'', SInt (int (length (cqCSRPEM r))))]"

definition Href_LogValue :: "href \<Rightarrow> slog" where
  "Href_LogValue h = SGroup [(''hrefSet'', SBool (Href h \<noteq> []))]"

definition StartAuthorisationResponse_LogValue :: "start_authorisation_response \<Rightarrow> slog" where
  "StartAuthorisationResponse_LogValue r = SGroup
     [(''authorisationId'', SString (saAuthorisationID r)), (''scaStatus'', SString (saSCAStatus r)),
      (''scaRedirectSet'', SBool (SCARedirect (saLinks r) \<noteq> None)), (''scaStatusLinkSet'', SBool (SCAStatusLink (saLinks r) \<noteq> None))]"

section \<open>What is revealed\<close>

text \<open>Of the private key and the customer's identity only their presence is logged.\<close>

lemma MTLSConfig_LogValue_hides_key:
  "k \<noteq> [] \<Longrightarrow> k' \<noteq> [] \<Longrightarrow> MTLSConfig_LogValue (c\<lparr>KeyPEM := k\<rparr>) = MTLSConfig_LogValue (c\<lparr>KeyPEM := k'\<rparr>)"
  by (simp add: MTLSConfig_LogValue_def)

lemma PSU_LogValue_reveals:
  "PSU_LogValue p = PSU_LogValue q \<longleftrightarrow> IDType p = IDType q \<and> CorporateIDType p = CorporateIDType q \<and>
    (psuID p = [] \<longleftrightarrow> psuID q = []) \<and> (CorporateID p = [] \<longleftrightarrow> CorporateID q = []) \<and> (IPAddress p = [] \<longleftrightarrow> IPAddress q = [])"
  by (auto simp: PSU_LogValue_def redactID_view)

lemma Payment_LogValue_reveals:
  "Payment_LogValue p = Payment_LogValue q \<longleftrightarrow>
    name_view (crdName (pmCreditor p)) = name_view (crdName (pmCreditor q)) \<and>
    (crdCreditorID (pmCreditor p) = [] \<longleftrightarrow> crdCreditorID (pmCreditor q) = []) \<and>
    crdCreditorIDType (pmCreditor p) = crdCreditorIDType (pmCreditor q) \<and>
    iban_view (parIBAN (pmCreditorAccount p)) = iban_view (parIBAN (pmCreditorAccount q)) \<and>
    parCurrency (pmCreditorAccount p) = parCurrency (pmCreditorAccount q) \<and>
    iban_view (parIBAN (pmDebtorAccount p)) = iban_view (parIBAN (pmDebtorAccount q)) \<and>
    parCurrency (pmDebtorAccount p) = parCurrency (pmDebtorAccount q) \<and>
    pmInstructedAmount p = pmInstructedAmount q \<and> pmTransactionStatus p = pmTransactionStatus q"
  by (auto simp: Payment_LogValue_def Creditor_LogValue_def PaymentAccountReference_LogValue_def maskName_view redactIBAN_view
      redactID_view intro: amount.equality)

end
