(* ===== verification/Business_Log.thy ===== *)
theory Business_Log
  imports Business_Client Log_Redaction
begin

text \<open>
  The \<open>LogValue\<close> methods of the business client's types (\<open>business/logvalue.go\<close>) over the masks of
  \<open>Log_Redaction\<close>, with the types of \<open>business/types.go\<close> they log.
\<close>

section \<open>Types\<close>

record business_account =
  baIBAN :: string
  baCurrency :: int
  baBalance :: f64

record contact =
  coID :: string
  coLEClientID :: int
  coFullName :: string
  coINN :: string
  coDocumentType :: string
  coDocumentNumber :: string
  coDocumentSeries :: string
  coIBAN :: string
  coPAN :: string

record create_contact_request =
  crFirstName :: string
  crLastName :: string
  crMiddleName :: string
  crINN :: string
  crDocumentType :: string
  crDocumentNumber :: string
  crDocumentSeries :: string
  crIBAN :: string
  crPAN :: string

record create_registry_request =
  rgRegistryName :: string
  rgSenderIBAN :: string
  rgSalaryRegistryType :: string
  rgFrom :: string
  rgTo :: string
  rgRecipients :: "salary_recipient list"

record payment_receiver =
  prIBAN :: string
  prEDRPOU :: string
  prName :: string

record ultimate_debit =
  udID :: string
  udName :: string

record payment_request =
  pySenderIBAN :: string
  pyReceiver :: payment_receiver
  pyDestination :: string
  pyAmount :: int
  pyCurrency :: string
  pyPayCode :: string
  pyAdditionalInfo :: string
  pyExternalReference :: string
  pyUltimateDebit :: "ultimate_debit option"

record batch_attribute =
  atAttributeName :: string
  atValue :: string
  atSortOrder :: int
  atAttributeSuffix :: string

record batch_employee =
  emIdentification :: string
  emAttributes :: "batch_attribute list"

record batch_payslip_request =
  bpPeriod :: string
  bpEmployees :: "batch_employee list"

record delete_payslips_request =
  dpPeriod :: string
  dpIdentifications :: "string list"

record batch_stats =
  EmployeesInBatch :: int
  SuccessInBatch :: int
  FailedInBatch :: int

record overall_stats =
  TotalEmployees :: int
  TotalSuccessEmployees :: int
  TotalFailedEmployees :: int

record failed_employee =
  feIdentification :: string
  feReason :: string

record batch_payslip_response =
  brPeriod :: string
  brStatus :: string
  brBatchStats :: batch_stats
  brOverallStats :: overall_stats
  brFailedEmployees :: "failed_employee list"
  brCreatedAt :: string
  brUpdatedAt :: string

record import_status_response =
  isPeriod :: string
  isStatus :: string
  isTotalEmployees :: int
  isTotalSuccessEmployees :: int
  isTotalFailedEmployees :: int
  isFailedEmployees :: "failed_employee list"
  isCreatedAt :: string
  isUpdatedAt :: string

section \<open>Log values\<close>

definition BAccount_LogValue :: "(f64 \<Rightarrow> int) \<Rightarrow> business_account \<Rightarrow> slog" where
  "BAccount_LogValue oor a = SGroup
     [(''iban'', SString (redactIBAN (baIBAN a))), (''currency'', SInt (baCurrency a)),
      (''balance'', SString (Money_String (balance_money oor (baBalance a) (baCurrency a))))]"

definition BAccounts_LogValue :: "(f64 \<Rightarrow> int) \<Rightarrow> business_account list \<Rightarrow> slog" where
  "BAccounts_LogValue oor = log_list (BAccount_LogValue oor)"

definition Contact_LogValue :: "contact \<Rightarrow> slog" where
  "Contact_LogValue c = SGroup
     [(''id'', SString (coID c)), (''leClientID'', SInt (coLEClientID c)), (''fullName'', SString (maskName (coFullName c))),
      (''inn'', SString (redactID (coINN c))), (''documentType'', SString (coDocumentType c)),
      (''documentNumber'', SString (redactID (coDocumentNumber c))), (''documentSeries'', SString (redactID (coDocumentSeries c))),
      (''iban'', SString (redactIBAN (coIBAN c))), (''panSet'', SBool (coPAN c \<noteq> []))]"

definition Contacts_LogValue :: "contact list \<Rightarrow> slog" where
  "Contacts_LogValue = log_list Contact_LogValue"

definition ContactsPage_LogValue :: "contact contacts_page \<Rightarrow> slog" where
  "ContactsPage_LogValue p = SGroup [(''hasMore'', SBool (HasMore p)), (''contacts'', SInt (int (length (Contacts p))))]"

definition CreateContactRequest_LogValue :: "create_contact_request \<Rightarrow> slog" where
  "CreateContactRequest_LogValue r = SGroup
     [(''firstName'', SString (maskName (crFirstName r))), (''lastName'', SString (maskName (crLastName r))),
      (''middleName'', SString (maskName (crMiddleName r))), (''inn'', SString (redactID (crINN r))),
      (''documentType'', SString (crDocumentType r)), (''documentNumber'', SString (redactID (crDocumentNumber r))),
      (''documentSeries'', SString (redactID (crDocumentSeries r))), (''iban'', SString (redactIBAN (crIBAN r))),
      (''panSet'', SBool (crPAN r \<noteq> []))]"

definition SalaryRecipient_LogValue :: "salary_recipient \<Rightarrow> slog" where
  "SalaryRecipient_LogValue r = SGroup
     [(''fullName'', SString (maskName (FullName r))), (''inn'', SString (redactID (INN r))),
      (''documentType'', SString (DocumentType r)), (''documentNumber'', SString (redactID (DocumentNumber r))),
      (''documentSeries'', SString (redactID (DocumentSeries r))), (''iban'', SString (redactIBAN (recIBAN r))),
      (''amount'', SInt (recAmount r))]"

definition SalaryRecipients_LogValue :: "salary_recipient list \<Rightarrow> slog" where
  "SalaryRecipients_LogValue = log_list SalaryRecipient_LogValue"

definition CreateSalaryRegistryRequest_LogValue :: "create_registry_request \<Rightarrow> slog" where
  "CreateSalaryRegistryRequest_LogValue r = SGroup
     [(''senderIban'', SString (redactIBAN (rgSenderIBAN r))), (''recipients'', SInt (int (length (rgRecipients r))))]"

definition SubmitBatchRequest_LogValue :: "submit_batch_request \<Rightarrow> slog" where
  "SubmitBatchRequest_LogValue r = SGroup
     [(''registryReference'', SString (RegistryReference r)), (''senderIban'', SString (redactIBAN (SenderIBAN r))),
      (''recipients'', SInt (int (length (Recipients r))))]"

definition StatementItem_LogValue :: "statement_item \<Rightarrow> slog" where
  "StatementItem_LogValue s = SGroup
     [(''id'', SString (statement_item.ID s)), (''externalReference'', SString (ExternalReference s)),
      (''time'', STime (statement_item.Time s)), (''amount'', SString (Money_String (statement_item.Amount s))),
      (''currencyCode'', SString (CurrencyCode s)), (''status'', SString (Status s)), (''reverse'', SBool (Reverse s)),
      (''descriptionSet'', SBool (statement_item.Description s \<noteq> [])), (''counterIban'', SString (redactIBAN (CounterIBAN s))),
      (''counterEdrpou'', SString (redactID (CounterEdrpou s))), (''counterName'', SString (maskName (statement_item.CounterName s))),
      (''ultimateDebitSet'', SBool (UltimateDebit s \<noteq> None))]"

definition StatementItems_LogValue :: "statement_item list \<Rightarrow> slog" where
  "StatementItems_LogValue = log_list StatementItem_LogValue"

definition UltimateDebit_LogValue :: "ultimate_debit \<Rightarrow> slog" where
  "UltimateDebit_LogValue u = SGroup [(''id'', SString (redactID (udID u))), (''name'', SString (maskName (udName u)))]"

definition StatementUltimateDebit_LogValue :: "string \<times> string \<Rightarrow> slog" where
  \<comment> \<open>name and id code\<close>
  "StatementUltimateDebit_LogValue u = SGroup [(''idCode'', SString (redactID (snd u))), (''name'', SString (maskName (fst u)))]"

definition PaymentReceiver_LogValue :: "payment_receiver \<Rightarrow> slog" where
  "PaymentReceiver_LogValue r = SGroup
     [(''iban'', SString (redactIBAN (prIBAN r))), (''edrpou'', SString (redactID (prEDRPOU r))), (''name'', SString (maskName (prName r)))]"

definition PaymentRequest_LogValue :: "payment_request \<Rightarrow> slog" where
  "PaymentRequest_LogValue r = SGroup
     [(''senderIban'', SString (redactIBAN (pySenderIBAN r))), (''receiver'', PaymentReceiver_LogValue (pyReceiver r)),
      (''destinationSet'', SBool (pyDestination r \<noteq> [])), (''amount'', SInt (pyAmount r)), (''currency'', SString (pyCurrency r)),
      (''externalReference'', SString (pyExternalReference r)), (''ultimateDebitSet'', SBool (pyUltimateDebit r \<noteq> None))]"

definition BatchAttribute_LogValue :: "batch_attribute \<Rightarrow> slog" where
  "BatchAttribute_LogValue a = SGroup
     [(''attributeName'', SString (atAttributeName a)), (''valueSet'', SBool (atValue a \<noteq> [])), (''sortOrder'', SInt (atSortOrder a))]"

definition BatchAttributes_LogValue :: "batch_attribute list \<Rightarrow> slog" where
  "BatchAttributes_LogValue = log_list BatchAttribute_LogValue"

definition BatchEmployee_LogValue :: "batch_employee \<Rightarrow> slog" where
  "BatchEmployee_LogValue e = SGroup
     [(''identification'', SString (redactID (emIdentification e))), (''attributes'', SInt (int (length (emAttributes e))))]"

definition BatchEmployees_LogValue :: "batch_employee list \<Rightarrow> slog" where
  "BatchEmployees_LogValue = log_list BatchEmployee_LogValue"

definition BatchPayslipRequest_LogValue :: "batch_payslip_request \<Rightarrow> slog" where
  "BatchPayslipRequest_LogValue r = SGroup
     [(''period'', SString (bpPeriod r)), (''employees'', SInt (int (length (bpEmployees r))))]"

definition DeletePayslipsRequest_LogValue :: "delete_payslips_request \<Rightarrow> slog" where
  "DeletePayslipsRequest_LogValue r = SGroup
     [(''period'', SString (dpPeriod r)), (''identifications'', SInt (int (length (dpIdentifications r))))]"

definition FailedEmployee_LogValue :: "failed_employee \<Rightarrow> slog" where
  "FailedEmployee_LogValue e = SGroup
     [(''identification'', SString (redactID (feIdentification e))), (''reason'', SString (feReason e))]"

definition FailedEmployees_LogValue :: "failed_employee list \<Rightarrow> slog" where
  "FailedEmployees_LogValue = log_list FailedEmployee_LogValue"

definition BatchPayslipResponse_LogValue :: "batch_payslip_response \<Rightarrow> slog" where
  "BatchPayslipResponse_LogValue r = SGroup
     [(''period'', SString (brPeriod r)), (''status'', SString (brStatus r)),
      (''employeesInBatch'', SInt (EmployeesInBatch (brBatchStats r))), (''successInBatch'', SInt (SuccessInBatch (brBatchStats r))),
      (''failedInBatch'', SInt (FailedInBatch (brBatchStats r))), (''failedEmployees'', SInt (int (length (brFailedEmployees r))))]"

definition ImportStatusResponse_LogValue :: "import_status_response \<Rightarrow> slog" where
  "ImportStatusResponse_LogValue r = SGroup
     [(''period'', SString (isPeriod r)), (''status'', SString (isStatus r)), (''totalEmployees'', SInt (isTotalEmployees r)),
      (''totalSuccessEmployees'', SInt (isTotalSuccessEmployees r)), (''totalFailedEmployees'', SInt (isTotalFailedEmployees r)),
      (''failedEmployees'', SInt (int (length (isFailedEmployees r))))]"

section \<open>What is revealed\<close>

lemmas log_views = maskName_view redactIBAN_view redactID_view

lemma Contact_LogValue_reveals:
  "Contact_LogValue a = Contact_LogValue b \<longleftrightarrow>
    coID a = coID b \<and> coLEClientID a = coLEClientID b \<and> coDocumentType a = coDocumentType b \<and>
    name_view (coFullName a) = name_view (coFullName b) \<and> iban_view (coIBAN a) = iban_view (coIBAN b) \<and>
    (coINN a = [] \<longleftrightarrow> coINN b = []) \<and> (coDocumentNumber a = [] \<longleftrightarrow> coDocumentNumber b = []) \<and>
    (coDocumentSeries a = [] \<longleftrightarrow> coDocumentSeries b = []) \<and> (coPAN a = [] \<longleftrightarrow> coPAN b = [])"
  by (simp add: Contact_LogValue_def log_views) blast

lemma PaymentRequest_LogValue_reveals:
  "PaymentRequest_LogValue a = PaymentRequest_LogValue b \<longleftrightarrow>
    iban_view (pySenderIBAN a) = iban_view (pySenderIBAN b) \<and> iban_view (prIBAN (pyReceiver a)) = iban_view (prIBAN (pyReceiver b)) \<and>
    (prEDRPOU (pyReceiver a) = [] \<longleftrightarrow> prEDRPOU (pyReceiver b) = []) \<and> name_view (prName (pyReceiver a)) = name_view (prName (pyReceiver b)) \<and>
    (pyDestination a = [] \<longleftrightarrow> pyDestination b = []) \<and> pyAmount a = pyAmount b \<and> pyCurrency a = pyCurrency b \<and>
    pyExternalReference a = pyExternalReference b \<and> (pyUltimateDebit a = None \<longleftrightarrow> pyUltimateDebit b = None)"
  by (simp add: PaymentRequest_LogValue_def PaymentReceiver_LogValue_def log_views del: not_None_eq)

lemma StatementItem_LogValue_hides:
  assumes "a\<lparr>statement_item.Description := [], CounterIBAN := [], CounterEdrpou := [], statement_item.CounterName := [],
      statement_item.ReceiptID := [], CompletedTime := 0, UltimateDebit := None\<rparr>
    = b\<lparr>statement_item.Description := [], CounterIBAN := [], CounterEdrpou := [], statement_item.CounterName := [],
      statement_item.ReceiptID := [], CompletedTime := 0, UltimateDebit := None\<rparr>"
    and "statement_item.Description a = [] \<longleftrightarrow> statement_item.Description b = []" "iban_view (CounterIBAN a) = iban_view (CounterIBAN b)"
    "CounterEdrpou a = [] \<longleftrightarrow> CounterEdrpou b = []" "name_view (statement_item.CounterName a) = name_view (statement_item.CounterName b)"
    "UltimateDebit a = None \<longleftrightarrow> UltimateDebit b = None"
  shows "StatementItem_LogValue a = StatementItem_LogValue b"
  using assms by (cases a; cases b) (simp add: StatementItem_LogValue_def log_views)

end
