(* ===== verification/Webhook_Concurrency.thy ===== *)
theory Webhook_Concurrency
  imports Webhook_Handler
begin

text \<open>
  The webhook handler under concurrent requests (\<open>webhook/handler.go\<close>): each request is a goroutine at
  one of the points between which the others may run; the shared state is the cached key, the time of the last
  refresh, the deduplication memory and the group that coalesces refreshes.

  What lies between two points runs under one mutex or touches nothing shared. \<open>Webhook_Handler\<close> is
  the run of one goroutine from beginning to end. The callback and the key provider may
  return anything at any time. \<open>singleflight.Group\<close> is not part of the sources: \<open>admits R\<close> says whether an
  execution may begin while the goroutines \<open>R\<close> are executing, and \<open>exclusive admits\<close> is its documentation,
  that an execution begins only when none is in flight; callers that find one wait and share its result.
\<close>

section \<open>Goroutines\<close>

datatype ('k, 'e) wpc =
    WIdle
  | WRead string                                \<comment> \<open>the body is read, \<open>currentKey\<close> is next\<close>
  | WThrottle string "'k server_key"            \<comment> \<open>first check of \<open>refreshCoalesced\<close>\<close>
  | WFlight string "'k server_key"              \<comment> \<open>at \<open>refreshGroup.Do\<close>\<close>
  | WWaiting string "'k server_key"             \<comment> \<open>for the execution in flight\<close>
  | WInner string "'k server_key"               \<comment> \<open>executing: second check\<close>
  | WFetching string "'k server_key" int        \<comment> \<open>in \<open>ServerKey\<close>, and when the check passed\<close>
  | WStore string "'k server_key" "'k server_key"
  | WStamp string "'k server_key"
  | WRefreshed string "'k server_key" bool      \<comment> \<open>back from \<open>refreshCoalesced\<close>; whether it failed\<close>
  | WVerify string "'k server_key"
  | WDecide 'e                                  \<comment> \<open>at \<open>Dedup.Has\<close>\<close>
  | WCall 'e
  | WRunning 'e                                 \<comment> \<open>in \<open>OnEvent\<close>\<close>
  | WRecord 'e                                  \<comment> \<open>at \<open>Dedup.Add\<close>\<close>
  | WAnswered nat

record ('k, 'e, 'd) wsys =
  w_key :: "'k server_key option"
  w_last :: int
  w_mem :: 'd
  w_now :: int
  w_pc :: "nat \<Rightarrow> ('k, 'e) wpc"
  w_inside :: "nat set"                  \<comment> \<open>goroutines executing the refresh\<close>
  w_keys :: "'k server_key set"          \<comment> \<open>all keys the provider returned\<close>
  w_fetches :: "int list"                \<comment> \<open>when the checks of the successful refreshes passed, latest first\<close>
  w_calls :: "(nat \<times> 'e) list"           \<comment> \<open>callbacks begun, latest first\<close>
  w_ops :: nat                           \<comment> \<open>operations on the memory\<close>

definition admitted :: "int \<Rightarrow> request \<Rightarrow> nat + string" where
  \<comment> \<open>\<open>ServeHTTP\<close> up to \<open>currentKey\<close>: answered at once, or the body\<close>
  "admitted limit r =
     (if Method r = ''GET'' then Inl 200
      else if Method r \<noteq> ''POST'' then Inl 405
      else case ReadLimited limit r of BodyTooLarge \<Rightarrow> Inl 413 | BodyReadError \<Rightarrow> Inl 400 | BodyOk body \<Rightarrow> Inr body)"

definition recent :: "('k, 'e, 'd) wsys \<Rightarrow> bool" where
  "recent s \<longleftrightarrow> Since (w_now s) (w_last s) < minRefreshInterval"

definition goto :: "nat \<Rightarrow> ('k, 'e) wpc \<Rightarrow> ('k, 'e, 'd) wsys \<Rightarrow> ('k, 'e, 'd) wsys" where
  "goto g p s = s\<lparr>w_pc := (w_pc s)(g := p)\<rparr>"

definition leave :: "nat \<Rightarrow> string \<Rightarrow> 'k server_key \<Rightarrow> bool \<Rightarrow> ('k, 'e, 'd) wsys \<Rightarrow> ('k, 'e, 'd) wsys" where
  \<comment> \<open>the execution of \<open>g\<close> ends; those waiting share its result\<close>
  "leave g body k failed s =
     s\<lparr>w_pc := (\<lambda>j. if j = g then WRefreshed body k failed
                   else case w_pc s j of WWaiting b k' \<Rightarrow> WRefreshed b k' failed | p \<Rightarrow> p),
       w_inside := w_inside s - {g}\<rparr>"

definition after_verify :: "('k, 'd, 'u, 'e) options \<Rightarrow> request \<Rightarrow> string \<Rightarrow> 'k server_key \<Rightarrow> ('k, 'e event_scheme) wpc" where
  \<comment> \<open>\<open>Verify\<close> and \<open>Parse\<close>\<close>
  "after_verify opts r body k =
     (case Verify (Crypto opts) (PubKey k) body (Header r ''X-Sign'') of
        Some _ \<Rightarrow> WAnswered 401
      | None \<Rightarrow>
          (case Parse (Decode opts) body of
             UnknownType _ \<Rightarrow> WAnswered 200 | DecodeError _ \<Rightarrow> WAnswered 400 | Parsed ev \<Rightarrow> WDecide ev))"

definition key_id_differs :: "request \<Rightarrow> 'k server_key \<Rightarrow> bool" where
  "key_id_differs r k \<longleftrightarrow> Header r ''X-Key-Id'' \<noteq> [] \<and> Header r ''X-Key-Id'' \<noteq> KeyID k"

inductive wstep :: "('k, 'd, 'u, 'e) options \<Rightarrow> (nat \<Rightarrow> request) \<Rightarrow> (nat set \<Rightarrow> bool) \<Rightarrow>
    ('k, 'e event_scheme, 'd) wsys \<Rightarrow> ('k, 'e event_scheme, 'd) wsys \<Rightarrow> bool" for opts req admits where
  tick: "0 \<le> d \<Longrightarrow> wstep opts req admits s (s\<lparr>w_now := w_now s + d\<rparr>)"
| answer: "w_pc s g = WIdle \<Longrightarrow> admitted (maxBodyBytes opts) (req g) = Inl c \<Longrightarrow> wstep opts req admits s (goto g (WAnswered c) s)"
| arrive: "w_pc s g = WIdle \<Longrightarrow> admitted (maxBodyBytes opts) (req g) = Inr b \<Longrightarrow> wstep opts req admits s (goto g (WRead b) s)"
| no_key: "w_pc s g = WRead b \<Longrightarrow> w_key s = None \<Longrightarrow> wstep opts req admits s (goto g (WAnswered 503) s)"
| read_key: "w_pc s g = WRead b \<Longrightarrow> w_key s = Some k \<Longrightarrow>
    wstep opts req admits s (goto g (if key_id_differs (req g) k then WThrottle b k else WVerify b k) s)"
| throttle: "w_pc s g = WThrottle b k \<Longrightarrow>
    wstep opts req admits s (goto g (if recent s then WRefreshed b k False else WFlight b k) s)"
| enter: "w_pc s g = WFlight b k \<Longrightarrow> admits (w_inside s) \<Longrightarrow>
    wstep opts req admits s (goto g (WInner b k) (s\<lparr>w_inside := insert g (w_inside s)\<rparr>))"
| join: "w_pc s g = WFlight b k \<Longrightarrow> w_inside s \<noteq> {} \<Longrightarrow> wstep opts req admits s (goto g (WWaiting b k) s)"
| inner_recent: "w_pc s g = WInner b k \<Longrightarrow> recent s \<Longrightarrow> wstep opts req admits s (leave g b k False s)"
| inner: "w_pc s g = WInner b k \<Longrightarrow> \<not> recent s \<Longrightarrow> wstep opts req admits s (goto g (WFetching b k (w_now s)) s)"
| fetch_fails: "w_pc s g = WFetching b k t \<Longrightarrow> wstep opts req admits s (leave g b k True s)"
| fetch: "w_pc s g = WFetching b k t \<Longrightarrow>
    wstep opts req admits s (goto g (WStore b k sk) (s\<lparr>w_keys := insert sk (w_keys s), w_fetches := t # w_fetches s\<rparr>))"
| store: "w_pc s g = WStore b k sk \<Longrightarrow> wstep opts req admits s (goto g (WStamp b k) (s\<lparr>w_key := Some sk\<rparr>))"
| stamp: "w_pc s g = WStamp b k \<Longrightarrow> wstep opts req admits s (leave g b k False (s\<lparr>w_last := w_now s\<rparr>))"
| pick: "w_pc s g = WRefreshed b k failed \<Longrightarrow>
    wstep opts req admits s (goto g (WVerify b (if failed then k else case w_key s of Some k' \<Rightarrow> k' | None \<Rightarrow> k)) s)"
| verify: "w_pc s g = WVerify b k \<Longrightarrow> wstep opts req admits s (goto g (after_verify opts (req g) b k) s)"
| no_dedup: "w_pc s g = WDecide ev \<Longrightarrow> TransactionID ev = [] \<or> Deduper opts = None \<Longrightarrow> wstep opts req admits s (goto g (WCall ev) s)"
| dedup: "w_pc s g = WDecide ev \<Longrightarrow> TransactionID ev \<noteq> [] \<Longrightarrow> Deduper opts = Some api \<Longrightarrow>
    api_Has api (TransactionID ev) (w_mem s) = (dup, d) \<Longrightarrow>
    wstep opts req admits s (goto g (if dup then WAnswered 200 else WCall ev) (s\<lparr>w_mem := d, w_ops := Suc (w_ops s)\<rparr>))"
| call: "w_pc s g = WCall ev \<Longrightarrow> wstep opts req admits s (goto g (WRunning ev) (s\<lparr>w_calls := (g, ev) # w_calls s\<rparr>))"
| call_fails: "w_pc s g = WRunning ev \<Longrightarrow> wstep opts req admits s (goto g (WAnswered 500) s)"
| call_returns: "w_pc s g = WRunning ev \<Longrightarrow>
    wstep opts req admits s (goto g (if Deduper opts = None then WAnswered 200 else WRecord ev) s)"
| record_id: "w_pc s g = WRecord ev \<Longrightarrow> Deduper opts = Some api \<Longrightarrow>
    wstep opts req admits s (goto g (WAnswered 200) (s\<lparr>w_mem := api_Add api (TransactionID ev) (w_mem s), w_ops := Suc (w_ops s)\<rparr>))"

inductive wreach :: "('k, 'd, 'u, 'e) options \<Rightarrow> (nat \<Rightarrow> request) \<Rightarrow> (nat set \<Rightarrow> bool) \<Rightarrow>
    ('k, 'e event_scheme, 'd) wsys \<Rightarrow> ('k, 'e event_scheme, 'd) wsys \<Rightarrow> bool" for opts req admits s0 where
  wstart: "wreach opts req admits s0 s0"
| wmore: "wreach opts req admits s0 s \<Longrightarrow> wstep opts req admits s s' \<Longrightarrow> wreach opts req admits s0 s'"

definition started :: "'k server_key \<Rightarrow> 'd \<Rightarrow> int \<Rightarrow> ('k, 'e, 'd) wsys" where
  \<comment> \<open>after \<open>NewHandler\<close>, which fetched the first key without setting \<open>lastRefreshAt\<close>\<close>
  "started k d now = \<lparr>w_key = Some k, w_last = zero_time, w_mem = d, w_now = now, w_pc = (\<lambda>_. WIdle), w_inside = {},
     w_keys = {k}, w_fetches = [], w_calls = [], w_ops = 0\<rparr>"

definition exclusive :: "(nat set \<Rightarrow> bool) \<Rightarrow> bool" where
  "exclusive admits \<longleftrightarrow> (\<forall>R. admits R \<longrightarrow> R = {})"

section \<open>Only verified events\<close>

definition verified_event :: "('k, 'd, 'u, 'e) options \<Rightarrow> 'k server_key set \<Rightarrow> request \<Rightarrow> 'e event_scheme \<Rightarrow> bool" where
  \<comment> \<open>the request carries \<open>ev\<close> signed for a key the provider returned\<close>
  "verified_event opts K r ev \<longleftrightarrow> (\<exists>k\<in>K. \<exists>b. admitted (maxBodyBytes opts) r = Inr b \<and>
     Verify (Crypto opts) (PubKey k) b (Header r ''X-Sign'') = None \<and> Parse (Decode opts) b = Parsed ev)"

fun pc_ok :: "('k, 'd, 'u, 'e) options \<Rightarrow> request \<Rightarrow> 'k server_key set \<Rightarrow> ('k, 'e event_scheme) wpc \<Rightarrow> bool" where
  "pc_ok opts r K (WRead b) = (admitted (maxBodyBytes opts) r = Inr b)"
| "pc_ok opts r K (WThrottle b k) = (admitted (maxBodyBytes opts) r = Inr b \<and> k \<in> K)"
| "pc_ok opts r K (WFlight b k) = (admitted (maxBodyBytes opts) r = Inr b \<and> k \<in> K)"
| "pc_ok opts r K (WWaiting b k) = (admitted (maxBodyBytes opts) r = Inr b \<and> k \<in> K)"
| "pc_ok opts r K (WInner b k) = (admitted (maxBodyBytes opts) r = Inr b \<and> k \<in> K)"
| "pc_ok opts r K (WFetching b k t) = (admitted (maxBodyBytes opts) r = Inr b \<and> k \<in> K)"
| "pc_ok opts r K (WStore b k sk) = (admitted (maxBodyBytes opts) r = Inr b \<and> k \<in> K \<and> sk \<in> K)"
| "pc_ok opts r K (WStamp b k) = (admitted (maxBodyBytes opts) r = Inr b \<and> k \<in> K)"
| "pc_ok opts r K (WRefreshed b k failed) = (admitted (maxBodyBytes opts) r = Inr b \<and> k \<in> K)"
| "pc_ok opts r K (WVerify b k) = (admitted (maxBodyBytes opts) r = Inr b \<and> k \<in> K)"
| "pc_ok opts r K (WDecide ev) = verified_event opts K r ev"
| "pc_ok opts r K (WCall ev) = verified_event opts K r ev"
| "pc_ok opts r K (WRunning ev) = verified_event opts K r ev"
| "pc_ok opts r K (WRecord ev) = verified_event opts K r ev"
| "pc_ok opts r K WIdle = True"
| "pc_ok opts r K (WAnswered c) = True"

definition keys_ok :: "('k, 'd, 'u, 'e) options \<Rightarrow> (nat \<Rightarrow> request) \<Rightarrow> ('k, 'e event_scheme, 'd) wsys \<Rightarrow> bool" where
  "keys_ok opts req s \<longleftrightarrow> set_option (w_key s) \<subseteq> w_keys s \<and> (\<forall>g. pc_ok opts (req g) (w_keys s) (w_pc s g)) \<and>
     (\<forall>(g, ev) \<in> set (w_calls s). verified_event opts (w_keys s) (req g) ev)"

lemma verified_event_mono: "K \<subseteq> K' \<Longrightarrow> verified_event opts K r ev \<Longrightarrow> verified_event opts K' r ev"
  by (auto simp: verified_event_def)

lemma pc_ok_mono: "K \<subseteq> K' \<Longrightarrow> pc_ok opts r K p \<Longrightarrow> pc_ok opts r K' p"
  by (cases p) (auto intro: verified_event_mono)

lemma pc_ok_after_verify: "pc_ok opts r K (WVerify b k) \<Longrightarrow> pc_ok opts r K (after_verify opts r b k)"
  by (auto simp: after_verify_def verified_event_def split: option.split parse_result.split)

lemma keys_ok_goto: "keys_ok opts req s \<Longrightarrow> pc_ok opts (req g) (w_keys s) p \<Longrightarrow> keys_ok opts req (goto g p s)"
  by (auto simp: keys_ok_def goto_def)

lemma keys_ok_pc: "keys_ok opts req s \<Longrightarrow> pc_ok opts (req g) (w_keys s) (w_pc s g)"
  by (simp add: keys_ok_def)

lemma keys_ok_move:
  assumes "keys_ok opts req s" and "w_pc s g = q" and "pc_ok opts (req g) (w_keys s) q \<Longrightarrow> pc_ok opts (req g) (w_keys s) p"
  shows "keys_ok opts req (goto g p s)"
  by (rule keys_ok_goto [OF assms(1) assms(3)]) (use keys_ok_pc [OF assms(1), of g] assms(2) in simp)

lemma keys_ok_key: "keys_ok opts req s \<Longrightarrow> w_key s = Some k \<Longrightarrow> k \<in> w_keys s"
  by (auto simp: keys_ok_def)

lemma keys_ok_fields [simp]:
  "keys_ok opts req (s\<lparr>w_now := n\<rparr>) = keys_ok opts req s" "keys_ok opts req (s\<lparr>w_last := n\<rparr>) = keys_ok opts req s"
  "keys_ok opts req (s\<lparr>w_inside := I\<rparr>) = keys_ok opts req s"
  "keys_ok opts req (s\<lparr>w_mem := d, w_ops := m\<rparr>) = keys_ok opts req s"
  by (simp_all add: keys_ok_def)

lemma keys_ok_leave:
  assumes "keys_ok opts req s" and "pc_ok opts (req g) (w_keys s) (WRefreshed b k f)"
  shows "keys_ok opts req (leave g b k f s)"
proof -
  have "pc_ok opts (req j) (w_keys s) (case w_pc s j of WWaiting b k' \<Rightarrow> WRefreshed b k' f | p \<Rightarrow> p)" for j
    using keys_ok_pc [OF assms(1), of j] by (cases "w_pc s j") auto
  with assms show ?thesis by (auto simp: keys_ok_def leave_def)
qed

lemma keys_ok_exit:
  assumes "keys_ok opts req s" and "w_pc s g = q" and "pc_ok opts (req g) (w_keys s) q \<Longrightarrow> pc_ok opts (req g) (w_keys s) (WRefreshed b k f)"
  shows "keys_ok opts req (leave g b k f s)"
  by (rule keys_ok_leave [OF assms(1) assms(3)]) (use keys_ok_pc [OF assms(1), of g] assms(2) in simp)

lemma wstep_keys_ok:
  assumes "wstep opts req admits s s'" and ok: "keys_ok opts req s"
  shows "keys_ok opts req s'"
  using assms(1)
proof cases
  case (fetch g b k t sk)
  have "keys_ok opts req (s\<lparr>w_keys := insert sk (w_keys s), w_fetches := t # w_fetches s\<rparr>)"
    using ok by (auto simp: keys_ok_def intro: pc_ok_mono [OF subset_insertI] verified_event_mono [OF subset_insertI])
  with fetch keys_ok_pc [OF ok, of g] show ?thesis by (auto intro!: keys_ok_goto)
next
  case (store g b k sk)
  then have "keys_ok opts req (s\<lparr>w_key := Some sk\<rparr>)" using ok keys_ok_pc [OF ok, of g] by (auto simp: keys_ok_def)
  with store keys_ok_pc [OF ok, of g] show ?thesis by (auto intro!: keys_ok_goto)
next
  case (call g ev)
  then have "keys_ok opts req (s\<lparr>w_calls := (g, ev) # w_calls s\<rparr>)" using ok keys_ok_pc [OF ok, of g] by (auto simp: keys_ok_def)
  with call keys_ok_pc [OF ok, of g] show ?thesis by (auto intro!: keys_ok_goto)
next
  case (verify g b k)
  have "pc_ok opts (req g) (w_keys s) (WVerify b k)" using keys_ok_pc [OF ok, of g] unfolding verify(2) .
  then show ?thesis unfolding verify(1) by (intro keys_ok_goto [OF ok] pc_ok_after_verify)
next
  case (read_key g b k)
  with keys_ok_pc [OF ok, of g] keys_ok_key [OF ok] show ?thesis by (auto intro!: keys_ok_goto [OF ok])
next
  case (pick g b k failed)
  with keys_ok_pc [OF ok, of g] keys_ok_key [OF ok] show ?thesis by (auto intro!: keys_ok_goto [OF ok] split: option.split)
next
  case (enter g b k)
  with ok keys_ok_pc [OF ok, of g] show ?thesis by (auto intro!: keys_ok_goto)
next
  case (stamp g b k)
  with ok keys_ok_pc [OF ok, of g] show ?thesis by (auto intro!: keys_ok_leave)
next
  case (dedup g ev api dup d)
  with ok keys_ok_pc [OF ok, of g] show ?thesis by (auto intro!: keys_ok_goto)
next
  case (record_id g ev api)
  with ok keys_ok_pc [OF ok, of g] show ?thesis by (auto intro!: keys_ok_goto)
qed (use ok in \<open>auto elim!: keys_ok_move keys_ok_exit\<close>)

lemma reach_keys_ok: "wreach opts req admits s0 s \<Longrightarrow> keys_ok opts req s0 \<Longrightarrow> keys_ok opts req s"
  by (induction rule: wreach.induct) (auto intro: wstep_keys_ok)

text \<open>Under any interleaving the callback runs only on events signed for a key the provider returned.\<close>

lemma concurrent_calls_verified:
  assumes "wreach opts req admits (started k d now) s" and "(g, ev) \<in> set (w_calls s)"
  shows "verified_event opts (w_keys s) (req g) ev"
  using reach_keys_ok [OF assms(1)] assms(2) by (auto simp: keys_ok_def started_def)

section \<open>Refreshes\<close>

fun storing :: "('k, 'e) wpc \<Rightarrow> bool" where
  "storing (WStore b k sk) = True"
| "storing (WStamp b k) = True"
| "storing _ = False"

fun in_flight :: "('k, 'e) wpc \<Rightarrow> bool" where
  "in_flight (WInner b k) = True"
| "in_flight (WFetching b k t) = True"
| "in_flight p = storing p"

definition spaced_refreshes :: "('k, 'e, 'd) wsys \<Rightarrow> bool" where
  "spaced_refreshes s \<longleftrightarrow>
     (\<forall>g. in_flight (w_pc s g) \<longleftrightarrow> g \<in> w_inside s) \<and> (\<forall>g\<in>w_inside s. \<forall>h\<in>w_inside s. g = h) \<and>
     sorted_wrt (\<lambda>a b. b + minRefreshInterval \<le> a) (w_fetches s) \<and> (\<forall>t\<in>set (w_fetches s). t \<le> w_now s) \<and>
     (\<forall>g b k t. w_pc s g = WFetching b k t \<longrightarrow> t \<le> w_now s \<and> w_last s + minRefreshInterval \<le> t) \<and>
     ((\<exists>g. storing (w_pc s g)) \<or> (\<forall>t\<in>set (w_fetches s). t \<le> w_last s))"

lemma not_recent: "\<not> recent s \<Longrightarrow> w_last s + minRefreshInterval \<le> w_now s"
  by (auto simp: recent_def Since_def minRefreshInterval_def ns_per_s_def int64_min_def int64_max_def split: if_splits)

lemma spaced_goto:
  assumes "spaced_refreshes s" and "\<not> in_flight (w_pc s g)" and "\<not> in_flight p"
  shows "spaced_refreshes (goto g p s)"
proof -
  have st: "in_flight q" if "storing q" for q :: "('a, 'b) wpc" using that by (cases q) auto
  have p: "p \<noteq> WFetching b k t" for b k t using assms(3) by auto
  have h: "\<exists>h. storing (w_pc (goto g p s) h)" if "storing (w_pc s h)" for h
    using that assms(2) st by (intro exI [of _ h]) (auto simp: goto_def)
  have "(\<exists>h. storing (w_pc (goto g p s) h)) \<or> (\<forall>t\<in>set (w_fetches s). t \<le> w_last s)"
  proof (cases "\<exists>h. storing (w_pc s h)")
    case True
    then obtain h' where "storing (w_pc s h')" ..
    from h [OF this] show ?thesis ..
  next
    case False
    with assms(1) show ?thesis unfolding spaced_refreshes_def by blast
  qed
  moreover have "\<forall>j. in_flight (w_pc (goto g p s) j) \<longleftrightarrow> j \<in> w_inside s"
    using assms by (auto simp: spaced_refreshes_def goto_def)
  moreover have "w_pc (goto g p s) j = WFetching b k t \<Longrightarrow> w_pc s j = WFetching b k t" for j b k t
    using p [of b k t] by (cases "j = g") (auto simp: goto_def)
  ultimately show ?thesis using assms(1) p unfolding spaced_refreshes_def by (simp add: goto_def)
qed

lemma leave_pc: "j \<noteq> g \<Longrightarrow> w_pc (leave g b k f s) j = w_pc s j \<or> \<not> in_flight (w_pc (leave g b k f s) j) \<and> \<not> in_flight (w_pc s j)"
  by (cases "w_pc s j") (auto simp: leave_def)

lemma leave_fields [simp]:
  "w_inside (leave g b k f s) = w_inside s - {g}" "w_fetches (leave g b k f s) = w_fetches s" "w_now (leave g b k f s) = w_now s"
  "w_last (leave g b k f s) = w_last s" "w_pc (leave g b k f s) g = WRefreshed b k f"
  by (simp_all add: leave_def)

lemma spaced_leave:
  assumes sp: "spaced_refreshes s" and g: "g \<in> w_inside s" and l: "\<forall>t\<in>set (w_fetches s). t \<le> w_last s"
  shows "spaced_refreshes (leave g b k f s)"
proof -
  have i: "w_inside s = {g}" using sp g unfolding spaced_refreshes_def by blast
  then have o: "\<not> in_flight (w_pc s j)" if "j \<noteq> g" for j using sp that unfolding spaced_refreshes_def by auto
  have n: "\<not> in_flight (w_pc (leave g b k f s) j)" for j
    using leave_pc [of j g b k f s] o [of j] by (cases "j = g") auto
  then have "w_pc (leave g b k f s) j \<noteq> WFetching b' k' t" for j b' k' t by (metis in_flight.simps(2))
  with n sp l i show ?thesis unfolding spaced_refreshes_def by auto
qed

lemma storing_in_flight: "storing q \<Longrightarrow> in_flight q"
  by (cases q) auto

lemma alone:
  assumes "spaced_refreshes s" and "in_flight (w_pc s g)"
  shows "w_inside s = {g}" and "j \<noteq> g \<Longrightarrow> \<not> in_flight (w_pc s j)"
    and "\<not> storing (w_pc s g) \<Longrightarrow> \<forall>t\<in>set (w_fetches s). t \<le> w_last s"
proof -
  have i: "\<forall>g. in_flight (w_pc s g) \<longleftrightarrow> g \<in> w_inside s" "\<forall>g\<in>w_inside s. \<forall>h\<in>w_inside s. g = h"
    using assms(1) by (simp_all add: spaced_refreshes_def)
  with assms(2) show in1: "w_inside s = {g}" by blast
  with i show o: "\<not> in_flight (w_pc s j)" if "j \<noteq> g" for j using that by auto
  show "\<forall>t\<in>set (w_fetches s). t \<le> w_last s" if "\<not> storing (w_pc s g)"
  proof -
    have "\<not> storing (w_pc s j)" for j using that o [of j] storing_in_flight by (cases "j = g") auto
    with assms(1) show ?thesis unfolding spaced_refreshes_def by blast
  qed
qed

lemma wstep_spaced:
  assumes "wstep opts req admits s s'" and sp: "spaced_refreshes s" and "exclusive admits"
  shows "spaced_refreshes s'"
  using assms(1)
proof cases
  case (tick d)
  with sp show ?thesis unfolding spaced_refreshes_def by fastforce
next
  case (enter g b k)
  with assms(3) have e: "w_inside s = {}" by (simp add: exclusive_def)
  then have o: "\<not> in_flight (w_pc s j)" for j using sp unfolding spaced_refreshes_def by auto
  then have "\<not> storing (w_pc s j)" for j using storing_in_flight by blast
  with enter sp o e show ?thesis unfolding spaced_refreshes_def by (auto simp: goto_def split: if_splits)
next
  case (inner_recent g b k)
  then have f: "in_flight (w_pc s g)" "\<not> storing (w_pc s g)" by simp_all
  from spaced_leave [OF sp _ alone(3) [OF sp f]] alone(1) [OF sp f(1)] inner_recent show ?thesis by simp
next
  case (fetch_fails g b k t)
  then have f: "in_flight (w_pc s g)" "\<not> storing (w_pc s g)" by simp_all
  from spaced_leave [OF sp _ alone(3) [OF sp f]] alone(1) [OF sp f(1)] fetch_fails show ?thesis by simp
next
  case (inner g b k)
  then have f: "in_flight (w_pc s g)" "\<not> storing (w_pc s g)" by simp_all
  have "\<forall>j. in_flight (w_pc (goto g (WFetching b k (w_now s)) s) j) \<longleftrightarrow> j \<in> w_inside s"
    using sp f(1) by (auto simp: spaced_refreshes_def goto_def)
  with sp inner alone(3) [OF sp f] not_recent [of s] show ?thesis
    unfolding spaced_refreshes_def by (auto simp: goto_def split: if_splits)
next
  case (fetch g b k t sk)
  then have f: "in_flight (w_pc s g)" "\<not> storing (w_pc s g)" by simp_all
  have t: "t \<le> w_now s" "w_last s + minRefreshInterval \<le> t" using sp fetch(2) unfolding spaced_refreshes_def by blast+
  have "\<forall>x\<in>set (w_fetches s). x + minRefreshInterval \<le> t" using alone(3) [OF sp f] t(2) by force
  moreover have "\<exists>h. storing (w_pc (goto g (WStore b k sk) s) h)" by (intro exI [of _ g]) (simp add: goto_def)
  moreover have "\<forall>j. in_flight (w_pc (goto g (WStore b k sk) s) j) \<longleftrightarrow> j \<in> w_inside s"
    using sp f(1) by (auto simp: spaced_refreshes_def goto_def)
  ultimately show ?thesis using sp t(1) unfolding fetch(1) spaced_refreshes_def by (auto simp: goto_def split: if_splits)
next
  case (store g b k sk)
  then have f: "in_flight (w_pc s g)" by simp
  have "\<exists>h. storing (w_pc (goto g (WStamp b k) s) h)" by (intro exI [of _ g]) (simp add: goto_def)
  moreover have "\<forall>j. in_flight (w_pc (goto g (WStamp b k) s) j) \<longleftrightarrow> j \<in> w_inside s"
    using sp f by (auto simp: spaced_refreshes_def goto_def)
  ultimately show ?thesis using sp unfolding store(1) spaced_refreshes_def by (auto simp: goto_def split: if_splits)
next
  case (stamp g b k)
  then have f: "in_flight (w_pc s g)" by simp
  note al = alone(1,2) [OF sp f]
  have "w_pc s j \<noteq> WFetching b' k' t" for j b' k' t using al(2) [of j] stamp(2) by (cases "j = g") auto
  with sp have sp': "spaced_refreshes (s\<lparr>w_last := w_now s\<rparr>)" by (auto simp: spaced_refreshes_def)
  from sp have "\<forall>t\<in>set (w_fetches s). t \<le> w_now s" by (simp add: spaced_refreshes_def)
  with spaced_leave [OF sp', of g b k False] al(1) stamp show ?thesis by simp
next
  case (dedup g ev api dup d)
  have "spaced_refreshes (s\<lparr>w_mem := d, w_ops := Suc (w_ops s)\<rparr>)" using sp by (simp add: spaced_refreshes_def)
  with dedup show ?thesis by (auto intro!: spaced_goto)
next
  case (call g ev)
  have "spaced_refreshes (s\<lparr>w_calls := (g, ev) # w_calls s\<rparr>)" using sp by (simp add: spaced_refreshes_def)
  with call show ?thesis by (auto intro!: spaced_goto)
next
  case (record_id g ev api)
  have "spaced_refreshes (s\<lparr>w_mem := api_Add api (TransactionID ev) (w_mem s), w_ops := Suc (w_ops s)\<rparr>)"
    using sp by (simp add: spaced_refreshes_def)
  with record_id show ?thesis by (auto intro!: spaced_goto)
next
  case (verify g b k)
  then show ?thesis
    by (auto intro!: spaced_goto [OF sp] simp: after_verify_def split: option.split parse_result.split)
qed (auto intro!: spaced_goto [OF sp])

lemma reach_spaced: "wreach opts req admits s0 s \<Longrightarrow> exclusive admits \<Longrightarrow> spaced_refreshes s0 \<Longrightarrow> spaced_refreshes s"
  by (induction rule: wreach.induct) (auto intro: wstep_spaced)


text \<open>C15: refreshes are spaced. Under any interleaving of any number of requests, with a group that
  executes one refresh at a time, the checks of two successful refreshes of the key are at least
  \<open>minRefreshInterval\<close> apart: a burst of requests naming an unknown key asks the bank once.\<close>
theorem concurrent_refreshes_spaced:
  assumes "exclusive admits" and "wreach opts req admits (started k d now) s"
  shows "sorted_wrt (\<lambda>later earlier. earlier + minRefreshInterval \<le> later) (w_fetches s)"
proof -
  have "spaced_refreshes (started k d now)" by (simp add: spaced_refreshes_def started_def)
  from reach_spaced [OF assms(2,1) this] show ?thesis by (simp add: spaced_refreshes_def)
qed

lemma wreach_trans: "wreach opts req admits s0 s \<Longrightarrow> wreach opts req admits s s' \<Longrightarrow> wreach opts req admits s0 s'"
  by (rotate_tac 1) (induction rule: wreach.induct, auto intro: wmore)

lemma goto_goto [simp]: "goto g p (goto g q s) = goto g p s"
  by (simp add: goto_def)

lemma goto_pc [simp]: "w_pc (goto g p s) j = (if j = g then p else w_pc s j)"
  by (simp add: goto_def)

lemma goto_fields [simp]:
  "w_key (goto g p s) = w_key s" "w_last (goto g p s) = w_last s" "w_mem (goto g p s) = w_mem s" "w_now (goto g p s) = w_now s"
  "w_inside (goto g p s) = w_inside s" "w_fetches (goto g p s) = w_fetches s" "w_calls (goto g p s) = w_calls s"
  "w_ops (goto g p s) = w_ops s" "recent (goto g p s) = recent s"
  by (simp_all add: goto_def recent_def)

text \<open>A request that names an unknown key while no refresh is running or recent.\<close>

lemma refresh_path:
  assumes "w_pc s g = WIdle" and "admitted (maxBodyBytes opts) (req g) = Inr b" and "w_key s = Some k"
    and "key_id_differs (req g) k" and "\<not> recent s" and "admits (w_inside s)"
  shows "\<exists>s'. wreach opts req admits s s' \<and> w_fetches s' = w_now s # w_fetches s \<and> w_last s' = w_now s \<and> w_now s' = w_now s \<and>
    w_key s' = Some sk \<and> w_inside s' = w_inside s - {g} \<and> (j \<noteq> g \<longrightarrow> w_pc s j = WIdle \<longrightarrow> w_pc s' j = WIdle)"
proof -
  let ?r = "wreach opts req admits s"
  let ?s1 = "goto g (WInner b k) (s\<lparr>w_inside := insert g (w_inside s)\<rparr>)"
  let ?s2 = "goto g (WStore b k sk) ((goto g (WFetching b k (w_now s)) ?s1)\<lparr>w_keys := insert sk (w_keys ?s1), w_fetches := w_now s # w_fetches s\<rparr>)"
  let ?s3 = "goto g (WStamp b k) (?s2\<lparr>w_key := Some sk\<rparr>)"
  have a: "?r (goto g (WRead b) s)" by (rule wmore [OF wstart arrive]) (use assms in auto)
  from wmore [OF this read_key [of _ g b k]] assms have "?r (goto g (WThrottle b k) s)" by simp
  from wmore [OF this throttle [of _ g b k]] assms have f: "?r (goto g (WFlight b k) s)" by simp
  from wmore [OF this enter [of _ g b k]] assms have "?r ?s1" by (simp add: goto_def)
  moreover have "wstep opts req admits ?s1 (goto g (WFetching b k (w_now s)) ?s1)"
    using inner [of ?s1 g b k opts req admits] assms(5) by (simp add: recent_def)
  ultimately have "?r (goto g (WFetching b k (w_now s)) ?s1)" by (rule wmore)
  moreover have "wstep opts req admits (goto g (WFetching b k (w_now s)) ?s1) ?s2"
    using fetch [of "goto g (WFetching b k (w_now s)) ?s1" g b k "w_now s" opts req admits sk] by (simp add: goto_def)
  ultimately have "?r ?s2" by (rule wmore)
  moreover have "wstep opts req admits ?s2 ?s3" by (rule store [of _ _ b k sk]) simp
  ultimately have "?r ?s3" by (rule wmore)
  moreover have "wstep opts req admits ?s3 (leave g b k False (?s3\<lparr>w_last := w_now ?s3\<rparr>))" by (rule stamp) simp
  ultimately have "?r (leave g b k False (?s3\<lparr>w_last := w_now ?s3\<rparr>))" by (rule wmore)
  then show ?thesis by (intro exI conjI, assumption) (auto simp: leave_def goto_def)
qed

definition rotated_request :: request where
  "rotated_request = (demo_request ''tx'')\<lparr>Header := (\<lambda>h. if h = ''X-Key-Id'' then ''k2'' else ''sig'')\<rparr>"

theorem concurrent_refreshes_spaced_witness:
  "\<exists>s :: (nat, event, memory_deduper) wsys. w_fetches s = [zero_time + 150 * ns_per_s, zero_time + 90 * ns_per_s] \<and>
     sorted_wrt (\<lambda>later earlier. earlier + minRefreshInterval \<le> later) (w_fetches s)"
proof -
  let ?k = "\<lparr>KeyID = ''k1'', PubKey = Some (7 :: nat)\<rparr>" and ?r = "\<lambda>_ :: nat. rotated_request" and ?a = "\<lambda>R :: nat set. R = {}"
  let ?W = "wreach demo_options ?r ?a"
  let ?s0 = "started ?k (NewMemoryDeduper 2) (zero_time + 90 * ns_per_s) :: (nat, event, memory_deduper) wsys"
  have ad: "admitted (maxBodyBytes demo_options) rotated_request = Inr ''tx''"
    by (simp add: admitted_def ReadLimited_def rotated_request_def demo_request_def demo_options_def DefaultMaxBodyBytes_def)
  have m: "key_id_differs rotated_request ?k" by (simp add: key_id_differs_def rotated_request_def)
  have i: "w_pc ?s0 0 = WIdle" "w_pc ?s0 1 = WIdle" "w_key ?s0 = Some ?k" "\<not> recent ?s0" "w_inside ?s0 = {}"
    "w_fetches ?s0 = []" "w_now ?s0 = zero_time + 90 * ns_per_s"
    by (simp_all add: started_def recent_def Since_def minRefreshInterval_def ns_per_s_def int64_min_def int64_max_def zero_time_def)
  obtain s1 where s1: "?W ?s0 s1" "w_fetches s1 = [w_now ?s0]" "w_last s1 = w_now ?s0" "w_now s1 = w_now ?s0"
    "w_key s1 = Some ?k" "w_inside s1 = {}" "w_pc s1 1 = WIdle"
    using refresh_path [where opts = demo_options and req = ?r and admits = ?a and sk = ?k and j = 1, OF i(1) ad i(3) m i(4)]
    unfolding i(5,6) using i(2) by auto
  let ?s2 = "s1\<lparr>w_now := w_now s1 + 60 * ns_per_s\<rparr>"
  have "wstep demo_options ?r ?a s1 ?s2" by (rule tick) (simp add: ns_per_s_def)
  with s1(1) have s2: "?W ?s0 ?s2" by (rule wmore)
  have "\<not> recent ?s2" using s1(3,4) i(7)
    by (simp add: recent_def Since_def minRefreshInterval_def ns_per_s_def int64_min_def int64_max_def)
  then obtain s3 where s3: "?W ?s2 s3" "w_fetches s3 = [w_now s1 + 60 * ns_per_s, w_now ?s0]"
    using refresh_path [of ?s2 1 demo_options ?r "''tx''" ?k ?a ?k 0] ad m s1 by auto
  have "exclusive ?a" by (simp add: exclusive_def)
  from concurrent_refreshes_spaced [OF this wreach_trans [OF s2 s3(1)]] s3(2) s1(4) i(7) show ?thesis
    by (intro exI [of _ s3]) simp
qed

section \<open>The deduplication memory shared by the goroutines\<close>

fun called :: "('k, 'e) wpc \<Rightarrow> bool" where
  \<comment> \<open>the goroutine has begun its callback, or was answered\<close>
  "called (WRunning e) = True"
| "called (WRecord e) = True"
| "called (WAnswered n) = True"
| "called _ = False"

definition late_calls :: "string \<Rightarrow> ('k, 'e event_scheme, 'd) wsys \<Rightarrow> ('k, 'e event_scheme, 'd) wsys \<Rightarrow> bool" where
  \<comment> \<open>nobody came to the callback of the id since the state \<open>s0\<close>; the calls begun since are of goroutines that were at it then\<close>
  "late_calls k s0 s \<longleftrightarrow>
     (\<forall>j e. w_pc s j = WCall e \<and> TransactionID e = k \<longrightarrow> w_pc s0 j = WCall e) \<and>
     (\<exists>late. filter (\<lambda>(j, e). TransactionID e = k) (w_calls s) = late @ filter (\<lambda>(j, e). TransactionID e = k) (w_calls s0) \<and>
        distinct (map fst late) \<and> (\<forall>(j, e) \<in> set late. w_pc s0 j = WCall e \<and> called (w_pc s j)))"

context deduper
begin

lemma wstep_dinv:
  assumes "wstep opts req admits s s'" and "Deduper opts = Some api" and "dinv (w_mem s)"
  shows "dinv (w_mem s') \<and> window (w_mem s') = window (w_mem s) \<and> w_ops s \<le> w_ops s'"
  using assms(1)
proof cases
  case (dedup g ev api' dup d)
  with assms dinv_has [OF assms(3), of "TransactionID ev"] window_has [of "TransactionID ev" "w_mem s"] show ?thesis by simp
qed (use assms(2,3) in \<open>auto simp: leave_def dinv_add window_add\<close>)

lemma wreach_dinv: "wreach opts req admits s s' \<Longrightarrow> Deduper opts = Some api \<Longrightarrow> dinv (w_mem s) \<Longrightarrow>
    dinv (w_mem s') \<and> window (w_mem s') = window (w_mem s) \<and> w_ops s \<le> w_ops s'"
  by (induction rule: wreach.induct) (auto dest: wstep_dinv)

lemma wstep_known:
  assumes "wstep opts req admits s s'" and "Deduper opts = Some api" and "dinv (w_mem s)" and "k \<in> seen (w_mem s)"
    and "age (w_mem s) k + (w_ops s' - w_ops s) < window (w_mem s)"
  shows "k \<in> seen (w_mem s') \<and> age (w_mem s') k + w_ops s \<le> age (w_mem s) k + w_ops s'"
  using assms(1)
proof cases
  case (dedup g ev api' dup d)
  then have "api' = api" using assms(2) by simp
  with dedup have d: "has (TransactionID ev) (w_mem s) = (dup, d)" by simp
  with dedup age_has [OF assms(3,4), of "TransactionID ev"] seen_has [OF assms(3), of "TransactionID ev"] assms(4)
  show ?thesis by (auto split: if_splits)
next
  case (record_id g ev api')
  with assms seen_add_keep [OF assms(3,4), of "TransactionID ev"] show ?thesis by simp
qed (use assms(4) in \<open>auto simp: leave_def\<close>)

text \<open>Once an id is known, no goroutine passes the check for it. Those already past it may still begin the callback,
  each once.\<close>

lemma wstep_late_calls:
  assumes "wstep opts req admits s s'" and "Deduper opts = Some api" and "dinv (w_mem s)" and "k \<in> seen (w_mem s)"
  shows "w_pc s' j = WCall e \<Longrightarrow> TransactionID e = k \<Longrightarrow> w_pc s j = WCall e"
    and "called (w_pc s j) \<Longrightarrow> called (w_pc s' j)"
    and "w_calls s' = w_calls s \<or> (\<exists>g e. w_pc s g = WCall e \<and> called (w_pc s' g) \<and> w_calls s' = (g, e) # w_calls s)"
proof -
  have ne: "k \<noteq> []" using empty_not_seen [OF assms(3)] assms(4) by auto
  have l: "w_pc (leave g b k' f s0) j = WCall e \<Longrightarrow> w_pc s0 j = WCall e" for g b k' f s0 j e
    by (cases "w_pc s0 j") (auto simp: leave_def split: if_splits)
  show "w_pc s' j = WCall e \<Longrightarrow> TransactionID e = k \<Longrightarrow> w_pc s j = WCall e"
    using assms(1)
  proof cases
    case (verify g b k')
    then show "w_pc s' j = WCall e \<Longrightarrow> TransactionID e = k \<Longrightarrow> w_pc s j = WCall e"
      by (auto simp: after_verify_def split: option.splits parse_result.splits if_splits)
  next
    case (dedup g ev api' dup d)
    then have "api' = api" using assms(2) by simp
    with dedup have "dup = (TransactionID ev \<in> seen (w_mem s))" using has_iff [OF assms(3), of "TransactionID ev"] by simp
    with dedup assms(4) show "w_pc s' j = WCall e \<Longrightarrow> TransactionID e = k \<Longrightarrow> w_pc s j = WCall e" by (auto split: if_splits)
  qed (use ne assms(2) in \<open>auto simp: leave_def dest!: l split: if_splits wpc.splits\<close>)
  have c: "called (w_pc s0 j) \<Longrightarrow> j \<noteq> g \<Longrightarrow> called (w_pc (leave g b k' f s0) j)" for g b k' f s0
    by (cases "w_pc s0 j") (auto simp: leave_def)
  show "called (w_pc s j) \<Longrightarrow> called (w_pc s' j)"
    using assms(1)
  proof cases
    case (stamp g b k')
    then show "called (w_pc s j) \<Longrightarrow> called (w_pc s' j)" by (cases "j = g") (auto intro: c)
  next
    case (inner_recent g b k')
    then show "called (w_pc s j) \<Longrightarrow> called (w_pc s' j)" by (cases "j = g") (auto intro: c)
  next
    case (fetch_fails g b k' t)
    then show "called (w_pc s j) \<Longrightarrow> called (w_pc s' j)" by (cases "j = g") (auto intro: c)
  qed (auto split: if_splits)
  show "w_calls s' = w_calls s \<or> (\<exists>g e. w_pc s g = WCall e \<and> called (w_pc s' g) \<and> w_calls s' = (g, e) # w_calls s)"
    using assms(1) by cases (auto simp: leave_def)
qed

lemma late_calls_step:
  assumes "wstep opts req admits s s'" and "Deduper opts = Some api" and "dinv (w_mem s)" and "k \<in> seen (w_mem s)"
    and "late_calls k s0 s"
  shows "late_calls k s0 s'"
proof -
  note st = wstep_late_calls [OF assms(1-4)]
  have past: "\<forall>j e. w_pc s' j = WCall e \<and> TransactionID e = k \<longrightarrow> w_pc s0 j = WCall e"
    using assms(5) st(1) unfolding late_calls_def by blast
  from assms(5) obtain late where late: "filter (\<lambda>(j, e). TransactionID e = k) (w_calls s) = late @ filter (\<lambda>(j, e). TransactionID e = k) (w_calls s0)"
    "distinct (map fst late)" "\<forall>(j, e) \<in> set late. w_pc s0 j = WCall e \<and> called (w_pc s j)" unfolding late_calls_def by blast
  have kept: "\<forall>(j, e) \<in> set late. w_pc s0 j = WCall e \<and> called (w_pc s' j)" using late(3) st(2) by fast
  from st(3) consider "filter (\<lambda>(j, e). TransactionID e = k) (w_calls s') = filter (\<lambda>(j, e). TransactionID e = k) (w_calls s)"
    | g e where "w_pc s g = WCall e" "TransactionID e = k" "called (w_pc s' g)" "w_calls s' = (g, e) # w_calls s"
    by fastforce
  then show ?thesis
  proof cases
    case 1
    with past late kept show ?thesis unfolding late_calls_def by (intro conjI exI [of _ late]) simp_all
  next
    case (2 g e)
    have "\<not> called (w_pc s g)" using 2(1) by simp
    then have "g \<notin> fst ` set late" using late(3) by fastforce
    moreover have "w_pc s0 g = WCall e" using assms(5) 2(1,2) unfolding late_calls_def by blast
    ultimately show ?thesis using past late kept 2 unfolding late_calls_def by (intro conjI exI [of _ "(g, e) # late"]) auto
  qed
qed

lemma wreach_late_calls:
  assumes "wreach opts req admits s0 s" and d: "Deduper opts = Some api" and i: "dinv (w_mem s0)" and k: "k \<in> seen (w_mem s0)"
    and "age (w_mem s0) k + (w_ops s - w_ops s0) < window (w_mem s0)"
  shows "k \<in> seen (w_mem s) \<and> age (w_mem s) k + w_ops s0 \<le> age (w_mem s0) k + w_ops s \<and> late_calls k s0 s"
  using assms(1,5)
proof (induction rule: wreach.induct)
  case (wmore s s')
  note r = wreach_dinv [OF wmore(1) d i]
  note st = wstep_dinv [OF wmore(2) d conjunct1 [OF r]]
  have "age (w_mem s0) k + (w_ops s - w_ops s0) < window (w_mem s0)"
    using wmore.prems conjunct2 [OF conjunct2 [OF st]] by linarith
  from wmore.IH [OF this] have IH: "k \<in> seen (w_mem s)" "age (w_mem s) k + w_ops s0 \<le> age (w_mem s0) k + w_ops s"
    "late_calls k s0 s" by blast+
  have "age (w_mem s) k + (w_ops s' - w_ops s) < window (w_mem s)" using wmore.prems IH(2) r st by linarith
  from wstep_known [OF wmore(2) d _ IH(1) this] late_calls_step [OF wmore(2) d _ IH(1,3)] r IH(2) show ?case by auto
qed (use k in \<open>auto simp: late_calls_def intro!: exI [of _ "[]"]\<close>)

end

text \<open>C28: once an id is recorded, only goroutines that were past the check by then can begin the callback for it,
  each once, whatever the interleaving. When some goroutine has recorded an id in the memory, then until \<open>capacity\<close>
  further operations have reached the memory, each callback begun for that id is begun by a goroutine that had passed the check
  for it before the id was recorded (it was about to call then), and no goroutine begins it twice; no
  request that reaches the check later begins it. In particular, with no other delivery of that id in flight it is not
  begun again.\<close>
theorem concurrent_redelivery_not_processed_twice:
  assumes "Deduper opts = Some \<lparr>api_Has = Has, api_Add = Add_id\<rparr>"
    and "wreach opts req admits (started k (NewMemoryDeduper cap) now) s1"
    and "wstep opts req admits s1 s2" and "w_pc s1 g = WRecord ev" and "w_pc s2 g = WAnswered 200" and "TransactionID ev \<noteq> []"
    and "wreach opts req admits s2 s" and "int (w_ops s - w_ops s2) < capacity (NewMemoryDeduper cap)"
  shows "\<exists>late. filter (\<lambda>(j, e). TransactionID e = TransactionID ev) (w_calls s)
      = late @ filter (\<lambda>(j, e). TransactionID e = TransactionID ev) (w_calls s2) \<and>
    distinct (map fst late) \<and> (\<forall>(j, e) \<in> set late. j \<noteq> g \<and> w_pc s1 j = WCall e)"
proof -
  have "lru_inv (w_mem s1) \<and> nat (capacity (w_mem s1)) = nat (capacity (NewMemoryDeduper cap))"
    using mem_dedup.wreach_dinv [OF assms(2,1)] by (simp add: started_def lru_inv_New)
  moreover have s2: "s2 = goto g (WAnswered 200) (s1\<lparr>w_mem := Add_id (TransactionID ev) (w_mem s1), w_ops := Suc (w_ops s1)\<rparr>)"
    using assms(3)
  proof cases
    case (stamp g' b k)
    with assms(4,5) show ?thesis by (auto simp: leave_def split: if_splits)
  next
    case (inner_recent g' b k)
    with assms(4,5) show ?thesis by (auto simp: leave_def split: if_splits)
  next
    case (fetch_fails g' b k t)
    with assms(4,5) show ?thesis by (auto simp: leave_def split: if_splits)
  qed (use assms(1,4,5) in \<open>auto split: if_splits\<close>)
  ultimately have m: "lru_inv (w_mem s2)" "TransactionID ev \<in> set (lru_abs (w_mem s2))"
      "lru_age (lru_abs (w_mem s2)) (TransactionID ev) = 0" "nat (capacity (w_mem s2)) = nat (capacity (NewMemoryDeduper cap))"
    using assms(6) mem_dedup.dinv_add mem_dedup.seen_add_new mem_dedup.age_add_new mem_dedup.window_add by auto
  have before: "j \<noteq> g \<and> w_pc s1 j = WCall e" if "w_pc s2 j = WCall e" for j e
    using that unfolding s2 by (auto split: if_splits)
  have "late_calls (TransactionID ev) s2 s"
    using mem_dedup.wreach_late_calls [OF assms(7,1) m(1,2)] m(3,4) assms(8) by auto
  then obtain late where late: "filter (\<lambda>(j, e). TransactionID e = TransactionID ev) (w_calls s)
      = late @ filter (\<lambda>(j, e). TransactionID e = TransactionID ev) (w_calls s2)"
    "distinct (map fst late)" "\<forall>(j, e) \<in> set late. w_pc s2 j = WCall e \<and> called (w_pc s j)"
    unfolding late_calls_def by blast
  have "\<forall>(j, e) \<in> set late. j \<noteq> g \<and> w_pc s1 j = WCall e" using late(3) before by blast
  with late(1,2) show ?thesis by (intro exI [of _ late] conjI)
qed

lemma to_decide:
  assumes "w_pc s g = WIdle" and "admitted (maxBodyBytes opts) (req g) = Inr b" and "w_key s = Some k"
    and "\<not> key_id_differs (req g) k" and "after_verify opts (req g) b k = WDecide ev"
  shows "wreach opts req admits s (goto g (WDecide ev) s)"
proof -
  have "wreach opts req admits s (goto g (WRead b) s)" by (rule wmore [OF wstart arrive]) (use assms in auto)
  from wmore [OF this read_key [of _ g b k]] assms have "wreach opts req admits s (goto g (WVerify b k) s)" by simp
  from wmore [OF this verify [of _ g b k]] assms show ?thesis by simp
qed

lemma to_running:
  assumes "w_pc s g = WDecide ev" and "TransactionID ev \<noteq> []" and "Deduper opts = Some \<lparr>api_Has = Has, api_Add = Add_id\<rparr>"
    and "index (w_mem s) (TransactionID ev) = None"
  shows "wreach opts req admits s (goto g (WRunning ev) (s\<lparr>w_ops := Suc (w_ops s), w_calls := (g, ev) # w_calls s\<rparr>))"
proof -
  have "Has (TransactionID ev) (w_mem s) = (False, w_mem s)" using assms(2,4) by (simp add: Has_def)
  then have "wstep opts req admits s (goto g (WCall ev) (s\<lparr>w_mem := w_mem s, w_ops := Suc (w_ops s)\<rparr>))"
    using dedup [of s g ev opts "\<lparr>api_Has = Has, api_Add = Add_id\<rparr>" False "w_mem s" req admits] assms by simp
  from wmore [OF wmore [OF wstart this] call [of _ g ev]] show ?thesis by (simp add: goto_def)
qed

definition demo_event :: event where
  "demo_event = \<lparr>Type = ''StatementItem'', AccountID = ''acc'', TransactionID = ''tx''\<rparr>"

definition demo_started :: "(nat, event, memory_deduper) wsys" where
  "demo_started = started \<lparr>KeyID = ''k1'', PubKey = Some 7\<rparr> (NewMemoryDeduper 2) (zero_time + 90 * ns_per_s)"

lemma demo_to_decide:
  assumes "w_pc s g = WIdle" and "w_key s = Some \<lparr>KeyID = ''k1'', PubKey = Some 7\<rparr>"
  shows "wreach demo_options (\<lambda>_. demo_request ''tx'') admits s (goto g (WDecide demo_event) s)"
proof (rule to_decide [OF assms(1) _ assms(2)])
  show "admitted (maxBodyBytes demo_options) (demo_request ''tx'') = Inr ''tx''"
    by (simp add: admitted_def ReadLimited_def demo_defs DefaultMaxBodyBytes_def)
  show "\<not> key_id_differs (demo_request ''tx'') \<lparr>KeyID = ''k1'', PubKey = Some 7\<rparr>" by (simp add: key_id_differs_def demo_request_def)
  show "after_verify demo_options (demo_request ''tx'') ''tx'' \<lparr>KeyID = ''k1'', PubKey = Some 7\<rparr> = WDecide demo_event"
    using b64_decode_encode [of "''tx''"]
    by (simp add: after_verify_def Verify_def Parse_def demo_defs demo_event_def del: b64_encode.simps)
qed

lemma demo_deduper: "Deduper demo_options = Some \<lparr>api_Has = Has, api_Add = Add_id\<rparr>"
  by (simp add: demo_options_def)

text \<open>The check and the recording are two operations: two deliveries of one event that arrive together
  both find the id unknown, and the callback runs for both.\<close>

lemma concurrent_deliveries_both_call:
  "\<exists>s. wreach demo_options (\<lambda>_. demo_request ''tx'') admits demo_started s \<and> w_calls s = [(1, demo_event), (0, demo_event)] \<and>
     w_pc s 0 = WRunning demo_event \<and> w_pc s 1 = WRunning demo_event"
proof -
  let ?W = "wreach demo_options (\<lambda>_. demo_request ''tx'') admits"
  let ?s1 = "goto 1 (WDecide demo_event) (goto 0 (WDecide demo_event) demo_started)"
  let ?s2 = "goto 0 (WRunning demo_event) (?s1\<lparr>w_ops := Suc (w_ops ?s1), w_calls := (0, demo_event) # w_calls ?s1\<rparr>)"
  have ne: "TransactionID demo_event \<noteq> []" by (simp add: demo_event_def)
  have "?W demo_started (goto 0 (WDecide demo_event) demo_started)" by (rule demo_to_decide) (simp_all add: demo_started_def started_def)
  moreover have "?W (goto 0 (WDecide demo_event) demo_started) ?s1" by (rule demo_to_decide) (simp_all add: demo_started_def started_def)
  moreover have "?W ?s1 ?s2"
    by (rule to_running [OF _ ne demo_deduper]) (simp_all add: demo_started_def started_def NewMemoryDeduper_def)
  moreover have "?W ?s2 (goto 1 (WRunning demo_event) (?s2\<lparr>w_ops := Suc (w_ops ?s2), w_calls := (1, demo_event) # w_calls ?s2\<rparr>))"
    by (rule to_running [OF _ ne demo_deduper]) (simp_all add: demo_started_def started_def NewMemoryDeduper_def)
  ultimately have "?W demo_started (goto 1 (WRunning demo_event) (?s2\<lparr>w_ops := Suc (w_ops ?s2), w_calls := (1, demo_event) # w_calls ?s2\<rparr>))"
    by (blast intro: wreach_trans)
  then show ?thesis by (intro exI conjI, assumption) (simp_all add: demo_started_def started_def)
qed

theorem concurrent_redelivery_not_processed_twice_witness:
  "\<exists>s. w_pc s 1 = WAnswered 200 \<and> filter (\<lambda>(j :: nat, e). TransactionID e = ''tx'') (w_calls s) = [(0, demo_event)] \<and>
     wreach demo_options (\<lambda>_. demo_request ''tx'') (\<lambda>R. R = {}) demo_started s"
proof -
  let ?W = "wreach demo_options (\<lambda>_. demo_request ''tx'') (\<lambda>R. R = {})"
  let ?s1 = "goto 0 (WDecide demo_event) demo_started"
  let ?s2 = "goto 0 (WRunning demo_event) (?s1\<lparr>w_ops := Suc (w_ops ?s1), w_calls := (0, demo_event) # w_calls ?s1\<rparr>)"
  let ?s3 = "goto 0 (WRecord demo_event) ?s2"
  let ?s4 = "goto 0 (WAnswered 200) (?s3\<lparr>w_mem := Add_id ''tx'' (w_mem ?s3), w_ops := Suc (w_ops ?s3)\<rparr>)"
  let ?s5 = "goto 1 (WDecide demo_event) ?s4"
  let ?s6 = "goto 1 (WAnswered 200) (?s5\<lparr>w_mem := snd (Has ''tx'' (w_mem ?s5)), w_ops := Suc (w_ops ?s5)\<rparr>)"
  have ne: "TransactionID demo_event \<noteq> []" and tx: "TransactionID demo_event = ''tx''" by (simp_all add: demo_event_def)
  note d = demo_started_def started_def
  have "?W demo_started ?s1" by (rule demo_to_decide) (simp_all add: d)
  moreover have "?W ?s1 ?s2"
    by (rule to_running [OF _ ne demo_deduper]) (simp_all add: d NewMemoryDeduper_def)
  ultimately have "?W demo_started ?s2" by (rule wreach_trans)
  moreover have "wstep demo_options (\<lambda>_. demo_request ''tx'') (\<lambda>R. R = {}) ?s2 ?s3"
    using call_returns [of ?s2 0 demo_event demo_options] by (simp add: demo_deduper)
  ultimately have s3: "?W demo_started ?s3" by (rule wmore)
  have s4: "wstep demo_options (\<lambda>_. demo_request ''tx'') (\<lambda>R. R = {}) ?s3 ?s4"
    using record_id [of ?s3 0 demo_event demo_options "\<lparr>api_Has = Has, api_Add = Add_id\<rparr>" "\<lambda>_. demo_request ''tx''" "\<lambda>R. R = {}", OF _ demo_deduper]
    by (simp add: tx)
  have "w_mem ?s5 = Add_id ''tx'' (NewMemoryDeduper 2)" by (simp add: d)
  then have "fst (Has ''tx'' (w_mem ?s5))" using mem_dedup.has_iff [OF mem_dedup.dinv_add [OF lru_inv_New], of "''tx''"]
      mem_dedup.seen_add_new [OF lru_inv_New, of "''tx''" 2] by simp
  then have "Has ''tx'' (w_mem ?s5) = (True, snd (Has ''tx'' (w_mem ?s5)))" by (simp add: prod_eq_iff)
  then have "wstep demo_options (\<lambda>_. demo_request ''tx'') (\<lambda>R. R = {}) ?s5 ?s6"
    using dedup [of ?s5 1 demo_event demo_options "\<lparr>api_Has = Has, api_Add = Add_id\<rparr>" True] by (simp add: demo_deduper tx)
  moreover have "?W ?s4 ?s5" by (rule demo_to_decide) (simp_all add: d)
  ultimately have s6: "?W ?s4 ?s6" by (blast intro: wmore)
  have "\<exists>late. filter (\<lambda>(j, e). TransactionID e = TransactionID demo_event) (w_calls ?s6)
      = late @ filter (\<lambda>(j, e). TransactionID e = TransactionID demo_event) (w_calls ?s4) \<and>
    distinct (map fst late) \<and> (\<forall>(j, e) \<in> set late. j \<noteq> 0 \<and> w_pc ?s3 j = WCall e)"
    by (rule concurrent_redelivery_not_processed_twice [where k = "\<lparr>KeyID = ''k1'', PubKey = Some 7\<rparr>" and cap = 2
          and now = "zero_time + 90 * ns_per_s", OF demo_deduper _ s4 _ _ ne s6])
      (use s3 in \<open>auto simp: d NewMemoryDeduper_def\<close>)
  then obtain late where late: "filter (\<lambda>(j, e). TransactionID e = TransactionID demo_event) (w_calls ?s6)
      = late @ filter (\<lambda>(j, e). TransactionID e = TransactionID demo_event) (w_calls ?s4)"
    "\<forall>(j, e) \<in> set late. j \<noteq> 0 \<and> w_pc ?s3 j = WCall e" by blast
  have "late = []" using late(2) by (cases late) (auto simp: d)
  with late(1) have "filter (\<lambda>(j, e). TransactionID e = TransactionID demo_event) (w_calls ?s6) =
      filter (\<lambda>(j, e). TransactionID e = TransactionID demo_event) (w_calls ?s4)" by simp
  then have "filter (\<lambda>(j, e). TransactionID e = ''tx'') (w_calls ?s6) = [(0, demo_event)]" by (simp add: tx d)
  moreover have "?W demo_started ?s6" using wmore [OF s3 s4] s6 by (rule wreach_trans)
  ultimately show ?thesis by (intro exI [of _ ?s6]) simp
qed

end
