(* ===== verification/Jar.thy ===== *)
theory Jar
  imports Installment_Client Money
begin

text \<open>
  The client of the two public jar endpoints (\<open>jar/jar.go\<close>): construction with its scheme guard, both
  look-ups with every error path, the money views and the JSON shape of the short look-up.

  The \<open>http.Client\<close> is a function of the world; JSON coding is a parameter. \<open>jProbe\<close> gives the two error fields
  when the body decodes as an object with string fields of these names, \<open>jSend\<close> the embedded fields together
  with \<open>longJarId\<close> and \<open>extJarId\<close>. A nil \<open>*http.Client\<close> panics at the first request (\<open>JarNilClient\<close>).
\<close>

section \<open>Data\<close>

definition defaultAPIBaseURL :: string where
  "defaultAPIBaseURL = ''https://api.monobank.ua''"

definition defaultSendBaseURL :: string where
  "defaultSendBaseURL = ''https://send.monobank.ua''"

definition JarMaxResponseBytes :: nat where
  "JarMaxResponseBytes = 1048576"

record jar_api_error =
  jStatusCode :: int
  jErrCode :: string
  jErrText :: string

definition jar_APIError_Error :: "(int \<Rightarrow> string) \<Rightarrow> jar_api_error \<Rightarrow> string" where
  "jar_APIError_Error itoa e = ''jar: '' @ itoa (jStatusCode e) @ '' '' @ jErrCode e @ '': '' @ jErrText e"

datatype jar_error = JarNotFound | ErrEmptyJarID | ErrEmptyClientID | JarInsecureBase string string
  | JarMarshal string | JarBuildRequest | JarNilClient | JarDoRequest string | JarReadBody | JarAPIError jar_api_error
  | JarHTTP int string | JarDecode string

record jar_info =
  jarID :: string
  jTitle :: string
  jOwnerName :: string
  jOwnerIcon :: string
  jAmount :: int
  jGoal :: int
  jCurrency :: int

definition jar_Money :: "jar_info \<Rightarrow> money" where
  "jar_Money i = Money_New (jAmount i) (jCurrency i)"

definition GoalMoney :: "jar_info \<Rightarrow> money" where
  "GoalMoney i = Money_New (jGoal i) (jCurrency i)"

record send_info =
  sName :: string
  sDescription :: string
  sAvatar :: string
  sJarAmount :: int
  sJarGoal :: int
  sJarStatus :: string
  sIsTrusted :: bool
  sLongJarID :: string

definition SendInfo_UnmarshalJSON :: "(string \<Rightarrow> string + send_info \<times> string \<times> string) \<Rightarrow> string \<Rightarrow> string + send_info" where
  "SendInfo_UnmarshalJSON unmarshalAux data =
     (case unmarshalAux data of
        Inl e \<Rightarrow> Inl e
      | Inr (raw, longID, extID) \<Rightarrow> Inr (
          if longID \<noteq> [] then raw\<lparr>sLongJarID := longID\<rparr>
          else if extID \<noteq> [] then raw\<lparr>sLongJarID := extID\<rparr>
          else raw))"

section \<open>Construction\<close>

record 'w jar_client =
  jh :: "(http_request \<Rightarrow> 'w \<Rightarrow> (string + http_response) \<times> 'w) option"
  apiBase :: string
  sendBase :: string
  jAllowInsecure :: bool

definition Jar_WithHTTPClient :: "(http_request \<Rightarrow> 'w \<Rightarrow> (string + http_response) \<times> 'w) option \<Rightarrow> 'w jar_client \<Rightarrow> 'w jar_client" where
  "Jar_WithHTTPClient h c = c\<lparr>jh := h\<rparr>"

definition WithAPIBaseURL :: "string \<Rightarrow> 'w jar_client \<Rightarrow> 'w jar_client" where
  "WithAPIBaseURL u c = c\<lparr>apiBase := u\<rparr>"

definition WithSendBaseURL :: "string \<Rightarrow> 'w jar_client \<Rightarrow> 'w jar_client" where
  "WithSendBaseURL u c = c\<lparr>sendBase := u\<rparr>"

definition Jar_WithInsecureBaseURL :: "bool \<Rightarrow> 'w jar_client \<Rightarrow> 'w jar_client" where
  "Jar_WithInsecureBaseURL allow c = c\<lparr>jAllowInsecure := allow\<rparr>"

definition jar_isInsecureBaseURL :: "('w, 'v) env \<Rightarrow> string \<Rightarrow> bool" where
  "jar_isInsecureBaseURL env u =
     (case url_Parse env u of
        None \<Rightarrow> False
      | Some p \<Rightarrow>
          if Scheme p = ''https'' \<or> Scheme p = [] then False
          else if Hostname p = ''localhost'' then False
          else if loopback_ip env (Hostname p) then False
          else True)"

definition jar_New :: "('w, 'v) env \<Rightarrow> (http_request \<Rightarrow> 'w \<Rightarrow> (string + http_response) \<times> 'w) \<Rightarrow>
    ('w jar_client \<Rightarrow> 'w jar_client) list \<Rightarrow> jar_error + 'w jar_client" where
  \<comment> \<open>\<open>stdDo\<close>: the client with the timeout of 15 seconds\<close>
  "jar_New env stdDo opts =
     (let c = fold (\<lambda>f. f) opts
            \<lparr>jh = Some stdDo, apiBase = defaultAPIBaseURL, sendBase = defaultSendBaseURL, jAllowInsecure = False\<rparr>
      in if \<not> jAllowInsecure c then
           (if jar_isInsecureBaseURL env (apiBase c) then Inl (JarInsecureBase ''apiBase'' (apiBase c))
            else if jar_isInsecureBaseURL env (sendBase c) then Inl (JarInsecureBase ''sendBase'' (sendBase c))
            else Inr c)
         else Inr c)"

section \<open>Look-ups\<close>

record ('w, 'v) jar_env =
  jWeb :: "('w, 'v) env"
  jInfo :: "string \<Rightarrow> string + jar_info"
  jSend :: "string \<Rightarrow> string + send_info \<times> string \<times> string"
  jError :: "string \<Rightarrow> jar_api_error option"   \<comment> \<open>\<open>json.Unmarshal(body, &e)\<close>\<close>
  jProbe :: "string \<Rightarrow> (string \<times> string) option"
  jMarshal :: "string \<times> string \<times> string \<Rightarrow> string + string"   \<comment> \<open>the fields \<open>c\<close>, \<open>clientId\<close>, \<open>Pc\<close>\<close>

type_synonym ('a, 'w) jar_call = "'w \<Rightarrow> (jar_error + 'a) \<times> 'w"

definition jar_decodeAPIError :: "('w, 'v) jar_env \<Rightarrow> int \<Rightarrow> string \<Rightarrow> jar_error" where
  "jar_decodeAPIError je status body =
     (case jError je body of
        None \<Rightarrow> JarHTTP status body
      | Some e \<Rightarrow> JarAPIError (e\<lparr>jStatusCode := status\<rparr>))"

definition jar_exchange :: "('w, 'v) jar_env \<Rightarrow> 'w jar_client \<Rightarrow> string \<Rightarrow> string \<Rightarrow> string option \<Rightarrow>
    (string \<times> string) list \<Rightarrow> (int \<times> string, 'w) jar_call" where
  \<comment> \<open>what both look-ups do between the marshalled request and the decoding of the body\<close>
  "jar_exchange je c meth u body headers w =
     (case NewRequest (jWeb je) meth u body of
        None \<Rightarrow> (Inl JarBuildRequest, w)
      | Some req \<Rightarrow>
          (case jh c of
             None \<Rightarrow> (Inl JarNilClient, w)
           | Some h \<Rightarrow>
               (case h (set_headers headers req) w of
                  (Inl e, w1) \<Rightarrow> (Inl (JarDoRequest e), w1)
                | (Inr resp, w1) \<Rightarrow>
                    (case read_limited JarMaxResponseBytes resp of
                       None \<Rightarrow> (Inl JarReadBody, w1)
                     | Some b \<Rightarrow>
                         if StatusCode resp = 404 then (Inl JarNotFound, w1)
                         else if StatusCode resp \<noteq> 200 then (Inl (jar_decodeAPIError je (StatusCode resp) b), w1)
                         else (Inr (StatusCode resp, b), w1)))))"

definition ByLongID :: "('w, 'v) jar_env \<Rightarrow> 'w jar_client \<Rightarrow> string \<Rightarrow> (jar_info, 'w) jar_call" where
  "ByLongID je c longJarID w =
     (if longJarID = [] then (Inl ErrEmptyJarID, w)
      else case jar_exchange je c ''GET'' (apiBase c @ ''/bank/jar/'' @ PathEscape longJarID) None
              [(''Accept'', ''application/json'')] w of
          (Inl e, w1) \<Rightarrow> (Inl e, w1)
        | (Inr (status, body), w1) \<Rightarrow>
            (case jInfo je body of Inl e \<Rightarrow> (Inl (JarDecode e), w1) | Inr out1 \<Rightarrow> (Inr out1, w1)))"

definition jarShortIDMode :: string where
  "jarShortIDMode = ''random''"

definition ByShortID :: "('w, 'v) jar_env \<Rightarrow> 'w jar_client \<Rightarrow> string \<Rightarrow> (send_info, 'w) jar_call" where
  "ByShortID je c clientID w =
     (if clientID = [] then (Inl ErrEmptyClientID, w)
      else case jMarshal je (''hello'', clientID, jarShortIDMode) of
          Inl e \<Rightarrow> (Inl (JarMarshal e), w)
        | Inr req \<Rightarrow>
            (case jar_exchange je c ''POST'' (sendBase c @ ''/api/handler'') (Some req)
                [(''Accept'', ''application/json''), (''Content-Type'', ''application/json'')] w of
               (Inl e, w1) \<Rightarrow> (Inl e, w1)
             | (Inr (status, body), w1) \<Rightarrow>
                 (case jProbe je body of
                    Some (code, txt) \<Rightarrow>
                      if code \<noteq> [] \<and> txt \<noteq> [] then (Inl (JarAPIError \<lparr>jStatusCode = status, jErrCode = code, jErrText = txt\<rparr>), w1)
                      else (case SendInfo_UnmarshalJSON (jSend je) body of
                          Inl e \<Rightarrow> (Inl (JarDecode e), w1) | Inr out1 \<Rightarrow> (Inr out1, w1))
                  | None \<Rightarrow> (case SendInfo_UnmarshalJSON (jSend je) body of
                      Inl e \<Rightarrow> (Inl (JarDecode e), w1) | Inr out1 \<Rightarrow> (Inr out1, w1)))))"

section \<open>What goes over the wire\<close>

definition jar_observed :: "'w jar_client \<Rightarrow> ('w \<Rightarrow> (http_request \<times> (string + http_response)) list) \<Rightarrow> bool" where
  "jar_observed c sent \<longleftrightarrow> (\<forall>h req w. jh c = Some h \<longrightarrow> sent (snd (h req w)) = sent w @ [(req, fst (h req w))])"

definition jar_request :: "('w, 'v) jar_env \<Rightarrow> string \<Rightarrow> string \<Rightarrow> string option \<Rightarrow> http_request \<Rightarrow> bool" where
  "jar_request je meth u body R \<longleftrightarrow>
     rMethod R = meth \<and> url_Parse (jWeb je) u = Some (rURL R) \<and> rBody R = sent_body body"

fun error_status :: "jar_error \<Rightarrow> int option" where
  "error_status JarNotFound = Some 404"
| "error_status (JarAPIError e) = Some (jStatusCode e)"
| "error_status (JarHTTP status body) = Some status"
| "error_status _ = None"

text \<open>One exchange at most; its result is the first part of the body for status 200, and an error naming a
  status names that of the response.\<close>

lemma jar_exchange_sends:
  assumes "jar_observed c sent" and d: "jar_exchange je c meth u body headers w = (res, w')"
  shows "(sent w' = sent w \<and> (\<exists>e. res = Inl e \<and> error_status e = None)) \<or>
    (\<exists>R r. sent w' = sent w @ [(R, r)] \<and> jar_request je meth u body R \<and>
      (\<forall>st b. res = Inr (st, b) \<longrightarrow> st = 200 \<and> (\<exists>resp. r = Inr resp \<and> StatusCode resp = 200 \<and> b = take JarMaxResponseBytes (respBody resp))) \<and>
      (\<forall>e st. res = Inl e \<longrightarrow> error_status e = Some st \<longrightarrow> st \<noteq> 200 \<and> (\<exists>resp. r = Inr resp \<and> StatusCode resp = st)))"
proof (cases "\<exists>req h. NewRequest (jWeb je) meth u body = Some req \<and> jh c = Some h")
  case False
  then have "w' = w \<and> (\<exists>e. res = Inl e \<and> error_status e = None)"
    using d by (auto simp: jar_exchange_def split: option.splits)
  then show ?thesis by blast
next
  case True
  then obtain req h where b: "NewRequest (jWeb je) meth u body = Some req" "jh c = Some h" by blast
  define R where "R = set_headers headers req"
  obtain r w1 where r: "h R w = (r, w1)" by fastforce
  have s: "sent w1 = sent w @ [(R, r)]" using assms(1) b(2) r unfolding jar_observed_def by (metis fst_conv snd_conv)
  have q: "jar_request je meth u body R"
    using b(1) by (auto simp: jar_request_def R_def NewRequest_def sent_body_def split: option.splits)
  have w: "w' = w1" and ok: "\<And>st b'. res = Inr (st, b') \<Longrightarrow> st = 200 \<and> (\<exists>resp. r = Inr resp \<and> StatusCode resp = 200 \<and> b' = take JarMaxResponseBytes (respBody resp))"
    and er: "\<And>e st. res = Inl e \<Longrightarrow> error_status e = Some st \<Longrightarrow> st \<noteq> 200 \<and> (\<exists>resp. r = Inr resp \<and> StatusCode resp = st)"
    using d b r by (auto simp: jar_exchange_def R_def read_limited_def jar_decodeAPIError_def split: sum.splits option.splits if_splits)
  show ?thesis using s q w ok er by blast
qed

lemma jar_isInsecureBaseURL_eq: "jar_isInsecureBaseURL env u = isInsecureBaseURL env u"
  by (auto simp: jar_isInsecureBaseURL_def isInsecureBaseURL_def secure_url_def split: option.split)

text \<open>Without the opt-out no option leads to a client that talks to a remote host in clear text.\<close>

lemma jar_New_secure:
  "jar_New env stdDo opts = Inr c \<Longrightarrow> jAllowInsecure c \<or> \<not> isInsecureBaseURL env (apiBase c) \<and> \<not> isInsecureBaseURL env (sendBase c)"
  by (auto simp: jar_New_def Let_def jar_isInsecureBaseURL_eq split: if_splits)

text \<open>A look-up by the long id is at most one GET below \<open>/bank/jar/\<close> with the id as one escaped segment.\<close>

theorem ByLongID_one_request:
  assumes "jar_observed c sent" and "ByLongID je c longID w = (res, w')"
  shows "(sent w' = sent w \<and> (\<exists>e. res = Inl e \<and> error_status e = None)) \<or>
    (\<exists>R r. sent w' = sent w @ [(R, r)] \<and> longID \<noteq> [] \<and>
      jar_request je ''GET'' (apiBase c @ ''/bank/jar/'' @ PathEscape longID) None R \<and>
      (\<forall>i. res = Inr i \<longrightarrow> (\<exists>resp. r = Inr resp \<and> StatusCode resp = 200 \<and> jInfo je (take JarMaxResponseBytes (respBody resp)) = Inr i)) \<and>
      (\<forall>e st. res = Inl e \<longrightarrow> error_status e = Some st \<longrightarrow> st \<noteq> 200 \<and> (\<exists>resp. r = Inr resp \<and> StatusCode resp = st)))"
proof (cases "longID = []")
  case True
  with assms(2) show ?thesis by (auto simp: ByLongID_def)
next
  case False
  let ?u = "apiBase c @ ''/bank/jar/'' @ PathEscape longID"
  obtain x w1 where x: "jar_exchange je c ''GET'' ?u None [(''Accept'', ''application/json'')] w = (x, w1)" by fastforce
  have w: "w' = w1" and ok: "\<And>i. res = Inr i \<Longrightarrow> \<exists>st b. x = Inr (st, b) \<and> jInfo je b = Inr i"
    and er: "\<And>e. res = Inl e \<Longrightarrow> x = Inl e \<or> error_status e = None"
    and l: "\<And>e. x = Inl e \<Longrightarrow> res = Inl e"
    using assms(2) x False by (auto simp: ByLongID_def split: sum.splits prod.splits)
  from jar_exchange_sends [OF assms(1) x] show ?thesis
  proof (elim disjE exE conjE)
    fix e assume "sent w1 = sent w" "x = Inl e" "error_status e = None"
    with w l show ?thesis by blast
  next
    fix R r
    assume s: "sent w1 = sent w @ [(R, r)]" "jar_request je ''GET'' ?u None R"
      "\<forall>st b. x = Inr (st, b) \<longrightarrow> st = 200 \<and> (\<exists>resp. r = Inr resp \<and> StatusCode resp = 200 \<and> b = take JarMaxResponseBytes (respBody resp))"
      "\<forall>e st. x = Inl e \<longrightarrow> error_status e = Some st \<longrightarrow> st \<noteq> 200 \<and> (\<exists>resp. r = Inr resp \<and> StatusCode resp = st)"
    have "\<forall>i. res = Inr i \<longrightarrow> (\<exists>resp. r = Inr resp \<and> StatusCode resp = 200 \<and> jInfo je (take JarMaxResponseBytes (respBody resp)) = Inr i)"
      using ok s(3) by blast
    moreover have "\<forall>e st. res = Inl e \<longrightarrow> error_status e = Some st \<longrightarrow> st \<noteq> 200 \<and> (\<exists>resp. r = Inr resp \<and> StatusCode resp = st)"
      using er s(4) by force
    ultimately show ?thesis using s(1,2) w False by blast
  qed
qed

text \<open>A look-up by the short id never reports an error-shaped body as a jar.\<close>

theorem ByShortID_error_body:
  assumes "ByShortID je c clientID w = (Inr i, w')"
  shows "\<exists>req body w1. jMarshal je (''hello'', clientID, jarShortIDMode) = Inr req \<and>
    jar_exchange je c ''POST'' (sendBase c @ ''/api/handler'') (Some req)
      [(''Accept'', ''application/json''), (''Content-Type'', ''application/json'')] w = (Inr (200, body), w') \<and>
    (\<forall>code txt. jProbe je body = Some (code, txt) \<longrightarrow> code = [] \<or> txt = []) \<and> SendInfo_UnmarshalJSON (jSend je) body = Inr i"
proof -
  have "st = 200" if "jar_exchange je c meth u b hs w = (Inr (st, body), w1)" for st body w1 meth u b hs
    using that by (auto simp: jar_exchange_def split: option.splits sum.splits prod.splits if_splits)
  with assms show ?thesis by (auto simp: ByShortID_def split: sum.splits prod.splits option.splits if_splits)
qed

text \<open>The long id of a short look-up is \<open>longJarId\<close> whenever the body has both, wherever it stands: the order
  of the fields that the comment on \<open>LongJarID\<close> promises to follow plays no role.\<close>

lemma LongJarID_prefers_long:
  assumes "unmarshalAux data = Inr (raw, longID, extID)" and "sLongJarID raw = []"
  shows "\<exists>s. SendInfo_UnmarshalJSON unmarshalAux data = Inr s \<and> sLongJarID s = (if longID \<noteq> [] then longID else extID) \<and>
    s\<lparr>sLongJarID := []\<rparr> = raw"
  using assms by (cases raw) (auto simp: SendInfo_UnmarshalJSON_def)

end
