(* ===== verification/Go_Json.thy ===== *)
theory Go_Json
  imports Go_Utf8
begin

text \<open>
  JSON text as \<open>encoding/json\<close> writes and reads it: the text of a value as \<open>json.Marshal\<close> prints it (no
  white space, \<open><\<close>, \<open>>\<close>, \<open>&\<close> and U+2028/9 escaped, bytes that are not UTF-8 replaced), and the syntax that
  \<open>json.Unmarshal\<close> accepts, with its nesting limit. Numbers keep their literal. The parser takes fuel; the length
  of the text is enough, since every call consumes a byte.

  \<open>parse_marshal\<close>: what is printed is read back as the same value.
\<close>

datatype json =
    JNull
  | JBool bool
  | JNum string
  | JStr string
  | JArr "json list"
  | JObj "(string \<times> json) list"

section \<open>Strings\<close>

definition hexd :: "nat \<Rightarrow> nat" where
  "hexd n = (if n < 10 then 48 + n else 87 + n)"

definition hexv :: "nat \<Rightarrow> nat option" where
  "hexv c = (if 48 \<le> c \<and> c \<le> 57 then Some (c - 48) else if 97 \<le> c \<and> c \<le> 102 then Some (c - 87)
             else if 65 \<le> c \<and> c \<le> 70 then Some (c - 55) else None)"

definition html_safe :: "nat \<Rightarrow> bool" where
  "html_safe b \<longleftrightarrow> 32 \<le> b \<and> b \<noteq> 34 \<and> b \<noteq> 92 \<and> b \<noteq> 60 \<and> b \<noteq> 62 \<and> b \<noteq> 38"

definition escape_ascii :: "nat \<Rightarrow> nat list" where
  "escape_ascii b =
     (if b = 92 \<or> b = 34 then [92, b]
      else if b = 8 then [92, 98] else if b = 12 then [92, 102] else if b = 10 then [92, 110]
      else if b = 13 then [92, 114] else if b = 9 then [92, 116]
      else [92, 117, 48, 48, hexd (b div 16), hexd (b mod 16)])"

fun quote_bytes :: "nat list \<Rightarrow> nat list" where
  \<comment> \<open>\<open>appendString\<close> with HTML escaping, without the quotes\<close>
  "quote_bytes [] = []"
| "quote_bytes (b # bs) =
     (if b < 128 then (if html_safe b then [b] else escape_ascii b) @ quote_bytes bs
      else case decode_rune (b # bs) of (r, n) \<Rightarrow>
        (if r = RuneError \<and> n = 1 then [92, 117, 102, 102, 102, 100]
         else if r = 8232 \<or> r = 8233 then [92, 117, 50, 48, 50, hexd (r mod 16)]
         else take n (b # bs)) @ quote_bytes (drop (n - 1) bs))"

definition hex4 :: "nat list \<Rightarrow> nat option" where
  "hex4 bs = (case bs of
      a # b # c # d # _ \<Rightarrow>
        (case (hexv a, hexv b, hexv c, hexv d) of
           (Some w, Some x, Some y, Some z) \<Rightarrow> Some (w * 4096 + x * 256 + y * 16 + z)
         | _ \<Rightarrow> None)
    | _ \<Rightarrow> None)"

definition low_surrogate :: "nat \<Rightarrow> nat list \<Rightarrow> nat option" where
  \<comment> \<open>the rune of a surrogate pair of which \<open>u\<close> is the first half\<close>
  "low_surrogate u bs = (case bs of
      a # b # rest \<Rightarrow>
        if a = 92 \<and> b = 117 then
          (case hex4 rest of
             Some lo \<Rightarrow> if u < 56320 \<and> 56320 \<le> lo \<and> lo \<le> 57343 then Some (65536 + (u - 55296) * 1024 + (lo - 56320)) else None
           | None \<Rightarrow> None)
        else None
    | _ \<Rightarrow> None)"

definition simple_escape :: "nat \<Rightarrow> nat option" where
  "simple_escape e =
     (if e = 34 \<or> e = 92 \<or> e = 47 then Some e else if e = 98 then Some 8 else if e = 102 then Some 12
      else if e = 110 then Some 10 else if e = 114 then Some 13 else if e = 116 then Some 9 else None)"

definition push :: "'a list \<Rightarrow> ('a list \<times> 'b) option \<Rightarrow> ('a list \<times> 'b) option" where
  "push xs res = map_option (\<lambda>(ys, rest). (xs @ ys, rest)) res"

fun str_body :: "nat list \<Rightarrow> (nat list \<times> nat list) option" where
  \<comment> \<open>the bytes of a string literal whose opening quote was read, and what follows the closing one\<close>
  "str_body [] = None"
| "str_body (b # bs) =
     (if b = 34 then Some ([], bs)
      else if b = 92 then
        (case bs of
           [] \<Rightarrow> None
         | e # r \<Rightarrow>
             (case simple_escape e of
                Some c \<Rightarrow> push [c] (str_body r)
              | None \<Rightarrow>
                  if e \<noteq> 117 then None
                  else case hex4 r of
                      None \<Rightarrow> None
                    | Some u \<Rightarrow>
                        if 55296 \<le> u \<and> u \<le> 57343 then
                          (case low_surrogate u (drop 4 r) of
                             Some w \<Rightarrow> push (encode_rune w) (str_body (drop 10 r))
                           | None \<Rightarrow> push (encode_rune RuneError) (str_body (drop 4 r)))
                        else push (encode_rune u) (str_body (drop 4 r))))
      else if b < 32 then None
      else if b < 128 then push [b] (str_body bs)
      else case decode_rune (b # bs) of (r, n) \<Rightarrow> push (encode_rune r) (str_body (drop (n - 1) bs)))"

declare quote_bytes.simps(2) [simp del] str_body.simps(2) [simp del]

lemma hexv_hexd [simp]: "n < 16 \<Longrightarrow> hexv (hexd n) = Some n"
  by (auto simp: hexv_def hexd_def)

lemma hexv_zero [simp]: "hexv 48 = Some 0"
  by (simp add: hexv_def)

lemma str_body_plain: "32 \<le> b \<Longrightarrow> b < 128 \<Longrightarrow> b \<noteq> 34 \<Longrightarrow> b \<noteq> 92 \<Longrightarrow> str_body (b # bs) = push [b] (str_body bs)"
  by (simp add: str_body.simps(2))

lemma str_body_escape: "simple_escape e = Some c \<Longrightarrow> str_body (92 # e # r) = push [c] (str_body r)"
  by (simp add: str_body.simps(2))

lemma str_body_u: "hex4 (a # b # c # d # r) = Some u \<Longrightarrow> \<not> (55296 \<le> u \<and> u \<le> 57343) \<Longrightarrow>
    str_body (92 # 117 # a # b # c # d # r) = push (encode_rune u) (str_body r)"
  by (auto simp: str_body.simps(2) simple_escape_def)

lemma str_body_ascii: "b < 32 \<or> b = 60 \<or> b = 62 \<or> b = 38 \<or> b = 34 \<or> b = 92 \<Longrightarrow> str_body (escape_ascii b @ r) = push [b] (str_body r)"
proof -
  assume h: "b < 32 \<or> b = 60 \<or> b = 62 \<or> b = 38 \<or> b = 34 \<or> b = 92"
  have "b div 16 < 16" "b mod 16 < 16" "b div 16 * 16 + b mod 16 = b" "b < 128" using h by auto
  then have u: "hex4 (48 # 48 # hexd (b div 16) # hexd (b mod 16) # r) = Some b" "encode_rune b = [b]"
    by (simp_all add: hex4_def encode_rune_def)
  then have "str_body (92 # 117 # 48 # 48 # hexd (b div 16) # hexd (b mod 16) # r) = push [b] (str_body r)"
    using str_body_u [OF u(1)] \<open>b < 128\<close> by simp
  then show ?thesis by (auto simp: escape_ascii_def str_body_escape simple_escape_def)
qed

lemma str_body_quote:
  "list_all (\<lambda>b. b < 256) bs \<Longrightarrow> str_body (quote_bytes bs @ 34 # rest) = Some (concat (map encode_rune (runes_of bs)), rest)"
proof (induction bs rule: quote_bytes.induct)
  case 1
  then show ?case by (simp add: str_body.simps(2))
next
  case (2 b bs)
  show ?case
  proof (cases "b < 128")
    case True
    then have d: "decode_rune (b # bs) = (b, 1)" "encode_rune b = [b]" by (simp_all add: decode_rune_def encode_rune_def)
    have IH: "str_body (quote_bytes bs @ 34 # rest) = Some (concat (map encode_rune (runes_of bs)), rest)"
      using 2(1) [OF True] 2(3) by simp
    show ?thesis
    proof (cases "html_safe b")
      case True
      with \<open>b < 128\<close> d IH show ?thesis by (simp add: quote_bytes.simps(2) str_body_plain html_safe_def push_def)
    next
      case False
      with \<open>b < 128\<close> have "str_body (escape_ascii b @ quote_bytes bs @ 34 # rest) = push [b] (str_body (quote_bytes bs @ 34 # rest))"
        by (intro str_body_ascii) (auto simp: html_safe_def)
      with False \<open>b < 128\<close> d IH show ?thesis by (simp add: quote_bytes.simps(2) push_def)
    qed
  next
    case False
    obtain r n where d: "decode_rune (b # bs) = (r, n)" by fastforce
    have v: "valid_rune r" using decode_valid [of "b # bs"] d by simp
    have "list_all (\<lambda>b. b < 256) (drop (n - 1) bs)" using 2(3) by (auto simp: list_all_iff dest: in_set_dropD)
    with 2(2) [OF False d [symmetric]] have IH:
      "str_body (quote_bytes (drop (n - 1) bs) @ 34 # rest) = Some (concat (map encode_rune (runes_of (drop (n - 1) bs))), rest)" .
    let ?q = "if r = RuneError \<and> n = 1 then [92, 117, 102, 102, 102, 100]
         else if r = 8232 \<or> r = 8233 then [92, 117, 50, 48, 50, hexd (r mod 16)]
         else take n (b # bs)"
    have "str_body (?q @ xs) = push (encode_rune r) (str_body xs)" for xs
    proof -
      consider "r = RuneError" "n = 1" | "r = 8232 \<or> r = 8233" "\<not> (r = RuneError \<and> n = 1)"
        | "\<not> (r = RuneError \<and> n = 1)" "\<not> (r = 8232 \<or> r = 8233)" by blast
      then show ?thesis
      proof cases
        case 1
        have "hex4 (102 # 102 # 102 # 100 # xs) = Some RuneError" by (simp add: hex4_def hexv_def RuneError_def)
        from str_body_u [OF this] 1 show ?thesis by (simp add: RuneError_def)
      next
        case 2
        then have "hex4 (50 # 48 # 50 # hexd (r mod 16) # xs) = Some r" by (auto simp: hex4_def hexv_def hexd_def)
        from str_body_u [OF this] 2 show ?thesis by auto
      next
        case 3
        from take_decode [OF d 3(1)] have t: "take n (b # bs) = encode_rune r" "0 < n" by simp_all
        then have h: "encode_rune r = b # take (n - 1) bs" by (cases n) simp_all
        have "str_body (b # take (n - 1) bs @ xs) = push (encode_rune r) (str_body xs)"
          using False decode_encode [OF v, of xs] h by (simp add: str_body.simps(2))
        with h t(1) 3 show ?thesis by auto
      qed
    qed
    from this [of "quote_bytes (drop (n - 1) bs) @ 34 # rest"] IH False d show ?thesis
      by (simp add: quote_bytes.simps(2) push_def)
  qed
qed

section \<open>Values\<close>

definition quoted :: "string \<Rightarrow> nat list" where
  "quoted s = 34 # quote_bytes (bytes_of s) @ [34]"

fun json_bytes :: "json \<Rightarrow> nat list" and elems_bytes :: "json list \<Rightarrow> nat list"
  and members_bytes :: "(string \<times> json) list \<Rightarrow> nat list" where
  "json_bytes JNull = bytes_of ''null''"
| "json_bytes (JBool b) = bytes_of (if b then ''true'' else ''false'')"
| "json_bytes (JNum s) = bytes_of s"
| "json_bytes (JStr s) = quoted s"
| "json_bytes (JArr js) = 91 # elems_bytes js"
| "json_bytes (JObj kvs) = 123 # members_bytes kvs"
| "elems_bytes [] = [93]"
| "elems_bytes (j # js) = json_bytes j @ (if js = [] then [93] else 44 # elems_bytes js)"
| "members_bytes [] = [125]"
| "members_bytes (kv # kvs) =
     (case kv of (k, v) \<Rightarrow> quoted k @ 58 # json_bytes v @ (if kvs = [] then [125] else 44 # members_bytes kvs))"

definition json_text :: "json \<Rightarrow> string" where
  "json_text j = string_of (json_bytes j)"

definition is_dig :: "nat \<Rightarrow> bool" where
  "is_dig b \<longleftrightarrow> 48 \<le> b \<and> b \<le> 57"

definition num_char :: "nat \<Rightarrow> bool" where
  "num_char b \<longleftrightarrow> is_dig b \<or> b = 45 \<or> b = 43 \<or> b = 46 \<or> b = 69 \<or> b = 101"

definition digits1 :: "nat list \<Rightarrow> nat list option" where
  \<comment> \<open>one digit or more, and the rest\<close>
  "digits1 bs = (if bs \<noteq> [] \<and> is_dig (hd bs) then Some (dropWhile is_dig bs) else None)"

definition num_exponent :: "nat list \<Rightarrow> bool" where
  "num_exponent bs =
     (case bs of
        [] \<Rightarrow> True
      | e # r \<Rightarrow> (e = 69 \<or> e = 101) \<and> digits1 (if r \<noteq> [] \<and> (hd r = 43 \<or> hd r = 45) then tl r else r) = Some [])"

definition num_fraction :: "nat list \<Rightarrow> bool" where
  "num_fraction bs =
     (case bs of
        [] \<Rightarrow> True
      | p # r \<Rightarrow> if p = 46 then (case digits1 r of Some q \<Rightarrow> num_exponent q | None \<Rightarrow> False) else num_exponent bs)"

definition valid_number :: "nat list \<Rightarrow> bool" where
  \<comment> \<open>the number literals of the grammar\<close>
  "valid_number bs =
     (let r = (if bs \<noteq> [] \<and> hd bs = 45 then tl bs else bs)
      in case r of
          [] \<Rightarrow> False
        | d # r1 \<Rightarrow> if d = 48 then num_fraction r1 else is_dig d \<and> num_fraction (dropWhile is_dig r1))"

definition ws :: "nat \<Rightarrow> bool" where
  "ws b \<longleftrightarrow> b = 32 \<or> b = 9 \<or> b = 10 \<or> b = 13"

definition literal :: "string \<Rightarrow> json \<Rightarrow> nat list \<Rightarrow> (json \<times> nat list) option" where
  "literal s j bs = (if take (length s) bs = bytes_of s then Some (j, drop (length s) bs) else None)"

definition number :: "nat list \<Rightarrow> (json \<times> nat list) option" where
  "number bs = (let s = takeWhile num_char bs
     in if valid_number s then Some (JNum (string_of s), dropWhile num_char bs) else None)"

fun parse_value :: "nat \<Rightarrow> nat \<Rightarrow> nat list \<Rightarrow> (json \<times> nat list) option"
  and parse_elems :: "nat \<Rightarrow> nat \<Rightarrow> nat list \<Rightarrow> (json list \<times> nat list) option"
  and parse_members :: "nat \<Rightarrow> nat \<Rightarrow> nat list \<Rightarrow> ((string \<times> json) list \<times> nat list) option" where
  \<comment> \<open>fuel and the levels of nesting left\<close>
  "parse_value 0 d bs = None"
| "parse_value (Suc n) d bs =
     (case dropWhile ws bs of
        [] \<Rightarrow> None
      | b # r \<Rightarrow>
          if b = 123 then
            (if d = 0 then None
             else case dropWhile ws r of
                 [] \<Rightarrow> None
               | c # r1 \<Rightarrow> if c = 125 then Some (JObj [], r1) else map_option (\<lambda>(kvs, r2). (JObj kvs, r2)) (parse_members n (d - 1) (c # r1)))
          else if b = 91 then
            (if d = 0 then None
             else case dropWhile ws r of
                 [] \<Rightarrow> None
               | c # r1 \<Rightarrow> if c = 93 then Some (JArr [], r1) else map_option (\<lambda>(js, r2). (JArr js, r2)) (parse_elems n (d - 1) (c # r1)))
          else if b = 34 then map_option (\<lambda>(s, r1). (JStr (string_of s), r1)) (str_body r)
          else if b = 116 then literal ''true'' (JBool True) (b # r)
          else if b = 102 then literal ''false'' (JBool False) (b # r)
          else if b = 110 then literal ''null'' JNull (b # r)
          else number (b # r))"
| "parse_elems 0 d bs = None"
| "parse_elems (Suc n) d bs =
     (case parse_value n d bs of
        None \<Rightarrow> None
      | Some (j, r) \<Rightarrow>
          (case dropWhile ws r of
             [] \<Rightarrow> None
           | c # r1 \<Rightarrow> if c = 93 then Some ([j], r1) else if c = 44 then push [j] (parse_elems n d r1) else None))"
| "parse_members 0 d bs = None"
| "parse_members (Suc n) d bs =
     (case dropWhile ws bs of
        [] \<Rightarrow> None
      | b # r \<Rightarrow>
          if b \<noteq> 34 then None
          else case str_body r of
              None \<Rightarrow> None
            | Some (k, r1) \<Rightarrow>
                (case dropWhile ws r1 of
                   [] \<Rightarrow> None
                 | c # r2 \<Rightarrow>
                     if c \<noteq> 58 then None
                     else case parse_value n d r2 of
                         None \<Rightarrow> None
                       | Some (v, r3) \<Rightarrow>
                           (case dropWhile ws r3 of
                              [] \<Rightarrow> None
                            | e # r4 \<Rightarrow>
                                if e = 125 then Some ([(string_of k, v)], r4)
                                else if e = 44 then push [(string_of k, v)] (parse_members n d r4)
                                else None)))"

definition maxNestingDepth :: nat where
  "maxNestingDepth = 10000"

definition json_parse :: "string \<Rightarrow> json option" where
  "json_parse s =
     (case parse_value (Suc (length s)) maxNestingDepth (bytes_of s) of
        Some (j, rest) \<Rightarrow> if dropWhile ws rest = [] then Some j else None
      | None \<Rightarrow> None)"

section \<open>Reading back what was printed\<close>

fun json_ok :: "nat \<Rightarrow> json \<Rightarrow> bool" where
  \<comment> \<open>printable: the strings are UTF-8, the numbers literals, the nesting within \<open>d\<close>\<close>
  "json_ok d JNull = True"
| "json_ok d (JBool b) = True"
| "json_ok d (JNum s) = valid_number (bytes_of s)"
| "json_ok d (JStr s) = valid_utf8 s"
| "json_ok d (JArr js) = (d \<noteq> 0 \<and> list_all (json_ok (d - 1)) js)"
| "json_ok d (JObj kvs) = (d \<noteq> 0 \<and> list_all (\<lambda>(k, v). valid_utf8 k \<and> json_ok (d - 1) v) kvs)"

lemma digits1_append: "digits1 bs = Some q \<Longrightarrow> bs = takeWhile is_dig bs @ q"
  by (auto simp: digits1_def split: if_splits)

lemma dig_num: "list_all num_char (takeWhile is_dig bs)"
  by (auto simp: list_all_iff num_char_def dest: set_takeWhileD)

lemma num_exponent_chars: "num_exponent bs \<Longrightarrow> list_all num_char bs"
proof (cases bs)
  case (Cons e r)
  assume "num_exponent bs"
  with Cons have e: "e = 69 \<or> e = 101" and d: "digits1 (if r \<noteq> [] \<and> (hd r = 43 \<or> hd r = 45) then tl r else r) = Some []"
    by (simp_all add: num_exponent_def)
  have "list_all num_char r"
  proof (cases "r \<noteq> [] \<and> (hd r = 43 \<or> hd r = 45)")
    case True
    with digits1_append [OF d] dig_num [of "tl r"] show ?thesis by (cases r) (auto simp: num_char_def)
  next
    case False
    with digits1_append [OF d] dig_num [of r] show ?thesis by auto
  qed
  with e Cons show ?thesis by (simp add: num_char_def)
qed simp

lemma num_fraction_chars: "num_fraction bs \<Longrightarrow> list_all num_char bs"
proof (cases bs)
  case (Cons p r)
  assume f: "num_fraction bs"
  show ?thesis
  proof (cases "p = 46")
    case True
    with f Cons obtain q where q: "digits1 r = Some q" "num_exponent q" by (auto simp: num_fraction_def split: option.splits)
    have "list_all num_char (takeWhile is_dig r @ q)" using dig_num [of r] num_exponent_chars [OF q(2)] by simp
    with digits1_append [OF q(1)] True Cons show ?thesis by (simp add: num_char_def)
  next
    case False
    with f Cons num_exponent_chars [of bs] show ?thesis by (simp add: num_fraction_def)
  qed
qed simp

lemma valid_number_chars: "valid_number bs \<Longrightarrow> list_all num_char bs \<and> (\<exists>b r. bs = b # r \<and> (b = 45 \<or> is_dig b))"
proof -
  assume v: "valid_number bs"
  define r where "r = (if bs \<noteq> [] \<and> hd bs = 45 then tl bs else bs)"
  from v obtain d r1 where r: "r = d # r1" and f: "if d = 48 then num_fraction r1 else is_dig d \<and> num_fraction (dropWhile is_dig r1)"
    unfolding valid_number_def r_def [symmetric] Let_def by (cases r) auto
  have d: "is_dig d" using f by (auto simp: is_dig_def split: if_splits)
  have "list_all num_char (takeWhile is_dig r1 @ dropWhile is_dig r1)"
  proof (cases "d = 48")
    case True
    with f num_fraction_chars show ?thesis by simp
  next
    case False
    with f dig_num [of r1] num_fraction_chars show ?thesis unfolding list_all_append by simp
  qed
  then have "list_all num_char r" using r d by (simp add: num_char_def)
  moreover have "bs = r \<or> bs = 45 # r" unfolding r_def by (cases bs) auto
  ultimately show ?thesis using r d by (auto simp: num_char_def)
qed

definition ends_value :: "nat list \<Rightarrow> bool" where
  "ends_value rest \<longleftrightarrow> rest = [] \<or> hd rest = 44 \<or> hd rest = 93 \<or> hd rest = 125"

lemma number_back:
  assumes "valid_number (bytes_of s)" and "ends_value rest"
  shows "number (bytes_of s @ rest) = Some (JNum s, rest)"
proof -
  have c: "\<forall>b\<in>set (bytes_of s). num_char b" using valid_number_chars [OF assms(1)] by (simp add: list_all_iff)
  have r: "takeWhile num_char rest = []" "dropWhile num_char rest = rest"
    using assms(2) by (cases rest; auto simp: ends_value_def num_char_def is_dig_def)+
  have t: "takeWhile num_char (bytes_of s @ rest) = bytes_of s" "dropWhile num_char (bytes_of s @ rest) = rest"
    using c r by (simp_all add: takeWhile_append dropWhile_append)
  have "string_of (bytes_of s) = s" by (simp add: string_of_def bytes_of_def comp_def)
  with assms(1) show ?thesis unfolding number_def t Let_def by simp
qed

lemma string_of_bytes [simp]: "string_of (bytes_of s) = s"
  by (simp add: string_of_def bytes_of_def comp_def)

lemma length_bytes_of [simp]: "length (bytes_of s) = length s"
  by (simp add: bytes_of_def)

lemma bytes_256: "list_all (\<lambda>b. b < 256) (bytes_of s)"
  by (simp add: bytes_of_def list_all_iff)

lemma str_body_quoted: "valid_utf8 s \<Longrightarrow> str_body (quote_bytes (bytes_of s) @ 34 # rest) = Some (bytes_of s, rest)"
  using str_body_quote [OF bytes_256, of s rest] by (simp add: valid_utf8_def runes_def)

lemma json_start: "json_ok d j \<Longrightarrow> \<exists>b r. json_bytes j = b # r \<and> \<not> ws b \<and> b \<noteq> 93"
proof (cases j)
  case (JNum s)
  assume "json_ok d j"
  with JNum have "valid_number (bytes_of s)" by simp
  with valid_number_chars [of "bytes_of s"] JNum show ?thesis by (auto simp: ws_def is_dig_def)
qed (auto simp: bytes_of_def quoted_def ws_def)

lemma parse_back:
  "json_ok d j \<Longrightarrow> length (json_bytes j) \<le> n \<Longrightarrow> ends_value rest \<Longrightarrow> parse_value n d (json_bytes j @ rest) = Some (j, rest)"
  "list_all (json_ok d) js \<Longrightarrow> js \<noteq> [] \<Longrightarrow> length (elems_bytes js) \<le> n \<Longrightarrow> parse_elems n d (elems_bytes js @ rest) = Some (js, rest)"
  "list_all (\<lambda>(k, v). valid_utf8 k \<and> json_ok d v) kvs \<Longrightarrow> kvs \<noteq> [] \<Longrightarrow> length (members_bytes kvs) \<le> n \<Longrightarrow>
    parse_members n d (members_bytes kvs @ rest) = Some (kvs, rest)"
proof (induction j and js and kvs arbitrary: n d rest and n d rest and n d rest rule: json_bytes_elems_bytes_members_bytes.induct)
  case 1
  then show ?case by (cases n) (simp_all add: bytes_of_def ws_def literal_def)
next
  case (2 b)
  then show ?case by (cases n; cases b) (simp_all add: bytes_of_def ws_def literal_def)
next
  case (3 s)
  then have v: "valid_number (bytes_of s)" by simp
  from valid_number_chars [OF v] obtain b r where b: "bytes_of s = b # r" "b = 45 \<or> is_dig b" by blast
  then have "n \<noteq> 0" using 3(2) by (cases n) auto
  with b number_back [OF v 3(3)] show ?case by (cases n) (auto simp: ws_def is_dig_def)
next
  case (4 s)
  then show ?case by (cases n) (simp_all add: quoted_def ws_def str_body_quoted)
next
  case (5 js)
  then obtain m e where d: "n = Suc m" "d = Suc e" by (cases n; cases d) auto
  show ?case
  proof (cases js)
    case Nil
    with d show ?thesis by (simp add: ws_def)
  next
    case (Cons j js')
    with 5(2) d obtain b r where b: "json_bytes j = b # r" "\<not> ws b" "b \<noteq> 93" using json_start [of e j] by auto
    have "parse_elems m e (elems_bytes js @ rest) = Some (js, rest)"
      using 5(2,3) d Cons by (intro 5(1)) auto
    with b d Cons show ?thesis by (auto simp: ws_def)
  qed
next
  case (6 kvs)
  then obtain m e where d: "n = Suc m" "d = Suc e" by (cases n; cases d) auto
  show ?case
  proof (cases kvs)
    case Nil
    with d show ?thesis by (simp add: ws_def)
  next
    case (Cons kv kvs')
    obtain k v where kv: "kv = (k, v)" by fastforce
    have "parse_members m e (members_bytes kvs @ rest) = Some (kvs, rest)"
      using 6(2,3) d Cons by (intro 6(1)) auto
    with d Cons kv show ?thesis by (auto simp: ws_def quoted_def)
  qed
next
  case (8 j js)
  then obtain m where n: "n = Suc m" by (cases n) (auto split: if_splits)
  let ?r = "if js = [] then [93] else 44 # elems_bytes js"
  have "parse_value m d (json_bytes j @ ?r @ rest) = Some (j, ?r @ rest)"
    using 8(3,5) n by (intro 8(1)) (auto simp: ends_value_def split: if_splits)
  moreover have "js \<noteq> [] \<Longrightarrow> parse_elems m d (elems_bytes js @ rest) = Some (js, rest)"
    using 8(3,5) n by (intro 8(2)) auto
  ultimately show ?case using n by (auto simp: ws_def push_def)
next
  case (10 kv kvs)
  then obtain m where n: "n = Suc m" by (cases n) (auto simp: quoted_def split: prod.splits)
  obtain k v where kv: "kv = (k, v)" by fastforce
  let ?r = "if kvs = [] then [125] else 44 # members_bytes kvs"
  have v: "valid_utf8 k" using 10(3) kv by simp
  have "parse_value m d (json_bytes v @ ?r @ rest) = Some (v, ?r @ rest)"
    using 10(3,5) n kv by (intro 10(1) [OF kv [symmetric]]) (auto simp: ends_value_def split: if_splits)
  moreover have "kvs \<noteq> [] \<Longrightarrow> parse_members m d (members_bytes kvs @ rest) = Some (kvs, rest)"
    using 10(3,5) n kv by (intro 10(2) [OF kv [symmetric]]) auto
  ultimately show ?case using n kv by (auto simp: ws_def push_def quoted_def str_body_quoted [OF v])
qed simp_all

lemma quote_256: "list_all (\<lambda>b. b < 256) bs \<Longrightarrow> list_all (\<lambda>b. b < 256) (quote_bytes bs)"
proof (induction bs rule: quote_bytes.induct)
  case (2 b bs)
  have h: "hexd x < 256" if "x < 16" for x using that by (simp add: hexd_def)
  have e: "list_all (\<lambda>b. b < 256) (escape_ascii b)" if "b < 128"
    using that h [of "b div 16"] h [of "b mod 16"] by (simp add: escape_ascii_def)
  have d: "list_all (\<lambda>b. b < 256) (drop k bs)" for k using 2(3) by (auto simp: list_all_iff dest: in_set_dropD)
  have t: "list_all (\<lambda>b. b < 256) (take k (b # bs))" for k using 2(3) in_set_takeD [of _ k "b # bs"] by (fastforce simp: list_all_iff)
  show ?case
    using 2 e d t h [of "fst (decode_rune (b # bs)) mod 16"] by (auto simp: quote_bytes.simps(2) split: prod.split)
qed simp

lemma json_256: "list_all (\<lambda>b. b < 256) (json_bytes j)" "list_all (\<lambda>b. b < 256) (elems_bytes js)"
  "list_all (\<lambda>b. b < 256) (members_bytes kvs)"
  by (induction j and js and kvs rule: json_bytes_elems_bytes_members_bytes.induct)
    (auto simp: bytes_256 quoted_def quote_256 split: prod.split)

theorem parse_json_text:
  assumes "json_ok maxNestingDepth j"
  shows "json_parse (json_text j) = Some j"
proof -
  have b: "bytes_of (json_text j) = json_bytes j"
    using json_256(1) [of j] by (simp add: json_text_def bytes_string_of list_all_iff)
  have "length (json_text j) = length (json_bytes j)" by (simp add: json_text_def string_of_def)
  with parse_back(1) [OF assms, of "Suc (length (json_text j))" "[]"] b show ?thesis
    by (simp add: json_parse_def ends_value_def)
qed

lemma json_ok_mono: "json_ok d j \<Longrightarrow> d \<le> e \<Longrightarrow> json_ok e j"
proof (induction d j arbitrary: e rule: json_ok.induct)
  case (5 d js)
  then show ?case by (auto simp: list_all_iff)
next
  case (6 d kvs)
  have "json_ok (e - 1) v" if "(k, v) \<in> set kvs" for k v
    using 6(1) [OF that refl] 6(2,3) that by (auto simp: list_all_iff)
  with 6(2,3) show ?case by (auto simp: list_all_iff)
qed simp_all

definition ascii :: "string \<Rightarrow> bool" where
  "ascii s \<longleftrightarrow> list_all (\<lambda>c. (of_char c :: nat) < 128) s"

lemma ascii_utf8: "ascii s \<Longrightarrow> valid_utf8 s"
proof -
  have "list_all (\<lambda>b. b < 128) bs \<Longrightarrow> concat (map encode_rune (runes_of bs)) = bs" for bs
    by (induction bs) (simp_all add: decode_rune_def encode_rune_def)
  then show "ascii s \<Longrightarrow> valid_utf8 s"
    by (simp add: valid_utf8_def runes_def ascii_def bytes_of_def list_all_iff)
qed

lemma ascii_Cons [simp]: "ascii []" "ascii (c # s) \<longleftrightarrow> (of_char c :: nat) < 128 \<and> ascii s"
  by (simp_all add: ascii_def)

lemma nat_digits_number:
  "\<exists>d r. bytes_of (nat_digits n) = d # r \<and> is_dig d \<and> list_all is_dig r \<and> (d = 48 \<longrightarrow> r = [])"
proof (induction n rule: nat_digits.induct)
  case (1 n)
  have c: "bytes_of [digit_char m] = [48 + m]" "is_dig (48 + m)" if "m < 10" for m
    using that by (simp_all add: bytes_of_def digit_char_def is_dig_def)
  show ?case
  proof (cases "n < 10")
    case True
    with c [of n] show ?thesis by (subst nat_digits.simps) simp
  next
    case False
    then obtain d r where d: "bytes_of (nat_digits (n div 10)) = d # r" "is_dig d" "list_all is_dig r" "d = 48 \<longrightarrow> r = []"
      using 1 by blast
    have "d \<noteq> 48"
    proof
      assume "d = 48"
      with d have e: "bytes_of (nat_digits (n div 10)) = [48]" by simp
      have "nat_digits (n div 10) = string_of [48]" unfolding e [symmetric] by simp
      moreover have "string_of [48] = ''0''" by code_simp
      ultimately have "nat_digits (n div 10) = ''0''" by simp
      then have "digits_val 0 (nat_digits (n div 10)) = 0" by (simp add: digit_of_def)
      with False show False by simp
    qed
    moreover have "bytes_of (nat_digits n) = d # r @ [48 + n mod 10]"
      using False d(1) c [of "n mod 10"] by (subst nat_digits.simps) (simp add: bytes_of_def)
    ultimately show ?thesis using d c [of "n mod 10"] by auto
  qed
qed

lemma Itoa_number: "valid_number (bytes_of (Itoa n))"
proof -
  have "valid_number (bytes_of (nat_digits m))" "valid_number (45 # bytes_of (nat_digits m))" for m
  proof -
    obtain d r where d: "bytes_of (nat_digits m) = d # r" "is_dig d" "list_all is_dig r" "d = 48 \<longrightarrow> r = []"
      using nat_digits_number [of m] by blast
    then have w: "dropWhile is_dig r = []" by (simp add: list_all_iff)
    have "d \<noteq> 45" "is_dig 48" using d(2) by (auto simp: is_dig_def)
    with d show "valid_number (bytes_of (nat_digits m))" "valid_number (45 # bytes_of (nat_digits m))"
      by (auto simp: valid_number_def Let_def num_fraction_def w)
  qed
  then show ?thesis by (simp add: Itoa_def bytes_of_def)
qed

end
