(* ===== verification/Go_Codec.thy ===== *)
theory Go_Codec
  imports Go_Json Go_Float "HOL-Library.List_Lexorder" "HOL-Library.Char_ord" "HOL-Library.AList"
begin

text \<open>
  Struct tags: how \<open>encoding/json\<close> turns a struct into an object and back. A struct type is a list of
  fields in the order of the declaration, each with its tag name, what it emits (nothing for an omitted zero
  value) and how a JSON value is stored in it. Decoding goes through the members of an object in their order,
  finds the field by its exact name or else by case folding, skips unknown names and leaves a scalar alone on
  \<open>null\<close>; a value of the wrong type makes the whole result an error. When a list is repeated under one name,
  Go decodes over the earlier elements; here the later list replaces the earlier.

  The locale \<open>json_codec\<close> is the contract of a type with both directions: what is printed is read
  back. Each DTO of the SDK with this contract is an interpretation.
\<close>

named_theorems codec

section \<open>Fields\<close>

type_synonym 'r field = "string \<times> ('r \<Rightarrow> json option) \<times> (json \<Rightarrow> 'r \<Rightarrow> 'r option)"

definition emit_members :: "'r field list \<Rightarrow> 'r \<Rightarrow> (string \<times> json) list" where
  "emit_members fs r = List.map_filter (\<lambda>(n, e, a). map_option (Pair n) (e r)) fs"

definition encode_struct :: "'r field list \<Rightarrow> 'r \<Rightarrow> json" where
  "encode_struct fs r = JObj (emit_members fs r)"

definition fold_rune :: "nat \<Rightarrow> nat" where
  \<comment> \<open>\<open>foldRune\<close>, as far as it meets ASCII: lower case, the long s and the Kelvin sign\<close>
  "fold_rune r = (if 97 \<le> r \<and> r \<le> 122 then r - 32 else if r = 383 then 83 else if r = 8490 then 75 else r)"

definition fold_name :: "string \<Rightarrow> nat list" where
  "fold_name s = map fold_rune (runes s)"

definition find_field :: "'r field list \<Rightarrow> string \<Rightarrow> (json \<Rightarrow> 'r \<Rightarrow> 'r option) option" where
  "find_field fs k =
     (case map_of fs k of
        Some (e, a) \<Rightarrow> Some a
      | None \<Rightarrow>
          (case List.find (\<lambda>(n, f). fold_name n = fold_name k) fs of
             Some (n, e, a) \<Rightarrow> Some a
           | None \<Rightarrow> None))"

fun absorb_members :: "'r field list \<Rightarrow> (string \<times> json) list \<Rightarrow> 'r \<Rightarrow> 'r option" where
  "absorb_members fs [] r = Some r"
| "absorb_members fs ((k, v) # kvs) r =
     (case find_field fs k of
        None \<Rightarrow> absorb_members fs kvs r
      | Some a \<Rightarrow> (case a v r of None \<Rightarrow> None | Some r' \<Rightarrow> absorb_members fs kvs r'))"

definition decode_struct :: "'r field list \<Rightarrow> json \<Rightarrow> 'r \<Rightarrow> 'r option" where
  "decode_struct fs j r = (case j of JNull \<Rightarrow> Some r | JObj kvs \<Rightarrow> absorb_members fs kvs r | _ \<Rightarrow> None)"

definition plain_field :: "bool \<Rightarrow> 'a \<Rightarrow> ('a \<Rightarrow> json) \<Rightarrow> (json \<Rightarrow> 'a option) \<Rightarrow> string \<Rightarrow> ('r \<Rightarrow> 'a) \<Rightarrow>
    (('a \<Rightarrow> 'a) \<Rightarrow> 'r \<Rightarrow> 'r) \<Rightarrow> 'r field" where
  \<comment> \<open>a scalar, with \<open>omitempty\<close> or not\<close>
  "plain_field omit zero enc dec n get upd =
     (n, (\<lambda>r. if omit \<and> get r = zero then None else Some (enc (get r))),
      (\<lambda>j r. if j = JNull then Some r else map_option (\<lambda>x. upd (\<lambda>_. x) r) (dec j)))"

definition json_str :: "json \<Rightarrow> string option" where
  "json_str j = (case j of JStr s \<Rightarrow> Some s | _ \<Rightarrow> None)"

definition json_int :: "json \<Rightarrow> int option" where
  \<comment> \<open>into an \<open>int64\<close> or \<open>int\<close>: \<open>strconv.ParseInt\<close> of the literal\<close>
  "json_int j = (case j of JNum s \<Rightarrow> Atoi s | _ \<Rightarrow> None)"

definition json_bool :: "json \<Rightarrow> bool option" where
  "json_bool j = (case j of JBool b \<Rightarrow> Some b | _ \<Rightarrow> None)"

definition str_f where "str_f = plain_field False [] JStr json_str"
definition str_o where "str_o = plain_field True [] JStr json_str"
definition int_f where "int_f = plain_field False 0 (\<lambda>n. JNum (Itoa n)) json_int"
definition int_o where "int_o = plain_field True 0 (\<lambda>n. JNum (Itoa n)) json_int"
definition bool_f where "bool_f = plain_field False False JBool json_bool"
definition bool_o where "bool_o = plain_field True False JBool json_bool"

definition custom_f :: "('a \<Rightarrow> json) \<Rightarrow> (json \<Rightarrow> 'a \<Rightarrow> 'a option) \<Rightarrow> string \<Rightarrow> ('r \<Rightarrow> 'a) \<Rightarrow> (('a \<Rightarrow> 'a) \<Rightarrow> 'r \<Rightarrow> 'r) \<Rightarrow> 'r field" where
  \<comment> \<open>a struct, or a type with methods of its own: never omitted, and given \<open>null\<close> too\<close>
  "custom_f enc dec n get upd =
     (n, (\<lambda>r. Some (enc (get r))), (\<lambda>j r. map_option (\<lambda>x. upd (\<lambda>_. x) r) (dec j (get r))))"

definition ptr_f :: "bool \<Rightarrow> 'a \<Rightarrow> ('a \<Rightarrow> json) \<Rightarrow> (json \<Rightarrow> 'a \<Rightarrow> 'a option) \<Rightarrow> string \<Rightarrow> ('r \<Rightarrow> 'a option) \<Rightarrow>
    (('a option \<Rightarrow> 'a option) \<Rightarrow> 'r \<Rightarrow> 'r) \<Rightarrow> 'r field" where
  \<comment> \<open>a pointer: into what it points to, or a new zero value\<close>
  "ptr_f omit zero enc dec n get upd =
     (n, (\<lambda>r. case get r of None \<Rightarrow> if omit then None else Some JNull | Some x \<Rightarrow> Some (enc x)),
      (\<lambda>j r. if j = JNull then Some (upd (\<lambda>_. None) r)
             else map_option (\<lambda>x. upd (\<lambda>_. Some x) r) (dec j (case get r of None \<Rightarrow> zero | Some x \<Rightarrow> x))))"

fun map_opt :: "('a \<Rightarrow> 'b option) \<Rightarrow> 'a list \<Rightarrow> 'b list option" where
  "map_opt f [] = Some []"
| "map_opt f (x # xs) = (case f x of None \<Rightarrow> None | Some y \<Rightarrow> map_option (Cons y) (map_opt f xs))"

definition json_list :: "(json \<Rightarrow> 'a option) \<Rightarrow> json \<Rightarrow> 'a list option" where
  "json_list dec j = (case j of JArr js \<Rightarrow> map_opt dec js | _ \<Rightarrow> None)"

definition list_o :: "('a \<Rightarrow> json) \<Rightarrow> (json \<Rightarrow> 'a option) \<Rightarrow> string \<Rightarrow> ('r \<Rightarrow> 'a list) \<Rightarrow>
    (('a list \<Rightarrow> 'a list) \<Rightarrow> 'r \<Rightarrow> 'r) \<Rightarrow> 'r field" where
  \<comment> \<open>a slice with \<open>omitempty\<close>, where nil and empty are the same\<close>
  "list_o enc dec n get upd =
     (n, (\<lambda>r. if get r = [] then None else Some (JArr (map enc (get r)))),
      (\<lambda>j r. if j = JNull then Some (upd (\<lambda>_. []) r) else map_option (\<lambda>x. upd (\<lambda>_. x) r) (json_list dec j)))"

definition slice_f :: "('a \<Rightarrow> json) \<Rightarrow> (json \<Rightarrow> 'a option) \<Rightarrow> string \<Rightarrow> ('r \<Rightarrow> 'a list option) \<Rightarrow>
    (('a list option \<Rightarrow> 'a list option) \<Rightarrow> 'r \<Rightarrow> 'r) \<Rightarrow> 'r field" where
  \<comment> \<open>a slice without \<open>omitempty\<close>: nil is \<open>null\<close>\<close>
  "slice_f enc dec n get upd =
     (n, (\<lambda>r. Some (case get r of None \<Rightarrow> JNull | Some xs \<Rightarrow> JArr (map enc xs))),
      (\<lambda>j r. if j = JNull then Some (upd (\<lambda>_. None) r) else map_option (\<lambda>x. upd (\<lambda>_. Some x) r) (json_list dec j)))"

definition json_pairs :: "json \<Rightarrow> (string \<times> string) list \<Rightarrow> (string \<times> string) list option" where
  \<comment> \<open>\<open>null\<close> as an element is the empty string\<close>
  "json_pairs j m = (case j of
      JObj kvs \<Rightarrow> map_option (\<lambda>ps. foldl (\<lambda>m (k, v). AList.update k v m) m ps)
        (map_opt (\<lambda>(k, v). map_option (Pair k) (if v = JNull then Some [] else json_str v)) kvs)
    | _ \<Rightarrow> None)"

definition map_o :: "string \<Rightarrow> ('r \<Rightarrow> (string \<times> string) list) \<Rightarrow>
    (((string \<times> string) list \<Rightarrow> (string \<times> string) list) \<Rightarrow> 'r \<Rightarrow> 'r) \<Rightarrow> 'r field" where
  \<comment> \<open>a \<open>map[string]string\<close> with \<open>omitempty\<close>, as pairs with distinct keys; printed in the order of the keys\<close>
  "map_o n get upd =
     (n, (\<lambda>r. if get r = [] then None else Some (JObj (map (\<lambda>(k, v). (k, JStr v)) (sort_key fst (get r))))),
      (\<lambda>j r. if j = JNull then Some (upd (\<lambda>_. []) r) else map_option (\<lambda>x. upd (\<lambda>_. x) r) (json_pairs j (get r))))"

text \<open>Fields of numbers given to or by \<open>strconv\<close>, of nested structs, and of slices and pointers of them.\<close>

record float_format =
  FormatFloat :: "f64 \<Rightarrow> string"
  ParseFloat :: "string \<Rightarrow> f64 option"

definition json_float :: "float_format \<Rightarrow> json \<Rightarrow> f64 option" where
  "json_float ff j = (case j of JNum s \<Rightarrow> ParseFloat ff s | _ \<Rightarrow> None)"

definition float_f where "float_f ff = plain_field False (Fin 0) (\<lambda>x. JNum (FormatFloat ff x)) (json_float ff)"
definition float_o where "float_o ff = plain_field True (Fin 0) (\<lambda>x. JNum (FormatFloat ff x)) (json_float ff)"

definition float_ok :: "float_format \<Rightarrow> f64 \<Rightarrow> bool" where
  \<comment> \<open>the shortest literal of a finite number is read back as that number\<close>
  "float_ok ff x \<longleftrightarrow> valid_number (bytes_of (FormatFloat ff x)) \<and> ParseFloat ff (FormatFloat ff x) = Some x"

definition elem_str :: "json \<Rightarrow> string option" where
  "elem_str j = (if j = JNull then Some [] else json_str j)"

definition elem_int :: "json \<Rightarrow> int option" where
  "elem_int j = (if j = JNull then Some 0 else json_int j)"

definition strs_o where "strs_o = list_o JStr elem_str"
definition ints_o where "ints_o = list_o (\<lambda>n. JNum (Itoa n)) elem_int"

definition struct_f :: "'a field list \<Rightarrow> string \<Rightarrow> ('r \<Rightarrow> 'a) \<Rightarrow> (('a \<Rightarrow> 'a) \<Rightarrow> 'r \<Rightarrow> 'r) \<Rightarrow> 'r field" where
  "struct_f fs = custom_f (encode_struct fs) (decode_struct fs)"

definition struct_o :: "'a field list \<Rightarrow> 'a \<Rightarrow> string \<Rightarrow> ('r \<Rightarrow> 'a option) \<Rightarrow> (('a option \<Rightarrow> 'a option) \<Rightarrow> 'r \<Rightarrow> 'r) \<Rightarrow> 'r field" where
  "struct_o fs zero = ptr_f True zero (encode_struct fs) (decode_struct fs)"

definition structs_o :: "'a field list \<Rightarrow> 'a \<Rightarrow> string \<Rightarrow> ('r \<Rightarrow> 'a list) \<Rightarrow> (('a list \<Rightarrow> 'a list) \<Rightarrow> 'r \<Rightarrow> 'r) \<Rightarrow> 'r field" where
  "structs_o fs zero = list_o (encode_struct fs) (\<lambda>j. decode_struct fs j zero)"

definition structs_f :: "'a field list \<Rightarrow> 'a \<Rightarrow> string \<Rightarrow> ('r \<Rightarrow> 'a list option) \<Rightarrow>
    (('a list option \<Rightarrow> 'a list option) \<Rightarrow> 'r \<Rightarrow> 'r) \<Rightarrow> 'r field" where
  "structs_f fs zero = slice_f (encode_struct fs) (\<lambda>j. decode_struct fs j zero)"

definition list_f :: "('a \<Rightarrow> json) \<Rightarrow> (json \<Rightarrow> 'a option) \<Rightarrow> string \<Rightarrow> ('r \<Rightarrow> 'a list) \<Rightarrow>
    (('a list \<Rightarrow> 'a list) \<Rightarrow> 'r \<Rightarrow> 'r) \<Rightarrow> 'r field" where
  \<comment> \<open>a slice without \<open>omitempty\<close> of which nil is not distinguished from empty\<close>
  "list_f enc dec n get upd =
     (n, (\<lambda>r. Some (JArr (map enc (get r)))),
      (\<lambda>j r. if j = JNull then Some (upd (\<lambda>_. []) r) else map_option (\<lambda>x. upd (\<lambda>_. x) r) (json_list dec j)))"

definition strs_f where "strs_f = list_f JStr elem_str"

definition structs_l :: "'a field list \<Rightarrow> 'a \<Rightarrow> string \<Rightarrow> ('r \<Rightarrow> 'a list) \<Rightarrow> (('a list \<Rightarrow> 'a list) \<Rightarrow> 'r \<Rightarrow> 'r) \<Rightarrow> 'r field" where
  "structs_l fs zero = list_f (encode_struct fs) (\<lambda>j. decode_struct fs j zero)"

definition slice_strs_f where "slice_strs_f = slice_f JStr elem_str"

definition bool_ptr_o where "bool_ptr_o = ptr_f True False JBool (\<lambda>j _. json_bool j)"
definition str_ptr_f where "str_ptr_f = ptr_f False [] JStr (\<lambda>j _. json_str j)"

section \<open>Texts\<close>

fun numbers_ok :: "json \<Rightarrow> bool" where
  "numbers_ok (JNum s) = valid_number (bytes_of s)"
| "numbers_ok (JArr js) = list_all numbers_ok js"
| "numbers_ok (JObj kvs) = list_all (\<lambda>(k, v). numbers_ok v) kvs"
| "numbers_ok _ = True"

definition Marshal_json :: "json \<Rightarrow> string + string" where
  \<comment> \<open>\<open>json.Marshal\<close>: NaN and infinities, whose text is no literal, are an error\<close>
  "Marshal_json j = (if numbers_ok j then Inr (json_text j) else Inl ''json: unsupported value'')"

definition Unmarshal_json :: "(json \<Rightarrow> 'a option) \<Rightarrow> string \<Rightarrow> string + 'a" where
  "Unmarshal_json dec s =
     (case json_parse s of
        None \<Rightarrow> Inl ''json: syntax error''
      | Some j \<Rightarrow> (case dec j of None \<Rightarrow> Inl ''json: cannot unmarshal'' | Some x \<Rightarrow> Inr x))"

section \<open>There and back\<close>

fun refill :: "'r field list \<Rightarrow> 'r \<Rightarrow> 'r \<Rightarrow> 'r option" where
  "refill [] r z = Some z"
| "refill (f # fs) r z =
     (case f of (n, e, a) \<Rightarrow> case e r of None \<Rightarrow> refill fs r z | Some j \<Rightarrow> Option.bind (a j z) (refill fs r))"

lemma absorb_emit:
  "distinct (map fst fs) \<Longrightarrow> set gs \<subseteq> set fs \<Longrightarrow> absorb_members fs (emit_members gs r) z = refill gs r z"
proof (induction gs arbitrary: z)
  case (Cons g gs)
  obtain n e a where g: "g = (n, e, a)" by (cases g)
  then have "map_of fs n = Some (e, a)" using Cons.prems by (intro map_of_is_SomeI) auto
  then have "find_field fs n = Some a" by (simp add: find_field_def)
  with Cons g show ?case
    by (auto simp: emit_members_def List.map_filter_def split: option.split)
qed (simp add: emit_members_def List.map_filter_def)

declare refill.simps(2) [simp del]

lemma decode_encode_struct [codec]:
  "distinct (map fst fs) \<Longrightarrow> decode_struct fs (encode_struct fs r) z = refill fs r z"
  by (simp add: decode_struct_def encode_struct_def absorb_emit)

lemma struct_not_null [simp]: "encode_struct fs r \<noteq> JNull"
  by (simp add: encode_struct_def)

lemma refill_plain [codec]:
  "dec (enc (get r)) = Some (get r) \<Longrightarrow> enc (get r) \<noteq> JNull \<Longrightarrow> (omit \<longrightarrow> upd (\<lambda>_. zero) z = z) \<Longrightarrow>
   refill (plain_field omit zero enc dec n get upd # fs) r z = refill fs r (upd (\<lambda>_. get r) z)"
  by (auto simp: plain_field_def refill.simps(2))

lemma refill_str [codec]:
  "refill (str_f n get upd # fs) r z = refill fs r (upd (\<lambda>_. get r) z)"
  "upd (\<lambda>_. []) z = z \<Longrightarrow> refill (str_o n get upd # fs) r z = refill fs r (upd (\<lambda>_. get r) z)"
  by (simp_all add: str_f_def str_o_def refill_plain json_str_def)

lemma refill_int [codec]:
  "in_int64 (get r) \<Longrightarrow> refill (int_f n get upd # fs) r z = refill fs r (upd (\<lambda>_. get r) z)"
  "in_int64 (get r) \<Longrightarrow> upd (\<lambda>_. 0) z = z \<Longrightarrow> refill (int_o n get upd # fs) r z = refill fs r (upd (\<lambda>_. get r) z)"
  by (simp_all add: int_f_def int_o_def refill_plain json_int_def Atoi_Itoa)

lemma refill_bool [codec]:
  "refill (bool_f n get upd # fs) r z = refill fs r (upd (\<lambda>_. get r) z)"
  "upd (\<lambda>_. False) z = z \<Longrightarrow> refill (bool_o n get upd # fs) r z = refill fs r (upd (\<lambda>_. get r) z)"
  by (simp_all add: bool_f_def bool_o_def refill_plain json_bool_def)

lemma refill_custom [codec]:
  "dec (enc (get r)) (get z) = Some (get r) \<Longrightarrow> refill (custom_f enc dec n get upd # fs) r z = refill fs r (upd (\<lambda>_. get r) z)"
  by (simp add: custom_f_def refill.simps(2))

lemma refill_ptr [codec]:
  "pred_option (\<lambda>x. dec (enc x) zero = Some x \<and> enc x \<noteq> JNull) (get r) \<Longrightarrow> get z = None \<Longrightarrow> upd (\<lambda>_. None) z = z \<Longrightarrow>
   refill (ptr_f omit zero enc dec n get upd # fs) r z = refill fs r (upd (\<lambda>_. get r) z)"
  by (cases "get r") (auto simp: ptr_f_def refill.simps(2))

lemma map_opt_map: "list_all (\<lambda>x. f (g x) = Some (h x)) xs \<Longrightarrow> map_opt f (map g xs) = Some (map h xs)"
  by (induction xs) simp_all

lemma refill_list [codec]:
  "list_all (\<lambda>x. dec (enc x) = Some x) (get r) \<Longrightarrow> upd (\<lambda>_. []) z = z \<Longrightarrow>
   refill (list_o enc dec n get upd # fs) r z = refill fs r (upd (\<lambda>_. get r) z)"
  using map_opt_map [of dec enc "\<lambda>x. x" "get r"] by (auto simp: list_o_def json_list_def refill.simps(2))

lemma refill_slice [codec]:
  "pred_option (list_all (\<lambda>x. dec (enc x) = Some x)) (get r) \<Longrightarrow>
   refill (slice_f enc dec n get upd # fs) r z = refill fs r (upd (\<lambda>_. get r) z)"
  using map_opt_map [of dec enc "\<lambda>x. x"] by (cases "get r") (auto simp: slice_f_def json_list_def refill.simps(2))

definition key_sorted :: "(string \<times> string) list \<Rightarrow> bool" where
  \<comment> \<open>the canonical list of a map\<close>
  "key_sorted m \<longleftrightarrow> sorted (map fst m) \<and> distinct (map fst m)"

definition map_ok :: "(string \<times> string) list \<Rightarrow> bool" where
  [codec]: "map_ok m \<longleftrightarrow> key_sorted m \<and> list_all (\<lambda>(k, v). valid_utf8 k \<and> valid_utf8 v) m"

lemma update_all:
  "distinct (map fst (acc @ ps)) \<Longrightarrow> foldl (\<lambda>m (k, v). AList.update k v m) acc ps = acc @ ps"
proof (induction ps arbitrary: acc)
  case (Cons p ps)
  have "AList.update (fst p) (snd p) acc = acc @ [p]" if "fst p \<notin> fst ` set acc" using that by (induction acc) auto
  with Cons show ?case by (cases p) auto
qed simp

lemma refill_map [codec]:
  assumes "key_sorted (get r)" and "get z = []" and "upd (\<lambda>_. []) z = z"
  shows "refill (map_o n get upd # fs) r z = refill fs r (upd (\<lambda>_. get r) z)"
proof -
  have s: "sort_key fst (get r) = get r" using assms(1) by (simp add: key_sorted_def sort_key_id_if_sorted)
  have "map_opt (\<lambda>(k, v). map_option (Pair k) (if v = JNull then Some [] else json_str v)) (map (\<lambda>(k, v). (k, JStr v)) (get r))
      = Some (map (\<lambda>p. p) (get r))"
    by (rule map_opt_map) (auto simp: list_all_iff json_str_def)
  then have "json_pairs (JObj (map (\<lambda>(k, v). (k, JStr v)) (get r))) [] = Some (get r)"
    using assms(1) update_all [of "[]" "get r"] by (simp add: json_pairs_def key_sorted_def)
  with assms(2,3) s show ?thesis by (auto simp: map_o_def refill.simps(2))
qed

lemma refill_float [codec]:
  "float_ok ff (get r) \<Longrightarrow> refill (float_f ff n get upd # fs) r z = refill fs r (upd (\<lambda>_. get r) z)"
  "float_ok ff (get r) \<Longrightarrow> upd (\<lambda>_. Fin 0) z = z \<Longrightarrow> refill (float_o ff n get upd # fs) r z = refill fs r (upd (\<lambda>_. get r) z)"
  by (simp_all add: float_f_def float_o_def refill_plain json_float_def float_ok_def)

lemma refill_lists [codec]:
  "upd (\<lambda>_. []) z = z \<Longrightarrow> refill (strs_o n get upd # fs) r z = refill fs r (upd (\<lambda>_. get r) z)"
  by (simp add: strs_o_def refill_list elem_str_def json_str_def list_all_iff)

lemma refill_ints [codec]:
  "list_all in_int64 (get r) \<Longrightarrow> upd (\<lambda>_. []) z = z \<Longrightarrow> refill (ints_o n get upd # fs) r z = refill fs r (upd (\<lambda>_. get r) z)"
  by (simp add: ints_o_def refill_list elem_int_def json_int_def list_all_iff Atoi_Itoa)

text \<open>A struct type is filled again: its names are distinct and refilling its zero value gives the value back.\<close>

definition refills :: "'a field list \<Rightarrow> 'a \<Rightarrow> 'a \<Rightarrow> bool" where
  "refills fs zero x \<longleftrightarrow> distinct (map fst fs) \<and> refill fs x zero = Some x"

lemma refillsI: "distinct (map fst fs) \<Longrightarrow> refill fs x zero = Some x \<Longrightarrow> refills fs zero x"
  by (simp add: refills_def)

lemma decode_refills: "refills fs zero x \<Longrightarrow> decode_struct fs (encode_struct fs x) zero = Some x"
  by (simp add: refills_def decode_encode_struct)

lemma refill_struct [codec]:
  "refills gs (get z) (get r) \<Longrightarrow> refill (struct_f gs n get upd # fs) r z = refill fs r (upd (\<lambda>_. get r) z)"
  by (simp add: struct_f_def refill_custom decode_refills)

lemma refill_struct_o [codec]:
  "pred_option (refills gs zero) (get r) \<Longrightarrow> get z = None \<Longrightarrow> upd (\<lambda>_. None) z = z \<Longrightarrow>
   refill (struct_o gs zero n get upd # fs) r z = refill fs r (upd (\<lambda>_. get r) z)"
  unfolding struct_o_def by (rule refill_ptr) (auto simp: decode_refills option.pred_set)

lemma refill_structs_o [codec]:
  "list_all (refills gs zero) (get r) \<Longrightarrow> upd (\<lambda>_. []) z = z \<Longrightarrow>
   refill (structs_o gs zero n get upd # fs) r z = refill fs r (upd (\<lambda>_. get r) z)"
  unfolding structs_o_def by (rule refill_list) (auto simp: decode_refills list_all_iff)

lemma refill_structs_f [codec]:
  "pred_option (list_all (refills gs zero)) (get r) \<Longrightarrow>
   refill (structs_f gs zero n get upd # fs) r z = refill fs r (upd (\<lambda>_. get r) z)"
  unfolding structs_f_def by (rule refill_slice) (auto simp: decode_refills list_all_iff option.pred_set)

lemma refill_list_f [codec]:
  "list_all (\<lambda>x. dec (enc x) = Some x) (get r) \<Longrightarrow> refill (list_f enc dec n get upd # fs) r z = refill fs r (upd (\<lambda>_. get r) z)"
  using map_opt_map [of dec enc "\<lambda>x. x" "get r"] by (auto simp: list_f_def json_list_def refill.simps(2))

lemma refill_lists_f [codec]:
  "refill (strs_f n gs us # fs) r z = refill fs r (us (\<lambda>_. gs r) z)"
  "refill (slice_strs_f n gv uv # fs) r z = refill fs r (uv (\<lambda>_. gv r) z)"
  "list_all (refills gs' zero) (gl r) \<Longrightarrow> refill (structs_l gs' zero n gl ul # fs) r z = refill fs r (ul (\<lambda>_. gl r) z)"
  by (simp_all add: strs_f_def slice_strs_f_def structs_l_def refill_list_f refill_slice elem_str_def json_str_def
      list_all_iff decode_refills option.pred_set)

lemma refill_ptrs [codec]:
  "gb z = None \<Longrightarrow> ub (\<lambda>_. None) z = z \<Longrightarrow> refill (bool_ptr_o n gb ub # fs) r z = refill fs r (ub (\<lambda>_. gb r) z)"
  "gs z = None \<Longrightarrow> us (\<lambda>_. None) z = z \<Longrightarrow> refill (str_ptr_f n gs us # fs) r z = refill fs r (us (\<lambda>_. gs r) z)"
  by (simp_all add: bool_ptr_o_def str_ptr_f_def refill_ptr json_bool_def json_str_def option.pred_set)

lemma field_names [codec]:
  "fst (plain_field om zero enc dec n gp up) = n" "fst (str_f n gs us) = n" "fst (str_o n gs us) = n"
  "fst (int_f n gi ui) = n" "fst (int_o n gi ui) = n" "fst (bool_f n gb ub) = n" "fst (bool_o n gb ub) = n"
  "fst (custom_f ce cd n gc uc) = n" "fst (ptr_f om pz pe pd n gq uq) = n" "fst (list_o le ld n gl ul) = n"
  "fst (slice_f se sd n gv uv) = n" "fst (map_o n gm um) = n"
  by (simp_all add: plain_field_def str_f_def str_o_def int_f_def int_o_def bool_f_def bool_o_def custom_f_def ptr_f_def
      list_o_def slice_f_def map_o_def)

lemma field_names2 [codec]:
  "fst (float_f ff n gf uf) = n" "fst (float_o ff n gf uf) = n" "fst (strs_o n gss uss) = n" "fst (ints_o n gis uis) = n"
  "fst (struct_f fs n gt ut) = n" "fst (struct_o fs zero n gp up) = n" "fst (structs_o fs zero n gl ul) = n"
  "fst (structs_f fs zero n gv uv) = n" "fst (list_f le ld n gx ux) = n" "fst (strs_f n gss uss) = n"
  "fst (slice_strs_f n gw uw) = n" "fst (structs_l fs zero n gy uy) = n" "fst (bool_ptr_o n ga ua) = n" "fst (str_ptr_f n gb ub) = n"
  by (simp_all add: bool_ptr_o_def str_ptr_f_def list_f_def strs_f_def slice_strs_f_def structs_l_def float_f_def float_o_def strs_o_def ints_o_def struct_f_def struct_o_def structs_o_def structs_f_def field_names)

section \<open>Printable structs\<close>

definition field_ok :: "nat \<Rightarrow> 'r \<Rightarrow> 'r field \<Rightarrow> bool" where
  "field_ok d r f = (case f of (n, e, a) \<Rightarrow> case e r of None \<Rightarrow> True | Some j \<Rightarrow> valid_utf8 n \<and> json_ok d j)"

lemma json_ok_struct [codec]: "d \<noteq> 0 \<Longrightarrow> list_all (field_ok (d - 1) r) fs \<Longrightarrow> json_ok d (encode_struct fs r)"
proof -
  assume "list_all (field_ok (d - 1) r) fs"
  then have "list_all (\<lambda>(k, v). valid_utf8 k \<and> json_ok (d - 1) v) (emit_members fs r)"
    by (induction fs) (auto simp: emit_members_def List.map_filter_def field_ok_def split: option.splits)
  then show "d \<noteq> 0 \<Longrightarrow> json_ok d (encode_struct fs r)" by (simp add: encode_struct_def)
qed

lemma field_ok_plain [codec]: "ascii n \<Longrightarrow> json_ok d (enc (get r)) \<Longrightarrow> field_ok d r (plain_field omit zero enc dec n get upd)"
  by (simp add: field_ok_def plain_field_def ascii_utf8)

lemma field_ok_scalars [codec]:
  "ascii n \<Longrightarrow> valid_utf8 (gs r) \<Longrightarrow> field_ok d r (str_f n gs us)"
  "ascii n \<Longrightarrow> valid_utf8 (gs r) \<Longrightarrow> field_ok d r (str_o n gs us)"
  "ascii n \<Longrightarrow> field_ok d r (int_f n gi ui)" "ascii n \<Longrightarrow> field_ok d r (int_o n gi ui)"
  "ascii n \<Longrightarrow> field_ok d r (bool_f n gb ub)" "ascii n \<Longrightarrow> field_ok d r (bool_o n gb ub)"
  by (simp_all add: str_f_def str_o_def int_f_def int_o_def bool_f_def bool_o_def field_ok_plain Itoa_number)

lemma field_ok_custom [codec]: "ascii n \<Longrightarrow> json_ok d (enc (get r)) \<Longrightarrow> field_ok d r (custom_f enc dec n get upd)"
  by (simp add: field_ok_def custom_f_def ascii_utf8)

lemma field_ok_ptr [codec]: "ascii n \<Longrightarrow> pred_option (\<lambda>x. json_ok d (enc x)) (get r) \<Longrightarrow> field_ok d r (ptr_f omit zero enc dec n get upd)"
  by (cases "get r") (simp_all add: field_ok_def ptr_f_def ascii_utf8)

lemma field_ok_list [codec]:
  "ascii n \<Longrightarrow> d \<noteq> 0 \<Longrightarrow> list_all (\<lambda>x. json_ok (d - 1) (enc x)) (get r) \<Longrightarrow> field_ok d r (list_o enc dec n get upd)"
  by (simp add: field_ok_def list_o_def ascii_utf8 list_all_iff)

lemma field_ok_slice [codec]:
  "ascii n \<Longrightarrow> d \<noteq> 0 \<Longrightarrow> pred_option (list_all (\<lambda>x. json_ok (d - 1) (enc x))) (get r) \<Longrightarrow>
   field_ok d r (slice_f enc dec n get upd)"
  by (cases "get r") (simp_all add: field_ok_def slice_f_def ascii_utf8 list_all_iff)

lemma field_ok_map [codec]:
  "ascii n \<Longrightarrow> d \<noteq> 0 \<Longrightarrow> list_all (\<lambda>(k, v). valid_utf8 k \<and> valid_utf8 v) (get r) \<Longrightarrow> field_ok d r (map_o n get upd)"
  by (auto simp: field_ok_def map_o_def ascii_utf8 list_all_iff)

lemma field_ok_float [codec]:
  "ascii n \<Longrightarrow> float_ok ff (get r) \<Longrightarrow> field_ok d r (float_f ff n get upd)"
  "ascii n \<Longrightarrow> float_ok ff (get r) \<Longrightarrow> field_ok d r (float_o ff n get upd)"
  by (simp_all add: float_f_def float_o_def field_ok_plain float_ok_def)

lemma field_ok_lists [codec]:
  "ascii n \<Longrightarrow> d \<noteq> 0 \<Longrightarrow> list_all valid_utf8 (gs r) \<Longrightarrow> field_ok d r (strs_o n gs us)"
  "ascii n \<Longrightarrow> d \<noteq> 0 \<Longrightarrow> field_ok d r (ints_o n gi ui)"
  by (simp_all add: strs_o_def ints_o_def field_ok_list Itoa_number list_all_iff)

lemma field_ok_structs [codec]:
  "ascii n \<Longrightarrow> json_ok d (encode_struct gs (gt r)) \<Longrightarrow> field_ok d r (struct_f gs n gt ut)"
  "ascii n \<Longrightarrow> pred_option (\<lambda>x. json_ok d (encode_struct gs x)) (gp r) \<Longrightarrow> field_ok d r (struct_o gs zero n gp up)"
  "ascii n \<Longrightarrow> d \<noteq> 0 \<Longrightarrow> list_all (\<lambda>x. json_ok (d - 1) (encode_struct gs x)) (gl r) \<Longrightarrow> field_ok d r (structs_o gs zero n gl ul)"
  "ascii n \<Longrightarrow> d \<noteq> 0 \<Longrightarrow> pred_option (list_all (\<lambda>x. json_ok (d - 1) (encode_struct gs x))) (gv r) \<Longrightarrow>
   field_ok d r (structs_f gs zero n gv uv)"
  by (simp_all add: struct_f_def struct_o_def structs_o_def structs_f_def field_ok_custom field_ok_ptr field_ok_list field_ok_slice)

lemma field_ok_ptrs [codec]:
  "ascii n \<Longrightarrow> field_ok d r (bool_ptr_o n gb ub)"
  "ascii n \<Longrightarrow> pred_option valid_utf8 (gs r) \<Longrightarrow> field_ok d r (str_ptr_f n gs us)"
  by (simp_all add: bool_ptr_o_def str_ptr_f_def field_ok_ptr option.pred_set)

lemma field_ok_list_f [codec]:
  "ascii n \<Longrightarrow> d \<noteq> 0 \<Longrightarrow> list_all (\<lambda>x. json_ok (d - 1) (enc x)) (get r) \<Longrightarrow> field_ok d r (list_f enc dec n get upd)"
  by (simp add: field_ok_def list_f_def ascii_utf8 list_all_iff)

lemma field_ok_lists_f [codec]:
  "ascii n \<Longrightarrow> d \<noteq> 0 \<Longrightarrow> list_all valid_utf8 (gs r) \<Longrightarrow> field_ok d r (strs_f n gs us)"
  "ascii n \<Longrightarrow> d \<noteq> 0 \<Longrightarrow> pred_option (list_all valid_utf8) (gv r) \<Longrightarrow> field_ok d r (slice_strs_f n gv uv)"
  "ascii n \<Longrightarrow> d \<noteq> 0 \<Longrightarrow> list_all (\<lambda>x. json_ok (d - 1) (encode_struct fs x)) (gl r) \<Longrightarrow> field_ok d r (structs_l fs zero n gl ul)"
  by (simp_all add: strs_f_def slice_strs_f_def structs_l_def field_ok_list_f field_ok_slice list_all_iff option.pred_set)

lemma json_ok_numbers: "json_ok d j \<Longrightarrow> numbers_ok j"
proof (induction d j rule: json_ok.induct)
  case (5 d js)
  then show ?case unfolding json_ok.simps numbers_ok.simps list_all_iff by blast
next
  case (6 d kvs)
  have "numbers_ok (snd p)" if p: "p \<in> set kvs" for p
  proof -
    obtain k v where kv: "p = (k, v)" by fastforce
    have "json_ok (d - 1) v" using 6(2) p kv unfolding json_ok.simps list_all_iff by auto
    from 6(1) [OF p kv [symmetric] this] kv show ?thesis by simp
  qed
  then show ?case by (auto simp: list_all_iff)
qed simp_all

section \<open>The contract\<close>

locale json_codec =
  fixes enc :: "'a \<Rightarrow> json"
    and dec :: "json \<Rightarrow> 'a option"
    and ok :: "'a \<Rightarrow> bool"
  assumes dec_enc: "ok x \<Longrightarrow> dec (enc x) = Some x"
    and printable: "ok x \<Longrightarrow> json_ok maxNestingDepth (enc x)"
begin

lemma marshals: "ok x \<Longrightarrow> Marshal_json (enc x) = Inr (json_text (enc x))"
  using json_ok_numbers [OF printable] by (simp add: Marshal_json_def)

lemma text_back: "ok x \<Longrightarrow> Unmarshal_json dec (json_text (enc x)) = Inr x"
  by (simp add: Unmarshal_json_def parse_json_text printable dec_enc)

lemma same_text: "ok x \<Longrightarrow> ok y \<Longrightarrow> json_text (enc x) = json_text (enc y) \<Longrightarrow> x = y"
  by (metis text_back sum.inject(2))

lemma text_back_any:
  assumes "ok x" and "Marshal_json (enc x) = Inr b"
  shows "Unmarshal_json dec b = Inr x"
proof -
  have "b = json_text (enc x)" using assms(2) unfolding marshals [OF assms(1)] by (rule sum.inject(2) [THEN iffD1, symmetric])
  with text_back [OF assms(1)] show ?thesis by blast
qed

end

text \<open>A struct type given by its tags, its zero value, the values that survive, and the levels of nesting it
  needs. As a part of other structs, alone or in lists, it obeys the laws their proofs ask for.\<close>

locale dto =
  fixes fs :: "'a field list"
    and zero :: 'a
    and ok :: "'a \<Rightarrow> bool"
    and depth :: nat
  assumes refills [codec]: "ok x \<Longrightarrow> refills fs zero x"
    and printed [codec]: "ok x \<Longrightarrow> depth \<le> d \<Longrightarrow> json_ok d (encode_struct fs x)"
    and shallow: "depth \<le> 100"
begin

lemma refills_list [codec]: "list_all ok xs \<Longrightarrow> list_all (refills fs zero) xs"
  by (auto simp: list_all_iff refills)

lemma refills_option [codec]: "pred_option ok p \<Longrightarrow> pred_option (refills fs zero) p"
  by (cases p) (simp_all add: refills)

lemma refills_slice [codec]: "pred_option (list_all ok) p \<Longrightarrow> pred_option (list_all (refills fs zero)) p"
  by (cases p) (simp_all add: refills_list)

lemma printed_option [codec]: "pred_option ok p \<Longrightarrow> depth \<le> d \<Longrightarrow> pred_option (\<lambda>x. json_ok d (encode_struct fs x)) p"
  by (cases p) (simp_all add: printed)

lemma printed_list [codec]: "list_all ok xs \<Longrightarrow> depth \<le> d \<Longrightarrow> list_all (\<lambda>x. json_ok d (encode_struct fs x)) xs"
  by (auto simp: list_all_iff printed)

lemma printed_slice [codec]:
  "pred_option (list_all ok) p \<Longrightarrow> depth \<le> d \<Longrightarrow> pred_option (list_all (\<lambda>x. json_ok d (encode_struct fs x))) p"
  by (cases p) (simp_all add: printed_list)

end

sublocale dto \<subseteq> json_codec "encode_struct fs" "\<lambda>j. decode_struct fs j zero" ok
  by unfold_locales (use shallow in \<open>auto simp: decode_refills refills printed maxNestingDepth_def\<close>)

end
