(* ===== verification/Json_Exchange.thy ===== *)
theory Json_Exchange
  imports Go_Codec Endpoints
begin

text \<open>
  What a call with a JSON body carries, and what its caller gets back. Whatever the struct types are, their codecs
  (the locale \<open>json_codec\<close>) and the client's transport (\<open>Do_sends\<close>, \<open>Do_decodes\<close>) give: the body of every exchange
  decodes to the value the caller passed, and a value the server sent arrives as it was.
\<close>

definition decodes_with :: "(json \<Rightarrow> 'v option) \<Rightarrow> ('w, 'v) env \<Rightarrow> bool" where
  \<comment> \<open>documented behaviour: on a body that is one JSON value, \<open>Decoder.Decode\<close> does what \<open>Unmarshal\<close> does\<close>
  "decodes_with dec env \<longleftrightarrow> (\<forall>resp y. \<not> respBodyErr resp \<and> Unmarshal_json dec (respBody resp) = Inr y \<longrightarrow>
     DecodeInto env resp = (None, Some y))"

definition answers :: "('v \<Rightarrow> json) \<Rightarrow> http_response \<Rightarrow> 'v \<Rightarrow> bool" where
  \<comment> \<open>the response is the value \<open>x\<close>, complete\<close>
  "answers enc resp x \<longleftrightarrow> StatusCode resp \<noteq> 204 \<and> ContentLength resp \<noteq> 0 \<and> \<not> respBodyErr resp \<and>
     Marshal_json (enc x) = Inr (respBody resp)"

definition carries :: "(json \<Rightarrow> 'r option) \<Rightarrow> 'r \<Rightarrow> http_request \<Rightarrow> bool" where
  \<comment> \<open>the request has a whole body, which decodes to \<open>r\<close>\<close>
  "carries dec r R \<longleftrightarrow> (\<exists>b. rBody R = Stream b False \<and> Unmarshal_json dec b = Inr r)"

lemma dispatch_decodes:
  assumes "observed env c sent" and "dispatch env ua c meth uri b hs v codes w = (Inr out1, w')"
  shows "\<exists>R resp. last (sent w') = (R, Inr resp) \<and> StatusCode resp \<in> set (if codes = [] then [200] else codes)
    \<and> decode_body env v resp Untouched = (None, out1)"
proof -
  obtain req where "Do env ua c (Some (set_headers hs req)) v codes w = ((None, out1), w')"
    using assms(2) by (auto simp: dispatch_def split: option.splits prod.splits)
  then show ?thesis by (rule Do_decodes [OF assms(1)])
qed

lemma send_json_decodes:
  assumes "observed env c sent" and "send_json env ua c meth uri m hs v codes w = (Inr out1, w')"
  shows "\<exists>R resp. last (sent w') = (R, Inr resp) \<and> StatusCode resp \<in> set (if codes = [] then [200] else codes)
    \<and> decode_body env v resp Untouched = (None, out1)"
proof (cases m)
  case (Inl e)
  with assms(2) show ?thesis by (simp add: send_json_def)
next
  case (Inr b)
  from assms(2) [unfolded send_json_def Inr sum.case] show ?thesis by (rule dispatch_decodes [OF assms(1)])
qed

lemma Unmarshal_nothing: "Unmarshal_json dec [] \<noteq> Inr r"
  by (simp add: Unmarshal_json_def json_parse_def bytes_of_def split: option.split)

context json_codec
begin

lemma decoded_answer:
  assumes "decodes_with dec env" and "ok x" and "answers enc resp x" and "decode_body env TJSON resp Untouched = (None, out1)"
  shows "out1 = JsonOut x"
proof -
  have "Unmarshal_json dec (respBody resp) = Inr x" using text_back_any [OF assms(2)] assms(3) by (simp add: answers_def)
  with assms(1,3) have "DecodeInto env resp = (None, Some x)" by (simp add: decodes_with_def answers_def)
  with assms(3,4) show ?thesis by (simp add: decode_body_def answers_def)
qed

lemma carried:
  assumes "ok r" and "Marshal_json (enc r) = Inr b" and "is_call c meth uri (Some b) hs R"
  shows "carries dec r R"
proof -
  from text_back_any [OF assms(1,2)] have d: "Unmarshal_json dec b = Inr r" .
  with Unmarshal_nothing have "b \<noteq> []" by metis
  with assms(3) d show ?thesis by (simp add: carries_def is_call_def sent_body_def)
qed

lemma send_json_carries:
  assumes "plain_client env c sent" and "go_targets env" and "target_ok uri" and "ok r"
    and "send_json env ua c meth uri (Marshal_json (enc r)) hs v codes w = (res, w')"
  shows "\<exists>R rs. sent w' = sent w @ map (\<lambda>x. (R, x)) rs \<and>
    (rs \<noteq> [] \<longrightarrow> (\<exists>b. Marshal_json (enc r) = Inr b \<and> is_call c meth uri (Some b) hs R) \<and> carries dec r R) \<and>
    length rs \<le> (if repeatable c meth hs then attempts_of (retry c) else 1) \<and> (\<forall>out1. res = Inr out1 \<longrightarrow> rs \<noteq> [])"
proof -
  obtain b where b: "Marshal_json (enc r) = Inr b" using marshals [OF assms(4)] by blast
  from dispatch_sends [OF assms(1-3) assms(5) [unfolded send_json_def b sum.case]]
  obtain R rs where s: "sent w' = sent w @ map (\<lambda>x. (R, x)) rs" "rs \<noteq> [] \<longrightarrow> is_call c meth uri (Some b) hs R"
    "length rs \<le> (if repeatable c meth hs then attempts_of (retry c) else 1)" "\<forall>out1. res = Inr out1 \<longrightarrow> rs \<noteq> []" by blast
  then show ?thesis using carried [OF assms(4) b] b by (intro exI [of _ R] exI [of _ rs]) blast
qed

end

section \<open>An environment for the witnesses\<close>

definition codec_env :: "(json \<Rightarrow> 'v option) \<Rightarrow> ((http_request \<times> (string + http_response)) list, 'v) env" where
  "codec_env dec = \<lparr>url_Parse = url_Parse web_env, url_String = url_String web_env, resolvePath = resolve_path,
     loopback_ip = (\<lambda>_. False), ParseTime = (\<lambda>_. None), errorBody = (\<lambda>_. None),
     DecodeInto = (\<lambda>resp. case Unmarshal_json dec (respBody resp) of Inl e \<Rightarrow> (Some e, None) | Inr y \<Rightarrow> (None, Some y)),
     rand_Int64N = (\<lambda>_ w. (0, w)), select_after = (\<lambda>_ w. (None, w)), clock = (\<lambda>_. 0)\<rparr>"

definition answering :: "string \<Rightarrow> (http_request \<times> (string + http_response)) list client" where
  \<comment> \<open>the server answers 200 with this body\<close>
  "answering b = demo_client\<lparr>http_Do := \<lambda>req w.
     let r = Inr \<lparr>StatusCode = 200, respHeader = (\<lambda>_. []), ContentLength = -1, respBody = b, respBodyErr = False\<rparr>
     in (r, w @ [(req, r)])\<rparr>"

lemma codec_env_targets: "go_targets (codec_env dec)"
  using web_env_targets by (simp add: go_targets_def codec_env_def)

lemma codec_env_client: "plain_client (codec_env dec) demo_client (\<lambda>w. w)" "plain_client (codec_env dec) (answering b) (\<lambda>w. w)"
  by (simp_all add: plain_client_def observed_def header_authorizer_def codec_env_def answering_def demo_defs Let_def)

lemma codec_env_decodes: "decodes_with dec (codec_env dec)"
  by (simp add: decodes_with_def codec_env_def)

lemma answering_GET:
  assumes "target_ok uri" and "Unmarshal_json dec b = Inr y"
  shows "\<exists>w'. dispatch (codec_env dec) ''sdk'' (answering b) ''GET'' uri None [] TJSON [200] [] = (Inr (JsonOut y), w')"
  using assms codec_env_targets [of dec]
  by (simp add: dispatch_def NewRequest_def go_targets_def Do_def codec_env_def answering_def demo_defs prepare_def set_default_def
      buffer_body_def shouldRetry_def IsAbs_def Let_def run_def attempts_of_def defaultRetry_def numeral_eq_Suc attemptFn_def
      attempt_def reset_body_def handle_response_def decode_body_def set_headers_def parse_target_def split: prod.split)

lemma demo_POST:
  assumes "target_ok uri"
  shows "snd (dispatch (codec_env dec) ''sdk'' demo_client ''POST'' uri (Some b) [] TJSON [200] []) \<noteq> []"
  using assms codec_env_targets [of dec]
  by (simp add: dispatch_def NewRequest_def go_targets_def Do_def codec_env_def demo_defs prepare_def set_default_def
      buffer_body_def shouldRetry_def IsAbs_def Let_def attemptFn_def attempt_def reset_body_def handle_response_def
      isTransientStatus_def set_headers_def parse_target_def split: prod.split)

lemma keyed_POST:
  assumes "target_ok uri"
  shows "snd (dispatch (codec_env dec) ''sdk'' demo_client ''POST'' uri (Some b) [(''Idempotency-Key'', ''k-1'')] TJSON [200] []) \<noteq> []"
  using assms codec_env_targets [of dec]
  by (simp add: dispatch_def NewRequest_def go_targets_def Do_def codec_env_def demo_defs prepare_def set_default_def
      buffer_body_def shouldRetry_def IsAbs_def Let_def attemptFn_def attempt_def reset_body_def handle_response_def
      isTransientStatus_def set_headers_def parse_target_def run_def attempts_of_def defaultRetry_def numeral_eq_Suc
      lift_world_def pause_or_done_def retry_delay_def backoff_def decode_body_def split: prod.split option.split sum.split)

end
