(* ===== verification/Acquiring_Types.thy ===== *)
theory Acquiring_Types
  imports Json_Exchange Basket Acquiring_Client
begin

text \<open>
  The payloads of the acquiring API (\<open>acquiring/types.go\<close>, \<open>acquiring/subscription.go\<close>): the request and
  response structs with their JSON tags, in both directions.

  \<open>X_fields\<close> is the tag list of the struct \<open>X\<close>, so \<open>encode_struct X_fields\<close> is what \<open>json.Marshal\<close> writes and
  \<open>decode_struct X_fields\<close> what \<open>json.Unmarshal\<close> does. A slice with \<open>omitempty\<close> is a list, a pointer an
  option. \<open>X_ok\<close>: the strings are UTF-8, the integers fit their type and the floats are finite. \<open>Marshal\<close> of
  such a value is a text from which the same tags read the value back.
\<close>

section \<open>Requests\<close>

definition adjustment_fields :: "float_format \<Rightarrow> adjustment field list" where
  "adjustment_fields ff =
     [str_f ''type'' adjType adjType_update, str_f ''mode'' adjMode adjMode_update,
      float_f ff ''value'' adjValue adjValue_update, ints_o ''tax'' adjTax adjTax_update]"

definition adjustment_zero :: adjustment where
  "adjustment_zero = \<lparr>adjType = [], adjMode = [], adjValue = Fin 0, adjTax = []\<rparr>"

definition adjustment_ok :: "float_format \<Rightarrow> adjustment \<Rightarrow> bool" where
  "adjustment_ok ff x \<longleftrightarrow>
     list_all valid_utf8 [adjType x, adjMode x] \<and> float_ok ff (adjValue x) \<and> list_all in_int64 (adjTax x)"

lemmas adjustment_defs = adjustment_fields_def adjustment_zero_def adjustment_ok_def

interpretation adjustment: dto "adjustment_fields ff" adjustment_zero "adjustment_ok ff" 2 for ff
proof
  show "refills (adjustment_fields ff) adjustment_zero x" if "adjustment_ok ff x" for x
    using that by (cases x) (rule refillsI, simp_all add: adjustment_defs codec)
  show "json_ok d (encode_struct (adjustment_fields ff) x)" if "adjustment_ok ff x" and "2 \<le> d" for d x
    using that by (intro json_ok_struct) (auto simp: adjustment_defs codec)
qed simp

definition basket_item_fields :: "float_format \<Rightarrow> basket_item field list" where
  "basket_item_fields ff =
     [str_f ''name'' itName itName_update, float_f ff ''qty'' Qty Qty_update, int_f ''sum'' Sum Sum_update,
      int_o ''total'' Total Total_update, str_o ''icon'' Icon Icon_update, str_o ''unit'' Unit Unit_update,
      str_f ''code'' itCode itCode_update, str_o ''barcode'' Barcode Barcode_update,
      str_o ''header'' basket_item.Header basket_item.Header_update, str_o ''footer'' Footer Footer_update,
      ints_o ''tax'' Tax Tax_update, str_o ''uktzed'' UKTZED UKTZED_update,
      structs_o (adjustment_fields ff) adjustment_zero ''discounts'' Discounts Discounts_update,
      str_o ''splitReceiverId'' SplitReceiverID SplitReceiverID_update]"

definition basket_item_zero :: basket_item where
  "basket_item_zero = \<lparr>itName = [], Qty = Fin 0, Sum = 0, Total = 0, Icon = [], Unit = [], itCode = [], Barcode = [], Header = [],
     Footer = [], Tax = [], UKTZED = [], Discounts = [], SplitReceiverID = []\<rparr>"

definition basket_item_ok :: "float_format \<Rightarrow> basket_item \<Rightarrow> bool" where
  "basket_item_ok ff x \<longleftrightarrow>
     list_all valid_utf8 [itName x, Icon x, Unit x, itCode x, Barcode x, basket_item.Header x, Footer x, UKTZED x, SplitReceiverID x] \<and>
     list_all in_int64 [Sum x, Total x] \<and> float_ok ff (Qty x) \<and> list_all in_int64 (Tax x) \<and>
     list_all (adjustment_ok ff) (Discounts x)"

lemmas basket_item_defs = basket_item_fields_def basket_item_zero_def basket_item_ok_def

interpretation basket_item: dto "basket_item_fields ff" basket_item_zero "basket_item_ok ff" 4 for ff
proof
  show "refills (basket_item_fields ff) basket_item_zero x" if "basket_item_ok ff x" for x
    using that by (cases x) (rule refillsI, simp_all add: basket_item_defs codec)
  show "json_ok d (encode_struct (basket_item_fields ff) x)" if "basket_item_ok ff x" and "4 \<le> d" for d x
    using that by (intro json_ok_struct) (auto simp: basket_item_defs codec)
qed simp

record merchant_paym_info =
  mpReference :: string
  mpDestination :: string
  mpComment :: string
  mpCustomerEmails :: "string list"
  mpDiscounts :: "adjustment list"
  mpBasketOrder :: "basket_item list"
  mpMetadata :: "(string \<times> string) list"

definition merchant_paym_info_fields :: "float_format \<Rightarrow> merchant_paym_info field list" where
  "merchant_paym_info_fields ff =
     [str_o ''reference'' mpReference mpReference_update, str_o ''destination'' mpDestination mpDestination_update,
      str_o ''comment'' mpComment mpComment_update, strs_o ''customerEmails'' mpCustomerEmails mpCustomerEmails_update,
      structs_o (adjustment_fields ff) adjustment_zero ''discounts'' mpDiscounts mpDiscounts_update,
      structs_o (basket_item_fields ff) basket_item_zero ''basketOrder'' mpBasketOrder mpBasketOrder_update,
      map_o ''metadata'' mpMetadata mpMetadata_update]"

definition merchant_paym_info_zero :: merchant_paym_info where
  "merchant_paym_info_zero = \<lparr>mpReference = [], mpDestination = [], mpComment = [], mpCustomerEmails = [], mpDiscounts = [], mpBasketOrder = [],
     mpMetadata = []\<rparr>"

definition merchant_paym_info_ok :: "float_format \<Rightarrow> merchant_paym_info \<Rightarrow> bool" where
  "merchant_paym_info_ok ff x \<longleftrightarrow>
     list_all valid_utf8 [mpReference x, mpDestination x, mpComment x] \<and> list_all valid_utf8 (mpCustomerEmails x) \<and>
     list_all (adjustment_ok ff) (mpDiscounts x) \<and> list_all (basket_item_ok ff) (mpBasketOrder x) \<and>
     map_ok (mpMetadata x)"

lemmas merchant_paym_info_defs = merchant_paym_info_fields_def merchant_paym_info_zero_def merchant_paym_info_ok_def

interpretation merchant_paym_info: dto "merchant_paym_info_fields ff" merchant_paym_info_zero "merchant_paym_info_ok ff" 6 for ff
proof
  show "refills (merchant_paym_info_fields ff) merchant_paym_info_zero x" if "merchant_paym_info_ok ff x" for x
    using that by (cases x) (rule refillsI, simp_all add: merchant_paym_info_defs codec)
  show "json_ok d (encode_struct (merchant_paym_info_fields ff) x)" if "merchant_paym_info_ok ff x" and "6 \<le> d" for d x
    using that by (intro json_ok_struct) (auto simp: merchant_paym_info_defs codec)
qed simp

record save_card_data =
  svSaveCard :: bool
  svWalletID :: string

definition save_card_data_fields :: "save_card_data field list" where
  "save_card_data_fields =
     [bool_f ''saveCard'' svSaveCard svSaveCard_update, str_o ''walletId'' svWalletID svWalletID_update]"

definition save_card_data_zero :: save_card_data where
  "save_card_data_zero = \<lparr>svSaveCard = False, svWalletID = []\<rparr>"

definition save_card_data_ok :: "save_card_data \<Rightarrow> bool" where
  "save_card_data_ok x \<longleftrightarrow>
     valid_utf8 (svWalletID x)"

lemmas save_card_data_defs = save_card_data_fields_def save_card_data_zero_def save_card_data_ok_def

interpretation save_card_data: dto save_card_data_fields save_card_data_zero save_card_data_ok 1
proof
  show "refills save_card_data_fields save_card_data_zero x" if "save_card_data_ok x" for x
    using that by (cases x) (rule refillsI, simp_all add: save_card_data_defs codec)
  show "json_ok d (encode_struct save_card_data_fields x)" if "save_card_data_ok x" and "1 \<le> d" for d x
    using that by (intro json_ok_struct) (auto simp: save_card_data_defs codec)
qed simp

record create_invoice_request =
  ciAmount :: int
  ciCurrency :: int
  ciMerchantPaymInfo :: "merchant_paym_info option"
  ciRedirectURL :: string
  ciSuccessURL :: string
  ciFailURL :: string
  ciWebHookURL :: string
  ciValidity :: int
  ciPaymentType :: string
  ciQrID :: string
  ciCode :: string
  ciSaveCardData :: "save_card_data option"
  ciAgentFeePercent :: f64
  ciTipsEmployeeID :: string
  ciDisplayType :: string
  ciWithAppURL :: bool

definition create_invoice_request_fields :: "float_format \<Rightarrow> create_invoice_request field list" where
  "create_invoice_request_fields ff =
     [int_f ''amount'' ciAmount ciAmount_update, int_o ''ccy'' ciCurrency ciCurrency_update,
      struct_o (merchant_paym_info_fields ff) merchant_paym_info_zero ''merchantPaymInfo'' ciMerchantPaymInfo ciMerchantPaymInfo_update,
      str_o ''redirectUrl'' ciRedirectURL ciRedirectURL_update, str_o ''successUrl'' ciSuccessURL ciSuccessURL_update,
      str_o ''failUrl'' ciFailURL ciFailURL_update, str_o ''webHookUrl'' ciWebHookURL ciWebHookURL_update,
      int_o ''validity'' ciValidity ciValidity_update, str_o ''paymentType'' ciPaymentType ciPaymentType_update,
      str_o ''qrId'' ciQrID ciQrID_update, str_o ''code'' ciCode ciCode_update,
      struct_o save_card_data_fields save_card_data_zero ''saveCardData'' ciSaveCardData ciSaveCardData_update,
      float_o ff ''agentFeePercent'' ciAgentFeePercent ciAgentFeePercent_update,
      str_o ''tipsEmployeeId'' ciTipsEmployeeID ciTipsEmployeeID_update,
      str_o ''displayType'' ciDisplayType ciDisplayType_update, bool_o ''withAppUrl'' ciWithAppURL ciWithAppURL_update]"

definition create_invoice_request_zero :: create_invoice_request where
  "create_invoice_request_zero = \<lparr>ciAmount = 0, ciCurrency = 0, ciMerchantPaymInfo = None, ciRedirectURL = [], ciSuccessURL = [], ciFailURL = [],
     ciWebHookURL = [], ciValidity = 0, ciPaymentType = [], ciQrID = [], ciCode = [], ciSaveCardData = None,
     ciAgentFeePercent = Fin 0, ciTipsEmployeeID = [], ciDisplayType = [], ciWithAppURL = False\<rparr>"

definition create_invoice_request_ok :: "float_format \<Rightarrow> create_invoice_request \<Rightarrow> bool" where
  "create_invoice_request_ok ff x \<longleftrightarrow>
     list_all valid_utf8 [ciRedirectURL x, ciSuccessURL x, ciFailURL x, ciWebHookURL x, ciPaymentType x, ciQrID x, ciCode x,
       ciTipsEmployeeID x, ciDisplayType x] \<and>
     list_all in_int64 [ciAmount x, ciCurrency x, ciValidity x] \<and>
     pred_option (merchant_paym_info_ok ff) (ciMerchantPaymInfo x) \<and>
     pred_option save_card_data_ok (ciSaveCardData x) \<and> float_ok ff (ciAgentFeePercent x)"

lemmas create_invoice_request_defs = create_invoice_request_fields_def create_invoice_request_zero_def create_invoice_request_ok_def

interpretation create_invoice_request: dto "create_invoice_request_fields ff" create_invoice_request_zero "create_invoice_request_ok ff" 7 for ff
proof
  show "refills (create_invoice_request_fields ff) create_invoice_request_zero x" if "create_invoice_request_ok ff x" for x
    using that by (cases x) (rule refillsI, simp_all add: create_invoice_request_defs codec)
  show "json_ok d (encode_struct (create_invoice_request_fields ff) x)" if "create_invoice_request_ok ff x" and "7 \<le> d" for d x
    using that by (intro json_ok_struct) (auto simp: create_invoice_request_defs codec)
qed simp

record create_invoice_response =
  crInvoiceID :: string
  crPageURL :: string
  crAppURL :: string

definition create_invoice_response_fields :: "create_invoice_response field list" where
  "create_invoice_response_fields =
     [str_f ''invoiceId'' crInvoiceID crInvoiceID_update, str_f ''pageUrl'' crPageURL crPageURL_update,
      str_o ''appUrl'' crAppURL crAppURL_update]"

definition create_invoice_response_zero :: create_invoice_response where
  "create_invoice_response_zero = \<lparr>crInvoiceID = [], crPageURL = [], crAppURL = []\<rparr>"

definition create_invoice_response_ok :: "create_invoice_response \<Rightarrow> bool" where
  "create_invoice_response_ok x \<longleftrightarrow>
     list_all valid_utf8 [crInvoiceID x, crPageURL x, crAppURL x]"

lemmas create_invoice_response_defs = create_invoice_response_fields_def create_invoice_response_zero_def create_invoice_response_ok_def

interpretation create_invoice_response: dto create_invoice_response_fields create_invoice_response_zero create_invoice_response_ok 1
proof
  show "refills create_invoice_response_fields create_invoice_response_zero x" if "create_invoice_response_ok x" for x
    using that by (cases x) (rule refillsI, simp_all add: create_invoice_response_defs codec)
  show "json_ok d (encode_struct create_invoice_response_fields x)" if "create_invoice_response_ok x" and "1 \<le> d" for d x
    using that by (intro json_ok_struct) (auto simp: create_invoice_response_defs codec)
qed simp

record cancel_item =
  ctName :: string
  ctQty :: f64
  ctSum :: int
  ctCode :: string
  ctBarcode :: string
  ctHeader :: string
  ctFooter :: string
  ctTax :: "int list"
  ctUKTZED :: string

definition cancel_item_fields :: "float_format \<Rightarrow> cancel_item field list" where
  "cancel_item_fields ff =
     [str_f ''name'' ctName ctName_update, float_f ff ''qty'' ctQty ctQty_update, int_f ''sum'' ctSum ctSum_update,
      str_f ''code'' ctCode ctCode_update, str_o ''barcode'' ctBarcode ctBarcode_update,
      str_o ''header'' ctHeader ctHeader_update, str_o ''footer'' ctFooter ctFooter_update,
      ints_o ''tax'' ctTax ctTax_update, str_o ''uktzed'' ctUKTZED ctUKTZED_update]"

definition cancel_item_zero :: cancel_item where
  "cancel_item_zero = \<lparr>ctName = [], ctQty = Fin 0, ctSum = 0, ctCode = [], ctBarcode = [], ctHeader = [], ctFooter = [], ctTax = [],
     ctUKTZED = []\<rparr>"

definition cancel_item_ok :: "float_format \<Rightarrow> cancel_item \<Rightarrow> bool" where
  "cancel_item_ok ff x \<longleftrightarrow>
     list_all valid_utf8 [ctName x, ctCode x, ctBarcode x, ctHeader x, ctFooter x, ctUKTZED x] \<and>
     in_int64 (ctSum x) \<and> float_ok ff (ctQty x) \<and> list_all in_int64 (ctTax x)"

lemmas cancel_item_defs = cancel_item_fields_def cancel_item_zero_def cancel_item_ok_def

interpretation cancel_item: dto "cancel_item_fields ff" cancel_item_zero "cancel_item_ok ff" 2 for ff
proof
  show "refills (cancel_item_fields ff) cancel_item_zero x" if "cancel_item_ok ff x" for x
    using that by (cases x) (rule refillsI, simp_all add: cancel_item_defs codec)
  show "json_ok d (encode_struct (cancel_item_fields ff) x)" if "cancel_item_ok ff x" and "2 \<le> d" for d x
    using that by (intro json_ok_struct) (auto simp: cancel_item_defs codec)
qed simp

record cancel_request =
  cxInvoiceID :: string
  cxExtRef :: string
  cxAmount :: int
  cxItems :: "cancel_item list"

definition cancel_request_fields :: "float_format \<Rightarrow> cancel_request field list" where
  "cancel_request_fields ff =
     [str_f ''invoiceId'' cxInvoiceID cxInvoiceID_update, str_o ''extRef'' cxExtRef cxExtRef_update,
      int_o ''amount'' cxAmount cxAmount_update,
      structs_o (cancel_item_fields ff) cancel_item_zero ''items'' cxItems cxItems_update]"

definition cancel_request_zero :: cancel_request where
  "cancel_request_zero = \<lparr>cxInvoiceID = [], cxExtRef = [], cxAmount = 0, cxItems = []\<rparr>"

definition cancel_request_ok :: "float_format \<Rightarrow> cancel_request \<Rightarrow> bool" where
  "cancel_request_ok ff x \<longleftrightarrow>
     list_all valid_utf8 [cxInvoiceID x, cxExtRef x] \<and> in_int64 (cxAmount x) \<and>
     list_all (cancel_item_ok ff) (cxItems x)"

lemmas cancel_request_defs = cancel_request_fields_def cancel_request_zero_def cancel_request_ok_def

interpretation cancel_request: dto "cancel_request_fields ff" cancel_request_zero "cancel_request_ok ff" 4 for ff
proof
  show "refills (cancel_request_fields ff) cancel_request_zero x" if "cancel_request_ok ff x" for x
    using that by (cases x) (rule refillsI, simp_all add: cancel_request_defs codec)
  show "json_ok d (encode_struct (cancel_request_fields ff) x)" if "cancel_request_ok ff x" and "4 \<le> d" for d x
    using that by (intro json_ok_struct) (auto simp: cancel_request_defs codec)
qed simp

record cancel_response =
  cyStatus :: string
  cyCreatedDate :: string
  cyModifiedDate :: string

definition cancel_response_fields :: "cancel_response field list" where
  "cancel_response_fields =
     [str_f ''status'' cyStatus cyStatus_update, str_f ''createdDate'' cyCreatedDate cyCreatedDate_update,
      str_f ''modifiedDate'' cyModifiedDate cyModifiedDate_update]"

definition cancel_response_zero :: cancel_response where
  "cancel_response_zero = \<lparr>cyStatus = [], cyCreatedDate = [], cyModifiedDate = []\<rparr>"

definition cancel_response_ok :: "cancel_response \<Rightarrow> bool" where
  "cancel_response_ok x \<longleftrightarrow>
     list_all valid_utf8 [cyStatus x, cyCreatedDate x, cyModifiedDate x]"

lemmas cancel_response_defs = cancel_response_fields_def cancel_response_zero_def cancel_response_ok_def

interpretation cancel_response: dto cancel_response_fields cancel_response_zero cancel_response_ok 1
proof
  show "refills cancel_response_fields cancel_response_zero x" if "cancel_response_ok x" for x
    using that by (cases x) (rule refillsI, simp_all add: cancel_response_defs codec)
  show "json_ok d (encode_struct cancel_response_fields x)" if "cancel_response_ok x" and "1 \<le> d" for d x
    using that by (intro json_ok_struct) (auto simp: cancel_response_defs codec)
qed simp

record finalize_request =
  fzInvoiceID :: string
  fzAmount :: int
  fzItems :: "cancel_item list"

definition finalize_request_fields :: "float_format \<Rightarrow> finalize_request field list" where
  "finalize_request_fields ff =
     [str_f ''invoiceId'' fzInvoiceID fzInvoiceID_update, int_o ''amount'' fzAmount fzAmount_update,
      structs_o (cancel_item_fields ff) cancel_item_zero ''items'' fzItems fzItems_update]"

definition finalize_request_zero :: finalize_request where
  "finalize_request_zero = \<lparr>fzInvoiceID = [], fzAmount = 0, fzItems = []\<rparr>"

definition finalize_request_ok :: "float_format \<Rightarrow> finalize_request \<Rightarrow> bool" where
  "finalize_request_ok ff x \<longleftrightarrow>
     valid_utf8 (fzInvoiceID x) \<and> in_int64 (fzAmount x) \<and> list_all (cancel_item_ok ff) (fzItems x)"

lemmas finalize_request_defs = finalize_request_fields_def finalize_request_zero_def finalize_request_ok_def

interpretation finalize_request: dto "finalize_request_fields ff" finalize_request_zero "finalize_request_ok ff" 4 for ff
proof
  show "refills (finalize_request_fields ff) finalize_request_zero x" if "finalize_request_ok ff x" for x
    using that by (cases x) (rule refillsI, simp_all add: finalize_request_defs codec)
  show "json_ok d (encode_struct (finalize_request_fields ff) x)" if "finalize_request_ok ff x" and "4 \<le> d" for d x
    using that by (intro json_ok_struct) (auto simp: finalize_request_defs codec)
qed simp

record card_data =
  cdPAN :: string
  cdExp :: string
  cdCVV :: string

definition card_data_fields :: "card_data field list" where
  "card_data_fields =
     [str_f ''pan'' cdPAN cdPAN_update, str_f ''exp'' cdExp cdExp_update, str_f ''cvv'' cdCVV cdCVV_update]"

definition card_data_zero :: card_data where
  "card_data_zero = \<lparr>cdPAN = [], cdExp = [], cdCVV = []\<rparr>"

definition card_data_ok :: "card_data \<Rightarrow> bool" where
  "card_data_ok x \<longleftrightarrow>
     list_all valid_utf8 [cdPAN x, cdExp x, cdCVV x]"

lemmas card_data_defs = card_data_fields_def card_data_zero_def card_data_ok_def

interpretation card_data: dto card_data_fields card_data_zero card_data_ok 1
proof
  show "refills card_data_fields card_data_zero x" if "card_data_ok x" for x
    using that by (cases x) (rule refillsI, simp_all add: card_data_defs codec)
  show "json_ok d (encode_struct card_data_fields x)" if "card_data_ok x" and "1 \<le> d" for d x
    using that by (intro json_ok_struct) (auto simp: card_data_defs codec)
qed simp

record payment_direct_request =
  pdAmount :: int
  pdCurrency :: int
  pdCardData :: card_data
  pdMerchantPaymInfo :: "merchant_paym_info option"
  pdWebHookURL :: string
  pdPaymentType :: string
  pdSaveCardData :: "save_card_data option"
  pdRedirectURL :: string
  pdInitiationKind :: string

definition payment_direct_request_fields :: "float_format \<Rightarrow> payment_direct_request field list" where
  "payment_direct_request_fields ff =
     [int_f ''amount'' pdAmount pdAmount_update, int_o ''ccy'' pdCurrency pdCurrency_update,
      struct_f card_data_fields ''cardData'' pdCardData pdCardData_update,
      struct_o (merchant_paym_info_fields ff) merchant_paym_info_zero ''merchantPaymInfo'' pdMerchantPaymInfo pdMerchantPaymInfo_update,
      str_o ''webHookUrl'' pdWebHookURL pdWebHookURL_update, str_o ''paymentType'' pdPaymentType pdPaymentType_update,
      struct_o save_card_data_fields save_card_data_zero ''saveCardData'' pdSaveCardData pdSaveCardData_update,
      str_o ''redirectUrl'' pdRedirectURL pdRedirectURL_update,
      str_o ''initiationKind'' pdInitiationKind pdInitiationKind_update]"

definition payment_direct_request_zero :: payment_direct_request where
  "payment_direct_request_zero = \<lparr>pdAmount = 0, pdCurrency = 0, pdCardData = card_data_zero, pdMerchantPaymInfo = None, pdWebHookURL = [],
     pdPaymentType = [], pdSaveCardData = None, pdRedirectURL = [], pdInitiationKind = []\<rparr>"

definition payment_direct_request_ok :: "float_format \<Rightarrow> payment_direct_request \<Rightarrow> bool" where
  "payment_direct_request_ok ff x \<longleftrightarrow>
     list_all valid_utf8 [pdWebHookURL x, pdPaymentType x, pdRedirectURL x, pdInitiationKind x] \<and>
     list_all in_int64 [pdAmount x, pdCurrency x] \<and> card_data_ok (pdCardData x) \<and>
     pred_option (merchant_paym_info_ok ff) (pdMerchantPaymInfo x) \<and>
     pred_option save_card_data_ok (pdSaveCardData x)"

lemmas payment_direct_request_defs = payment_direct_request_fields_def payment_direct_request_zero_def payment_direct_request_ok_def

interpretation payment_direct_request: dto "payment_direct_request_fields ff" payment_direct_request_zero "payment_direct_request_ok ff" 7 for ff
proof
  show "refills (payment_direct_request_fields ff) payment_direct_request_zero x" if "payment_direct_request_ok ff x" for x
    using that by (cases x) (rule refillsI, simp_all add: payment_direct_request_defs codec)
  show "json_ok d (encode_struct (payment_direct_request_fields ff) x)" if "payment_direct_request_ok ff x" and "7 \<le> d" for d x
    using that by (intro json_ok_struct) (auto simp: payment_direct_request_defs codec)
qed simp

record sync_card_data =
  syPAN :: string
  syType :: string
  syExp :: string
  syCVV :: string
  syEciIndicator :: string
  syCavv :: string
  syTavv :: string
  syDsTranID :: string
  syTReqID :: string
  syMit :: string
  sySst :: f64
  syTid :: string

definition sync_card_data_fields :: "float_format \<Rightarrow> sync_card_data field list" where
  "sync_card_data_fields ff =
     [str_f ''pan'' syPAN syPAN_update, str_f ''type'' syType syType_update, str_f ''exp'' syExp syExp_update,
      str_o ''cvv'' syCVV syCVV_update, str_f ''eciIndicator'' syEciIndicator syEciIndicator_update,
      str_o ''cavv'' syCavv syCavv_update, str_o ''tavv'' syTavv syTavv_update,
      str_o ''dsTranId'' syDsTranID syDsTranID_update, str_o ''tReqID'' syTReqID syTReqID_update,
      str_o ''mit'' syMit syMit_update, float_o ff ''sst'' sySst sySst_update, str_o ''tid'' syTid syTid_update]"

definition sync_card_data_zero :: sync_card_data where
  "sync_card_data_zero = \<lparr>syPAN = [], syType = [], syExp = [], syCVV = [], syEciIndicator = [], syCavv = [], syTavv = [], syDsTranID = [],
     syTReqID = [], syMit = [], sySst = Fin 0, syTid = []\<rparr>"

definition sync_card_data_ok :: "float_format \<Rightarrow> sync_card_data \<Rightarrow> bool" where
  "sync_card_data_ok ff x \<longleftrightarrow>
     list_all valid_utf8 [syPAN x, syType x, syExp x, syCVV x, syEciIndicator x, syCavv x, syTavv x, syDsTranID x, syTReqID x, syMit x,
       syTid x] \<and>
     float_ok ff (sySst x)"

lemmas sync_card_data_defs = sync_card_data_fields_def sync_card_data_zero_def sync_card_data_ok_def

interpretation sync_card_data: dto "sync_card_data_fields ff" sync_card_data_zero "sync_card_data_ok ff" 1 for ff
proof
  show "refills (sync_card_data_fields ff) sync_card_data_zero x" if "sync_card_data_ok ff x" for x
    using that by (cases x) (rule refillsI, simp_all add: sync_card_data_defs codec)
  show "json_ok d (encode_struct (sync_card_data_fields ff) x)" if "sync_card_data_ok ff x" and "1 \<le> d" for d x
    using that by (intro json_ok_struct) (auto simp: sync_card_data_defs codec)
qed simp

record apple_pay_payload =
  apToken :: string
  apExp :: string
  apEciIndicator :: string
  apCryptogram :: string

definition apple_pay_payload_fields :: "apple_pay_payload field list" where
  "apple_pay_payload_fields =
     [str_f ''token'' apToken apToken_update, str_f ''exp'' apExp apExp_update,
      str_f ''eciIndicator'' apEciIndicator apEciIndicator_update,
      str_o ''cryptogram'' apCryptogram apCryptogram_update]"

definition apple_pay_payload_zero :: apple_pay_payload where
  "apple_pay_payload_zero = \<lparr>apToken = [], apExp = [], apEciIndicator = [], apCryptogram = []\<rparr>"

definition apple_pay_payload_ok :: "apple_pay_payload \<Rightarrow> bool" where
  "apple_pay_payload_ok x \<longleftrightarrow>
     list_all valid_utf8 [apToken x, apExp x, apEciIndicator x, apCryptogram x]"

lemmas apple_pay_payload_defs = apple_pay_payload_fields_def apple_pay_payload_zero_def apple_pay_payload_ok_def

interpretation apple_pay_payload: dto apple_pay_payload_fields apple_pay_payload_zero apple_pay_payload_ok 1
proof
  show "refills apple_pay_payload_fields apple_pay_payload_zero x" if "apple_pay_payload_ok x" for x
    using that by (cases x) (rule refillsI, simp_all add: apple_pay_payload_defs codec)
  show "json_ok d (encode_struct apple_pay_payload_fields x)" if "apple_pay_payload_ok x" and "1 \<le> d" for d x
    using that by (intro json_ok_struct) (auto simp: apple_pay_payload_defs codec)
qed simp

record google_pay_payload =
  gpToken :: string
  gpExp :: string
  gpEciIndicator :: string
  gpCryptogram :: string

definition google_pay_payload_fields :: "google_pay_payload field list" where
  "google_pay_payload_fields =
     [str_f ''token'' gpToken gpToken_update, str_f ''exp'' gpExp gpExp_update,
      str_f ''eciIndicator'' gpEciIndicator gpEciIndicator_update,
      str_o ''cryptogram'' gpCryptogram gpCryptogram_update]"

definition google_pay_payload_zero :: google_pay_payload where
  "google_pay_payload_zero = \<lparr>gpToken = [], gpExp = [], gpEciIndicator = [], gpCryptogram = []\<rparr>"

definition google_pay_payload_ok :: "google_pay_payload \<Rightarrow> bool" where
  "google_pay_payload_ok x \<longleftrightarrow>
     list_all valid_utf8 [gpToken x, gpExp x, gpEciIndicator x, gpCryptogram x]"

lemmas google_pay_payload_defs = google_pay_payload_fields_def google_pay_payload_zero_def google_pay_payload_ok_def

interpretation google_pay_payload: dto google_pay_payload_fields google_pay_payload_zero google_pay_payload_ok 1
proof
  show "refills google_pay_payload_fields google_pay_payload_zero x" if "google_pay_payload_ok x" for x
    using that by (cases x) (rule refillsI, simp_all add: google_pay_payload_defs codec)
  show "json_ok d (encode_struct google_pay_payload_fields x)" if "google_pay_payload_ok x" and "1 \<le> d" for d x
    using that by (intro json_ok_struct) (auto simp: google_pay_payload_defs codec)
qed simp

record sync_payment_request =
  spAmount :: int
  spCurrency :: int
  spMerchantPaymInfo :: "merchant_paym_info option"
  spCardData :: "sync_card_data option"
  spApplePay :: "apple_pay_payload option"
  spGooglePay :: "google_pay_payload option"

definition sync_payment_request_fields :: "float_format \<Rightarrow> sync_payment_request field list" where
  "sync_payment_request_fields ff =
     [int_f ''amount'' spAmount spAmount_update, int_f ''ccy'' spCurrency spCurrency_update,
      struct_o (merchant_paym_info_fields ff) merchant_paym_info_zero ''merchantPaymInfo'' spMerchantPaymInfo spMerchantPaymInfo_update,
      struct_o (sync_card_data_fields ff) sync_card_data_zero ''cardData'' spCardData spCardData_update,
      struct_o apple_pay_payload_fields apple_pay_payload_zero ''applePay'' spApplePay spApplePay_update,
      struct_o google_pay_payload_fields google_pay_payload_zero ''googlePay'' spGooglePay spGooglePay_update]"

definition sync_payment_request_zero :: sync_payment_request where
  "sync_payment_request_zero = \<lparr>spAmount = 0, spCurrency = 0, spMerchantPaymInfo = None, spCardData = None, spApplePay = None, spGooglePay = None\<rparr>"

definition sync_payment_request_ok :: "float_format \<Rightarrow> sync_payment_request \<Rightarrow> bool" where
  "sync_payment_request_ok ff x \<longleftrightarrow>
     list_all in_int64 [spAmount x, spCurrency x] \<and> pred_option (merchant_paym_info_ok ff) (spMerchantPaymInfo x) \<and>
     pred_option (sync_card_data_ok ff) (spCardData x) \<and> pred_option apple_pay_payload_ok (spApplePay x) \<and>
     pred_option google_pay_payload_ok (spGooglePay x)"

lemmas sync_payment_request_defs = sync_payment_request_fields_def sync_payment_request_zero_def sync_payment_request_ok_def

interpretation sync_payment_request: dto "sync_payment_request_fields ff" sync_payment_request_zero "sync_payment_request_ok ff" 7 for ff
proof
  show "refills (sync_payment_request_fields ff) sync_payment_request_zero x" if "sync_payment_request_ok ff x" for x
    using that by (cases x) (rule refillsI, simp_all add: sync_payment_request_defs codec)
  show "json_ok d (encode_struct (sync_payment_request_fields ff) x)" if "sync_payment_request_ok ff x" and "7 \<le> d" for d x
    using that by (intro json_ok_struct) (auto simp: sync_payment_request_defs codec)
qed simp

record wallet_payment_request =
  wpCardToken :: string
  wpAmount :: int
  wpCurrency :: int
  wpRedirectURL :: string
  wpWebHookURL :: string
  wpInitiationKind :: string
  wpMerchantPaymInfo :: "merchant_paym_info option"
  wpPaymentType :: string

definition wallet_payment_request_fields :: "float_format \<Rightarrow> wallet_payment_request field list" where
  "wallet_payment_request_fields ff =
     [str_f ''cardToken'' wpCardToken wpCardToken_update, int_f ''amount'' wpAmount wpAmount_update,
      int_f ''ccy'' wpCurrency wpCurrency_update, str_o ''redirectUrl'' wpRedirectURL wpRedirectURL_update,
      str_o ''webHookUrl'' wpWebHookURL wpWebHookURL_update,
      str_f ''initiationKind'' wpInitiationKind wpInitiationKind_update,
      struct_o (merchant_paym_info_fields ff) merchant_paym_info_zero ''merchantPaymInfo'' wpMerchantPaymInfo wpMerchantPaymInfo_update,
      str_o ''paymentType'' wpPaymentType wpPaymentType_update]"

definition wallet_payment_request_zero :: wallet_payment_request where
  "wallet_payment_request_zero = \<lparr>wpCardToken = [], wpAmount = 0, wpCurrency = 0, wpRedirectURL = [], wpWebHookURL = [], wpInitiationKind = [],
     wpMerchantPaymInfo = None, wpPaymentType = []\<rparr>"

definition wallet_payment_request_ok :: "float_format \<Rightarrow> wallet_payment_request \<Rightarrow> bool" where
  "wallet_payment_request_ok ff x \<longleftrightarrow>
     list_all valid_utf8 [wpCardToken x, wpRedirectURL x, wpWebHookURL x, wpInitiationKind x, wpPaymentType x] \<and>
     list_all in_int64 [wpAmount x, wpCurrency x] \<and> pred_option (merchant_paym_info_ok ff) (wpMerchantPaymInfo x)"

lemmas wallet_payment_request_defs = wallet_payment_request_fields_def wallet_payment_request_zero_def wallet_payment_request_ok_def

interpretation wallet_payment_request: dto "wallet_payment_request_fields ff" wallet_payment_request_zero "wallet_payment_request_ok ff" 7 for ff
proof
  show "refills (wallet_payment_request_fields ff) wallet_payment_request_zero x" if "wallet_payment_request_ok ff x" for x
    using that by (cases x) (rule refillsI, simp_all add: wallet_payment_request_defs codec)
  show "json_ok d (encode_struct (wallet_payment_request_fields ff) x)" if "wallet_payment_request_ok ff x" and "7 \<le> d" for d x
    using that by (intro json_ok_struct) (auto simp: wallet_payment_request_defs codec)
qed simp

record subscription_webhook_urls =
  suChargeURL :: string
  suStatusURL :: string

definition subscription_webhook_urls_fields :: "subscription_webhook_urls field list" where
  "subscription_webhook_urls_fields =
     [str_o ''chargeUrl'' suChargeURL suChargeURL_update, str_o ''statusUrl'' suStatusURL suStatusURL_update]"

definition subscription_webhook_urls_zero :: subscription_webhook_urls where
  "subscription_webhook_urls_zero = \<lparr>suChargeURL = [], suStatusURL = []\<rparr>"

definition subscription_webhook_urls_ok :: "subscription_webhook_urls \<Rightarrow> bool" where
  "subscription_webhook_urls_ok x \<longleftrightarrow>
     list_all valid_utf8 [suChargeURL x, suStatusURL x]"

lemmas subscription_webhook_urls_defs = subscription_webhook_urls_fields_def subscription_webhook_urls_zero_def subscription_webhook_urls_ok_def

interpretation subscription_webhook_urls: dto subscription_webhook_urls_fields subscription_webhook_urls_zero subscription_webhook_urls_ok 1
proof
  show "refills subscription_webhook_urls_fields subscription_webhook_urls_zero x" if "subscription_webhook_urls_ok x" for x
    using that by (cases x) (rule refillsI, simp_all add: subscription_webhook_urls_defs codec)
  show "json_ok d (encode_struct subscription_webhook_urls_fields x)" if "subscription_webhook_urls_ok x" and "1 \<le> d" for d x
    using that by (intro json_ok_struct) (auto simp: subscription_webhook_urls_defs codec)
qed simp

record subscription_create_request =
  scAmount :: int
  scCurrency :: int
  scRedirectURL :: string
  scWebHookURLs :: "subscription_webhook_urls option"
  scInterval :: string
  scValidity :: int

definition subscription_create_request_fields :: "subscription_create_request field list" where
  "subscription_create_request_fields =
     [int_f ''amount'' scAmount scAmount_update, int_o ''ccy'' scCurrency scCurrency_update,
      str_o ''redirectUrl'' scRedirectURL scRedirectURL_update,
      struct_o subscription_webhook_urls_fields subscription_webhook_urls_zero ''webHookUrls'' scWebHookURLs scWebHookURLs_update,
      str_f ''interval'' scInterval scInterval_update, int_o ''validity'' scValidity scValidity_update]"

definition subscription_create_request_zero :: subscription_create_request where
  "subscription_create_request_zero = \<lparr>scAmount = 0, scCurrency = 0, scRedirectURL = [], scWebHookURLs = None, scInterval = [], scValidity = 0\<rparr>"

definition subscription_create_request_ok :: "subscription_create_request \<Rightarrow> bool" where
  "subscription_create_request_ok x \<longleftrightarrow>
     list_all valid_utf8 [scRedirectURL x, scInterval x] \<and>
     list_all in_int64 [scAmount x, scCurrency x, scValidity x] \<and>
     pred_option subscription_webhook_urls_ok (scWebHookURLs x)"

lemmas subscription_create_request_defs = subscription_create_request_fields_def subscription_create_request_zero_def subscription_create_request_ok_def

interpretation subscription_create_request: dto subscription_create_request_fields subscription_create_request_zero subscription_create_request_ok 2
proof
  show "refills subscription_create_request_fields subscription_create_request_zero x" if "subscription_create_request_ok x" for x
    using that by (cases x) (rule refillsI, simp_all add: subscription_create_request_defs codec)
  show "json_ok d (encode_struct subscription_create_request_fields x)" if "subscription_create_request_ok x" and "2 \<le> d" for d x
    using that by (intro json_ok_struct) (auto simp: subscription_create_request_defs codec)
qed simp

record subscription_create_response =
  srSubscriptionID :: string
  srPageURL :: string

definition subscription_create_response_fields :: "subscription_create_response field list" where
  "subscription_create_response_fields =
     [str_f ''subscriptionId'' srSubscriptionID srSubscriptionID_update, str_f ''pageUrl'' srPageURL srPageURL_update]"

definition subscription_create_response_zero :: subscription_create_response where
  "subscription_create_response_zero = \<lparr>srSubscriptionID = [], srPageURL = []\<rparr>"

definition subscription_create_response_ok :: "subscription_create_response \<Rightarrow> bool" where
  "subscription_create_response_ok x \<longleftrightarrow>
     list_all valid_utf8 [srSubscriptionID x, srPageURL x]"

lemmas subscription_create_response_defs = subscription_create_response_fields_def subscription_create_response_zero_def subscription_create_response_ok_def

interpretation subscription_create_response: dto subscription_create_response_fields subscription_create_response_zero subscription_create_response_ok 1
proof
  show "refills subscription_create_response_fields subscription_create_response_zero x" if "subscription_create_response_ok x" for x
    using that by (cases x) (rule refillsI, simp_all add: subscription_create_response_defs codec)
  show "json_ok d (encode_struct subscription_create_response_fields x)" if "subscription_create_response_ok x" and "1 \<le> d" for d x
    using that by (intro json_ok_struct) (auto simp: subscription_create_response_defs codec)
qed simp

record subscription_edit_request =
  seSubscriptionID :: string
  seAction :: string
  seRefundAmount :: int

definition subscription_edit_request_fields :: "subscription_edit_request field list" where
  "subscription_edit_request_fields =
     [str_f ''subscriptionId'' seSubscriptionID seSubscriptionID_update, str_f ''action'' seAction seAction_update,
      int_o ''refundAmount'' seRefundAmount seRefundAmount_update]"

definition subscription_edit_request_zero :: subscription_edit_request where
  "subscription_edit_request_zero = \<lparr>seSubscriptionID = [], seAction = [], seRefundAmount = 0\<rparr>"

definition subscription_edit_request_ok :: "subscription_edit_request \<Rightarrow> bool" where
  "subscription_edit_request_ok x \<longleftrightarrow>
     list_all valid_utf8 [seSubscriptionID x, seAction x] \<and> in_int64 (seRefundAmount x)"

lemmas subscription_edit_request_defs = subscription_edit_request_fields_def subscription_edit_request_zero_def subscription_edit_request_ok_def

interpretation subscription_edit_request: dto subscription_edit_request_fields subscription_edit_request_zero subscription_edit_request_ok 1
proof
  show "refills subscription_edit_request_fields subscription_edit_request_zero x" if "subscription_edit_request_ok x" for x
    using that by (cases x) (rule refillsI, simp_all add: subscription_edit_request_defs codec)
  show "json_ok d (encode_struct subscription_edit_request_fields x)" if "subscription_edit_request_ok x" and "1 \<le> d" for d x
    using that by (intro json_ok_struct) (auto simp: subscription_edit_request_defs codec)
qed simp

record monopay_key_import_request =
  mkKeyValue :: string
  mkKeyName :: string
  mkExpiresAt :: string

definition monopay_key_import_request_fields :: "monopay_key_import_request field list" where
  "monopay_key_import_request_fields =
     [str_f ''keyValue'' mkKeyValue mkKeyValue_update, str_o ''keyName'' mkKeyName mkKeyName_update,
      str_o ''expiresAt'' mkExpiresAt mkExpiresAt_update]"

definition monopay_key_import_request_zero :: monopay_key_import_request where
  "monopay_key_import_request_zero = \<lparr>mkKeyValue = [], mkKeyName = [], mkExpiresAt = []\<rparr>"

definition monopay_key_import_request_ok :: "monopay_key_import_request \<Rightarrow> bool" where
  "monopay_key_import_request_ok x \<longleftrightarrow>
     list_all valid_utf8 [mkKeyValue x, mkKeyName x, mkExpiresAt x]"

lemmas monopay_key_import_request_defs = monopay_key_import_request_fields_def monopay_key_import_request_zero_def monopay_key_import_request_ok_def

interpretation monopay_key_import_request: dto monopay_key_import_request_fields monopay_key_import_request_zero monopay_key_import_request_ok 1
proof
  show "refills monopay_key_import_request_fields monopay_key_import_request_zero x" if "monopay_key_import_request_ok x" for x
    using that by (cases x) (rule refillsI, simp_all add: monopay_key_import_request_defs codec)
  show "json_ok d (encode_struct monopay_key_import_request_fields x)" if "monopay_key_import_request_ok x" and "1 \<le> d" for d x
    using that by (intro json_ok_struct) (auto simp: monopay_key_import_request_defs codec)
qed simp

definition pos_cancel_request_fields :: "pos_cancel_request field list" where
  "pos_cancel_request_fields =
     [str_f ''rrn'' RRN RRN_update, int_f ''amount'' posAmount posAmount_update]"

definition pos_cancel_request_zero :: pos_cancel_request where
  "pos_cancel_request_zero = \<lparr>RRN = [], posAmount = 0\<rparr>"

definition pos_cancel_request_ok :: "pos_cancel_request \<Rightarrow> bool" where
  "pos_cancel_request_ok x \<longleftrightarrow>
     valid_utf8 (RRN x) \<and> in_int64 (posAmount x)"

lemmas pos_cancel_request_defs = pos_cancel_request_fields_def pos_cancel_request_zero_def pos_cancel_request_ok_def

interpretation pos_cancel_request: dto pos_cancel_request_fields pos_cancel_request_zero pos_cancel_request_ok 1
proof
  show "refills pos_cancel_request_fields pos_cancel_request_zero x" if "pos_cancel_request_ok x" for x
    using that by (cases x) (rule refillsI, simp_all add: pos_cancel_request_defs codec)
  show "json_ok d (encode_struct pos_cancel_request_fields x)" if "pos_cancel_request_ok x" and "1 \<le> d" for d x
    using that by (intro json_ok_struct) (auto simp: pos_cancel_request_defs codec)
qed simp


end
