(* ===== verification/Json_Money.thy ===== *)
theory Json_Money
  imports Json_Exchange Money
begin

text \<open>
  Amounts and times on the wire: \<open>money.Money\<close> is the number of minor units, to which a response type adds the
  currency code that travels beside it, and \<open>epoch.Seconds\<close> is a time.
\<close>

section \<open>Amounts\<close>

definition money_of :: "json \<Rightarrow> money \<Rightarrow> money option" where
  \<comment> \<open>\<open>money.Money.UnmarshalJSON\<close>, which reads an \<open>int64\<close>\<close>
  "money_of j m = (case j of
      JNull \<Rightarrow> Some (m\<lparr>Minor := 0\<rparr>)
    | JNum s \<Rightarrow> map_option (\<lambda>n. m\<lparr>Minor := n\<rparr>) (Atoi s)
    | _ \<Rightarrow> None)"

definition money_f where "money_f = custom_f (\<lambda>m. JNum (Itoa (Minor m))) money_of"

lemma refill_money [codec]:
  "in_int64 (Minor (get r)) \<Longrightarrow>
   refill (money_f n get upd # fs) r z = refill fs r (upd (\<lambda>_. (get z)\<lparr>Minor := Minor (get r)\<rparr>) z)"
  by (simp add: money_f_def custom_f_def refill.simps(2) money_of_def Atoi_Itoa)

lemma money_name [codec]: "fst (money_f n get upd) = n"
  by (simp add: money_f_def codec)

lemma field_ok_money [codec]: "ascii n \<Longrightarrow> field_ok d r (money_f n get upd)"
  by (simp add: money_f_def codec Itoa_number)

lemma money_eqI: "Code m = c \<Longrightarrow> \<lparr>Minor = Minor m, Code = c\<rparr> = m"
  by (cases m) simp

section \<open>Times\<close>

text \<open>\<open>epoch.Seconds\<close> is not part of the repository: its codec is a parameter.\<close>

record seconds_codec =
  EncSeconds :: "int \<Rightarrow> json"
  DecSeconds :: "json \<Rightarrow> int option"

definition seconds_ok :: "seconds_codec \<Rightarrow> int \<Rightarrow> bool" where
  \<comment> \<open>a time whose JSON is a literal that is read back as that time\<close>
  "seconds_ok ep t \<longleftrightarrow> json_ok 0 (EncSeconds ep t) \<and> DecSeconds ep (EncSeconds ep t) = Some t"

definition seconds_f where "seconds_f ep = custom_f (EncSeconds ep) (\<lambda>j _. DecSeconds ep j)"

lemma seconds_codec [codec]:
  "seconds_ok ep (get r) \<Longrightarrow> refill (seconds_f ep n get upd # fs) r z = refill fs r (upd (\<lambda>_. get r) z)"
  "fst (seconds_f ep n gt ut) = n"
  "ascii n \<Longrightarrow> seconds_ok ep (get r) \<Longrightarrow> field_ok d r (seconds_f ep n get upd)"
  using json_ok_mono [of 0 "EncSeconds ep (get r)" d]
  by (simp_all add: seconds_f_def refill_custom field_names field_ok_custom seconds_ok_def)

end
