(* ===== verification/Acquiring_Responses.thy ===== *)
theory Acquiring_Responses
  imports Acquiring_Types Acquiring_Reconcile Json_Money
begin

text \<open>
  What the acquiring API answers (\<open>acquiring/types.go\<close>, \<open>subscription.go\<close>, \<open>terminal.go\<close> and others): the response
  structs with their tags. An amount travels as a bare number of minor units beside a currency code;
  \<open>UnmarshalJSON\<close> puts the code on every amount. \<open>X_of\<close> is the decoding of a value of the type \<open>X\<close> with its
  \<open>UnmarshalJSON\<close>, and for a value whose amounts carry the codes they were sent with it inverts the encoding.
\<close>

section \<open>Responses\<close>

record merchant_details =
  mdMerchantID :: string
  mdMerchantName :: string
  mdEDRPOU :: string

definition merchant_details_fields :: "merchant_details field list" where
  "merchant_details_fields =
     [str_f ''merchantId'' mdMerchantID mdMerchantID_update,
      str_f ''merchantName'' mdMerchantName mdMerchantName_update, str_f ''edrpou'' mdEDRPOU mdEDRPOU_update]"

definition merchant_details_zero :: merchant_details where
  "merchant_details_zero = \<lparr>mdMerchantID = [], mdMerchantName = [], mdEDRPOU = []\<rparr>"

definition merchant_details_ok :: "merchant_details \<Rightarrow> bool" where
  "merchant_details_ok x \<longleftrightarrow>
     list_all valid_utf8 [mdMerchantID x, mdMerchantName x, mdEDRPOU x]"

lemmas merchant_details_defs = merchant_details_fields_def merchant_details_zero_def merchant_details_ok_def

interpretation merchant_details: dto merchant_details_fields merchant_details_zero merchant_details_ok 1
proof
  show "refills merchant_details_fields merchant_details_zero x" if "merchant_details_ok x" for x
    using that by (cases x) (rule refillsI, simp_all add: merchant_details_defs codec)
  show "json_ok d (encode_struct merchant_details_fields x)" if "merchant_details_ok x" and "1 \<le> d" for d x
    using that by (intro json_ok_struct) (auto simp: merchant_details_defs codec)
qed simp

record employee =
  emID :: string
  emName :: string
  emExtRef :: string

definition employee_fields :: "employee field list" where
  "employee_fields =
     [str_f ''id'' emID emID_update, str_f ''name'' emName emName_update, str_f ''extRef'' emExtRef emExtRef_update]"

definition employee_zero :: employee where
  "employee_zero = \<lparr>emID = [], emName = [], emExtRef = []\<rparr>"

definition employee_ok :: "employee \<Rightarrow> bool" where
  "employee_ok x \<longleftrightarrow>
     list_all valid_utf8 [emID x, emName x, emExtRef x]"

lemmas employee_defs = employee_fields_def employee_zero_def employee_ok_def

interpretation employee: dto employee_fields employee_zero employee_ok 1
proof
  show "refills employee_fields employee_zero x" if "employee_ok x" for x
    using that by (cases x) (rule refillsI, simp_all add: employee_defs codec)
  show "json_ok d (encode_struct employee_fields x)" if "employee_ok x" and "1 \<le> d" for d x
    using that by (intro json_ok_struct) (auto simp: employee_defs codec)
qed simp

record qr_code =
  qrShortQrID :: string
  qrQrID :: string
  qrAmountType :: string
  qrPageURL :: string

definition qr_code_fields :: "qr_code field list" where
  "qr_code_fields =
     [str_f ''shortQrId'' qrShortQrID qrShortQrID_update, str_f ''qrId'' qrQrID qrQrID_update,
      str_f ''amountType'' qrAmountType qrAmountType_update, str_f ''pageUrl'' qrPageURL qrPageURL_update]"

definition qr_code_zero :: qr_code where
  "qr_code_zero = \<lparr>qrShortQrID = [], qrQrID = [], qrAmountType = [], qrPageURL = []\<rparr>"

definition qr_code_ok :: "qr_code \<Rightarrow> bool" where
  "qr_code_ok x \<longleftrightarrow>
     list_all valid_utf8 [qrShortQrID x, qrQrID x, qrAmountType x, qrPageURL x]"

lemmas qr_code_defs = qr_code_fields_def qr_code_zero_def qr_code_ok_def

interpretation qr_code: dto qr_code_fields qr_code_zero qr_code_ok 1
proof
  show "refills qr_code_fields qr_code_zero x" if "qr_code_ok x" for x
    using that by (cases x) (rule refillsI, simp_all add: qr_code_defs codec)
  show "json_ok d (encode_struct qr_code_fields x)" if "qr_code_ok x" and "1 \<le> d" for d x
    using that by (intro json_ok_struct) (auto simp: qr_code_defs codec)
qed simp

record qr_details =
  qdShortQrID :: string
  qdInvoiceID :: string
  qdAmount :: money
  qdCurrency :: int

definition qr_details_fields :: "qr_details field list" where
  "qr_details_fields =
     [str_f ''shortQrId'' qdShortQrID qdShortQrID_update, str_o ''invoiceId'' qdInvoiceID qdInvoiceID_update,
      money_f ''amount'' qdAmount qdAmount_update, int_o ''ccy'' qdCurrency qdCurrency_update]"

definition qr_details_zero :: qr_details where
  "qr_details_zero = \<lparr>qdShortQrID = [], qdInvoiceID = [], qdAmount = Money_New 0 0, qdCurrency = 0\<rparr>"

definition qr_details_ok :: "qr_details \<Rightarrow> bool" where
  "qr_details_ok x \<longleftrightarrow>
     list_all valid_utf8 [qdShortQrID x, qdInvoiceID x] \<and> in_int64 (qdCurrency x) \<and>
     in_int64 (Minor (qdAmount x))"

lemmas qr_details_defs = qr_details_fields_def qr_details_zero_def qr_details_ok_def

record submerchant =
  smCode :: string
  smEDRPOU :: string
  smIBAN :: string
  smOwner :: string

definition submerchant_fields :: "submerchant field list" where
  "submerchant_fields =
     [str_f ''code'' smCode smCode_update, str_o ''edrpou'' smEDRPOU smEDRPOU_update,
      str_f ''iban'' smIBAN smIBAN_update, str_o ''owner'' smOwner smOwner_update]"

definition submerchant_zero :: submerchant where
  "submerchant_zero = \<lparr>smCode = [], smEDRPOU = [], smIBAN = [], smOwner = []\<rparr>"

definition submerchant_ok :: "submerchant \<Rightarrow> bool" where
  "submerchant_ok x \<longleftrightarrow>
     list_all valid_utf8 [smCode x, smEDRPOU x, smIBAN x, smOwner x]"

lemmas submerchant_defs = submerchant_fields_def submerchant_zero_def submerchant_ok_def

interpretation submerchant: dto submerchant_fields submerchant_zero submerchant_ok 1
proof
  show "refills submerchant_fields submerchant_zero x" if "submerchant_ok x" for x
    using that by (cases x) (rule refillsI, simp_all add: submerchant_defs codec)
  show "json_ok d (encode_struct submerchant_fields x)" if "submerchant_ok x" and "1 \<le> d" for d x
    using that by (intro json_ok_struct) (auto simp: submerchant_defs codec)
qed simp

record fiscal_check =
  fcID :: string
  fcType :: string
  fcStatus :: string
  fcStatusDescription :: string
  fcTaxURL :: string
  fcFile :: string
  fcFiscalizationSource :: string

definition fiscal_check_fields :: "fiscal_check field list" where
  "fiscal_check_fields =
     [str_f ''id'' fcID fcID_update, str_f ''type'' fcType fcType_update, str_f ''status'' fcStatus fcStatus_update,
      str_o ''statusDescription'' fcStatusDescription fcStatusDescription_update,
      str_o ''taxUrl'' fcTaxURL fcTaxURL_update, str_o ''file'' fcFile fcFile_update,
      str_f ''fiscalizationSource'' fcFiscalizationSource fcFiscalizationSource_update]"

definition fiscal_check_zero :: fiscal_check where
  "fiscal_check_zero = \<lparr>fcID = [], fcType = [], fcStatus = [], fcStatusDescription = [], fcTaxURL = [], fcFile = [],
     fcFiscalizationSource = []\<rparr>"

definition fiscal_check_ok :: "fiscal_check \<Rightarrow> bool" where
  "fiscal_check_ok x \<longleftrightarrow>
     list_all valid_utf8 [fcID x, fcType x, fcStatus x, fcStatusDescription x, fcTaxURL x, fcFile x, fcFiscalizationSource x]"

lemmas fiscal_check_defs = fiscal_check_fields_def fiscal_check_zero_def fiscal_check_ok_def

interpretation fiscal_check: dto fiscal_check_fields fiscal_check_zero fiscal_check_ok 1
proof
  show "refills fiscal_check_fields fiscal_check_zero x" if "fiscal_check_ok x" for x
    using that by (cases x) (rule refillsI, simp_all add: fiscal_check_defs codec)
  show "json_ok d (encode_struct fiscal_check_fields x)" if "fiscal_check_ok x" and "1 \<le> d" for d x
    using that by (intro json_ok_struct) (auto simp: fiscal_check_defs codec)
qed simp

record wallet_card =
  wcCardToken :: string
  wcMaskedPan :: string
  wcCountry :: string

definition wallet_card_fields :: "wallet_card field list" where
  "wallet_card_fields =
     [str_f ''cardToken'' wcCardToken wcCardToken_update, str_f ''maskedPan'' wcMaskedPan wcMaskedPan_update,
      str_o ''country'' wcCountry wcCountry_update]"

definition wallet_card_zero :: wallet_card where
  "wallet_card_zero = \<lparr>wcCardToken = [], wcMaskedPan = [], wcCountry = []\<rparr>"

definition wallet_card_ok :: "wallet_card \<Rightarrow> bool" where
  "wallet_card_ok x \<longleftrightarrow>
     list_all valid_utf8 [wcCardToken x, wcMaskedPan x, wcCountry x]"

lemmas wallet_card_defs = wallet_card_fields_def wallet_card_zero_def wallet_card_ok_def

interpretation wallet_card: dto wallet_card_fields wallet_card_zero wallet_card_ok 1
proof
  show "refills wallet_card_fields wallet_card_zero x" if "wallet_card_ok x" for x
    using that by (cases x) (rule refillsI, simp_all add: wallet_card_defs codec)
  show "json_ok d (encode_struct wallet_card_fields x)" if "wallet_card_ok x" and "1 \<le> d" for d x
    using that by (intro json_ok_struct) (auto simp: wallet_card_defs codec)
qed simp

definition wallet_data_fields :: "wallet_data field list" where
  "wallet_data_fields =
     [str_f ''cardToken'' CardToken CardToken_update, str_f ''walletId'' WalletID WalletID_update,
      str_f ''status'' wStatus wStatus_update]"

definition wallet_data_zero :: wallet_data where
  "wallet_data_zero = \<lparr>CardToken = [], WalletID = [], wStatus = []\<rparr>"

definition wallet_data_ok :: "wallet_data \<Rightarrow> bool" where
  "wallet_data_ok x \<longleftrightarrow>
     list_all valid_utf8 [CardToken x, WalletID x, wStatus x]"

lemmas wallet_data_defs = wallet_data_fields_def wallet_data_zero_def wallet_data_ok_def

interpretation wallet_data: dto wallet_data_fields wallet_data_zero wallet_data_ok 1
proof
  show "refills wallet_data_fields wallet_data_zero x" if "wallet_data_ok x" for x
    using that by (cases x) (rule refillsI, simp_all add: wallet_data_defs codec)
  show "json_ok d (encode_struct wallet_data_fields x)" if "wallet_data_ok x" and "1 \<le> d" for d x
    using that by (intro json_ok_struct) (auto simp: wallet_data_defs codec)
qed simp

definition tips_info_fields :: "tips_info field list" where
  "tips_info_fields =
     [str_f ''employeeId'' EmployeeID EmployeeID_update, int_o ''amount'' tAmount tAmount_update]"

definition tips_info_zero :: tips_info where
  "tips_info_zero = \<lparr>EmployeeID = [], tAmount = 0\<rparr>"

definition tips_info_ok :: "tips_info \<Rightarrow> bool" where
  "tips_info_ok x \<longleftrightarrow>
     valid_utf8 (EmployeeID x) \<and> in_int64 (tAmount x)"

lemmas tips_info_defs = tips_info_fields_def tips_info_zero_def tips_info_ok_def

interpretation tips_info: dto tips_info_fields tips_info_zero tips_info_ok 1
proof
  show "refills tips_info_fields tips_info_zero x" if "tips_info_ok x" for x
    using that by (cases x) (rule refillsI, simp_all add: tips_info_defs codec)
  show "json_ok d (encode_struct tips_info_fields x)" if "tips_info_ok x" and "1 \<le> d" for d x
    using that by (intro json_ok_struct) (auto simp: tips_info_defs codec)
qed simp

definition payment_info_fields :: "payment_info field list" where
  "payment_info_fields =
     [str_f ''maskedPan'' piMaskedPan piMaskedPan_update, str_o ''approvalCode'' piApprovalCode piApprovalCode_update,
      str_o ''rrn'' piRRN piRRN_update, str_o ''tranId'' TranID TranID_update,
      str_f ''terminal'' piTerminal piTerminal_update, str_o ''bank'' Bank Bank_update,
      str_f ''paymentSystem'' PaymentSystem PaymentSystem_update,
      str_f ''paymentMethod'' PaymentMethod PaymentMethod_update, money_f ''fee'' Fee Fee_update,
      str_o ''country'' Country Country_update, money_f ''agentFee'' AgentFee AgentFee_update]"

definition payment_info_zero :: payment_info where
  "payment_info_zero = \<lparr>piMaskedPan = [], piApprovalCode = [], piRRN = [], TranID = [], piTerminal = [], Bank = [], PaymentSystem = [],
     PaymentMethod = [], Fee = Money_New 0 0, Country = [], AgentFee = Money_New 0 0\<rparr>"

definition payment_info_ok :: "payment_info \<Rightarrow> bool" where
  "payment_info_ok x \<longleftrightarrow>
     list_all valid_utf8 [piMaskedPan x, piApprovalCode x, piRRN x, TranID x, piTerminal x, Bank x, PaymentSystem x, PaymentMethod x,
       Country x] \<and>
     in_int64 (Minor (Fee x)) \<and> in_int64 (Minor (AgentFee x))"

lemmas payment_info_defs = payment_info_fields_def payment_info_zero_def payment_info_ok_def

definition cancel_op_fields :: "cancel_op field list" where
  "cancel_op_fields =
     [str_f ''status'' coStatus coStatus_update, money_f ''amount'' coAmount coAmount_update,
      int_o ''ccy'' coCurrency coCurrency_update, str_f ''createdDate'' coCreatedDate coCreatedDate_update,
      str_f ''modifiedDate'' coModifiedDate coModifiedDate_update,
      str_o ''approvalCode'' coApprovalCode coApprovalCode_update, str_o ''rrn'' coRRN coRRN_update,
      str_o ''extRef'' coExtRef coExtRef_update]"

definition cancel_op_zero :: cancel_op where
  "cancel_op_zero = \<lparr>coStatus = [], coAmount = Money_New 0 0, coCurrency = 0, coCreatedDate = [], coModifiedDate = [],
     coApprovalCode = [], coRRN = [], coExtRef = []\<rparr>"

definition cancel_op_ok :: "cancel_op \<Rightarrow> bool" where
  "cancel_op_ok x \<longleftrightarrow>
     list_all valid_utf8 [coStatus x, coCreatedDate x, coModifiedDate x, coApprovalCode x, coRRN x, coExtRef x] \<and>
     in_int64 (coCurrency x) \<and> in_int64 (Minor (coAmount x))"

lemmas cancel_op_defs = cancel_op_fields_def cancel_op_zero_def cancel_op_ok_def

record payment_direct_response =
  prInvoiceID :: string
  prTDSUrl :: string
  prStatus :: string
  prFailureReason :: string
  prAmount :: money
  prCurrency :: int
  prCreatedDate :: string
  prModifiedDate :: string

definition payment_direct_response_fields :: "payment_direct_response field list" where
  "payment_direct_response_fields =
     [str_f ''invoiceId'' prInvoiceID prInvoiceID_update, str_o ''tdsUrl'' prTDSUrl prTDSUrl_update,
      str_f ''status'' prStatus prStatus_update, str_o ''failureReason'' prFailureReason prFailureReason_update,
      money_f ''amount'' prAmount prAmount_update, int_f ''ccy'' prCurrency prCurrency_update,
      str_f ''createdDate'' prCreatedDate prCreatedDate_update,
      str_f ''modifiedDate'' prModifiedDate prModifiedDate_update]"

definition payment_direct_response_zero :: payment_direct_response where
  "payment_direct_response_zero = \<lparr>prInvoiceID = [], prTDSUrl = [], prStatus = [], prFailureReason = [], prAmount = Money_New 0 0, prCurrency = 0,
     prCreatedDate = [], prModifiedDate = []\<rparr>"

definition payment_direct_response_ok :: "payment_direct_response \<Rightarrow> bool" where
  "payment_direct_response_ok x \<longleftrightarrow>
     list_all valid_utf8 [prInvoiceID x, prTDSUrl x, prStatus x, prFailureReason x, prCreatedDate x, prModifiedDate x] \<and>
     in_int64 (prCurrency x) \<and> in_int64 (Minor (prAmount x))"

lemmas payment_direct_response_defs = payment_direct_response_fields_def payment_direct_response_zero_def payment_direct_response_ok_def

definition statement_refund_fields :: "statement_refund field list" where
  "statement_refund_fields =
     [money_f ''amount'' rAmount rAmount_update, int_f ''ccy'' rCurrency rCurrency_update,
      str_f ''date'' rDate rDate_update, str_o ''approvalCode'' rApprovalCode rApprovalCode_update,
      str_o ''rrn'' rRRN rRRN_update, str_f ''maskedPan'' rMaskedPan rMaskedPan_update]"

definition statement_refund_zero :: statement_refund where
  "statement_refund_zero = \<lparr>rAmount = Money_New 0 0, rCurrency = 0, rDate = [], rApprovalCode = [], rRRN = [], rMaskedPan = []\<rparr>"

definition statement_refund_ok :: "statement_refund \<Rightarrow> bool" where
  "statement_refund_ok x \<longleftrightarrow>
     list_all valid_utf8 [rDate x, rApprovalCode x, rRRN x, rMaskedPan x] \<and> in_int64 (rCurrency x) \<and>
     in_int64 (Minor (rAmount x))"

lemmas statement_refund_defs = statement_refund_fields_def statement_refund_zero_def statement_refund_ok_def

definition subscription_summary_fields :: "subscription_summary field list" where
  "subscription_summary_fields =
     [int_f ''totalPaid'' TotalPaid TotalPaid_update, int_f ''totalFailed'' TotalFailed TotalFailed_update]"

definition subscription_summary_zero :: subscription_summary where
  "subscription_summary_zero = \<lparr>TotalPaid = 0, TotalFailed = 0\<rparr>"

definition subscription_summary_ok :: "subscription_summary \<Rightarrow> bool" where
  "subscription_summary_ok x \<longleftrightarrow>
     list_all in_int64 [TotalPaid x, TotalFailed x]"

lemmas subscription_summary_defs = subscription_summary_fields_def subscription_summary_zero_def subscription_summary_ok_def

interpretation subscription_summary: dto subscription_summary_fields subscription_summary_zero subscription_summary_ok 1
proof
  show "refills subscription_summary_fields subscription_summary_zero x" if "subscription_summary_ok x" for x
    using that by (cases x) (rule refillsI, simp_all add: subscription_summary_defs codec)
  show "json_ok d (encode_struct subscription_summary_fields x)" if "subscription_summary_ok x" and "1 \<le> d" for d x
    using that by (intro json_ok_struct) (auto simp: subscription_summary_defs codec)
qed simp

definition subscription_wallet_data_fields :: "subscription_wallet_data field list" where
  "subscription_wallet_data_fields =
     [str_f ''cardToken'' swCardToken swCardToken_update, str_f ''walletId'' swWalletID swWalletID_update,
      str_f ''status'' swStatus swStatus_update,
      str_o ''failureDescription'' FailureDescription FailureDescription_update]"

definition subscription_wallet_data_zero :: subscription_wallet_data where
  "subscription_wallet_data_zero = \<lparr>swCardToken = [], swWalletID = [], swStatus = [], FailureDescription = []\<rparr>"

definition subscription_wallet_data_ok :: "subscription_wallet_data \<Rightarrow> bool" where
  "subscription_wallet_data_ok x \<longleftrightarrow>
     list_all valid_utf8 [swCardToken x, swWalletID x, swStatus x, FailureDescription x]"

lemmas subscription_wallet_data_defs = subscription_wallet_data_fields_def subscription_wallet_data_zero_def subscription_wallet_data_ok_def

interpretation subscription_wallet_data: dto subscription_wallet_data_fields subscription_wallet_data_zero subscription_wallet_data_ok 1
proof
  show "refills subscription_wallet_data_fields subscription_wallet_data_zero x" if "subscription_wallet_data_ok x" for x
    using that by (cases x) (rule refillsI, simp_all add: subscription_wallet_data_defs codec)
  show "json_ok d (encode_struct subscription_wallet_data_fields x)" if "subscription_wallet_data_ok x" and "1 \<le> d" for d x
    using that by (intro json_ok_struct) (auto simp: subscription_wallet_data_defs codec)
qed simp

definition subscription_status_response_fields :: "subscription_status_response field list" where
  "subscription_status_response_fields =
     [str_f ''subscriptionId'' SubscriptionID SubscriptionID_update, str_f ''status'' sStatus sStatus_update,
      str_f ''startDate'' StartDate StartDate_update, str_o ''endDate'' EndDate EndDate_update,
      int_f ''amount'' sAmount sAmount_update, int_f ''ccy'' sCurrency sCurrency_update,
      str_f ''interval'' Interval Interval_update, str_o ''nextChargeDate'' NextChargeDate NextChargeDate_update,
      str_o ''cancellationDesc'' CancellationDesc CancellationDesc_update,
      struct_f subscription_summary_fields ''summary'' Summary Summary_update,
      struct_f subscription_wallet_data_fields ''walletData'' sWalletData sWalletData_update]"

definition subscription_status_response_zero :: subscription_status_response where
  "subscription_status_response_zero = \<lparr>SubscriptionID = [], sStatus = [], StartDate = [], EndDate = [], sAmount = 0, sCurrency = 0, Interval = [],
     NextChargeDate = [], CancellationDesc = [], Summary = subscription_summary_zero,
     sWalletData = subscription_wallet_data_zero\<rparr>"

definition subscription_status_response_ok :: "subscription_status_response \<Rightarrow> bool" where
  "subscription_status_response_ok x \<longleftrightarrow>
     list_all valid_utf8 [SubscriptionID x, sStatus x, StartDate x, EndDate x, Interval x, NextChargeDate x, CancellationDesc x] \<and>
     list_all in_int64 [sAmount x, sCurrency x] \<and> subscription_summary_ok (Summary x) \<and>
     subscription_wallet_data_ok (sWalletData x)"

lemmas subscription_status_response_defs = subscription_status_response_fields_def subscription_status_response_zero_def subscription_status_response_ok_def

interpretation subscription_status_response: dto subscription_status_response_fields subscription_status_response_zero subscription_status_response_ok 2
proof
  show "refills subscription_status_response_fields subscription_status_response_zero x" if "subscription_status_response_ok x" for x
    using that by (cases x) (rule refillsI, simp_all add: subscription_status_response_defs codec)
  show "json_ok d (encode_struct subscription_status_response_fields x)" if "subscription_status_response_ok x" and "2 \<le> d" for d x
    using that by (intro json_ok_struct) (auto simp: subscription_status_response_defs codec)
qed simp

record subscription_payment =
  sqAmount :: int
  sqCurrency :: int
  sqStatus :: string
  sqChargedAt :: string

definition subscription_payment_fields :: "subscription_payment field list" where
  "subscription_payment_fields =
     [int_f ''amount'' sqAmount sqAmount_update, int_f ''ccy'' sqCurrency sqCurrency_update,
      str_f ''status'' sqStatus sqStatus_update, str_f ''chargedAt'' sqChargedAt sqChargedAt_update]"

definition subscription_payment_zero :: subscription_payment where
  "subscription_payment_zero = \<lparr>sqAmount = 0, sqCurrency = 0, sqStatus = [], sqChargedAt = []\<rparr>"

definition subscription_payment_ok :: "subscription_payment \<Rightarrow> bool" where
  "subscription_payment_ok x \<longleftrightarrow>
     list_all valid_utf8 [sqStatus x, sqChargedAt x] \<and> list_all in_int64 [sqAmount x, sqCurrency x]"

lemmas subscription_payment_defs = subscription_payment_fields_def subscription_payment_zero_def subscription_payment_ok_def

interpretation subscription_payment: dto subscription_payment_fields subscription_payment_zero subscription_payment_ok 1
proof
  show "refills subscription_payment_fields subscription_payment_zero x" if "subscription_payment_ok x" for x
    using that by (cases x) (rule refillsI, simp_all add: subscription_payment_defs codec)
  show "json_ok d (encode_struct subscription_payment_fields x)" if "subscription_payment_ok x" and "1 \<le> d" for d x
    using that by (intro json_ok_struct) (auto simp: subscription_payment_defs codec)
qed simp

record subscription_list_item =
  slSubscriptionID :: string
  slAmount :: int
  slInterval :: string
  slStartDate :: string
  slCreated :: string
  slNextChargeDate :: string
  slEndDate :: string
  slStatus :: string

definition subscription_list_item_fields :: "subscription_list_item field list" where
  "subscription_list_item_fields =
     [str_f ''subscriptionId'' slSubscriptionID slSubscriptionID_update, int_f ''amount'' slAmount slAmount_update,
      str_f ''interval'' slInterval slInterval_update, str_f ''startDate'' slStartDate slStartDate_update,
      str_f ''created'' slCreated slCreated_update, str_o ''nextChargeDate'' slNextChargeDate slNextChargeDate_update,
      str_o ''endDate'' slEndDate slEndDate_update, str_f ''status'' slStatus slStatus_update]"

definition subscription_list_item_zero :: subscription_list_item where
  "subscription_list_item_zero = \<lparr>slSubscriptionID = [], slAmount = 0, slInterval = [], slStartDate = [], slCreated = [], slNextChargeDate = [],
     slEndDate = [], slStatus = []\<rparr>"

definition subscription_list_item_ok :: "subscription_list_item \<Rightarrow> bool" where
  "subscription_list_item_ok x \<longleftrightarrow>
     list_all valid_utf8 [slSubscriptionID x, slInterval x, slStartDate x, slCreated x, slNextChargeDate x, slEndDate x, slStatus x] \<and>
     in_int64 (slAmount x)"

lemmas subscription_list_item_defs = subscription_list_item_fields_def subscription_list_item_zero_def subscription_list_item_ok_def

interpretation subscription_list_item: dto subscription_list_item_fields subscription_list_item_zero subscription_list_item_ok 1
proof
  show "refills subscription_list_item_fields subscription_list_item_zero x" if "subscription_list_item_ok x" for x
    using that by (cases x) (rule refillsI, simp_all add: subscription_list_item_defs codec)
  show "json_ok d (encode_struct subscription_list_item_fields x)" if "subscription_list_item_ok x" and "1 \<le> d" for d x
    using that by (intro json_ok_struct) (auto simp: subscription_list_item_defs codec)
qed simp

definition pagination_fields :: "pagination field list" where
  "pagination_fields =
     [int_f ''totalItems'' TotalItems TotalItems_update, int_f ''itemsPerPage'' ItemsPerPage ItemsPerPage_update,
      int_f ''currentPage'' CurrentPage CurrentPage_update, int_f ''totalPages'' TotalPages TotalPages_update]"

definition pagination_zero :: pagination where
  "pagination_zero = \<lparr>TotalItems = 0, ItemsPerPage = 0, CurrentPage = 0, TotalPages = 0\<rparr>"

definition pagination_ok :: "pagination \<Rightarrow> bool" where
  "pagination_ok x \<longleftrightarrow>
     list_all in_int64 [TotalItems x, ItemsPerPage x, CurrentPage x, TotalPages x]"

lemmas pagination_defs = pagination_fields_def pagination_zero_def pagination_ok_def

interpretation pagination: dto pagination_fields pagination_zero pagination_ok 1
proof
  show "refills pagination_fields pagination_zero x" if "pagination_ok x" for x
    using that by (cases x) (rule refillsI, simp_all add: pagination_defs codec)
  show "json_ok d (encode_struct pagination_fields x)" if "pagination_ok x" and "1 \<le> d" for d x
    using that by (intro json_ok_struct) (auto simp: pagination_defs codec)
qed simp

record split_receiver =
  sxSplitReceiverID :: string
  sxOKPO :: string
  sxName :: string

definition split_receiver_fields :: "split_receiver field list" where
  "split_receiver_fields =
     [str_f ''splitReceiverId'' sxSplitReceiverID sxSplitReceiverID_update, str_f ''okpo'' sxOKPO sxOKPO_update,
      str_f ''name'' sxName sxName_update]"

definition split_receiver_zero :: split_receiver where
  "split_receiver_zero = \<lparr>sxSplitReceiverID = [], sxOKPO = [], sxName = []\<rparr>"

definition split_receiver_ok :: "split_receiver \<Rightarrow> bool" where
  "split_receiver_ok x \<longleftrightarrow>
     list_all valid_utf8 [sxSplitReceiverID x, sxOKPO x, sxName x]"

lemmas split_receiver_defs = split_receiver_fields_def split_receiver_zero_def split_receiver_ok_def

interpretation split_receiver: dto split_receiver_fields split_receiver_zero split_receiver_ok 1
proof
  show "refills split_receiver_fields split_receiver_zero x" if "split_receiver_ok x" for x
    using that by (cases x) (rule refillsI, simp_all add: split_receiver_defs codec)
  show "json_ok d (encode_struct split_receiver_fields x)" if "split_receiver_ok x" and "1 \<le> d" for d x
    using that by (intro json_ok_struct) (auto simp: split_receiver_defs codec)
qed simp

record t2p_terminal =
  tmCode :: string
  tmName :: string
  tmTerminal :: string

definition t2p_terminal_fields :: "t2p_terminal field list" where
  "t2p_terminal_fields =
     [str_f ''code'' tmCode tmCode_update, str_f ''name'' tmName tmName_update,
      str_f ''terminal'' tmTerminal tmTerminal_update]"

definition t2p_terminal_zero :: t2p_terminal where
  "t2p_terminal_zero = \<lparr>tmCode = [], tmName = [], tmTerminal = []\<rparr>"

definition t2p_terminal_ok :: "t2p_terminal \<Rightarrow> bool" where
  "t2p_terminal_ok x \<longleftrightarrow>
     list_all valid_utf8 [tmCode x, tmName x, tmTerminal x]"

lemmas t2p_terminal_defs = t2p_terminal_fields_def t2p_terminal_zero_def t2p_terminal_ok_def

interpretation t2p_terminal: dto t2p_terminal_fields t2p_terminal_zero t2p_terminal_ok 1
proof
  show "refills t2p_terminal_fields t2p_terminal_zero x" if "t2p_terminal_ok x" for x
    using that by (cases x) (rule refillsI, simp_all add: t2p_terminal_defs codec)
  show "json_ok d (encode_struct t2p_terminal_fields x)" if "t2p_terminal_ok x" and "1 \<le> d" for d x
    using that by (intro json_ok_struct) (auto simp: t2p_terminal_defs codec)
qed simp

record t2p_payment_status_response =
  tpBank :: string
  tpTerminal :: string
  tpPaymentType :: string
  tpAmount :: money
  tpCurrency :: string
  tpStatus :: string
  tpInternalPaymentID :: string
  tpExternalPaymentID :: string
  tpTransactionID :: string
  tpMaskedPan :: string
  tpCardMask :: string
  tpApprovalCode :: string
  tpRRN :: string
  tpDataTime :: string
  tpResponseCode :: string
  tpCountryCard :: string
  tpErrorMessage :: string

definition t2p_payment_status_response_fields :: "t2p_payment_status_response field list" where
  "t2p_payment_status_response_fields =
     [str_f ''bank'' tpBank tpBank_update, str_f ''terminal'' tpTerminal tpTerminal_update,
      str_f ''paymentType'' tpPaymentType tpPaymentType_update, money_f ''amount'' tpAmount tpAmount_update,
      str_f ''ccy'' tpCurrency tpCurrency_update, str_f ''status'' tpStatus tpStatus_update,
      str_f ''internalPaymentId'' tpInternalPaymentID tpInternalPaymentID_update,
      str_f ''externalPaymentId'' tpExternalPaymentID tpExternalPaymentID_update,
      str_f ''transactionId'' tpTransactionID tpTransactionID_update,
      str_o ''maskedPan'' tpMaskedPan tpMaskedPan_update, str_o ''cardMask'' tpCardMask tpCardMask_update,
      str_o ''approvalCode'' tpApprovalCode tpApprovalCode_update, str_o ''rrn'' tpRRN tpRRN_update,
      str_f ''dataTime'' tpDataTime tpDataTime_update, str_o ''responseCode'' tpResponseCode tpResponseCode_update,
      str_o ''countryCard'' tpCountryCard tpCountryCard_update,
      str_o ''errorMessage'' tpErrorMessage tpErrorMessage_update]"

definition t2p_payment_status_response_zero :: t2p_payment_status_response where
  "t2p_payment_status_response_zero = \<lparr>tpBank = [], tpTerminal = [], tpPaymentType = [], tpAmount = Money_New 0 0, tpCurrency = [], tpStatus = [],
     tpInternalPaymentID = [], tpExternalPaymentID = [], tpTransactionID = [], tpMaskedPan = [], tpCardMask = [],
     tpApprovalCode = [], tpRRN = [], tpDataTime = [], tpResponseCode = [], tpCountryCard = [], tpErrorMessage = []\<rparr>"

definition t2p_payment_status_response_ok :: "t2p_payment_status_response \<Rightarrow> bool" where
  "t2p_payment_status_response_ok x \<longleftrightarrow>
     list_all valid_utf8 [tpBank x, tpTerminal x, tpPaymentType x, tpCurrency x, tpStatus x, tpInternalPaymentID x, tpExternalPaymentID x,
       tpTransactionID x, tpMaskedPan x, tpCardMask x, tpApprovalCode x, tpRRN x, tpDataTime x, tpResponseCode x,
       tpCountryCard x, tpErrorMessage x] \<and>
     in_int64 (Minor (tpAmount x))"

lemmas t2p_payment_status_response_defs = t2p_payment_status_response_fields_def t2p_payment_status_response_zero_def t2p_payment_status_response_ok_def

record monopay_key =
  moKeyID :: string
  moKeyValue :: string
  moKeyName :: string
  moExpiresAt :: string

definition monopay_key_fields :: "monopay_key field list" where
  "monopay_key_fields =
     [str_f ''keyId'' moKeyID moKeyID_update, str_o ''keyValue'' moKeyValue moKeyValue_update,
      str_o ''keyName'' moKeyName moKeyName_update, str_o ''expiresAt'' moExpiresAt moExpiresAt_update]"

definition monopay_key_zero :: monopay_key where
  "monopay_key_zero = \<lparr>moKeyID = [], moKeyValue = [], moKeyName = [], moExpiresAt = []\<rparr>"

definition monopay_key_ok :: "monopay_key \<Rightarrow> bool" where
  "monopay_key_ok x \<longleftrightarrow>
     list_all valid_utf8 [moKeyID x, moKeyValue x, moKeyName x, moExpiresAt x]"

lemmas monopay_key_defs = monopay_key_fields_def monopay_key_zero_def monopay_key_ok_def

interpretation monopay_key: dto monopay_key_fields monopay_key_zero monopay_key_ok 1
proof
  show "refills monopay_key_fields monopay_key_zero x" if "monopay_key_ok x" for x
    using that by (cases x) (rule refillsI, simp_all add: monopay_key_defs codec)
  show "json_ok d (encode_struct monopay_key_fields x)" if "monopay_key_ok x" and "1 \<le> d" for d x
    using that by (intro json_ok_struct) (auto simp: monopay_key_defs codec)
qed simp


section \<open>Codes on the amounts\<close>

definition QRDetails_of :: "json \<Rightarrow> qr_details option" where
  "QRDetails_of j = (case decode_struct qr_details_fields j qr_details_zero of
      None \<Rightarrow> None
    | Some q \<Rightarrow> Some (q\<lparr>qdAmount := (qdAmount q)\<lparr>Code := qdCurrency q\<rparr>\<rparr>))"

definition CancelOp_of :: "json \<Rightarrow> cancel_op option" where
  "CancelOp_of j = (case decode_struct cancel_op_fields j cancel_op_zero of
      None \<Rightarrow> None
    | Some c \<Rightarrow> Some (c\<lparr>coAmount := (coAmount c)\<lparr>Code := coCurrency c\<rparr>\<rparr>))"

definition PaymentDirectResponse_of :: "json \<Rightarrow> payment_direct_response option" where
  "PaymentDirectResponse_of j = (case decode_struct payment_direct_response_fields j payment_direct_response_zero of
      None \<Rightarrow> None
    | Some p \<Rightarrow> Some (p\<lparr>prAmount := (prAmount p)\<lparr>Code := prCurrency p\<rparr>\<rparr>))"

definition StatementRefund_of :: "json \<Rightarrow> statement_refund option" where
  "StatementRefund_of j = (case decode_struct statement_refund_fields j statement_refund_zero of
      None \<Rightarrow> None
    | Some s \<Rightarrow> Some (s\<lparr>rAmount := (rAmount s)\<lparr>Code := rCurrency s\<rparr>\<rparr>))"

definition T2PPaymentStatusResponse_of :: "json \<Rightarrow> t2p_payment_status_response option" where
  "T2PPaymentStatusResponse_of j = (case decode_struct t2p_payment_status_response_fields j t2p_payment_status_response_zero of
      None \<Rightarrow> None
    | Some t \<Rightarrow> Some (case Currency_Parse (tpCurrency t) of
          Some code \<Rightarrow> t\<lparr>tpAmount := (tpAmount t)\<lparr>Code := code\<rparr>\<rparr>
        | None \<Rightarrow> t))"

interpretation qr_details: json_codec "encode_struct qr_details_fields" QRDetails_of
  "\<lambda>q. qr_details_ok q \<and> Code (qdAmount q) = qdCurrency q"
proof
  show "QRDetails_of (encode_struct qr_details_fields q) = Some q" if "qr_details_ok q \<and> Code (qdAmount q) = qdCurrency q" for q
    using that by (cases q) (simp add: QRDetails_of_def decode_encode_struct qr_details_defs codec Money_New_def money_eqI)
  show "json_ok maxNestingDepth (encode_struct qr_details_fields q)" if "qr_details_ok q \<and> Code (qdAmount q) = qdCurrency q" for q
    using that by (intro json_ok_struct) (auto simp: qr_details_defs codec maxNestingDepth_def)
qed

interpretation payment_direct_response: json_codec "encode_struct payment_direct_response_fields" PaymentDirectResponse_of "\<lambda>p. payment_direct_response_ok p \<and> Code (prAmount p) = prCurrency p"
proof
  show "PaymentDirectResponse_of (encode_struct payment_direct_response_fields p) = Some p" if "payment_direct_response_ok p \<and> Code (prAmount p) = prCurrency p" for p
    using that by (cases p) (simp add: PaymentDirectResponse_of_def decode_encode_struct payment_direct_response_defs codec Money_New_def money_eqI)
  show "json_ok maxNestingDepth (encode_struct payment_direct_response_fields p)" if "payment_direct_response_ok p \<and> Code (prAmount p) = prCurrency p" for p
    using that by (intro json_ok_struct) (auto simp: payment_direct_response_defs codec maxNestingDepth_def)
qed

interpretation t2p_payment_status_response: json_codec "encode_struct t2p_payment_status_response_fields" T2PPaymentStatusResponse_of "\<lambda>t. t2p_payment_status_response_ok t \<and> Code (tpAmount t) = (case Currency_Parse (tpCurrency t) of Some code \<Rightarrow> code | None \<Rightarrow> 0)"
proof
  show "T2PPaymentStatusResponse_of (encode_struct t2p_payment_status_response_fields t) = Some t" if "t2p_payment_status_response_ok t \<and> Code (tpAmount t) = (case Currency_Parse (tpCurrency t) of Some code \<Rightarrow> code | None \<Rightarrow> 0)" for t
    using that by (cases t) (simp add: T2PPaymentStatusResponse_of_def decode_encode_struct t2p_payment_status_response_defs codec Money_New_def money_eqI split: option.splits)
  show "json_ok maxNestingDepth (encode_struct t2p_payment_status_response_fields t)" if "t2p_payment_status_response_ok t \<and> Code (tpAmount t) = (case Currency_Parse (tpCurrency t) of Some code \<Rightarrow> code | None \<Rightarrow> 0)" for t
    using that by (intro json_ok_struct) (auto simp: t2p_payment_status_response_defs codec maxNestingDepth_def)
qed

definition sent_op :: "cancel_op \<Rightarrow> bool" where
  "sent_op c \<longleftrightarrow> cancel_op_ok c \<and> Code (coAmount c) = coCurrency c"

definition sent_refund :: "statement_refund \<Rightarrow> bool" where
  "sent_refund s \<longleftrightarrow> statement_refund_ok s \<and> Code (rAmount s) = rCurrency s"

lemma CancelOp_back: "sent_op c \<Longrightarrow> CancelOp_of (encode_struct cancel_op_fields c) = Some c"
  by (cases c) (simp add: sent_op_def CancelOp_of_def decode_encode_struct cancel_op_defs codec Money_New_def money_eqI)

lemma cancel_op_printed: "cancel_op_ok c \<Longrightarrow> 1 \<le> d \<Longrightarrow> json_ok d (encode_struct cancel_op_fields c)"
  by (rule json_ok_struct) (auto simp: cancel_op_defs codec)

lemma StatementRefund_back: "sent_refund s \<Longrightarrow> StatementRefund_of (encode_struct statement_refund_fields s) = Some s"
  by (cases s) (simp add: sent_refund_def StatementRefund_of_def decode_encode_struct statement_refund_defs codec Money_New_def money_eqI)

lemma statement_refund_printed: "statement_refund_ok s \<Longrightarrow> 1 \<le> d \<Longrightarrow> json_ok d (encode_struct statement_refund_fields s)"
  by (rule json_ok_struct) (auto simp: statement_refund_defs codec)

definition invoice_status_response_fields :: "invoice_status_response field list" where
  "invoice_status_response_fields =
     [str_f ''invoiceId'' InvoiceID InvoiceID_update, str_f ''status'' iStatus iStatus_update,
      str_o ''failureReason'' FailureReason FailureReason_update, str_o ''errCode'' iErrCode iErrCode_update,
      money_f ''amount'' iAmount iAmount_update, int_f ''ccy'' iCurrency iCurrency_update,
      money_f ''finalAmount'' FinalAmount FinalAmount_update, str_o ''createdDate'' CreatedDate CreatedDate_update,
      str_o ''modifiedDate'' ModifiedDate ModifiedDate_update, str_o ''reference'' Reference Reference_update,
      str_o ''destination'' Destination Destination_update,
      list_o (encode_struct cancel_op_fields) CancelOp_of ''cancelList'' CancelList CancelList_update,
      struct_o payment_info_fields payment_info_zero ''paymentInfo'' PaymentInfo PaymentInfo_update,
      struct_o wallet_data_fields wallet_data_zero ''walletData'' WalletData WalletData_update,
      struct_o tips_info_fields tips_info_zero ''tipsInfo'' TipsInfo TipsInfo_update]"

definition invoice_status_response_zero :: invoice_status_response where
  "invoice_status_response_zero = \<lparr>InvoiceID = [], ModifiedDate = [], iStatus = [], FailureReason = [], iErrCode = [],
     iAmount = Money_New 0 0, iCurrency = 0, FinalAmount = Money_New 0 0, CreatedDate = [], Reference = [], Destination = [],
     CancelList = [], PaymentInfo = None, WalletData = None, TipsInfo = None\<rparr>"

definition invoice_status_response_ok :: "invoice_status_response \<Rightarrow> bool" where
  \<comment> \<open>with the code of the invoice on its amounts and the codes of the operations on theirs\<close>
  "invoice_status_response_ok x \<longleftrightarrow>
     list_all valid_utf8 [InvoiceID x, ModifiedDate x, iStatus x, FailureReason x, iErrCode x, CreatedDate x, Reference x, Destination x] \<and>
     list_all in_int64 [iCurrency x, Minor (iAmount x), Minor (FinalAmount x)] \<and>
     Code (iAmount x) = iCurrency x \<and> Code (FinalAmount x) = iCurrency x \<and> list_all sent_op (CancelList x) \<and>
     pred_option (\<lambda>p. payment_info_ok p \<and> Code (Fee p) = iCurrency x \<and> Code (AgentFee p) = iCurrency x) (PaymentInfo x) \<and>
     pred_option wallet_data_ok (WalletData x) \<and> pred_option tips_info_ok (TipsInfo x)"

definition InvoiceStatusResponse_of :: "json \<Rightarrow> invoice_status_response option" where
  "InvoiceStatusResponse_of j = (case decode_struct invoice_status_response_fields j invoice_status_response_zero of
      None \<Rightarrow> None
    | Some r \<Rightarrow>
        let c = iCurrency r
        in Some (r\<lparr>iAmount := (iAmount r)\<lparr>Code := c\<rparr>, FinalAmount := (FinalAmount r)\<lparr>Code := c\<rparr>,
                   PaymentInfo := map_option (\<lambda>p. p\<lparr>Fee := (Fee p)\<lparr>Code := c\<rparr>, AgentFee := (AgentFee p)\<lparr>Code := c\<rparr>\<rparr>)
                                    (PaymentInfo r)\<rparr>))"

definition statement_invoice_fields :: "statement_invoice field list" where
  "statement_invoice_fields =
     [str_f ''invoiceId'' siInvoiceID siInvoiceID_update, str_f ''status'' siStatus siStatus_update,
      str_f ''maskedPan'' siMaskedPan siMaskedPan_update, str_f ''date'' siDate siDate_update,
      str_f ''paymentScheme'' PaymentScheme PaymentScheme_update, money_f ''amount'' siAmount siAmount_update,
      money_f ''profitAmount'' ProfitAmount ProfitAmount_update, int_f ''ccy'' siCurrency siCurrency_update,
      str_o ''approvalCode'' siApprovalCode siApprovalCode_update, str_o ''rrn'' siRRN siRRN_update,
      str_o ''reference'' siReference siReference_update, str_o ''shortQrId'' ShortQrID ShortQrID_update,
      str_o ''destination'' siDestination siDestination_update,
      list_o (encode_struct statement_refund_fields) StatementRefund_of ''cancelList'' siCancelList siCancelList_update,
      map_o ''metadata'' Metadata Metadata_update]"

definition statement_invoice_zero :: statement_invoice where
  "statement_invoice_zero = \<lparr>siInvoiceID = [], siStatus = [], siMaskedPan = [], siDate = [], PaymentScheme = [],
     siAmount = Money_New 0 0, ProfitAmount = Money_New 0 0, siCurrency = 0, siApprovalCode = [], siRRN = [], siReference = [],
     ShortQrID = [], siDestination = [], siCancelList = [], Metadata = []\<rparr>"

definition statement_invoice_ok :: "statement_invoice \<Rightarrow> bool" where
  "statement_invoice_ok x \<longleftrightarrow>
     list_all valid_utf8 [siInvoiceID x, siStatus x, siMaskedPan x, siDate x, PaymentScheme x, siApprovalCode x, siRRN x,
       siReference x, ShortQrID x, siDestination x] \<and>
     list_all in_int64 [siCurrency x, Minor (siAmount x), Minor (ProfitAmount x)] \<and>
     Code (siAmount x) = siCurrency x \<and> Code (ProfitAmount x) = siCurrency x \<and> list_all sent_refund (siCancelList x) \<and>
     map_ok (Metadata x)"

lemmas statement_invoice_defs = statement_invoice_fields_def statement_invoice_zero_def statement_invoice_ok_def

definition StatementInvoice_of :: "json \<Rightarrow> statement_invoice option" where
  "StatementInvoice_of j = (case decode_struct statement_invoice_fields j statement_invoice_zero of
      None \<Rightarrow> None
    | Some r \<Rightarrow> Some (r\<lparr>siAmount := (siAmount r)\<lparr>Code := siCurrency r\<rparr>, ProfitAmount := (ProfitAmount r)\<lparr>Code := siCurrency r\<rparr>\<rparr>))"

lemma cancel_ops_back:
  "list_all sent_op cs \<Longrightarrow> list_all (\<lambda>c. CancelOp_of (encode_struct cancel_op_fields c) = Some c) cs"
  "list_all sent_refund ss \<Longrightarrow> list_all (\<lambda>s. StatementRefund_of (encode_struct statement_refund_fields s) = Some s) ss"
  by (auto simp: list_all_iff CancelOp_back StatementRefund_back)

lemma cancel_ops_printed:
  "list_all sent_op cs \<Longrightarrow> 1 \<le> d \<Longrightarrow> list_all (\<lambda>c. json_ok d (encode_struct cancel_op_fields c)) cs"
  "list_all sent_refund ss \<Longrightarrow> 1 \<le> d \<Longrightarrow> list_all (\<lambda>s. json_ok d (encode_struct statement_refund_fields s)) ss"
  by (auto simp: list_all_iff sent_op_def sent_refund_def cancel_op_printed statement_refund_printed)

interpretation statement_invoice: json_codec "encode_struct statement_invoice_fields" StatementInvoice_of statement_invoice_ok
proof
  show "StatementInvoice_of (encode_struct statement_invoice_fields x) = Some x" if "statement_invoice_ok x" for x
    using that by (cases x) (simp add: StatementInvoice_of_def decode_encode_struct statement_invoice_defs codec Money_New_def
      money_eqI cancel_ops_back)
  show "json_ok maxNestingDepth (encode_struct statement_invoice_fields x)" if "statement_invoice_ok x" for x
    using that by (intro json_ok_struct) (auto simp: statement_invoice_defs codec maxNestingDepth_def cancel_ops_printed)
qed

lemma refill_struct_o_map:
  "distinct (map fst gs) \<Longrightarrow> pred_option (\<lambda>x. refill gs x zero = Some (h x)) (get r) \<Longrightarrow> get z = None \<Longrightarrow> upd (\<lambda>_. None) z = z \<Longrightarrow>
   refill (struct_o gs zero n get upd # fs) r z = refill fs r (upd (\<lambda>_. map_option h (get r)) z)"
  by (cases "get r") (auto simp: struct_o_def ptr_f_def refill.simps(2) decode_encode_struct)

definition without_codes :: "payment_info \<Rightarrow> payment_info" where
  "without_codes p = p\<lparr>Fee := (Fee p)\<lparr>Code := 0\<rparr>, AgentFee := (AgentFee p)\<lparr>Code := 0\<rparr>\<rparr>"

lemma payment_info_refill: "payment_info_ok p \<Longrightarrow> refill payment_info_fields p payment_info_zero = Some (without_codes p)"
  by (cases p) (simp add: payment_info_defs codec Money_New_def without_codes_def)

lemma payment_info_names: "distinct (map fst payment_info_fields)"
  by (simp add: payment_info_fields_def codec)

lemma payment_info_printed: "payment_info_ok p \<Longrightarrow> 1 \<le> d \<Longrightarrow> json_ok d (encode_struct payment_info_fields p)"
  by (rule json_ok_struct) (auto simp: payment_info_defs codec)

lemma with_codes: "Code (Fee p) = c \<Longrightarrow> Code (AgentFee p) = c \<Longrightarrow>
    (without_codes p)\<lparr>Fee := (Fee (without_codes p))\<lparr>Code := c\<rparr>, AgentFee := (AgentFee (without_codes p))\<lparr>Code := c\<rparr>\<rparr> = p"
  by (cases p) (simp add: without_codes_def)

lemma InvoiceStatusResponse_back:
  assumes "invoice_status_response_ok x"
  shows "InvoiceStatusResponse_of (encode_struct invoice_status_response_fields x) = Some x"
proof -
  define q where "q = map_option without_codes (PaymentInfo x)"
  have p: "pred_option (\<lambda>p. refill payment_info_fields p payment_info_zero = Some (without_codes p)) (PaymentInfo x)"
    using assms by (cases "PaymentInfo x") (simp_all add: invoice_status_response_ok_def payment_info_refill)
  have d: "distinct (map fst invoice_status_response_fields)" by (simp add: invoice_status_response_fields_def codec)
  have "refill invoice_status_response_fields x invoice_status_response_zero =
      Some (x\<lparr>iAmount := (iAmount x)\<lparr>Code := 0\<rparr>, FinalAmount := (FinalAmount x)\<lparr>Code := 0\<rparr>, PaymentInfo := q\<rparr>)"
    using assms p unfolding q_def
    by (cases x) (simp add: invoice_status_response_ok_def invoice_status_response_fields_def invoice_status_response_zero_def codec
      Money_New_def cancel_ops_back refill_struct_o_map [OF payment_info_names, where h = without_codes])
  moreover have "map_option (\<lambda>p. p\<lparr>Fee := (Fee p)\<lparr>Code := iCurrency x\<rparr>, AgentFee := (AgentFee p)\<lparr>Code := iCurrency x\<rparr>\<rparr>) q = PaymentInfo x"
  proof (cases "PaymentInfo x")
    case None
    then show ?thesis by (simp add: q_def)
  next
    case (Some a)
    then show ?thesis
      using with_codes [of a "iCurrency x"] assms by (simp add: q_def invoice_status_response_ok_def)
  qed
  ultimately show ?thesis
    using assms d unfolding q_def
    by (cases x) (simp add: InvoiceStatusResponse_of_def decode_encode_struct Let_def invoice_status_response_ok_def money_eqI)
qed

interpretation invoice_status_response: json_codec "encode_struct invoice_status_response_fields" InvoiceStatusResponse_of
  invoice_status_response_ok
proof
  show "InvoiceStatusResponse_of (encode_struct invoice_status_response_fields x) = Some x" if "invoice_status_response_ok x" for x
    using that by (rule InvoiceStatusResponse_back)
  show "json_ok maxNestingDepth (encode_struct invoice_status_response_fields x)" if ok: "invoice_status_response_ok x" for x
  proof -
    have "pred_option (\<lambda>p. json_ok 9999 (encode_struct payment_info_fields p)) (PaymentInfo x)"
      using ok by (cases "PaymentInfo x") (simp_all add: invoice_status_response_ok_def payment_info_printed)
    with ok show ?thesis
      by (intro json_ok_struct) (auto simp: invoice_status_response_ok_def invoice_status_response_fields_def codec maxNestingDepth_def
        cancel_ops_printed)
  qed
qed

text \<open>The decoders are the \<open>UnmarshalJSON\<close> methods over this JSON.\<close>

lemma UnmarshalJSON_of:
  "CancelOp_UnmarshalJSON (Unmarshal_json (\<lambda>j. decode_struct cancel_op_fields j cancel_op_zero)) data = Unmarshal_json CancelOp_of data"
  "InvoiceStatusResponse_UnmarshalJSON
     (Unmarshal_json (\<lambda>j. decode_struct invoice_status_response_fields j invoice_status_response_zero)) data
   = Unmarshal_json InvoiceStatusResponse_of data"
  "StatementRefund_UnmarshalJSON (Unmarshal_json (\<lambda>j. decode_struct statement_refund_fields j statement_refund_zero)) data
   = Unmarshal_json StatementRefund_of data"
  "StatementInvoice_UnmarshalJSON (Unmarshal_json (\<lambda>j. decode_struct statement_invoice_fields j statement_invoice_zero)) data
   = Unmarshal_json StatementInvoice_of data"
  by (auto simp: Unmarshal_json_def CancelOp_UnmarshalJSON_def CancelOp_of_def InvoiceStatusResponse_UnmarshalJSON_def
      InvoiceStatusResponse_of_def StatementRefund_UnmarshalJSON_def StatementRefund_of_def StatementInvoice_UnmarshalJSON_def
      StatementInvoice_of_def Let_def split: option.split)

end
