(* ===== verification/Acquiring_Exchange.thy ===== *)
theory Acquiring_Exchange
  imports Acquiring_Responses Json_Exchange
begin

text \<open>
  Whole calls of the acquiring client over its wire format: what a merchant puts into an invoice is what the server
  can read back from the one request that goes out, and the status the server reports is what the merchant gets.
\<close>

text \<open>
  C1: an invoice goes out once and whole. For every request whose texts are UTF-8 and whose numbers are machine
  numbers, \<open>CreateInvoice\<close> of a client without \<open>WithUnsafeRetries\<close> causes at most one exchange, a POST whose
  body decodes to exactly the request, basket, discounts and amounts included; and if the server's answer is the
  encoding of a created invoice, that is what the caller gets.
\<close>

theorem CreateInvoice_carries_the_invoice:
  assumes "plain_client env c sent" and "go_targets env" and "\<not> unsafeRetries c"
    and "decodes_with (\<lambda>j. decode_struct create_invoice_response_fields j create_invoice_response_zero) env"
    and "create_invoice_request_ok ff rq"
    and "CreateInvoice env ua c (\<lambda>r. Marshal_json (encode_struct (create_invoice_request_fields ff) r)) (Some rq) w = (res, w')"
  shows "\<exists>log. sent w' = sent w @ log \<and> length log \<le> 1 \<and>
    list_all (\<lambda>(R, r). rMethod R = ''POST'' \<and>
      carries (\<lambda>j. decode_struct (create_invoice_request_fields ff) j create_invoice_request_zero) rq R) log \<and>
    (\<forall>out1 x. res = Inr out1 \<and> create_invoice_response_ok x \<longrightarrow>
      (\<exists>R resp. log = [(R, Inr resp)] \<and> StatusCode resp = 200 \<and>
        (answers (encode_struct create_invoice_response_fields) resp x \<longrightarrow> out1 = JsonOut x)))"
proof -
  have t: "target_ok ''/api/merchant/invoice/create''" by (rule literal_target) (simp add: literal_path)
  have s: "send_json env ua c ''POST'' ''/api/merchant/invoice/create''
      (Marshal_json (encode_struct (create_invoice_request_fields ff) rq)) [] TJSON [200] w = (res, w')"
    using assms(6) by (simp add: CreateInvoice_def acq_post_def)
  from create_invoice_request.send_json_carries [OF assms(1,2) t assms(5) s] assms(3)
  obtain R rs where R: "sent w' = sent w @ map (\<lambda>x. (R, x)) rs" "length rs \<le> 1" "\<forall>out1. res = Inr out1 \<longrightarrow> rs \<noteq> []"
    "rs \<noteq> [] \<longrightarrow> rMethod R = ''POST'' \<and>
       carries (\<lambda>j. decode_struct (create_invoice_request_fields ff) j create_invoice_request_zero) rq R"
    by (auto simp: repeatable_def is_call_def)
  have o: "observed env c sent" using assms(1) by (simp add: plain_client_def)
  show ?thesis
  proof (intro exI [of _ "map (\<lambda>x. (R, x)) rs"] conjI allI impI)
    fix out1 x
    assume x: "res = Inr out1 \<and> create_invoice_response_ok x"
    with send_json_decodes [OF o] s obtain R' resp where d: "last (sent w') = (R', Inr resp)" "StatusCode resp = 200"
      "decode_body env TJSON resp Untouched = (None, out1)" by fastforce
    from R(1-3) d(1) x have "map (\<lambda>x. (R, x)) rs = [(R', Inr resp)]" by (cases rs) auto
    moreover have "out1 = JsonOut x" if "answers (encode_struct create_invoice_response_fields) resp x"
      using create_invoice_response.decoded_answer [OF assms(4) _ that d(3)] x by simp
    ultimately show "\<exists>R0 resp. map (\<lambda>x. (R, x)) rs = [(R0, Inr resp)] \<and> StatusCode resp = 200 \<and>
        (answers (encode_struct create_invoice_response_fields) resp x \<longrightarrow> out1 = JsonOut x)"
      using d(2) by (intro exI [of _ R'] exI [of _ resp] conjI impI)
  qed (use R in \<open>auto simp: list_all_iff\<close>)
qed

definition demo_floats :: float_format where
  "demo_floats = \<lparr>FormatFloat = (\<lambda>_. ''0''), ParseFloat = (\<lambda>_. Some (Fin 0))\<rparr>"

definition demo_invoice :: create_invoice_request where
  "demo_invoice = create_invoice_request_zero\<lparr>ciAmount := 4200, ciCurrency := 980, ciRedirectURL := ''https://shop.ua/ok''\<rparr>"

lemma demo_invoice_ok: "create_invoice_request_ok demo_floats demo_invoice"
  by (simp add: demo_invoice_def demo_floats_def create_invoice_request_defs float_ok_def ascii_utf8) code_simp

theorem CreateInvoice_carries_the_invoice_witness:
  "\<exists>R r. snd (CreateInvoice (codec_env (\<lambda>j. decode_struct create_invoice_response_fields j create_invoice_response_zero)) ''sdk'' demo_client
       (\<lambda>r. Marshal_json (encode_struct (create_invoice_request_fields demo_floats) r)) (Some demo_invoice) []) = [(R, r)] \<and>
     carries (\<lambda>j. decode_struct (create_invoice_request_fields demo_floats) j create_invoice_request_zero) demo_invoice R"
proof -
  obtain res w' where d: "CreateInvoice (codec_env (\<lambda>j. decode_struct create_invoice_response_fields j create_invoice_response_zero)) ''sdk''
      demo_client (\<lambda>r. Marshal_json (encode_struct (create_invoice_request_fields demo_floats) r)) (Some demo_invoice) [] = (res, w')"
    by fastforce
  have t: "target_ok ''/api/merchant/invoice/create''" by (rule literal_target) (simp add: literal_path)
  have "\<not> unsafeRetries demo_client" by (simp add: demo_client_def)
  from CreateInvoice_carries_the_invoice [OF codec_env_client(1) codec_env_targets this codec_env_decodes demo_invoice_ok d]
  obtain log where l: "w' = log" "length log \<le> 1" "list_all (\<lambda>(R, r). rMethod R = ''POST'' \<and>
      carries (\<lambda>j. decode_struct (create_invoice_request_fields demo_floats) j create_invoice_request_zero) demo_invoice R) log" by auto
  have "snd (res, w') \<noteq> []" unfolding d [symmetric]
    by (simp add: CreateInvoice_def acq_post_def send_json_def create_invoice_request.marshals [OF demo_invoice_ok] demo_POST [OF t])
  then obtain R r where "w' = [(R, r)]" using l(1,2) by (cases log) auto
  with l d show ?thesis by auto
qed

text \<open>A look-up by an identifier asks for exactly that identifier.\<close>

lemma acq_get_id_exchange:
  assumes "plain_client env c sent" and "go_targets env" and "baseURL c = Some base" and "Opaque base = []" and "plain_path uri"
    and "acq_get_id env ua c uri k i w = (Inr out1, w')"
  shows "\<exists>log R resp. sent w' = sent w @ log @ [(R, Inr resp)] \<and> StatusCode resp = 200 \<and>
    decode_body env TJSON resp Untouched = (None, out1) \<and>
    list_all (\<lambda>(R, r). rMethod R = ''GET'' \<and> Host (rURL R) = Host base \<and> Path (rURL R) = uri \<and>
      map_of (ParseQuery (RawQuery (rURL R))) = [k \<mapsto> i]) (log @ [(R, Inr resp)])"
proof -
  let ?q = "Set k i []"
  have i: "i \<noteq> []" using assms(6) by (auto simp: acq_get_id_def)
  have q: "uri @ ''?'' @ Encode ?q = with_query uri ?q"
    using Encode_Nil_iff [of ?q] by (simp add: with_query_def Set_def)
  note d = assms(6) [unfolded acq_get_id_def q if_not_P [OF i]]
  note t = target_query(1,2) [OF assms(5), of ?q] target_query(3) [OF assms(5)]
  have o: "observed env c sent" using assms(1) by (simp add: plain_client_def)
  from dispatch_sends [OF assms(1,2) t(2) d] obtain R rs where R: "sent w' = sent w @ map (\<lambda>r. (R, r)) rs" "rs \<noteq> []"
    "is_call c ''GET'' (with_query uri ?q) None [] R" by blast
  from dispatch_decodes [OF o d] obtain R' resp where r: "last (sent w') = (R', Inr resp)" "StatusCode resp = 200"
    "decode_body env TJSON resp Untouched = (None, out1)" by fastforce
  have nd: "set (split_on (CHR ''/'') (fst (cut (CHR ''?'') (with_query uri ?q)))) \<inter> dots = {}"
    unfolding t(1) fst_conv by (rule t(3))
  have "rMethod R = ''GET'' \<and> Host (rURL R) = Host base \<and> Path (rURL R) = uri \<and> RawQuery (rURL R) = Encode ?q"
    using is_call_path [OF R(3) assms(3) t(2) assms(4) nd] R(3) t(1) by (simp add: is_call_def)
  moreover have "map_of (ParseQuery (Encode ?q)) = [k \<mapsto> i]" by (simp add: ParseQuery_of Set_def)
  ultimately have all: "list_all (\<lambda>(R, r). rMethod R = ''GET'' \<and> Host (rURL R) = Host base \<and> Path (rURL R) = uri \<and>
      map_of (ParseQuery (RawQuery (rURL R))) = [k \<mapsto> i]) (map (\<lambda>r. (R, r)) rs)" by (simp add: list_all_iff)
  have split: "map (\<lambda>r. (R, r)) rs = butlast (map (\<lambda>r. (R, r)) rs) @ [(R', Inr resp)]"
    using r(1) R(1,2) by (metis append_butlast_last_id last_appendR list.map_disc_iff)
  show ?thesis
    using R(1) r(2,3) all split
    by (intro exI [of _ "butlast (map (\<lambda>r. (R, r)) rs)"] exI [of _ R'] exI [of _ resp]) metis
qed

text \<open>
  C25: the status the server reports is the status the merchant sees. When \<open>InvoiceStatus\<close> returns without an error,
  every exchange was a GET on the status path of the base URL's host asking for exactly that invoice, whatever
  bytes its identifier has; the last one was answered with 200; and if that answer is the encoding of a status,
  whatever its refunds, fees and tips, the caller gets exactly that status, every amount with its currency code.
\<close>

theorem InvoiceStatus_returns_what_was_sent:
  assumes "plain_client env c sent" and "go_targets env" and "baseURL c = Some base" and "Opaque base = []"
    and "decodes_with InvoiceStatusResponse_of env" and "InvoiceStatus env ua c invoiceID w = (Inr out1, w')"
  shows "\<exists>log R resp. sent w' = sent w @ log @ [(R, Inr resp)] \<and> StatusCode resp = 200 \<and>
    list_all (\<lambda>(R, r). rMethod R = ''GET'' \<and> Host (rURL R) = Host base \<and> Path (rURL R) = ''/api/merchant/invoice/status'' \<and>
      map_of (ParseQuery (RawQuery (rURL R))) = [''invoiceId'' \<mapsto> invoiceID]) (log @ [(R, Inr resp)]) \<and>
    (\<forall>x. invoice_status_response_ok x \<and> answers (encode_struct invoice_status_response_fields) resp x \<longrightarrow> out1 = JsonOut x)"
proof -
  have pp: "plain_path ''/api/merchant/invoice/status''" by (simp add: literal_path)
  from acq_get_id_exchange [OF assms(1-4) pp assms(6) [unfolded InvoiceStatus_def]]
  show ?thesis using invoice_status_response.decoded_answer [OF assms(5)] by blast
qed

definition demo_status :: invoice_status_response where
  "demo_status = invoice_status_response_zero\<lparr>InvoiceID := ''p2_9'', iStatus := ''success'', iCurrency := 980,
     iAmount := Money_New 4200 980, FinalAmount := Money_New 4200 980\<rparr>"

lemma demo_status_ok: "invoice_status_response_ok demo_status"
  by (simp add: demo_status_def invoice_status_response_ok_def invoice_status_response_zero_def Money_New_def) code_simp

theorem InvoiceStatus_returns_what_was_sent_witness:
  "\<exists>w'. InvoiceStatus (codec_env InvoiceStatusResponse_of) ''sdk'' (answering (json_text (encode_struct invoice_status_response_fields demo_status)))
     ''p2_9'' [] = (Inr (JsonOut demo_status), w')"
proof -
  let ?b = "json_text (encode_struct invoice_status_response_fields demo_status)"
  let ?env = "codec_env InvoiceStatusResponse_of"
  note read = invoice_status_response.text_back [OF demo_status_ok]
  have pp: "plain_path ''/api/merchant/invoice/status''" by (simp add: literal_path)
  have "Encode (Set ''invoiceId'' ''p2_9'' []) \<noteq> []" by (simp add: Set_def)
  then have q: "''/api/merchant/invoice/status'' @ ''?'' @ Encode (Set ''invoiceId'' ''p2_9'' []) =
      with_query ''/api/merchant/invoice/status'' (Set ''invoiceId'' ''p2_9'' [])" by (simp add: with_query_def)
  obtain w' where d: "InvoiceStatus ?env ''sdk'' (answering ?b) ''p2_9'' [] = (Inr (JsonOut demo_status), w')"
    using answering_GET [OF target_query(2) [OF pp, of "Set ''invoiceId'' ''p2_9'' []"] read]
    unfolding InvoiceStatus_def acq_get_id_def q by auto
  have b: "baseURL (answering ?b) = Some (demo_url ''https'' ''api.monobank.ua'' [])" "Opaque (demo_url ''https'' ''api.monobank.ua'' []) = []"
    by (simp_all add: answering_def demo_client_def demo_url_def)
  from InvoiceStatus_returns_what_was_sent [OF codec_env_client(2) codec_env_targets b codec_env_decodes d] d
  show ?thesis by blast
qed

end
