(* ===== verification/Business_Statement.thy ===== *)
theory Business_Statement
  imports Json_Money Business_Paging
begin

text \<open>
  A row of the business statement on the wire (\<open>business/types.go\<close>). Its amount is a number of minor units whose
  currency is another field, a string of one of two formats that the decoder resolves with \<open>currency.Parse\<close>.
\<close>

definition statement_ultimate_debit_fields :: "(string \<times> string) field list" where
  "statement_ultimate_debit_fields = [str_o ''name'' fst apfst, str_o ''idCode'' snd apsnd]"

interpretation statement_ultimate_debit: dto statement_ultimate_debit_fields "([], [])" "\<lambda>u. valid_utf8 (fst u) \<and> valid_utf8 (snd u)" 1
proof
  show "refills statement_ultimate_debit_fields ([], []) x" if "valid_utf8 (fst x) \<and> valid_utf8 (snd x)" for x
    using that by (cases x) (rule refillsI, simp_all add: statement_ultimate_debit_fields_def codec)
  show "json_ok d (encode_struct statement_ultimate_debit_fields x)" if "valid_utf8 (fst x) \<and> valid_utf8 (snd x)" and "1 \<le> d" for d x
    using that by (intro json_ok_struct) (auto simp: statement_ultimate_debit_fields_def codec)
qed simp

definition statement_item_fields :: "seconds_codec \<Rightarrow> statement_item field list" where
  "statement_item_fields ep =
     [str_f ''id'' ID ID_update, str_o ''externalReference'' ExternalReference ExternalReference_update,
      seconds_f ep ''time'' Time Time_update, seconds_f ep ''completedTime'' CompletedTime CompletedTime_update,
      str_f ''description'' Description Description_update, money_f ''amount'' Amount Amount_update,
      str_f ''currencyCode'' CurrencyCode CurrencyCode_update, str_o ''receiptId'' ReceiptID ReceiptID_update,
      str_o ''counterEdrpou'' CounterEdrpou CounterEdrpou_update, str_o ''counterIban'' CounterIBAN CounterIBAN_update,
      str_o ''counterName'' CounterName CounterName_update, bool_o ''reverse'' Reverse Reverse_update,
      str_f ''status'' Status Status_update,
      struct_o statement_ultimate_debit_fields ([], []) ''ultimateDebit'' UltimateDebit UltimateDebit_update]"

definition statement_item_zero :: statement_item where
  "statement_item_zero = \<lparr>ID = [], ExternalReference = [], Time = zero_time, CompletedTime = zero_time, Description = [],
     Amount = Money_New 0 0, CurrencyCode = [], ReceiptID = [], CounterEdrpou = [], CounterIBAN = [], CounterName = [],
     Reverse = False, Status = [], UltimateDebit = None\<rparr>"

definition row_currency :: "statement_item \<Rightarrow> int" where
  \<comment> \<open>the code the decoder attaches to the amount\<close>
  "row_currency x = (case Currency_Parse (CurrencyCode x) of Some c \<Rightarrow> c | None \<Rightarrow> 0)"

definition statement_item_ok :: "seconds_codec \<Rightarrow> statement_item \<Rightarrow> bool" where
  "statement_item_ok ep x \<longleftrightarrow>
     list_all valid_utf8 [ID x, ExternalReference x, Description x, CurrencyCode x, ReceiptID x, CounterEdrpou x,
       CounterIBAN x, CounterName x, Status x] \<and>
     seconds_ok ep (Time x) \<and> seconds_ok ep (CompletedTime x) \<and>
     in_int64 (Minor (Amount x)) \<and> Code (Amount x) = row_currency x \<and>
     pred_option (\<lambda>u. valid_utf8 (fst u) \<and> valid_utf8 (snd u)) (UltimateDebit x)"

definition StatementItem_of :: "seconds_codec \<Rightarrow> json \<Rightarrow> statement_item option" where
  "StatementItem_of ep j = map_option
     (\<lambda>r. case Currency_Parse (CurrencyCode r) of
        Some c \<Rightarrow> r\<lparr>Amount := (Amount r)\<lparr>Code := c\<rparr>\<rparr> | None \<Rightarrow> r)
     (decode_struct (statement_item_fields ep) j statement_item_zero)"

lemma StatementItem_back:
  assumes "statement_item_ok ep x"
  shows "StatementItem_of ep (encode_struct (statement_item_fields ep) x) = Some x"
proof -
  have d: "distinct (map fst (statement_item_fields ep))" by (simp add: statement_item_fields_def codec)
  have "refill (statement_item_fields ep) x statement_item_zero = Some (x\<lparr>Amount := (Amount x)\<lparr>Code := 0\<rparr>\<rparr>)"
    using assms by (cases x)
      (simp add: statement_item_ok_def statement_item_fields_def statement_item_zero_def codec Money_New_def)
  then show ?thesis
    using assms d
    by (cases x) (auto simp: StatementItem_of_def decode_encode_struct statement_item_ok_def row_currency_def split: option.splits)
qed

interpretation statement_item: json_codec "encode_struct (statement_item_fields ep)" "StatementItem_of ep" "statement_item_ok ep" for ep
proof
  show "StatementItem_of ep (encode_struct (statement_item_fields ep) x) = Some x" if "statement_item_ok ep x" for x
    using that by (rule StatementItem_back)
  show "json_ok maxNestingDepth (encode_struct (statement_item_fields ep) x)" if ok: "statement_item_ok ep x" for x
    using ok by (intro json_ok_struct) (auto simp: statement_item_ok_def statement_item_fields_def codec maxNestingDepth_def)
qed

lemma StatementItem_UnmarshalJSON_of:
  "StatementItem_UnmarshalJSON (Unmarshal_json (\<lambda>j. decode_struct (statement_item_fields ep) j statement_item_zero)) data
   = Unmarshal_json (StatementItem_of ep) data"
  by (auto simp: Unmarshal_json_def StatementItem_UnmarshalJSON_def StatementItem_of_def split: option.split)

end
