(* ===== verification/Business_Types.thy ===== *)
theory Business_Types
  imports Business_Statement Business_Log Money_Float
begin

text \<open>
  The wire format of the business API (\<open>business/types.go\<close>): the requests and answers whose fields the other theories
  already use, and the small answers that nothing else looks into, each with its tags and the laws of its codec. \<open>PreparePayment\<close> and
  \<open>SubmitSalaryRegistryBatch\<close> over this wire format close the theory.
\<close>

definition business_account_fields :: "float_format \<Rightarrow> business_account field list" where
  "business_account_fields ff =
     [str_f ''iban'' baIBAN baIBAN_update, int_f ''currency'' baCurrency baCurrency_update,
      float_f ff ''balance'' baBalance baBalance_update]"

definition business_account_zero :: business_account where
  "business_account_zero = \<lparr>baIBAN = [], baCurrency = 0, baBalance = Fin 0\<rparr>"

definition business_account_ok :: "float_format \<Rightarrow> business_account \<Rightarrow> bool" where
  "business_account_ok ff x \<longleftrightarrow>
     valid_utf8 (baIBAN x) \<and> in_int64 (baCurrency x) \<and> float_ok ff (baBalance x)"

lemmas business_account_defs = business_account_fields_def business_account_zero_def business_account_ok_def

interpretation business_account: dto "business_account_fields ff" business_account_zero "business_account_ok ff" 1 for ff
proof
  show "refills (business_account_fields ff) business_account_zero x" if "business_account_ok ff x" for x
    using that by (cases x) (rule refillsI, simp_all add: business_account_defs codec)
  show "json_ok d (encode_struct (business_account_fields ff) x)" if "business_account_ok ff x" and "1 \<le> d" for d x
    using that by (intro json_ok_struct) (auto simp: business_account_defs codec)
qed simp

record balance_point =
  bpDate :: string
  bpBalance :: f64
  bpIsFinal :: bool

definition balance_point_fields :: "float_format \<Rightarrow> balance_point field list" where
  "balance_point_fields ff =
     [str_f ''date'' bpDate bpDate_update, float_f ff ''balance'' bpBalance bpBalance_update,
      bool_f ''isFinal'' bpIsFinal bpIsFinal_update]"

definition balance_point_zero :: balance_point where
  "balance_point_zero = \<lparr>bpDate = [], bpBalance = Fin 0, bpIsFinal = False\<rparr>"

definition balance_point_ok :: "float_format \<Rightarrow> balance_point \<Rightarrow> bool" where
  "balance_point_ok ff x \<longleftrightarrow>
     valid_utf8 (bpDate x) \<and> float_ok ff (bpBalance x)"

lemmas balance_point_defs = balance_point_fields_def balance_point_zero_def balance_point_ok_def

interpretation balance_point: dto "balance_point_fields ff" balance_point_zero "balance_point_ok ff" 1 for ff
proof
  show "refills (balance_point_fields ff) balance_point_zero x" if "balance_point_ok ff x" for x
    using that by (cases x) (rule refillsI, simp_all add: balance_point_defs codec)
  show "json_ok d (encode_struct (balance_point_fields ff) x)" if "balance_point_ok ff x" and "1 \<le> d" for d x
    using that by (intro json_ok_struct) (auto simp: balance_point_defs codec)
qed simp

definition contact_fields :: "contact field list" where
  "contact_fields =
     [str_f ''id'' coID coID_update, int_f ''leClientID'' coLEClientID coLEClientID_update,
      str_f ''fullName'' coFullName coFullName_update, str_f ''inn'' coINN coINN_update,
      str_o ''documentType'' coDocumentType coDocumentType_update,
      str_o ''documentNumber'' coDocumentNumber coDocumentNumber_update,
      str_o ''documentSeries'' coDocumentSeries coDocumentSeries_update, str_f ''iban'' coIBAN coIBAN_update,
      str_o ''pan'' coPAN coPAN_update]"

definition contact_zero :: contact where
  "contact_zero = \<lparr>coID = [], coLEClientID = 0, coFullName = [], coINN = [], coDocumentType = [], coDocumentNumber = [],
     coDocumentSeries = [], coIBAN = [], coPAN = []\<rparr>"

definition contact_ok :: "contact \<Rightarrow> bool" where
  "contact_ok x \<longleftrightarrow>
     list_all valid_utf8 [coID x, coFullName x, coINN x, coDocumentType x, coDocumentNumber x, coDocumentSeries x, coIBAN x, coPAN x] \<and>
     in_int64 (coLEClientID x)"

lemmas contact_defs = contact_fields_def contact_zero_def contact_ok_def

interpretation contact: dto contact_fields contact_zero contact_ok 1
proof
  show "refills contact_fields contact_zero x" if "contact_ok x" for x
    using that by (cases x) (rule refillsI, simp_all add: contact_defs codec)
  show "json_ok d (encode_struct contact_fields x)" if "contact_ok x" and "1 \<le> d" for d x
    using that by (intro json_ok_struct) (auto simp: contact_defs codec)
qed simp

definition contacts_page_fields :: "contact contacts_page field list" where
  "contacts_page_fields =
     [bool_f ''hasMore'' HasMore HasMore_update,
      structs_l contact_fields contact_zero ''contacts'' Contacts Contacts_update]"

definition contacts_page_zero :: "contact contacts_page" where
  "contacts_page_zero = \<lparr>HasMore = False, Contacts = []\<rparr>"

definition contacts_page_ok :: "contact contacts_page \<Rightarrow> bool" where
  "contacts_page_ok x \<longleftrightarrow>
     list_all contact_ok (Contacts x)"

lemmas contacts_page_defs = contacts_page_fields_def contacts_page_zero_def contacts_page_ok_def

interpretation contacts_page: dto contacts_page_fields contacts_page_zero contacts_page_ok 3
proof
  show "refills contacts_page_fields contacts_page_zero x" if "contacts_page_ok x" for x
    using that by (cases x) (rule refillsI, simp_all add: contacts_page_defs codec)
  show "json_ok d (encode_struct contacts_page_fields x)" if "contacts_page_ok x" and "3 \<le> d" for d x
    using that by (intro json_ok_struct) (auto simp: contacts_page_defs codec)
qed simp

definition create_contact_request_fields :: "create_contact_request field list" where
  "create_contact_request_fields =
     [str_o ''firstName'' crFirstName crFirstName_update, str_o ''lastName'' crLastName crLastName_update,
      str_o ''middleName'' crMiddleName crMiddleName_update, str_o ''inn'' crINN crINN_update,
      str_o ''documentType'' crDocumentType crDocumentType_update,
      str_o ''documentNumber'' crDocumentNumber crDocumentNumber_update,
      str_o ''documentSeries'' crDocumentSeries crDocumentSeries_update, str_o ''iban'' crIBAN crIBAN_update,
      str_o ''pan'' crPAN crPAN_update]"

definition create_contact_request_zero :: create_contact_request where
  "create_contact_request_zero = \<lparr>crFirstName = [], crLastName = [], crMiddleName = [], crINN = [], crDocumentType = [], crDocumentNumber = [],
     crDocumentSeries = [], crIBAN = [], crPAN = []\<rparr>"

definition create_contact_request_ok :: "create_contact_request \<Rightarrow> bool" where
  "create_contact_request_ok x \<longleftrightarrow>
     list_all valid_utf8 [crFirstName x, crLastName x, crMiddleName x, crINN x, crDocumentType x, crDocumentNumber x, crDocumentSeries x,
       crIBAN x, crPAN x]"

lemmas create_contact_request_defs = create_contact_request_fields_def create_contact_request_zero_def create_contact_request_ok_def

interpretation create_contact_request: dto create_contact_request_fields create_contact_request_zero create_contact_request_ok 1
proof
  show "refills create_contact_request_fields create_contact_request_zero x" if "create_contact_request_ok x" for x
    using that by (cases x) (rule refillsI, simp_all add: create_contact_request_defs codec)
  show "json_ok d (encode_struct create_contact_request_fields x)" if "create_contact_request_ok x" and "1 \<le> d" for d x
    using that by (intro json_ok_struct) (auto simp: create_contact_request_defs codec)
qed simp

definition salary_recipient_fields :: "salary_recipient field list" where
  "salary_recipient_fields =
     [str_o ''fullName'' FullName FullName_update, str_o ''inn'' INN INN_update,
      str_o ''documentType'' DocumentType DocumentType_update,
      str_o ''documentNumber'' DocumentNumber DocumentNumber_update,
      str_o ''documentSeries'' DocumentSeries DocumentSeries_update, str_f ''iban'' recIBAN recIBAN_update,
      int_f ''amount'' recAmount recAmount_update]"

definition salary_recipient_zero :: salary_recipient where
  "salary_recipient_zero = \<lparr>FullName = [], INN = [], DocumentType = [], DocumentNumber = [], DocumentSeries = [], recIBAN = [], recAmount = 0\<rparr>"

definition salary_recipient_ok :: "salary_recipient \<Rightarrow> bool" where
  "salary_recipient_ok x \<longleftrightarrow>
     list_all valid_utf8 [FullName x, INN x, DocumentType x, DocumentNumber x, DocumentSeries x, recIBAN x] \<and>
     in_int64 (recAmount x)"

lemmas salary_recipient_defs = salary_recipient_fields_def salary_recipient_zero_def salary_recipient_ok_def

interpretation salary_recipient: dto salary_recipient_fields salary_recipient_zero salary_recipient_ok 1
proof
  show "refills salary_recipient_fields salary_recipient_zero x" if "salary_recipient_ok x" for x
    using that by (cases x) (rule refillsI, simp_all add: salary_recipient_defs codec)
  show "json_ok d (encode_struct salary_recipient_fields x)" if "salary_recipient_ok x" and "1 \<le> d" for d x
    using that by (intro json_ok_struct) (auto simp: salary_recipient_defs codec)
qed simp

definition create_registry_request_fields :: "create_registry_request field list" where
  "create_registry_request_fields =
     [str_f ''registryName'' rgRegistryName rgRegistryName_update,
      str_f ''senderIban'' rgSenderIBAN rgSenderIBAN_update,
      str_f ''salaryRegistryType'' rgSalaryRegistryType rgSalaryRegistryType_update,
      str_f ''from'' rgFrom rgFrom_update, str_f ''to'' rgTo rgTo_update,
      structs_l salary_recipient_fields salary_recipient_zero ''recipients'' rgRecipients rgRecipients_update]"

definition create_registry_request_zero :: create_registry_request where
  "create_registry_request_zero = \<lparr>rgRegistryName = [], rgSenderIBAN = [], rgSalaryRegistryType = [], rgFrom = [], rgTo = [], rgRecipients = []\<rparr>"

definition create_registry_request_ok :: "create_registry_request \<Rightarrow> bool" where
  "create_registry_request_ok x \<longleftrightarrow>
     list_all valid_utf8 [rgRegistryName x, rgSenderIBAN x, rgSalaryRegistryType x, rgFrom x, rgTo x] \<and>
     list_all salary_recipient_ok (rgRecipients x)"

lemmas create_registry_request_defs = create_registry_request_fields_def create_registry_request_zero_def create_registry_request_ok_def

interpretation create_registry_request: dto create_registry_request_fields create_registry_request_zero create_registry_request_ok 3
proof
  show "refills create_registry_request_fields create_registry_request_zero x" if "create_registry_request_ok x" for x
    using that by (cases x) (rule refillsI, simp_all add: create_registry_request_defs codec)
  show "json_ok d (encode_struct create_registry_request_fields x)" if "create_registry_request_ok x" and "3 \<le> d" for d x
    using that by (intro json_ok_struct) (auto simp: create_registry_request_defs codec)
qed simp

record salary_registry_created =
  scID :: string
  scState :: string
  scCreateTimestamp :: string

definition salary_registry_created_fields :: "salary_registry_created field list" where
  "salary_registry_created_fields =
     [str_f ''id'' scID scID_update, str_f ''state'' scState scState_update,
      str_f ''createTimestamp'' scCreateTimestamp scCreateTimestamp_update]"

definition salary_registry_created_zero :: salary_registry_created where
  "salary_registry_created_zero = \<lparr>scID = [], scState = [], scCreateTimestamp = []\<rparr>"

definition salary_registry_created_ok :: "salary_registry_created \<Rightarrow> bool" where
  "salary_registry_created_ok x \<longleftrightarrow>
     list_all valid_utf8 [scID x, scState x, scCreateTimestamp x]"

lemmas salary_registry_created_defs = salary_registry_created_fields_def salary_registry_created_zero_def salary_registry_created_ok_def

interpretation salary_registry_created: dto salary_registry_created_fields salary_registry_created_zero salary_registry_created_ok 1
proof
  show "refills salary_registry_created_fields salary_registry_created_zero x" if "salary_registry_created_ok x" for x
    using that by (cases x) (rule refillsI, simp_all add: salary_registry_created_defs codec)
  show "json_ok d (encode_struct salary_registry_created_fields x)" if "salary_registry_created_ok x" and "1 \<le> d" for d x
    using that by (intro json_ok_struct) (auto simp: salary_registry_created_defs codec)
qed simp

definition submit_batch_request_fields :: "submit_batch_request field list" where
  "submit_batch_request_fields =
     [str_f ''registryReference'' RegistryReference RegistryReference_update,
      str_o ''registryName'' RegistryName RegistryName_update, str_f ''senderIban'' SenderIBAN SenderIBAN_update,
      str_f ''salaryRegistryType'' SalaryRegistryType SalaryRegistryType_update, str_f ''from'' From From_update,
      str_f ''to'' To To_update,
      structs_l salary_recipient_fields salary_recipient_zero ''recipients'' Recipients Recipients_update]"

definition submit_batch_request_zero :: submit_batch_request where
  "submit_batch_request_zero = \<lparr>RegistryReference = [], RegistryName = [], SenderIBAN = [], SalaryRegistryType = [], From = [], To = [],
     Recipients = []\<rparr>"

definition submit_batch_request_ok :: "submit_batch_request \<Rightarrow> bool" where
  "submit_batch_request_ok x \<longleftrightarrow>
     list_all valid_utf8 [RegistryReference x, RegistryName x, SenderIBAN x, SalaryRegistryType x, From x, To x] \<and>
     list_all salary_recipient_ok (Recipients x)"

lemmas submit_batch_request_defs = submit_batch_request_fields_def submit_batch_request_zero_def submit_batch_request_ok_def

interpretation submit_batch_request: dto submit_batch_request_fields submit_batch_request_zero submit_batch_request_ok 3
proof
  show "refills submit_batch_request_fields submit_batch_request_zero x" if "submit_batch_request_ok x" for x
    using that by (cases x) (rule refillsI, simp_all add: submit_batch_request_defs codec)
  show "json_ok d (encode_struct submit_batch_request_fields x)" if "submit_batch_request_ok x" and "3 \<le> d" for d x
    using that by (intro json_ok_struct) (auto simp: submit_batch_request_defs codec)
qed simp

record registry_batch_accepted =
  sbID :: string
  sbRegistryReference :: string
  sbState :: string
  sbCreateTimestamp :: string

definition registry_batch_accepted_fields :: "registry_batch_accepted field list" where
  "registry_batch_accepted_fields =
     [str_f ''id'' sbID sbID_update, str_f ''registryReference'' sbRegistryReference sbRegistryReference_update,
      str_f ''state'' sbState sbState_update, str_f ''createTimestamp'' sbCreateTimestamp sbCreateTimestamp_update]"

definition registry_batch_accepted_zero :: registry_batch_accepted where
  "registry_batch_accepted_zero = \<lparr>sbID = [], sbRegistryReference = [], sbState = [], sbCreateTimestamp = []\<rparr>"

definition registry_batch_accepted_ok :: "registry_batch_accepted \<Rightarrow> bool" where
  "registry_batch_accepted_ok x \<longleftrightarrow>
     list_all valid_utf8 [sbID x, sbRegistryReference x, sbState x, sbCreateTimestamp x]"

lemmas registry_batch_accepted_defs = registry_batch_accepted_fields_def registry_batch_accepted_zero_def registry_batch_accepted_ok_def

interpretation registry_batch_accepted: dto registry_batch_accepted_fields registry_batch_accepted_zero registry_batch_accepted_ok 1
proof
  show "refills registry_batch_accepted_fields registry_batch_accepted_zero x" if "registry_batch_accepted_ok x" for x
    using that by (cases x) (rule refillsI, simp_all add: registry_batch_accepted_defs codec)
  show "json_ok d (encode_struct registry_batch_accepted_fields x)" if "registry_batch_accepted_ok x" and "1 \<le> d" for d x
    using that by (intro json_ok_struct) (auto simp: registry_batch_accepted_defs codec)
qed simp

record salary_registry_type =
  stAlias :: string
  stDescription :: string

definition salary_registry_type_fields :: "salary_registry_type field list" where
  "salary_registry_type_fields =
     [str_f ''alias'' stAlias stAlias_update, str_f ''description'' stDescription stDescription_update]"

definition salary_registry_type_zero :: salary_registry_type where
  "salary_registry_type_zero = \<lparr>stAlias = [], stDescription = []\<rparr>"

definition salary_registry_type_ok :: "salary_registry_type \<Rightarrow> bool" where
  "salary_registry_type_ok x \<longleftrightarrow>
     list_all valid_utf8 [stAlias x, stDescription x]"

lemmas salary_registry_type_defs = salary_registry_type_fields_def salary_registry_type_zero_def salary_registry_type_ok_def

interpretation salary_registry_type: dto salary_registry_type_fields salary_registry_type_zero salary_registry_type_ok 1
proof
  show "refills salary_registry_type_fields salary_registry_type_zero x" if "salary_registry_type_ok x" for x
    using that by (cases x) (rule refillsI, simp_all add: salary_registry_type_defs codec)
  show "json_ok d (encode_struct salary_registry_type_fields x)" if "salary_registry_type_ok x" and "1 \<le> d" for d x
    using that by (intro json_ok_struct) (auto simp: salary_registry_type_defs codec)
qed simp

record salary_registry_status =
  ssStatus :: string
  ssUpdatedAt :: string
  ssDeclineReason :: string

definition salary_registry_status_fields :: "salary_registry_status field list" where
  "salary_registry_status_fields =
     [str_f ''status'' ssStatus ssStatus_update, str_f ''updatedAt'' ssUpdatedAt ssUpdatedAt_update,
      str_o ''declineReason'' ssDeclineReason ssDeclineReason_update]"

definition salary_registry_status_zero :: salary_registry_status where
  "salary_registry_status_zero = \<lparr>ssStatus = [], ssUpdatedAt = [], ssDeclineReason = []\<rparr>"

definition salary_registry_status_ok :: "salary_registry_status \<Rightarrow> bool" where
  "salary_registry_status_ok x \<longleftrightarrow>
     list_all valid_utf8 [ssStatus x, ssUpdatedAt x, ssDeclineReason x]"

lemmas salary_registry_status_defs = salary_registry_status_fields_def salary_registry_status_zero_def salary_registry_status_ok_def

interpretation salary_registry_status: dto salary_registry_status_fields salary_registry_status_zero salary_registry_status_ok 1
proof
  show "refills salary_registry_status_fields salary_registry_status_zero x" if "salary_registry_status_ok x" for x
    using that by (cases x) (rule refillsI, simp_all add: salary_registry_status_defs codec)
  show "json_ok d (encode_struct salary_registry_status_fields x)" if "salary_registry_status_ok x" and "1 \<le> d" for d x
    using that by (intro json_ok_struct) (auto simp: salary_registry_status_defs codec)
qed simp

definition payment_receiver_fields :: "payment_receiver field list" where
  "payment_receiver_fields =
     [str_f ''iban'' prIBAN prIBAN_update, str_f ''edrpou'' prEDRPOU prEDRPOU_update,
      str_f ''name'' prName prName_update]"

definition payment_receiver_zero :: payment_receiver where
  "payment_receiver_zero = \<lparr>prIBAN = [], prEDRPOU = [], prName = []\<rparr>"

definition payment_receiver_ok :: "payment_receiver \<Rightarrow> bool" where
  "payment_receiver_ok x \<longleftrightarrow>
     list_all valid_utf8 [prIBAN x, prEDRPOU x, prName x]"

lemmas payment_receiver_defs = payment_receiver_fields_def payment_receiver_zero_def payment_receiver_ok_def

interpretation payment_receiver: dto payment_receiver_fields payment_receiver_zero payment_receiver_ok 1
proof
  show "refills payment_receiver_fields payment_receiver_zero x" if "payment_receiver_ok x" for x
    using that by (cases x) (rule refillsI, simp_all add: payment_receiver_defs codec)
  show "json_ok d (encode_struct payment_receiver_fields x)" if "payment_receiver_ok x" and "1 \<le> d" for d x
    using that by (intro json_ok_struct) (auto simp: payment_receiver_defs codec)
qed simp

definition ultimate_debit_fields :: "ultimate_debit field list" where
  "ultimate_debit_fields =
     [str_f ''id'' udID udID_update, str_f ''name'' udName udName_update]"

definition ultimate_debit_zero :: ultimate_debit where
  "ultimate_debit_zero = \<lparr>udID = [], udName = []\<rparr>"

definition ultimate_debit_ok :: "ultimate_debit \<Rightarrow> bool" where
  "ultimate_debit_ok x \<longleftrightarrow>
     list_all valid_utf8 [udID x, udName x]"

lemmas ultimate_debit_defs = ultimate_debit_fields_def ultimate_debit_zero_def ultimate_debit_ok_def

interpretation ultimate_debit: dto ultimate_debit_fields ultimate_debit_zero ultimate_debit_ok 1
proof
  show "refills ultimate_debit_fields ultimate_debit_zero x" if "ultimate_debit_ok x" for x
    using that by (cases x) (rule refillsI, simp_all add: ultimate_debit_defs codec)
  show "json_ok d (encode_struct ultimate_debit_fields x)" if "ultimate_debit_ok x" and "1 \<le> d" for d x
    using that by (intro json_ok_struct) (auto simp: ultimate_debit_defs codec)
qed simp

definition payment_request_fields :: "payment_request field list" where
  "payment_request_fields =
     [str_f ''senderIban'' pySenderIBAN pySenderIBAN_update,
      struct_f payment_receiver_fields ''receiver'' pyReceiver pyReceiver_update,
      str_f ''destination'' pyDestination pyDestination_update, int_f ''amount'' pyAmount pyAmount_update,
      str_f ''currency'' pyCurrency pyCurrency_update, str_o ''payCode'' pyPayCode pyPayCode_update,
      str_o ''additionalInfo'' pyAdditionalInfo pyAdditionalInfo_update,
      str_o ''externalReference'' pyExternalReference pyExternalReference_update,
      struct_o ultimate_debit_fields ultimate_debit_zero ''ultimateDebit'' pyUltimateDebit pyUltimateDebit_update]"

definition payment_request_zero :: payment_request where
  "payment_request_zero = \<lparr>pySenderIBAN = [], pyReceiver = payment_receiver_zero, pyDestination = [], pyAmount = 0, pyCurrency = [],
     pyPayCode = [], pyAdditionalInfo = [], pyExternalReference = [], pyUltimateDebit = None\<rparr>"

definition payment_request_ok :: "payment_request \<Rightarrow> bool" where
  "payment_request_ok x \<longleftrightarrow>
     list_all valid_utf8 [pySenderIBAN x, pyDestination x, pyCurrency x, pyPayCode x, pyAdditionalInfo x, pyExternalReference x] \<and>
     in_int64 (pyAmount x) \<and> payment_receiver_ok (pyReceiver x) \<and>
     pred_option ultimate_debit_ok (pyUltimateDebit x)"

lemmas payment_request_defs = payment_request_fields_def payment_request_zero_def payment_request_ok_def

interpretation payment_request: dto payment_request_fields payment_request_zero payment_request_ok 2
proof
  show "refills payment_request_fields payment_request_zero x" if "payment_request_ok x" for x
    using that by (cases x) (rule refillsI, simp_all add: payment_request_defs codec)
  show "json_ok d (encode_struct payment_request_fields x)" if "payment_request_ok x" and "2 \<le> d" for d x
    using that by (intro json_ok_struct) (auto simp: payment_request_defs codec)
qed simp

record payment_prepared =
  ppID :: string

definition payment_prepared_fields :: "payment_prepared field list" where
  "payment_prepared_fields =
     [str_f ''id'' ppID ppID_update]"

definition payment_prepared_zero :: payment_prepared where
  "payment_prepared_zero = \<lparr>ppID = []\<rparr>"

definition payment_prepared_ok :: "payment_prepared \<Rightarrow> bool" where
  "payment_prepared_ok x \<longleftrightarrow>
     valid_utf8 (ppID x)"

lemmas payment_prepared_defs = payment_prepared_fields_def payment_prepared_zero_def payment_prepared_ok_def

interpretation payment_prepared: dto payment_prepared_fields payment_prepared_zero payment_prepared_ok 1
proof
  show "refills payment_prepared_fields payment_prepared_zero x" if "payment_prepared_ok x" for x
    using that by (cases x) (rule refillsI, simp_all add: payment_prepared_defs codec)
  show "json_ok d (encode_struct payment_prepared_fields x)" if "payment_prepared_ok x" and "1 \<le> d" for d x
    using that by (intro json_ok_struct) (auto simp: payment_prepared_defs codec)
qed simp

record payment_state =
  psID :: string
  psState :: string

definition payment_state_fields :: "payment_state field list" where
  "payment_state_fields =
     [str_f ''id'' psID psID_update, str_f ''state'' psState psState_update]"

definition payment_state_zero :: payment_state where
  "payment_state_zero = \<lparr>psID = [], psState = []\<rparr>"

definition payment_state_ok :: "payment_state \<Rightarrow> bool" where
  "payment_state_ok x \<longleftrightarrow>
     list_all valid_utf8 [psID x, psState x]"

lemmas payment_state_defs = payment_state_fields_def payment_state_zero_def payment_state_ok_def

interpretation payment_state: dto payment_state_fields payment_state_zero payment_state_ok 1
proof
  show "refills payment_state_fields payment_state_zero x" if "payment_state_ok x" for x
    using that by (cases x) (rule refillsI, simp_all add: payment_state_defs codec)
  show "json_ok d (encode_struct payment_state_fields x)" if "payment_state_ok x" and "1 \<le> d" for d x
    using that by (intro json_ok_struct) (auto simp: payment_state_defs codec)
qed simp

definition batch_attribute_fields :: "batch_attribute field list" where
  "batch_attribute_fields =
     [str_f ''attributeName'' atAttributeName atAttributeName_update, str_f ''value'' atValue atValue_update,
      int_f ''sortOrder'' atSortOrder atSortOrder_update,
      str_o ''attributeSuffix'' atAttributeSuffix atAttributeSuffix_update]"

definition batch_attribute_zero :: batch_attribute where
  "batch_attribute_zero = \<lparr>atAttributeName = [], atValue = [], atSortOrder = 0, atAttributeSuffix = []\<rparr>"

definition batch_attribute_ok :: "batch_attribute \<Rightarrow> bool" where
  "batch_attribute_ok x \<longleftrightarrow>
     list_all valid_utf8 [atAttributeName x, atValue x, atAttributeSuffix x] \<and> in_int64 (atSortOrder x)"

lemmas batch_attribute_defs = batch_attribute_fields_def batch_attribute_zero_def batch_attribute_ok_def

interpretation batch_attribute: dto batch_attribute_fields batch_attribute_zero batch_attribute_ok 1
proof
  show "refills batch_attribute_fields batch_attribute_zero x" if "batch_attribute_ok x" for x
    using that by (cases x) (rule refillsI, simp_all add: batch_attribute_defs codec)
  show "json_ok d (encode_struct batch_attribute_fields x)" if "batch_attribute_ok x" and "1 \<le> d" for d x
    using that by (intro json_ok_struct) (auto simp: batch_attribute_defs codec)
qed simp

definition batch_employee_fields :: "batch_employee field list" where
  "batch_employee_fields =
     [str_f ''identification'' emIdentification emIdentification_update,
      structs_l batch_attribute_fields batch_attribute_zero ''attributes'' emAttributes emAttributes_update]"

definition batch_employee_zero :: batch_employee where
  "batch_employee_zero = \<lparr>emIdentification = [], emAttributes = []\<rparr>"

definition batch_employee_ok :: "batch_employee \<Rightarrow> bool" where
  "batch_employee_ok x \<longleftrightarrow>
     valid_utf8 (emIdentification x) \<and> list_all batch_attribute_ok (emAttributes x)"

lemmas batch_employee_defs = batch_employee_fields_def batch_employee_zero_def batch_employee_ok_def

interpretation batch_employee: dto batch_employee_fields batch_employee_zero batch_employee_ok 3
proof
  show "refills batch_employee_fields batch_employee_zero x" if "batch_employee_ok x" for x
    using that by (cases x) (rule refillsI, simp_all add: batch_employee_defs codec)
  show "json_ok d (encode_struct batch_employee_fields x)" if "batch_employee_ok x" and "3 \<le> d" for d x
    using that by (intro json_ok_struct) (auto simp: batch_employee_defs codec)
qed simp

definition batch_payslip_request_fields :: "batch_payslip_request field list" where
  "batch_payslip_request_fields =
     [str_f ''period'' bpPeriod bpPeriod_update,
      structs_l batch_employee_fields batch_employee_zero ''employees'' bpEmployees bpEmployees_update]"

definition batch_payslip_request_zero :: batch_payslip_request where
  "batch_payslip_request_zero = \<lparr>bpPeriod = [], bpEmployees = []\<rparr>"

definition batch_payslip_request_ok :: "batch_payslip_request \<Rightarrow> bool" where
  "batch_payslip_request_ok x \<longleftrightarrow>
     valid_utf8 (bpPeriod x) \<and> list_all batch_employee_ok (bpEmployees x)"

lemmas batch_payslip_request_defs = batch_payslip_request_fields_def batch_payslip_request_zero_def batch_payslip_request_ok_def

interpretation batch_payslip_request: dto batch_payslip_request_fields batch_payslip_request_zero batch_payslip_request_ok 5
proof
  show "refills batch_payslip_request_fields batch_payslip_request_zero x" if "batch_payslip_request_ok x" for x
    using that by (cases x) (rule refillsI, simp_all add: batch_payslip_request_defs codec)
  show "json_ok d (encode_struct batch_payslip_request_fields x)" if "batch_payslip_request_ok x" and "5 \<le> d" for d x
    using that by (intro json_ok_struct) (auto simp: batch_payslip_request_defs codec)
qed simp

definition delete_payslips_request_fields :: "delete_payslips_request field list" where
  "delete_payslips_request_fields =
     [str_f ''period'' dpPeriod dpPeriod_update, strs_f ''identifications'' dpIdentifications dpIdentifications_update]"

definition delete_payslips_request_zero :: delete_payslips_request where
  "delete_payslips_request_zero = \<lparr>dpPeriod = [], dpIdentifications = []\<rparr>"

definition delete_payslips_request_ok :: "delete_payslips_request \<Rightarrow> bool" where
  "delete_payslips_request_ok x \<longleftrightarrow>
     valid_utf8 (dpPeriod x) \<and> list_all valid_utf8 (dpIdentifications x)"

lemmas delete_payslips_request_defs = delete_payslips_request_fields_def delete_payslips_request_zero_def delete_payslips_request_ok_def

interpretation delete_payslips_request: dto delete_payslips_request_fields delete_payslips_request_zero delete_payslips_request_ok 2
proof
  show "refills delete_payslips_request_fields delete_payslips_request_zero x" if "delete_payslips_request_ok x" for x
    using that by (cases x) (rule refillsI, simp_all add: delete_payslips_request_defs codec)
  show "json_ok d (encode_struct delete_payslips_request_fields x)" if "delete_payslips_request_ok x" and "2 \<le> d" for d x
    using that by (intro json_ok_struct) (auto simp: delete_payslips_request_defs codec)
qed simp

definition batch_stats_fields :: "batch_stats field list" where
  "batch_stats_fields =
     [int_f ''employeesInBatch'' EmployeesInBatch EmployeesInBatch_update,
      int_f ''successInBatch'' SuccessInBatch SuccessInBatch_update,
      int_f ''failedInBatch'' FailedInBatch FailedInBatch_update]"

definition batch_stats_zero :: batch_stats where
  "batch_stats_zero = \<lparr>EmployeesInBatch = 0, SuccessInBatch = 0, FailedInBatch = 0\<rparr>"

definition batch_stats_ok :: "batch_stats \<Rightarrow> bool" where
  "batch_stats_ok x \<longleftrightarrow>
     list_all in_int64 [EmployeesInBatch x, SuccessInBatch x, FailedInBatch x]"

lemmas batch_stats_defs = batch_stats_fields_def batch_stats_zero_def batch_stats_ok_def

interpretation batch_stats: dto batch_stats_fields batch_stats_zero batch_stats_ok 1
proof
  show "refills batch_stats_fields batch_stats_zero x" if "batch_stats_ok x" for x
    using that by (cases x) (rule refillsI, simp_all add: batch_stats_defs codec)
  show "json_ok d (encode_struct batch_stats_fields x)" if "batch_stats_ok x" and "1 \<le> d" for d x
    using that by (intro json_ok_struct) (auto simp: batch_stats_defs codec)
qed simp

definition overall_stats_fields :: "overall_stats field list" where
  "overall_stats_fields =
     [int_f ''totalEmployees'' TotalEmployees TotalEmployees_update,
      int_f ''totalSuccessEmployees'' TotalSuccessEmployees TotalSuccessEmployees_update,
      int_f ''totalFailedEmployees'' TotalFailedEmployees TotalFailedEmployees_update]"

definition overall_stats_zero :: overall_stats where
  "overall_stats_zero = \<lparr>TotalEmployees = 0, TotalSuccessEmployees = 0, TotalFailedEmployees = 0\<rparr>"

definition overall_stats_ok :: "overall_stats \<Rightarrow> bool" where
  "overall_stats_ok x \<longleftrightarrow>
     list_all in_int64 [TotalEmployees x, TotalSuccessEmployees x, TotalFailedEmployees x]"

lemmas overall_stats_defs = overall_stats_fields_def overall_stats_zero_def overall_stats_ok_def

interpretation overall_stats: dto overall_stats_fields overall_stats_zero overall_stats_ok 1
proof
  show "refills overall_stats_fields overall_stats_zero x" if "overall_stats_ok x" for x
    using that by (cases x) (rule refillsI, simp_all add: overall_stats_defs codec)
  show "json_ok d (encode_struct overall_stats_fields x)" if "overall_stats_ok x" and "1 \<le> d" for d x
    using that by (intro json_ok_struct) (auto simp: overall_stats_defs codec)
qed simp

definition failed_employee_fields :: "failed_employee field list" where
  "failed_employee_fields =
     [str_f ''identification'' feIdentification feIdentification_update, str_f ''reason'' feReason feReason_update]"

definition failed_employee_zero :: failed_employee where
  "failed_employee_zero = \<lparr>feIdentification = [], feReason = []\<rparr>"

definition failed_employee_ok :: "failed_employee \<Rightarrow> bool" where
  "failed_employee_ok x \<longleftrightarrow>
     list_all valid_utf8 [feIdentification x, feReason x]"

lemmas failed_employee_defs = failed_employee_fields_def failed_employee_zero_def failed_employee_ok_def

interpretation failed_employee: dto failed_employee_fields failed_employee_zero failed_employee_ok 1
proof
  show "refills failed_employee_fields failed_employee_zero x" if "failed_employee_ok x" for x
    using that by (cases x) (rule refillsI, simp_all add: failed_employee_defs codec)
  show "json_ok d (encode_struct failed_employee_fields x)" if "failed_employee_ok x" and "1 \<le> d" for d x
    using that by (intro json_ok_struct) (auto simp: failed_employee_defs codec)
qed simp

definition batch_payslip_response_fields :: "batch_payslip_response field list" where
  "batch_payslip_response_fields =
     [str_f ''period'' brPeriod brPeriod_update, str_f ''status'' brStatus brStatus_update,
      struct_f batch_stats_fields ''batchStats'' brBatchStats brBatchStats_update,
      struct_f overall_stats_fields ''overallStats'' brOverallStats brOverallStats_update,
      structs_l failed_employee_fields failed_employee_zero ''failedEmployees'' brFailedEmployees brFailedEmployees_update,
      str_f ''createdAt'' brCreatedAt brCreatedAt_update, str_f ''updatedAt'' brUpdatedAt brUpdatedAt_update]"

definition batch_payslip_response_zero :: batch_payslip_response where
  "batch_payslip_response_zero = \<lparr>brPeriod = [], brStatus = [], brBatchStats = batch_stats_zero, brOverallStats = overall_stats_zero,
     brFailedEmployees = [], brCreatedAt = [], brUpdatedAt = []\<rparr>"

definition batch_payslip_response_ok :: "batch_payslip_response \<Rightarrow> bool" where
  "batch_payslip_response_ok x \<longleftrightarrow>
     list_all valid_utf8 [brPeriod x, brStatus x, brCreatedAt x, brUpdatedAt x] \<and> batch_stats_ok (brBatchStats x) \<and>
     overall_stats_ok (brOverallStats x) \<and> list_all failed_employee_ok (brFailedEmployees x)"

lemmas batch_payslip_response_defs = batch_payslip_response_fields_def batch_payslip_response_zero_def batch_payslip_response_ok_def

interpretation batch_payslip_response: dto batch_payslip_response_fields batch_payslip_response_zero batch_payslip_response_ok 3
proof
  show "refills batch_payslip_response_fields batch_payslip_response_zero x" if "batch_payslip_response_ok x" for x
    using that by (cases x) (rule refillsI, simp_all add: batch_payslip_response_defs codec)
  show "json_ok d (encode_struct batch_payslip_response_fields x)" if "batch_payslip_response_ok x" and "3 \<le> d" for d x
    using that by (intro json_ok_struct) (auto simp: batch_payslip_response_defs codec)
qed simp

definition import_status_response_fields :: "import_status_response field list" where
  "import_status_response_fields =
     [str_f ''period'' isPeriod isPeriod_update, str_f ''status'' isStatus isStatus_update,
      int_f ''totalEmployees'' isTotalEmployees isTotalEmployees_update,
      int_f ''totalSuccessEmployees'' isTotalSuccessEmployees isTotalSuccessEmployees_update,
      int_f ''totalFailedEmployees'' isTotalFailedEmployees isTotalFailedEmployees_update,
      structs_l failed_employee_fields failed_employee_zero ''failedEmployees'' isFailedEmployees isFailedEmployees_update,
      str_f ''createdAt'' isCreatedAt isCreatedAt_update, str_f ''updatedAt'' isUpdatedAt isUpdatedAt_update]"

definition import_status_response_zero :: import_status_response where
  "import_status_response_zero = \<lparr>isPeriod = [], isStatus = [], isTotalEmployees = 0, isTotalSuccessEmployees = 0, isTotalFailedEmployees = 0,
     isFailedEmployees = [], isCreatedAt = [], isUpdatedAt = []\<rparr>"

definition import_status_response_ok :: "import_status_response \<Rightarrow> bool" where
  "import_status_response_ok x \<longleftrightarrow>
     list_all valid_utf8 [isPeriod x, isStatus x, isCreatedAt x, isUpdatedAt x] \<and>
     list_all in_int64 [isTotalEmployees x, isTotalSuccessEmployees x, isTotalFailedEmployees x] \<and>
     list_all failed_employee_ok (isFailedEmployees x)"

lemmas import_status_response_defs = import_status_response_fields_def import_status_response_zero_def import_status_response_ok_def

interpretation import_status_response: dto import_status_response_fields import_status_response_zero import_status_response_ok 3
proof
  show "refills import_status_response_fields import_status_response_zero x" if "import_status_response_ok x" for x
    using that by (cases x) (rule refillsI, simp_all add: import_status_response_defs codec)
  show "json_ok d (encode_struct import_status_response_fields x)" if "import_status_response_ok x" and "3 \<le> d" for d x
    using that by (intro json_ok_struct) (auto simp: import_status_response_defs codec)
qed simp

record send_result =
  srPeriod :: string
  srStatus :: string
  srEmployeesSent :: int

definition send_result_fields :: "send_result field list" where
  "send_result_fields =
     [str_f ''period'' srPeriod srPeriod_update, str_f ''status'' srStatus srStatus_update,
      int_f ''employeesSent'' srEmployeesSent srEmployeesSent_update]"

definition send_result_zero :: send_result where
  "send_result_zero = \<lparr>srPeriod = [], srStatus = [], srEmployeesSent = 0\<rparr>"

definition send_result_ok :: "send_result \<Rightarrow> bool" where
  "send_result_ok x \<longleftrightarrow>
     list_all valid_utf8 [srPeriod x, srStatus x] \<and> in_int64 (srEmployeesSent x)"

lemmas send_result_defs = send_result_fields_def send_result_zero_def send_result_ok_def

interpretation send_result: dto send_result_fields send_result_zero send_result_ok 1
proof
  show "refills send_result_fields send_result_zero x" if "send_result_ok x" for x
    using that by (cases x) (rule refillsI, simp_all add: send_result_defs codec)
  show "json_ok d (encode_struct send_result_fields x)" if "send_result_ok x" and "1 \<le> d" for d x
    using that by (intro json_ok_struct) (auto simp: send_result_defs codec)
qed simp

section \<open>Payments and registries on the wire\<close>

text \<open>A batch of salaries within the limits goes out whole, under one key; any other batch is refused locally.\<close>

lemma SubmitSalaryRegistryBatch_carries_the_batch:
  assumes "plain_client env c sent" and "go_targets env" and "submit_batch_request_ok r"
    and "SubmitSalaryRegistryBatch env ua c (\<lambda>r. Marshal_json (encode_struct submit_batch_request_fields r)) key (Some r) w = (res, w')"
  shows "\<exists>R rs. sent w' = sent w @ map (\<lambda>x. (R, x)) rs \<and> length rs \<le> attempts_of (retry c) \<and>
    (rs \<noteq> [] \<longrightarrow> key \<noteq> [] \<and> rHeader R ''Idempotency-Key'' = key \<and> rMethod R = ''POST'' \<and>
      1 \<le> length (Recipients r) \<and> length (Recipients r) \<le> 1000 \<and>
      carries (\<lambda>j. decode_struct submit_batch_request_fields j submit_batch_request_zero) r R)"
proof (cases "key = [] \<or> Recipients r = [] \<or> MaxSalaryBatchRecipients < length (Recipients r)")
  case True
  then have "w' = w" using assms(4) by (auto simp: SubmitSalaryRegistryBatch_def Let_def split: if_splits)
  then show ?thesis by (intro exI [of _ undefined] exI [of _ "[]"]) simp
next
  case False
  let ?uri = "''/ext/v2/payments/salary/registries''"
  have s: "send_json env ua c ''POST'' ?uri (Marshal_json (encode_struct submit_batch_request_fields r)) [(''Idempotency-Key'', key)] TJSON [200] w = (res, w')"
    using assms(4) False by (simp add: SubmitSalaryRegistryBatch_def keyed_post_def Let_def)
  have t: "target_ok ?uri" by (rule literal_target) (simp add: literal_path)
  have n: "1 \<le> length (Recipients r) \<and> length (Recipients r) \<le> 1000"
    using False by (cases "Recipients r") (auto simp: MaxSalaryBatchRecipients_def)
  obtain R rs where R: "sent w' = sent w @ map (\<lambda>x. (R, x)) rs" "length rs \<le> attempts_of (retry c)"
    "rs \<noteq> [] \<longrightarrow> (\<exists>b. Marshal_json (encode_struct submit_batch_request_fields r) = Inr b \<and> is_call c ''POST'' ?uri (Some b) [(''Idempotency-Key'', key)] R) \<and>
       carries (\<lambda>j. decode_struct submit_batch_request_fields j submit_batch_request_zero) r R"
    using submit_batch_request.send_json_carries [OF assms(1,2) t assms(3) s] False by (auto simp: repeatable_def)
  then show ?thesis using n False by (intro exI [of _ R] exI [of _ rs]) (auto simp: is_call_def)
qed

text \<open>
  C33: a payment is prepared under one idempotency key, and whole. Whatever the transport answers, all exchanges
  caused by one \<open>PreparePayment\<close> of a payment whose texts are UTF-8, retries included, are the same POST with the
  same non-empty key, at most as many as the retry policy allows, and its body decodes to exactly that payment,
  amount, receiver and ultimate debtor included; without a key nothing is sent. If the last answer is the encoding of
  a prepared payment, that is what the caller gets.
\<close>

theorem PreparePayment_carries_the_payment:
  assumes "plain_client env c sent" and "go_targets env" and "payment_request_ok rq"
    and "decodes_with (\<lambda>j. decode_struct payment_prepared_fields j payment_prepared_zero) env"
    and "PreparePayment env ua c (\<lambda>r. Marshal_json (encode_struct payment_request_fields r)) key (Some rq) w = (res, w')"
  shows "\<exists>R rs. sent w' = sent w @ map (\<lambda>x. (R, x)) rs \<and> length rs \<le> attempts_of (retry c) \<and>
    (rs \<noteq> [] \<longrightarrow> key \<noteq> [] \<and> rHeader R ''Idempotency-Key'' = key \<and> rMethod R = ''POST'' \<and>
      carries (\<lambda>j. decode_struct payment_request_fields j payment_request_zero) rq R) \<and>
    (\<forall>out1 x. res = Inr out1 \<and> payment_prepared_ok x \<longrightarrow>
      (\<exists>resp. rs \<noteq> [] \<and> last rs = Inr resp \<and> StatusCode resp = 200 \<and>
        (answers (encode_struct payment_prepared_fields) resp x \<longrightarrow> out1 = JsonOut x)))"
proof (cases "key = []")
  case True
  with assms(5) have "w' = w \<and> res = Inl (Guard ErrIdempotencyKeyRequired)" by (simp add: PreparePayment_def)
  then show ?thesis by (intro exI [of _ undefined] exI [of _ "[]"]) simp
next
  case False
  let ?uri = "''/ext/v1/payment/prepare''"
  have s: "send_json env ua c ''POST'' ?uri (Marshal_json (encode_struct payment_request_fields rq)) [(''Idempotency-Key'', key)] TJSON [200] w = (res, w')"
    using assms(5) False by (simp add: PreparePayment_def keyed_post_def)
  have t: "target_ok ?uri" by (rule literal_target) (simp add: literal_path)
  have o: "observed env c sent" using assms(1) by (simp add: plain_client_def)
  obtain R rs where R: "sent w' = sent w @ map (\<lambda>x. (R, x)) rs" "length rs \<le> attempts_of (retry c)"
    "rs \<noteq> [] \<longrightarrow> rHeader R ''Idempotency-Key'' = key \<and> rMethod R = ''POST'' \<and>
       carries (\<lambda>j. decode_struct payment_request_fields j payment_request_zero) rq R"
    "\<forall>out1. res = Inr out1 \<longrightarrow> rs \<noteq> []"
    using payment_request.send_json_carries [OF assms(1,2) t assms(3) s] False by (auto simp: repeatable_def is_call_def)
  show ?thesis
  proof (intro exI [of _ R] exI [of _ rs] conjI allI impI)
    fix out1 x
    assume x: "res = Inr out1 \<and> payment_prepared_ok x"
    with send_json_decodes [OF o] s obtain R' resp where d: "last (sent w') = (R', Inr resp)" "StatusCode resp = 200"
      "decode_body env TJSON resp Untouched = (None, out1)" by fastforce
    have "rs \<noteq> []" using R(4) x by blast
    with R(1) d(1) have "last rs = Inr resp" by (simp add: last_map)
    with \<open>rs \<noteq> []\<close> d(2) payment_prepared.decoded_answer [OF assms(4) _ _ d(3)] x
    show "\<exists>resp. rs \<noteq> [] \<and> last rs = Inr resp \<and> StatusCode resp = 200 \<and>
        (answers (encode_struct payment_prepared_fields) resp x \<longrightarrow> out1 = JsonOut x)" by blast
  qed (use R False in auto)
qed

definition demo_payment :: payment_request where
  "demo_payment = payment_request_zero\<lparr>pySenderIBAN := ''UA1'', pyReceiver := \<lparr>prIBAN = ''UA2'', prEDRPOU = ''12345678'', prName = ''shop''\<rparr>,
     pyDestination := ''invoice 7'', pyAmount := 150000, pyCurrency := ''UAH''\<rparr>"

lemma demo_payment_ok: "payment_request_ok demo_payment"
  by (simp add: demo_payment_def payment_request_defs payment_receiver_defs int64_bounds ascii_utf8)

theorem PreparePayment_carries_the_payment_witness:
  "\<exists>R rs. snd (PreparePayment (codec_env (\<lambda>j. decode_struct payment_prepared_fields j payment_prepared_zero)) ''sdk'' demo_client
       (\<lambda>r. Marshal_json (encode_struct payment_request_fields r)) ''k-1'' (Some demo_payment) []) = map (\<lambda>x. (R, x)) rs \<and>
     rs \<noteq> [] \<and> length rs \<le> 4 \<and> carries (\<lambda>j. decode_struct payment_request_fields j payment_request_zero) demo_payment R"
proof -
  obtain res w' where d: "PreparePayment (codec_env (\<lambda>j. decode_struct payment_prepared_fields j payment_prepared_zero)) ''sdk'' demo_client
      (\<lambda>r. Marshal_json (encode_struct payment_request_fields r)) ''k-1'' (Some demo_payment) [] = (res, w')" by fastforce
  have "attempts_of (retry demo_client) = 4" by (simp add: attempts_of_def demo_client_def defaultRetry_def)
  with PreparePayment_carries_the_payment [OF codec_env_client(1) codec_env_targets demo_payment_ok codec_env_decodes d]
  obtain R rs where R: "w' = map (\<lambda>x. (R, x)) rs" "length rs \<le> 4"
    "rs \<noteq> [] \<longrightarrow> carries (\<lambda>j. decode_struct payment_request_fields j payment_request_zero) demo_payment R" by auto
  have t: "target_ok ''/ext/v1/payment/prepare''" by (rule literal_target) (simp add: literal_path)
  have "snd (res, w') \<noteq> []" unfolding d [symmetric]
    by (simp add: PreparePayment_def keyed_post_def send_json_def payment_request.marshals [OF demo_payment_ok] keyed_POST [OF t])
  with R d show ?thesis by auto
qed

end
