(* ===== verification/Installment_Types.thy ===== *)
theory Installment_Types
  imports Json_Exchange Installment_Money Installment_Client Log_Redaction
begin

text \<open>
  The requests and answers of the installment API (\<open>installment/types.go\<close>): each struct with its tags, and the
  laws of its codec. Amounts go through \<open>MarshalJSON\<close> and \<open>UnmarshalJSON\<close> of \<open>installment.Money\<close>, so that an
  amount of kopecks is the literal of hryvnias with two decimals. \<open>CreateOrder\<close> over this wire format closes the
  theory, with the order states and the redaction of a client's data.
\<close>

section \<open>Amounts\<close>

text \<open>A value that \<open>UnmarshalJSON\<close> gets is the text of one JSON value; a string is taken as written without escapes.\<close>

definition kopecks_of :: "json \<Rightarrow> kopecks option" where
  "kopecks_of j = (case Inst_UnmarshalJSON (json_text j) of Inl e \<Rightarrow> None | Inr k \<Rightarrow> Some k)"

definition kopecks_f where "kopecks_f = custom_f (\<lambda>k. JNum (Inst_MarshalJSON k)) (\<lambda>j _. kopecks_of j)"
definition kopecks_o where "kopecks_o = ptr_f True 0 (\<lambda>k. JNum (Inst_MarshalJSON k)) (\<lambda>j _. kopecks_of j)"
definition slice_ints_f where "slice_ints_f = slice_f (\<lambda>n. JNum (Itoa n)) elem_int"

definition kopecks_ok :: "kopecks \<Rightarrow> bool" where
  \<comment> \<open>an \<open>int64\<close> other than \<open>MinInt64\<close>, whose sign \<open>String\<close> cannot turn\<close>
  "kopecks_ok k \<longleftrightarrow> in_int64 k \<and> k \<noteq> int64_min"

lemma digit_byte: "is_digit c \<Longrightarrow> is_dig (of_char c)"
proof -
  have "(of_char c :: int) = int (of_char c)" using of_nat_of_char [of c, where 'a = int] by (rule sym)
  then show "is_digit c \<Longrightarrow> is_dig (of_char c)" unfolding is_digit_def is_dig_def by linarith
qed

lemma digits_bytes: "list_all is_digit s \<Longrightarrow> list_all is_dig (bytes_of s)"
  by (induction s) (simp_all add: bytes_of_def digit_byte)

lemma decimal_number:
  assumes "length f = 2" and "list_all is_digit f"
  shows "valid_number (bytes_of (nat_digits m @ CHR ''.'' # f))"
    and "valid_number (bytes_of (CHR ''-'' # nat_digits m @ CHR ''.'' # f))"
proof -
  obtain d r where d: "bytes_of (nat_digits m) = d # r" "is_dig d" "list_all is_dig r" "d = 48 \<longrightarrow> r = []"
    using nat_digits_number [of m] by blast
  obtain x y where f: "f = [x, y]" using assms(1) by (auto simp: length_Suc_conv numeral_2_eq_2)
  have xy: "is_dig (of_char x)" "is_dig (of_char y)" using digit_byte assms(2) f by auto
  have p: "bytes_of (CHR ''.'' # f) = [46, of_char x, of_char y]" by (simp add: bytes_of_def f)
  have "\<not> is_dig 46" by (simp add: is_dig_def)
  with d(3) have w: "dropWhile is_dig (r @ [46, of_char x, of_char y]) = [46, of_char x, of_char y]"
    by (simp add: list_all_iff dropWhile_append)
  have n: "num_fraction [46, of_char x, of_char y]"
    using xy by (simp add: num_fraction_def digits1_def num_exponent_def)
  have "d \<noteq> 45" "is_dig 48" using d(2) by (auto simp: is_dig_def)
  moreover have a: "bytes_of (nat_digits m @ CHR ''.'' # f) = d # r @ [46, of_char x, of_char y]"
    using d(1) p by (simp add: bytes_of_def)
  moreover have b: "bytes_of (CHR ''-'' # nat_digits m @ CHR ''.'' # f) = 45 # d # r @ [46, of_char x, of_char y]"
    using a by (simp add: bytes_of_def)
  ultimately show "valid_number (bytes_of (nat_digits m @ CHR ''.'' # f))"
    "valid_number (bytes_of (CHR ''-'' # nat_digits m @ CHR ''.'' # f))"
    using d w n unfolding a b by (auto simp: valid_number_def Let_def)
qed

lemma Inst_MarshalJSON_number [codec]:
  assumes "kopecks_ok k" shows "valid_number (bytes_of (Inst_MarshalJSON k))"
proof -
  obtain hr kop where s: "Inst_String k = (if k < 0 then ''-'' else []) @ Itoa hr @ CHR ''.'' # pad02 kop"
    and b: "0 \<le> hr" "0 \<le> kop" "kop < 100"
    using assms unfolding kopecks_ok_def by (auto elim: Inst_String_shape)
  from b(1) have "Itoa hr = nat_digits (nat hr)" by (simp add: Itoa_def)
  with decimal_number [OF pad02_props(1,2) [OF b(2,3)]] s show ?thesis by (simp add: Inst_MarshalJSON_def)
qed

lemma json_text_number: "valid_number (bytes_of s) \<Longrightarrow> json_text (JNum s) = s"
  by (simp add: json_text_def)

lemma kopecks_back [codec]: "kopecks_ok k \<Longrightarrow> kopecks_of (JNum (Inst_MarshalJSON k)) = Some k"
  using Inst_Money_roundtrip by (simp add: kopecks_of_def json_text_number Inst_MarshalJSON_number kopecks_ok_def)

lemma refill_kopecks [codec]:
  "kopecks_ok (get r) \<Longrightarrow> refill (kopecks_f n get upd # fs) r z = refill fs r (upd (\<lambda>_. get r) z)"
  "pred_option kopecks_ok (gp r) \<Longrightarrow> gp z = None \<Longrightarrow> up (\<lambda>_. None) z = z \<Longrightarrow>
   refill (kopecks_o n gp up # fs) r z = refill fs r (up (\<lambda>_. gp r) z)"
  "pred_option (list_all in_int64) (gs r) \<Longrightarrow> gs z = None \<Longrightarrow> us (\<lambda>_. None) z = z \<Longrightarrow>
   refill (slice_ints_f n gs us # fs) r z = refill fs r (us (\<lambda>_. gs r) z)"
  by (simp_all add: kopecks_f_def kopecks_o_def slice_ints_f_def refill_custom refill_ptr refill_slice kopecks_back option.pred_set
      list_all_iff elem_int_def json_int_def Atoi_Itoa)

lemma kopecks_names [codec]: "fst (kopecks_f n gm um) = n" "fst (kopecks_o n gp up) = n" "fst (slice_ints_f n gs us) = n"
  by (simp_all add: kopecks_f_def kopecks_o_def slice_ints_f_def codec)

lemma field_ok_kopecks [codec]:
  "ascii n \<Longrightarrow> kopecks_ok (get r) \<Longrightarrow> field_ok d r (kopecks_f n get upd)"
  "ascii n \<Longrightarrow> pred_option kopecks_ok (gp r) \<Longrightarrow> field_ok d r (kopecks_o n gp up)"
  "ascii n \<Longrightarrow> d \<noteq> 0 \<Longrightarrow> field_ok d r (slice_ints_f n gs us)"
  by (simp_all add: kopecks_f_def kopecks_o_def slice_ints_f_def field_ok_custom field_ok_ptr field_ok_slice Inst_MarshalJSON_number
      Itoa_number option.pred_set list_all_iff)

section \<open>Requests and answers\<close>

record create_order_invoice =
  oiNumber :: string
  oiDate :: string
  oiSource :: string
  oiPointID :: string

definition create_order_invoice_fields :: "create_order_invoice field list" where
  "create_order_invoice_fields =
     [str_f ''number'' oiNumber oiNumber_update, str_f ''date'' oiDate oiDate_update,
      str_f ''source'' oiSource oiSource_update, str_o ''point_id'' oiPointID oiPointID_update]"

definition create_order_invoice_zero :: create_order_invoice where
  "create_order_invoice_zero = \<lparr>oiNumber = [], oiDate = [], oiSource = [], oiPointID = []\<rparr>"

definition create_order_invoice_ok :: "create_order_invoice \<Rightarrow> bool" where
  "create_order_invoice_ok x \<longleftrightarrow>
     list_all valid_utf8 [oiNumber x, oiDate x, oiSource x, oiPointID x]"

lemmas create_order_invoice_defs = create_order_invoice_fields_def create_order_invoice_zero_def create_order_invoice_ok_def

interpretation create_order_invoice: dto create_order_invoice_fields create_order_invoice_zero create_order_invoice_ok 1
proof
  show "refills create_order_invoice_fields create_order_invoice_zero x" if "create_order_invoice_ok x" for x
    using that by (cases x) (rule refillsI, simp_all add: create_order_invoice_defs codec)
  show "json_ok d (encode_struct create_order_invoice_fields x)" if "create_order_invoice_ok x" and "1 \<le> d" for d x
    using that by (intro json_ok_struct) (auto simp: create_order_invoice_defs codec)
qed simp

record inst_program =
  pgType :: string
  pgAvailablePartsCount :: "int list option"

definition inst_program_fields :: "inst_program field list" where
  "inst_program_fields =
     [str_o ''type'' pgType pgType_update,
      slice_ints_f ''available_parts_count'' pgAvailablePartsCount pgAvailablePartsCount_update]"

definition inst_program_zero :: inst_program where
  "inst_program_zero = \<lparr>pgType = [], pgAvailablePartsCount = None\<rparr>"

definition inst_program_ok :: "inst_program \<Rightarrow> bool" where
  "inst_program_ok x \<longleftrightarrow>
     valid_utf8 (pgType x) \<and> pred_option (list_all in_int64) (pgAvailablePartsCount x)"

lemmas inst_program_defs = inst_program_fields_def inst_program_zero_def inst_program_ok_def

interpretation inst_program: dto inst_program_fields inst_program_zero inst_program_ok 2
proof
  show "refills inst_program_fields inst_program_zero x" if "inst_program_ok x" for x
    using that by (cases x) (rule refillsI, simp_all add: inst_program_defs codec)
  show "json_ok d (encode_struct inst_program_fields x)" if "inst_program_ok x" and "2 \<le> d" for d x
    using that by (intro json_ok_struct) (auto simp: inst_program_defs codec)
qed simp

record inst_product =
  pdName :: string
  pdCount :: int
  pdSum :: kopecks

definition inst_product_fields :: "inst_product field list" where
  "inst_product_fields =
     [str_f ''name'' pdName pdName_update, int_f ''count'' pdCount pdCount_update,
      kopecks_f ''sum'' pdSum pdSum_update]"

definition inst_product_zero :: inst_product where
  "inst_product_zero = \<lparr>pdName = [], pdCount = 0, pdSum = 0\<rparr>"

definition inst_product_ok :: "inst_product \<Rightarrow> bool" where
  "inst_product_ok x \<longleftrightarrow>
     valid_utf8 (pdName x) \<and> in_int64 (pdCount x) \<and> kopecks_ok (pdSum x)"

lemmas inst_product_defs = inst_product_fields_def inst_product_zero_def inst_product_ok_def

interpretation inst_product: dto inst_product_fields inst_product_zero inst_product_ok 1
proof
  show "refills inst_product_fields inst_product_zero x" if "inst_product_ok x" for x
    using that by (cases x) (rule refillsI, simp_all add: inst_product_defs codec)
  show "json_ok d (encode_struct inst_product_fields x)" if "inst_product_ok x" and "1 \<le> d" for d x
    using that by (intro json_ok_struct) (auto simp: inst_product_defs codec)
qed simp

record create_additional_params =
  caSellerPhone :: string
  caNDS :: "kopecks option"
  caExtInitialSum :: "kopecks option"

definition create_additional_params_fields :: "create_additional_params field list" where
  "create_additional_params_fields =
     [str_o ''seller_phone'' caSellerPhone caSellerPhone_update, kopecks_o ''nds'' caNDS caNDS_update,
      kopecks_o ''ext_initial_sum'' caExtInitialSum caExtInitialSum_update]"

definition create_additional_params_zero :: create_additional_params where
  "create_additional_params_zero = \<lparr>caSellerPhone = [], caNDS = None, caExtInitialSum = None\<rparr>"

definition create_additional_params_ok :: "create_additional_params \<Rightarrow> bool" where
  "create_additional_params_ok x \<longleftrightarrow>
     valid_utf8 (caSellerPhone x) \<and> pred_option kopecks_ok (caNDS x) \<and>
     pred_option kopecks_ok (caExtInitialSum x)"

lemmas create_additional_params_defs = create_additional_params_fields_def create_additional_params_zero_def create_additional_params_ok_def

interpretation create_additional_params: dto create_additional_params_fields create_additional_params_zero create_additional_params_ok 1
proof
  show "refills create_additional_params_fields create_additional_params_zero x" if "create_additional_params_ok x" for x
    using that by (cases x) (rule refillsI, simp_all add: create_additional_params_defs codec)
  show "json_ok d (encode_struct create_additional_params_fields x)" if "create_additional_params_ok x" and "1 \<le> d" for d x
    using that by (intro json_ok_struct) (auto simp: create_additional_params_defs codec)
qed simp

record financial_company_merchant_info =
  fmStoreName :: string
  fmEDRPOUCode :: string
  fmIBANAccount :: string

definition financial_company_merchant_info_fields :: "financial_company_merchant_info field list" where
  "financial_company_merchant_info_fields =
     [str_o ''store_name'' fmStoreName fmStoreName_update, str_o ''edrpou_code'' fmEDRPOUCode fmEDRPOUCode_update,
      str_o ''iban_account'' fmIBANAccount fmIBANAccount_update]"

definition financial_company_merchant_info_zero :: financial_company_merchant_info where
  "financial_company_merchant_info_zero = \<lparr>fmStoreName = [], fmEDRPOUCode = [], fmIBANAccount = []\<rparr>"

definition financial_company_merchant_info_ok :: "financial_company_merchant_info \<Rightarrow> bool" where
  "financial_company_merchant_info_ok x \<longleftrightarrow>
     list_all valid_utf8 [fmStoreName x, fmEDRPOUCode x, fmIBANAccount x]"

lemmas financial_company_merchant_info_defs = financial_company_merchant_info_fields_def financial_company_merchant_info_zero_def financial_company_merchant_info_ok_def

interpretation financial_company_merchant_info: dto financial_company_merchant_info_fields financial_company_merchant_info_zero financial_company_merchant_info_ok 1
proof
  show "refills financial_company_merchant_info_fields financial_company_merchant_info_zero x" if "financial_company_merchant_info_ok x" for x
    using that by (cases x) (rule refillsI, simp_all add: financial_company_merchant_info_defs codec)
  show "json_ok d (encode_struct financial_company_merchant_info_fields x)" if "financial_company_merchant_info_ok x" and "1 \<le> d" for d x
    using that by (intro json_ok_struct) (auto simp: financial_company_merchant_info_defs codec)
qed simp

record create_order_request =
  coStoreOrderID :: string
  coClientPhone :: string
  coTotalSum :: kopecks
  coInvoice :: create_order_invoice
  coAvailablePrograms :: "inst_program list option"
  coProducts :: "inst_product list option"
  coResultCallback :: string
  coAdditionalParams :: "create_additional_params option"
  coFinancialCompanyMerchantInfo :: "financial_company_merchant_info option"

definition create_order_request_fields :: "create_order_request field list" where
  "create_order_request_fields =
     [str_f ''store_order_id'' coStoreOrderID coStoreOrderID_update,
      str_f ''client_phone'' coClientPhone coClientPhone_update, kopecks_f ''total_sum'' coTotalSum coTotalSum_update,
      struct_f create_order_invoice_fields ''invoice'' coInvoice coInvoice_update,
      structs_f inst_program_fields inst_program_zero ''available_programs'' coAvailablePrograms coAvailablePrograms_update,
      structs_f inst_product_fields inst_product_zero ''products'' coProducts coProducts_update,
      str_o ''result_callback'' coResultCallback coResultCallback_update,
      struct_o create_additional_params_fields create_additional_params_zero ''additional_params'' coAdditionalParams coAdditionalParams_update,
      struct_o financial_company_merchant_info_fields financial_company_merchant_info_zero ''financial_company_merchant_info'' coFinancialCompanyMerchantInfo coFinancialCompanyMerchantInfo_update]"

definition create_order_request_zero :: create_order_request where
  "create_order_request_zero = \<lparr>coStoreOrderID = [], coClientPhone = [], coTotalSum = 0, coInvoice = create_order_invoice_zero,
     coAvailablePrograms = None, coProducts = None, coResultCallback = [], coAdditionalParams = None,
     coFinancialCompanyMerchantInfo = None\<rparr>"

definition create_order_request_ok :: "create_order_request \<Rightarrow> bool" where
  "create_order_request_ok x \<longleftrightarrow>
     list_all valid_utf8 [coStoreOrderID x, coClientPhone x, coResultCallback x] \<and> kopecks_ok (coTotalSum x) \<and>
     create_order_invoice_ok (coInvoice x) \<and> pred_option (list_all inst_program_ok) (coAvailablePrograms x) \<and>
     pred_option (list_all inst_product_ok) (coProducts x) \<and>
     pred_option create_additional_params_ok (coAdditionalParams x) \<and>
     pred_option financial_company_merchant_info_ok (coFinancialCompanyMerchantInfo x)"

lemmas create_order_request_defs = create_order_request_fields_def create_order_request_zero_def create_order_request_ok_def

interpretation create_order_request: dto create_order_request_fields create_order_request_zero create_order_request_ok 4
proof
  show "refills create_order_request_fields create_order_request_zero x" if "create_order_request_ok x" for x
    using that by (cases x) (rule refillsI, simp_all add: create_order_request_defs codec)
  show "json_ok d (encode_struct create_order_request_fields x)" if "create_order_request_ok x" and "4 \<le> d" for d x
    using that by (intro json_ok_struct) (auto simp: create_order_request_defs codec)
qed simp

record create_qr_cart_request =
  cqQRID :: string
  cqStoreOrderID :: string
  cqProducts :: "inst_product list option"
  cqResultCallback :: string

definition create_qr_cart_request_fields :: "create_qr_cart_request field list" where
  "create_qr_cart_request_fields =
     [str_f ''qr_id'' cqQRID cqQRID_update, str_f ''store_order_id'' cqStoreOrderID cqStoreOrderID_update,
      structs_f inst_product_fields inst_product_zero ''products'' cqProducts cqProducts_update,
      str_f ''result_callback'' cqResultCallback cqResultCallback_update]"

definition create_qr_cart_request_zero :: create_qr_cart_request where
  "create_qr_cart_request_zero = \<lparr>cqQRID = [], cqStoreOrderID = [], cqProducts = None, cqResultCallback = []\<rparr>"

definition create_qr_cart_request_ok :: "create_qr_cart_request \<Rightarrow> bool" where
  "create_qr_cart_request_ok x \<longleftrightarrow>
     list_all valid_utf8 [cqQRID x, cqStoreOrderID x, cqResultCallback x] \<and>
     pred_option (list_all inst_product_ok) (cqProducts x)"

lemmas create_qr_cart_request_defs = create_qr_cart_request_fields_def create_qr_cart_request_zero_def create_qr_cart_request_ok_def

interpretation create_qr_cart_request: dto create_qr_cart_request_fields create_qr_cart_request_zero create_qr_cart_request_ok 3
proof
  show "refills create_qr_cart_request_fields create_qr_cart_request_zero x" if "create_qr_cart_request_ok x" for x
    using that by (cases x) (rule refillsI, simp_all add: create_qr_cart_request_defs codec)
  show "json_ok d (encode_struct create_qr_cart_request_fields x)" if "create_qr_cart_request_ok x" and "3 \<le> d" for d x
    using that by (intro json_ok_struct) (auto simp: create_qr_cart_request_defs codec)
qed simp

record cancel_qr_cart_request =
  xqQRID :: string

definition cancel_qr_cart_request_fields :: "cancel_qr_cart_request field list" where
  "cancel_qr_cart_request_fields =
     [str_f ''qr_id'' xqQRID xqQRID_update]"

definition cancel_qr_cart_request_zero :: cancel_qr_cart_request where
  "cancel_qr_cart_request_zero = \<lparr>xqQRID = []\<rparr>"

definition cancel_qr_cart_request_ok :: "cancel_qr_cart_request \<Rightarrow> bool" where
  "cancel_qr_cart_request_ok x \<longleftrightarrow>
     valid_utf8 (xqQRID x)"

lemmas cancel_qr_cart_request_defs = cancel_qr_cart_request_fields_def cancel_qr_cart_request_zero_def cancel_qr_cart_request_ok_def

interpretation cancel_qr_cart_request: dto cancel_qr_cart_request_fields cancel_qr_cart_request_zero cancel_qr_cart_request_ok 1
proof
  show "refills cancel_qr_cart_request_fields cancel_qr_cart_request_zero x" if "cancel_qr_cart_request_ok x" for x
    using that by (cases x) (rule refillsI, simp_all add: cancel_qr_cart_request_defs codec)
  show "json_ok d (encode_struct cancel_qr_cart_request_fields x)" if "cancel_qr_cart_request_ok x" and "1 \<le> d" for d x
    using that by (intro json_ok_struct) (auto simp: cancel_qr_cart_request_defs codec)
qed simp

record create_order_response =
  cpOrderID :: string

definition create_order_response_fields :: "create_order_response field list" where
  "create_order_response_fields =
     [str_f ''order_id'' cpOrderID cpOrderID_update]"

definition create_order_response_zero :: create_order_response where
  "create_order_response_zero = \<lparr>cpOrderID = []\<rparr>"

definition create_order_response_ok :: "create_order_response \<Rightarrow> bool" where
  "create_order_response_ok x \<longleftrightarrow>
     valid_utf8 (cpOrderID x)"

lemmas create_order_response_defs = create_order_response_fields_def create_order_response_zero_def create_order_response_ok_def

interpretation create_order_response: dto create_order_response_fields create_order_response_zero create_order_response_ok 1
proof
  show "refills create_order_response_fields create_order_response_zero x" if "create_order_response_ok x" for x
    using that by (cases x) (rule refillsI, simp_all add: create_order_response_defs codec)
  show "json_ok d (encode_struct create_order_response_fields x)" if "create_order_response_ok x" and "1 \<le> d" for d x
    using that by (intro json_ok_struct) (auto simp: create_order_response_defs codec)
qed simp

record request_with_order_identifier =
  roOrderID :: string

definition request_with_order_identifier_fields :: "request_with_order_identifier field list" where
  "request_with_order_identifier_fields =
     [str_f ''order_id'' roOrderID roOrderID_update]"

definition request_with_order_identifier_zero :: request_with_order_identifier where
  "request_with_order_identifier_zero = \<lparr>roOrderID = []\<rparr>"

definition request_with_order_identifier_ok :: "request_with_order_identifier \<Rightarrow> bool" where
  "request_with_order_identifier_ok x \<longleftrightarrow>
     valid_utf8 (roOrderID x)"

lemmas request_with_order_identifier_defs = request_with_order_identifier_fields_def request_with_order_identifier_zero_def request_with_order_identifier_ok_def

interpretation request_with_order_identifier: dto request_with_order_identifier_fields request_with_order_identifier_zero request_with_order_identifier_ok 1
proof
  show "refills request_with_order_identifier_fields request_with_order_identifier_zero x" if "request_with_order_identifier_ok x" for x
    using that by (cases x) (rule refillsI, simp_all add: request_with_order_identifier_defs codec)
  show "json_ok d (encode_struct request_with_order_identifier_fields x)" if "request_with_order_identifier_ok x" and "1 \<le> d" for d x
    using that by (intro json_ok_struct) (auto simp: request_with_order_identifier_defs codec)
qed simp

record order_state_info =
  osOrderID :: string
  osState :: string
  osOrderSubState :: string
  osMessage :: string

definition order_state_info_fields :: "order_state_info field list" where
  "order_state_info_fields =
     [str_f ''order_id'' osOrderID osOrderID_update, str_f ''state'' osState osState_update,
      str_f ''order_sub_state'' osOrderSubState osOrderSubState_update, str_o ''message'' osMessage osMessage_update]"

definition order_state_info_zero :: order_state_info where
  "order_state_info_zero = \<lparr>osOrderID = [], osState = [], osOrderSubState = [], osMessage = []\<rparr>"

definition order_state_info_ok :: "order_state_info \<Rightarrow> bool" where
  "order_state_info_ok x \<longleftrightarrow>
     list_all valid_utf8 [osOrderID x, osState x, osOrderSubState x, osMessage x]"

lemmas order_state_info_defs = order_state_info_fields_def order_state_info_zero_def order_state_info_ok_def

interpretation order_state_info: dto order_state_info_fields order_state_info_zero order_state_info_ok 1
proof
  show "refills order_state_info_fields order_state_info_zero x" if "order_state_info_ok x" for x
    using that by (cases x) (rule refillsI, simp_all add: order_state_info_defs codec)
  show "json_ok d (encode_struct order_state_info_fields x)" if "order_state_info_ok x" and "1 \<le> d" for d x
    using that by (intro json_ok_struct) (auto simp: order_state_info_defs codec)
qed simp

record inst_reverse =
  rvSum :: kopecks
  rvTimestamp :: string

definition inst_reverse_fields :: "inst_reverse field list" where
  "inst_reverse_fields =
     [kopecks_f ''sum'' rvSum rvSum_update, str_f ''timestamp'' rvTimestamp rvTimestamp_update]"

definition inst_reverse_zero :: inst_reverse where
  "inst_reverse_zero = \<lparr>rvSum = 0, rvTimestamp = []\<rparr>"

definition inst_reverse_ok :: "inst_reverse \<Rightarrow> bool" where
  "inst_reverse_ok x \<longleftrightarrow>
     valid_utf8 (rvTimestamp x) \<and> kopecks_ok (rvSum x)"

lemmas inst_reverse_defs = inst_reverse_fields_def inst_reverse_zero_def inst_reverse_ok_def

interpretation inst_reverse: dto inst_reverse_fields inst_reverse_zero inst_reverse_ok 1
proof
  show "refills inst_reverse_fields inst_reverse_zero x" if "inst_reverse_ok x" for x
    using that by (cases x) (rule refillsI, simp_all add: inst_reverse_defs codec)
  show "json_ok d (encode_struct inst_reverse_fields x)" if "inst_reverse_ok x" and "1 \<le> d" for d x
    using that by (intro json_ok_struct) (auto simp: inst_reverse_defs codec)
qed simp

record order_short_info =
  shTotalSum :: kopecks
  shSource :: string
  shInvoiceNumber :: string
  shInvoiceDate :: string
  shPointID :: string
  shStoreOrderID :: string
  shCreateTimestamp :: string
  shReverseList :: "inst_reverse list"
  shMaskedCard :: string
  shIBAN :: string

definition order_short_info_fields :: "order_short_info field list" where
  "order_short_info_fields =
     [kopecks_f ''total_sum'' shTotalSum shTotalSum_update, str_o ''source'' shSource shSource_update,
      str_o ''invoice_number'' shInvoiceNumber shInvoiceNumber_update,
      str_o ''invoice_date'' shInvoiceDate shInvoiceDate_update, str_o ''point_id'' shPointID shPointID_update,
      str_o ''store_order_id'' shStoreOrderID shStoreOrderID_update,
      str_o ''create_timestamp'' shCreateTimestamp shCreateTimestamp_update,
      structs_o inst_reverse_fields inst_reverse_zero ''reverse_list'' shReverseList shReverseList_update,
      str_o ''maskedCard'' shMaskedCard shMaskedCard_update, str_o ''iban'' shIBAN shIBAN_update]"

definition order_short_info_zero :: order_short_info where
  "order_short_info_zero = \<lparr>shTotalSum = 0, shSource = [], shInvoiceNumber = [], shInvoiceDate = [], shPointID = [], shStoreOrderID = [],
     shCreateTimestamp = [], shReverseList = [], shMaskedCard = [], shIBAN = []\<rparr>"

definition order_short_info_ok :: "order_short_info \<Rightarrow> bool" where
  "order_short_info_ok x \<longleftrightarrow>
     list_all valid_utf8 [shSource x, shInvoiceNumber x, shInvoiceDate x, shPointID x, shStoreOrderID x, shCreateTimestamp x,
       shMaskedCard x, shIBAN x] \<and>
     kopecks_ok (shTotalSum x) \<and> list_all inst_reverse_ok (shReverseList x)"

lemmas order_short_info_defs = order_short_info_fields_def order_short_info_zero_def order_short_info_ok_def

interpretation order_short_info: dto order_short_info_fields order_short_info_zero order_short_info_ok 3
proof
  show "refills order_short_info_fields order_short_info_zero x" if "order_short_info_ok x" for x
    using that by (cases x) (rule refillsI, simp_all add: order_short_info_defs codec)
  show "json_ok d (encode_struct order_short_info_fields x)" if "order_short_info_ok x" and "3 \<le> d" for d x
    using that by (intro json_ok_struct) (auto simp: order_short_info_defs codec)
qed simp

record check_installments_response =
  ckFullyPaid :: bool
  ckBankCanReturnMoneyToCard :: bool

definition check_installments_response_fields :: "check_installments_response field list" where
  "check_installments_response_fields =
     [bool_f ''fully_paid'' ckFullyPaid ckFullyPaid_update,
      bool_f ''bank_can_return_money_to_card'' ckBankCanReturnMoneyToCard ckBankCanReturnMoneyToCard_update]"

definition check_installments_response_zero :: check_installments_response where
  "check_installments_response_zero = \<lparr>ckFullyPaid = False, ckBankCanReturnMoneyToCard = False\<rparr>"

definition check_installments_response_ok :: "check_installments_response \<Rightarrow> bool" where
  "check_installments_response_ok x \<longleftrightarrow>
     True"

lemmas check_installments_response_defs = check_installments_response_fields_def check_installments_response_zero_def check_installments_response_ok_def

interpretation check_installments_response: dto check_installments_response_fields check_installments_response_zero check_installments_response_ok 1
proof
  show "refills check_installments_response_fields check_installments_response_zero x" if "check_installments_response_ok x" for x
    using that by (cases x) (rule refillsI, simp_all add: check_installments_response_defs codec)
  show "json_ok d (encode_struct check_installments_response_fields x)" if "check_installments_response_ok x" and "1 \<le> d" for d x
    using that by (intro json_ok_struct) (auto simp: check_installments_response_defs codec)
qed simp

record return_additional_params =
  raNDS :: "kopecks option"

definition return_additional_params_fields :: "return_additional_params field list" where
  "return_additional_params_fields =
     [kopecks_o ''nds'' raNDS raNDS_update]"

definition return_additional_params_zero :: return_additional_params where
  "return_additional_params_zero = \<lparr>raNDS = None\<rparr>"

definition return_additional_params_ok :: "return_additional_params \<Rightarrow> bool" where
  "return_additional_params_ok x \<longleftrightarrow>
     pred_option kopecks_ok (raNDS x)"

lemmas return_additional_params_defs = return_additional_params_fields_def return_additional_params_zero_def return_additional_params_ok_def

interpretation return_additional_params: dto return_additional_params_fields return_additional_params_zero return_additional_params_ok 1
proof
  show "refills return_additional_params_fields return_additional_params_zero x" if "return_additional_params_ok x" for x
    using that by (cases x) (rule refillsI, simp_all add: return_additional_params_defs codec)
  show "json_ok d (encode_struct return_additional_params_fields x)" if "return_additional_params_ok x" and "1 \<le> d" for d x
    using that by (intro json_ok_struct) (auto simp: return_additional_params_defs codec)
qed simp

record return_request =
  rrOrderID :: string
  rrSum :: kopecks
  rrStoreReturnID :: string
  rrReturnMoneyToCard :: bool
  rrAdditionalParams :: "return_additional_params option"

definition return_request_fields :: "return_request field list" where
  "return_request_fields =
     [str_f ''order_id'' rrOrderID rrOrderID_update, kopecks_f ''sum'' rrSum rrSum_update,
      str_f ''store_return_id'' rrStoreReturnID rrStoreReturnID_update,
      bool_f ''return_money_to_card'' rrReturnMoneyToCard rrReturnMoneyToCard_update,
      struct_o return_additional_params_fields return_additional_params_zero ''additional_params'' rrAdditionalParams rrAdditionalParams_update]"

definition return_request_zero :: return_request where
  "return_request_zero = \<lparr>rrOrderID = [], rrSum = 0, rrStoreReturnID = [], rrReturnMoneyToCard = False, rrAdditionalParams = None\<rparr>"

definition return_request_ok :: "return_request \<Rightarrow> bool" where
  "return_request_ok x \<longleftrightarrow>
     list_all valid_utf8 [rrOrderID x, rrStoreReturnID x] \<and> kopecks_ok (rrSum x) \<and>
     pred_option return_additional_params_ok (rrAdditionalParams x)"

lemmas return_request_defs = return_request_fields_def return_request_zero_def return_request_ok_def

interpretation return_request: dto return_request_fields return_request_zero return_request_ok 2
proof
  show "refills return_request_fields return_request_zero x" if "return_request_ok x" for x
    using that by (cases x) (rule refillsI, simp_all add: return_request_defs codec)
  show "json_ok d (encode_struct return_request_fields x)" if "return_request_ok x" and "2 \<le> d" for d x
    using that by (intro json_ok_struct) (auto simp: return_request_defs codec)
qed simp

record return_response =
  rpStatus :: string

definition return_response_fields :: "return_response field list" where
  "return_response_fields =
     [str_f ''status'' rpStatus rpStatus_update]"

definition return_response_zero :: return_response where
  "return_response_zero = \<lparr>rpStatus = []\<rparr>"

definition return_response_ok :: "return_response \<Rightarrow> bool" where
  "return_response_ok x \<longleftrightarrow>
     valid_utf8 (rpStatus x)"

lemmas return_response_defs = return_response_fields_def return_response_zero_def return_response_ok_def

interpretation return_response: dto return_response_fields return_response_zero return_response_ok 1
proof
  show "refills return_response_fields return_response_zero x" if "return_response_ok x" for x
    using that by (cases x) (rule refillsI, simp_all add: return_response_defs codec)
  show "json_ok d (encode_struct return_response_fields x)" if "return_response_ok x" and "1 \<le> d" for d x
    using that by (intro json_ok_struct) (auto simp: return_response_defs codec)
qed simp

record validate_client_request =
  vrPhone :: string

definition validate_client_request_fields :: "validate_client_request field list" where
  "validate_client_request_fields =
     [str_f ''phone'' vrPhone vrPhone_update]"

definition validate_client_request_zero :: validate_client_request where
  "validate_client_request_zero = \<lparr>vrPhone = []\<rparr>"

definition validate_client_request_ok :: "validate_client_request \<Rightarrow> bool" where
  "validate_client_request_ok x \<longleftrightarrow>
     valid_utf8 (vrPhone x)"

lemmas validate_client_request_defs = validate_client_request_fields_def validate_client_request_zero_def validate_client_request_ok_def

interpretation validate_client_request: dto validate_client_request_fields validate_client_request_zero validate_client_request_ok 1
proof
  show "refills validate_client_request_fields validate_client_request_zero x" if "validate_client_request_ok x" for x
    using that by (cases x) (rule refillsI, simp_all add: validate_client_request_defs codec)
  show "json_ok d (encode_struct validate_client_request_fields x)" if "validate_client_request_ok x" and "1 \<le> d" for d x
    using that by (intro json_ok_struct) (auto simp: validate_client_request_defs codec)
qed simp

record inst_client_info =
  icFirstName :: string
  icLastName :: string
  icMiddleName :: string
  icINN :: string

definition inst_client_info_fields :: "inst_client_info field list" where
  "inst_client_info_fields =
     [str_o ''first_name'' icFirstName icFirstName_update, str_o ''last_name'' icLastName icLastName_update,
      str_o ''middle_name'' icMiddleName icMiddleName_update, str_o ''inn'' icINN icINN_update]"

definition inst_client_info_zero :: inst_client_info where
  "inst_client_info_zero = \<lparr>icFirstName = [], icLastName = [], icMiddleName = [], icINN = []\<rparr>"

definition inst_client_info_ok :: "inst_client_info \<Rightarrow> bool" where
  "inst_client_info_ok x \<longleftrightarrow>
     list_all valid_utf8 [icFirstName x, icLastName x, icMiddleName x, icINN x]"

lemmas inst_client_info_defs = inst_client_info_fields_def inst_client_info_zero_def inst_client_info_ok_def

interpretation inst_client_info: dto inst_client_info_fields inst_client_info_zero inst_client_info_ok 1
proof
  show "refills inst_client_info_fields inst_client_info_zero x" if "inst_client_info_ok x" for x
    using that by (cases x) (rule refillsI, simp_all add: inst_client_info_defs codec)
  show "json_ok d (encode_struct inst_client_info_fields x)" if "inst_client_info_ok x" and "1 \<le> d" for d x
    using that by (intro json_ok_struct) (auto simp: inst_client_info_defs codec)
qed simp

record validate_client_response =
  vpFound :: bool
  vpClient :: "inst_client_info option"

definition validate_client_response_fields :: "validate_client_response field list" where
  "validate_client_response_fields =
     [bool_f ''found'' vpFound vpFound_update,
      struct_o inst_client_info_fields inst_client_info_zero ''client'' vpClient vpClient_update]"

definition validate_client_response_zero :: validate_client_response where
  "validate_client_response_zero = \<lparr>vpFound = False, vpClient = None\<rparr>"

definition validate_client_response_ok :: "validate_client_response \<Rightarrow> bool" where
  "validate_client_response_ok x \<longleftrightarrow>
     pred_option inst_client_info_ok (vpClient x)"

lemmas validate_client_response_defs = validate_client_response_fields_def validate_client_response_zero_def validate_client_response_ok_def

interpretation validate_client_response: dto validate_client_response_fields validate_client_response_zero validate_client_response_ok 2
proof
  show "refills validate_client_response_fields validate_client_response_zero x" if "validate_client_response_ok x" for x
    using that by (cases x) (rule refillsI, simp_all add: validate_client_response_defs codec)
  show "json_ok d (encode_struct validate_client_response_fields x)" if "validate_client_response_ok x" and "2 \<le> d" for d x
    using that by (intro json_ok_struct) (auto simp: validate_client_response_defs codec)
qed simp

record validate_client_simple_response =
  vsFound :: bool

definition validate_client_simple_response_fields :: "validate_client_simple_response field list" where
  "validate_client_simple_response_fields =
     [bool_f ''found'' vsFound vsFound_update]"

definition validate_client_simple_response_zero :: validate_client_simple_response where
  "validate_client_simple_response_zero = \<lparr>vsFound = False\<rparr>"

definition validate_client_simple_response_ok :: "validate_client_simple_response \<Rightarrow> bool" where
  "validate_client_simple_response_ok x \<longleftrightarrow>
     True"

lemmas validate_client_simple_response_defs = validate_client_simple_response_fields_def validate_client_simple_response_zero_def validate_client_simple_response_ok_def

interpretation validate_client_simple_response: dto validate_client_simple_response_fields validate_client_simple_response_zero validate_client_simple_response_ok 1
proof
  show "refills validate_client_simple_response_fields validate_client_simple_response_zero x" if "validate_client_simple_response_ok x" for x
    using that by (cases x) (rule refillsI, simp_all add: validate_client_simple_response_defs codec)
  show "json_ok d (encode_struct validate_client_simple_response_fields x)" if "validate_client_simple_response_ok x" and "1 \<le> d" for d x
    using that by (intro json_ok_struct) (auto simp: validate_client_simple_response_defs codec)
qed simp

record daily_report_request =
  drDate :: string

definition daily_report_request_fields :: "daily_report_request field list" where
  "daily_report_request_fields =
     [str_f ''date'' drDate drDate_update]"

definition daily_report_request_zero :: daily_report_request where
  "daily_report_request_zero = \<lparr>drDate = []\<rparr>"

definition daily_report_request_ok :: "daily_report_request \<Rightarrow> bool" where
  "daily_report_request_ok x \<longleftrightarrow>
     valid_utf8 (drDate x)"

lemmas daily_report_request_defs = daily_report_request_fields_def daily_report_request_zero_def daily_report_request_ok_def

interpretation daily_report_request: dto daily_report_request_fields daily_report_request_zero daily_report_request_ok 1
proof
  show "refills daily_report_request_fields daily_report_request_zero x" if "daily_report_request_ok x" for x
    using that by (cases x) (rule refillsI, simp_all add: daily_report_request_defs codec)
  show "json_ok d (encode_struct daily_report_request_fields x)" if "daily_report_request_ok x" and "1 \<le> d" for d x
    using that by (intro json_ok_struct) (auto simp: daily_report_request_defs codec)
qed simp

record report_order =
  poOrderID :: string
  poInvoiceNumber :: string
  poOrderDate :: string
  poPayParts :: int
  poCommissionPercent :: f64
  poTotalSum :: kopecks
  poTransferredSum :: kopecks
  poCommission :: kopecks
  poOperationTimestamp :: string
  poODBContractNumber :: string

definition report_order_fields :: "float_format \<Rightarrow> report_order field list" where
  "report_order_fields ff =
     [str_f ''order_id'' poOrderID poOrderID_update, str_f ''invoice_number'' poInvoiceNumber poInvoiceNumber_update,
      str_f ''order_date'' poOrderDate poOrderDate_update, int_f ''pay_parts'' poPayParts poPayParts_update,
      float_f ff ''commission_percent'' poCommissionPercent poCommissionPercent_update,
      kopecks_f ''total_sum'' poTotalSum poTotalSum_update,
      kopecks_f ''transferred_sum'' poTransferredSum poTransferredSum_update,
      kopecks_f ''commission'' poCommission poCommission_update,
      str_f ''operation_timestamp'' poOperationTimestamp poOperationTimestamp_update,
      str_f ''odb_contract_number'' poODBContractNumber poODBContractNumber_update]"

definition report_order_zero :: report_order where
  "report_order_zero = \<lparr>poOrderID = [], poInvoiceNumber = [], poOrderDate = [], poPayParts = 0, poCommissionPercent = Fin 0,
     poTotalSum = 0, poTransferredSum = 0, poCommission = 0, poOperationTimestamp = [], poODBContractNumber = []\<rparr>"

definition report_order_ok :: "float_format \<Rightarrow> report_order \<Rightarrow> bool" where
  "report_order_ok ff x \<longleftrightarrow>
     list_all valid_utf8 [poOrderID x, poInvoiceNumber x, poOrderDate x, poOperationTimestamp x, poODBContractNumber x] \<and>
     in_int64 (poPayParts x) \<and> float_ok ff (poCommissionPercent x) \<and> kopecks_ok (poTotalSum x) \<and>
     kopecks_ok (poTransferredSum x) \<and> kopecks_ok (poCommission x)"

lemmas report_order_defs = report_order_fields_def report_order_zero_def report_order_ok_def

interpretation report_order: dto "report_order_fields ff" report_order_zero "report_order_ok ff" 1 for ff
proof
  show "refills (report_order_fields ff) report_order_zero x" if "report_order_ok ff x" for x
    using that by (cases x) (rule refillsI, simp_all add: report_order_defs codec)
  show "json_ok d (encode_struct (report_order_fields ff) x)" if "report_order_ok ff x" and "1 \<le> d" for d x
    using that by (intro json_ok_struct) (auto simp: report_order_defs codec)
qed simp

record daily_report_response =
  dpOrders :: "report_order list option"

definition daily_report_response_fields :: "float_format \<Rightarrow> daily_report_response field list" where
  "daily_report_response_fields ff =
     [structs_f (report_order_fields ff) report_order_zero ''orders'' dpOrders dpOrders_update]"

definition daily_report_response_zero :: daily_report_response where
  "daily_report_response_zero = \<lparr>dpOrders = None\<rparr>"

definition daily_report_response_ok :: "float_format \<Rightarrow> daily_report_response \<Rightarrow> bool" where
  "daily_report_response_ok ff x \<longleftrightarrow>
     pred_option (list_all (report_order_ok ff)) (dpOrders x)"

lemmas daily_report_response_defs = daily_report_response_fields_def daily_report_response_zero_def daily_report_response_ok_def

interpretation daily_report_response: dto "daily_report_response_fields ff" daily_report_response_zero "daily_report_response_ok ff" 3 for ff
proof
  show "refills (daily_report_response_fields ff) daily_report_response_zero x" if "daily_report_response_ok ff x" for x
    using that by (cases x) (rule refillsI, simp_all add: daily_report_response_defs codec)
  show "json_ok d (encode_struct (daily_report_response_fields ff) x)" if "daily_report_response_ok ff x" and "3 \<le> d" for d x
    using that by (intro json_ok_struct) (auto simp: daily_report_response_defs codec)
qed simp

record order_data_request_invoice =
  diNumber :: string
  diDate :: string

definition order_data_request_invoice_fields :: "order_data_request_invoice field list" where
  "order_data_request_invoice_fields =
     [str_o ''number'' diNumber diNumber_update, str_o ''date'' diDate diDate_update]"

definition order_data_request_invoice_zero :: order_data_request_invoice where
  "order_data_request_invoice_zero = \<lparr>diNumber = [], diDate = []\<rparr>"

definition order_data_request_invoice_ok :: "order_data_request_invoice \<Rightarrow> bool" where
  "order_data_request_invoice_ok x \<longleftrightarrow>
     list_all valid_utf8 [diNumber x, diDate x]"

lemmas order_data_request_invoice_defs = order_data_request_invoice_fields_def order_data_request_invoice_zero_def order_data_request_invoice_ok_def

interpretation order_data_request_invoice: dto order_data_request_invoice_fields order_data_request_invoice_zero order_data_request_invoice_ok 1
proof
  show "refills order_data_request_invoice_fields order_data_request_invoice_zero x" if "order_data_request_invoice_ok x" for x
    using that by (cases x) (rule refillsI, simp_all add: order_data_request_invoice_defs codec)
  show "json_ok d (encode_struct order_data_request_invoice_fields x)" if "order_data_request_invoice_ok x" and "1 \<le> d" for d x
    using that by (intro json_ok_struct) (auto simp: order_data_request_invoice_defs codec)
qed simp

record order_data_request =
  dqOrderID :: string
  dqInvoice :: "order_data_request_invoice option"

definition order_data_request_fields :: "order_data_request field list" where
  "order_data_request_fields =
     [str_f ''order_id'' dqOrderID dqOrderID_update,
      struct_o order_data_request_invoice_fields order_data_request_invoice_zero ''invoice'' dqInvoice dqInvoice_update]"

definition order_data_request_zero :: order_data_request where
  "order_data_request_zero = \<lparr>dqOrderID = [], dqInvoice = None\<rparr>"

definition order_data_request_ok :: "order_data_request \<Rightarrow> bool" where
  "order_data_request_ok x \<longleftrightarrow>
     valid_utf8 (dqOrderID x) \<and> pred_option order_data_request_invoice_ok (dqInvoice x)"

lemmas order_data_request_defs = order_data_request_fields_def order_data_request_zero_def order_data_request_ok_def

interpretation order_data_request: dto order_data_request_fields order_data_request_zero order_data_request_ok 2
proof
  show "refills order_data_request_fields order_data_request_zero x" if "order_data_request_ok x" for x
    using that by (cases x) (rule refillsI, simp_all add: order_data_request_defs codec)
  show "json_ok d (encode_struct order_data_request_fields x)" if "order_data_request_ok x" and "2 \<le> d" for d x
    using that by (intro json_ok_struct) (auto simp: order_data_request_defs codec)
qed simp

record letter_header =
  lhRequestID :: string
  lhAnswerDatetime :: string
  lhFromOrganization :: string
  lhOrganizationID :: string
  lhContractNumber :: string
  lhContractDate :: string

definition letter_header_fields :: "letter_header field list" where
  "letter_header_fields =
     [str_f ''request_id'' lhRequestID lhRequestID_update,
      str_o ''answer_datetime'' lhAnswerDatetime lhAnswerDatetime_update,
      str_o ''from_organization'' lhFromOrganization lhFromOrganization_update,
      str_o ''organization_id'' lhOrganizationID lhOrganizationID_update,
      str_o ''contract_number'' lhContractNumber lhContractNumber_update,
      str_o ''contract_date'' lhContractDate lhContractDate_update]"

definition letter_header_zero :: letter_header where
  "letter_header_zero = \<lparr>lhRequestID = [], lhAnswerDatetime = [], lhFromOrganization = [], lhOrganizationID = [], lhContractNumber = [],
     lhContractDate = []\<rparr>"

definition letter_header_ok :: "letter_header \<Rightarrow> bool" where
  "letter_header_ok x \<longleftrightarrow>
     list_all valid_utf8 [lhRequestID x, lhAnswerDatetime x, lhFromOrganization x, lhOrganizationID x, lhContractNumber x,
       lhContractDate x]"

lemmas letter_header_defs = letter_header_fields_def letter_header_zero_def letter_header_ok_def

interpretation letter_header: dto letter_header_fields letter_header_zero letter_header_ok 1
proof
  show "refills letter_header_fields letter_header_zero x" if "letter_header_ok x" for x
    using that by (cases x) (rule refillsI, simp_all add: letter_header_defs codec)
  show "json_ok d (encode_struct letter_header_fields x)" if "letter_header_ok x" and "1 \<le> d" for d x
    using that by (intro json_ok_struct) (auto simp: letter_header_defs codec)
qed simp

record passport_document =
  ppNumber :: string
  ppIssued :: string
  ppDateOfIssue :: string
  ppSeries :: string

definition passport_document_fields :: "passport_document field list" where
  "passport_document_fields =
     [str_o ''number'' ppNumber ppNumber_update, str_o ''issued'' ppIssued ppIssued_update,
      str_o ''date_of_issue'' ppDateOfIssue ppDateOfIssue_update, str_o ''series'' ppSeries ppSeries_update]"

definition passport_document_zero :: passport_document where
  "passport_document_zero = \<lparr>ppNumber = [], ppIssued = [], ppDateOfIssue = [], ppSeries = []\<rparr>"

definition passport_document_ok :: "passport_document \<Rightarrow> bool" where
  "passport_document_ok x \<longleftrightarrow>
     list_all valid_utf8 [ppNumber x, ppIssued x, ppDateOfIssue x, ppSeries x]"

lemmas passport_document_defs = passport_document_fields_def passport_document_zero_def passport_document_ok_def

interpretation passport_document: dto passport_document_fields passport_document_zero passport_document_ok 1
proof
  show "refills passport_document_fields passport_document_zero x" if "passport_document_ok x" for x
    using that by (cases x) (rule refillsI, simp_all add: passport_document_defs codec)
  show "json_ok d (encode_struct passport_document_fields x)" if "passport_document_ok x" and "1 \<le> d" for d x
    using that by (intro json_ok_struct) (auto simp: passport_document_defs codec)
qed simp

record id_card_document =
  idNumber :: string
  idIssued :: string
  idDateOfIssue :: string
  idValidUntil :: string
  idRegistryNumber :: string

definition id_card_document_fields :: "id_card_document field list" where
  "id_card_document_fields =
     [str_o ''number'' idNumber idNumber_update, str_o ''issued'' idIssued idIssued_update,
      str_o ''date_of_issue'' idDateOfIssue idDateOfIssue_update,
      str_o ''valid_until'' idValidUntil idValidUntil_update,
      str_o ''registry_number'' idRegistryNumber idRegistryNumber_update]"

definition id_card_document_zero :: id_card_document where
  "id_card_document_zero = \<lparr>idNumber = [], idIssued = [], idDateOfIssue = [], idValidUntil = [], idRegistryNumber = []\<rparr>"

definition id_card_document_ok :: "id_card_document \<Rightarrow> bool" where
  "id_card_document_ok x \<longleftrightarrow>
     list_all valid_utf8 [idNumber x, idIssued x, idDateOfIssue x, idValidUntil x, idRegistryNumber x]"

lemmas id_card_document_defs = id_card_document_fields_def id_card_document_zero_def id_card_document_ok_def

interpretation id_card_document: dto id_card_document_fields id_card_document_zero id_card_document_ok 1
proof
  show "refills id_card_document_fields id_card_document_zero x" if "id_card_document_ok x" for x
    using that by (cases x) (rule refillsI, simp_all add: id_card_document_defs codec)
  show "json_ok d (encode_struct id_card_document_fields x)" if "id_card_document_ok x" and "1 \<le> d" for d x
    using that by (intro json_ok_struct) (auto simp: id_card_document_defs codec)
qed simp

record international_passport =
  ipNumber :: string
  ipDateOfIssue :: string
  ipSeries :: string
  ipValidUntil :: string

definition international_passport_fields :: "international_passport field list" where
  "international_passport_fields =
     [str_o ''number'' ipNumber ipNumber_update, str_o ''date_of_issue'' ipDateOfIssue ipDateOfIssue_update,
      str_o ''series'' ipSeries ipSeries_update, str_o ''valid_until'' ipValidUntil ipValidUntil_update]"

definition international_passport_zero :: international_passport where
  "international_passport_zero = \<lparr>ipNumber = [], ipDateOfIssue = [], ipSeries = [], ipValidUntil = []\<rparr>"

definition international_passport_ok :: "international_passport \<Rightarrow> bool" where
  "international_passport_ok x \<longleftrightarrow>
     list_all valid_utf8 [ipNumber x, ipDateOfIssue x, ipSeries x, ipValidUntil x]"

lemmas international_passport_defs = international_passport_fields_def international_passport_zero_def international_passport_ok_def

interpretation international_passport: dto international_passport_fields international_passport_zero international_passport_ok 1
proof
  show "refills international_passport_fields international_passport_zero x" if "international_passport_ok x" for x
    using that by (cases x) (rule refillsI, simp_all add: international_passport_defs codec)
  show "json_ok d (encode_struct international_passport_fields x)" if "international_passport_ok x" and "1 \<le> d" for d x
    using that by (intro json_ok_struct) (auto simp: international_passport_defs codec)
qed simp

record client_documents =
  cdPassport :: "passport_document option"
  cdIDCard :: "id_card_document option"
  cdResidencePermit :: "passport_document option"
  cdInternationalPassport :: "international_passport option"

definition client_documents_fields :: "client_documents field list" where
  "client_documents_fields =
     [struct_o passport_document_fields passport_document_zero ''passport'' cdPassport cdPassport_update,
      struct_o id_card_document_fields id_card_document_zero ''id_card'' cdIDCard cdIDCard_update,
      struct_o passport_document_fields passport_document_zero ''residence_permit'' cdResidencePermit cdResidencePermit_update,
      struct_o international_passport_fields international_passport_zero ''international_passport'' cdInternationalPassport cdInternationalPassport_update]"

definition client_documents_zero :: client_documents where
  "client_documents_zero = \<lparr>cdPassport = None, cdIDCard = None, cdResidencePermit = None, cdInternationalPassport = None\<rparr>"

definition client_documents_ok :: "client_documents \<Rightarrow> bool" where
  "client_documents_ok x \<longleftrightarrow>
     pred_option passport_document_ok (cdPassport x) \<and> pred_option id_card_document_ok (cdIDCard x) \<and>
     pred_option passport_document_ok (cdResidencePermit x) \<and>
     pred_option international_passport_ok (cdInternationalPassport x)"

lemmas client_documents_defs = client_documents_fields_def client_documents_zero_def client_documents_ok_def

interpretation client_documents: dto client_documents_fields client_documents_zero client_documents_ok 2
proof
  show "refills client_documents_fields client_documents_zero x" if "client_documents_ok x" for x
    using that by (cases x) (rule refillsI, simp_all add: client_documents_defs codec)
  show "json_ok d (encode_struct client_documents_fields x)" if "client_documents_ok x" and "2 \<le> d" for d x
    using that by (intro json_ok_struct) (auto simp: client_documents_defs codec)
qed simp

record letter_customer =
  cuFirstName :: string
  cuLastName :: string
  cuMiddleName :: string
  cuINN :: string
  cuDocument :: "client_documents option"

definition letter_customer_fields :: "letter_customer field list" where
  "letter_customer_fields =
     [str_o ''first_name'' cuFirstName cuFirstName_update, str_o ''last_name'' cuLastName cuLastName_update,
      str_o ''middle_name'' cuMiddleName cuMiddleName_update, str_o ''inn'' cuINN cuINN_update,
      struct_o client_documents_fields client_documents_zero ''document'' cuDocument cuDocument_update]"

definition letter_customer_zero :: letter_customer where
  "letter_customer_zero = \<lparr>cuFirstName = [], cuLastName = [], cuMiddleName = [], cuINN = [], cuDocument = None\<rparr>"

definition letter_customer_ok :: "letter_customer \<Rightarrow> bool" where
  "letter_customer_ok x \<longleftrightarrow>
     list_all valid_utf8 [cuFirstName x, cuLastName x, cuMiddleName x, cuINN x] \<and>
     pred_option client_documents_ok (cuDocument x)"

lemmas letter_customer_defs = letter_customer_fields_def letter_customer_zero_def letter_customer_ok_def

interpretation letter_customer: dto letter_customer_fields letter_customer_zero letter_customer_ok 3
proof
  show "refills letter_customer_fields letter_customer_zero x" if "letter_customer_ok x" for x
    using that by (cases x) (rule refillsI, simp_all add: letter_customer_defs codec)
  show "json_ok d (encode_struct letter_customer_fields x)" if "letter_customer_ok x" and "3 \<le> d" for d x
    using that by (intro json_ok_struct) (auto simp: letter_customer_defs codec)
qed simp

record letter_invoice =
  liInvoiceNumber :: string
  liInvoiceDate :: string
  liInvoiceAmount :: kopecks

definition letter_invoice_fields :: "letter_invoice field list" where
  "letter_invoice_fields =
     [str_o ''invoice_number'' liInvoiceNumber liInvoiceNumber_update,
      str_o ''invoice_date'' liInvoiceDate liInvoiceDate_update,
      kopecks_f ''invoice_amount'' liInvoiceAmount liInvoiceAmount_update]"

definition letter_invoice_zero :: letter_invoice where
  "letter_invoice_zero = \<lparr>liInvoiceNumber = [], liInvoiceDate = [], liInvoiceAmount = 0\<rparr>"

definition letter_invoice_ok :: "letter_invoice \<Rightarrow> bool" where
  "letter_invoice_ok x \<longleftrightarrow>
     list_all valid_utf8 [liInvoiceNumber x, liInvoiceDate x] \<and> kopecks_ok (liInvoiceAmount x)"

lemmas letter_invoice_defs = letter_invoice_fields_def letter_invoice_zero_def letter_invoice_ok_def

interpretation letter_invoice: dto letter_invoice_fields letter_invoice_zero letter_invoice_ok 1
proof
  show "refills letter_invoice_fields letter_invoice_zero x" if "letter_invoice_ok x" for x
    using that by (cases x) (rule refillsI, simp_all add: letter_invoice_defs codec)
  show "json_ok d (encode_struct letter_invoice_fields x)" if "letter_invoice_ok x" and "1 \<le> d" for d x
    using that by (intro json_ok_struct) (auto simp: letter_invoice_defs codec)
qed simp

record letter_payment =
  lpDestID :: string
  lpDestName :: string
  lpDestMFO :: string
  lpDestBankName :: string
  lpDestAccNo :: string

definition letter_payment_fields :: "letter_payment field list" where
  "letter_payment_fields =
     [str_o ''dest_id'' lpDestID lpDestID_update, str_o ''dest_name'' lpDestName lpDestName_update,
      str_o ''dest_mfo'' lpDestMFO lpDestMFO_update, str_o ''dest_bank_name'' lpDestBankName lpDestBankName_update,
      str_o ''dest_acc_number'' lpDestAccNo lpDestAccNo_update]"

definition letter_payment_zero :: letter_payment where
  "letter_payment_zero = \<lparr>lpDestID = [], lpDestName = [], lpDestMFO = [], lpDestBankName = [], lpDestAccNo = []\<rparr>"

definition letter_payment_ok :: "letter_payment \<Rightarrow> bool" where
  "letter_payment_ok x \<longleftrightarrow>
     list_all valid_utf8 [lpDestID x, lpDestName x, lpDestMFO x, lpDestBankName x, lpDestAccNo x]"

lemmas letter_payment_defs = letter_payment_fields_def letter_payment_zero_def letter_payment_ok_def

interpretation letter_payment: dto letter_payment_fields letter_payment_zero letter_payment_ok 1
proof
  show "refills letter_payment_fields letter_payment_zero x" if "letter_payment_ok x" for x
    using that by (cases x) (rule refillsI, simp_all add: letter_payment_defs codec)
  show "json_ok d (encode_struct letter_payment_fields x)" if "letter_payment_ok x" and "1 \<le> d" for d x
    using that by (intro json_ok_struct) (auto simp: letter_payment_defs codec)
qed simp

record letter_bank =
  lbAgreement :: string
  lbAgreementDate :: string
  lbCreditAmount :: kopecks
  lbCustomerPayAmount :: kopecks
  lbProductTypes :: string
  lbBankID :: string
  lbBankName :: string
  lbBankExecutive :: string
  lbAvailablePartsCount :: int
  lbCreditProduct :: string

definition letter_bank_fields :: "letter_bank field list" where
  "letter_bank_fields =
     [str_o ''agreement'' lbAgreement lbAgreement_update,
      str_o ''agreement_date'' lbAgreementDate lbAgreementDate_update,
      kopecks_f ''credit_amount'' lbCreditAmount lbCreditAmount_update,
      kopecks_f ''customer_pay_amount'' lbCustomerPayAmount lbCustomerPayAmount_update,
      str_o ''product_types'' lbProductTypes lbProductTypes_update, str_o ''bank_id'' lbBankID lbBankID_update,
      str_o ''bank_name'' lbBankName lbBankName_update,
      str_o ''bank_executive'' lbBankExecutive lbBankExecutive_update,
      int_o ''available_parts_count'' lbAvailablePartsCount lbAvailablePartsCount_update,
      str_o ''credit_product'' lbCreditProduct lbCreditProduct_update]"

definition letter_bank_zero :: letter_bank where
  "letter_bank_zero = \<lparr>lbAgreement = [], lbAgreementDate = [], lbCreditAmount = 0, lbCustomerPayAmount = 0, lbProductTypes = [],
     lbBankID = [], lbBankName = [], lbBankExecutive = [], lbAvailablePartsCount = 0, lbCreditProduct = []\<rparr>"

definition letter_bank_ok :: "letter_bank \<Rightarrow> bool" where
  "letter_bank_ok x \<longleftrightarrow>
     list_all valid_utf8 [lbAgreement x, lbAgreementDate x, lbProductTypes x, lbBankID x, lbBankName x, lbBankExecutive x,
       lbCreditProduct x] \<and>
     in_int64 (lbAvailablePartsCount x) \<and> kopecks_ok (lbCreditAmount x) \<and> kopecks_ok (lbCustomerPayAmount x)"

lemmas letter_bank_defs = letter_bank_fields_def letter_bank_zero_def letter_bank_ok_def

interpretation letter_bank: dto letter_bank_fields letter_bank_zero letter_bank_ok 1
proof
  show "refills letter_bank_fields letter_bank_zero x" if "letter_bank_ok x" for x
    using that by (cases x) (rule refillsI, simp_all add: letter_bank_defs codec)
  show "json_ok d (encode_struct letter_bank_fields x)" if "letter_bank_ok x" and "1 \<le> d" for d x
    using that by (intro json_ok_struct) (auto simp: letter_bank_defs codec)
qed simp

record letter_expansion =
  exCustomer :: "letter_customer option"
  exInvoice :: "letter_invoice option"
  exPaymentDestination :: "letter_payment option"
  exBank :: "letter_bank option"
  exSign :: string
  exStamp :: string

definition letter_expansion_fields :: "letter_expansion field list" where
  "letter_expansion_fields =
     [struct_o letter_customer_fields letter_customer_zero ''customer'' exCustomer exCustomer_update,
      struct_o letter_invoice_fields letter_invoice_zero ''invoice'' exInvoice exInvoice_update,
      struct_o letter_payment_fields letter_payment_zero ''payment_destination'' exPaymentDestination exPaymentDestination_update,
      struct_o letter_bank_fields letter_bank_zero ''bank'' exBank exBank_update, str_o ''sign'' exSign exSign_update,
      str_o ''stamp'' exStamp exStamp_update]"

definition letter_expansion_zero :: letter_expansion where
  "letter_expansion_zero = \<lparr>exCustomer = None, exInvoice = None, exPaymentDestination = None, exBank = None, exSign = [], exStamp = []\<rparr>"

definition letter_expansion_ok :: "letter_expansion \<Rightarrow> bool" where
  "letter_expansion_ok x \<longleftrightarrow>
     list_all valid_utf8 [exSign x, exStamp x] \<and> pred_option letter_customer_ok (exCustomer x) \<and>
     pred_option letter_invoice_ok (exInvoice x) \<and> pred_option letter_payment_ok (exPaymentDestination x) \<and>
     pred_option letter_bank_ok (exBank x)"

lemmas letter_expansion_defs = letter_expansion_fields_def letter_expansion_zero_def letter_expansion_ok_def

interpretation letter_expansion: dto letter_expansion_fields letter_expansion_zero letter_expansion_ok 4
proof
  show "refills letter_expansion_fields letter_expansion_zero x" if "letter_expansion_ok x" for x
    using that by (cases x) (rule refillsI, simp_all add: letter_expansion_defs codec)
  show "json_ok d (encode_struct letter_expansion_fields x)" if "letter_expansion_ok x" and "4 \<le> d" for d x
    using that by (intro json_ok_struct) (auto simp: letter_expansion_defs codec)
qed simp

record order_data =
  odHeader :: letter_header
  odExpansion :: letter_expansion

definition order_data_fields :: "order_data field list" where
  "order_data_fields =
     [struct_f letter_header_fields ''header'' odHeader odHeader_update,
      struct_f letter_expansion_fields ''expansion'' odExpansion odExpansion_update]"

definition order_data_zero :: order_data where
  "order_data_zero = \<lparr>odHeader = letter_header_zero, odExpansion = letter_expansion_zero\<rparr>"

definition order_data_ok :: "order_data \<Rightarrow> bool" where
  "order_data_ok x \<longleftrightarrow>
     letter_header_ok (odHeader x) \<and> letter_expansion_ok (odExpansion x)"

lemmas order_data_defs = order_data_fields_def order_data_zero_def order_data_ok_def

interpretation order_data: dto order_data_fields order_data_zero order_data_ok 5
proof
  show "refills order_data_fields order_data_zero x" if "order_data_ok x" for x
    using that by (cases x) (rule refillsI, simp_all add: order_data_defs codec)
  show "json_ok d (encode_struct order_data_fields x)" if "order_data_ok x" and "5 \<le> d" for d x
    using that by (intro json_ok_struct) (auto simp: order_data_defs codec)
qed simp

section \<open>States and redaction\<close>

definition OrderState_IsTerminal :: "string \<Rightarrow> bool" where
  "OrderState_IsTerminal s \<longleftrightarrow> s = ''SUCCESS'' \<or> s = ''FAIL''"

definition OrderState_IsSuccess :: "string \<Rightarrow> bool" where
  "OrderState_IsSuccess s \<longleftrightarrow> s = ''SUCCESS''"

definition maskNameInitial :: "string \<Rightarrow> string" where
  "maskNameInitial s =
     (if s = [] then []
      else let r = runes s
           in if length r = 1 then ''*'' else string_of (encode_rune (r ! 0)) @ ''***'')"

definition maskINN :: "string \<Rightarrow> string" where
  "maskINN inn = (if length inn \<le> 4 then ''***'' else ''***'' @ drop (length inn - 4) inn)"

definition inst_ClientInfo_LogValue :: "inst_client_info \<Rightarrow> slog" where
  "inst_ClientInfo_LogValue c = SGroup
     [(''first_name'', SString (maskNameInitial (icFirstName c))), (''last_name'', SString (maskNameInitial (icLastName c))),
      (''middle_name'', SString (maskNameInitial (icMiddleName c))), (''inn'', SString (maskINN (icINN c)))]"

definition inst_Client_LogValue :: "'w inst_client \<Rightarrow> slog" where
  "inst_Client_LogValue c = SGroup
     [(''storeID'', SString (storeID c)), (''secret'', SString ''***''), (''baseURL'', SString (iBaseURL c))]"

definition initial_view :: "string \<Rightarrow> nat option option" where
  \<comment> \<open>what is told of a name: whether it is there, and its first character when there are more\<close>
  "initial_view s = (if s = [] then None else Some (if length (runes s) \<le> 1 then None else Some (hd (runes s))))"

lemma maskNameInitial_cases:
  obtains "s = []" "maskNameInitial s = []" "initial_view s = None"
  | "length (runes s) = 1" "maskNameInitial s = ''*''" "initial_view s = Some None"
  | "valid_rune (hd (runes s))" "maskNameInitial s = string_of (encode_rune (hd (runes s))) @ replicate 3 (CHR ''*'')"
    "initial_view s = Some (Some (hd (runes s)))"
proof (cases rule: maskName_cases [of s])
  case 1
  then show thesis using that(1) by (simp add: maskNameInitial_def initial_view_def)
next
  case 2
  then show thesis using that(2) by (simp add: maskNameInitial_def initial_view_def Let_def)
next
  case 3
  then have "runes s \<noteq> []" by auto
  with 3 show thesis
    using that(3) by (simp add: maskNameInitial_def initial_view_def Let_def hd_conv_nth numeral_3_eq_3)
qed

lemma maskNameInitial_view: "maskNameInitial a = maskNameInitial b \<longleftrightarrow> initial_view a = initial_view b"
proof -
  have long: "string_of (encode_rune r) @ replicate 3 (CHR ''*'') \<noteq> []" "string_of (encode_rune r) @ replicate 3 (CHR ''*'') \<noteq> ''*''" for r
    using mask_not_star [of 4 r] by (auto simp: eval_nat_numeral)
  show ?thesis
    by (cases rule: maskNameInitial_cases [of a]; cases rule: maskNameInitial_cases [of b])
      (use long masked_inj [of "hd (runes a)" "hd (runes b)" 3 3] in \<open>auto dest: sym\<close>)
qed

text \<open>What a logged client tells of a person: the initials and the last four digits of the tax number.\<close>

lemma inst_ClientInfo_LogValue_reveals:
  "inst_ClientInfo_LogValue a = inst_ClientInfo_LogValue b \<longleftrightarrow>
     map initial_view [icFirstName a, icLastName a, icMiddleName a] = map initial_view [icFirstName b, icLastName b, icMiddleName b] \<and>
     maskINN (icINN a) = maskINN (icINN b)"
  by (simp add: inst_ClientInfo_LogValue_def maskNameInitial_view)

text \<open>Other than the redaction of a tax number in the bank package, which keeps nothing, four digits stay.\<close>

lemma maskINN_keeps_digits:
  "maskINN ''3123456789'' = ''***6789''" "redactTIN ''3123456789'' = ''***''"
  by (simp_all add: maskINN_def redactTIN_def)

lemma inst_Client_LogValue_hides_secret: "inst_Client_LogValue (c\<lparr>isecret := s\<rparr>) = inst_Client_LogValue c"
  by (simp add: inst_Client_LogValue_def)

section \<open>An order on the wire\<close>

text \<open>
  C39: an installment order goes out once, signed, and whole. Whatever the server answers, \<open>CreateOrder\<close> of an order
  whose texts are UTF-8 and whose amounts are in range causes at most one exchange: a POST to the endpoint below the
  configured base URL, whose body decodes to exactly that order, every amount to the kopeck, with the store id and a
  signature header that \<open>VerifyCallback\<close> accepts for exactly that body. A result is only returned for status 201,
  and if the server answered with the encoding of a created order, that is the result.
\<close>

theorem CreateOrder_carries_the_order:
  assumes "inst_observed c sent" and "hmac_sha256 (hmac ie)"
    and "unmarshalOut ie = Unmarshal_json (\<lambda>j. decode_struct create_order_response_fields j create_order_response_zero)"
    and "create_order_request_ok order"
    and "CreateOrder ie c (\<lambda>r. Marshal_json (encode_struct create_order_request_fields r)) (Some order) w = (res, w')"
  shows "(sent w' = sent w \<and> (\<exists>e. res = Inl e)) \<or>
    (\<exists>R r body. sent w' = sent w @ [(R, r)] \<and> rMethod R = ''POST'' \<and>
       url_Parse (web ie) (iBaseURL c @ ''/api/order/create'') = Some (rURL R) \<and> rHeader R ''Store-Id'' = storeID c \<and>
       rBody R = Stream body False \<and> VerifyCallback (hmac ie) c body (rHeader R ''Signature'') = None \<and>
       Unmarshal_json (\<lambda>j. decode_struct create_order_request_fields j create_order_request_zero) body = Inr order \<and>
       (\<forall>v. res = Inr v \<longrightarrow> (\<exists>resp. r = Inr resp \<and> StatusCode resp = 201 \<and>
          (\<forall>x. create_order_response_ok x \<and> Marshal_json (encode_struct create_order_response_fields x) = Inr (respBody resp) \<and>
             length (respBody resp) \<le> MaxJSONResponseBytes \<longrightarrow> v = x))))"
  using CreateOrder_one_signed_request [OF assms(1,2,5)]
proof (elim disjE exE conjE)
  fix R r rq body
  assume a: "sent w' = sent w @ [(R, r)]" "Some order = Some rq" "Marshal_json (encode_struct create_order_request_fields rq) = Inr body"
    "rMethod R = ''POST''" "rBody R = sent_body (Some body)" "url_Parse (web ie) (iBaseURL c @ ''/api/order/create'') = Some (rURL R)"
    "rHeader R ''Store-Id'' = storeID c" "VerifyCallback (hmac ie) c body (rHeader R ''Signature'') = None"
    and v: "\<forall>v. res = Inr v \<longrightarrow> (\<exists>resp. r = Inr resp \<and> StatusCode resp = 201 \<and>
      (respBody resp = [] \<and> v = zeroOut ie \<or> unmarshalOut ie (take MaxJSONResponseBytes (respBody resp)) = Inr v))"
  have b: "Unmarshal_json (\<lambda>j. decode_struct create_order_request_fields j create_order_request_zero) body = Inr order"
    using create_order_request.text_back_any [OF assms(4)] a(2,3) by simp
  then have "body \<noteq> []" using Unmarshal_nothing by metis
  with a(5) have s: "rBody R = Stream body False" by (simp add: sent_body_def)
  have "\<forall>v. res = Inr v \<longrightarrow> (\<exists>resp. r = Inr resp \<and> StatusCode resp = 201 \<and>
      (\<forall>x. create_order_response_ok x \<and> Marshal_json (encode_struct create_order_response_fields x) = Inr (respBody resp) \<and>
         length (respBody resp) \<le> MaxJSONResponseBytes \<longrightarrow> v = x))"
    using v assms(3) create_order_response.text_back_any Unmarshal_nothing
    by (smt (verit) take_all sum.inject(2))
  with a s b show ?thesis by blast
qed blast

definition demo_order :: create_order_request where
  "demo_order = create_order_request_zero\<lparr>coStoreOrderID := ''41'', coClientPhone := ''+380000000000'', coTotalSum := 249905,
     coProducts := Some [\<lparr>pdName = ''lamp'', pdCount = 1, pdSum = 249905\<rparr>]\<rparr>"

definition demo_order_env :: "((http_request \<times> (string + http_response)) list, create_order_response) inst_env" where
  "demo_order_env = \<lparr>web = codec_env (\<lambda>j. decode_struct create_order_response_fields j create_order_response_zero),
     hmac = hmac demo_inst_env, unmarshalOut = Unmarshal_json (\<lambda>j. decode_struct create_order_response_fields j create_order_response_zero),
     zeroOut = create_order_response_zero, unmarshalErr = (\<lambda>_ e. e)\<rparr>"

lemma demo_order_ok: "create_order_request_ok demo_order"
  by (simp add: demo_order_def create_order_request_defs create_order_invoice_defs inst_product_defs kopecks_ok_def int64_bounds ascii_utf8)

theorem CreateOrder_carries_the_order_witness:
  "\<exists>R r body. snd (CreateOrder demo_order_env demo_inst_client (\<lambda>r. Marshal_json (encode_struct create_order_request_fields r))
       (Some demo_order) []) = [(R, r)] \<and> rBody R = Stream body False \<and>
     Unmarshal_json (\<lambda>j. decode_struct create_order_request_fields j create_order_request_zero) body = Inr demo_order"
proof -
  have o: "inst_observed demo_inst_client (\<lambda>w. w)" by (simp add: inst_observed_def demo_inst_client_def Let_def)
  have h: "hmac_sha256 (hmac demo_order_env)" by (auto simp: hmac_sha256_def demo_order_env_def demo_inst_env_def min_def)
  have u: "unmarshalOut demo_order_env = Unmarshal_json (\<lambda>j. decode_struct create_order_response_fields j create_order_response_zero)"
    by (simp add: demo_order_env_def)
  obtain res w' where d: "CreateOrder demo_order_env demo_inst_client (\<lambda>r. Marshal_json (encode_struct create_order_request_fields r))
      (Some demo_order) [] = (res, w')" by fastforce
  have "w' \<noteq> []"
    using d create_order_request.marshals [OF demo_order_ok]
    by (auto simp: CreateOrder_def inst_post_def doJSON_def signed_post_def demo_order_env_def demo_inst_client_def codec_env_def
        web_env_def NewRequest_def read_limited_def Let_def split: sum.splits option.splits if_splits prod.splits)
  with CreateOrder_carries_the_order [OF o h u demo_order_ok d] d show ?thesis by auto
qed

end
