(* ===== verification/Otel.thy ===== *)
theory Otel
  imports Endpoints
begin

text \<open>
  The tracing option of \<open>otelmonobank/otel.go\<close>. A side table holds the span of each request in flight: a map and a
  list of its keys in the order they came. The request hook opens a span and stores it, the response hook takes one
  out and ends it. Requests and spans are numbered; the tracer is a log of what was called on spans. The hooks run in
  the goroutines of the requests, and between the operations on the table, each under its lock, any other goroutine
  may run: \<open>hstep\<close> is that interleaving.
\<close>

section \<open>The table\<close>

record span_store =
  spans :: "nat \<Rightarrow> nat option"
  recent :: "nat list"

definition newSpanStore :: span_store where
  "newSpanStore = \<lparr>spans = (\<lambda>_. None), recent = []\<rparr>"

definition store_set :: "nat \<Rightarrow> nat \<Rightarrow> span_store \<Rightarrow> span_store" where
  "store_set r sp s = s\<lparr>recent := (if spans s r = None then recent s @ [r] else recent s), spans := (spans s)(r \<mapsto> sp)\<rparr>"

definition store_pop :: "nat \<Rightarrow> span_store \<Rightarrow> nat option \<times> span_store" where
  "store_pop r s =
     (spans s r, if spans s r = None then s else s\<lparr>spans := (spans s)(r := None), recent := remove1 r (recent s)\<rparr>)"

definition popAny :: "span_store \<Rightarrow> nat option option \<times> span_store" where
  \<comment> \<open>\<open>Some None\<close> is a nil span with \<open>ok\<close>\<close>
  "popAny s =
     (if recent s = [] then (None, s)
      else let r = last (recent s)
           in (Some (spans s r), s\<lparr>recent := butlast (recent s), spans := (spans s)(r := None)\<rparr>))"

definition store_inv :: "span_store \<Rightarrow> bool" where
  "store_inv s \<longleftrightarrow> distinct (recent s) \<and> set (recent s) = dom (spans s)"

lemma store_inv_New: "store_inv newSpanStore"
  by (simp add: store_inv_def newSpanStore_def)

lemma store_inv_set: "store_inv s \<Longrightarrow> store_inv (store_set r sp s)"
  by (auto simp: store_inv_def store_set_def)

lemma store_inv_pop: "store_inv s \<Longrightarrow> store_inv (snd (store_pop r s))"
  by (auto simp: store_inv_def store_pop_def split: if_splits)

lemma set_butlast_distinct: "distinct xs \<Longrightarrow> xs \<noteq> [] \<Longrightarrow> set (butlast xs) = set xs - {last xs}"
  by (induction xs rule: rev_induct) auto

lemma store_inv_popAny: "store_inv s \<Longrightarrow> store_inv (snd (popAny s))"
  by (auto simp: store_inv_def popAny_def Let_def distinct_butlast set_butlast_distinct)

lemma popAny_span:
  assumes "store_inv s"
  shows "fst (popAny s) = (if recent s = [] then None else Some (spans s (last (recent s))))"
    and "recent s \<noteq> [] \<Longrightarrow> \<exists>sp. spans s (last (recent s)) = Some sp"
  using assms last_in_set [of "recent s"] by (auto simp: popAny_def store_inv_def Let_def dom_def)

lemma spans_ops:
  "spans (store_set r sp s) = (spans s)(r \<mapsto> sp)"
  "spans (snd (store_pop r s)) = (spans s)(r := None)"
  "fst (store_pop r s) = spans s r"
  "recent s \<noteq> [] \<Longrightarrow> spans (snd (popAny s)) = (spans s)(last (recent s) := None)"
  "recent s = [] \<Longrightarrow> snd (popAny s) = s"
  by (auto simp: store_set_def store_pop_def popAny_def Let_def fun_eq_iff)

section \<open>The hooks\<close>

datatype otel_code = OtelError | OtelOk

datatype span_event =
    SpanStart nat string string string string
  | SpanEnd nat
  | SpanStatusCode nat int
  | SpanStatus nat otel_code string
  | SpanError nat string

definition otel_redactURL :: "(url \<Rightarrow> string) \<Rightarrow> url option \<Rightarrow> string" where
  "otel_redactURL String u = (case u of None \<Rightarrow> [] | Some v \<Rightarrow> String (v\<lparr>RawQuery := [], User := None\<rparr>))"

definition start_event :: "(url \<Rightarrow> string) \<Rightarrow> http_request \<Rightarrow> nat \<Rightarrow> span_event" where
  \<comment> \<open>\<open>tracer.Start\<close> with the name and the three attributes\<close>
  "start_event String req sp =
     SpanStart sp (''monobank HTTP '' @ rMethod req) (rMethod req) (otel_redactURL String (Some (rURL req))) (URL_Path (rURL req))"

definition finish_events :: "(int \<Rightarrow> string) \<Rightarrow> int option \<Rightarrow> string option \<Rightarrow> nat \<Rightarrow> span_event list" where
  \<comment> \<open>the response hook once it has a span: the status of the response, the error, and the deferred \<open>End\<close>\<close>
  "finish_events StatusText status err sp =
     (case err of
        Some e \<Rightarrow> [SpanError sp e, SpanStatus sp OtelError e]
      | None \<Rightarrow>
          (case status of
             None \<Rightarrow> []
           | Some code \<Rightarrow> [SpanStatusCode sp code,
               if 400 \<le> code then SpanStatus sp OtelError (StatusText code) else SpanStatus sp OtelOk []])) @ [SpanEnd sp]"

definition take_span :: "(nat option \<times> int) option \<Rightarrow> span_store \<Rightarrow> nat option option \<times> span_store" where
  \<comment> \<open>a response is its \<open>Request\<close> and its status\<close>
  "take_span resp s =
     (case resp of
        Some (Some r, _) \<Rightarrow> (case store_pop r s of (x, s') \<Rightarrow> (map_option Some x, s'))
      | _ \<Rightarrow> popAny s)"

text \<open>Where a goroutine is: outside the hooks, after the pop of the request hook, with the new span, or with the span
  that the response hook took.\<close>

datatype hook_pc =
    Outside
  | Popped nat http_request "nat option"
  | Opened nat nat
  | Taken "nat option option" "int option" "string option"

record hooks =
  hpc :: "nat \<Rightarrow> hook_pc"
  hstore :: span_store
  hnext :: nat
  hlog :: "span_event list"

definition hooks_init :: hooks where
  "hooks_init = \<lparr>hpc = (\<lambda>_. Outside), hstore = newSpanStore, hnext = 0, hlog = []\<rparr>"

definition at_request :: "hook_pc \<Rightarrow> nat \<Rightarrow> bool" where
  "at_request p r \<longleftrightarrow> (case p of Popped r' _ _ \<Rightarrow> r' = r | Opened r' _ \<Rightarrow> r' = r | _ \<Rightarrow> False)"

definition move :: "nat \<Rightarrow> hook_pc \<Rightarrow> hooks \<Rightarrow> hooks" where
  "move g p h = h\<lparr>hpc := (hpc h)(g := p)\<rparr>"

inductive hstep :: "(url \<Rightarrow> string) \<Rightarrow> (int \<Rightarrow> string) \<Rightarrow> hooks \<Rightarrow> hooks \<Rightarrow> bool" for String StatusText where
  request_pop: "hstep String StatusText h (move g (Popped r req (fst (store_pop r (hstore h)))) (h\<lparr>hstore := snd (store_pop r (hstore h))\<rparr>))"
    if "hpc h g = Outside" and "\<forall>g'. \<not> at_request (hpc h g') r"   \<comment> \<open>one goroutine sends a request\<close>
| request_open: "hstep String StatusText h
      (move g (Opened r (hnext h)) (h\<lparr>hnext := Suc (hnext h),
         hlog := hlog h @ (case p of None \<Rightarrow> [] | Some sp \<Rightarrow> [SpanEnd sp]) @ [start_event String req (hnext h)]\<rparr>))"
    if "hpc h g = Popped r req p"
| request_set: "hstep String StatusText h (move g Outside (h\<lparr>hstore := store_set r sp (hstore h)\<rparr>))"
    if "hpc h g = Opened r sp"
| response_take: "hstep String StatusText h
      (move g (Taken (fst (take_span resp (hstore h))) (map_option snd resp) err) (h\<lparr>hstore := snd (take_span resp (hstore h))\<rparr>))"
    if "hpc h g = Outside"
| response_none: "hstep String StatusText h (move g Outside h)"
    if "hpc h g = Taken None status err"
| response_finish: "hstep String StatusText h (move g Outside (h\<lparr>hlog := hlog h @ finish_events StatusText status err sp\<rparr>))"
    if "hpc h g = Taken (Some (Some sp)) status err"

definition hreach :: "(url \<Rightarrow> string) \<Rightarrow> (int \<Rightarrow> string) \<Rightarrow> hooks \<Rightarrow> bool" where
  "hreach String StatusText h \<longleftrightarrow> (hstep String StatusText)\<^sup>*\<^sup>* hooks_init h"

section \<open>No span is lost\<close>

definition span_ends :: "span_event list \<Rightarrow> nat list" where
  "span_ends l = [sp. SpanEnd sp \<leftarrow> l]"

definition span_starts :: "span_event list \<Rightarrow> nat list" where
  "span_starts l = [sp. SpanStart sp _ _ _ _ \<leftarrow> l]"

definition held :: "hook_pc \<Rightarrow> nat option" where
  "held p = (case p of Popped _ _ x \<Rightarrow> x | Opened _ sp \<Rightarrow> Some sp | Taken (Some x) _ _ \<Rightarrow> x | _ \<Rightarrow> None)"

text \<open>Whatever the places are in which a span can be: it is in one of them until it ends, and it ends once.\<close>

definition accounted :: "('p \<Rightarrow> nat option) \<Rightarrow> nat \<Rightarrow> nat list \<Rightarrow> bool" where
  "accounted place n ends \<longleftrightarrow> distinct ends \<and> (\<forall>x y sp. place x = Some sp \<and> place y = Some sp \<longrightarrow> x = y) \<and>
     (\<forall>sp. sp < n \<longleftrightarrow> (\<exists>x. place x = Some sp) \<or> sp \<in> set ends) \<and> (\<forall>x sp. place x = Some sp \<longrightarrow> sp \<notin> set ends)"

lemma accounted_move:
  assumes "accounted place n ends" and "place y = None" and "x \<noteq> y"
  shows "accounted (place(x := None, y := place x)) n ends"
proof -
  have "(\<exists>z. (place(x := None, y := place x)) z = Some sp) \<longleftrightarrow> (\<exists>z. place z = Some sp)" for sp
    using assms(2,3) by (metis fun_upd_apply option.distinct(1))
  then show ?thesis using assms unfolding accounted_def by (auto split: if_splits)
qed

lemma accounted_end:
  assumes "accounted place n ends" and "place x = Some sp"
  shows "accounted (place(x := None)) n (ends @ [sp])"
proof -
  have e: "(\<exists>z. (place(x := None)) z = Some sp') \<or> sp' = sp \<longleftrightarrow> (\<exists>z. place z = Some sp')" for sp'
    using assms unfolding accounted_def by (metis fun_upd_apply option.distinct(1) option.inject)
  have "sp' < n \<longleftrightarrow> (\<exists>z. place z = Some sp') \<or> sp' \<in> set ends" for sp' using assms(1) by (simp add: accounted_def)
  with e have t: "sp' < n \<longleftrightarrow> (\<exists>z. (place(x := None)) z = Some sp') \<or> sp' \<in> set (ends @ [sp])" for sp'
    unfolding set_append by (metis Un_iff empty_iff insert_iff list.set)
  show ?thesis
    unfolding accounted_def
  proof (intro conjI)
    show "\<forall>sp'. sp' < n \<longleftrightarrow> (\<exists>z. (place(x := None)) z = Some sp') \<or> sp' \<in> set (ends @ [sp])" using t by blast
  qed (use assms in \<open>auto simp: accounted_def\<close>)
qed

lemma accounted_new:
  assumes "accounted place n ends" and "place x = None"
  shows "accounted (place(x := Some n)) (Suc n) ends"
proof -
  have n: "place y \<noteq> Some n" "n \<notin> set ends" for y using assms(1) unfolding accounted_def by (metis nat_neq_iff)+
  have "(\<exists>z. (place(x := Some n)) z = Some sp) \<longleftrightarrow> sp = n \<or> (\<exists>z. place z = Some sp)" for sp
    using assms(2) by (metis fun_upd_apply option.distinct(1) option.inject)
  moreover have "sp < Suc n \<longleftrightarrow> sp = n \<or> sp < n" for sp by auto
  ultimately show ?thesis using assms n unfolding accounted_def by (auto split: if_splits)
qed

definition place :: "hooks \<Rightarrow> nat + nat \<Rightarrow> nat option" where
  \<comment> \<open>the entry of a request in the table, or what a goroutine holds\<close>
  "place h x = (case x of Inl r \<Rightarrow> spans (hstore h) r | Inr g \<Rightarrow> held (hpc h g))"

definition spans_inv :: "hooks \<Rightarrow> bool" where
  "spans_inv h \<longleftrightarrow> store_inv (hstore h) \<and> span_starts (hlog h) = [0..<hnext h] \<and>
     accounted (place h) (hnext h) (span_ends (hlog h)) \<and>
     (\<forall>g status err. hpc h g \<noteq> Taken (Some None) status err) \<and>
     (\<forall>g r. at_request (hpc h g) r \<longrightarrow> spans (hstore h) r = None \<and> (\<forall>g'. at_request (hpc h g') r \<longrightarrow> g' = g))"

lemma log_ends [simp]:
  "span_ends (l @ l') = span_ends l @ span_ends l'" "span_starts (l @ l') = span_starts l @ span_starts l'" "span_ends [] = []" "span_starts [] = []"
  "span_ends [SpanEnd sp] = [sp]" "span_starts [SpanEnd sp] = []" "span_ends (finish_events StatusText status err sp) = [sp]"
  "span_starts (finish_events StatusText status err sp) = []" "span_ends [start_event String req sp] = []"
  "span_starts [start_event String req sp] = [sp]"
  by (simp_all add: span_ends_def span_starts_def start_event_def) (cases err; cases status; simp add: span_ends_def span_starts_def finish_events_def)+

lemma move_fields [simp]:
  "hpc (move g p h) = (hpc h)(g := p)" "hstore (move g p h) = hstore h" "hnext (move g p h) = hnext h" "hlog (move g p h) = hlog h"
  by (simp_all add: move_def)

lemma at_request_simps [simp]:
  "\<not> at_request Outside r" "at_request (Popped r' req p) r \<longleftrightarrow> r' = r" "at_request (Opened r' sp) r \<longleftrightarrow> r' = r"
  "\<not> at_request (Taken x status err) r"
  by (simp_all add: at_request_def)

lemma held_simps [simp]:
  "held Outside = None" "held (Popped r req x) = x" "held (Opened r sp) = Some sp" "held (Taken None status err) = None"
  "held (Taken (Some x) status err) = x"
  by (simp_all add: held_def)

text \<open>What taking a span does to the table.\<close>

lemma take_span_cases:
  assumes "store_inv s"
  obtains (none) "take_span resp s = (None, s)"
  | (some) r sp s' where "take_span resp s = (Some (Some sp), s')" "spans s r = Some sp" "spans s' = (spans s)(r := None)" "store_inv s'"
proof -
  have any: thesis if "take_span resp s = popAny s"
  proof (cases "recent s = []")
    case True
    with that show thesis by (intro none) (simp add: popAny_def)
  next
    case False
    obtain sp where sp: "spans s (last (recent s)) = Some sp" using popAny_span(2) [OF assms False] by blast
    show thesis
      by (rule some [of sp "snd (popAny s)" "last (recent s)"])
        (use that sp False popAny_span(1) [OF assms] spans_ops(4) [OF False] store_inv_popAny [OF assms]
          in \<open>auto simp: prod_eq_iff\<close>)
  qed
  show thesis
  proof (cases "\<exists>r c. resp = Some (Some r, c)")
    case False
    then have "take_span resp s = popAny s" by (auto simp: take_span_def split: option.splits prod.splits)
    then show thesis by (rule any)
  next
    case True
    then obtain r c where r: "resp = Some (Some r, c)" by blast
    show thesis
    proof (cases "spans s r")
      case None
      with r show thesis by (intro none) (simp add: take_span_def store_pop_def)
    next
      case (Some sp)
      show thesis
        by (rule some [of sp "snd (store_pop r s)" r])
          (use r Some spans_ops(2) [of r s] spans_ops(3) [of r s] store_inv_pop [OF assms, of r] in \<open>auto simp: take_span_def split: prod.split\<close>)
    qed
  qed
qed

lemma hstep_inv:
  assumes "hstep String StatusText h h'" and inv: "spans_inv h"
  shows "spans_inv h'"
  using assms(1)
proof cases
  case (request_pop g r req)
  have "place h' = (place h)(Inl r := None, Inr g := place h (Inl r))"
    unfolding request_pop(1) by (rule ext) (simp add: place_def spans_ops split: sum.split)
  moreover have "accounted ((place h)(Inl r := None, Inr g := place h (Inl r))) (hnext h) (span_ends (hlog h))"
    by (rule accounted_move) (use inv request_pop(2) in \<open>simp_all add: spans_inv_def place_def\<close>)
  ultimately show ?thesis
    using inv request_pop(2,3) by (auto simp: request_pop(1) spans_inv_def spans_ops store_inv_pop)
next
  case (request_open g r req p)
  let ?ends = "span_ends (hlog h) @ (case p of None \<Rightarrow> [] | Some sp \<Rightarrow> [sp])"
  have "place h' = (place h)(Inr g := None, Inr g := Some (hnext h))"
    unfolding request_open(1) by (rule ext) (simp add: place_def split: sum.split)
  moreover have "accounted ((place h)(Inr g := None)) (hnext h) ?ends"
  proof (cases p)
    case None
    then have "(place h)(Inr g := None) = place h" using request_open(2) by (simp add: place_def fun_upd_idem)
    with None inv show ?thesis by (simp add: spans_inv_def)
  next
    case (Some sp)
    then show ?thesis using inv request_open(2) by (simp add: spans_inv_def place_def accounted_end)
  qed
  then have "accounted ((place h)(Inr g := None, Inr g := Some (hnext h))) (Suc (hnext h)) ?ends" by (rule accounted_new) simp
  moreover have "span_ends (hlog h') = ?ends" "span_starts (hlog h') = span_starts (hlog h) @ [hnext h]"
    unfolding request_open(1) by (simp_all split: option.split)
  moreover have "at_request (hpc h' g') r' \<longleftrightarrow> at_request (hpc h g') r'" for g' r'
    using request_open(2) by (simp add: request_open(1))
  moreover have "hpc h' g' \<noteq> Taken (Some None) status err" for g' status err
    using inv by (simp add: request_open(1) spans_inv_def)
  ultimately show ?thesis
    using inv unfolding spans_inv_def by (simp add: request_open(1))
next
  case (request_set g r sp)
  have at: "at_request (hpc h g) r" using request_set(2) by simp
  with inv have r: "spans (hstore h) r = None" by (simp add: spans_inv_def)
  have "place h' = (place h)(Inr g := None, Inl r := place h (Inr g))"
    unfolding request_set(1) by (rule ext) (simp add: place_def spans_ops request_set(2) split: sum.split)
  moreover have "accounted ((place h)(Inr g := None, Inl r := place h (Inr g))) (hnext h) (span_ends (hlog h))"
    by (rule accounted_move) (use inv r in \<open>simp_all add: spans_inv_def place_def\<close>)
  moreover have "r' \<noteq> r" if "at_request (hpc h g') r'" "g' \<noteq> g" for g' r'
    using inv at that unfolding spans_inv_def by blast
  ultimately show ?thesis
    using inv by (auto simp: request_set(1) spans_inv_def spans_ops store_inv_set)
next
  case (response_take g resp err)
  have "store_inv (hstore h)" using inv by (simp add: spans_inv_def)
  then show ?thesis
  proof (cases rule: take_span_cases [of "hstore h" resp])
    case none
    have "place h' = place h"
      unfolding response_take(1) none by (rule ext) (use response_take(2) in \<open>simp add: place_def split: sum.split\<close>)
    then show ?thesis using inv none by (auto simp: response_take(1) spans_inv_def)
  next
    case (some r sp s')
    have "place h' = (place h)(Inl r := None, Inr g := place h (Inl r))"
      unfolding response_take(1) some(1) by (rule ext) (use some(2,3) in \<open>simp add: place_def split: sum.split\<close>)
    moreover have "accounted ((place h)(Inl r := None, Inr g := place h (Inl r))) (hnext h) (span_ends (hlog h))"
      by (rule accounted_move) (use inv response_take(2) in \<open>simp_all add: spans_inv_def place_def\<close>)
    ultimately show ?thesis using inv some by (auto simp: response_take(1) spans_inv_def)
  qed
next
  case (response_none g status err)
  have "place h' = place h"
    unfolding response_none(1) by (rule ext) (use response_none(2) in \<open>simp add: place_def split: sum.split\<close>)
  then show ?thesis using inv by (auto simp: response_none(1) spans_inv_def)
next
  case (response_finish g sp status err)
  have "place h' = (place h)(Inr g := None)"
    unfolding response_finish(1) by (rule ext) (simp add: place_def split: sum.split)
  moreover have "accounted ((place h)(Inr g := None)) (hnext h) (span_ends (hlog h) @ [sp])"
    by (rule accounted_end) (use inv response_finish(2) in \<open>simp_all add: spans_inv_def place_def\<close>)
  ultimately show ?thesis using inv by (auto simp: response_finish(1) spans_inv_def)
qed

lemma hreach_inv: "hreach String StatusText h \<Longrightarrow> spans_inv h"
  unfolding hreach_def
proof (induction rule: rtranclp_induct)
  case base
  have "place hooks_init x = None" for x
    by (cases x) (simp_all add: place_def hooks_init_def newSpanStore_def)
  then have "accounted (place hooks_init) 0 []" by (simp add: accounted_def)
  then show ?case by (simp add: spans_inv_def store_inv_New hooks_init_def)
next
  case (step h h')
  then show ?case using hstep_inv by blast
qed

text \<open>
  C10: tracing accounts for every span, however the requests interleave. In every state that any number of goroutines
  can reach by running the hooks, with every operation on the side table atomic and one goroutine sending a request:
  each span was started once, in order, and is ended at most once; the key list and the map of the table agree; the
  response hook never takes a nil span for one; and when no hook is running, every span that was started has ended or
  is still in the table, and not both.
\<close>

theorem Otel_spans_accounted:
  assumes "hreach String StatusText h"
  shows "span_starts (hlog h) = [0..<hnext h] \<and> distinct (span_ends (hlog h)) \<and> set (span_ends (hlog h)) \<subseteq> set (span_starts (hlog h)) \<and>
    distinct (recent (hstore h)) \<and> set (recent (hstore h)) = dom (spans (hstore h)) \<and>
    (\<forall>g status err. hpc h g \<noteq> Taken (Some None) status err) \<and>
    ((\<forall>g. hpc h g = Outside) \<longrightarrow>
      (\<forall>sp \<in> set (span_starts (hlog h)). (sp \<in> set (span_ends (hlog h))) \<noteq> (\<exists>r. spans (hstore h) r = Some sp)))"
proof -
  have inv: "spans_inv h" using assms by (rule hreach_inv)
  then have a: "accounted (place h) (hnext h) (span_ends (hlog h))" and s: "span_starts (hlog h) = [0..<hnext h]"
    and st: "store_inv (hstore h)" by (simp_all add: spans_inv_def)
  have n: "sp < hnext h \<longleftrightarrow> (\<exists>x. place h x = Some sp) \<or> sp \<in> set (span_ends (hlog h))"
    "place h x = Some sp \<Longrightarrow> sp \<notin> set (span_ends (hlog h))" for sp x
    using a by (auto simp: accounted_def)
  have "(\<exists>x. place h x = Some sp) \<longleftrightarrow> (\<exists>r. spans (hstore h) r = Some sp)" if "\<forall>g. hpc h g = Outside" for sp
  proof
    assume "\<exists>x. place h x = Some sp"
    then obtain x where "place h x = Some sp" ..
    with that show "\<exists>r. spans (hstore h) r = Some sp" by (cases x) (auto simp: place_def)
  next
    assume "\<exists>r. spans (hstore h) r = Some sp"
    then obtain r where "place h (Inl r) = Some sp" by (auto simp: place_def)
    then show "\<exists>x. place h x = Some sp" ..
  qed
  with n have out: "\<forall>sp<hnext h. (sp \<in> set (span_ends (hlog h))) \<noteq> (\<exists>r. spans (hstore h) r = Some sp)" if "\<forall>g. hpc h g = Outside"
    using that by blast
  have "set (span_ends (hlog h)) \<subseteq> {0..<hnext h}" using n(1) by auto
  moreover have "distinct (span_ends (hlog h))" using a by (simp add: accounted_def)
  ultimately show ?thesis using inv out st unfolding s spans_inv_def store_inv_def by (auto simp del: ex_simps)
qed

section \<open>A hook that runs undisturbed\<close>

type_synonym tracing = "span_store \<times> nat \<times> span_event list"

definition requestHook :: "(url \<Rightarrow> string) \<Rightarrow> nat \<Rightarrow> http_request \<Rightarrow> tracing \<Rightarrow> tracing" where
  "requestHook String r req = (\<lambda>(s, n, l).
     case store_pop r s of (prev, s1) \<Rightarrow>
       (store_set r n s1, Suc n, l @ (case prev of None \<Rightarrow> [] | Some sp \<Rightarrow> [SpanEnd sp]) @ [start_event String req n]))"

definition responseHook :: "(int \<Rightarrow> string) \<Rightarrow> (nat option \<times> int) option \<Rightarrow> string option \<Rightarrow> tracing \<Rightarrow> tracing" where
  "responseHook StatusText resp err = (\<lambda>(s, n, l).
     case take_span resp s of
       (Some (Some sp), s1) \<Rightarrow> (s1, n, l @ finish_events StatusText (map_option snd resp) err sp)
     | (_, s1) \<Rightarrow> (s1, n, l))"

definition WithTracer :: "((http_request \<Rightarrow> 'w \<Rightarrow> http_request \<times> 'w) \<times> ((string + http_response) \<Rightarrow> 'w \<Rightarrow> 'w)) option \<Rightarrow>
    'w client \<Rightarrow> 'w client" where
  \<comment> \<open>the hooks over a tracer, none for a nil tracer\<close>
  "WithTracer tracer c = (case tracer of
      None \<Rightarrow> c
    | Some (rq, rs) \<Rightarrow> ChainResponseHook (Some rs) (ChainRequestHook (Some rq) c))"

definition tracing_state :: "hooks \<Rightarrow> tracing" where
  "tracing_state h = (hstore h, hnext h, hlog h)"

lemma requestHook_steps:
  assumes "hpc h g = Outside" and "\<forall>g'. \<not> at_request (hpc h g') r"
  shows "\<exists>h'. (hstep String StatusText)\<^sup>*\<^sup>* h h' \<and> hpc h' = hpc h \<and> tracing_state h' = requestHook String r req (tracing_state h)"
proof -
  let ?h1 = "move g (Popped r req (fst (store_pop r (hstore h)))) (h\<lparr>hstore := snd (store_pop r (hstore h))\<rparr>)"
  let ?h2 = "move g (Opened r (hnext ?h1)) (?h1\<lparr>hnext := Suc (hnext ?h1),
     hlog := hlog ?h1 @ (case fst (store_pop r (hstore h)) of None \<Rightarrow> [] | Some sp \<Rightarrow> [SpanEnd sp]) @ [start_event String req (hnext ?h1)]\<rparr>)"
  let ?h3 = "move g Outside (?h2\<lparr>hstore := store_set r (hnext ?h1) (hstore ?h2)\<rparr>)"
  have "hstep String StatusText h ?h1" using assms by (rule request_pop)
  moreover have "hstep String StatusText ?h1 ?h2" by (rule request_open) simp
  moreover have "hstep String StatusText ?h2 ?h3" by (rule request_set) simp
  ultimately have "(hstep String StatusText)\<^sup>*\<^sup>* h ?h3"
    by (intro converse_rtranclp_into_rtranclp [of _ h, OF _ converse_rtranclp_into_rtranclp [of _ ?h1, OF _ r_into_rtranclp]])
  moreover have "hpc ?h3 = hpc h" using assms(1) by (simp add: fun_eq_iff move_def)
  moreover have "tracing_state ?h3 = requestHook String r req (tracing_state h)" by (simp add: tracing_state_def requestHook_def split: prod.split)
  ultimately show ?thesis by blast
qed

text \<open>One exchange after another: the span of a request is ended by its response, with its status, or by its failure,
  and the table is empty again.\<close>

lemma exchange_ends_its_span:
  assumes "spans s = (\<lambda>_. None)" "recent s = []" and "resp = Some (Some r, code) \<or> resp = None"
  shows "responseHook StatusText resp err (requestHook String r req (s, n, l)) =
    (s, Suc n, l @ [start_event String req n] @ finish_events StatusText (map_option snd resp) err n)"
  using assms by (cases s) (auto simp: requestHook_def responseHook_def store_pop_def store_set_def take_span_def popAny_def)

text \<open>With two requests in flight the failure of the first ends the span of the second, and leaves its own.\<close>

lemma failure_ends_another_span:
  assumes "r \<noteq> r'"
  shows "responseHook StatusText None (Some e) (requestHook String r' req' (requestHook String r req (newSpanStore, 0, []))) =
    (store_set r 0 newSpanStore, 2,
     [start_event String req 0, start_event String req' 1, SpanError 1 e, SpanStatus 1 OtelError e, SpanEnd 1])"
  using assms
  by (auto simp: requestHook_def responseHook_def store_pop_def store_set_def take_span_def popAny_def newSpanStore_def
      finish_events_def fun_eq_iff)

text \<open>A response whose \<open>Request\<close> is not the one the request hook saw, as after a redirect, leaves the span in the table.\<close>

lemma redirected_span_stays:
  assumes "r' \<noteq> r"
  shows "responseHook StatusText (Some (Some r', code)) None (requestHook String r req (newSpanStore, 0, [])) =
    (store_set r 0 newSpanStore, 1, [start_event String req 0])"
  using assms by (auto simp: requestHook_def responseHook_def store_pop_def store_set_def take_span_def newSpanStore_def)

lemma otel_redactURL_hides: "otel_redactURL String (Some (u\<lparr>RawQuery := q, User := x\<rparr>)) = otel_redactURL String (Some u)"
  by (simp add: otel_redactURL_def)

theorem Otel_spans_accounted_witness:
  "\<exists>h. hreach (\<lambda>_. []) (\<lambda>_. []) h \<and> span_starts (hlog h) = [0] \<and> 0 \<notin> set (span_ends (hlog h)) \<and> recent (hstore h) = [7]"
proof -
  obtain h where h: "hreach (\<lambda>_. []) (\<lambda>_. []) h" "hpc h = hpc hooks_init"
    "tracing_state h = requestHook (\<lambda>_. []) 7 (demo_http_request ''GET'') (tracing_state hooks_init)"
    using requestHook_steps [of hooks_init 0 7 "\<lambda>_. []" "\<lambda>_. []" "demo_http_request ''GET''"]
    by (auto simp: hreach_def hooks_init_def)
  have "hnext h = 1" "recent (hstore h) = [7]" "spans (hstore h) 7 = Some 0"
    using h(3) by (auto simp: tracing_state_def requestHook_def hooks_init_def newSpanStore_def store_pop_def store_set_def)
  moreover have "\<forall>g. hpc h g = Outside" using h(2) by (simp add: hooks_init_def)
  ultimately show ?thesis using Otel_spans_accounted [OF h(1)] h(1) by auto
qed

end
