(* ===== verification/Test_Server.thy ===== *)
theory Test_Server
  imports Acquiring_Webhook
begin

text \<open>
  The fake server that the repository offers to tests (\<open>monobanktest/server.go\<close>, \<open>responder.go\<close>, \<open>builders.go\<close>,
  \<open>webhook.go\<close>): its routes, how it picks one for a request, its responders, and the signer of webhook bodies. A
  responder is a function of the request and of the state it keeps; what it wrote is a status, a content type and a body.
\<close>

section \<open>Responders\<close>

record reply =
  rpStatus :: int
  rpType :: string
  rpBody :: string

record test_request =
  tMethod :: string
  tPath :: string
  tBody :: string

type_synonym 's responder = "test_request \<Rightarrow> 's \<Rightarrow> reply \<times> 's"

datatype 'v test_body = NilBody | Raw string | Encoded 'v

definition writeBody :: "('v \<Rightarrow> string) \<Rightarrow> 'v test_body \<Rightarrow> string" where
  \<comment> \<open>\<open>encode\<close>: what \<open>json.Encoder.Encode\<close> writes\<close>
  "writeBody encode b = (case b of NilBody \<Rightarrow> [] | Raw s \<Rightarrow> s | Encoded v \<Rightarrow> encode v)"

definition test_JSON :: "('v \<Rightarrow> string) \<Rightarrow> 'v test_body \<Rightarrow> 's responder" where
  "test_JSON encode b = (\<lambda>_ s. (\<lparr>rpStatus = 200, rpType = ''application/json'', rpBody = writeBody encode b\<rparr>, s))"

definition test_Error :: "((string \<times> string) list \<Rightarrow> string) \<Rightarrow> int \<Rightarrow> string \<Rightarrow> 's responder" where
  "test_Error encode status msg =
     (\<lambda>_ s. (\<lparr>rpStatus = status, rpType = ''application/json'', rpBody = encode [(''errorDescription'', msg)]\<rparr>, s))"

definition ErrorWithCode :: "((string \<times> string) list \<Rightarrow> string) \<Rightarrow> int \<Rightarrow> string \<Rightarrow> string \<Rightarrow> 's responder" where
  "ErrorWithCode encode status code msg =
     (if code = [] then test_Error encode status msg
      else (\<lambda>_ s. (\<lparr>rpStatus = status, rpType = ''application/json'',
                      rpBody = encode [(''errorDescription'', msg), (''errCode'', code)]\<rparr>, s)))"

definition test_Status :: "int \<Rightarrow> 's responder" where
  "test_Status status = (\<lambda>_ s. (\<lparr>rpStatus = status, rpType = [], rpBody = []\<rparr>, s))"

definition wrap32 :: "int \<Rightarrow> int" where
  "wrap32 n = (n + 2 ^ 31) mod 2 ^ 32 - 2 ^ 31"

definition Sequence :: "'s responder list \<Rightarrow> test_request \<Rightarrow> int \<times> 's \<Rightarrow> reply option \<times> int \<times> 's" where
  \<comment> \<open>with its \<open>atomic.Int32\<close>; no reply when the index is out of range and the handler panics\<close>
  "Sequence responders = (\<lambda>r (i, s).
     if responders = [] then (case test_Status 500 r s of (x, s1) \<Rightarrow> (Some x, i, s1))
     else let i1 = wrap32 (i + 1);
              idx = wrap32 (i1 - 1);
              idx1 = (if int (length responders) \<le> idx then int (length responders) - 1 else idx)
          in if idx1 < 0 then (None, i1, s)
             else case (responders ! nat idx1) r s of (x, s1) \<Rightarrow> (Some x, i1, s1))"

section \<open>Routes\<close>

record 's prefix_route =
  pMethod :: string
  pPrefix :: string
  pResp :: "'s responder"

record 's test_server =
  routes :: "string \<times> string \<Rightarrow> 's responder option"
  prefixRoutes :: "'s prefix_route list"
  closed :: bool

definition NewServer :: "'s test_server" where
  "NewServer = \<lparr>routes = (\<lambda>_. None), prefixRoutes = [], closed = False\<rparr>"

definition Close :: "'s test_server \<Rightarrow> 's test_server" where
  "Close s = s\<lparr>closed := True\<rparr>"

definition Handle :: "string \<Rightarrow> string \<Rightarrow> 's responder \<Rightarrow> 's test_server \<Rightarrow> 's test_server" where
  "Handle meth path r s = s\<lparr>routes := (routes s)((meth, path) \<mapsto> r)\<rparr>"

definition longer_first :: "'s prefix_route \<Rightarrow> int" where
  \<comment> \<open>the order of \<open>sort.SliceStable\<close>: longer prefixes first\<close>
  "longer_first p = - int (length (pPrefix p))"

definition HandlePrefix :: "string \<Rightarrow> string \<Rightarrow> 's responder \<Rightarrow> 's test_server \<Rightarrow> 's test_server" where
  "HandlePrefix meth prefix r s = s\<lparr>prefixRoutes :=
     sort_key longer_first (prefixRoutes s @ [\<lparr>pMethod = meth, pPrefix = prefix, pResp = r\<rparr>])\<rparr>"

definition has_prefix :: "string \<Rightarrow> string \<Rightarrow> bool" where
  "has_prefix s p \<longleftrightarrow> take (length p) s = p"

definition find_responder :: "'s test_server \<Rightarrow> string \<Rightarrow> string \<Rightarrow> 's responder option" where
  "find_responder s meth path =
     (case routes s (meth, path) of
        Some r \<Rightarrow> Some r
      | None \<Rightarrow> map_option pResp (find (\<lambda>p. pMethod p = meth \<and> has_prefix path (pPrefix p)) (prefixRoutes s)))"

definition test_handle :: "'s test_server \<Rightarrow> test_request \<Rightarrow> 's \<Rightarrow> reply \<times> bool \<times> 's" where
  \<comment> \<open>the reply, and whether the test is marked as failed\<close>
  "test_handle s r st =
     (if closed s then (\<lparr>rpStatus = 503, rpType = ''text/plain; charset=utf-8'', rpBody = ''server closed'' @ [CHR 0x0A]\<rparr>, False, st)
      else case find_responder s (tMethod r) (tPath r) of
          None \<Rightarrow> (\<lparr>rpStatus = 501, rpType = ''text/plain; charset=utf-8'', rpBody = ''no handler registered'' @ [CHR 0x0A]\<rparr>, True, st)
        | Some f \<Rightarrow> (case f r st of (x, st1) \<Rightarrow> (x, False, st1)))"

definition WithClientInfo where
  "WithClientInfo encode info = Handle ''GET'' ''/personal/client-info'' (test_JSON encode (Encoded info))"

definition WithRates where
  "WithRates encode rates = Handle ''GET'' ''/bank/currency'' (test_JSON encode (Encoded rates))"

definition WithServerKey where
  "WithServerKey encode payload = Handle ''GET'' ''/bank/sync'' (test_JSON encode payload)"

definition WithStatement where
  "WithStatement encode account txs =
     HandlePrefix ''GET'' (''/personal/statement/'' @ account @ ''/'') (test_JSON encode (Encoded txs))"

definition WithWebHookSubscription where
  "WithWebHookSubscription = Handle ''POST'' ''/personal/webhook'' (test_Status 200)"

section \<open>The longest prefix wins\<close>

text \<open>A server as it is made: from \<open>NewServer\<close> by registrations.\<close>

inductive made :: "'s test_server \<Rightarrow> bool" where
  made_New: "made NewServer"
| made_Handle: "made s \<Longrightarrow> made (Handle meth path r s)"
| made_Prefix: "made s \<Longrightarrow> made (HandlePrefix meth prefix r s)"
| made_Close: "made s \<Longrightarrow> made (Close s)"

lemma made_sorted: "made s \<Longrightarrow> sorted (map longer_first (prefixRoutes s))"
  by (induction rule: made.induct) (simp_all add: NewServer_def Handle_def HandlePrefix_def Close_def)

lemma find_sorted_longest:
  assumes "sorted (map longer_first ps)" and "find P ps = Some p" and "q \<in> set ps" and "P q"
  shows "length (pPrefix q) \<le> length (pPrefix p)"
  using assms
proof (induction ps)
  case (Cons a ps)
  then show ?case by (cases "P a") (auto simp: longer_first_def)
qed simp

text \<open>
  An exact route shadows every prefix; otherwise the responder is one registered for the method and a prefix of the
  path, and no registered prefix of the path is longer; and there is none exactly when nothing matches.
\<close>

lemma find_responder_longest:
  assumes "made s"
  shows "case routes s (meth, path) of
      Some r \<Rightarrow> find_responder s meth path = Some r
    | None \<Rightarrow>
        (case find_responder s meth path of
           None \<Rightarrow> \<forall>p \<in> set (prefixRoutes s). \<not> (pMethod p = meth \<and> has_prefix path (pPrefix p))
         | Some r \<Rightarrow> \<exists>p \<in> set (prefixRoutes s). pResp p = r \<and> pMethod p = meth \<and> has_prefix path (pPrefix p) \<and>
             (\<forall>q \<in> set (prefixRoutes s). pMethod q = meth \<and> has_prefix path (pPrefix q) \<longrightarrow>
                length (pPrefix q) \<le> length (pPrefix p)))"
proof (cases "routes s (meth, path)")
  case None
  let ?P = "\<lambda>p. pMethod p = meth \<and> has_prefix path (pPrefix p)"
  show ?thesis
  proof (cases "find ?P (prefixRoutes s)")
    case None
    then have "\<forall>p \<in> set (prefixRoutes s). \<not> ?P p" by (auto simp: find_None_iff)
    with None \<open>routes s (meth, path) = None\<close> show ?thesis by (simp add: find_responder_def)
  next
    case (Some p)
    then have p: "p \<in> set (prefixRoutes s)" "?P p" by (auto simp: find_Some_iff)
    have "length (pPrefix q) \<le> length (pPrefix p)" if "q \<in> set (prefixRoutes s)" "?P q" for q
      using find_sorted_longest [OF made_sorted [OF assms] Some] that by blast
    with \<open>routes s (meth, path) = None\<close> Some p show ?thesis by (auto simp: find_responder_def)
  qed
qed (simp add: find_responder_def)

text \<open>Of prefixes of the same length the first one registered wins: sorting keeps their order.\<close>

lemma same_length_first_wins:
  "find_responder (HandlePrefix m p r2 (HandlePrefix m p r1 NewServer)) m (p @ rest) = Some r1"
  by (simp add: find_responder_def HandlePrefix_def NewServer_def has_prefix_def longer_first_def)

text \<open>A request for another account than the one of \<open>WithStatement\<close> is not answered with 404: it fails the test.\<close>

lemma other_account_fails_the_test:
  assumes "\<not> has_prefix path (''/personal/statement/'' @ account @ ''/'')"
  shows "test_handle (WithStatement encode account txs NewServer) \<lparr>tMethod = ''GET'', tPath = path, tBody = b\<rparr> st =
    (\<lparr>rpStatus = 501, rpType = ''text/plain; charset=utf-8'', rpBody = ''no handler registered'' @ [CHR 0x0A]\<rparr>, True, st)"
  using assms by (simp add: test_handle_def WithStatement_def HandlePrefix_def NewServer_def find_responder_def)

section \<open>Sequences\<close>

fun replies :: "'s responder list \<Rightarrow> test_request list \<Rightarrow> int \<times> 's \<Rightarrow> reply option list" where
  "replies rs [] st = []"
| "replies rs (r # reqs) st = (case Sequence rs r st of (x, st1) \<Rightarrow> x # replies rs reqs st1)"

lemma wrap32_id: "- (2 ^ 31) \<le> n \<Longrightarrow> n < 2 ^ 31 \<Longrightarrow> wrap32 n = n"
  by (simp add: wrap32_def)

text \<open>Within the range of the counter the \<open>i\<close>-th call is answered by the \<open>i\<close>-th responder and every call after the
  last by the last one; when the counter has wrapped around the index is negative and the call panics.\<close>

lemma Sequence_step:
  assumes "rs \<noteq> []" and "0 \<le> i" and "i < 2 ^ 31 - 1"
  shows "Sequence rs r (i, s) = (case (rs ! min (nat i) (length rs - 1)) r s of (x, s1) \<Rightarrow> (Some x, i + 1, s1))"
proof -
  have w: "wrap32 (i + 1) = i + 1" "wrap32 i = i" using assms(2,3) by (simp_all add: wrap32_id)
  obtain n where n: "length rs = Suc n" using assms(1) by (cases rs) auto
  show ?thesis
  proof (cases "int (length rs) \<le> i")
    case True
    then have "nat (int (length rs) - 1) = min (nat i) (length rs - 1)" "\<not> int (length rs) - 1 < 0" using n by auto
    with True show ?thesis using assms(1) w by (simp add: Sequence_def Let_def)
  next
    case False
    then have "nat i = min (nat i) (length rs - 1)" using n by auto
    with False show ?thesis using assms(1,2) w by (simp add: Sequence_def Let_def)
  qed
qed

lemma Sequence_panics: "rs \<noteq> [] \<Longrightarrow> fst (Sequence rs r (- (2 ^ 31), s)) = None"
  by (simp add: Sequence_def wrap32_def Let_def)

lemma Sequence_nth:
  assumes "rs \<noteq> []" and "\<And>f s r. f \<in> set rs \<Longrightarrow> snd (f r s) = s"
  shows "0 \<le> i \<Longrightarrow> i + int (length reqs) < 2 ^ 31 \<Longrightarrow> k < length reqs \<Longrightarrow>
    replies rs reqs (i, s) ! k = Some (fst ((rs ! min (nat i + k) (length rs - 1)) (reqs ! k) s))"
proof (induction reqs arbitrary: i k)
  case (Cons r reqs)
  let ?f = "rs ! min (nat i) (length rs - 1)"
  have "min (nat i) (length rs - 1) < length rs" using assms(1) by (cases rs) auto
  then have "?f \<in> set rs" by (rule nth_mem)
  then have k: "snd (?f r s) = s" by (rule assms(2))
  have st: "Sequence rs r (i, s) = (Some (fst (?f r s)), i + 1, s)"
    using Sequence_step [OF assms(1), of i r s] Cons.prems k by (cases "?f r s") auto
  show ?case
  proof (cases k)
    case (Suc j)
    have "nat (i + 1) + j = nat i + k" using Cons.prems(1) Suc by simp
    with Cons.IH [of "i + 1" j] Cons.prems Suc st show ?thesis by simp
  qed (simp add: st)
qed simp

section \<open>The webhook signer\<close>

record ('k, 's) signing =
  pubOf :: "'s \<Rightarrow> 'k"
  SignASN1 :: "'s \<Rightarrow> string \<Rightarrow> string"
  MarshalPKIX :: "'k \<Rightarrow> string"
  EncodePEM :: "string \<Rightarrow> string"   \<comment> \<open>a block of type \<open>PUBLIC KEY\<close>\<close>

record 's webhook_signer =
  wsPriv :: 's
  wsKeyField :: string

definition NewAcquiringWebhookSigner :: "('k, 's) signing \<Rightarrow> 's \<Rightarrow> 's webhook_signer" where
  "NewAcquiringWebhookSigner sg priv =
     \<lparr>wsPriv = priv, wsKeyField = b64_encode (EncodePEM sg (MarshalPKIX sg (pubOf sg priv)))\<rparr>"

definition PubKeyField :: "'s webhook_signer \<Rightarrow> string" where
  "PubKeyField s = wsKeyField s"

definition signer_Sign :: "('k, 's) signing \<Rightarrow> 'k crypto \<Rightarrow> 's webhook_signer \<Rightarrow> string \<Rightarrow> string" where
  "signer_Sign sg cr s body = b64_encode (SignASN1 sg (wsPriv s) (Sum256 cr body))"

definition signer_Request :: "('k, 's) signing \<Rightarrow> 'k crypto \<Rightarrow> 's webhook_signer \<Rightarrow> string \<Rightarrow> string \<Rightarrow> string \<Rightarrow>
    test_request \<times> (string \<Rightarrow> string)" where
  "signer_Request sg cr s meth target body =
     (\<lparr>tMethod = meth, tPath = target, tBody = body\<rparr>,
      (\<lambda>_. [])(''X-Sign'' := signer_Sign sg cr s body, ''Content-Type'' := ''application/json''))"

definition WithAcquiringPubKey where
  "WithAcquiringPubKey encode s = Handle ''GET'' ''/api/merchant/pubkey'' (test_JSON encode (Encoded [(''key'', PubKeyField s)]))"

definition signing_laws :: "('k, 's) signing \<Rightarrow> 'k crypto \<Rightarrow> 'k key_parsers \<Rightarrow> bool" where
  \<comment> \<open>documented of ECDSA, PEM and X.509: a signature verifies under its key, and a key is read back\<close>
  "signing_laws sg cr kp \<longleftrightarrow> (\<forall>priv d. VerifyASN1 cr (pubOf sg priv) d (SignASN1 sg priv d)) \<and>
     (\<forall>der. EncodePEM sg der \<noteq> [] \<and> pem_Decode kp (EncodePEM sg der) = Some der) \<and>
     (\<forall>k. ParsePKIX kp (MarshalPKIX sg k) = Inr (ECDSA_P256 k))"

text \<open>What the signer sends, the acquiring package accepts: its key field parses to its public key, and under that key
  the signature header of every body verifies.\<close>

lemma signer_verifies:
  fixes sg :: "('k, 's) signing" and priv :: 's
  assumes "signing_laws sg cr kp"
  defines "s \<equiv> NewAcquiringWebhookSigner sg priv"
  shows "ParsePubKey kp (PubKeyField s) = Inr (pubOf sg priv)"
    and "VerifyWebhook cr (Some (pubOf sg priv)) body (snd (signer_Request sg cr s meth target body) ''X-Sign'') = None"
proof -
  have "b64_encode x \<noteq> []" if "x \<noteq> []" for x using that b64_decode_encode [of x] b64_decode_encode [of "[]"] by force
  then show "ParsePubKey kp (PubKeyField s) = Inr (pubOf sg priv)"
    using assms(1) by (simp add: s_def ParsePubKey_def PubKeyField_def NewAcquiringWebhookSigner_def signing_laws_def b64_decode_encode)
  show "VerifyWebhook cr (Some (pubOf sg priv)) body (snd (signer_Request sg cr s meth target body) ''X-Sign'') = None"
    using assms(1) by (simp add: s_def VerifyWebhook_def signer_Request_def signer_Sign_def NewAcquiringWebhookSigner_def
        signing_laws_def b64_decode_encode)
qed

end
