(* ===== verification/Client_Diagnostics.thy ===== *)
theory Client_Diagnostics
  imports Client_Options
begin

text \<open>
  What the shared client tells about its work: the log records of \<open>attempt\<close> and the option \<open>WithLogger\<close>
  (\<open>client.go\<close>, \<open>options.go\<close>), and the text of an \<open>APIError\<close>; and the last options, which concern the
  \<open>http.Client\<close> below it. The logger of \<open>log/slog\<close> is the list of the records that it receives. The lemmas show that
  logging changes nothing else, that it writes two records per exchange, and what a record shows.
\<close>

section \<open>Log records\<close>

datatype log_level = Debug | Warn

text \<open>Levels are ordered; a handler takes the records from its own level on.\<close>

instantiation log_level :: linorder
begin

definition less_eq_log_level :: "log_level \<Rightarrow> log_level \<Rightarrow> bool" where
  "less_eq_log_level a b \<longleftrightarrow> a = Debug \<or> b = Warn"

definition less_log_level :: "log_level \<Rightarrow> log_level \<Rightarrow> bool" where
  "less_log_level a b \<longleftrightarrow> a = Debug \<and> b = Warn"

instance
  by (standard; auto simp: less_eq_log_level_def less_log_level_def; metis log_level.exhaust log_level.distinct)

end

datatype log_entry =
    SendingRequest string string                    \<comment> \<open>method and URL\<close>
  | HttpError string string int string              \<comment> \<open>with the duration and the error\<close>
  | HttpResponse string string int int              \<comment> \<open>with the status and the duration\<close>

fun level_of :: "log_entry \<Rightarrow> log_level" where
  "level_of (SendingRequest m u) = Debug"
| "level_of (HttpError m u d e) = Warn"
| "level_of (HttpResponse m u s d) = Debug"

fun logged_url :: "log_entry \<Rightarrow> string" where
  "logged_url (SendingRequest m u) = u"
| "logged_url (HttpError m u d e) = u"
| "logged_url (HttpResponse m u s d) = u"

fun untimed :: "log_entry \<Rightarrow> log_entry" where
  "untimed (HttpError m u d e) = HttpError m u 0 e"
| "untimed (HttpResponse m u s d) = HttpResponse m u s 0"
| "untimed r = r"

definition time_Since :: "int \<Rightarrow> int \<Rightarrow> int" where
  \<comment> \<open>\<open>time.Since\<close> saturates at the bounds of \<open>Duration\<close>\<close>
  "time_Since t u = max int64_min (min int64_max (t - u))"

definition result_entry :: "('w, 'v) env \<Rightarrow> http_request \<Rightarrow> (string + http_response) \<Rightarrow> int \<Rightarrow> log_entry" where
  "result_entry env req res dur =
     (case res of
        Inl err \<Rightarrow> HttpError (rMethod req) (url_String env (rURL req)) dur err
      | Inr resp \<Rightarrow> HttpResponse (rMethod req) (url_String env (rURL req)) (StatusCode resp) dur)"

definition attempt_logged :: "('w, 'v) env \<Rightarrow> 'w client \<Rightarrow> bool \<Rightarrow> target \<Rightarrow> int list \<Rightarrow>
    http_request \<times> 'v out \<times> 'w \<times> log_entry list \<Rightarrow> client_error option \<times> http_request \<times> 'v out \<times> 'w \<times> log_entry list" where
  \<comment> \<open>\<open>attempt\<close> with \<open>c.logger\<close>, which is present or not\<close>
  "attempt_logged env c logger v expected = (\<lambda>(req0, out0, w0, l0).
     (case reset_body req0 of
        Inl e \<Rightarrow> (Some (GetBodyFailed e), req0, out0, w0, l0)
      | Inr req1 \<Rightarrow>
         (let (req, w1) = (case onReq c of None \<Rightarrow> (req1, w0) | Some f \<Rightarrow> f req1 w0);
              l1 = (if logger then l0 @ [SendingRequest (rMethod req) (url_String env (rURL req))] else l0);
              start = clock env w1;
              (res, w2) = http_Do c req w1;
              dur = time_Since (clock env w2) start;
              w3 = (case onResp c of None \<Rightarrow> w2 | Some f \<Rightarrow> f res w2);
              l2 = (if logger then l1 @ [result_entry env req res dur] else l1);
              sent = req\<lparr>rBody := consumed (rBody req)\<rparr>
          in case res of
              Inl e \<Rightarrow> (Some (TransportFailed e), sent, out0, w3, l2)
            | Inr resp \<Rightarrow>
                (case handle_response env expected v req w3 resp out0 of
                   (err, out1) \<Rightarrow> (err, sent, out1, w3, l2)))))"

section \<open>A client with a logger as a client\<close>

text \<open>The world of the client with a logger is the world of the client and the log; everything but the transport, with
  the response hook between the two records, leaves the log alone.\<close>

definition on_world :: "('w \<Rightarrow> 'a \<times> 'w) \<Rightarrow> 'w \<times> 'l \<Rightarrow> 'a \<times> 'w \<times> 'l" where
  "on_world f = (\<lambda>(w, l). case f w of (x, w1) \<Rightarrow> (x, w1, l))"

definition logged_Do :: "('w, 'v) env \<Rightarrow> 'w client \<Rightarrow> http_request \<Rightarrow> 'w \<times> log_entry list \<Rightarrow>
    (string + http_response) \<times> 'w \<times> log_entry list" where
  "logged_Do env c req = (\<lambda>(w, l).
     (case http_Do c req w of
        (res, w1) \<Rightarrow>
          (res, (case onResp c of None \<Rightarrow> w1 | Some f \<Rightarrow> f res w1),
           l @ [SendingRequest (rMethod req) (url_String env (rURL req)),
                result_entry env req res (time_Since (clock env w1) (clock env w))])))"

definition WithLogger :: "('w, 'v) env \<Rightarrow> 'w client \<Rightarrow> ('w \<times> log_entry list) client" where
  "WithLogger env c =
     \<lparr>http_Do = logged_Do env c, SetAuth = map_option (\<lambda>f req. on_world (f req)) (SetAuth c), baseURL = baseURL c,
      retry = retry c, Wait = map_option on_world (Wait c), userAgent = userAgent c, unsafeRetries = unsafeRetries c,
      allowInsecureBaseURL = allowInsecureBaseURL c, optErr = optErr c,
      onReq = map_option (\<lambda>f req. on_world (f req)) (onReq c), onResp = None\<rparr>"

definition logged_env :: "('w, 'v) env \<Rightarrow> ('w \<times> log_entry list, 'v) env" where
  "logged_env env =
     \<lparr>url_Parse = url_Parse env, url_String = url_String env, resolvePath = resolvePath env, loopback_ip = loopback_ip env,
      ParseTime = ParseTime env, errorBody = errorBody env, DecodeInto = DecodeInto env,
      rand_Int64N = (\<lambda>n. on_world (rand_Int64N env n)), select_after = (\<lambda>d. on_world (select_after env d)),
      clock = clock env \<circ> fst\<rparr>"

lemma logged_env_sel [simp]:
  "url_Parse (logged_env env) = url_Parse env" "url_String (logged_env env) = url_String env"
  "resolvePath (logged_env env) = resolvePath env" "ParseTime (logged_env env) = ParseTime env"
  "errorBody (logged_env env) = errorBody env" "DecodeInto (logged_env env) = DecodeInto env"
  "rand_Int64N (logged_env env) n = on_world (rand_Int64N env n)"
  "select_after (logged_env env) d = on_world (select_after env d)" "clock (logged_env env) (w, l) = clock env w"
  by (simp_all add: logged_env_def)

lemma handle_response_logged [simp]:
  "handle_response (logged_env env) expected v req (w, l) resp out0 = handle_response env expected v req w resp out0"
  by (simp add: handle_response_def decode_body_def parseErrorBody_def Let_def split: target.split)

lemma attempt_logged_off:
  "attempt_logged env c False v expected (req, out0, w, l) =
    (case attempt env c v expected (req, out0, w) of (err, req1, out1, w1) \<Rightarrow> (err, req1, out1, w1, l))"
  by (simp add: attempt_logged_def attempt_def Let_def split: sum.split prod.split)

lemma attempt_logged_on:
  "attempt_logged env c True v expected (req, out0, w, l) =
    attempt (logged_env env) (WithLogger env c) v expected (req, out0, w, l)"
  by (auto simp: attempt_logged_def attempt_def Let_def WithLogger_def logged_Do_def on_world_def
      split: sum.split prod.split option.split)

section \<open>Logging changes nothing else\<close>

definition unlogged :: "http_request \<times> 'v out \<times> 'w \<times> log_entry list \<Rightarrow> http_request \<times> 'v out \<times> 'w" where
  "unlogged = (\<lambda>(req, out0, w, l). (req, out0, w))"

lemma attempt_unlogged:
  "attempt env c v expected (unlogged s) = map_prod id unlogged (attempt (logged_env env) (WithLogger env c) v expected s)"
  by (cases s) (auto simp: unlogged_def attempt_def Let_def WithLogger_def logged_Do_def on_world_def
      split: sum.split prod.split option.split)

lemma attemptFn_unlogged:
  "attemptFn env c v expected (unlogged s) =
    map_prod id unlogged (attemptFn (logged_env env) (WithLogger env c) v expected s)"
proof -
  obtain req out0 w l where s: "s = (req, out0, w, l)" by (metis prod_cases4)
  have a: "attempt env c v expected (req, out0, w') =
      map_prod id unlogged (attempt (logged_env env) (WithLogger env c) v expected (req, out0, w', l))" for w'
    using attempt_unlogged [of env c v expected "(req, out0, w', l)"] by (simp add: unlogged_def)
  have "Wait (WithLogger env c) = map_option on_world (Wait c)" by (simp add: WithLogger_def)
  then show ?thesis
    by (auto simp: s attemptFn_def a unlogged_def on_world_def split: option.split prod.split)
qed

lemma unlogged_views:
  assumes "x = map_prod id unlogged y"
  shows "fst y = fst x" "fst (snd (snd y)) = fst (snd (snd x))" "fst (snd (snd (snd y))) = snd (snd (snd x))"
  using assms by (cases y, simp add: unlogged_def)+

lemma Do_unlogged:
  "Do env sdkUA c reqp v codes w =
    map_prod id fst (Do (logged_env env) sdkUA (WithLogger env c) reqp v codes (w, l))"
proof -
  have prep: "prepare (logged_env env) (WithLogger env c) sdkUA base ref req = prepare env c sdkUA base ref req" for base ref req
    by (simp add: prepare_def WithLogger_def)
  have retry: "shouldRetry (WithLogger env c) req = shouldRetry c req" for req
    by (simp add: shouldRetry_def WithLogger_def)
  have once: "attemptFn env c v expected (req, out0, w1) =
      map_prod id unlogged (attemptFn (logged_env env) (WithLogger env c) v expected (req, out0, w1, l1))" for expected req out0 w1 l1
    using attemptFn_unlogged [of env c v expected "(req, out0, w1, l1)"] by (simp add: unlogged_def)
  have loop: "run (lift_world (rand_Int64N env)) (lift_world (pause_or_done env)) as_transient rp (attemptFn env c v expected) (req, out0, w1) =
      map_prod id unlogged (run (lift_world (rand_Int64N (logged_env env))) (lift_world (pause_or_done (logged_env env))) as_transient rp
        (attemptFn (logged_env env) (WithLogger env c) v expected) (req, out0, w1, l1))" for rp expected req out0 w1 l1
    using run_loop_view [where view = unlogged and fn' = "attemptFn env c v expected", OF attemptFn_unlogged,
        of "lift_world (rand_Int64N env)" "lift_world (rand_Int64N (logged_env env))" "lift_world (pause_or_done env)"
           "lift_world (pause_or_done (logged_env env))" as_transient rp 0 "attempts_of rp" "(req, out0, w1, l1)"]
    by (simp add: run_def unlogged_def lift_world_def on_world_def pause_or_done_def case_prod_beta fun_eq_iff)
  have fields: "optErr (WithLogger env c) = optErr c" "baseURL (WithLogger env c) = baseURL c"
    "SetAuth (WithLogger env c) = map_option (\<lambda>f req. on_world (f req)) (SetAuth c)" "retry (WithLogger env c) = retry c"
    by (simp_all add: WithLogger_def)
  show ?thesis
    by (auto simp: Do_def fields prep retry Let_def on_world_def once [THEN unlogged_views(1)] once [THEN unlogged_views(2)] once [THEN unlogged_views(3)] loop [THEN unlogged_views(1)] loop [THEN unlogged_views(2)] loop [THEN unlogged_views(3)] case_prod_beta
        split: option.split sum.split prod.split)
qed

section \<open>Two records per exchange\<close>

text \<open>A property of the world that every part of the client keeps is kept by \<open>Do\<close>.\<close>

definition keeps :: "('w \<Rightarrow> bool) \<Rightarrow> ('w, 'v) env \<Rightarrow> 'w client \<Rightarrow> bool" where
  "keeps I env c \<longleftrightarrow>
     (\<forall>req w. I w \<longrightarrow> I (snd (http_Do c req w))) \<and>
     (\<forall>f req w. SetAuth c = Some f \<longrightarrow> I w \<longrightarrow> I (snd (f req w))) \<and>
     (\<forall>f w. Wait c = Some f \<longrightarrow> I w \<longrightarrow> I (snd (f w))) \<and>
     (\<forall>f req w. onReq c = Some f \<longrightarrow> I w \<longrightarrow> I (snd (f req w))) \<and>
     (\<forall>f res w. onResp c = Some f \<longrightarrow> I w \<longrightarrow> I (f res w)) \<and>
     (\<forall>n w. I w \<longrightarrow> I (snd (rand_Int64N env n w))) \<and>
     (\<forall>d w. I w \<longrightarrow> I (snd (select_after env d w)))"

abbreviation world_of :: "http_request \<times> 'v out \<times> 'w \<Rightarrow> 'w" where
  "world_of s \<equiv> snd (snd s)"

lemma attempt_keeps: "keeps I env c \<Longrightarrow> I (world_of s) \<Longrightarrow> I (world_of (snd (attempt env c v expected s)))"
proof -
  assume k: "keeps I env c" and i: "I (world_of s)"
  obtain req0 out0 w0 where s: "s = (req0, out0, w0)" by (metis prod_cases3)
  show "I (world_of (snd (attempt env c v expected s)))"
  proof (cases "reset_body req0")
    case (Inr req1)
    obtain req w1 where r: "(case onReq c of None \<Rightarrow> (req1, w0) | Some f \<Rightarrow> f req1 w0) = (req, w1)" by fastforce
    have w1: "I w1" using r i k unfolding keeps_def s by (auto split: option.splits) (metis snd_conv)
    obtain res w2 where d: "http_Do c req w1 = (res, w2)" by fastforce
    have w2: "I w2" using d w1 k unfolding keeps_def by (metis snd_conv)
    then have "I (case onResp c of None \<Rightarrow> w2 | Some f \<Rightarrow> f res w2)"
      using k unfolding keeps_def by (auto split: option.split)
    then show ?thesis using r d by (auto simp: s attempt_def Inr Let_def split: sum.split prod.split)
  qed (use i s in \<open>simp add: attempt_def\<close>)
qed

lemma attemptFn_keeps: "keeps I env c \<Longrightarrow> I (world_of s) \<Longrightarrow> I (world_of (snd (attemptFn env c v expected s)))"
proof -
  assume k: "keeps I env c" and i: "I (world_of s)"
  obtain req0 out0 w0 where s: "s = (req0, out0, w0)" by (metis prod_cases3)
  show "I (world_of (snd (attemptFn env c v expected s)))"
  proof (cases "Wait c")
    case (Some f)
    obtain e w1 where f: "f w0 = (e, w1)" by fastforce
    then have "I w1" using k i Some unfolding keeps_def s by (metis snd_conv)
    with Some f show ?thesis
      using attempt_keeps [OF k, of "(req0, out0, w1)"] by (simp add: s attemptFn_def split: option.split)
  qed (use i s attempt_keeps [OF k, of s] in \<open>simp add: attemptFn_def\<close>)
qed

lemma run_keeps:
  assumes "keeps I env c" and "I (world_of s)"
  shows "I (world_of (snd (run (lift_world (rand_Int64N env)) (lift_world (pause_or_done env)) as_transient rp (attemptFn env c v expected) s)))"
  unfolding run_def
proof (rule run_loop_keeps [where P = "\<lambda>s. I (world_of s)"])
  show "I (world_of s) \<Longrightarrow> I (world_of (snd (attemptFn env c v expected s)))" for s by (rule attemptFn_keeps [OF assms(1)])
  show "I (world_of s) \<Longrightarrow> I (world_of (snd (lift_world (rand_Int64N env) n s)))" for n s
    using assms(1) by (cases s) (auto simp: keeps_def lift_world_def split: prod.split, metis snd_conv)
  show "I (world_of s) \<Longrightarrow> I (world_of (snd (lift_world (pause_or_done env) d s)))" for d s
    using assms(1) by (cases s) (auto simp: keeps_def lift_world_def pause_or_done_def split: prod.split, metis snd_conv)
qed (rule assms(2))

lemma Do_keeps:
  assumes k: "keeps I env c" and i: "I w"
  shows "I (snd (Do env sdkUA c reqp v codes w))"
proof -
  have once: "attemptFn env c v expected (req, out0, w1) = (e, req', out', w') \<Longrightarrow> I w1 \<Longrightarrow> I w'" for expected req out0 w1 e req' out' w'
    using attemptFn_keeps [OF k, of "(req, out0, w1)" v expected] by simp
  have loop: "run (lift_world (rand_Int64N env)) (lift_world (pause_or_done env)) as_transient (retry c)
      (attemptFn env c v expected) (req, out0, w1) = (e, req', out', w') \<Longrightarrow> I w1 \<Longrightarrow> I w'" for expected req out0 w1 e req' out' w'
    using run_keeps [OF k, of "(req, out0, w1)" "retry c" v expected] by simp
  have auth: "(case SetAuth c of None \<Rightarrow> (Inr (prepare env c sdkUA base ref req), w)
      | Some f \<Rightarrow> f (prepare env c sdkUA base ref req) w) = (r, w1) \<Longrightarrow> I w1" for base ref req r w1
    using k i by (auto simp: keeps_def split: option.splits) (metis snd_conv)
  show ?thesis
  proof (cases "\<exists>req base ref. optErr c = None \<and> reqp = Some req \<and> baseURL c = Some base \<and>
      url_Parse env (url_String env (rURL req)) = Some ref \<and> \<not> IsAbs ref")
    case False
    then show ?thesis using i by (auto simp: Do_def Let_def split: option.splits)
  next
    case True
    then obtain req base ref where a: "optErr c = None" "reqp = Some req" "baseURL c = Some base"
      "url_Parse env (url_String env (rURL req)) = Some ref" "\<not> IsAbs ref" by blast
    obtain r w1 where r: "(case SetAuth c of None \<Rightarrow> (Inr (prepare env c sdkUA base ref req), w)
      | Some f \<Rightarrow> f (prepare env c sdkUA base ref req) w) = (r, w1)" by fastforce
    then have "I w1" by (rule auth)
    then show ?thesis
      by (simp only: Do_def a r option.case Let_def if_False split: sum.split option.split prod.split)
        (auto dest: once loop split: if_splits)
  qed
qed

definition exchange_entries :: "('w, 'v) env \<Rightarrow> http_request \<times> (string + http_response) \<Rightarrow> log_entry list" where
  "exchange_entries env x =
     [SendingRequest (rMethod (fst x)) (url_String env (rURL (fst x))), result_entry env (fst x) (snd x) 0]"

definition log_matches :: "('w, 'v) env \<Rightarrow> ('w \<Rightarrow> (http_request \<times> (string + http_response)) list) \<Rightarrow> 'w \<Rightarrow>
    log_entry list \<Rightarrow> 'w \<times> log_entry list \<Rightarrow> bool" where
  "log_matches env sent w0 l0 = (\<lambda>(w, l). \<exists>xs. sent w = sent w0 @ xs \<and>
     map untimed l = map untimed l0 @ concat (map (exchange_entries env) xs))"

lemma untimed_result [simp]: "untimed (result_entry env req res d) = result_entry env req res 0"
  by (simp add: result_entry_def split: sum.split)

lemma on_world_matches:
  "(\<And>w. sent (snd (f w)) = sent w) \<Longrightarrow> log_matches env sent w0 l0 s \<Longrightarrow> log_matches env sent w0 l0 (snd (on_world f s))"
  by (cases s) (simp add: log_matches_def on_world_def case_prod_beta)

lemma logged_Do_matches:
  assumes "observed env c sent" and "log_matches env sent w0 l0 s"
  shows "log_matches env sent w0 l0 (snd (logged_Do env c req s))"
proof -
  obtain w l where s: "s = (w, l)" by fastforce
  obtain res w1 where d: "http_Do c req w = (res, w1)" by fastforce
  with assms(1) have "sent w1 = sent w @ [(req, res)]" unfolding observed_def by (metis fst_conv snd_conv)
  then have "sent (case onResp c of None \<Rightarrow> w1 | Some f \<Rightarrow> f res w1) = sent w @ [(req, res)]"
    using assms(1) by (auto simp: observed_def split: option.split)
  moreover obtain xs where "sent w = sent w0 @ xs" "map untimed l = map untimed l0 @ concat (map (exchange_entries env) xs)"
    using assms(2) by (auto simp: s log_matches_def)
  ultimately show ?thesis
    by (auto simp: s logged_Do_def d log_matches_def exchange_entries_def intro!: exI [of _ "xs @ [(req, res)]"])
qed

lemma logged_keeps_matches: "observed env c sent \<Longrightarrow> keeps (log_matches env sent w0 l0) (logged_env env) (WithLogger env c)"
  unfolding keeps_def
  by (intro conjI allI impI) (auto simp: WithLogger_def logged_env_def logged_Do_matches intro!: on_world_matches simp: observed_def)

text \<open>Logging is transparent and complete: a call with a logger ends as the call without one, in the same world, and
  what it logs is two records for each exchange, in their order.\<close>

theorem Do_logged:
  assumes "observed env c sent"
    and "Do (logged_env env) sdkUA (WithLogger env c) reqp v codes (w, l) = (r, (w', l'))"
  shows "Do env sdkUA c reqp v codes w = (r, w')"
    and "\<exists>xs. sent w' = sent w @ xs \<and> map untimed l' = map untimed l @ concat (map (exchange_entries env) xs)"
proof -
  show "Do env sdkUA c reqp v codes w = (r, w')" using Do_unlogged [of env sdkUA c reqp v codes w l] assms(2) by simp
  have "log_matches env sent w l (w, l)" by (simp add: log_matches_def)
  from Do_keeps [OF logged_keeps_matches [OF assms(1)] this, of sdkUA reqp v codes] assms(2)
  show "\<exists>xs. sent w' = sent w @ xs \<and> map untimed l' = map untimed l @ concat (map (exchange_entries env) xs)"
    by (simp add: log_matches_def)
qed

text \<open>The documentation of \<open>WithLogger\<close> has the full URL in \<open>Debug\<close> records only; the record of a failed exchange is a
  warning, and has it too.\<close>

lemma failure_warns_with_the_url:
  assumes "http_Do c req w = (Inl err, w1)"
  shows "\<exists>r. r \<in> set (snd (snd (logged_Do env c req (w, l)))) \<and> level_of r = Warn \<and> logged_url r = url_String env (rURL req)"
  using assms by (auto simp: logged_Do_def result_entry_def)

text \<open>From the level of warnings on, a handler sees the failed exchanges and nothing else.\<close>

definition enabled :: "log_level \<Rightarrow> log_entry list \<Rightarrow> log_entry list" where
  "enabled l rs = filter (\<lambda>r. l \<le> level_of r) rs"

lemma enabled_Debug: "enabled Debug rs = rs"
  by (simp add: enabled_def less_eq_log_level_def)

lemma enabled_Warn:
  "enabled Warn (concat (map (exchange_entries env) xs)) =
    concat (map (\<lambda>(req, res). case res of Inl err \<Rightarrow> [HttpError (rMethod req) (url_String env (rURL req)) 0 err] | Inr _ \<Rightarrow> []) xs)"
  by (induction xs) (auto simp: enabled_def exchange_entries_def result_entry_def less_eq_log_level_def split: sum.split)

section \<open>The text of an error\<close>

definition truncate :: "string \<Rightarrow> nat \<Rightarrow> string" where
  \<comment> \<open>with the three bytes of an ellipsis\<close>
  "truncate b n = (if length b \<le> n then b else take n b @ [CHR 0xE2, CHR 0x80, CHR 0xA6])"

definition format_ints :: "int list \<Rightarrow> string" where
  \<comment> \<open>\<open>%v\<close> of a slice\<close>
  "format_ints ns = CHR ''['' # concat (case map Itoa ns of [] \<Rightarrow> [] | x # xs \<Rightarrow> x # map (\<lambda>y. CHR '' '' # y) xs) @ '']''"

definition APIError_Error :: "('w, 'v) env \<Rightarrow> api_error \<Rightarrow> string" where
  "APIError_Error env e =
     (let detail = (if ErrorDescription e = [] then truncate (apiBody e) 256 else ErrorDescription e)
      in apiMethod e @ '' '' @ url_String env (apiURL e) @ '': HTTP '' @ Itoa (apiStatusCode e) @
         '' (expected '' @ format_ints (ExpectedStatusCodes e) @ ''): '' @ detail)"

lemma truncate_length: "length (truncate b n) \<le> n + 3"
  by (simp add: truncate_def)

lemma APIError_Error_example:
  "APIError_Error env \<lparr>apiMethod = ''GET'', apiURL = u, apiStatusCode = 404, ExpectedStatusCodes = [200, 204],
      ErrorDescription = [], ErrorCode = [], apiBody = ''gone''\<rparr> =
    ''GET '' @ url_String env u @ '': HTTP 404 (expected [200 204]): gone''"
  by (simp add: APIError_Error_def truncate_def format_ints_def Itoa_def nat_digits.simps digit_char_def char_of_def bit_Suc_0_iff)

section \<open>The HTTP client below\<close>

text \<open>What the field \<open>http\<close> of a client can be: a standard client with its transport, its timeout and the rest of its
  settings (cookie jar and redirect policy), or any \<open>HTTPDoer\<close>.\<close>

type_synonym 'w round_trip = "http_request \<Rightarrow> 'w \<Rightarrow> (string + http_response) \<times> 'w"

record ('w, 'x) std_client =
  scTransport :: "'w round_trip option"
  scTimeout :: int
  scRest :: 'x

datatype ('w, 'x) doer = StdClient "('w, 'x) std_client" | OtherDoer "'w round_trip"

definition doer_Do :: "(('w, 'x) std_client \<Rightarrow> 'w round_trip) \<Rightarrow> ('w, 'x) doer \<Rightarrow> 'w round_trip" where
  "doer_Do std d = (case d of StdClient hc \<Rightarrow> std hc | OtherDoer f \<Rightarrow> f)"

definition WithHTTPClient :: "('w, 'x) std_client option \<Rightarrow> ('w, 'x) doer \<Rightarrow> ('w, 'x) doer" where
  "WithHTTPClient httpClient d = (case httpClient of None \<Rightarrow> d | Some hc \<Rightarrow> StdClient hc)"

definition WithRoundTripper :: "'x \<Rightarrow> 'w round_trip option \<Rightarrow> ('w, 'x) doer \<Rightarrow> ('w, 'x) doer" where
  \<comment> \<open>\<open>none\<close>: the settings of an empty \<open>http.Client\<close>\<close>
  "WithRoundTripper none rt d =
     (case rt of
        None \<Rightarrow> d
      | Some f \<Rightarrow> (case d of
            StdClient hc \<Rightarrow> StdClient (hc\<lparr>scTransport := Some f\<rparr>)
          | OtherDoer _ \<Rightarrow> StdClient \<lparr>scTransport = Some f, scTimeout = 0, scRest = none\<rparr>))"

text \<open>The transport of a standard client is replaced and every other setting kept; a client given afterwards takes over
  altogether. In place of another \<open>HTTPDoer\<close> comes a client without any timeout.\<close>

lemma WithRoundTripper_keeps:
  "WithRoundTripper none (Some f) (WithHTTPClient (Some hc) d) = StdClient (hc\<lparr>scTransport := Some f\<rparr>)"
  by (simp add: WithRoundTripper_def WithHTTPClient_def)

lemma WithHTTPClient_after: "WithHTTPClient (Some hc) (WithRoundTripper none rt d) = StdClient hc"
  by (simp add: WithHTTPClient_def)

lemma WithRoundTripper_drops_doer:
  "WithRoundTripper none (Some f) (OtherDoer g) = StdClient \<lparr>scTransport = Some f, scTimeout = 0, scRest = none\<rparr>"
  by (simp add: WithRoundTripper_def)

definition client_Close :: "('w \<Rightarrow> 'w) option \<Rightarrow> 'w \<Rightarrow> 'w" where
  \<comment> \<open>\<open>Client.Close\<close> with the \<open>Stop\<close> method of the limiter, if it has one\<close>
  "client_Close stop w = (case stop of None \<Rightarrow> w | Some f \<Rightarrow> f w)"

end
