(* ===== verification/Corporate_Types.thy ===== *)
theory Corporate_Types
  imports Json_Exchange Open_API
begin

text \<open>
  The wire format of the corporate API (\<open>corporate/auth.go\<close>, \<open>registration.go\<close>, \<open>settings.go\<close>, \<open>signature.go\<close>): each
  struct with its tags and the laws of its codec; a \<open>[]byte\<close> is the base64 text of its bytes. With the signatures of
  the corporate client this gives whole calls: what a signing request carries, under which signature, and what its
  status returns.
\<close>

section \<open>Bytes\<close>

definition base64_of :: "json \<Rightarrow> string option" where
  \<comment> \<open>a \<open>[]byte\<close> from a string; the array of numbers that \<open>encoding/json\<close> accepts as well is left out\<close>
  "base64_of j = (case j of JStr s \<Rightarrow> b64_decode s | _ \<Rightarrow> None)"

definition bytes_f where "bytes_f = ptr_f False [] (\<lambda>b. JStr (b64_encode b)) (\<lambda>j _. base64_of j)"

lemma b64_encode_ascii [codec]: "ascii (b64_encode bs)"
proof -
  have "byte_val (b64_char n) < 128" if "n < 64" for n using that by (auto simp: b64_char_def)
  then have "byte_val c < 128" if "c \<in> set (b64_encode bs)" for c
    using that by (induction bs rule: b64_encode.induct) (auto simp: byte_pieces, auto simp: byte_val_def)
  then show ?thesis by (auto simp: ascii_def bytes_of_def list_all_iff byte_val_def)
qed

lemma refill_bytes [codec]:
  "get z = None \<Longrightarrow> upd (\<lambda>_. None) z = z \<Longrightarrow> refill (bytes_f n get upd # fs) r z = refill fs r (upd (\<lambda>_. get r) z)"
  by (simp add: bytes_f_def refill_ptr base64_of_def b64_decode_encode option.pred_set)

lemma bytes_names [codec]: "fst (bytes_f n get upd) = n"
  by (simp add: bytes_f_def codec)

lemma field_ok_bytes [codec]: "ascii n \<Longrightarrow> field_ok d r (bytes_f n get upd)"
  by (simp add: bytes_f_def field_ok_ptr option.pred_set ascii_utf8 b64_encode_ascii)

section \<open>A signed call with a JSON body\<close>

context json_codec
begin

lemma corp_send_json_carries:
  assumes "corp_client env lib m verify c sent" and "go_targets env" and "target_ok uri"
    and "baseURL (cc c) = Some base" and "Opaque base = []"
    and "CHR ''?'' \<notin> set uri" and "set (split_on (CHR ''/'') uri) \<inter> dots = {}" and "ok r"
    and "corp_send_json env ua c uri (Marshal_json (enc r)) v w = (res, w')"
  shows "\<exists>R rs. sent w' = sent w @ map (\<lambda>x. (R, x)) rs \<and> (\<not> unsafeRetries (cc c) \<longrightarrow> length rs \<le> 1) \<and>
    (rs \<noteq> [] \<longrightarrow> rMethod R = ''POST'' \<and> Host (rURL R) = Host base \<and> Path (rURL R) = uri \<and>
      rHeader R ''X-Key-Id'' = makerKeyID m \<and> signed_request (sha256 lib) verify R \<and> carries dec r R) \<and>
    (\<forall>out1. res = Inr out1 \<longrightarrow> rs \<noteq> [])"
proof -
  obtain b where b: "Marshal_json (enc r) = Inr b" using marshals [OF assms(8)] by blast
  have dec: "Unmarshal_json dec b = Inr r" by (rule text_back_any [OF assms(8) b])
  with Unmarshal_nothing have "b \<noteq> []" by metis
  have a: "am_New (authMaker c) [] = Corp_SetAuth lib (maker_New m [])"
    using assms(1) by (simp add: corp_client_def corp_maker_def)
  have cut: "cut (CHR ''?'') uri = (uri, [])" by (rule cut_plain [OF assms(6)])
  have d: "corp_dispatch env ua c (Corp_SetAuth lib (maker_New m [])) ''POST'' uri (Some b) [] v w = (res, w')"
    using assms(9) by (simp add: corp_send_json_def b a)
  from corp_dispatch_sends [OF assms(1-5) _ _ _ _ d] assms(7) cut obtain R rs where
    "sent w' = sent w @ map (\<lambda>r. (R, r)) rs" "\<not> unsafeRetries (cc c) \<longrightarrow> length rs \<le> 1" "\<forall>out1. res = Inr out1 \<longrightarrow> rs \<noteq> []"
    "rs \<noteq> [] \<longrightarrow> rMethod R = ''POST'' \<and> rBody R = sent_body (Some b) \<and> Host (rURL R) = Host base \<and> Path (rURL R) = uri \<and>
      rHeader R ''X-Key-Id'' = makerKeyID m \<and> signed_request (sha256 lib) verify R" by (auto simp: maker_New_def)
  then show ?thesis using dec \<open>b \<noteq> []\<close>
    by (intro exI [of _ R] exI [of _ rs]) (auto simp: carries_def sent_body_def)
qed

end

lemma corp_dispatch_decodes:
  assumes "observed env (cc c) sent" and "corp_dispatch env ua c a meth uri b hs v w = (Inr out1, w')"
  shows "\<exists>R resp. last (sent w') = (R, Inr resp) \<and> StatusCode resp = 200 \<and> decode_body env v resp Untouched = (None, out1)"
proof -
  obtain req w1 where "Do env ua (cc c) (Some req) v [200] w1 = ((None, out1), w')"
    using assms(2) by (auto simp: corp_dispatch_def corp_do_def split: option.splits prod.splits sum.splits)
  from Do_decodes [OF assms(1) this] show ?thesis by simp
qed

section \<open>Requests and answers\<close>

record token_request =
  tkRequestID :: string
  tkAcceptURL :: string

definition token_request_fields :: "token_request field list" where
  "token_request_fields =
     [str_f ''tokenRequestId'' tkRequestID tkRequestID_update, str_f ''acceptUrl'' tkAcceptURL tkAcceptURL_update]"

definition token_request_zero :: token_request where
  "token_request_zero = \<lparr>tkRequestID = [], tkAcceptURL = []\<rparr>"

definition token_request_ok :: "token_request \<Rightarrow> bool" where
  "token_request_ok x \<longleftrightarrow>
     list_all valid_utf8 [tkRequestID x, tkAcceptURL x]"

lemmas token_request_defs = token_request_fields_def token_request_zero_def token_request_ok_def

interpretation token_request: dto token_request_fields token_request_zero token_request_ok 1
proof
  show "refills token_request_fields token_request_zero x" if "token_request_ok x" for x
    using that by (cases x) (rule refillsI, simp_all add: token_request_defs codec)
  show "json_ok d (encode_struct token_request_fields x)" if "token_request_ok x" and "1 \<le> d" for d x
    using that by (intro json_ok_struct) (auto simp: token_request_defs codec)
qed simp

definition registration_request_fields :: "registration_request field list" where
  "registration_request_fields =
     [bytes_f ''pubkey'' regPubkey regPubkey_update, str_f ''name'' regName regName_update,
      str_f ''description'' regDescription regDescription_update,
      str_f ''contactPerson'' regContactPerson regContactPerson_update, str_f ''phone'' regPhone regPhone_update,
      str_f ''email'' regEmail regEmail_update, bytes_f ''logo'' regLogo regLogo_update]"

definition registration_request_zero :: registration_request where
  "registration_request_zero = \<lparr>regPubkey = None, regName = [], regDescription = [], regContactPerson = [], regPhone = [], regEmail = [],
     regLogo = None\<rparr>"

definition registration_request_ok :: "registration_request \<Rightarrow> bool" where
  "registration_request_ok x \<longleftrightarrow>
     list_all valid_utf8 [regName x, regDescription x, regContactPerson x, regPhone x, regEmail x]"

lemmas registration_request_defs = registration_request_fields_def registration_request_zero_def registration_request_ok_def

interpretation registration_request: dto registration_request_fields registration_request_zero registration_request_ok 2
proof
  show "refills registration_request_fields registration_request_zero x" if "registration_request_ok x" for x
    using that by (cases x) (rule refillsI, simp_all add: registration_request_defs codec)
  show "json_ok d (encode_struct registration_request_fields x)" if "registration_request_ok x" and "2 \<le> d" for d x
    using that by (intro json_ok_struct) (auto simp: registration_request_defs codec)
qed simp

record registration_response =
  rrStatus :: string

definition registration_response_fields :: "registration_response field list" where
  "registration_response_fields =
     [str_f ''status'' rrStatus rrStatus_update]"

definition registration_response_zero :: registration_response where
  "registration_response_zero = \<lparr>rrStatus = []\<rparr>"

definition registration_response_ok :: "registration_response \<Rightarrow> bool" where
  "registration_response_ok x \<longleftrightarrow>
     valid_utf8 (rrStatus x)"

lemmas registration_response_defs = registration_response_fields_def registration_response_zero_def registration_response_ok_def

interpretation registration_response: dto registration_response_fields registration_response_zero registration_response_ok 1
proof
  show "refills registration_response_fields registration_response_zero x" if "registration_response_ok x" for x
    using that by (cases x) (rule refillsI, simp_all add: registration_response_defs codec)
  show "json_ok d (encode_struct registration_response_fields x)" if "registration_response_ok x" and "1 \<le> d" for d x
    using that by (intro json_ok_struct) (auto simp: registration_response_defs codec)
qed simp

record registration_status_request =
  rsPubkey :: "string option"

definition registration_status_request_fields :: "registration_status_request field list" where
  "registration_status_request_fields =
     [bytes_f ''pubkey'' rsPubkey rsPubkey_update]"

definition registration_status_request_zero :: registration_status_request where
  "registration_status_request_zero = \<lparr>rsPubkey = None\<rparr>"

definition registration_status_request_ok :: "registration_status_request \<Rightarrow> bool" where
  "registration_status_request_ok x \<longleftrightarrow>
     True"

lemmas registration_status_request_defs = registration_status_request_fields_def registration_status_request_zero_def registration_status_request_ok_def

interpretation registration_status_request: dto registration_status_request_fields registration_status_request_zero registration_status_request_ok 2
proof
  show "refills registration_status_request_fields registration_status_request_zero x" if "registration_status_request_ok x" for x
    using that by (cases x) (rule refillsI, simp_all add: registration_status_request_defs codec)
  show "json_ok d (encode_struct registration_status_request_fields x)" if "registration_status_request_ok x" and "2 \<le> d" for d x
    using that by (intro json_ok_struct) (auto simp: registration_status_request_defs codec)
qed simp

record registration_status_response =
  rtStatus :: string
  rtKeyID :: string

definition registration_status_response_fields :: "registration_status_response field list" where
  "registration_status_response_fields =
     [str_f ''status'' rtStatus rtStatus_update, str_f ''keyId'' rtKeyID rtKeyID_update]"

definition registration_status_response_zero :: registration_status_response where
  "registration_status_response_zero = \<lparr>rtStatus = [], rtKeyID = []\<rparr>"

definition registration_status_response_ok :: "registration_status_response \<Rightarrow> bool" where
  "registration_status_response_ok x \<longleftrightarrow>
     list_all valid_utf8 [rtStatus x, rtKeyID x]"

lemmas registration_status_response_defs = registration_status_response_fields_def registration_status_response_zero_def registration_status_response_ok_def

interpretation registration_status_response: dto registration_status_response_fields registration_status_response_zero registration_status_response_ok 1
proof
  show "refills registration_status_response_fields registration_status_response_zero x" if "registration_status_response_ok x" for x
    using that by (cases x) (rule refillsI, simp_all add: registration_status_response_defs codec)
  show "json_ok d (encode_struct registration_status_response_fields x)" if "registration_status_response_ok x" and "1 \<le> d" for d x
    using that by (intro json_ok_struct) (auto simp: registration_status_response_defs codec)
qed simp

record corp_settings =
  stID :: string
  stPubkey :: string
  stName :: string
  stPermission :: string
  stLogo :: string
  stWebhook :: "string option"

definition corp_settings_fields :: "corp_settings field list" where
  "corp_settings_fields =
     [str_o ''id'' stID stID_update, str_f ''pubkey'' stPubkey stPubkey_update, str_f ''name'' stName stName_update,
      str_f ''permission'' stPermission stPermission_update, str_f ''logo'' stLogo stLogo_update,
      str_ptr_f ''webhook'' stWebhook stWebhook_update]"

definition corp_settings_zero :: corp_settings where
  "corp_settings_zero = \<lparr>stID = [], stPubkey = [], stName = [], stPermission = [], stLogo = [], stWebhook = None\<rparr>"

definition corp_settings_ok :: "corp_settings \<Rightarrow> bool" where
  "corp_settings_ok x \<longleftrightarrow>
     list_all valid_utf8 [stID x, stPubkey x, stName x, stPermission x, stLogo x] \<and>
     pred_option valid_utf8 (stWebhook x)"

lemmas corp_settings_defs = corp_settings_fields_def corp_settings_zero_def corp_settings_ok_def

interpretation corp_settings: dto corp_settings_fields corp_settings_zero corp_settings_ok 1
proof
  show "refills corp_settings_fields corp_settings_zero x" if "corp_settings_ok x" for x
    using that by (cases x) (rule refillsI, simp_all add: corp_settings_defs codec)
  show "json_ok d (encode_struct corp_settings_fields x)" if "corp_settings_ok x" and "1 \<le> d" for d x
    using that by (intro json_ok_struct) (auto simp: corp_settings_defs codec)
qed simp

record webhook_request =
  wrWebHookURL :: string

definition webhook_request_fields :: "webhook_request field list" where
  "webhook_request_fields =
     [str_f ''webHookUrl'' wrWebHookURL wrWebHookURL_update]"

definition webhook_request_zero :: webhook_request where
  "webhook_request_zero = \<lparr>wrWebHookURL = []\<rparr>"

definition webhook_request_ok :: "webhook_request \<Rightarrow> bool" where
  "webhook_request_ok x \<longleftrightarrow>
     valid_utf8 (wrWebHookURL x)"

lemmas webhook_request_defs = webhook_request_fields_def webhook_request_zero_def webhook_request_ok_def

interpretation webhook_request: dto webhook_request_fields webhook_request_zero webhook_request_ok 1
proof
  show "refills webhook_request_fields webhook_request_zero x" if "webhook_request_ok x" for x
    using that by (cases x) (rule refillsI, simp_all add: webhook_request_defs codec)
  show "json_ok d (encode_struct webhook_request_fields x)" if "webhook_request_ok x" and "1 \<le> d" for d x
    using that by (intro json_ok_struct) (auto simp: webhook_request_defs codec)
qed simp

record signer =
  sgName :: string
  sgTIN :: string
  sgCertSerial :: string
  sgSignature :: string
  sgDate :: string
  sgEDRPOU :: string
  sgCompany :: string
  sgPost :: string

definition signer_fields :: "signer field list" where
  "signer_fields =
     [str_f ''name'' sgName sgName_update, str_f ''tin'' sgTIN sgTIN_update,
      str_f ''certSerial'' sgCertSerial sgCertSerial_update, str_f ''signature'' sgSignature sgSignature_update,
      str_f ''date'' sgDate sgDate_update, str_o ''edrpou'' sgEDRPOU sgEDRPOU_update,
      str_o ''company'' sgCompany sgCompany_update, str_o ''post'' sgPost sgPost_update]"

definition signer_zero :: signer where
  "signer_zero = \<lparr>sgName = [], sgTIN = [], sgCertSerial = [], sgSignature = [], sgDate = [], sgEDRPOU = [], sgCompany = [],
     sgPost = []\<rparr>"

definition signer_ok :: "signer \<Rightarrow> bool" where
  "signer_ok x \<longleftrightarrow>
     list_all valid_utf8 [sgName x, sgTIN x, sgCertSerial x, sgSignature x, sgDate x, sgEDRPOU x, sgCompany x, sgPost x]"

lemmas signer_defs = signer_fields_def signer_zero_def signer_ok_def

interpretation signer: dto signer_fields signer_zero signer_ok 1
proof
  show "refills signer_fields signer_zero x" if "signer_ok x" for x
    using that by (cases x) (rule refillsI, simp_all add: signer_defs codec)
  show "json_ok d (encode_struct signer_fields x)" if "signer_ok x" and "1 \<le> d" for d x
    using that by (intro json_ok_struct) (auto simp: signer_defs codec)
qed simp

record document =
  dcName :: string
  dcHash :: string
  dcHashType :: string
  dcType :: string
  dcLink :: string
  dcStatus :: string
  dcSigners :: "signer list"

definition document_fields :: "document field list" where
  "document_fields =
     [str_f ''name'' dcName dcName_update, str_f ''hash'' dcHash dcHash_update,
      str_o ''hashType'' dcHashType dcHashType_update, str_o ''type'' dcType dcType_update,
      str_o ''link'' dcLink dcLink_update, str_o ''status'' dcStatus dcStatus_update,
      structs_o signer_fields signer_zero ''signers'' dcSigners dcSigners_update]"

definition document_zero :: document where
  "document_zero = \<lparr>dcName = [], dcHash = [], dcHashType = [], dcType = [], dcLink = [], dcStatus = [], dcSigners = []\<rparr>"

definition document_ok :: "document \<Rightarrow> bool" where
  "document_ok x \<longleftrightarrow>
     list_all valid_utf8 [dcName x, dcHash x, dcHashType x, dcType x, dcLink x, dcStatus x] \<and>
     list_all signer_ok (dcSigners x)"

lemmas document_defs = document_fields_def document_zero_def document_ok_def

interpretation document: dto document_fields document_zero document_ok 3
proof
  show "refills document_fields document_zero x" if "document_ok x" for x
    using that by (cases x) (rule refillsI, simp_all add: document_defs codec)
  show "json_ok d (encode_struct document_fields x)" if "document_ok x" and "3 \<le> d" for d x
    using that by (intro json_ok_struct) (auto simp: document_defs codec)
qed simp

record signature_create_request =
  sqDocuments :: "document list option"
  sqOneSigner :: "bool option"
  sqCallbackURL :: string

definition signature_create_request_fields :: "signature_create_request field list" where
  "signature_create_request_fields =
     [structs_f document_fields document_zero ''documents'' sqDocuments sqDocuments_update,
      bool_ptr_o ''oneSigner'' sqOneSigner sqOneSigner_update,
      str_o ''callbackUrl'' sqCallbackURL sqCallbackURL_update]"

definition signature_create_request_zero :: signature_create_request where
  "signature_create_request_zero = \<lparr>sqDocuments = None, sqOneSigner = None, sqCallbackURL = []\<rparr>"

definition signature_create_request_ok :: "signature_create_request \<Rightarrow> bool" where
  "signature_create_request_ok x \<longleftrightarrow>
     valid_utf8 (sqCallbackURL x) \<and> pred_option (list_all document_ok) (sqDocuments x)"

lemmas signature_create_request_defs = signature_create_request_fields_def signature_create_request_zero_def signature_create_request_ok_def

interpretation signature_create_request: dto signature_create_request_fields signature_create_request_zero signature_create_request_ok 5
proof
  show "refills signature_create_request_fields signature_create_request_zero x" if "signature_create_request_ok x" for x
    using that by (cases x) (rule refillsI, simp_all add: signature_create_request_defs codec)
  show "json_ok d (encode_struct signature_create_request_fields x)" if "signature_create_request_ok x" and "5 \<le> d" for d x
    using that by (intro json_ok_struct) (auto simp: signature_create_request_defs codec)
qed simp

record signature_create_response =
  srRequestID :: string
  srDeeplink :: string

definition signature_create_response_fields :: "signature_create_response field list" where
  "signature_create_response_fields =
     [str_f ''requestId'' srRequestID srRequestID_update, str_f ''deeplink'' srDeeplink srDeeplink_update]"

definition signature_create_response_zero :: signature_create_response where
  "signature_create_response_zero = \<lparr>srRequestID = [], srDeeplink = []\<rparr>"

definition signature_create_response_ok :: "signature_create_response \<Rightarrow> bool" where
  "signature_create_response_ok x \<longleftrightarrow>
     list_all valid_utf8 [srRequestID x, srDeeplink x]"

lemmas signature_create_response_defs = signature_create_response_fields_def signature_create_response_zero_def signature_create_response_ok_def

interpretation signature_create_response: dto signature_create_response_fields signature_create_response_zero signature_create_response_ok 1
proof
  show "refills signature_create_response_fields signature_create_response_zero x" if "signature_create_response_ok x" for x
    using that by (cases x) (rule refillsI, simp_all add: signature_create_response_defs codec)
  show "json_ok d (encode_struct signature_create_response_fields x)" if "signature_create_response_ok x" and "1 \<le> d" for d x
    using that by (intro json_ok_struct) (auto simp: signature_create_response_defs codec)
qed simp

record signature_status_response =
  suDocuments :: "document list option"

definition signature_status_response_fields :: "signature_status_response field list" where
  "signature_status_response_fields =
     [structs_f document_fields document_zero ''documents'' suDocuments suDocuments_update]"

definition signature_status_response_zero :: signature_status_response where
  "signature_status_response_zero = \<lparr>suDocuments = None\<rparr>"

definition signature_status_response_ok :: "signature_status_response \<Rightarrow> bool" where
  "signature_status_response_ok x \<longleftrightarrow>
     pred_option (list_all document_ok) (suDocuments x)"

lemmas signature_status_response_defs = signature_status_response_fields_def signature_status_response_zero_def signature_status_response_ok_def

interpretation signature_status_response: dto signature_status_response_fields signature_status_response_zero signature_status_response_ok 5
proof
  show "refills signature_status_response_fields signature_status_response_zero x" if "signature_status_response_ok x" for x
    using that by (cases x) (rule refillsI, simp_all add: signature_status_response_defs codec)
  show "json_ok d (encode_struct signature_status_response_fields x)" if "signature_status_response_ok x" and "5 \<le> d" for d x
    using that by (intro json_ok_struct) (auto simp: signature_status_response_defs codec)
qed simp

section \<open>Whole calls\<close>

text \<open>Where the end of a call comes from: with a logging transport, a success is the decoding of the last answer.\<close>

lemma corp_answered:
  assumes "corp_client env lib m verify c sent" and "corp_send_json env ua c uri (Inr b) TJSON w = (Inr out1, w')"
    and "sent w' = sent w @ map (\<lambda>x. (R, x)) rs" and "rs \<noteq> []"
  shows "\<exists>resp. last rs = Inr resp \<and> StatusCode resp = 200 \<and> decode_body env TJSON resp Untouched = (None, out1)"
proof -
  have o: "observed env (cc c) sent" using assms(1) by (simp add: corp_client_def)
  from corp_dispatch_decodes [OF o assms(2) [unfolded corp_send_json_def sum.case]]
  obtain R' resp where d: "last (sent w') = (R', Inr resp)" "StatusCode resp = 200"
    "decode_body env TJSON resp Untouched = (None, out1)" by blast
  from d(1) assms(3,4) have "last rs = Inr resp" by (simp add: last_map)
  with d show ?thesis by blast
qed

text \<open>
  A signing request goes out once and whole, and signed. Whatever the transport answers, a \<open>SignatureCreate\<close> of
  documents whose texts are UTF-8 causes at most one POST (unless the client is told to repeat unsafe requests), on
  the base host; its body decodes to exactly those documents, and its \<open>X-Sign\<close> verifies under the service's key over
  its time and path. If the answer is the encoding of a response, that is what the caller gets.
\<close>

lemma SignatureCreate_carries_the_documents:
  assumes "corp_client env lib m verify c sent" and "go_targets env"
    and "baseURL (cc c) = Some base" and "Opaque base = []" and "signature_create_request_ok r"
    and "decodes_with (\<lambda>j. decode_struct signature_create_response_fields j signature_create_response_zero) env"
    and "SignatureCreate env ua c (\<lambda>r. Marshal_json (encode_struct signature_create_request_fields r)) (Some r) w = (res, w')"
  shows "\<exists>R rs. sent w' = sent w @ map (\<lambda>x. (R, x)) rs \<and> (\<not> unsafeRetries (cc c) \<longrightarrow> length rs \<le> 1) \<and>
    (rs \<noteq> [] \<longrightarrow> rMethod R = ''POST'' \<and> Host (rURL R) = Host base \<and> Path (rURL R) = ''/personal/signature/create'' \<and>
      rHeader R ''X-Key-Id'' = makerKeyID m \<and> signed_request (sha256 lib) verify R \<and>
      carries (\<lambda>j. decode_struct signature_create_request_fields j signature_create_request_zero) r R) \<and>
    (\<forall>out1 x. res = Inr out1 \<and> signature_create_response_ok x \<longrightarrow>
      (\<exists>resp. rs \<noteq> [] \<and> last rs = Inr resp \<and> StatusCode resp = 200 \<and>
        (answers (encode_struct signature_create_response_fields) resp x \<longrightarrow> out1 = JsonOut x)))"
proof -
  let ?m = "Marshal_json (encode_struct signature_create_request_fields r)"
  have s: "corp_send_json env ua c ''/personal/signature/create'' ?m TJSON w = (res, w')"
    using assms(7) by (simp add: SignatureCreate_def)
  have t: "target_ok ''/personal/signature/create''" by (rule literal_target) (simp add: literal_path)
  have u: "CHR ''?'' \<notin> set ''/personal/signature/create''" "set (split_on (CHR ''/'') ''/personal/signature/create'') \<inter> dots = {}"
    by (simp_all add: dots_def)
  from signature_create_request.corp_send_json_carries [OF assms(1,2) t assms(3,4) u assms(5) s]
  obtain R rs where R: "sent w' = sent w @ map (\<lambda>x. (R, x)) rs" "\<not> unsafeRetries (cc c) \<longrightarrow> length rs \<le> 1"
    "rs \<noteq> [] \<longrightarrow> rMethod R = ''POST'' \<and> Host (rURL R) = Host base \<and> Path (rURL R) = ''/personal/signature/create'' \<and>
      rHeader R ''X-Key-Id'' = makerKeyID m \<and> signed_request (sha256 lib) verify R \<and>
      carries (\<lambda>j. decode_struct signature_create_request_fields j signature_create_request_zero) r R"
    "\<forall>out1. res = Inr out1 \<longrightarrow> rs \<noteq> []" by blast
  obtain b where b: "?m = Inr b" using signature_create_request.marshals [OF assms(5)] by blast
  show ?thesis
  proof (intro exI [of _ R] exI [of _ rs] conjI allI impI)
    fix out1 x
    assume x: "res = Inr out1 \<and> signature_create_response_ok x"
    with R(4) have "rs \<noteq> []" by blast
    with corp_answered [OF assms(1) _ R(1), of ua "''/personal/signature/create''" b out1] s b x
    obtain resp where d: "last rs = Inr resp" "StatusCode resp = 200" "decode_body env TJSON resp Untouched = (None, out1)" by auto
    with \<open>rs \<noteq> []\<close> signature_create_response.decoded_answer [OF assms(6) _ _ d(3)] x
    show "\<exists>resp. rs \<noteq> [] \<and> last rs = Inr resp \<and> StatusCode resp = 200 \<and>
        (answers (encode_struct signature_create_response_fields) resp x \<longrightarrow> out1 = JsonOut x)" by blast
  qed (use R in auto)
qed

text \<open>The state of a signing request, with its documents and signers, arrives as the bank sent it.\<close>

lemma SignatureStatus_returns_what_was_sent:
  assumes "corp_client env lib m verify c sent" and "signature_status_response_ok x"
    and "decodes_with (\<lambda>j. decode_struct signature_status_response_fields j signature_status_response_zero) env"
    and "SignatureStatus env ua c rid w = (Inr out1, w')"
  shows "\<exists>R resp. last (sent w') = (R, Inr resp) \<and> StatusCode resp = 200 \<and>
    (answers (encode_struct signature_status_response_fields) resp x \<longrightarrow> out1 = JsonOut x)"
proof -
  have o: "observed env (cc c) sent" using assms(1) by (simp add: corp_client_def)
  from corp_dispatch_decodes [OF o assms(4) [unfolded SignatureStatus_def]]
  obtain R resp where d: "last (sent w') = (R, Inr resp)" "StatusCode resp = 200"
    "decode_body env TJSON resp Untouched = (None, out1)" by blast
  with signature_status_response.decoded_answer [OF assms(3,2) _ d(3)] show ?thesis by blast
qed

text \<open>A registration carries its key and its logo, and no logo beyond the limit.\<close>

lemma Register_carries_the_application:
  assumes "corp_client env lib m verify c sent" and "go_targets env"
    and "baseURL (cc c) = Some base" and "Opaque base = []" and "registration_request_ok r"
    and "Register env ua c (\<lambda>r. Marshal_json (encode_struct registration_request_fields r)) (Some r) w = (res, w')"
  shows "\<exists>R rs. sent w' = sent w @ map (\<lambda>x. (R, x)) rs \<and> (rs \<noteq> [] \<longrightarrow>
      (\<forall>b. regLogo r = Some b \<longrightarrow> length b \<le> MaxRegistrationLogoBytes) \<and> signed_request (sha256 lib) verify R \<and>
      carries (\<lambda>j. decode_struct registration_request_fields j registration_request_zero) r R)"
proof (cases "MaxRegistrationLogoBytes < (case regLogo r of None \<Rightarrow> 0 | Some b \<Rightarrow> length b)")
  case True
  then have "w' = w" using assms(6) by (simp add: Register_def)
  then show ?thesis by (intro exI [of _ undefined] exI [of _ "[]"]) simp
next
  case False
  have s: "corp_send_json env ua c ''/personal/auth/registration'' (Marshal_json (encode_struct registration_request_fields r)) TJSON w
      = (res, w')" using assms(6) False by (simp add: Register_def)
  have t: "target_ok ''/personal/auth/registration''" by (rule literal_target) (simp add: literal_path)
  have u: "CHR ''?'' \<notin> set ''/personal/auth/registration''" "set (split_on (CHR ''/'') ''/personal/auth/registration'') \<inter> dots = {}"
    by (simp_all add: dots_def)
  from registration_request.corp_send_json_carries [OF assms(1,2) t assms(3,4) u assms(5) s] False
  show ?thesis by (auto split: option.splits)
qed

end
