(* ===== verification/Acquiring_Dedup.thy ===== *)
theory Acquiring_Dedup
  imports Acquiring_Webhook
begin

text \<open>
  The delivery memory of the acquiring package (\<open>acquiring/dedup.go\<close>). It is a second copy of the memory of
  \<open>webhook/dedup.go\<close>, with the same fields; it is written out here as that file has it, and shown to do the same, so that it
  obeys the contract \<open>deduper\<close> as well.
\<close>

definition acq_NewMemoryDeduper :: "int \<Rightarrow> memory_deduper" where
  "acq_NewMemoryDeduper cap =
     (let cap1 = (if cap \<le> 0 then 1024 else cap)
      in \<lparr>capacity = cap1, order = [], index = Map.empty, fresh = 0\<rparr>)"

definition acq_Has :: "string \<Rightarrow> memory_deduper \<Rightarrow> bool \<times> memory_deduper" where
  "acq_Has key d =
     (if key = [] then (False, d)
      else let el = index d key;
               d1 = (case el of Some e \<Rightarrow> d\<lparr>order := MoveToFront e (order d)\<rparr> | None \<Rightarrow> d)
           in (el \<noteq> None, d1))"

definition acq_Add :: "string \<Rightarrow> memory_deduper \<Rightarrow> memory_deduper" where
  "acq_Add key d =
     (if key = [] then d
      else case index d key of
          Some el \<Rightarrow> d\<lparr>order := MoveToFront el (order d)\<rparr>
        | None \<Rightarrow>
            (let d1 = (if int (length (order d)) = capacity d \<and> order d \<noteq> []
                       then d\<lparr>index := (index d)(snd (last (order d)) := None), order := Remove (fst (last (order d))) (order d)\<rparr>
                       else d)
             in d1\<lparr>index := (index d1)(key \<mapsto> fresh d1), order := (fresh d1, key) # order d1, fresh := fresh d1 + 1\<rparr>))"

definition acq_Len :: "memory_deduper \<Rightarrow> nat" where
  "acq_Len d = length (order d)"

lemma acquiring_memory_is_the_webhook_memory:
  "acq_NewMemoryDeduper = NewMemoryDeduper" "acq_Has = Has" "acq_Add = Add_id" "acq_Len = Len"
proof -
  show "acq_NewMemoryDeduper = NewMemoryDeduper" "acq_Len = Len"
    by (simp_all add: fun_eq_iff acq_NewMemoryDeduper_def NewMemoryDeduper_def acq_Len_def Len_def)
  show "acq_Has = Has" by (simp add: fun_eq_iff acq_Has_def Has_def Let_def split: option.split)
  show "acq_Add = Add_id"
    by (simp add: fun_eq_iff acq_Add_def Add_id_def push_front_def evict_oldest_def Let_def split: option.split)
qed

interpretation acq_dedup: deduper acq_Has acq_Add lru_inv "\<lambda>d. set (lru_abs d)"
  "\<lambda>d. lru_age (lru_abs d)" "\<lambda>d. nat (capacity d)"
  unfolding acquiring_memory_is_the_webhook_memory by (rule mem_dedup.deduper_axioms)

text \<open>A handler whose memory holds the state of an invoice still holds it after a delivery, unless as many other states
  as the memory has room for came in between.\<close>

lemma acquiring_memory_keeps:
  assumes "lru_inv d" and "k \<in> set (lru_abs d)" and "lru_age (lru_abs d) k + 1 < nat (capacity d)"
    and "d' = snd (acq_Has j d) \<or> (\<not> fst (acq_Has j d) \<and> d' = acq_Add j (snd (acq_Has j d)))"
  shows "lru_inv d' \<and> k \<in> set (lru_abs d') \<and> lru_age (lru_abs d') k \<le> lru_age (lru_abs d) k + 1"
  using acq_dedup.check_then_record_keeps [OF assms] by blast

end
