(* ===== verification/Open_Banking_Types.thy ===== *)
theory Open_Banking_Types
  imports Json_Exchange Open_Banking_Log
begin

text \<open>
  The wire format of the Open Banking API (\<open>openbanking/types.go\<close>, \<open>accounts.go\<close>, \<open>consents.go\<close>, \<open>payments.go\<close>,
  \<open>testintegration.go\<close>): each struct with its tags and the laws of its codec. A date goes through \<open>MarshalJSON\<close> and
  \<open>UnmarshalJSON\<close> of \<open>Date\<close>; a time is formatted and parsed by a parameter; \<open>omitzero\<close> leaves a zero value out. Whole
  calls over this wire format close the theory: what a payment order and a consent carry, and the bank's messages.
\<close>

section \<open>Dates, times and \<open>omitzero\<close>\<close>

definition omitzero_f :: "('a \<Rightarrow> bool) \<Rightarrow> ('a \<Rightarrow> json) \<Rightarrow> (json \<Rightarrow> 'a \<Rightarrow> 'a option) \<Rightarrow> string \<Rightarrow> ('r \<Rightarrow> 'a) \<Rightarrow>
    (('a \<Rightarrow> 'a) \<Rightarrow> 'r \<Rightarrow> 'r) \<Rightarrow> 'r field" where
  \<comment> \<open>a value with \<open>omitzero\<close>: left out when it \<open>IsZero\<close>\<close>
  "omitzero_f is_zero enc dec n get upd =
     (n, (\<lambda>r. if is_zero (get r) then None else Some (enc (get r))),
      (\<lambda>j r. map_option (\<lambda>x. upd (\<lambda>_. x) r) (dec j (get r))))"

definition date_json :: "date \<Rightarrow> json" where
  "date_json d = JStr (Date_MarshalJSON (\<lambda>s. s) d)"

definition date_of :: "json \<Rightarrow> date option" where
  "date_of j =
     (case Date_UnmarshalJSON (\<lambda>_. case elem_str j of None \<Rightarrow> Inl [] | Some s \<Rightarrow> Inr s) (json_text j) of
        Inl e \<Rightarrow> None
      | Inr d \<Rightarrow> Some d)"

definition date_ok :: "date \<Rightarrow> bool" where
  \<comment> \<open>the unset date, or midnight UTC of a day that the format can write\<close>
  "date_ok d \<longleftrightarrow> d = (if Date_IsZero d then zero_Date else midnight_UTC (day_of d)) \<and>
     0 \<le> fst (civil (day_of d)) \<and> fst (civil (day_of d)) \<le> 9999"

record time_format =
  tfFormat :: "go_time \<Rightarrow> string"
  tfParse :: "string \<Rightarrow> go_time option"

definition time_of :: "time_format \<Rightarrow> json \<Rightarrow> go_time \<Rightarrow> go_time option" where
  "time_of tf j t = (case j of JNull \<Rightarrow> Some t | JStr s \<Rightarrow> tfParse tf s | _ \<Rightarrow> None)"

definition time_ok :: "time_format \<Rightarrow> go_time \<Rightarrow> bool" where
  \<comment> \<open>a time whose text is read back as that time\<close>
  "time_ok tf t \<longleftrightarrow> tfParse tf (tfFormat tf t) = Some t \<and> valid_utf8 (tfFormat tf t) \<and> (Date_IsZero t \<longrightarrow> t = zero_Date)"

definition date_f where "date_f = custom_f date_json (\<lambda>j _. date_of j)"
definition date_z where "date_z = omitzero_f Date_IsZero date_json (\<lambda>j _. date_of j)"
definition time_z where "time_z tf = omitzero_f Date_IsZero (\<lambda>t. JStr (tfFormat tf t)) (time_of tf)"
definition struct_z where "struct_z fs zero = omitzero_f (\<lambda>x. x = zero) (encode_struct fs) (decode_struct fs)"

lemma date_back: "date_ok d \<Longrightarrow> date_of (date_json d) = Some d"
proof -
  assume d: "date_ok d"
  then have "Date_UnmarshalJSON Inr (Date_MarshalJSON (\<lambda>s. s) d) = Inr d"
    using Date_back [of Inr "\<lambda>s. s" d] unfolding date_ok_def by metis
  then show "date_of (date_json d) = Some d"
    by (simp add: date_of_def date_json_def elem_str_def json_str_def Date_UnmarshalJSON_def Date_MarshalJSON_def)
qed

lemma date_ascii: "ascii (Date_String d)"
proof -
  have "(of_char c :: nat) < 128" if "is_digit c \<or> c = CHR ''-''" for c
  proof -
    have "(of_char c :: int) = int (of_char c)" using of_nat_of_char [of c, where 'a = int] by (rule sym)
    with that show ?thesis unfolding is_digit_def by auto
  qed
  then show ?thesis using date_chars [of d] by (auto simp: Date_String_def ascii_def list_all_iff)
qed

lemma refill_omitzero:
  "dec (enc (get r)) (get z) = Some (get r) \<Longrightarrow> (is_zero (get r) \<longrightarrow> upd (\<lambda>_. get r) z = z) \<Longrightarrow>
   refill (omitzero_f is_zero enc dec n get upd # fs) r z = refill fs r (upd (\<lambda>_. get r) z)"
  by (auto simp: omitzero_f_def refill.simps(2))

lemma zero_values: "date_ok d \<Longrightarrow> Date_IsZero d \<Longrightarrow> d = zero_Date" "time_ok tf t \<Longrightarrow> Date_IsZero t \<Longrightarrow> t = zero_Date"
  by (simp_all add: time_ok_def) (unfold date_ok_def, metis)

lemma refill_dates [codec]:
  "date_ok (get r) \<Longrightarrow> refill (date_f n get upd # fs) r z = refill fs r (upd (\<lambda>_. get r) z)"
  "date_ok (get r) \<Longrightarrow> upd (\<lambda>_. zero_Date) z = z \<Longrightarrow> refill (date_z n get upd # fs) r z = refill fs r (upd (\<lambda>_. get r) z)"
proof -
  show "date_ok (get r) \<Longrightarrow> refill (date_f n get upd # fs) r z = refill fs r (upd (\<lambda>_. get r) z)"
    by (simp add: date_f_def refill_custom date_back)
  assume d: "date_ok (get r)" and "upd (\<lambda>_. zero_Date) z = z"
  then show "refill (date_z n get upd # fs) r z = refill fs r (upd (\<lambda>_. get r) z)"
    unfolding date_z_def using zero_values(1) [OF d] by (intro refill_omitzero impI) (simp_all add: date_back)
qed

lemma refill_time [codec]:
  assumes "time_ok tf (get r)" and "upd (\<lambda>_. zero_Date) z = z"
  shows "refill (time_z tf n get upd # fs) r z = refill fs r (upd (\<lambda>_. get r) z)"
  unfolding time_z_def using assms zero_values(2) [OF assms(1)]
  by (intro refill_omitzero impI) (simp_all add: time_ok_def time_of_def)

lemma refill_struct_z [codec]:
  "refills gs (get z) (get r) \<Longrightarrow> upd (\<lambda>_. zero) z = z \<Longrightarrow>
   refill (struct_z gs zero n get upd # fs) r z = refill fs r (upd (\<lambda>_. get r) z)"
  unfolding struct_z_def by (rule refill_omitzero) (simp_all add: decode_refills)

lemma omitzero_names [codec]:
  "fst (date_f n gd ud) = n" "fst (date_z n gz uz) = n" "fst (time_z tf n gt ut) = n" "fst (struct_z gs zero n gs' us) = n"
  by (simp_all add: date_f_def date_z_def time_z_def struct_z_def omitzero_f_def codec)

lemma field_ok_omitzero: "ascii n \<Longrightarrow> json_ok d (enc (get r)) \<Longrightarrow> field_ok d r (omitzero_f is_zero enc dec n get upd)"
  by (simp add: field_ok_def omitzero_f_def ascii_utf8)

lemma field_ok_dates [codec]:
  "ascii n \<Longrightarrow> field_ok d r (date_f n gd ud)" "ascii n \<Longrightarrow> field_ok d r (date_z n gz uz)"
  "ascii n \<Longrightarrow> time_ok tf (gt r) \<Longrightarrow> field_ok d r (time_z tf n gt ut)"
  "ascii n \<Longrightarrow> json_ok d (encode_struct gs (ga r)) \<Longrightarrow> field_ok d r (struct_z gs zero n ga ua)"
  by (simp_all add: date_f_def date_z_def time_z_def struct_z_def field_ok_custom field_ok_omitzero date_json_def Date_MarshalJSON_def
      ascii_utf8 date_ascii time_ok_def)

section \<open>Requests and answers\<close>

definition href_fields :: "href field list" where
  "href_fields =
     [str_f ''href'' Href Href_update]"

definition href_zero :: href where
  "href_zero = \<lparr>Href = []\<rparr>"

definition href_ok :: "href \<Rightarrow> bool" where
  "href_ok x \<longleftrightarrow>
     valid_utf8 (Href x)"

lemmas href_defs = href_fields_def href_zero_def href_ok_def

interpretation href: dto href_fields href_zero href_ok 1
proof
  show "refills href_fields href_zero x" if "href_ok x" for x
    using that by (cases x) (rule refillsI, simp_all add: href_defs codec)
  show "json_ok d (encode_struct href_fields x)" if "href_ok x" and "1 \<le> d" for d x
    using that by (intro json_ok_struct) (auto simp: href_defs codec)
qed simp

definition amount_fields :: "amount field list" where
  "amount_fields =
     [str_f ''currency'' amCurrency amCurrency_update, str_f ''amount'' amValue amValue_update]"

definition amount_zero :: amount where
  "amount_zero = \<lparr>amCurrency = [], amValue = []\<rparr>"

definition amount_ok :: "amount \<Rightarrow> bool" where
  "amount_ok x \<longleftrightarrow>
     list_all valid_utf8 [amCurrency x, amValue x]"

lemmas amount_defs = amount_fields_def amount_zero_def amount_ok_def

interpretation amount: dto amount_fields amount_zero amount_ok 1
proof
  show "refills amount_fields amount_zero x" if "amount_ok x" for x
    using that by (cases x) (rule refillsI, simp_all add: amount_defs codec)
  show "json_ok d (encode_struct amount_fields x)" if "amount_ok x" and "1 \<le> d" for d x
    using that by (intro json_ok_struct) (auto simp: amount_defs codec)
qed simp

definition ob_account_fields :: "ob_account field list" where
  "ob_account_fields =
     [str_o ''iban'' oaIBAN oaIBAN_update, str_o ''currency'' oaCurrency oaCurrency_update]"

definition ob_account_zero :: ob_account where
  "ob_account_zero = \<lparr>oaIBAN = [], oaCurrency = []\<rparr>"

definition ob_account_ok :: "ob_account \<Rightarrow> bool" where
  "ob_account_ok x \<longleftrightarrow>
     list_all valid_utf8 [oaIBAN x, oaCurrency x]"

lemmas ob_account_defs = ob_account_fields_def ob_account_zero_def ob_account_ok_def

interpretation ob_account: dto ob_account_fields ob_account_zero ob_account_ok 1
proof
  show "refills ob_account_fields ob_account_zero x" if "ob_account_ok x" for x
    using that by (cases x) (rule refillsI, simp_all add: ob_account_defs codec)
  show "json_ok d (encode_struct ob_account_fields x)" if "ob_account_ok x" and "1 \<le> d" for d x
    using that by (intro json_ok_struct) (auto simp: ob_account_defs codec)
qed simp

definition access_rights_fields :: "access_rights field list" where
  "access_rights_fields =
     [struct_f ob_account_fields ''account'' arAccount arAccount_update, strs_f ''rights'' arRights arRights_update]"

definition access_rights_zero :: access_rights where
  "access_rights_zero = \<lparr>arAccount = ob_account_zero, arRights = []\<rparr>"

definition access_rights_ok :: "access_rights \<Rightarrow> bool" where
  "access_rights_ok x \<longleftrightarrow>
     ob_account_ok (arAccount x) \<and> list_all valid_utf8 (arRights x)"

lemmas access_rights_defs = access_rights_fields_def access_rights_zero_def access_rights_ok_def

interpretation access_rights: dto access_rights_fields access_rights_zero access_rights_ok 2
proof
  show "refills access_rights_fields access_rights_zero x" if "access_rights_ok x" for x
    using that by (cases x) (rule refillsI, simp_all add: access_rights_defs codec)
  show "json_ok d (encode_struct access_rights_fields x)" if "access_rights_ok x" and "2 \<le> d" for d x
    using that by (intro json_ok_struct) (auto simp: access_rights_defs codec)
qed simp

definition account_access_fields :: "account_access field list" where
  "account_access_fields =
     [structs_o access_rights_fields access_rights_zero ''cards'' Cards Cards_update,
      structs_o access_rights_fields access_rights_zero ''payments'' Payments Payments_update,
      structs_o access_rights_fields access_rights_zero ''savings'' Savings Savings_update,
      structs_o access_rights_fields access_rights_zero ''loans'' Loans Loans_update]"

definition account_access_zero :: account_access where
  "account_access_zero = \<lparr>Cards = [], Payments = [], Savings = [], Loans = []\<rparr>"

definition account_access_ok :: "account_access \<Rightarrow> bool" where
  "account_access_ok x \<longleftrightarrow>
     list_all access_rights_ok (Cards x) \<and> list_all access_rights_ok (Payments x) \<and>
     list_all access_rights_ok (Savings x) \<and> list_all access_rights_ok (Loans x)"

lemmas account_access_defs = account_access_fields_def account_access_zero_def account_access_ok_def

interpretation account_access: dto account_access_fields account_access_zero account_access_ok 4
proof
  show "refills account_access_fields account_access_zero x" if "account_access_ok x" for x
    using that by (cases x) (rule refillsI, simp_all add: account_access_defs codec)
  show "json_ok d (encode_struct account_access_fields x)" if "account_access_ok x" and "4 \<le> d" for d x
    using that by (intro json_ok_struct) (auto simp: account_access_defs codec)
qed simp

definition ob_balance_fields :: "ob_balance field list" where
  "ob_balance_fields =
     [struct_f amount_fields ''balanceAmount'' BalanceAmount BalanceAmount_update,
      str_f ''balanceType'' BalanceType BalanceType_update,
      bool_o ''creditLimitIncluded'' CreditLimitIncluded CreditLimitIncluded_update]"

definition ob_balance_zero :: ob_balance where
  "ob_balance_zero = \<lparr>BalanceAmount = amount_zero, BalanceType = [], CreditLimitIncluded = False\<rparr>"

definition ob_balance_ok :: "ob_balance \<Rightarrow> bool" where
  "ob_balance_ok x \<longleftrightarrow>
     valid_utf8 (BalanceType x) \<and> amount_ok (BalanceAmount x)"

lemmas ob_balance_defs = ob_balance_fields_def ob_balance_zero_def ob_balance_ok_def

interpretation ob_balance: dto ob_balance_fields ob_balance_zero ob_balance_ok 2
proof
  show "refills ob_balance_fields ob_balance_zero x" if "ob_balance_ok x" for x
    using that by (cases x) (rule refillsI, simp_all add: ob_balance_defs codec)
  show "json_ok d (encode_struct ob_balance_fields x)" if "ob_balance_ok x" and "2 \<le> d" for d x
    using that by (intro json_ok_struct) (auto simp: ob_balance_defs codec)
qed simp

definition account_details_fields :: "account_details field list" where
  "account_details_fields =
     [str_f ''resourceId'' adResourceID adResourceID_update, str_o ''iban'' adIBAN adIBAN_update,
      str_f ''currency'' adCurrency adCurrency_update, str_o ''product'' adProduct adProduct_update,
      structs_o ob_balance_fields ob_balance_zero ''balances'' adBalances adBalances_update]"

definition account_details_zero :: account_details where
  "account_details_zero = \<lparr>adResourceID = [], adIBAN = [], adCurrency = [], adProduct = [], adBalances = []\<rparr>"

definition account_details_ok :: "account_details \<Rightarrow> bool" where
  "account_details_ok x \<longleftrightarrow>
     list_all valid_utf8 [adResourceID x, adIBAN x, adCurrency x, adProduct x] \<and>
     list_all ob_balance_ok (adBalances x)"

lemmas account_details_defs = account_details_fields_def account_details_zero_def account_details_ok_def

interpretation account_details: dto account_details_fields account_details_zero account_details_ok 4
proof
  show "refills account_details_fields account_details_zero x" if "account_details_ok x" for x
    using that by (cases x) (rule refillsI, simp_all add: account_details_defs codec)
  show "json_ok d (encode_struct account_details_fields x)" if "account_details_ok x" and "4 \<le> d" for d x
    using that by (intro json_ok_struct) (auto simp: account_details_defs codec)
qed simp

definition account_reference_fields :: "account_reference field list" where
  "account_reference_fields =
     [str_o ''iban'' refIBAN refIBAN_update, str_o ''currency'' refCurrency refCurrency_update,
      str_o ''product'' refProduct refProduct_update]"

definition account_reference_zero :: account_reference where
  "account_reference_zero = \<lparr>refIBAN = [], refCurrency = [], refProduct = []\<rparr>"

definition account_reference_ok :: "account_reference \<Rightarrow> bool" where
  "account_reference_ok x \<longleftrightarrow>
     list_all valid_utf8 [refIBAN x, refCurrency x, refProduct x]"

lemmas account_reference_defs = account_reference_fields_def account_reference_zero_def account_reference_ok_def

interpretation account_reference: dto account_reference_fields account_reference_zero account_reference_ok 1
proof
  show "refills account_reference_fields account_reference_zero x" if "account_reference_ok x" for x
    using that by (cases x) (rule refillsI, simp_all add: account_reference_defs codec)
  show "json_ok d (encode_struct account_reference_fields x)" if "account_reference_ok x" and "1 \<le> d" for d x
    using that by (intro json_ok_struct) (auto simp: account_reference_defs codec)
qed simp

definition payment_account_reference_fields :: "payment_account_reference field list" where
  "payment_account_reference_fields =
     [str_o ''iban'' parIBAN parIBAN_update, str_o ''currency'' parCurrency parCurrency_update]"

definition payment_account_reference_zero :: payment_account_reference where
  "payment_account_reference_zero = \<lparr>parIBAN = [], parCurrency = []\<rparr>"

definition payment_account_reference_ok :: "payment_account_reference \<Rightarrow> bool" where
  "payment_account_reference_ok x \<longleftrightarrow>
     list_all valid_utf8 [parIBAN x, parCurrency x]"

lemmas payment_account_reference_defs = payment_account_reference_fields_def payment_account_reference_zero_def payment_account_reference_ok_def

interpretation payment_account_reference: dto payment_account_reference_fields payment_account_reference_zero payment_account_reference_ok 1
proof
  show "refills payment_account_reference_fields payment_account_reference_zero x" if "payment_account_reference_ok x" for x
    using that by (cases x) (rule refillsI, simp_all add: payment_account_reference_defs codec)
  show "json_ok d (encode_struct payment_account_reference_fields x)" if "payment_account_reference_ok x" and "1 \<le> d" for d x
    using that by (intro json_ok_struct) (auto simp: payment_account_reference_defs codec)
qed simp

definition party_fields :: "party field list" where
  "party_fields =
     [str_o ''name'' partyName partyName_update]"

definition party_zero :: party where
  "party_zero = \<lparr>partyName = []\<rparr>"

definition party_ok :: "party \<Rightarrow> bool" where
  "party_ok x \<longleftrightarrow>
     valid_utf8 (partyName x)"

lemmas party_defs = party_fields_def party_zero_def party_ok_def

interpretation party: dto party_fields party_zero party_ok 1
proof
  show "refills party_fields party_zero x" if "party_ok x" for x
    using that by (cases x) (rule refillsI, simp_all add: party_defs codec)
  show "json_ok d (encode_struct party_fields x)" if "party_ok x" and "1 \<le> d" for d x
    using that by (intro json_ok_struct) (auto simp: party_defs codec)
qed simp

definition creditor_fields :: "creditor field list" where
  "creditor_fields =
     [str_f ''name'' crdName crdName_update, str_f ''creditorId'' crdCreditorID crdCreditorID_update,
      str_f ''creditorIdType'' crdCreditorIDType crdCreditorIDType_update]"

definition creditor_zero :: creditor where
  "creditor_zero = \<lparr>crdName = [], crdCreditorID = [], crdCreditorIDType = []\<rparr>"

definition creditor_ok :: "creditor \<Rightarrow> bool" where
  "creditor_ok x \<longleftrightarrow>
     list_all valid_utf8 [crdName x, crdCreditorID x, crdCreditorIDType x]"

lemmas creditor_defs = creditor_fields_def creditor_zero_def creditor_ok_def

interpretation creditor: dto creditor_fields creditor_zero creditor_ok 1
proof
  show "refills creditor_fields creditor_zero x" if "creditor_ok x" for x
    using that by (cases x) (rule refillsI, simp_all add: creditor_defs codec)
  show "json_ok d (encode_struct creditor_fields x)" if "creditor_ok x" and "1 \<le> d" for d x
    using that by (intro json_ok_struct) (auto simp: creditor_defs codec)
qed simp

definition card_transaction_fields :: "time_format \<Rightarrow> card_transaction field list" where
  "card_transaction_fields tf =
     [time_z tf ''transactionDateTime'' ctTransactionDateTime ctTransactionDateTime_update,
      str_o ''tradeName'' ctTradeName ctTradeName_update,
      str_o ''merchantCategoryCode'' ctMerchantCategoryCode ctMerchantCategoryCode_update]"

definition card_transaction_zero :: card_transaction where
  "card_transaction_zero = \<lparr>ctTransactionDateTime = zero_Date, ctTradeName = [], ctMerchantCategoryCode = []\<rparr>"

definition card_transaction_ok :: "time_format \<Rightarrow> card_transaction \<Rightarrow> bool" where
  "card_transaction_ok tf x \<longleftrightarrow>
     list_all valid_utf8 [ctTradeName x, ctMerchantCategoryCode x] \<and> time_ok tf (ctTransactionDateTime x)"

lemmas card_transaction_defs = card_transaction_fields_def card_transaction_zero_def card_transaction_ok_def

interpretation card_transaction: dto "card_transaction_fields tf" card_transaction_zero "card_transaction_ok tf" 1 for tf
proof
  show "refills (card_transaction_fields tf) card_transaction_zero x" if "card_transaction_ok tf x" for x
    using that by (cases x) (rule refillsI, simp_all add: card_transaction_defs codec)
  show "json_ok d (encode_struct (card_transaction_fields tf) x)" if "card_transaction_ok tf x" and "1 \<le> d" for d x
    using that by (intro json_ok_struct) (auto simp: card_transaction_defs codec)
qed simp

definition ob_transaction_fields :: "time_format \<Rightarrow> ob_transaction field list" where
  "ob_transaction_fields tf =
     [str_o ''transactionId'' otTransactionID otTransactionID_update,
      date_z ''bookingDate'' otBookingDate otBookingDate_update,
      struct_f amount_fields ''transactionAmount'' otTransactionAmount otTransactionAmount_update,
      struct_o party_fields party_zero ''creditor'' otCreditor otCreditor_update,
      struct_o party_fields party_zero ''debtor'' otDebtor otDebtor_update,
      struct_o (card_transaction_fields tf) card_transaction_zero ''cardTransaction'' otCardTransaction otCardTransaction_update,
      strs_o ''remittanceInformationUnstructured'' otRemittance otRemittance_update]"

definition ob_transaction_zero :: ob_transaction where
  "ob_transaction_zero = \<lparr>otTransactionID = [], otBookingDate = zero_Date, otTransactionAmount = amount_zero, otCreditor = None,
     otDebtor = None, otCardTransaction = None, otRemittance = []\<rparr>"

definition ob_transaction_ok :: "time_format \<Rightarrow> ob_transaction \<Rightarrow> bool" where
  "ob_transaction_ok tf x \<longleftrightarrow>
     valid_utf8 (otTransactionID x) \<and> date_ok (otBookingDate x) \<and> amount_ok (otTransactionAmount x) \<and>
     pred_option party_ok (otCreditor x) \<and> pred_option party_ok (otDebtor x) \<and>
     pred_option (card_transaction_ok tf) (otCardTransaction x) \<and> list_all valid_utf8 (otRemittance x)"

lemmas ob_transaction_defs = ob_transaction_fields_def ob_transaction_zero_def ob_transaction_ok_def

interpretation ob_transaction: dto "ob_transaction_fields tf" ob_transaction_zero "ob_transaction_ok tf" 2 for tf
proof
  show "refills (ob_transaction_fields tf) ob_transaction_zero x" if "ob_transaction_ok tf x" for x
    using that by (cases x) (rule refillsI, simp_all add: ob_transaction_defs codec)
  show "json_ok d (encode_struct (ob_transaction_fields tf) x)" if "ob_transaction_ok tf x" and "2 \<le> d" for d x
    using that by (intro json_ok_struct) (auto simp: ob_transaction_defs codec)
qed simp

definition account_report_links_fields :: "account_report_links field list" where
  "account_report_links_fields =
     [struct_o href_fields href_zero ''first'' First First_update,
      struct_o href_fields href_zero ''next'' Next Next_update]"

definition account_report_links_zero :: account_report_links where
  "account_report_links_zero = \<lparr>First = None, Next = None\<rparr>"

definition account_report_links_ok :: "account_report_links \<Rightarrow> bool" where
  "account_report_links_ok x \<longleftrightarrow>
     pred_option href_ok (First x) \<and> pred_option href_ok (Next x)"

lemmas account_report_links_defs = account_report_links_fields_def account_report_links_zero_def account_report_links_ok_def

interpretation account_report_links: dto account_report_links_fields account_report_links_zero account_report_links_ok 2
proof
  show "refills account_report_links_fields account_report_links_zero x" if "account_report_links_ok x" for x
    using that by (cases x) (rule refillsI, simp_all add: account_report_links_defs codec)
  show "json_ok d (encode_struct account_report_links_fields x)" if "account_report_links_ok x" and "2 \<le> d" for d x
    using that by (intro json_ok_struct) (auto simp: account_report_links_defs codec)
qed simp

definition account_report_fields :: "time_format \<Rightarrow> ob_transaction account_report field list" where
  "account_report_fields tf =
     [structs_o (ob_transaction_fields tf) ob_transaction_zero ''booked'' Booked Booked_update,
      struct_z account_report_links_fields account_report_links_zero ''_links'' reportLinks reportLinks_update]"

definition account_report_zero :: "ob_transaction account_report" where
  "account_report_zero = \<lparr>Booked = [], reportLinks = account_report_links_zero\<rparr>"

definition account_report_ok :: "time_format \<Rightarrow> ob_transaction account_report \<Rightarrow> bool" where
  "account_report_ok tf x \<longleftrightarrow>
     list_all (ob_transaction_ok tf) (Booked x) \<and> account_report_links_ok (reportLinks x)"

lemmas account_report_defs = account_report_fields_def account_report_zero_def account_report_ok_def

interpretation account_report: dto "account_report_fields tf" account_report_zero "account_report_ok tf" 4 for tf
proof
  show "refills (account_report_fields tf) account_report_zero x" if "account_report_ok tf x" for x
    using that by (cases x) (rule refillsI, simp_all add: account_report_defs codec)
  show "json_ok d (encode_struct (account_report_fields tf) x)" if "account_report_ok tf x" and "4 \<le> d" for d x
    using that by (intro json_ok_struct) (auto simp: account_report_defs codec)
qed simp

definition client_message_fields :: "client_message field list" where
  "client_message_fields =
     [str_f ''category'' msgCategory msgCategory_update, str_f ''code'' msgCode msgCode_update,
      str_o ''text'' msgText msgText_update]"

definition client_message_zero :: client_message where
  "client_message_zero = \<lparr>msgCategory = [], msgCode = [], msgText = []\<rparr>"

definition client_message_ok :: "client_message \<Rightarrow> bool" where
  "client_message_ok x \<longleftrightarrow>
     list_all valid_utf8 [msgCategory x, msgCode x, msgText x]"

lemmas client_message_defs = client_message_fields_def client_message_zero_def client_message_ok_def

interpretation client_message: dto client_message_fields client_message_zero client_message_ok 1
proof
  show "refills client_message_fields client_message_zero x" if "client_message_ok x" for x
    using that by (cases x) (rule refillsI, simp_all add: client_message_defs codec)
  show "json_ok d (encode_struct client_message_fields x)" if "client_message_ok x" and "1 \<le> d" for d x
    using that by (intro json_ok_struct) (auto simp: client_message_defs codec)
qed simp

record error_body =
  ebAPIClientMessages :: "client_message list option"

definition error_body_fields :: "error_body field list" where
  "error_body_fields =
     [structs_f client_message_fields client_message_zero ''apiClientMessages'' ebAPIClientMessages ebAPIClientMessages_update]"

definition error_body_zero :: error_body where
  "error_body_zero = \<lparr>ebAPIClientMessages = None\<rparr>"

definition error_body_ok :: "error_body \<Rightarrow> bool" where
  "error_body_ok x \<longleftrightarrow>
     pred_option (list_all client_message_ok) (ebAPIClientMessages x)"

lemmas error_body_defs = error_body_fields_def error_body_zero_def error_body_ok_def

interpretation error_body: dto error_body_fields error_body_zero error_body_ok 3
proof
  show "refills error_body_fields error_body_zero x" if "error_body_ok x" for x
    using that by (cases x) (rule refillsI, simp_all add: error_body_defs codec)
  show "json_ok d (encode_struct error_body_fields x)" if "error_body_ok x" and "3 \<le> d" for d x
    using that by (intro json_ok_struct) (auto simp: error_body_defs codec)
qed simp

definition create_consent_request_fields :: "create_consent_request field list" where
  "create_consent_request_fields =
     [struct_f account_access_fields ''access'' ccAccess ccAccess_update,
      str_f ''consentType'' ccConsentType ccConsentType_update,
      bool_f ''recurringIndicator'' ccRecurringIndicator ccRecurringIndicator_update,
      date_f ''validTo'' ccValidTo ccValidTo_update,
      int_f ''frequencyPerDay'' ccFrequencyPerDay ccFrequencyPerDay_update]"

definition create_consent_request_zero :: create_consent_request where
  "create_consent_request_zero = \<lparr>ccAccess = account_access_zero, ccConsentType = [], ccRecurringIndicator = False, ccValidTo = zero_Date,
     ccFrequencyPerDay = 0\<rparr>"

definition create_consent_request_ok :: "create_consent_request \<Rightarrow> bool" where
  "create_consent_request_ok x \<longleftrightarrow>
     valid_utf8 (ccConsentType x) \<and> in_int64 (ccFrequencyPerDay x) \<and> account_access_ok (ccAccess x) \<and>
     date_ok (ccValidTo x)"

lemmas create_consent_request_defs = create_consent_request_fields_def create_consent_request_zero_def create_consent_request_ok_def

interpretation create_consent_request: dto create_consent_request_fields create_consent_request_zero create_consent_request_ok 5
proof
  show "refills create_consent_request_fields create_consent_request_zero x" if "create_consent_request_ok x" for x
    using that by (cases x) (rule refillsI, simp_all add: create_consent_request_defs codec)
  show "json_ok d (encode_struct create_consent_request_fields x)" if "create_consent_request_ok x" and "5 \<le> d" for d x
    using that by (intro json_ok_struct) (auto simp: create_consent_request_defs codec)
qed simp

record consent_links =
  clStartAuthorisation :: "href option"

definition consent_links_fields :: "consent_links field list" where
  "consent_links_fields =
     [struct_o href_fields href_zero ''startAuthorisation'' clStartAuthorisation clStartAuthorisation_update]"

definition consent_links_zero :: consent_links where
  "consent_links_zero = \<lparr>clStartAuthorisation = None\<rparr>"

definition consent_links_ok :: "consent_links \<Rightarrow> bool" where
  "consent_links_ok x \<longleftrightarrow>
     pred_option href_ok (clStartAuthorisation x)"

lemmas consent_links_defs = consent_links_fields_def consent_links_zero_def consent_links_ok_def

interpretation consent_links: dto consent_links_fields consent_links_zero consent_links_ok 2
proof
  show "refills consent_links_fields consent_links_zero x" if "consent_links_ok x" for x
    using that by (cases x) (rule refillsI, simp_all add: consent_links_defs codec)
  show "json_ok d (encode_struct consent_links_fields x)" if "consent_links_ok x" and "2 \<le> d" for d x
    using that by (intro json_ok_struct) (auto simp: consent_links_defs codec)
qed simp

record create_consent_response =
  cnConsentID :: string
  cnConsentStatus :: string
  cnLinks :: consent_links

definition create_consent_response_fields :: "create_consent_response field list" where
  "create_consent_response_fields =
     [str_f ''consentId'' cnConsentID cnConsentID_update,
      str_f ''consentStatus'' cnConsentStatus cnConsentStatus_update,
      struct_z consent_links_fields consent_links_zero ''_links'' cnLinks cnLinks_update]"

definition create_consent_response_zero :: create_consent_response where
  "create_consent_response_zero = \<lparr>cnConsentID = [], cnConsentStatus = [], cnLinks = consent_links_zero\<rparr>"

definition create_consent_response_ok :: "create_consent_response \<Rightarrow> bool" where
  "create_consent_response_ok x \<longleftrightarrow>
     list_all valid_utf8 [cnConsentID x, cnConsentStatus x] \<and> consent_links_ok (cnLinks x)"

lemmas create_consent_response_defs = create_consent_response_fields_def create_consent_response_zero_def create_consent_response_ok_def

interpretation create_consent_response: dto create_consent_response_fields create_consent_response_zero create_consent_response_ok 3
proof
  show "refills create_consent_response_fields create_consent_response_zero x" if "create_consent_response_ok x" for x
    using that by (cases x) (rule refillsI, simp_all add: create_consent_response_defs codec)
  show "json_ok d (encode_struct create_consent_response_fields x)" if "create_consent_response_ok x" and "3 \<le> d" for d x
    using that by (intro json_ok_struct) (auto simp: create_consent_response_defs codec)
qed simp

definition authorisation_links_fields :: "authorisation_links field list" where
  "authorisation_links_fields =
     [struct_o href_fields href_zero ''scaRedirect'' SCARedirect SCARedirect_update,
      struct_o href_fields href_zero ''scaStatus'' SCAStatusLink SCAStatusLink_update]"

definition authorisation_links_zero :: authorisation_links where
  "authorisation_links_zero = \<lparr>SCARedirect = None, SCAStatusLink = None\<rparr>"

definition authorisation_links_ok :: "authorisation_links \<Rightarrow> bool" where
  "authorisation_links_ok x \<longleftrightarrow>
     pred_option href_ok (SCARedirect x) \<and> pred_option href_ok (SCAStatusLink x)"

lemmas authorisation_links_defs = authorisation_links_fields_def authorisation_links_zero_def authorisation_links_ok_def

interpretation authorisation_links: dto authorisation_links_fields authorisation_links_zero authorisation_links_ok 2
proof
  show "refills authorisation_links_fields authorisation_links_zero x" if "authorisation_links_ok x" for x
    using that by (cases x) (rule refillsI, simp_all add: authorisation_links_defs codec)
  show "json_ok d (encode_struct authorisation_links_fields x)" if "authorisation_links_ok x" and "2 \<le> d" for d x
    using that by (intro json_ok_struct) (auto simp: authorisation_links_defs codec)
qed simp

definition start_authorisation_response_fields :: "start_authorisation_response field list" where
  "start_authorisation_response_fields =
     [str_f ''authorisationId'' saAuthorisationID saAuthorisationID_update,
      str_f ''scaStatus'' saSCAStatus saSCAStatus_update,
      struct_z authorisation_links_fields authorisation_links_zero ''_links'' saLinks saLinks_update]"

definition start_authorisation_response_zero :: start_authorisation_response where
  "start_authorisation_response_zero = \<lparr>saAuthorisationID = [], saSCAStatus = [], saLinks = authorisation_links_zero\<rparr>"

definition start_authorisation_response_ok :: "start_authorisation_response \<Rightarrow> bool" where
  "start_authorisation_response_ok x \<longleftrightarrow>
     list_all valid_utf8 [saAuthorisationID x, saSCAStatus x] \<and> authorisation_links_ok (saLinks x)"

lemmas start_authorisation_response_defs = start_authorisation_response_fields_def start_authorisation_response_zero_def start_authorisation_response_ok_def

interpretation start_authorisation_response: dto start_authorisation_response_fields start_authorisation_response_zero start_authorisation_response_ok 3
proof
  show "refills start_authorisation_response_fields start_authorisation_response_zero x" if "start_authorisation_response_ok x" for x
    using that by (cases x) (rule refillsI, simp_all add: start_authorisation_response_defs codec)
  show "json_ok d (encode_struct start_authorisation_response_fields x)" if "start_authorisation_response_ok x" and "3 \<le> d" for d x
    using that by (intro json_ok_struct) (auto simp: start_authorisation_response_defs codec)
qed simp

definition consent_fields :: "consent field list" where
  "consent_fields =
     [struct_f account_access_fields ''access'' csAccess csAccess_update,
      str_f ''consentType'' csConsentType csConsentType_update,
      bool_f ''recurringIndicator'' csRecurringIndicator csRecurringIndicator_update,
      date_f ''validTo'' csValidTo csValidTo_update,
      int_f ''frequencyPerDay'' csFrequencyPerDay csFrequencyPerDay_update,
      str_f ''consentStatus'' csConsentStatus csConsentStatus_update]"

definition consent_zero :: consent where
  "consent_zero = \<lparr>csAccess = account_access_zero, csConsentType = [], csRecurringIndicator = False, csValidTo = zero_Date,
     csFrequencyPerDay = 0, csConsentStatus = []\<rparr>"

definition consent_ok :: "consent \<Rightarrow> bool" where
  "consent_ok x \<longleftrightarrow>
     list_all valid_utf8 [csConsentType x, csConsentStatus x] \<and> in_int64 (csFrequencyPerDay x) \<and>
     account_access_ok (csAccess x) \<and> date_ok (csValidTo x)"

lemmas consent_defs = consent_fields_def consent_zero_def consent_ok_def

interpretation consent: dto consent_fields consent_zero consent_ok 5
proof
  show "refills consent_fields consent_zero x" if "consent_ok x" for x
    using that by (cases x) (rule refillsI, simp_all add: consent_defs codec)
  show "json_ok d (encode_struct consent_fields x)" if "consent_ok x" and "5 \<le> d" for d x
    using that by (intro json_ok_struct) (auto simp: consent_defs codec)
qed simp

record consent_status_response =
  cuConsentStatus :: string

definition consent_status_response_fields :: "consent_status_response field list" where
  "consent_status_response_fields =
     [str_f ''consentStatus'' cuConsentStatus cuConsentStatus_update]"

definition consent_status_response_zero :: consent_status_response where
  "consent_status_response_zero = \<lparr>cuConsentStatus = []\<rparr>"

definition consent_status_response_ok :: "consent_status_response \<Rightarrow> bool" where
  "consent_status_response_ok x \<longleftrightarrow>
     valid_utf8 (cuConsentStatus x)"

lemmas consent_status_response_defs = consent_status_response_fields_def consent_status_response_zero_def consent_status_response_ok_def

interpretation consent_status_response: dto consent_status_response_fields consent_status_response_zero consent_status_response_ok 1
proof
  show "refills consent_status_response_fields consent_status_response_zero x" if "consent_status_response_ok x" for x
    using that by (cases x) (rule refillsI, simp_all add: consent_status_response_defs codec)
  show "json_ok d (encode_struct consent_status_response_fields x)" if "consent_status_response_ok x" and "1 \<le> d" for d x
    using that by (intro json_ok_struct) (auto simp: consent_status_response_defs codec)
qed simp

definition create_payment_request_fields :: "create_payment_request field list" where
  "create_payment_request_fields =
     [struct_f amount_fields ''instructedAmount'' cpInstructedAmount cpInstructedAmount_update,
      struct_f payment_account_reference_fields ''creditorAccount'' cpCreditorAccount cpCreditorAccount_update,
      struct_f creditor_fields ''creditor'' cpCreditor cpCreditor_update,
      struct_f payment_account_reference_fields ''debtorAccount'' cpDebtorAccount cpDebtorAccount_update,
      strs_o ''remittanceInformationUnstructured'' cpRemittance cpRemittance_update]"

definition create_payment_request_zero :: create_payment_request where
  "create_payment_request_zero = \<lparr>cpInstructedAmount = amount_zero, cpCreditorAccount = payment_account_reference_zero, cpCreditor = creditor_zero,
     cpDebtorAccount = payment_account_reference_zero, cpRemittance = []\<rparr>"

definition create_payment_request_ok :: "create_payment_request \<Rightarrow> bool" where
  "create_payment_request_ok x \<longleftrightarrow>
     amount_ok (cpInstructedAmount x) \<and> payment_account_reference_ok (cpCreditorAccount x) \<and>
     creditor_ok (cpCreditor x) \<and> payment_account_reference_ok (cpDebtorAccount x) \<and>
     list_all valid_utf8 (cpRemittance x)"

lemmas create_payment_request_defs = create_payment_request_fields_def create_payment_request_zero_def create_payment_request_ok_def

interpretation create_payment_request: dto create_payment_request_fields create_payment_request_zero create_payment_request_ok 2
proof
  show "refills create_payment_request_fields create_payment_request_zero x" if "create_payment_request_ok x" for x
    using that by (cases x) (rule refillsI, simp_all add: create_payment_request_defs codec)
  show "json_ok d (encode_struct create_payment_request_fields x)" if "create_payment_request_ok x" and "2 \<le> d" for d x
    using that by (intro json_ok_struct) (auto simp: create_payment_request_defs codec)
qed simp

record payment_links =
  plStartAuthorisation :: "href option"

definition payment_links_fields :: "payment_links field list" where
  "payment_links_fields =
     [struct_o href_fields href_zero ''startAuthorisation'' plStartAuthorisation plStartAuthorisation_update]"

definition payment_links_zero :: payment_links where
  "payment_links_zero = \<lparr>plStartAuthorisation = None\<rparr>"

definition payment_links_ok :: "payment_links \<Rightarrow> bool" where
  "payment_links_ok x \<longleftrightarrow>
     pred_option href_ok (plStartAuthorisation x)"

lemmas payment_links_defs = payment_links_fields_def payment_links_zero_def payment_links_ok_def

interpretation payment_links: dto payment_links_fields payment_links_zero payment_links_ok 2
proof
  show "refills payment_links_fields payment_links_zero x" if "payment_links_ok x" for x
    using that by (cases x) (rule refillsI, simp_all add: payment_links_defs codec)
  show "json_ok d (encode_struct payment_links_fields x)" if "payment_links_ok x" and "2 \<le> d" for d x
    using that by (intro json_ok_struct) (auto simp: payment_links_defs codec)
qed simp

record create_payment_response =
  pcTransactionStatus :: string
  pcPaymentID :: string
  pcLinks :: payment_links

definition create_payment_response_fields :: "create_payment_response field list" where
  "create_payment_response_fields =
     [str_f ''transactionStatus'' pcTransactionStatus pcTransactionStatus_update,
      str_f ''paymentId'' pcPaymentID pcPaymentID_update,
      struct_z payment_links_fields payment_links_zero ''_links'' pcLinks pcLinks_update]"

definition create_payment_response_zero :: create_payment_response where
  "create_payment_response_zero = \<lparr>pcTransactionStatus = [], pcPaymentID = [], pcLinks = payment_links_zero\<rparr>"

definition create_payment_response_ok :: "create_payment_response \<Rightarrow> bool" where
  "create_payment_response_ok x \<longleftrightarrow>
     list_all valid_utf8 [pcTransactionStatus x, pcPaymentID x] \<and> payment_links_ok (pcLinks x)"

lemmas create_payment_response_defs = create_payment_response_fields_def create_payment_response_zero_def create_payment_response_ok_def

interpretation create_payment_response: dto create_payment_response_fields create_payment_response_zero create_payment_response_ok 3
proof
  show "refills create_payment_response_fields create_payment_response_zero x" if "create_payment_response_ok x" for x
    using that by (cases x) (rule refillsI, simp_all add: create_payment_response_defs codec)
  show "json_ok d (encode_struct create_payment_response_fields x)" if "create_payment_response_ok x" and "3 \<le> d" for d x
    using that by (intro json_ok_struct) (auto simp: create_payment_response_defs codec)
qed simp

record payment_status_response =
  ptTransactionStatus :: string

definition payment_status_response_fields :: "payment_status_response field list" where
  "payment_status_response_fields =
     [str_f ''transactionStatus'' ptTransactionStatus ptTransactionStatus_update]"

definition payment_status_response_zero :: payment_status_response where
  "payment_status_response_zero = \<lparr>ptTransactionStatus = []\<rparr>"

definition payment_status_response_ok :: "payment_status_response \<Rightarrow> bool" where
  "payment_status_response_ok x \<longleftrightarrow>
     valid_utf8 (ptTransactionStatus x)"

lemmas payment_status_response_defs = payment_status_response_fields_def payment_status_response_zero_def payment_status_response_ok_def

interpretation payment_status_response: dto payment_status_response_fields payment_status_response_zero payment_status_response_ok 1
proof
  show "refills payment_status_response_fields payment_status_response_zero x" if "payment_status_response_ok x" for x
    using that by (cases x) (rule refillsI, simp_all add: payment_status_response_defs codec)
  show "json_ok d (encode_struct payment_status_response_fields x)" if "payment_status_response_ok x" and "1 \<le> d" for d x
    using that by (intro json_ok_struct) (auto simp: payment_status_response_defs codec)
qed simp

definition ob_payment_fields :: "ob_payment field list" where
  "ob_payment_fields =
     [str_f ''transactionStatus'' pmTransactionStatus pmTransactionStatus_update,
      str_f ''paymentId'' pmPaymentID pmPaymentID_update,
      struct_z amount_fields amount_zero ''instructedAmount'' pmInstructedAmount pmInstructedAmount_update,
      struct_z payment_account_reference_fields payment_account_reference_zero ''creditorAccount'' pmCreditorAccount pmCreditorAccount_update,
      struct_z creditor_fields creditor_zero ''creditor'' pmCreditor pmCreditor_update,
      struct_z payment_account_reference_fields payment_account_reference_zero ''debtorAccount'' pmDebtorAccount pmDebtorAccount_update]"

definition ob_payment_zero :: ob_payment where
  "ob_payment_zero = \<lparr>pmTransactionStatus = [], pmPaymentID = [], pmInstructedAmount = amount_zero,
     pmCreditorAccount = payment_account_reference_zero, pmCreditor = creditor_zero,
     pmDebtorAccount = payment_account_reference_zero\<rparr>"

definition ob_payment_ok :: "ob_payment \<Rightarrow> bool" where
  "ob_payment_ok x \<longleftrightarrow>
     list_all valid_utf8 [pmTransactionStatus x, pmPaymentID x] \<and> amount_ok (pmInstructedAmount x) \<and>
     payment_account_reference_ok (pmCreditorAccount x) \<and> creditor_ok (pmCreditor x) \<and>
     payment_account_reference_ok (pmDebtorAccount x)"

lemmas ob_payment_defs = ob_payment_fields_def ob_payment_zero_def ob_payment_ok_def

interpretation ob_payment: dto ob_payment_fields ob_payment_zero ob_payment_ok 2
proof
  show "refills ob_payment_fields ob_payment_zero x" if "ob_payment_ok x" for x
    using that by (cases x) (rule refillsI, simp_all add: ob_payment_defs codec)
  show "json_ok d (encode_struct ob_payment_fields x)" if "ob_payment_ok x" and "2 \<le> d" for d x
    using that by (intro json_ok_struct) (auto simp: ob_payment_defs codec)
qed simp

definition authorisations_response_fields :: "authorisations_response field list" where
  "authorisations_response_fields =
     [strs_f ''authorisationIds'' AuthorisationIDs AuthorisationIDs_update]"

definition authorisations_response_zero :: authorisations_response where
  "authorisations_response_zero = \<lparr>AuthorisationIDs = []\<rparr>"

definition authorisations_response_ok :: "authorisations_response \<Rightarrow> bool" where
  "authorisations_response_ok x \<longleftrightarrow>
     list_all valid_utf8 (AuthorisationIDs x)"

lemmas authorisations_response_defs = authorisations_response_fields_def authorisations_response_zero_def authorisations_response_ok_def

interpretation authorisations_response: dto authorisations_response_fields authorisations_response_zero authorisations_response_ok 2
proof
  show "refills authorisations_response_fields authorisations_response_zero x" if "authorisations_response_ok x" for x
    using that by (cases x) (rule refillsI, simp_all add: authorisations_response_defs codec)
  show "json_ok d (encode_struct authorisations_response_fields x)" if "authorisations_response_ok x" and "2 \<le> d" for d x
    using that by (intro json_ok_struct) (auto simp: authorisations_response_defs codec)
qed simp

record authorisation_status_response =
  asSCAStatus :: string

definition authorisation_status_response_fields :: "authorisation_status_response field list" where
  "authorisation_status_response_fields =
     [str_f ''scaStatus'' asSCAStatus asSCAStatus_update]"

definition authorisation_status_response_zero :: authorisation_status_response where
  "authorisation_status_response_zero = \<lparr>asSCAStatus = []\<rparr>"

definition authorisation_status_response_ok :: "authorisation_status_response \<Rightarrow> bool" where
  "authorisation_status_response_ok x \<longleftrightarrow>
     valid_utf8 (asSCAStatus x)"

lemmas authorisation_status_response_defs = authorisation_status_response_fields_def authorisation_status_response_zero_def authorisation_status_response_ok_def

interpretation authorisation_status_response: dto authorisation_status_response_fields authorisation_status_response_zero authorisation_status_response_ok 1
proof
  show "refills authorisation_status_response_fields authorisation_status_response_zero x" if "authorisation_status_response_ok x" for x
    using that by (cases x) (rule refillsI, simp_all add: authorisation_status_response_defs codec)
  show "json_ok d (encode_struct authorisation_status_response_fields x)" if "authorisation_status_response_ok x" and "1 \<le> d" for d x
    using that by (intro json_ok_struct) (auto simp: authorisation_status_response_defs codec)
qed simp

definition certificate_request_fields :: "certificate_request field list" where
  "certificate_request_fields =
     [str_f ''organization'' cqOrganization cqOrganization_update,
      str_f ''contactPerson'' cqContactPerson cqContactPerson_update, str_f ''phone'' cqPhone cqPhone_update,
      str_f ''email'' cqEmail cqEmail_update, str_f ''description'' cqDescription cqDescription_update,
      str_f ''edrpou'' cqEDRPOU cqEDRPOU_update, str_f ''csrPem'' cqCSRPEM cqCSRPEM_update]"

definition certificate_request_zero :: certificate_request where
  "certificate_request_zero = \<lparr>cqOrganization = [], cqContactPerson = [], cqPhone = [], cqEmail = [], cqDescription = [], cqEDRPOU = [],
     cqCSRPEM = []\<rparr>"

definition certificate_request_ok :: "certificate_request \<Rightarrow> bool" where
  "certificate_request_ok x \<longleftrightarrow>
     list_all valid_utf8 [cqOrganization x, cqContactPerson x, cqPhone x, cqEmail x, cqDescription x, cqEDRPOU x, cqCSRPEM x]"

lemmas certificate_request_defs = certificate_request_fields_def certificate_request_zero_def certificate_request_ok_def

interpretation certificate_request: dto certificate_request_fields certificate_request_zero certificate_request_ok 1
proof
  show "refills certificate_request_fields certificate_request_zero x" if "certificate_request_ok x" for x
    using that by (cases x) (rule refillsI, simp_all add: certificate_request_defs codec)
  show "json_ok d (encode_struct certificate_request_fields x)" if "certificate_request_ok x" and "1 \<le> d" for d x
    using that by (intro json_ok_struct) (auto simp: certificate_request_defs codec)
qed simp

record certificate_request_response =
  ceStatus :: string

definition certificate_request_response_fields :: "certificate_request_response field list" where
  "certificate_request_response_fields =
     [str_f ''status'' ceStatus ceStatus_update]"

definition certificate_request_response_zero :: certificate_request_response where
  "certificate_request_response_zero = \<lparr>ceStatus = []\<rparr>"

definition certificate_request_response_ok :: "certificate_request_response \<Rightarrow> bool" where
  "certificate_request_response_ok x \<longleftrightarrow>
     valid_utf8 (ceStatus x)"

lemmas certificate_request_response_defs = certificate_request_response_fields_def certificate_request_response_zero_def certificate_request_response_ok_def

interpretation certificate_request_response: dto certificate_request_response_fields certificate_request_response_zero certificate_request_response_ok 1
proof
  show "refills certificate_request_response_fields certificate_request_response_zero x" if "certificate_request_response_ok x" for x
    using that by (cases x) (rule refillsI, simp_all add: certificate_request_response_defs codec)
  show "json_ok d (encode_struct certificate_request_response_fields x)" if "certificate_request_response_ok x" and "1 \<le> d" for d x
    using that by (intro json_ok_struct) (auto simp: certificate_request_response_defs codec)
qed simp

record certificate_status =
  ctStatus :: string
  ctCertificate :: string
  ctRejectReason :: string

definition certificate_status_fields :: "certificate_status field list" where
  "certificate_status_fields =
     [str_f ''status'' ctStatus ctStatus_update, str_o ''certificate'' ctCertificate ctCertificate_update,
      str_o ''rejectReason'' ctRejectReason ctRejectReason_update]"

definition certificate_status_zero :: certificate_status where
  "certificate_status_zero = \<lparr>ctStatus = [], ctCertificate = [], ctRejectReason = []\<rparr>"

definition certificate_status_ok :: "certificate_status \<Rightarrow> bool" where
  "certificate_status_ok x \<longleftrightarrow>
     list_all valid_utf8 [ctStatus x, ctCertificate x, ctRejectReason x]"

lemmas certificate_status_defs = certificate_status_fields_def certificate_status_zero_def certificate_status_ok_def

interpretation certificate_status: dto certificate_status_fields certificate_status_zero certificate_status_ok 1
proof
  show "refills certificate_status_fields certificate_status_zero x" if "certificate_status_ok x" for x
    using that by (cases x) (rule refillsI, simp_all add: certificate_status_defs codec)
  show "json_ok d (encode_struct certificate_status_fields x)" if "certificate_status_ok x" and "1 \<le> d" for d x
    using that by (intro json_ok_struct) (auto simp: certificate_status_defs codec)
qed simp

definition accounts_response_fields :: "account_details list accounts_response field list" where
  "accounts_response_fields =
     [structs_l account_details_fields account_details_zero ''accounts'' outAccounts outAccounts_update]"

definition accounts_response_zero :: "account_details list accounts_response" where
  "accounts_response_zero = \<lparr>outAccounts = []\<rparr>"

definition accounts_response_ok :: "account_details list accounts_response \<Rightarrow> bool" where
  "accounts_response_ok x \<longleftrightarrow>
     list_all account_details_ok (outAccounts x)"

lemmas accounts_response_defs = accounts_response_fields_def accounts_response_zero_def accounts_response_ok_def

interpretation accounts_response: dto accounts_response_fields accounts_response_zero accounts_response_ok 6
proof
  show "refills accounts_response_fields accounts_response_zero x" if "accounts_response_ok x" for x
    using that by (cases x) (rule refillsI, simp_all add: accounts_response_defs codec)
  show "json_ok d (encode_struct accounts_response_fields x)" if "accounts_response_ok x" and "6 \<le> d" for d x
    using that by (intro json_ok_struct) (auto simp: accounts_response_defs codec)
qed simp

definition balances_response_fields :: "balances_response field list" where
  "balances_response_fields =
     [struct_f account_reference_fields ''account'' blAccount blAccount_update,
      structs_l ob_balance_fields ob_balance_zero ''balances'' blBalances blBalances_update]"

definition balances_response_zero :: balances_response where
  "balances_response_zero = \<lparr>blAccount = account_reference_zero, blBalances = []\<rparr>"

definition balances_response_ok :: "balances_response \<Rightarrow> bool" where
  "balances_response_ok x \<longleftrightarrow>
     account_reference_ok (blAccount x) \<and> list_all ob_balance_ok (blBalances x)"

lemmas balances_response_defs = balances_response_fields_def balances_response_zero_def balances_response_ok_def

interpretation balances_response: dto balances_response_fields balances_response_zero balances_response_ok 4
proof
  show "refills balances_response_fields balances_response_zero x" if "balances_response_ok x" for x
    using that by (cases x) (rule refillsI, simp_all add: balances_response_defs codec)
  show "json_ok d (encode_struct balances_response_fields x)" if "balances_response_ok x" and "4 \<le> d" for d x
    using that by (intro json_ok_struct) (auto simp: balances_response_defs codec)
qed simp

definition transactions_response_fields :: "time_format \<Rightarrow> (account_reference, ob_transaction) transactions_response field list" where
  "transactions_response_fields tf =
     [struct_f account_reference_fields ''account'' outAccount outAccount_update,
      struct_o (account_report_fields tf) account_report_zero ''transactions'' reportTransactions reportTransactions_update]"

definition transactions_response_zero :: "(account_reference, ob_transaction) transactions_response" where
  "transactions_response_zero = \<lparr>outAccount = account_reference_zero, reportTransactions = None\<rparr>"

definition transactions_response_ok :: "time_format \<Rightarrow> (account_reference, ob_transaction) transactions_response \<Rightarrow> bool" where
  "transactions_response_ok tf x \<longleftrightarrow>
     account_reference_ok (outAccount x) \<and> pred_option (account_report_ok tf) (reportTransactions x)"

lemmas transactions_response_defs = transactions_response_fields_def transactions_response_zero_def transactions_response_ok_def

interpretation transactions_response: dto "transactions_response_fields tf" transactions_response_zero "transactions_response_ok tf" 5 for tf
proof
  show "refills (transactions_response_fields tf) transactions_response_zero x" if "transactions_response_ok tf x" for x
    using that by (cases x) (rule refillsI, simp_all add: transactions_response_defs codec)
  show "json_ok d (encode_struct (transactions_response_fields tf) x)" if "transactions_response_ok tf x" and "5 \<le> d" for d x
    using that by (intro json_ok_struct) (auto simp: transactions_response_defs codec)
qed simp

section \<open>Whole calls\<close>

lemma new_payment_target:
  assumes "\<not> badPathSegment product"
  defines "uri \<equiv> paymentsPath @ ''/'' @ PathEscape product"
  shows "target_ok uri" and "cut (CHR ''?'') uri = (uri, [])"
    and "split_on (CHR ''/'') uri = [[], ''ext'', ''v2'', ''payments'', PathEscape product]"
    and "set (split_on (CHR ''/'') uri) \<inter> dots = {}"
proof -
  have u: "uri = ''/ext/v2/payments'' @ CHR ''/'' # PathEscape product" by (simp add: uri_def ob_paths)
  have "escaped ''/ext/v2/payments/''" by (rule escaped_plain, simp add: is_alnum_def is_alpha_def)
  then have "escaped (''/ext/v2/payments/'' @ PathEscape product)" by (intro escaped_append escaped_PathEscape)
  then have "escaped uri" by (simp add: u)
  from target_escaped [OF this, of "[]"] u show "target_ok uri" "cut (CHR ''?'') uri = (uri, [])"
    using Encode_Nil_iff [of "[]"] by (simp_all add: with_query_def del: Encode_Nil_iff)
  show sp: "split_on (CHR ''/'') uri = [[], ''ext'', ''v2'', ''payments'', PathEscape product]"
    unfolding u split_slash split_PathEscape by simp
  show "set (split_on (CHR ''/'') uri) \<inter> dots = {}"
    unfolding sp using escaped_segment [OF assms(1)] by (auto simp: dots_def)
qed

text \<open>
  A payment order goes out once and whole. Whatever the transport answers, a \<open>CreatePayment\<close> whose texts are UTF-8
  causes at most one POST (unless the client is told to repeat unsafe requests), to the base host, for exactly that
  product, with the payer's address, and its body decodes to exactly that order; a bad product or a missing address is
  refused locally. If the last answer is the encoding of a response, that is what the caller gets.
\<close>

lemma CreatePayment_carries_the_order:
  assumes "ob_client env pinned rand_Read a c sent" and "go_targets env" and "baseURL c = Some base" and "Opaque base = []"
    and ok: "create_payment_request_ok r"
    and dec: "decodes_with (\<lambda>j. decode_struct create_payment_response_fields j create_payment_response_zero) env"
    and call: "CreatePayment env ua c (\<lambda>r. Marshal_json (encode_struct create_payment_request_fields r)) product (Some r) opts w = (res, w')"
  shows "\<exists>R rs. sent w' = sent w @ map (\<lambda>x. (R, x)) rs \<and> (\<not> unsafeRetries c \<longrightarrow> length rs \<le> 1) \<and>
    (rs \<noteq> [] \<longrightarrow> \<not> badPathSegment product \<and> IPAddress (PSU opts) \<noteq> [] \<and> rMethod R = ''POST'' \<and> Host (rURL R) = Host base \<and>
      split_on (CHR ''/'') (Path (rURL R)) = [[], ''ext'', ''v2'', ''payments'', PathEscape product] \<and>
      rHeader R ''X-Request-Id'' = request_id pinned rand_Read a w \<and> rHeader R ''Psu-Ip-Address'' = IPAddress (PSU opts) \<and>
      carries (\<lambda>j. decode_struct create_payment_request_fields j create_payment_request_zero) r R) \<and>
    (\<forall>out1 x. res = Inr out1 \<and> create_payment_response_ok x \<longrightarrow>
      (\<exists>R' resp. last (sent w') = (R', Inr resp) \<and> StatusCode resp = 201 \<and>
        (answers (encode_struct create_payment_response_fields) resp x \<longrightarrow> out1 = JsonOut x)))"
proof (cases "badPathSegment product \<or> IPAddress (PSU opts) = []")
  case True
  then have "w' = w" "\<forall>out1. res \<noteq> Inr out1" using call by (auto simp: CreatePayment_def split: if_splits)
  then show ?thesis by (intro exI [of _ undefined] exI [of _ "[]"]) simp
next
  case False
  let ?uri = "paymentsPath @ ''/'' @ PathEscape product"
  let ?hs = "PSU_apply (PSU opts) @ setIfNotEmpty HeaderTPPRedirectURI (TPPRedirectURI opts)"
  let ?m = "Marshal_json (encode_struct create_payment_request_fields r)"
  have g: "\<not> badPathSegment product" using False by simp
  note t = new_payment_target [OF g]
  obtain b where b: "?m = Inr b" using create_payment_request.marshals [OF ok] by blast
  have s: "send_json env ua c ''POST'' ?uri ?m ?hs TJSON [201] w = (res, w')"
    using call False by (simp add: CreatePayment_def)
  have d: "dispatch env ua c ''POST'' ?uri (Some b) ?hs TJSON [201] w = (res, w')" using s by (simp add: send_json_def b)
  have dots: "set (split_on (CHR ''/'') (fst (cut (CHR ''?'') ?uri))) \<inter> dots = {}" unfolding t(2) fst_conv by (rule t(4))
  have hs: "''X-Request-Id'' \<notin> set (map fst ?hs)" by (auto simp: PSU_apply_def setIfNotEmpty_def)
  have hv: "fold (\<lambda>(k, v) h. h(k := v)) ?hs (\<lambda>_. []) ''Psu-Ip-Address'' = IPAddress (PSU opts)"
    using False by (simp add: PSU_apply_def setIfNotEmpty_def)
  have rp: "\<not> repeatable c ''POST'' ?hs" if "\<not> unsafeRetries c"
    using that by (auto simp: repeatable_def PSU_apply_def setIfNotEmpty_def)
  have o: "observed env c sent" using assms(1) by (simp add: ob_client_def)
  from ob_dispatch_sends [OF assms(1,2) t(1) assms(3,4) dots hs d] obtain R rs
    where R: "sent w' = sent w @ map (\<lambda>r. (R, r)) rs" "length rs \<le> (if repeatable c ''POST'' ?hs then attempts_of (retry c) else 1)"
      "rs \<noteq> [] \<longrightarrow> rMethod R = ''POST'' \<and> rBody R = sent_body (Some b) \<and> Host (rURL R) = Host base \<and> Path (rURL R) = ?uri \<and>
         rHeader R ''X-Request-Id'' = request_id pinned rand_Read a w \<and> rHeader R ''Psu-Ip-Address'' = IPAddress (PSU opts)"
    unfolding t(2) fst_conv using hv by auto
  have body: "carries (\<lambda>j. decode_struct create_payment_request_fields j create_payment_request_zero) r R" if "rBody R = sent_body (Some b)"
  proof -
    have u: "Unmarshal_json (\<lambda>j. decode_struct create_payment_request_fields j create_payment_request_zero) b = Inr r"
      by (rule create_payment_request.text_back_any [OF ok b])
    with Unmarshal_nothing have "b \<noteq> []" by metis
    with u that show ?thesis by (simp add: carries_def sent_body_def)
  qed
  show ?thesis
  proof (rule exI [of _ R], rule exI [of _ rs], intro conjI allI impI)
    fix out1 x
    assume x: "res = Inr out1 \<and> create_payment_response_ok x"
    with send_json_decodes [OF o] s obtain R' resp where e: "last (sent w') = (R', Inr resp)" "StatusCode resp = 201"
      "decode_body env TJSON resp Untouched = (None, out1)" by fastforce
    with create_payment_response.decoded_answer [OF dec _ _ e(3)] x
    show "\<exists>R' resp. last (sent w') = (R', Inr resp) \<and> StatusCode resp = 201 \<and>
        (answers (encode_struct create_payment_response_fields) resp x \<longrightarrow> out1 = JsonOut x)" by blast
  qed (use R rp body False t(3) in auto)
qed

text \<open>The messages that the bank puts into an error body are what \<open>Messages\<close> finds in the error.\<close>

definition decode_messages :: "string \<Rightarrow> client_message list option" where
  "decode_messages body =
     (case Unmarshal_json (\<lambda>j. decode_struct error_body_fields j error_body_zero) body of
        Inl e \<Rightarrow> None
      | Inr x \<Rightarrow> Some (case ebAPIClientMessages x of None \<Rightarrow> [] | Some ms \<Rightarrow> ms))"

lemma Messages_returns_what_was_sent:
  assumes "error_body_ok x" and "Marshal_json (encode_struct error_body_fields x) = Inr b" and "ebAPIClientMessages x = Some ms"
    and "as_api_error e = Some api" and "apiBody api = b"
  shows "Messages decode_messages (Some e) = ms"
proof -
  have u: "Unmarshal_json (\<lambda>j. decode_struct error_body_fields j error_body_zero) b = Inr x"
    by (rule error_body.text_back_any [OF assms(1,2)])
  with Unmarshal_nothing have "b \<noteq> []" by metis
  with u assms(3-5) show ?thesis by (simp add: Messages_def decode_messages_def)
qed

end
