(* ===== verification/Auth_Log.thy ===== *)
theory Auth_Log
  imports Log_Redaction Corp_Auth Business_Client Acquiring_Client Open_Banking_Log
begin

text \<open>
  What the authorizers of the clients show of themselves in a log: the \<open>LogValue\<close> methods of the token holders and of
  the corporate key (\<open>auth/personal.go\<close>, \<open>auth/corporate.go\<close>, \<open>acquiring/client.go\<close>, \<open>business/client.go\<close>,
  \<open>openbanking/client.go\<close>). A token holder is its token. The lemma says when a log tells two credentials apart.
\<close>

definition Personal_LogValue :: "string \<Rightarrow> slog" where
  "Personal_LogValue token = SString ''auth.Personal{token:***}''"

definition AcqTokenAuth_LogValue :: "string \<Rightarrow> slog" where
  "AcqTokenAuth_LogValue token = SString ''acquiring.TokenAuth{Token:***}''"

definition TokenAuth_LogValue :: "string \<Rightarrow> slog" where
  "TokenAuth_LogValue token = SString ''business.TokenAuth{Token:***}''"

definition RequestIDAuth_LogValue :: "'r request_id_auth \<Rightarrow> slog" where
  "RequestIDAuth_LogValue a = SString ''openbanking.RequestIDAuth{}''"

definition CorpAuthMaker_LogValue :: "'k corp_auth_maker \<Rightarrow> slog" where
  "CorpAuthMaker_LogValue c = SGroup [(''KeyID'', SString (makerKeyID c)), (''privateKey'', SString ''***'')]"

lemma credentials_stay_out_of_logs:
  "Personal_LogValue t = Personal_LogValue t'" "AcqTokenAuth_LogValue t = AcqTokenAuth_LogValue t'"
  "TokenAuth_LogValue t = TokenAuth_LogValue t'"
  "CorpAuthMaker_LogValue c = CorpAuthMaker_LogValue c' \<longleftrightarrow> makerKeyID c = makerKeyID c'"
  by (simp_all add: Personal_LogValue_def AcqTokenAuth_LogValue_def TokenAuth_LogValue_def CorpAuthMaker_LogValue_def)

end
