(* ===== verification/Bank_Types.thy ===== *)
theory Bank_Types
  imports Json_Money Money_Float Log_Redaction Open_API Webhook_Handler
begin

text \<open>
  The wire format of the Open API (\<open>bank/data.go\<close>, \<open>bank/serverkey.go\<close>, \<open>bank/currency.go\<close>, \<open>webhook/parse.go\<close>, \<open>personal/client.go\<close>): each
  struct with its tags. Amounts are bare numbers beside a currency code, which \<open>UnmarshalJSON\<close> puts on them; \<open>X_of\<close>
  is the decoding of a value of the type \<open>X\<close> with its \<open>UnmarshalJSON\<close>. A list is decoded whole, so that a statement
  with one bad row is an error.
\<close>

section \<open>Numbers of 32 bits\<close>

definition json_int32 :: "json \<Rightarrow> int option" where
  "json_int32 j = (case json_int j of Some n \<Rightarrow> if - (2 ^ 31) \<le> n \<and> n < 2 ^ 31 then Some n else None | None \<Rightarrow> None)"

definition int32_f where "int32_f = plain_field False 0 (\<lambda>n. JNum (Itoa n)) json_int32"

definition int32_ok :: "int \<Rightarrow> bool" where
  "int32_ok n \<longleftrightarrow> - (2 ^ 31) \<le> n \<and> n < 2 ^ 31"

lemma int32_codec [codec]:
  "int32_ok (get r) \<Longrightarrow> refill (int32_f n get upd # fs) r z = refill fs r (upd (\<lambda>_. get r) z)"
  "fst (int32_f n gt ut) = n"
  "ascii n \<Longrightarrow> field_ok d r (int32_f n get upd)"
proof -
  assume ok: "int32_ok (get r)"
  then have "in_int64 (get r)" by (simp add: int32_ok_def in_int64_def int64_min_def int64_max_def)
  then have "Atoi (Itoa (get r)) = Some (get r)" by (rule Atoi_Itoa)
  with ok show "refill (int32_f n get upd # fs) r z = refill fs r (upd (\<lambda>_. get r) z)"
    by (simp add: int32_f_def refill_plain json_int32_def json_int_def int32_ok_def)
qed (simp_all add: int32_f_def codec Itoa_number)

section \<open>Statement rows\<close>

definition transaction_fields :: "seconds_codec \<Rightarrow> transaction field list" where
  "transaction_fields ep =
     [str_f ''id'' ID ID_update, seconds_f ep ''time'' Time Time_update, str_f ''description'' Description Description_update,
      int32_f ''mcc'' MCC MCC_update, int32_f ''originalMcc'' OriginalMCC OriginalMCC_update, bool_f ''hold'' Hold Hold_update,
      money_f ''amount'' Amount Amount_update, money_f ''operationAmount'' OperationAmount OperationAmount_update,
      int_f ''currencyCode'' Currency Currency_update, money_f ''commissionRate'' CommissionRate CommissionRate_update,
      money_f ''cashbackAmount'' CashbackAmount CashbackAmount_update, money_f ''balance'' Balance Balance_update,
      str_f ''comment'' Comment Comment_update, str_f ''receiptId'' ReceiptID ReceiptID_update,
      str_f ''invoiceId'' InvoiceID InvoiceID_update, str_f ''counterEdrpou'' EDRPOU EDRPOU_update,
      str_f ''counterIban'' IBAN IBAN_update, str_f ''counterName'' CounterName CounterName_update]"

definition transaction_zero :: transaction where
  "transaction_zero = \<lparr>ID = [], Time = zero_time, Description = [], MCC = 0, OriginalMCC = 0, Hold = False,
     Amount = Money_New 0 0, OperationAmount = Money_New 0 0, Currency = 0, CommissionRate = Money_New 0 0,
     CashbackAmount = Money_New 0 0, Balance = Money_New 0 0, Comment = [], ReceiptID = [], InvoiceID = [], EDRPOU = [],
     IBAN = [], CounterName = []\<rparr>"

definition transaction_ok :: "seconds_codec \<Rightarrow> transaction \<Rightarrow> bool" where
  "transaction_ok ep x \<longleftrightarrow>
     list_all valid_utf8 [ID x, Description x, Comment x, ReceiptID x, InvoiceID x, EDRPOU x, IBAN x, CounterName x] \<and>
     seconds_ok ep (Time x) \<and> int32_ok (MCC x) \<and> int32_ok (OriginalMCC x) \<and> in_int64 (Currency x) \<and>
     list_all (\<lambda>m. in_int64 (Minor m) \<and> Code m = Currency x)
       [Amount x, OperationAmount x, CommissionRate x, CashbackAmount x, Balance x]"

definition Transaction_of :: "seconds_codec \<Rightarrow> json \<Rightarrow> transaction option" where
  "Transaction_of ep j = map_option
     (\<lambda>r. let c = Currency r
          in r\<lparr>Amount := set_code c (Amount r), OperationAmount := set_code c (OperationAmount r),
               CommissionRate := set_code c (CommissionRate r), CashbackAmount := set_code c (CashbackAmount r),
               Balance := set_code c (Balance r)\<rparr>)
     (decode_struct (transaction_fields ep) j transaction_zero)"

lemma Transaction_back:
  assumes "transaction_ok ep x"
  shows "Transaction_of ep (encode_struct (transaction_fields ep) x) = Some x"
proof -
  have d: "distinct (map fst (transaction_fields ep))" by (simp add: transaction_fields_def codec)
  show ?thesis
    using assms d
    by (cases x) (simp add: Transaction_of_def decode_encode_struct transaction_fields_def transaction_zero_def codec transaction_ok_def Money_New_def
        set_code_def money_eqI)
qed

lemma transaction_printed: "transaction_ok ep x \<Longrightarrow> 1 \<le> d \<Longrightarrow> json_ok d (encode_struct (transaction_fields ep) x)"
  by (rule json_ok_struct) (auto simp: transaction_ok_def transaction_fields_def codec)

lemma Transaction_UnmarshalJSON_of:
  "Transaction_UnmarshalJSON (Unmarshal_json (\<lambda>j. decode_struct (transaction_fields ep) j transaction_zero)) data
   = Unmarshal_json (Transaction_of ep) data"
  by (auto simp: Unmarshal_json_def Transaction_UnmarshalJSON_def Transaction_of_def Let_def split: option.split)

section \<open>Lists\<close>

text \<open>A body that is an array: the statement, the rates.\<close>

definition list_enc :: "('a \<Rightarrow> json) \<Rightarrow> 'a list \<Rightarrow> json" where
  "list_enc enc xs = JArr (map enc xs)"

definition list_of :: "(json \<Rightarrow> 'a option) \<Rightarrow> json \<Rightarrow> 'a list option" where
  "list_of dec j = (if j = JNull then Some [] else json_list dec j)"

lemma list_back: "list_all (\<lambda>x. dec (enc x) = Some x) xs \<Longrightarrow> list_of dec (list_enc enc xs) = Some xs"
  by (induction xs) (auto simp: list_of_def list_enc_def json_list_def)

lemma list_codec:
  assumes "\<And>x. ok x \<Longrightarrow> dec (enc x) = Some x" and "\<And>x. ok x \<Longrightarrow> json_ok 9999 (enc x)"
  shows "json_codec (list_enc enc) (list_of dec) (list_all ok)"
proof
  show "list_of dec (list_enc enc xs) = Some xs" if "list_all ok xs" for xs
    using that assms(1) by (intro list_back) (simp add: list_all_iff)
  show "json_ok maxNestingDepth (list_enc enc xs)" if "list_all ok xs" for xs
    using that assms(2) by (simp add: list_enc_def maxNestingDepth_def list_all_iff)
qed

interpretation transaction: json_codec "encode_struct (transaction_fields ep)" "Transaction_of ep" "transaction_ok ep" for ep
  by unfold_locales (simp_all add: Transaction_back transaction_printed maxNestingDepth_def)

interpretation transactions: json_codec "list_enc (encode_struct (transaction_fields ep))" "list_of (Transaction_of ep)"
  "list_all (transaction_ok ep)" for ep
  by (rule list_codec) (simp_all add: Transaction_back transaction_printed)

section \<open>Accounts, jars and the client\<close>

definition account_fields :: "account field list" where
  "account_fields =
     [str_f ''id'' accAccountID accAccountID_update, str_f ''sendId'' accSendID accSendID_update,
      money_f ''balance'' accBalance accBalance_update, money_f ''creditLimit'' accCreditLimit accCreditLimit_update,
      int_f ''currencyCode'' accCurrency accCurrency_update, str_f ''cashbackType'' accCashbackType accCashbackType_update,
      strs_f ''maskedPan'' accCardMasks accCardMasks_update, str_f ''type'' accType accType_update, str_f ''iban'' accIBAN accIBAN_update]"

definition account_zero :: account where
  "account_zero = \<lparr>accAccountID = [], accSendID = [], accBalance = Money_New 0 0, accCreditLimit = Money_New 0 0,
     accCurrency = 0, accCashbackType = [], accCardMasks = [], accType = [], accIBAN = []\<rparr>"

definition account_ok :: "account \<Rightarrow> bool" where
  "account_ok a \<longleftrightarrow> list_all valid_utf8 [accAccountID a, accSendID a, accCashbackType a, accType a, accIBAN a] \<and>
     list_all valid_utf8 (accCardMasks a) \<and> in_int64 (accCurrency a) \<and>
     list_all (\<lambda>m. in_int64 (Minor m) \<and> Code m = accCurrency a) [accBalance a, accCreditLimit a]"

definition Account_of :: "json \<Rightarrow> account option" where
  "Account_of j = map_option
     (\<lambda>a. a\<lparr>accBalance := set_code (accCurrency a) (accBalance a), accCreditLimit := set_code (accCurrency a) (accCreditLimit a)\<rparr>)
     (decode_struct account_fields j account_zero)"

definition jar_fields :: "jar field list" where
  "jar_fields =
     [str_f ''id'' jarID jarID_update, str_f ''sendId'' jarSendID jarSendID_update, str_f ''title'' jarTitle jarTitle_update,
      str_f ''description'' jarDescription jarDescription_update, int_f ''currencyCode'' jarCurrency jarCurrency_update,
      money_f ''balance'' jarBalance jarBalance_update, money_f ''goal'' jarGoal jarGoal_update]"

definition jar_zero :: jar where
  "jar_zero = \<lparr>jarID = [], jarSendID = [], jarTitle = [], jarDescription = [], jarCurrency = 0,
     jarBalance = Money_New 0 0, jarGoal = Money_New 0 0\<rparr>"

definition jar_ok :: "jar \<Rightarrow> bool" where
  "jar_ok j \<longleftrightarrow> list_all valid_utf8 [jarID j, jarSendID j, jarTitle j, jarDescription j] \<and> in_int64 (jarCurrency j) \<and>
     list_all (\<lambda>m. in_int64 (Minor m) \<and> Code m = jarCurrency j) [jarBalance j, jarGoal j]"

definition Jar_of :: "json \<Rightarrow> jar option" where
  "Jar_of j = map_option
     (\<lambda>j. j\<lparr>jarBalance := set_code (jarCurrency j) (jarBalance j), jarGoal := set_code (jarCurrency j) (jarGoal j)\<rparr>)
     (decode_struct jar_fields j jar_zero)"

lemmas client_data_defs = account_fields_def account_zero_def account_ok_def jar_fields_def jar_zero_def jar_ok_def

lemma client_data_names: "distinct (map fst account_fields)" "distinct (map fst jar_fields)"
  by (simp_all add: client_data_defs codec)

lemma Account_back: "account_ok a \<Longrightarrow> Account_of (encode_struct account_fields a) = Some a"
  by (cases a) (simp add: Account_of_def decode_encode_struct client_data_names, simp add: client_data_defs codec Money_New_def
      set_code_def money_eqI)

lemma Jar_back: "jar_ok j \<Longrightarrow> Jar_of (encode_struct jar_fields j) = Some j"
  by (cases j) (simp add: Jar_of_def decode_encode_struct client_data_names, simp add: client_data_defs codec Money_New_def
      set_code_def money_eqI)

lemma client_data_printed:
  "account_ok a \<Longrightarrow> 2 \<le> d \<Longrightarrow> json_ok d (encode_struct account_fields a)"
  "jar_ok j \<Longrightarrow> 1 \<le> d \<Longrightarrow> json_ok d (encode_struct jar_fields j)"
  by (rule json_ok_struct, simp, simp add: client_data_defs codec)+

lemma Client_data_UnmarshalJSON_of:
  "Account_UnmarshalJSON (Unmarshal_json (\<lambda>j. decode_struct account_fields j account_zero)) data = Unmarshal_json Account_of data"
  "Jar_UnmarshalJSON (Unmarshal_json (\<lambda>j. decode_struct jar_fields j jar_zero)) data = Unmarshal_json Jar_of data"
  by (auto simp: Unmarshal_json_def Account_UnmarshalJSON_def Account_of_def Jar_UnmarshalJSON_def Jar_of_def split: option.split)

abbreviation accounts_f :: "string \<Rightarrow> ('r \<Rightarrow> account list) \<Rightarrow> ((account list \<Rightarrow> account list) \<Rightarrow> 'r \<Rightarrow> 'r) \<Rightarrow> 'r field" where
  "accounts_f \<equiv> list_f (encode_struct account_fields) Account_of"

abbreviation jars_f :: "string \<Rightarrow> ('r \<Rightarrow> jar list) \<Rightarrow> ((jar list \<Rightarrow> jar list) \<Rightarrow> 'r \<Rightarrow> 'r) \<Rightarrow> 'r field" where
  "jars_f \<equiv> list_f (encode_struct jar_fields) Jar_of"

lemma client_lists:
  "list_all account_ok as \<Longrightarrow> list_all (\<lambda>a. Account_of (encode_struct account_fields a) = Some a) as"
  "list_all jar_ok js \<Longrightarrow> list_all (\<lambda>j. Jar_of (encode_struct jar_fields j) = Some j) js"
  "list_all account_ok as \<Longrightarrow> 2 \<le> d \<Longrightarrow> list_all (\<lambda>a. json_ok d (encode_struct account_fields a)) as"
  "list_all jar_ok js \<Longrightarrow> 1 \<le> d \<Longrightarrow> list_all (\<lambda>j. json_ok d (encode_struct jar_fields j)) js"
  by (auto simp: list_all_iff Account_back Jar_back client_data_printed)

definition managed_client_fields :: "managed_client field list" where
  "managed_client_fields =
     [str_f ''clientId'' mcID mcID_update, str_f ''tin'' mcTIN mcTIN_update, str_f ''name'' mcName mcName_update,
      accounts_f ''accounts'' mcAccounts mcAccounts_update]"

definition managed_client_zero :: managed_client where
  "managed_client_zero = \<lparr>mcID = [], mcTIN = [], mcName = [], mcAccounts = []\<rparr>"

definition managed_client_ok :: "managed_client \<Rightarrow> bool" where
  "managed_client_ok m \<longleftrightarrow> list_all valid_utf8 [mcID m, mcTIN m, mcName m] \<and> list_all account_ok (mcAccounts m)"

interpretation managed_client: dto managed_client_fields managed_client_zero managed_client_ok 4
proof
  show "refills managed_client_fields managed_client_zero x" if "managed_client_ok x" for x
    using that by (cases x) (rule refillsI, simp_all add: managed_client_ok_def managed_client_fields_def managed_client_zero_def codec client_lists)
  show "json_ok d (encode_struct managed_client_fields x)" if "managed_client_ok x" and "4 \<le> d" for d x
    using that by (intro json_ok_struct) (auto simp: managed_client_ok_def managed_client_fields_def codec client_lists)
qed simp

definition client_info_fields :: "client_info field list" where
  "client_info_fields =
     [str_f ''clientId'' ciID ciID_update, str_f ''name'' ciName ciName_update, str_f ''webHookUrl'' ciWebHookURL ciWebHookURL_update,
      str_o ''permissions'' ciPermissions ciPermissions_update, accounts_f ''accounts'' ciAccounts ciAccounts_update,
      jars_f ''jars'' ciJars ciJars_update,
      structs_o managed_client_fields managed_client_zero ''managedClients'' ciManagedClients ciManagedClients_update]"

definition client_info_zero :: client_info where
  "client_info_zero = \<lparr>ciID = [], ciName = [], ciWebHookURL = [], ciPermissions = [], ciAccounts = [], ciJars = [],
     ciManagedClients = []\<rparr>"

definition client_info_ok :: "client_info \<Rightarrow> bool" where
  "client_info_ok c \<longleftrightarrow> list_all valid_utf8 [ciID c, ciName c, ciWebHookURL c, ciPermissions c] \<and>
     list_all account_ok (ciAccounts c) \<and> list_all jar_ok (ciJars c) \<and> list_all managed_client_ok (ciManagedClients c)"

interpretation client_info: dto client_info_fields client_info_zero client_info_ok 6
proof
  show "refills client_info_fields client_info_zero x" if "client_info_ok x" for x
    using that by (cases x) (rule refillsI, simp_all add: client_info_ok_def client_info_fields_def client_info_zero_def codec
        client_lists managed_client.refills_list)
  show "json_ok d (encode_struct client_info_fields x)" if "client_info_ok x" and "6 \<le> d" for d x
    using that by (intro json_ok_struct) (auto simp: client_info_ok_def client_info_fields_def codec client_lists managed_client.printed_list)
qed simp

section \<open>The server key, the rates and the webhook address\<close>

definition bank_sync_response_fields :: "bank_sync_response field list" where
  "bank_sync_response_fields =
     [str_f ''serverKeyId'' ServerKeyID ServerKeyID_update, str_f ''serverPubKey'' ServerPubKey ServerPubKey_update,
      int_f ''serverTimeMsec'' ServerTimeMsec ServerTimeMsec_update]"

definition bank_sync_response_zero :: bank_sync_response where
  "bank_sync_response_zero = \<lparr>ServerKeyID = [], ServerPubKey = [], ServerTimeMsec = 0\<rparr>"

definition bank_sync_response_ok :: "bank_sync_response \<Rightarrow> bool" where
  "bank_sync_response_ok r \<longleftrightarrow> valid_utf8 (ServerKeyID r) \<and> valid_utf8 (ServerPubKey r) \<and> in_int64 (ServerTimeMsec r)"

lemmas bank_sync_response_defs = bank_sync_response_fields_def bank_sync_response_zero_def bank_sync_response_ok_def

interpretation bank_sync_response: dto bank_sync_response_fields bank_sync_response_zero bank_sync_response_ok 1
proof
  show "refills bank_sync_response_fields bank_sync_response_zero x" if "bank_sync_response_ok x" for x
    using that by (cases x) (rule refillsI, simp_all add: bank_sync_response_defs codec)
  show "json_ok d (encode_struct bank_sync_response_fields x)" if "bank_sync_response_ok x" and "1 \<le> d" for d x
    using that by (intro json_ok_struct) (auto simp: bank_sync_response_defs codec)
qed simp

record dated_rate = rate +
  rtDate :: int

definition rate_fields :: "seconds_codec \<Rightarrow> float_format \<Rightarrow> dated_rate field list" where
  "rate_fields ep ff =
     [int_f ''currencyCodeA'' CurrencyCodeA CurrencyCodeA_update, int_f ''currencyCodeB'' CurrencyCodeB CurrencyCodeB_update,
      seconds_f ep ''date'' rtDate rtDate_update, float_f ff ''rateSell'' RateSell RateSell_update,
      float_f ff ''rateBuy'' RateBuy RateBuy_update, float_f ff ''rateCross'' RateCross RateCross_update]"

definition rate_zero :: dated_rate where
  "rate_zero = \<lparr>CurrencyCodeA = 0, CurrencyCodeB = 0, RateSell = Fin 0, RateBuy = Fin 0, RateCross = Fin 0, rtDate = zero_time\<rparr>"

definition rate_ok :: "seconds_codec \<Rightarrow> float_format \<Rightarrow> dated_rate \<Rightarrow> bool" where
  "rate_ok ep ff r \<longleftrightarrow> in_int64 (CurrencyCodeA r) \<and> in_int64 (CurrencyCodeB r) \<and> seconds_ok ep (rtDate r) \<and>
     list_all (float_ok ff) [RateSell r, RateBuy r, RateCross r]"

lemmas rate_defs = rate_fields_def rate_zero_def rate_ok_def

interpretation rate: dto "rate_fields ep ff" rate_zero "rate_ok ep ff" 1 for ep ff
proof
  show "refills (rate_fields ep ff) rate_zero x" if "rate_ok ep ff x" for x
    using that by (cases x) (rule refillsI, simp_all add: rate_defs codec)
  show "json_ok d (encode_struct (rate_fields ep ff) x)" if "rate_ok ep ff x" and "1 \<le> d" for d x
    using that by (intro json_ok_struct) (auto simp: rate_defs codec)
qed simp

interpretation rates: json_codec "list_enc (encode_struct (rate_fields ep ff))"
  "list_of (\<lambda>j. decode_struct (rate_fields ep ff) j rate_zero)" "list_all (rate_ok ep ff)" for ep ff
  by (rule list_codec) (simp_all add: rate.dec_enc rate.printed)

definition personal_webhook_fields :: "string field list" where
  \<comment> \<open>\<open>webhookRequest\<close>, a struct of one field\<close>
  "personal_webhook_fields = [str_f ''webHookUrl'' (\<lambda>s. s) (\<lambda>f. f)]"

interpretation personal_webhook: dto personal_webhook_fields "[]" valid_utf8 1
proof
  show "refills personal_webhook_fields [] x" if "valid_utf8 x" for x
    using that by (rule_tac refillsI) (simp_all add: personal_webhook_fields_def codec)
  show "json_ok d (encode_struct personal_webhook_fields x)" if "valid_utf8 x" and "1 \<le> d" for d x
    using that by (intro json_ok_struct) (auto simp: personal_webhook_fields_def codec)
qed simp

section \<open>Webhook payloads\<close>

text \<open>The event the handler works on, with the row that it is about.\<close>

record bank_event = event +
  StatementItem :: transaction

definition webhook_data_fields :: "seconds_codec \<Rightarrow> (string \<times> transaction) field list" where
  "webhook_data_fields ep =
     [str_f ''account'' fst apfst, custom_f (encode_struct (transaction_fields ep)) (\<lambda>j _. Transaction_of ep j) ''statementItem'' snd apsnd]"

definition webhook_response_fields :: "seconds_codec \<Rightarrow> (string \<times> string \<times> transaction) field list" where
  "webhook_response_fields ep = [str_f ''type'' fst apfst, struct_f (webhook_data_fields ep) ''data'' snd apsnd]"

definition event_of :: "string \<times> string \<times> transaction \<Rightarrow> bank_event" where
  "event_of r = \<lparr>Type = fst r, AccountID = fst (snd r), TransactionID = ID (snd (snd r)), StatementItem = snd (snd r)\<rparr>"

definition Response_of :: "seconds_codec \<Rightarrow> json \<Rightarrow> bank_event option" where
  "Response_of ep j = map_option event_of (decode_struct (webhook_response_fields ep) j ([], [], transaction_zero))"

definition webhook_response_enc :: "seconds_codec \<Rightarrow> bank_event \<Rightarrow> json" where
  "webhook_response_enc ep e = encode_struct (webhook_response_fields ep) (Type e, AccountID e, StatementItem e)"

definition bank_event_ok :: "seconds_codec \<Rightarrow> bank_event \<Rightarrow> bool" where
  "bank_event_ok ep e \<longleftrightarrow> valid_utf8 (Type e) \<and> valid_utf8 (AccountID e) \<and> transaction_ok ep (StatementItem e) \<and>
     TransactionID e = ID (StatementItem e)"

interpretation webhook_data: dto "webhook_data_fields ep" "([], transaction_zero)" "\<lambda>d. valid_utf8 (fst d) \<and> transaction_ok ep (snd d)" 2 for ep
proof
  show "refills (webhook_data_fields ep) ([], transaction_zero) x" if "valid_utf8 (fst x) \<and> transaction_ok ep (snd x)" for x
    using that by (cases x) (rule refillsI, simp_all add: webhook_data_fields_def codec Transaction_back)
  show "json_ok d (encode_struct (webhook_data_fields ep) x)" if "valid_utf8 (fst x) \<and> transaction_ok ep (snd x)" and "2 \<le> d" for d x
    using that by (intro json_ok_struct) (auto simp: webhook_data_fields_def codec transaction_printed)
qed simp

interpretation webhook_response: json_codec "webhook_response_enc ep" "Response_of ep" "bank_event_ok ep" for ep
proof
  fix e assume e: "bank_event_ok ep e"
  have d: "distinct (map fst (webhook_response_fields ep))" by (simp add: webhook_response_fields_def codec)
  have r: "refills (webhook_data_fields ep) ([], transaction_zero) (AccountID e, StatementItem e)"
    using e by (intro webhook_data.refills) (simp add: bank_event_ok_def)
  have "refill (webhook_response_fields ep) (Type e, AccountID e, StatementItem e) ([], [], transaction_zero)
      = Some (Type e, AccountID e, StatementItem e)"
    using e r by (simp add: webhook_response_fields_def codec)
  with e d show "Response_of ep (webhook_response_enc ep e) = Some e"
    by (cases e) (simp add: Response_of_def webhook_response_enc_def decode_encode_struct event_of_def bank_event_ok_def)
  have "json_ok 9999 (encode_struct (webhook_data_fields ep) (AccountID e, StatementItem e))"
    using e by (intro webhook_data.printed) (simp_all add: bank_event_ok_def)
  with e show "json_ok maxNestingDepth (webhook_response_enc ep e)"
    unfolding webhook_response_enc_def
    by (intro json_ok_struct) (auto simp: webhook_response_fields_def codec bank_event_ok_def maxNestingDepth_def)
qed

text \<open>The body that the bank signed for a statement item parses to that item.\<close>

lemma Parse_returns_what_was_sent:
  assumes "bank_event_ok ep e" and "Marshal_json (webhook_response_enc ep e) = Inr b" and "Type e = ''StatementItem''"
  shows "Parse (Unmarshal_json (Response_of ep)) b = Parsed e"
  using webhook_response.text_back_any [OF assms(1,2)] assms(3) by (simp add: Parse_def)

end
