(* ===== verification/Bank_Statement.thy ===== *)
theory Bank_Statement
  imports Bank_Types Client_Diagnostics
begin

text \<open>
  From the transport to the whole statement: the range loops of \<open>Statement_Paging\<close> run over the requests of the personal
  client, whose answers are JSON texts. The loops are first shown to follow the loops over an ideal bank, up to an
  error; then a request is shown to return the rows that the bank put into its answer.
\<close>

section \<open>Loops over requests that may fail\<close>

definition follows :: "bool \<Rightarrow> (int \<Rightarrow> int \<Rightarrow> 'u \<Rightarrow> (string + transaction list) \<times> 'u) \<Rightarrow>
    (int \<Rightarrow> int \<Rightarrow> 'w \<Rightarrow> (string + transaction list) \<times> 'w) \<Rightarrow> ('w \<Rightarrow> 'u) \<Rightarrow> bool" where
  \<comment> \<open>each request gives what the ideal bank gives, or an error if \<open>may_fail\<close>\<close>
  "follows may_fail ideal fetch view \<longleftrightarrow> (\<forall>f t w.
     (may_fail \<and> (\<exists>e w1. fetch f t w = (Inl e, w1))) \<or>
     (\<exists>w1. fetch f t w = (fst (ideal f t (view w)), w1) \<and> view w1 = snd (ideal f t (view w))))"

lemma follows_cases:
  assumes "follows may_fail ideal fetch view" and "ideal f t (view w) = (r, u)"
  obtains e w1 where "may_fail" "fetch f t w = (Inl e, w1)" | w1 where "fetch f t w = (r, w1)" "view w1 = u"
  using assms unfolding follows_def by (metis fst_conv snd_conv)

lemma emit_view:
  assumes "\<And>x w. yield' x (view w) = map_prod id view (yield x w)"
  shows "emit key seen yield' xs n (view w) = map_prod id (map_prod id view) (emit key seen yield xs n w)"
proof (induction xs arbitrary: n w)
  case (Cons x xs)
  then show ?case by (cases "yield x w") (simp add: assms)
qed simp

lemma drain_loop_follows:
  "drain_loop ideal yield' from c seen b u = Some res \<Longrightarrow>
   (\<And>x w. yield' x (view w) = map_prod id view (yield x w)) \<Longrightarrow> follows may_fail ideal fetch view \<Longrightarrow> u = view w \<Longrightarrow>
   (may_fail \<and> (\<exists>e w1. drain_loop fetch yield from c seen b w = Some ((True, Some e), w1))) \<or>
   (\<exists>w1. drain_loop fetch yield from c seen b w = Some (fst res, w1) \<and> view w1 = snd res)"
proof (induction arbitrary: w rule: drain_loop.raw_induct [rotated 1, consumes 1])
  case (1 loop ideal yield' fr c seen b u res)
  obtain r u1 where f: "ideal fr c (view w) = (r, u1)" by fastforce
  from "1.prems"(2) f show ?case
  proof (cases rule: follows_cases)
    case (1 e w1)
    then show ?thesis by (auto simp: drain_loop.simps [of fetch])
  next
    case (2 w1)
    show ?thesis
    proof (cases r)
      case (Inl e)
      then show ?thesis using "1.hyps" f 2 "1.prems"(3) by (auto simp: drain_loop.simps [of fetch])
    next
      case (Inr chunk)
      obtain cont m w2 where e: "emit ID seen yield chunk 0 w1 = (cont, m, w2)" by (metis prod.collapse)
      have e': "emit ID seen yield' chunk 0 u1 = (cont, m, view w2)"
        using emit_view [of yield' view yield, OF "1.prems"(1), of ID seen chunk 0 w1] e 2(2) by simp
      have loop: "(may_fail \<and> (\<exists>e w3. drain_loop fetch yield fr o' seen' b' w2 = Some ((True, Some e), w3))) \<or>
          (\<exists>w3. drain_loop fetch yield fr o' seen' b' w2 = Some (fst res, w3) \<and> view w3 = snd res)"
        if "loop ideal yield' fr o' seen' b' (view w2) = Some res" for o' seen' b'
        using that "1.prems"(1,2) refl by (rule "1.IH")
      show ?thesis using "1.hyps" f e e' Inr 2 "1.prems"(3) loop
        by (subst (1 2) drain_loop.simps) (auto simp: Let_def split: if_splits)
    qed
  qed
qed

lemma collecting_follows:
  fixes view :: "'w \<Rightarrow> 'u"
  assumes "follows may_fail ideal fetch view"
  shows "follows may_fail (\<lambda>f t (acc, w). case ideal f t w of (r, w1) \<Rightarrow> (r, (acc, w1)))
    (\<lambda>f t (acc, w). case fetch f t w of (r, w1) \<Rightarrow> (r, (acc, w1))) (apsnd view)"
    (is "follows _ ?f ?g _")
  unfolding follows_def
proof (intro allI)
  fix f t and s :: "'a \<times> 'w"
  obtain acc v where s: "s = (acc, v)" by fastforce
  obtain r u2 where i: "ideal f t (view v) = (r, u2)" by fastforce
  from assms i show "(may_fail \<and> (\<exists>e w1. ?g f t s = (Inl e, w1))) \<or>
      (\<exists>w1. ?g f t s = (fst (?f f t (apsnd view s)), w1) \<and> apsnd view w1 = snd (?f f t (apsnd view s)))"
    by (cases rule: follows_cases) (auto simp: s i)
qed

lemma range_loop_follows:
  "range_loop ideal cursor to all u = Some res \<Longrightarrow> follows may_fail ideal fetch view \<Longrightarrow> u = view w \<Longrightarrow>
   (may_fail \<and> (\<exists>e w1. range_loop fetch cursor to all w = Some (Inl e, w1))) \<or>
   (\<exists>w1. range_loop fetch cursor to all w = Some (fst res, w1) \<and> view w1 = snd res)"
proof (induction arbitrary: w rule: range_loop.raw_induct [rotated 1, consumes 1])
  case (1 loop ideal cursor to all u res)
  show ?case
  proof (cases "to < cursor")
    case True
    then show ?thesis using "1.hyps" "1.prems"(2) by (auto simp: range_loop.simps [of fetch])
  next
    case False
    define stop where "stop = (if to < cursor + MaxStatementWindow then to else cursor + MaxStatementWindow)"
    let ?f = "\<lambda>f t (acc, w). case ideal f t w of (r, w1) \<Rightarrow> (r, (acc, w1))"
    let ?g = "\<lambda>f t (acc, w). case fetch f t w of (r, w1) \<Rightarrow> (r, (acc, w1))"
    let ?y = "\<lambda>tx (acc, w). (True, (acc @ [tx], w))"
    note F = collecting_follows [OF "1.prems"(1)]
    from False "1.hyps" obtain cont err all1 u1 where d: "DrainWindow cursor stop ?f ?y (all, u) = Some ((cont, err), (all1, u1))"
      by (auto simp: Let_def stop_def bind_eq_Some_conv)
    have "(may_fail \<and> (\<exists>e s1. DrainWindow cursor stop ?g ?y (all, w) = Some ((True, Some e), s1))) \<or>
        (\<exists>s1. DrainWindow cursor stop ?g ?y (all, w) = Some ((cont, err), s1) \<and> apsnd view s1 = (all1, u1))"
      using drain_loop_follows [where view = "apsnd view" and w = "(all, w)" and yield = ?y and fetch = ?g, OF d [unfolded DrainWindow_def] _ F] "1.prems"(2)
      by (auto simp: DrainWindow_def)
    then consider e acc w1 where "may_fail" "DrainWindow cursor stop ?g ?y (all, w) = Some ((True, Some e), (acc, w1))"
      | w1 where "DrainWindow cursor stop ?g ?y (all, w) = Some ((cont, err), (all1, w1))" "view w1 = u1"
      by (auto simp: apsnd_def map_prod_def split: prod.splits)
    then show ?thesis
    proof cases
      case 1
      then show ?thesis using False by (subst (1 2) range_loop.simps) (auto simp: Let_def stop_def)
    next
      case (2 w1)
      have loop: "(may_fail \<and> (\<exists>e w3. range_loop fetch (stop + ns_per_s) to all1 w1 = Some (Inl e, w3))) \<or>
          (\<exists>w3. range_loop fetch (stop + ns_per_s) to all1 w1 = Some (fst res, w3) \<and> view w3 = snd res)"
        if "loop ideal (stop + ns_per_s) to all1 u1 = Some res"
        using that "1.prems"(1) 2(2) [symmetric] by (rule "1.IH")
      show ?thesis using "1.hyps" False d 2 loop
        by (subst (1 2) range_loop.simps) (auto simp: Let_def stop_def split: if_splits)
    qed
  qed
qed

section \<open>A request for a window\<close>

definition statement_page :: "transaction list \<Rightarrow> int \<Rightarrow> int \<Rightarrow> transaction list" where
  "statement_page rows from to = take StatementMaxRows (filter (\<lambda>t. Unix from \<le> second t \<and> second t \<le> Unix to) rows)"

lemma server_page: "server rows from to w = (Inr (statement_page rows from to), w)"
  by (simp add: server_def statement_page_def)

definition statement_bank :: "seconds_codec \<Rightarrow> string \<Rightarrow> transaction list \<Rightarrow> 'w client \<Rightarrow> bool" where
  \<comment> \<open>what the bank answers with 200 to a statement request is the page, complete; it may also answer otherwise, or not\<close>
  "statement_bank ep accountID rows c \<longleftrightarrow> (\<forall>R w resp f t.
     rMethod R = ''GET'' \<and> Path (rURL R) = statement_path accountID f t \<and> fst (http_Do c R w) = Inr resp \<and> StatusCode resp = 200 \<longrightarrow>
     answers (list_enc (encode_struct (transaction_fields ep))) resp (statement_page rows f t))"

definition never_fails :: "'w client \<Rightarrow> bool" where
  "never_fails c \<longleftrightarrow> optErr c = None \<and> (\<forall>f R w. SetAuth c = Some f \<longrightarrow> (\<exists>R'. fst (f R w) = Inr R')) \<and>
     (\<forall>f w. Wait c = Some f \<longrightarrow> fst (f w) = None) \<and>
     (\<forall>R w. \<exists>resp. fst (http_Do c R w) = Inr resp \<and> StatusCode resp = 200)"

text \<open>Every entry of the log is an answer of the transport.\<close>

definition answered :: "'w client \<Rightarrow> ('w \<Rightarrow> (http_request \<times> (string + http_response)) list) \<Rightarrow> 'w \<Rightarrow> 'w \<Rightarrow> bool" where
  "answered c sent w0 w \<longleftrightarrow> (\<exists>xs. sent w = sent w0 @ xs \<and> (\<forall>(R, x) \<in> set xs. \<exists>u. x = fst (http_Do c R u)))"

lemma answered_keeps: "observed env c sent \<Longrightarrow> keeps (answered c sent w0) env c"
proof -
  assume o: "observed env c sent"
  have "answered c sent w0 (snd (http_Do c req w))" if a: "answered c sent w0 w" for req w
  proof -
    obtain xs where xs: "sent w = sent w0 @ xs" "\<forall>(R, x) \<in> set xs. \<exists>u. x = fst (http_Do c R u)" using a by (auto simp: answered_def)
    have "sent (snd (http_Do c req w)) = sent w0 @ (xs @ [(req, fst (http_Do c req w))])" using o xs(1) by (simp add: observed_def)
    with xs(2) show ?thesis unfolding answered_def by (intro exI [of _ "xs @ [(req, fst (http_Do c req w))]"]) auto
  qed
  then show ?thesis using o unfolding keeps_def by (auto simp: observed_def answered_def)
qed

lemma dispatch_answered:
  assumes "observed env c sent" and "dispatch env ua c meth uri b hs v codes w = (res, w')"
  shows "answered c sent w w'"
proof (cases "NewRequest env meth uri b")
  case None
  with assms(2) show ?thesis by (auto simp: dispatch_def answered_def)
next
  case (Some req)
  have "answered c sent w (snd (Do env ua c (Some (set_headers hs req)) v codes w))"
    by (rule Do_keeps [OF answered_keeps [OF assms(1)]]) (simp add: answered_def)
  with assms(2) Some show ?thesis by (auto simp: dispatch_def split: prod.splits option.splits)
qed

text \<open>What a request of the personal client sends, and what comes of it.\<close>

lemma personal_Transactions_page:
  assumes "plain_client env c sent" and "go_targets env" and "decodes_with (list_of (Transaction_of ep)) env"
    and "baseURL c = Some base" and "Opaque base = []" and "accountID \<noteq> []" and "accountID \<notin> dots"
    and "statement_bank ep accountID rows c" and "list_all (transaction_ok ep) rows"
    and d: "personal_Transactions env ua c accountID from to w = (res, w')"
  shows "\<exists>log. sent w' = sent w @ log \<and> list_all (\<lambda>(R, r). rMethod R = ''GET'' \<and> Host (rURL R) = Host base \<and>
      Path (rURL R) = statement_path accountID from to) log"
    and "res = Inr out1 \<Longrightarrow> out1 = JsonOut (statement_page rows from to)"
proof -
  note t = statement_path_target [OF assms(6,7), of "from" to]
  have o: "observed env c sent" using assms(1) by (simp add: plain_client_def)
  note d = d [unfolded personal_Transactions_def]
  from dispatch_sends [OF assms(1,2) t(2) d] obtain R rs where s: "sent w' = sent w @ map (\<lambda>r. (R, r)) rs"
    "rs \<noteq> [] \<longrightarrow> is_call c ''GET'' (statement_path accountID from to) None [] R"
    "\<forall>out1. res = Inr out1 \<longrightarrow> (\<exists>resp. last (sent w') = (R, Inr resp) \<and> rs \<noteq> [] \<and> StatusCode resp \<in> set [200])"
    by (auto simp: Let_def)
  have R: "rMethod R = ''GET''" "Path (rURL R) = statement_path accountID from to" "Host (rURL R) = Host base" if "rs \<noteq> []"
    using s(2) that is_call_path [OF _ assms(4) t(2) assms(5), of "''GET''" None "[]" R] t by (auto simp: is_call_def)
  then show "\<exists>log. sent w' = sent w @ log \<and> list_all (\<lambda>(R, r). rMethod R = ''GET'' \<and> Host (rURL R) = Host base \<and>
      Path (rURL R) = statement_path accountID from to) log"
    using s(1) by (intro exI [of _ "map (\<lambda>r. (R, r)) rs"]) (cases "rs = []"; auto simp: list_all_iff)
  assume res: "res = Inr out1"
  with s(3) obtain resp where l: "last (sent w') = (R, Inr resp)" "rs \<noteq> []" "StatusCode resp = 200" by auto
  obtain xs where xs: "sent w' = sent w @ xs" "\<forall>(R, x) \<in> set xs. \<exists>u. x = fst (http_Do c R u)"
    using dispatch_answered [OF o d] by (auto simp: answered_def)
  with s(1) l(1,2) have "(R, Inr resp) \<in> set xs" by (metis append_same_eq last_appendR last_in_set map_is_Nil_conv same_append_eq)
  with xs(2) obtain u where "fst (http_Do c R u) = Inr resp" by fastforce
  with assms(8) R l have a: "answers (list_enc (encode_struct (transaction_fields ep))) resp (statement_page rows from to)"
    unfolding statement_bank_def by blast
  from dispatch_decodes [OF o d [unfolded res]] l(1) have b: "decode_body env TJSON resp Untouched = (None, out1)" by auto
  have "list_all (transaction_ok ep) (statement_page rows from to)"
    using assms(9) by (auto simp: statement_page_def list_all_iff dest: in_set_takeD)
  from transactions.decoded_answer [OF assms(3) this a b] show "out1 = JsonOut (statement_page rows from to)" .
qed

text \<open>A request to a transport that always answers succeeds in the first attempt.\<close>

lemma run_first_try: "fst (fn s) = None \<Longrightarrow> run Int64N pause transient rp fn s = fn s"
  by (cases "attempts_of rp") (auto simp: run_def attempts_of_def split: prod.split if_splits)

lemma get_json_succeeds:
  assumes "plain_client env c sent" and "go_targets env" and "target_ok uri" and "never_fails c" and "baseURL c = Some base"
    and answer: "\<And>R w resp. is_call c ''GET'' uri None [] R \<Longrightarrow> fst (http_Do c R w) = Inr resp \<Longrightarrow> StatusCode resp = 200 \<Longrightarrow>
      \<exists>y. DecodeInto env resp = (None, Some y)"
  shows "\<exists>out1 w'. get_json env ua c uri w = (Inr out1, w')"
proof -
  define req where "req = \<lparr>rMethod = ''GET'', rURL = parse_target uri, rHeader = (\<lambda>_. []), rBody = HttpNoBody, rGetBody = None,
    rContentLength = 0\<rparr>"
  have t: "url_Parse env uri = Some (parse_target uri)" "url_String env (parse_target uri) = uri"
    and rp: "resolvePath env = resolve_path" using assms(2,3) by (auto simp: go_targets_def)
  have new: "NewRequest env ''GET'' uri None = Some req" by (simp add: NewRequest_def t req_def)
  define p where "p = prepare env c ua base (parse_target uri) req"
  have p: "rMethod p = ''GET''" "rBody p = HttpNoBody" "rGetBody p = None" "rHeader p ''Idempotency-Key'' = []"
    "rURL p = ResolveReference resolve_path base (parse_target uri)"
    by (simp_all add: p_def prepare_def req_def set_default_def Let_def rp)
  obtain req1 w1 where auth: "(case SetAuth c of None \<Rightarrow> (Inr p, w) | Some f \<Rightarrow> f p w) = (Inr req1, w1)"
    using assms(4) by (cases "SetAuth c") (auto simp: never_fails_def, metis prod.collapse)
  have h: "\<exists>h. req1 = p\<lparr>rHeader := h\<rparr> \<and> h ''Idempotency-Key'' = []"
  proof (cases "SetAuth c")
    case None
    with auth p(4) show ?thesis by (intro exI [of _ "rHeader p"]) simp
  next
    case (Some f)
    with auth have "fst (f p w) = Inr req1" by simp
    with assms(1) Some p(4) show ?thesis unfolding plain_client_def header_authorizer_def by metis
  qed
  have call: "is_call c ''GET'' uri None [] req1" using h p assms(5) by (auto simp: is_call_def sent_body_def)
  have buf: "buffer_body req1 = Some req1" using h p(2,3) by (auto simp: buffer_body_def)
  have once: "fst (attemptFn env c TJSON [200] (req1, Untouched, w1)) = None"
  proof -
    have a: "fst (attempt env c TJSON [200] (req1, Untouched, w2)) = None" for w2
    proof -
      obtain resp w3 where d: "http_Do c req1 w2 = (Inr resp, w3)" "StatusCode resp = 200"
        using assms(4) unfolding never_fails_def by (metis fst_conv prod.collapse)
      obtain y where y: "DecodeInto env resp = (None, Some y)" using answer [OF call, of w2 resp] d by auto
      have "reset_body req1 = Inr req1" "onReq c = None" using h p(3) assms(1) by (auto simp: reset_body_def plain_client_def)
      with d y show ?thesis by (simp add: attempt_def handle_response_def decode_body_def)
    qed
    show ?thesis
    proof (cases "Wait c")
      case None
      then show ?thesis using a by (simp add: attemptFn_def)
    next
      case (Some f)
      then obtain w2 where "f w1 = (None, w2)" using assms(4) unfolding never_fails_def by (metis prod.collapse)
      with Some a show ?thesis by (simp add: attemptFn_def)
    qed
  qed
  obtain s' where s': "attemptFn env c TJSON [200] (req1, Untouched, w1) = (None, s')" using once by (metis prod.collapse)
  have r: "run f g tr q (attemptFn env c TJSON [200]) (req1, Untouched, w1) = (None, s')" for f g tr q
    using run_first_try [where fn = "attemptFn env c TJSON [200]", OF once] s' by simp
  have "\<not> IsAbs (parse_target uri)" by (simp add: IsAbs_def)
  moreover have "rURL req = parse_target uri" "optErr c = None" using assms(4) by (simp_all add: req_def never_fails_def)
  ultimately have "fst (fst (Do env ua c (Some req) TJSON [200] w)) = None"
    using assms(5) t auth [unfolded p_def] buf s' r by (simp add: Do_def Let_def split: prod.split)
  then show ?thesis by (auto simp: dispatch_def new set_headers_def req_def split: prod.split option.split)
qed

section \<open>The whole statement\<close>

definition personal_request :: "string \<Rightarrow> string \<Rightarrow> int \<Rightarrow> int \<Rightarrow> http_request \<Rightarrow> bool" where
  \<comment> \<open>a statement request of this account to this host, for a window that begins in the range\<close>
  "personal_request host accountID from to R \<longleftrightarrow> rMethod R = ''GET'' \<and> Host (rURL R) = host \<and>
     (\<exists>f t. from \<le> f \<and> f \<le> to \<and> Path (rURL R) = statement_path accountID f t)"

lemma rows_of_world: "snd (rows_of errText (res, w)) = w"
  by (simp add: rows_of_def split: sum.split out.split)

lemma personal_follows:
  assumes "plain_client env c sent" and "go_targets env" and "decodes_with (list_of (Transaction_of ep)) env"
    and "baseURL c = Some base" and "Opaque base = []" and "accountID \<noteq> []" and "accountID \<notin> dots"
    and "statement_bank ep accountID rows c" and "list_all (transaction_ok ep) rows"
  shows "follows (\<not> never_fails c) (server rows) (\<lambda>f t w. rows_of errText (personal_Transactions env ua c accountID f t w)) (\<lambda>_. ())"
  unfolding follows_def
proof (intro allI)
  fix f t w
  obtain res w' where d: "personal_Transactions env ua c accountID f t w = (res, w')" by fastforce
  note page = personal_Transactions_page(2) [OF assms d]
  have ok: "\<exists>out1. res = Inr out1" if "never_fails c"
  proof -
    note tgt = statement_path_target [OF assms(6,7), of f t]
    have "\<exists>out1 w'. get_json env ua c (statement_path accountID f t) w = ((Inr out1, w') :: (unit, _, _) outcome)"
    proof (rule get_json_succeeds [OF assms(1,2) tgt(2) that assms(4)])
      fix R u resp
      assume R: "is_call c ''GET'' (statement_path accountID f t) None [] R" and a: "fst (http_Do c R u) = Inr resp" "StatusCode resp = 200"
      have "Path (rURL R) = statement_path accountID f t" "rMethod R = ''GET''"
        using is_call_path [OF R assms(4) tgt(2) assms(5)] tgt R by (simp_all add: is_call_def)
      with assms(8) a have "answers (list_enc (encode_struct (transaction_fields ep))) resp (statement_page rows f t)"
        unfolding statement_bank_def by blast
      moreover have "list_all (transaction_ok ep) (statement_page rows f t)"
        using assms(9) by (auto simp: statement_page_def list_all_iff dest: in_set_takeD)
      ultimately have "Unmarshal_json (list_of (Transaction_of ep)) (respBody resp) = Inr (statement_page rows f t)" "\<not> respBodyErr resp"
        using transactions.text_back_any by (auto simp: answers_def)
      with assms(3) show "\<exists>y. DecodeInto env resp = (None, Some y)" by (auto simp: decodes_with_def)
    qed
    with d show ?thesis by (auto simp: personal_Transactions_def)
  qed
  show "(\<not> never_fails c \<and> (\<exists>e w1. rows_of errText (personal_Transactions env ua c accountID f t w) = (Inl e, w1))) \<or>
      (\<exists>w1. rows_of errText (personal_Transactions env ua c accountID f t w) = (fst (server rows f t ()), w1) \<and>
        () = snd (server rows f t ()))"
    using ok page by (cases res) (auto simp: d rows_of_def server_page)
qed

lemma personal_range_sends:
  assumes "plain_client env c sent" and "go_targets env" and "decodes_with (list_of (Transaction_of ep)) env"
    and "baseURL c = Some base" and "Opaque base = []" and "accountID \<noteq> []" and "accountID \<notin> dots"
    and "statement_bank ep accountID rows c" and "list_all (transaction_ok ep) rows"
    and r: "personal_TransactionsRange env ua c errText accountID from to w = Some (res, w')"
  shows "\<exists>log. sent w' = sent w @ log \<and> list_all (\<lambda>(R, r). personal_request (Host base) accountID from to R) log"
proof -
  define I where "I u \<longleftrightarrow> (\<exists>log. sent u = sent w @ log \<and> list_all (\<lambda>(R, r). personal_request (Host base) accountID from to R) log)" for u
  have "I (snd (res, w'))"
  proof (rule TransactionsRange_invariant [OF r [unfolded personal_TransactionsRange_def]])
    show "I w" by (simp add: I_def)
    fix f t u
    assume ft: "from \<le> f" "f \<le> to" and "I u"
    then obtain log where log: "sent u = sent w @ log" "list_all (\<lambda>(R, r). personal_request (Host base) accountID from to R) log" by (auto simp: I_def)
    obtain res' u' where d: "personal_Transactions env ua c accountID f t u = (res', u')" by fastforce
    from personal_Transactions_page(1) [OF assms(1-9) d] obtain log' where
      "sent u' = sent u @ log'" "list_all (\<lambda>(R, r). personal_request (Host base) accountID from to R) log'"
      using ft by (fastforce simp: personal_request_def list_all_iff)
    with log have "I u'" unfolding I_def by (intro exI [of _ "log @ log'"]) simp
    then show "I (snd (rows_of errText (personal_Transactions env ua c accountID f t u)))" by (simp add: d rows_of_world)
  qed
  then show ?thesis by (simp add: I_def)
qed

text \<open>
  C23: The statement range of the personal client is complete or an error. Take any client over a transport that may
  fail, break off, answer with any status and be retried, and whose answers of status 200 to the statement requests
  of an account are JSON texts of at most 500 rows of the window asked for, newest first, as the bank documents. For a
  range of any length with fewer than 500 rows in each second (and no larger sub-second part at its start than at its
  end), \<open>TransactionsRange\<close> returns; it returns an error, or each row of the range exactly once, as the bank has it with
  the currency on all its amounts; with a transport that always answers 200 it returns the rows. It sends nothing but
  GET requests for statements of that account to the host of the base URL, for windows that begin in the range.
\<close>
theorem personal_TransactionsRange_complete:
  assumes "plain_client env c sent" and "go_targets env" and "decodes_with (list_of (Transaction_of ep)) env"
    and "baseURL c = Some base" and "Opaque base = []" and "accountID \<noteq> []" and "accountID \<notin> {''.'', ''..''}"
    and "statement_bank ep accountID rows c" and "list_all (transaction_ok ep) rows"
    and "statement rows" and "sparse (window rows (Unix from) (Unix to))"
    and "from < to" and "to \<noteq> zero_time" and "from mod ns_per_s \<le> to mod ns_per_s"
  shows "\<exists>res w' log. personal_TransactionsRange env ua c errText accountID from to w = Some (res, w') \<and>
    (\<forall>all. res = Inr all \<longrightarrow>
       mset all = mset (filter (\<lambda>t. Unix from \<le> second t \<and> second t \<le> Unix to) rows) \<and> distinct (map ID all)) \<and>
    (never_fails c \<longrightarrow> (\<exists>all. res = Inr all)) \<and>
    sent w' = sent w @ log \<and> list_all (\<lambda>(R, r). personal_request (Host base) accountID from to R) log"
proof -
  have nd: "accountID \<notin> dots" using assms(7) by (simp add: dots_def)
  from TransactionsRange_complete [OF assms(10,11,12,13,14), of "()"] obtain all where
    a: "TransactionsRange (server rows) from to () = Some (Inr all, ())"
    "mset all = mset (filter (\<lambda>t. Unix from \<le> second t \<and> second t \<le> Unix to) rows)" "distinct (map ID all)" by blast
  have "range_loop (server rows) from to [] () = Some (Inr all, ())"
    using a(1) assms(12,13) by (simp add: TransactionsRange_def)
  from range_loop_follows [OF this personal_follows [OF assms(1-6) nd assms(8,9), of errText ua] refl, of w]
  obtain res w' where r: "personal_TransactionsRange env ua c errText accountID from to w = Some (res, w')"
    "(\<not> never_fails c \<and> (\<exists>e. res = Inl e)) \<or> res = Inr all"
    using assms(12,13) by (auto simp: personal_TransactionsRange_def TransactionsRange_def)
  from personal_range_sends [OF assms(1-6) nd assms(8,9) r(1)] r a(2,3) show ?thesis by auto
qed

section \<open>An instance\<close>

text \<open>A bank that reads the window from the path and answers every request.\<close>

definition read_int :: "string \<Rightarrow> int" where
  "read_int s = (if s \<noteq> [] \<and> hd s = CHR ''-'' then - digits_val 0 (tl s) else digits_val 0 s)"

definition last_segment :: "string \<Rightarrow> string \<times> string" where
  "last_segment p = (rev (tl (dropWhile (\<lambda>c. c \<noteq> CHR ''/'') (rev p))), rev (takeWhile (\<lambda>c. c \<noteq> CHR ''/'') (rev p)))"

definition demo_seconds :: seconds_codec where
  "demo_seconds = \<lparr>EncSeconds = (\<lambda>t. JNum (Itoa (Unix t))), DecSeconds = (\<lambda>j. map_option at_s (json_int j))\<rparr>"

definition demo_bank :: "transaction list \<Rightarrow> (http_request \<times> (string + http_response)) list client" where
  "demo_bank rows = demo_client\<lparr>http_Do := \<lambda>req w.
     let (p, t) = last_segment (Path (rURL req));
         (_, f) = last_segment p;
         page = statement_page rows (at_s (read_int f)) (at_s (read_int t));
         r = Inr \<lparr>StatusCode = 200, respHeader = (\<lambda>_. []), ContentLength = -1,
                  respBody = json_text (list_enc (encode_struct (transaction_fields demo_seconds)) page), respBodyErr = False\<rparr>
     in (r, w @ [(req, r)])\<rparr>"

lemma Itoa_chars: "c \<in> set (Itoa n) \<Longrightarrow> c \<noteq> CHR ''/''"
proof -
  have "list_all is_digit (nat_digits m)" for m by simp
  moreover have "\<not> is_digit (CHR ''/'')" by (simp add: is_digit_def)
  ultimately show "c \<in> set (Itoa n) \<Longrightarrow> c \<noteq> CHR ''/''" by (auto simp: Itoa_def list_all_iff split: if_splits)
qed

lemma last_segment_Itoa: "last_segment (p @ CHR ''/'' # Itoa n) = (p, Itoa n)"
proof -
  have "\<forall>c\<in>set (rev (Itoa n)). c \<noteq> CHR ''/''" using Itoa_chars by auto
  then have "takeWhile (\<lambda>c. c \<noteq> CHR ''/'') (rev (Itoa n) @ CHR ''/'' # rev p) = rev (Itoa n)"
    "dropWhile (\<lambda>c. c \<noteq> CHR ''/'') (rev (Itoa n) @ CHR ''/'' # rev p) = CHR ''/'' # rev p"
    by (subst takeWhile_append2 dropWhile_append2; simp)+
  then show ?thesis by (simp add: last_segment_def)
qed

lemma read_int_Itoa: "read_int (Itoa n) = n"
proof (cases "n < 0")
  case False
  have "list_all is_digit (nat_digits (nat n))" "nat_digits (nat n) \<noteq> []" by simp_all
  then have "hd (nat_digits (nat n)) \<noteq> CHR ''-''" by (cases "nat_digits (nat n)") (auto simp: is_digit_def)
  with False show ?thesis by (simp add: read_int_def Itoa_def)
qed (simp add: read_int_def Itoa_def)

lemma demo_bank_answer:
  "Path (rURL R) = statement_path accountID f t \<Longrightarrow> fst (http_Do (demo_bank rows) R w) =
    Inr \<lparr>StatusCode = 200, respHeader = (\<lambda>_. []), ContentLength = -1,
      respBody = json_text (list_enc (encode_struct (transaction_fields demo_seconds)) (statement_page rows f t)), respBodyErr = False\<rparr>"
proof -
  assume p: "Path (rURL R) = statement_path accountID f t"
  have "statement_path accountID f t = ((''/personal/statement/'' @ PathEscape accountID) @ CHR ''/'' # Itoa (Unix f)) @ CHR ''/'' # Itoa (Unix t)"
    by (simp add: statement_path_def)
  with p show ?thesis
    by (simp only: demo_bank_def last_segment_Itoa) (simp add: last_segment_Itoa read_int_Itoa statement_page_def Let_def del: append_assoc append_Cons)
qed

lemma demo_bank_is_a_bank:
  assumes "list_all (transaction_ok demo_seconds) rows"
  shows "statement_bank demo_seconds accountID rows (demo_bank rows)"
proof -
  have "list_all (transaction_ok demo_seconds) (statement_page rows f t)" for f t
    using assms by (auto simp: statement_page_def list_all_iff dest: in_set_takeD)
  then show ?thesis
    by (auto simp: statement_bank_def demo_bank_answer answers_def transactions.marshals)
qed

lemma demo_bank_client: "plain_client (codec_env dec) (demo_bank rows) (\<lambda>w. w)" "never_fails (demo_bank rows)"
  by (auto simp: plain_client_def observed_def header_authorizer_def codec_env_def demo_bank_def Http_Client.demo_defs never_fails_def Let_def
      split: prod.split)

lemma demo_rows_ok: "list_all (transaction_ok demo_seconds) demo_rows"
proof -
  have "seconds_ok demo_seconds (at_s n)" if "in_int64 n" for n
    using that by (simp add: seconds_ok_def demo_seconds_def json_int_def Atoi_Itoa Itoa_number)
  moreover have "in_int64 2678405" "in_int64 20" "in_int64 10" "in_int64 0" "in_int64 980"
    by (simp_all add: in_int64_def int64_min_def int64_max_def)
  moreover have "valid_utf8 ''a''" "valid_utf8 ''b''" "valid_utf8 ''c''" "valid_utf8 []"
    by (simp_all add: ascii_utf8 ascii_def bytes_of_def)
  ultimately show ?thesis by (simp add: demo_rows_def demo_row_def transaction_ok_def int32_ok_def Money_New_def)
qed

theorem personal_TransactionsRange_complete_witness:
  "\<exists>all w'. personal_TransactionsRange (codec_env (list_of (Transaction_of demo_seconds))) ''sdk'' (demo_bank demo_rows) (\<lambda>_. ''e'')
      ''a'' (at_s 10) (at_s 3000000) [] = Some (Inr all, w') \<and> mset all = mset demo_rows"
proof -
  have b: "baseURL (demo_bank demo_rows) = Some (demo_url ''https'' ''api.monobank.ua'' [])"
    "Opaque (demo_url ''https'' ''api.monobank.ua'' []) = []" by (simp_all add: demo_bank_def Http_Client.demo_defs)
  have a: "''a'' \<noteq> []" "''a'' \<notin> {''.'', ''..''}" by simp_all
  have "at_s 10 < at_s 3000000" "at_s 3000000 \<noteq> zero_time" "at_s 10 mod ns_per_s \<le> at_s 3000000 mod ns_per_s"
    by (simp_all add: zero_time_def at_s_def ns_per_s_def)
  from personal_TransactionsRange_complete [OF demo_bank_client(1) codec_env_targets codec_env_decodes b a demo_bank_is_a_bank [OF demo_rows_ok]
      demo_rows_ok demo_rows this, of "''sdk''" "\<lambda>_. ''e''" "[]"] demo_bank_client(2)
  show ?thesis by (auto simp: demo_rows_def)
qed

end
