(* ===== verification/Spec2Isabelle.thy ===== *)
theory Spec2Isabelle
  imports Money Mcc Installment_Money Webhook_Handler Client_Options Statement_Paging Business_Paging
    Acquiring_Webhook Acquiring_Reconcile Business_Idempotency Business_Client Acquiring_Client Open_API
    Installment_Client Basket Rate_Limiter Open_Banking_Log Business_Log Webhook_Concurrency Jar Acquiring_Exchange
    Business_Types Installment_Types Otel Test_Server Client_Diagnostics Corporate_Types Acquiring_Dedup
    Open_Banking_Types Auth_Log Bank_Statement
begin

text \<open>
  A model of the Go SDK for monobank: the shared HTTP transport, the clients of six APIs on top of it, the handlers for
  the bank's webhooks, and the value types they exchange. Paths are relative to the root of the Go module.

  \<^bold>\<open>The program.\<close> A client of the SDK (\<open>bank\<close>, \<open>personal\<close>, \<open>corporate\<close>, \<open>business\<close>, \<open>acquiring\<close>, \<open>openbanking\<close>) is a
  \<open>monobank.Client\<close> with an authorizer from \<open>auth\<close> and a base URL. An endpoint method checks its arguments, builds a path
  and perhaps a JSON body, and calls \<open>Client.Do\<close>, which prepares the request, has it authorized, and lets the retry
  policy run \<open>attempt\<close>: limiter, hooks, transport, status check, decoding. Statement ranges and lists are loops over such
  methods. \<open>installment\<close> and \<open>jar\<close> talk to their servers without the shared transport. In the other direction the bank
  calls \<open>webhook.Handler\<close> or \<open>acquiring.Handler\<close>, which verify a signature with a key they fetch through a client, and
  remember in a \<open>Deduper\<close> what they have delivered. \<open>otelmonobank\<close> hangs tracing onto the hooks of a client, and
  \<open>monobanktest\<close> is a fake server for the tests of a user.

  \<^bold>\<open>Conventions.\<close> A struct is a record, an \<open>(T, error)\<close> pair a sum with \<open>Inl\<close> for the error, a pointer or an optional
  callback an \<open>option\<close>. An \<open>int64\<close> is an \<open>int\<close> kept in range by \<open>wrap64\<close> after each operation. A string is its bytes. What
  acts on the outside (transport, clock, random source, callbacks) is a function of a world \<open>'w\<close>, and what it does to the
  world is arbitrary unless a hypothesis says otherwise; \<open>observed env c sent\<close> says that \<open>sent\<close> reads the exchanges of the
  transport from the world and that nothing else writes them. Fields keep the names of the source, with a prefix where two
  structs share one.

  \<^bold>\<open>Theories.\<close> The Go library, as far as the SDK uses it:
  \<^item> \<open>Go_Prelude\<close>: integers with wrap-around, \<open>strconv\<close>, instants. \<open>Go_Float\<close>: binary64 with round to even over rationals.
    \<open>Go_Utf8\<close>, \<open>Go_Base64\<close>, \<open>Go_Date\<close> (the civil calendar and the date layout), \<open>Go_Url\<close> (escaping, queries, path merging).
  \<^item> \<open>Go_Json\<close>: the text that \<open>encoding/json\<close> writes and the syntax that it reads. \<open>Go_Codec\<close>: struct tags, by which a struct
    becomes an object and an object is stored into a struct, and the locale \<open>json_codec\<close> of types that survive both.
    \<open>Json_Money\<close>, \<open>Json_Exchange\<close>: amounts and times on the wire; what a call with a JSON body carries and returns.

  The transport and what clients share:
  \<^item> \<open>Retry\<close> (\<open>retry.go\<close>), \<open>Rate_Limiter\<close> (\<open>ratelimit.go\<close>), \<open>Http_Client\<close> (\<open>client.go\<close>, \<open>useragent.go\<close>), \<open>Client_Options\<close>
    (\<open>options.go\<close>), \<open>Client_Diagnostics\<close> (the log records of \<open>client.go\<close>, the text of an error, the options about the
    \<open>http.Client\<close> below), \<open>Endpoints\<close> (how every endpoint method calls \<open>Do\<close>, with the locale \<open>authorizer\<close>), \<open>Corp_Auth\<close>
    (\<open>auth/\<close>), \<open>Auth_Log\<close> (what credentials show in a log), \<open>Otel\<close> (\<open>otelmonobank/otel.go\<close>).

  Values:
  \<^item> \<open>Currency\<close>, \<open>Mcc\<close>, \<open>Money\<close>, \<open>Money_Float\<close> (\<open>currency/\<close>, \<open>mcc/\<close>, \<open>money/\<close>, \<open>bank/currency.go\<close>), \<open>Installment_Money\<close>
    (\<open>installment/money.go\<close>, \<open>validate.go\<close>), \<open>Bank_Transaction\<close> and \<open>Log_Redaction\<close> (\<open>bank/data.go\<close>), \<open>Basket\<close>
    (\<open>acquiring/basket.go\<close>).

  Clients, each with its endpoints, its wire format and what its types show in a log:
  \<^item> \<open>Open_API\<close> (\<open>bank/\<close>, \<open>personal/\<close>, \<open>corporate/\<close>) over \<open>Statement_Paging\<close> (\<open>bank/statement.go\<close> and the range loops),
    \<open>Bank_Types\<close> and \<open>Corporate_Types\<close> (wire formats), \<open>Bank_Statement\<close> (the statement range from transport to rows).
  \<^item> \<open>Business_Client\<close>, \<open>Business_Paging\<close>, \<open>Business_Idempotency\<close>, \<open>Business_Types\<close>, \<open>Business_Statement\<close>, \<open>Business_Log\<close>
    (\<open>business/\<close>).
  \<^item> \<open>Acquiring_Client\<close>, \<open>Acquiring_Reconcile\<close>, \<open>Acquiring_Types\<close>, \<open>Acquiring_Responses\<close>, \<open>Acquiring_Exchange\<close> (\<open>acquiring/\<close>).
  \<^item> \<open>Open_Banking\<close>, \<open>Open_Banking_Types\<close>, \<open>Open_Banking_Log\<close> (\<open>openbanking/\<close>).
  \<^item> \<open>Installment_Client\<close>, \<open>Installment_Types\<close> (\<open>installment/\<close>), \<open>Jar\<close> (\<open>jar/jar.go\<close>).

  Receivers and tests:
  \<^item> \<open>Dedup\<close> (\<open>webhook/dedup.go\<close>, with the locale \<open>deduper\<close>), \<open>Webhook_Handler\<close> (\<open>webhook/\<close>, one request at a time),
    \<open>Webhook_Concurrency\<close> (the same handler, all requests interleaved), \<open>Acquiring_Webhook\<close> and \<open>Acquiring_Dedup\<close>
    (\<open>acquiring/webhook.go\<close>, \<open>handler.go\<close>, \<open>dedup.go\<close>), \<open>Test_Server\<close> (\<open>monobanktest/\<close>).

  \<^bold>\<open>What is shown.\<close>
  \<^item> Money: \<open>Add\<close>, \<open>Sub\<close> and \<open>Mul\<close> give the exact result or \<open>ErrOverflow\<close>, never a wrapped one (\<open>Neg\<close> leaves \<open>MinInt64\<close>
    as it is); the decimal parsers invert printing, and \<open>ParseMajor\<close> succeeds on exactly the well-formed decimals in which
    its loop sees no overflow (the value of longer ones may wrap); up to \<open>2 ^ 50\<close> minor units an amount survives \<open>float64\<close>.
  \<^item> Transport: \<open>run\<close> ends within its attempts, \<open>backoff\<close> stays within its bounds, a request that is not idempotent is sent at
    most once, all retries carry the same whole request, a success means an expected status. A request goes to the host
    of the base URL unless its own URL names another one, which the guard against absolute URLs lets through; if it names
    none and the explicit opt-out is not used, it does not go out in clear text to a remote host. In these theorems there
    is no request hook, which could change anything, and the authorizer sets headers only. A logger changes nothing and
    gets two records for each exchange.
  \<^item> Endpoints: \<open>dispatch_sends\<close> and \<open>dispatch_decodes\<close> say once, for every client, what the transport sees and what the
    caller gets; the properties of an endpoint are instances. With \<open>json_codec\<close> they speak of values instead of bytes: the
    body of each exchange decodes to the value the caller passed, and the value the server encoded is the value returned.
  \<^item> Paging: over the bank as its comments document it, with fewer than 500 rows in a second, a window or a range (with no
    larger fraction of a second at its start than at its end) is visited completely, once, and the loop ends; the iterator
    does what a loop over the collected list would do. Over a transport that may fail, the personal client returns the
    complete range, decoded from JSON, or an error (\<open>Bank_Statement\<close>). The loop of \<open>business\<close> ends and shows an explicit
    subsequence of the range, all of it exactly when no page but the last lies within one second, splits one, or ends next
    to the start (\<open>Business_Paging\<close>).
  \<^item> Webhooks: the callback runs only for verified, parsed, new events; an id is recorded exactly when the delivery is
    acknowledged; the memory is an LRU set; under any interleaving successful refreshes are spaced, and once an id is
    recorded, until capacity further operations, only a delivery that had passed the check before is still processed.
  \<^item> Logs: what a logged value reveals is the masked view and nothing else.
  \<^item> Tracing, limiter, subscriptions, reconciliation: invariants over interleavings, termination of polling, the
    reconciliation as a comparison of two finite maps.
  Where the code does not do what its comments say, a lemma exhibits it.

  \<^bold>\<open>Interfaces.\<close> \<open>deduper\<close> is interpreted on the memory of the webhook package and on that of the acquiring package;
  \<open>authorizer\<close> on no authorization, the personal token, the corporate signature and the request id of Open Banking;
  \<open>json_codec\<close> on every struct that crosses the wire.

  \<^bold>\<open>Bounds and fuel.\<close> A Go loop that an arbitrary server could keep going is a \<open>partial_function\<close> into \<open>option\<close>, with \<open>None\<close>
  for the loop that does not end; that it ends is part of the theorems about it. The JSON parser takes as fuel the length
  of the text and one more, each call consumes a byte, and its nesting limit is the one of \<open>encoding/json\<close> (10000).
  The bounds of the code (\<open>MaxRegistrationLogoBytes\<close>, \<open>MaxJSONResponseBytes\<close>, \<open>maxRetryAfter\<close>, 500 rows per page, 31 days
  per window) are definitions with the values of the source.

  \<^bold>\<open>Parameters.\<close> Hash functions, ECDSA, ASN.1, PEM and certificate parsing; \<open>url.Parse\<close> and the printing of URLs
  (\<open>go_targets\<close> states what they do with the targets that the methods build); the formatting of numbers that are not
  integers, of RFC 3339 times and of HTTP dates; \<open>epoch.Seconds\<close> (a module outside the repository);
  \<open>singleflight\<close>; the OpenTelemetry library; the transport, the timers and the callbacks of the user.

  \<^bold>\<open>Not modelled.\<close> The interfaces in the files \<open>api.go\<close>, which repeat the signatures of the clients; named strings whose
  constants the SDK only passes through, which are strings here; the programs under \<open>examples/\<close>; the documentation of
  packages. Cancellation is seen where the code looks at it: in \<open>select\<close>, in the limiter and as an error of the transport.
  Of \<open>encoding/json\<close> two corners are left out: an array of numbers for a \<open>[]byte\<close>, and the merging of a list that is
  repeated under one name.
\<close>

end
